(* ===== verification/Prelude.thy ===== *)
theory Prelude
  imports
    Main
    "HOL-Library.AList"
    "HOL-Library.Char_ord"
    "HOL-Library.List_Lexorder"
    "HOL-Library.Monad_Syntax"
    "HOL-Library.Multiset"
    "HOL-Library.Signed_Division"
    "HOL-Library.Word"
begin

text \<open>
  What every theory of the library shares: the collections of rewrite rules, Go's
  fixed-width integers, Go's maps and the list lemmas the components use.

  A Go computation that can panic (an index or slice out of range, a nil dereference, an
  integer division by zero) is a value of type \<open>'a option\<close>: \<open>None\<close> is the panic, and the
  monad syntax of \<open>option\<close> is the sequencing of statements. A Go function that returns a
  value and an \<open>error\<close> returns a value of a sum type, \<open>Inl\<close> for the error.

  A Go map is an association list with distinct keys. The order of the list is the order in
  which \<open>range\<close> visits the map, which Go leaves open: a statement for all lists is a
  statement for every visiting order. A nil map reads as an empty one, so both are \<open>[]\<close>.
\<close>

named_theorems go_int \<open>rewriting of fixed-width integer arithmetic\<close>
named_theorems go_map \<open>lookup, update and deletion in Go maps\<close>
named_theorems go_str \<open>rewriting of Go's string functions\<close>

section \<open>Fixed-width integers\<close>

text \<open>
  \<open>int\<close> and \<open>int64\<close> are 64 bits wide on the platforms the program runs on. A value is an
  \<open>int\<close> of that range; every operation that can leave the range is followed by \<open>i64\<close>, which
  keeps the low 64 bits in two's complement.
\<close>

type_synonym int64 = int
type_synonym go_int = int

definition i64 :: "int \<Rightarrow> int64" where
  "i64 x = signed_take_bit 63 x"

definition in_i64 :: "int \<Rightarrow> bool" where
  "in_i64 x \<longleftrightarrow> - (2 ^ 63) \<le> x \<and> x < 2 ^ 63"

text \<open>Go's remainder has the sign of the dividend; a zero divisor panics.\<close>

definition go_mod :: "int64 \<Rightarrow> int64 \<Rightarrow> int64 option" where
  "go_mod a b = (if b = 0 then None else Some (i64 (a smod b)))"

definition go_div :: "int64 \<Rightarrow> int64 \<Rightarrow> int64 option" where
  "go_div a b = (if b = 0 then None else Some (i64 (a sdiv b)))"

lemma i64_id [go_int]: "in_i64 x \<Longrightarrow> i64 x = x"
  by (simp add: i64_def in_i64_def signed_take_bit_int_eq_self)

lemma in_i64_i64 [simp]: "in_i64 (i64 x)"
  using signed_take_bit_int_greater_eq_minus_exp [of 63 x] signed_take_bit_int_less_exp [of 63 x]
  by (simp add: in_i64_def i64_def)

text \<open>For \<open>linarith\<close>, which does not evaluate powers: \<open>unfolding in_i64_def int_pows\<close>.\<close>

lemma int_pows:
  "(2 :: int) ^ 31 = 2147483648" "(2 :: int) ^ 62 = 4611686018427387904" "(2 :: int) ^ 63 = 9223372036854775808"
  by simp_all

lemma i64_Suc: "in_i64 x \<Longrightarrow> i64 (x + 1) = (if x = 2 ^ 63 - 1 then - (2 ^ 63) else x + 1)"
  by (auto simp: in_i64_def i64_id) (simp add: i64_def)

lemma i64_numerals [simp]: "i64 0 = 0" "i64 1 = 1"
  by (simp_all add: i64_def)

lemma smod_nonneg [go_int]:
  fixes a b :: int
  assumes "0 \<le> a" "0 < b"
  shows "a smod b = a mod b"
  using assms by (cases "a = 0") (simp_all add: smod_int_alt_def)

lemma go_mod_nonneg [go_int]:
  assumes "0 \<le> a" "0 < b" "in_i64 b"
  shows "go_mod a b = Some (a mod b)"
proof -
  have "0 \<le> a mod b" "a mod b < b" using assms by simp_all
  with \<open>in_i64 b\<close> have "in_i64 (a mod b)" by (simp add: in_i64_def)
  with assms show ?thesis by (simp add: go_mod_def smod_nonneg i64_id)
qed

section \<open>Go maps\<close>

type_synonym ('k, 'v) gomap = "('k \<times> 'v) list"

definition gomap_ok :: "('k, 'v) gomap \<Rightarrow> bool" where
  "gomap_ok m \<longleftrightarrow> distinct (map fst m)"

abbreviation gget :: "('k, 'v) gomap \<Rightarrow> 'k \<Rightarrow> 'v option" where
  "gget m k \<equiv> map_of m k"

abbreviation gput :: "'k \<Rightarrow> 'v \<Rightarrow> ('k, 'v) gomap \<Rightarrow> ('k, 'v) gomap" where
  "gput k v m \<equiv> AList.update k v m"

abbreviation gdel :: "'k \<Rightarrow> ('k, 'v) gomap \<Rightarrow> ('k, 'v) gomap" where
  "gdel k m \<equiv> AList.delete k m"

lemma gomap_ok_Nil [simp, go_map]: "gomap_ok []"
  by (simp add: gomap_ok_def)

lemma gomap_ok_gput [simp, go_map]: "gomap_ok m \<Longrightarrow> gomap_ok (gput k v m)"
  by (simp add: gomap_ok_def distinct_update)

lemma gomap_ok_gdel [simp, go_map]: "gomap_ok m \<Longrightarrow> gomap_ok (gdel k m)"
  by (simp add: gomap_ok_def distinct_delete)

lemma gget_gput [simp, go_map]: "gget (gput k v m) k' = (if k' = k then Some v else gget m k')"
  by (simp add: update_conv')

lemma gget_gdel [simp, go_map]: "gget (gdel k m) k' = (if k' = k then None else gget m k')"
  by (simp add: delete_conv')

lemma gget_gput_fun: "gget (gput k v m) = (gget m)(k \<mapsto> v)"
  by (rule update_conv')

lemma keys_gput [simp, go_map]: "set (map fst (gput k v m)) = insert k (set (map fst m))"
  by (auto simp: dom_update [unfolded dom_map_of_conv_image_fst])

lemma gget_perm:
  assumes "gomap_ok m" "mset m = mset m'"
  shows "gget m = gget m'"
proof -
  from assms(2) have s: "set m = set m'" by (rule mset_eq_setD)
  have "mset (map fst m) = mset (map fst m')" using assms(2) by simp
  with assms(1) have "distinct (map fst m')"
    unfolding gomap_ok_def by (metis mset_eq_imp_distinct_iff)
  with assms(1) s show ?thesis unfolding gomap_ok_def by (simp add: map_of_inject_set)
qed

text \<open>The keyed store: one contract for every map the program keeps behind a lock.\<close>

locale keyed_store =
  fixes lookup :: "'m \<Rightarrow> 'k \<Rightarrow> 'v option"
    and store :: "'k \<Rightarrow> 'v \<Rightarrow> 'm \<Rightarrow> 'm"
    and remove :: "'k \<Rightarrow> 'm \<Rightarrow> 'm"
    and valid :: "'m \<Rightarrow> bool"
  assumes lookup_store: "valid m \<Longrightarrow> lookup (store k v m) k' = (if k' = k then Some v else lookup m k')"
    and lookup_remove: "valid m \<Longrightarrow> lookup (remove k m) k' = (if k' = k then None else lookup m k')"
    and valid_store: "valid m \<Longrightarrow> valid (store k v m)"
    and valid_remove: "valid m \<Longrightarrow> valid (remove k m)"
begin

lemma valid_fold_remove: "valid m \<Longrightarrow> valid (fold remove ks m)"
  by (induction ks arbitrary: m) (simp_all add: valid_remove)

lemma lookup_fold_remove:
  "valid m \<Longrightarrow> lookup (fold remove ks m) k = (if k \<in> set ks then None else lookup m k)"
  by (induction ks arbitrary: m) (auto simp: lookup_remove valid_remove)

lemma lookup_fold_store_other:
  "valid m \<Longrightarrow> k \<notin> fst ` set kvs \<Longrightarrow> lookup (fold (\<lambda>(a, b). store a b) kvs m) k = lookup m k"
  by (induction kvs arbitrary: m) (auto simp: lookup_store valid_store)

end

interpretation gm: keyed_store map_of AList.update AList.delete gomap_ok
  by unfold_locales auto

section \<open>Buckets\<close>

text \<open>
  A map of slices that a loop fills by appending: the idiom
  \<open>if _, ok := m[k]; ok { m[k] = append(m[k], x) } else { m[k] = []T{x} }\<close>.
\<close>

definition add_to_bucket :: "'k \<Rightarrow> 'a \<Rightarrow> ('k, 'a list) gomap \<Rightarrow> ('k, 'a list) gomap" where
  "add_to_bucket key x m =
    (case gget m key of Some xs \<Rightarrow> gput key (xs @ [x]) m | None \<Rightarrow> gput key [x] m)"

definition bucket :: "('k, 'a list) gomap \<Rightarrow> 'k \<Rightarrow> 'a list" where
  "bucket m k = (case gget m k of None \<Rightarrow> [] | Some xs \<Rightarrow> xs)"

lemma bucket_Nil [simp]: "bucket [] k = []"
  by (simp add: bucket_def)

lemma bucket_add [simp]: "bucket (add_to_bucket k x m) k' = (if k' = k then bucket m k @ [x] else bucket m k')"
  by (simp add: bucket_def add_to_bucket_def split: option.split)

lemma bucket_foldl_add:
  "bucket (foldl (\<lambda>m x. add_to_bucket (key x) (val x) m) m xs) k =
    bucket m k @ map val (filter (\<lambda>x. key x = k) xs)"
  by (induction xs arbitrary: m) simp_all

lemma bucket_foldl_nested:
  assumes "\<And>m x. bucket (f m x) k = bucket m k @ g x"
  shows "bucket (foldl f m xs) k = bucket m k @ concat (map g xs)"
  by (induction xs arbitrary: m) (simp_all add: assms)

lemma gomap_ok_foldl_add [simp]: "gomap_ok m \<Longrightarrow> gomap_ok (foldl (\<lambda>m x. add_to_bucket (key x) (val x) m) m xs)"
  by (induction xs arbitrary: m) (auto simp: add_to_bucket_def split: option.split)

lemma gget_foldl_add:
  "gget (foldl (\<lambda>m x. add_to_bucket (key x) (val x) m) [] xs) k =
    (if filter (\<lambda>x. key x = k) xs = [] then None else Some (map val (filter (\<lambda>x. key x = k) xs)))"
  by (induction xs rule: rev_induct) (auto simp: add_to_bucket_def split: option.split)

section \<open>Rows of a database\<close>

text \<open>
  What a query gives: an error, or the rows, where a row that cannot be scanned is \<open>None\<close>; the
  loops over rows log such a row and skip it.
\<close>

type_synonym 'r rows = "string + 'r option list"

definition scanned :: "'r option list \<Rightarrow> 'r list" where
  "scanned rs = List.map_filter (\<lambda>r. r) rs"

section \<open>Lists\<close>

lemma foldl_invariant:
  assumes "P a" "\<And>s x. P s \<Longrightarrow> x \<in> set xs \<Longrightarrow> P (f s x)"
  shows "P (foldl f a xs)"
  using assms by (induction xs arbitrary: a) auto

lemma fold_invariant_set:
  assumes "P a" "\<And>s x. P s \<Longrightarrow> x \<in> set xs \<Longrightarrow> P (f x s)"
  shows "P (fold f xs a)"
  using assms by (induction xs arbitrary: a) auto

lemma sorted_wrt_take: "sorted_wrt R xs \<Longrightarrow> sorted_wrt R (take n xs)"
  by (metis append_take_drop_id sorted_wrt_append)

text \<open>A fold over \<open>option\<close>-valued steps: a Go loop whose body can panic.\<close>

fun foldM :: "('s \<Rightarrow> 'a \<Rightarrow> 's option) \<Rightarrow> 's \<Rightarrow> 'a list \<Rightarrow> 's option" where
  "foldM f s [] = Some s"
| "foldM f s (x # xs) = (case f s x of None \<Rightarrow> None | Some s' \<Rightarrow> foldM f s' xs)"

lemma foldM_total:
  assumes "P s" "\<And>s x. P s \<Longrightarrow> x \<in> set xs \<Longrightarrow> \<exists>s'. f s x = Some s' \<and> P s'"
  shows "\<exists>s'. foldM f s xs = Some s' \<and> P s'"
  using assms
proof (induction xs arbitrary: s)
  case (Cons x xs)
  from Cons.prems obtain s1 where "f s x = Some s1" "P s1" by (meson list.set_intros(1))
  with Cons.IH [of s1] Cons.prems show ?case by auto
qed simp

lemma foldM_invariant:
  assumes "foldM f s xs = Some s'" "P s"
    and "\<And>s x s1. P s \<Longrightarrow> x \<in> set xs \<Longrightarrow> f s x = Some s1 \<Longrightarrow> P s1"
  shows "P s'"
  using assms
proof (induction xs arbitrary: s)
  case (Cons x xs)
  from Cons.prems(1) obtain s1 where s1: "f s x = Some s1" "foldM f s1 xs = Some s'"
    by (auto split: option.splits)
  have "P s1" by (rule Cons.prems(3) [OF Cons.prems(2) _ s1(1)]) simp
  then show ?case using Cons.IH [OF s1(2)] Cons.prems(3) by (meson list.set_intros(2))
qed simp

lemma foldM_append:
  "foldM f s (xs @ ys) = (case foldM f s xs of None \<Rightarrow> None | Some s' \<Rightarrow> foldM f s' ys)"
  by (induction xs arbitrary: s) (auto split: option.splits)

lemma foldM_concat: "foldM (\<lambda>a x. foldM f a (g x)) a xs = foldM f a (concat (map g xs))"
  by (induction xs arbitrary: a) (auto simp: foldM_append split: option.split)

end
