(* ===== verification/Go_Float.thy ===== *)
theory Go_Float
  imports Prelude Complex_Main "HOL-Library.Log_Nat"
begin

text \<open>
  Go's \<open>float64\<close>: IEEE 754 binary64 with rounding to nearest, ties to even. A finite value
  is a sign and a rational magnitude, so both zeros are kept apart; NaN payloads, which Go
  programs do not observe through the operators modelled here, are not distinguished.
  Every operation computes the exact rational result and rounds it once, as the standard
  prescribes. All definitions are executable.
\<close>

section \<open>Values and rounding\<close>

datatype float64 = NaN | Inf bool | Fin bool rat

definition pow2 :: "int \<Rightarrow> rat" where
  "pow2 e = (if 0 \<le> e then of_int (2 ^ nat e) else 1 / of_int (2 ^ nat (- e)))"

text \<open>The binary exponent of a positive rational: the \<open>e\<close> with \<open>2^e \<le> q < 2^(e+1)\<close>.\<close>

definition ilog2 :: "rat \<Rightarrow> int" where
  "ilog2 q =
    (let (a, b) = quotient_of q; e = bitlen a - bitlen b
     in if pow2 e \<le> q then e else e - 1)"

definition round_half_even :: "rat \<Rightarrow> int" where
  "round_half_even q =
    (let f = \<lfloor>q\<rfloor>; d = q - of_int f
     in if d < 1 / 2 then f else if 1 / 2 < d then f + 1 else if even f then f else f + 1)"

text \<open>
  53 significant bits, and no bit below \<open>2^-1074\<close> (the subnormal range).
\<close>

definition round_mag :: "rat \<Rightarrow> rat" where
  "round_mag m =
    (if m = 0 then 0
     else let e = max (ilog2 m - 52) (- 1074)
          in of_int (round_half_even (m / pow2 e)) * pow2 e)"

definition round64 :: "bool \<Rightarrow> rat \<Rightarrow> float64" where
  "round64 s m = (let r = round_mag m in if of_int (2 ^ 1024) \<le> r then Inf s else Fin s r)"

text \<open>\<open>f_of_rat z q\<close> rounds \<open>q\<close>; an exact zero gets the sign \<open>z\<close>.\<close>

definition f_of_rat :: "bool \<Rightarrow> rat \<Rightarrow> float64" where
  "f_of_rat z q = (if q = 0 then Fin z 0 else round64 (q < 0) \<bar>q\<bar>)"

definition f_of_int :: "int \<Rightarrow> float64" where
  "f_of_int i = f_of_rat False (of_int i)"

fun f_val :: "float64 \<Rightarrow> rat" where
  "f_val (Fin s m) = (if s then - m else m)"
| "f_val _ = 0"

fun is_nan :: "float64 \<Rightarrow> bool" where
  "is_nan NaN = True"
| "is_nan _ = False"

fun is_inf :: "float64 \<Rightarrow> bool" where
  "is_inf (Inf _) = True"
| "is_inf _ = False"

fun is_fin :: "float64 \<Rightarrow> bool" where
  "is_fin (Fin _ _) = True"
| "is_fin _ = False"

text \<open>A value a Go variable can hold: the magnitude is one that rounding leaves unchanged.\<close>

fun f_ok :: "float64 \<Rightarrow> bool" where
  "f_ok (Fin s m) = (0 \<le> m \<and> round_mag m = m \<and> m < of_int (2 ^ 1024))"
| "f_ok _ = True"

section \<open>Operators\<close>

fun f_neg :: "float64 \<Rightarrow> float64" where
  "f_neg NaN = NaN"
| "f_neg (Inf s) = Inf (\<not> s)"
| "f_neg (Fin s m) = Fin (\<not> s) m"

fun f_abs :: "float64 \<Rightarrow> float64" where
  "f_abs NaN = NaN"
| "f_abs (Inf s) = Inf False"
| "f_abs (Fin s m) = Fin False m"

fun f_add :: "float64 \<Rightarrow> float64 \<Rightarrow> float64" where
  "f_add (Fin s m) (Fin t n) = f_of_rat (m = 0 \<and> n = 0 \<and> s \<and> t) (f_val (Fin s m) + f_val (Fin t n))"
| "f_add (Inf s) (Inf t) = (if s = t then Inf s else NaN)"
| "f_add (Inf s) (Fin t n) = Inf s"
| "f_add (Fin s m) (Inf t) = Inf t"
| "f_add _ _ = NaN"

definition f_sub :: "float64 \<Rightarrow> float64 \<Rightarrow> float64" where
  "f_sub a b = f_add a (f_neg b)"

fun f_mul :: "float64 \<Rightarrow> float64 \<Rightarrow> float64" where
  "f_mul (Fin s m) (Fin t n) = f_of_rat (s \<noteq> t) (f_val (Fin s m) * f_val (Fin t n))"
| "f_mul (Inf s) (Inf t) = Inf (s \<noteq> t)"
| "f_mul (Inf s) (Fin t n) = (if n = 0 then NaN else Inf (s \<noteq> t))"
| "f_mul (Fin s m) (Inf t) = (if m = 0 then NaN else Inf (s \<noteq> t))"
| "f_mul _ _ = NaN"

fun f_div :: "float64 \<Rightarrow> float64 \<Rightarrow> float64" where
  "f_div (Fin s m) (Fin t n) =
     (if n = 0 then (if m = 0 then NaN else Inf (s \<noteq> t))
      else f_of_rat (s \<noteq> t) (f_val (Fin s m) / f_val (Fin t n)))"
| "f_div (Inf s) (Inf t) = NaN"
| "f_div (Inf s) (Fin t n) = Inf (s \<noteq> t)"
| "f_div (Fin s m) (Inf t) = Fin (s \<noteq> t) 0"
| "f_div _ _ = NaN"

text \<open>Comparisons are false as soon as one side is NaN; \<open>!=\<close> is their only exception.\<close>

fun f_lt :: "float64 \<Rightarrow> float64 \<Rightarrow> bool" where
  "f_lt (Fin s m) (Fin t n) = (f_val (Fin s m) < f_val (Fin t n))"
| "f_lt (Inf s) (Inf t) = (s \<and> \<not> t)"
| "f_lt (Inf s) (Fin t n) = s"
| "f_lt (Fin s m) (Inf t) = (\<not> t)"
| "f_lt _ _ = False"

fun f_eq :: "float64 \<Rightarrow> float64 \<Rightarrow> bool" where
  "f_eq (Fin s m) (Fin t n) = (f_val (Fin s m) = f_val (Fin t n))"
| "f_eq (Inf s) (Inf t) = (s = t)"
| "f_eq _ _ = False"

definition f_le :: "float64 \<Rightarrow> float64 \<Rightarrow> bool" where
  "f_le a b \<longleftrightarrow> f_lt a b \<or> f_eq a b"

abbreviation f_zero :: float64 where
  "f_zero \<equiv> Fin False 0"

section \<open>Order\<close>

lemma f_lt_nan [simp]: "\<not> f_lt NaN b" "\<not> f_lt a NaN"
  by (cases b; simp) (cases a; simp)

lemma f_eq_nan [simp]: "\<not> f_eq NaN b" "\<not> f_eq a NaN"
  by (cases b; simp) (cases a; simp)

lemma f_lt_irrefl [simp]: "\<not> f_lt a a"
  by (cases a) auto

lemma f_le_refl: "\<not> is_nan a \<Longrightarrow> f_le a a"
  by (cases a) (auto simp: f_le_def)

lemma f_lt_trans: "f_lt a b \<Longrightarrow> f_lt b c \<Longrightarrow> f_lt a c"
  by (cases a; cases b; cases c) (auto split: if_splits)

lemma f_le_trans: "f_le a b \<Longrightarrow> f_le b c \<Longrightarrow> f_le a c"
  by (cases a; cases b; cases c) (auto simp: f_le_def split: if_splits)

lemma f_not_lt: "\<not> is_nan a \<Longrightarrow> \<not> is_nan b \<Longrightarrow> \<not> f_lt a b \<longleftrightarrow> f_le b a"
  by (cases a; cases b) (auto simp: f_le_def split: if_splits)

lemma f_lt_imp_le: "f_lt a b \<Longrightarrow> f_le a b"
  by (simp add: f_le_def)

lemma f_le_not_nan: "f_le a b \<Longrightarrow> \<not> is_nan a \<and> \<not> is_nan b"
  by (cases a; cases b) (auto simp: f_le_def)

section \<open>Rounding\<close>

lemma pow2_pos [simp]: "0 < pow2 e"
  by (simp add: pow2_def)

lemma round_half_even_of_int [simp]: "round_half_even (of_int i) = i"
  by (simp add: round_half_even_def)

lemma round_half_even_mono: "p \<le> q \<Longrightarrow> round_half_even p \<le> round_half_even q"
proof -
  assume pq: "p \<le> q"
  then have f: "\<lfloor>p\<rfloor> \<le> \<lfloor>q\<rfloor>" by (rule floor_mono)
  show ?thesis
  proof (cases "\<lfloor>p\<rfloor> = \<lfloor>q\<rfloor>")
    case True
    with pq show ?thesis by (auto simp: round_half_even_def Let_def)
  next
    case False
    with f have "\<lfloor>p\<rfloor> + 1 \<le> \<lfloor>q\<rfloor>" by simp
    then show ?thesis by (auto simp: round_half_even_def Let_def)
  qed
qed

lemma round_half_even_nonneg: "0 \<le> q \<Longrightarrow> 0 \<le> round_half_even q"
  using round_half_even_mono [of "of_int 0" q] by (simp del: of_int_0)

lemma round_mag_nonneg: "0 \<le> m \<Longrightarrow> 0 \<le> round_mag m"
  by (simp add: round_mag_def Let_def round_half_even_nonneg less_imp_le)

lemma round_mag_0 [simp]: "round_mag 0 = 0"
  by (simp add: round_mag_def)

lemma pow2_add: "pow2 (a + b) = pow2 a * pow2 b"
proof -
  have "pow2 e = 2 powi e" for e
    by (auto simp: pow2_def power_int_def inverse_eq_divide power_one_over)
  then show ?thesis by (simp add: power_int_add)
qed

lemma pow2_nonzero [simp]: "pow2 e \<noteq> 0"
  using pow2_pos [of e] by (simp del: pow2_pos)

lemma pow2_numeral_exp [simp]: "0 \<le> e \<Longrightarrow> pow2 e = of_int (2 ^ nat e)"
  by (simp add: pow2_def)

lemma pow2_diff: "pow2 a / pow2 b = pow2 (a - b)"
  using pow2_add [of "a - b" b] by (simp add: field_simps)

lemma pow2_mono: "a \<le> b \<Longrightarrow> pow2 a \<le> pow2 b"
proof -
  assume "a \<le> b"
  then have "1 \<le> pow2 (b - a)" by simp
  moreover have "pow2 b = pow2 a * pow2 (b - a)" by (simp flip: pow2_add del: pow2_numeral_exp)
  ultimately show ?thesis using mult_left_mono [of 1 "pow2 (b - a)" "pow2 a"] by simp
qed

lemma pow2_less_imp: "pow2 a < pow2 b \<Longrightarrow> a < b"
  using pow2_mono [of b a] by (meson not_le)

text \<open>\<open>ilog2\<close> is the exponent of the leading bit.\<close>

lemma bitlen_pow2:
  assumes "0 < (a::int)"
  shows "pow2 (bitlen a - 1) \<le> of_int a" "of_int a < pow2 (bitlen a)"
proof -
  have b: "2 ^ nat (bitlen a - 1) \<le> a \<and> a < 2 ^ nat (bitlen a)" "0 < bitlen a"
    using assms bitlen_bounds [of a] bitlen_nonneg [of a] by (auto simp: bitlen_eq_zero_iff less_le)
  then have "(of_int (2 ^ nat (bitlen a - 1)) :: rat) \<le> of_int a" "(of_int a :: rat) < of_int (2 ^ nat (bitlen a))"
    by (simp_all only: of_int_le_iff of_int_less_iff)
  with b show "pow2 (bitlen a - 1) \<le> of_int a" "of_int a < pow2 (bitlen a)"
    by (simp_all add: pow2_def)
qed

lemma ilog2_bounds:
  assumes "0 < q"
  shows "pow2 (ilog2 q) \<le> q" "q < pow2 (ilog2 q + 1)"
proof -
  obtain a b where ab: "quotient_of q = (a, b)" by fastforce
  then have q: "q = of_int a / of_int b" and b: "0 < b"
    by (simp_all add: quotient_of_div quotient_of_denom_pos)
  with assms have a: "0 < a" by (simp add: zero_less_divide_iff)
  let ?e = "bitlen a - bitlen b"
  have lo: "pow2 (?e - 1) \<le> q"
  proof -
    have "pow2 (?e - 1) = pow2 (bitlen a - 1) / pow2 (bitlen b)" by (simp add: pow2_diff algebra_simps)
    also have "\<dots> \<le> q" unfolding q
      using bitlen_pow2 [OF a] bitlen_pow2 [OF b] a b by (intro frac_le) (auto intro: less_imp_le)
    finally show ?thesis .
  qed
  have hi: "q < pow2 (?e + 1)"
  proof -
    have "q < pow2 (bitlen a) / pow2 (bitlen b - 1)" unfolding q
      using bitlen_pow2 [OF a] bitlen_pow2 [OF b] a b by (intro frac_less) auto
    also have "\<dots> = pow2 (?e + 1)" by (simp add: pow2_diff algebra_simps)
    finally show ?thesis .
  qed
  from lo hi show "pow2 (ilog2 q) \<le> q" "q < pow2 (ilog2 q + 1)"
    by (auto simp: ilog2_def ab Let_def)
qed

lemma ilog2_less: "0 < q \<Longrightarrow> q < pow2 e \<Longrightarrow> ilog2 q < e"
  using ilog2_bounds [of q] by (blast intro: pow2_less_imp le_less_trans)

text \<open>A magnitude of at most 53 bits above the subnormal limit is exact.\<close>

lemma round_mag_exact_aux:
  assumes "0 \<le> k" "k < 2 ^ 53" "- 1074 \<le> e" "m = of_int k * pow2 e"
  shows "round_mag m = m"
proof (cases "k = 0")
  case False
  with assms have k: "0 < k" by simp
  then have m: "0 < m" using assms(4) by simp
  have "m < of_int (2 ^ 53) * pow2 e"
    using assms(2,4) by (simp only: mult_less_cancel_right_pos pow2_pos of_int_less_iff)
  also have "\<dots> = pow2 (53 + e)" by (simp add: pow2_add)
  finally have "ilog2 m < 53 + e" by (rule ilog2_less [OF m])
  with assms(3) have e: "max (ilog2 m - 52) (- 1074) \<le> e" (is "?e \<le> e") by simp
  have "m / pow2 ?e = of_int k * pow2 (e - ?e)" unfolding assms(4) by (simp only: pow2_diff [symmetric] times_divide_eq_right)
  also have "\<dots> = of_int (k * 2 ^ nat (e - ?e))" using e by simp
  finally have "round_mag m = (m / pow2 ?e) * pow2 ?e"
    using m by (simp only: round_mag_def Let_def round_half_even_of_int) simp
  then show ?thesis using pow2_pos [of ?e] by simp
qed (use assms in simp)

lemma round_mag_exact:
  assumes "0 \<le> k" "k \<le> 2 ^ 53" "- 1074 \<le> e" "m = of_int k * pow2 e"
  shows "round_mag m = m"
proof (cases "k = 2 ^ 53")
  case True
  then have "m = of_int 1 * pow2 (53 + e)" using assms(4) by (simp add: pow2_add)
  with assms(3) show ?thesis by (intro round_mag_exact_aux [of 1 "53 + e"]) auto
qed (use assms in \<open>intro round_mag_exact_aux [of k e]; simp\<close>)

lemma round_mag_form:
  assumes "0 < m"
  shows "\<exists>k e. 0 \<le> k \<and> k \<le> 2 ^ 53 \<and> - 1074 \<le> e \<and> round_mag m = of_int k * pow2 e"
proof -
  let ?e = "max (ilog2 m - 52) (- 1074)"
  have "m < pow2 (ilog2 m + 1)" using assms by (rule ilog2_bounds)
  also have "\<dots> \<le> pow2 (53 + ?e)" by (rule pow2_mono) simp
  finally have "m / pow2 ?e \<le> of_int (2 ^ 53)" by (simp add: pow2_add field_simps)
  from round_half_even_mono [OF this] have "round_half_even (m / pow2 ?e) \<le> 2 ^ 53"
    by (simp only: round_half_even_of_int)
  moreover have "0 \<le> round_half_even (m / pow2 ?e)"
    using assms by (intro round_half_even_nonneg) (simp add: less_imp_le)
  ultimately show ?thesis using assms
    by (intro exI [of _ "round_half_even (m / pow2 ?e)"] exI [of _ ?e]) (simp add: round_mag_def Let_def)
qed

lemma round_mag_idem: "0 \<le> m \<Longrightarrow> round_mag (round_mag m) = round_mag m"
  using round_mag_form [of m] round_mag_exact by (cases "m = 0") fastforce+

section \<open>Every operation yields a representable value\<close>

lemma f_ok_of_rat [simp]: "f_ok (f_of_rat z q)"
  by (auto simp: f_of_rat_def round64_def Let_def round_mag_nonneg round_mag_idem)

lemma f_ok_of_int [simp]: "f_ok (f_of_int i)"
  by (simp add: f_of_int_def)

lemma f_ok_neg [simp]: "f_ok (f_neg a) = f_ok a"
  by (cases a) auto

lemma f_ok_add [simp]: "f_ok (f_add a b)"
  by (cases a; cases b) (auto simp del: f_val.simps)

lemma f_ok_sub [simp]: "f_ok (f_sub a b)"
  by (simp add: f_sub_def)

lemma f_ok_mul [simp]: "f_ok (f_mul a b)"
  by (cases a; cases b) (auto simp del: f_val.simps)

lemma f_ok_div [simp]: "f_ok (f_div a b)"
  by (cases a; cases b) (auto simp del: f_val.simps)

text \<open>Integers of at most 53 bits are exact, and so are their sums and differences.\<close>

lemma f_of_int_exact:
  assumes "\<bar>i\<bar> \<le> 2 ^ 53"
  shows "f_of_int i = Fin (i < 0) \<bar>of_int i\<bar>"
proof -
  have "round_mag \<bar>of_int i\<bar> = \<bar>of_int i\<bar>"
    using assms by (intro round_mag_exact [of "\<bar>i\<bar>" 0]) auto
  moreover have "(of_int \<bar>i\<bar> :: rat) \<le> of_int (2 ^ 53)" using assms by (simp only: of_int_le_iff)
  then have "\<bar>of_int i\<bar> < (2 ^ 1024 :: rat)"
    by (simp only: of_int_abs [symmetric]) (rule le_less_trans, assumption, simp)
  ultimately show ?thesis by (auto simp: f_of_int_def f_of_rat_def round64_def)
qed

lemma f_val_of_int: "\<bar>i\<bar> \<le> 2 ^ 53 \<Longrightarrow> f_val (f_of_int i) = of_int i"
  by (auto simp: f_of_int_exact)

lemma f_add_of_int:
  assumes "\<bar>i\<bar> \<le> 2 ^ 53" "\<bar>j\<bar> \<le> 2 ^ 53"
  shows "f_add (f_of_int i) (f_of_int j) = f_of_int (i + j)"
proof -
  have "f_add (f_of_int i) (f_of_int j) = f_of_rat False (f_val (f_of_int i) + f_val (f_of_int j))"
    using assms by (simp add: f_of_int_exact)
  then show ?thesis using assms by (simp add: f_val_of_int) (simp add: f_of_int_def)
qed

end
