(* ===== verification/Go_Strings.thy ===== *)
theory Go_Strings
  imports Prelude Go_Float
begin

text \<open>
  The parts of Go's \<open>strings\<close> and \<open>strconv\<close> the program uses. A Go string is a sequence of
  bytes and so is an Isabelle \<open>string\<close>; Go compares strings bytewise, which is the order of
  \<open>HOL-Library.List_Lexorder\<close>. Separators are single bytes wherever the program splits.
\<close>

section \<open>Splitting and joining\<close>

fun go_split :: "char \<Rightarrow> string \<Rightarrow> string list" where
  "go_split c [] = [[]]"
| "go_split c (x # xs) =
    (if x = c then [] # go_split c xs
     else (case go_split c xs of [] \<Rightarrow> [[x]] | y # ys \<Rightarrow> (x # y) # ys))"

text \<open>\<open>strings.SplitN(s, sep, 2)\<close>: cut at the first separator.\<close>

definition go_split2 :: "char \<Rightarrow> string \<Rightarrow> string list" where
  "go_split2 c s =
    (if c \<in> set s then [takeWhile (\<lambda>x. x \<noteq> c) s, tl (dropWhile (\<lambda>x. x \<noteq> c) s)] else [s])"

fun go_join :: "string \<Rightarrow> string list \<Rightarrow> string" where
  "go_join sep [] = []"
| "go_join sep [x] = x"
| "go_join sep (x # xs) = x @ sep @ go_join sep xs"

text \<open>\<open>strings.Index\<close> with a one-byte needle: the first position, or -1.\<close>

fun go_index :: "string \<Rightarrow> char \<Rightarrow> int" where
  "go_index [] c = - 1"
| "go_index (x # xs) c =
    (if x = c then 0 else let i = go_index xs c in if i < 0 then - 1 else i + 1)"

text \<open>\<open>strings.Replace(s, c, "", -1)\<close> and \<open>strings.Replace(s, c, d, -1)\<close> for bytes.\<close>

definition go_remove :: "char \<Rightarrow> string \<Rightarrow> string" where
  "go_remove c s = filter (\<lambda>x. x \<noteq> c) s"

definition go_replace :: "char \<Rightarrow> char \<Rightarrow> string \<Rightarrow> string" where
  "go_replace c d s = map (\<lambda>x. if x = c then d else x) s"

definition go_trim_right :: "char \<Rightarrow> string \<Rightarrow> string" where
  "go_trim_right c s = rev (dropWhile (\<lambda>x. x = c) (rev s))"

definition go_trim :: "char \<Rightarrow> string \<Rightarrow> string" where
  "go_trim c s = go_trim_right c (dropWhile (\<lambda>x. x = c) s)"

definition go_has_prefix :: "string \<Rightarrow> string \<Rightarrow> bool" where
  "go_has_prefix s p \<longleftrightarrow> take (length p) s = p"

definition go_contains :: "string \<Rightarrow> string \<Rightarrow> bool" where
  "go_contains s sub = list_ex (\<lambda>i. take (length sub) (drop i s) = sub) [0..<Suc (length s)]"

text \<open>Slicing \<open>s[i:j]\<close> panics unless \<open>0 \<le> i \<le> j \<le> len(s)\<close>, indexing unless in range.\<close>

definition go_slice :: "'a list \<Rightarrow> int \<Rightarrow> int \<Rightarrow> 'a list option" where
  "go_slice s i j =
    (if 0 \<le> i \<and> i \<le> j \<and> j \<le> int (length s) then Some (take (nat (j - i)) (drop (nat i) s)) else None)"

definition go_nth :: "'a list \<Rightarrow> int \<Rightarrow> 'a option" where
  "go_nth s i = (if 0 \<le> i \<and> i < int (length s) then Some (s ! nat i) else None)"

text \<open>
  \<open>strings.Fields\<close> splits around runs of Unicode white space. \<open>space_len s\<close> is the number of
  bytes of the UTF-8 white space character \<open>s\<close> starts with, 0 if it starts with none.
\<close>

fun space_len :: "int list \<Rightarrow> nat" where
  "space_len (a # b # c # r) =
    (if a \<in> {9, 10, 11, 12, 13, 32} then 1
     else if a = 194 \<and> (b = 133 \<or> b = 160) then 2
     else if a = 225 \<and> b = 154 \<and> c = 128 then 3
     else if a = 226 \<and> b = 128 \<and> (128 \<le> c \<and> c \<le> 138 \<or> c = 168 \<or> c = 169 \<or> c = 175) then 3
     else if a = 226 \<and> b = 129 \<and> c = 159 then 3
     else if a = 227 \<and> b = 128 \<and> c = 128 then 3
     else 0)"
| "space_len [a, b] =
    (if a \<in> {9, 10, 11, 12, 13, 32} then 1 else if a = 194 \<and> (b = 133 \<or> b = 160) then 2 else 0)"
| "space_len [a] = (if a \<in> {9, 10, 11, 12, 13, 32} then 1 else 0)"
| "space_len [] = 0"

definition lead_space :: "string \<Rightarrow> nat" where
  "lead_space s = space_len (map of_char (take 3 s))"

function go_fields_acc :: "string \<Rightarrow> string \<Rightarrow> string list" where
  "go_fields_acc w [] = (if w = [] then [] else [w])"
| "go_fields_acc w (x # xs) =
    (if lead_space (x # xs) = 0 then go_fields_acc (w @ [x]) xs
     else (if w = [] then [] else [w]) @ go_fields_acc [] (drop (lead_space (x # xs)) (x # xs)))"
  by pat_completeness auto
termination
  by (relation "measure (\<lambda>(w, s). length s)") auto

definition go_fields :: "string \<Rightarrow> string list" where
  "go_fields s = go_fields_acc [] s"

text \<open>
  \<open>strings.TrimSpace\<close>. \<open>trail_space s\<close> is the number of bytes of the white space character
  \<open>s\<close> ends with.
\<close>

definition ends_in_space :: "nat \<Rightarrow> string \<Rightarrow> bool" where
  "ends_in_space k s \<longleftrightarrow> k \<le> length s \<and> space_len (map of_char (drop (length s - k) s)) = k"

definition trail_space :: "string \<Rightarrow> nat" where
  "trail_space s = (if ends_in_space 1 s then 1 else if ends_in_space 2 s then 2 else if ends_in_space 3 s then 3 else 0)"

function go_trim_left_space :: "string \<Rightarrow> string" where
  "go_trim_left_space s = (if s = [] \<or> lead_space s = 0 then s else go_trim_left_space (drop (lead_space s) s))"
  by pat_completeness auto
termination
  by (relation "measure length") auto

function go_trim_right_space :: "string \<Rightarrow> string" where
  "go_trim_right_space s =
    (if s = [] \<or> trail_space s = 0 then s else go_trim_right_space (take (length s - trail_space s) s))"
  by pat_completeness auto
termination
  by (relation "measure length") auto

declare go_trim_left_space.simps [simp del] go_trim_right_space.simps [simp del]

definition go_trim_space :: "string \<Rightarrow> string" where
  "go_trim_space s = go_trim_right_space (go_trim_left_space s)"

section \<open>Numbers\<close>

definition digit_char :: "int \<Rightarrow> char" where
  "digit_char d = char_of (48 + d)"

text \<open>The decimal digits of a non-negative number.\<close>

function nat_digits :: "int \<Rightarrow> string" where
  "nat_digits n = (if n < 10 then [digit_char n] else nat_digits (n div 10) @ [digit_char (n mod 10)])"
  by pat_completeness auto
termination
  by (relation "measure nat") auto

declare nat_digits.simps [simp del]

definition itoa :: "int \<Rightarrow> string" where
  "itoa i = (if i < 0 then CHR ''-'' # nat_digits (- i) else nat_digits i)"

definition digit_val :: "char \<Rightarrow> int option" where
  "digit_val c = (let n = of_char c :: int in if 48 \<le> n \<and> n \<le> 57 then Some (n - 48) else None)"

fun digits_val :: "int \<Rightarrow> string \<Rightarrow> int option" where
  "digits_val acc [] = Some acc"
| "digits_val acc (c # cs) =
    (case digit_val c of None \<Rightarrow> None | Some d \<Rightarrow> digits_val (10 * acc + d) cs)"

datatype num_error = ErrSyntax | ErrRange

text \<open>\<open>strconv.ParseInt(s, 10, bits)\<close>; \<open>strconv.Atoi\<close> is the case of 64 bits.\<close>

definition split_sign :: "string \<Rightarrow> bool \<times> string" where
  "split_sign s =
    (case s of [] \<Rightarrow> (False, s)
     | c # r \<Rightarrow> if c = CHR ''-'' then (True, r) else if c = CHR ''+'' then (False, r) else (False, s))"

definition parse_int :: "nat \<Rightarrow> string \<Rightarrow> num_error + int" where
  "parse_int bits s =
    (let (neg, ds) = split_sign s
     in if ds = [] then Inl ErrSyntax
        else case digits_val 0 ds of
            None \<Rightarrow> Inl ErrSyntax
          | Some n \<Rightarrow>
              (let v = (if neg then - n else n)
               in if - (2 ^ (bits - 1)) \<le> v \<and> v < 2 ^ (bits - 1) then Inr v else Inl ErrRange))"

abbreviation atoi :: "string \<Rightarrow> num_error + int" where
  "atoi \<equiv> parse_int 64"

text \<open>
  \<open>strconv.ParseFloat(s, 64)\<close> on decimal input: sign, digits with at most one point, optional
  exponent, or one of the names of the special values in any case. The exponent accumulates
  until it passes 10000, as the library does. An overflowing value is a range error.
\<close>

definition ascii_lower :: "char \<Rightarrow> char" where
  "ascii_lower c = (let n = of_char c :: int in if 65 \<le> n \<and> n \<le> 90 then char_of (n + 32) else c)"

fun exp_digits :: "int \<Rightarrow> string \<Rightarrow> int option" where
  "exp_digits e [] = Some e"
| "exp_digits e (c # cs) =
    (case digit_val c of None \<Rightarrow> None | Some d \<Rightarrow> exp_digits (if e < 10000 then 10 * e + d else e) cs)"

definition parse_exponent :: "string \<Rightarrow> int option" where
  "parse_exponent s =
    (case s of [] \<Rightarrow> Some 0
     | c # r \<Rightarrow>
        if ascii_lower c = CHR ''e'' then
          (let (neg, ds) = split_sign r
           in if ds = [] then None
              else map_option (\<lambda>n. if neg then - n else n) (exp_digits 0 ds))
        else None)"

definition pow10 :: "int \<Rightarrow> rat" where
  "pow10 e = (if 0 \<le> e then 10 ^ nat e else 1 / 10 ^ nat (- e))"

definition is_digit :: "char \<Rightarrow> bool" where
  "is_digit c \<longleftrightarrow> digit_val c \<noteq> None"

definition parse_decimal :: "string \<Rightarrow> rat option" where
  "parse_decimal s =
    (let ip = takeWhile is_digit s; r = dropWhile is_digit s;
         point = (r \<noteq> [] \<and> hd r = CHR ''.'');
         r' = (if point then tl r else r);
         fp = (if point then takeWhile is_digit r' else []);
         tail = (if point then dropWhile is_digit r' else r')
     in if ip = [] \<and> fp = [] then None
        else case (digits_val 0 (ip @ fp), parse_exponent tail) of
            (Some n, Some e) \<Rightarrow> Some (of_int n * pow10 (e - int (length fp)))
          | _ \<Rightarrow> None)"

definition parse_float :: "string \<Rightarrow> num_error + float64" where
  "parse_float s =
    (let (neg, body) = split_sign s; low = map ascii_lower body
     in if map ascii_lower s = ''nan'' then Inr NaN
        else if low = ''inf'' \<or> low = ''infinity'' then Inr (Inf neg)
        else case parse_decimal body of
            None \<Rightarrow> Inl ErrSyntax
          | Some q \<Rightarrow>
              (case f_of_rat neg (if neg then - q else q) of
                 Inf _ \<Rightarrow> Inl ErrRange
               | f \<Rightarrow> Inr f))"

text \<open>\<open>strconv.FormatFloat(f, 'f', prec, 64)\<close>: the exact value rounded half to even.\<close>

definition pad_left :: "nat \<Rightarrow> string \<Rightarrow> string" where
  "pad_left n s = replicate (n - length s) (CHR ''0'') @ s"

fun format_f :: "nat \<Rightarrow> float64 \<Rightarrow> string" where
  "format_f prec NaN = ''NaN''"
| "format_f prec (Inf s) = (if s then ''-Inf'' else ''+Inf'')"
| "format_f prec (Fin s m) =
    (let n = round_half_even (m * 10 ^ prec);
         ip = nat_digits (n div 10 ^ prec);
         fp = pad_left prec (nat_digits (n mod 10 ^ prec))
     in (if s then ''-'' else '''') @ ip @ (if prec = 0 then '''' else CHR ''.'' # fp))"

section \<open>Lemmas\<close>

lemma go_split_nonempty [simp]: "go_split c s \<noteq> []"
  by (induction s) (auto split: list.splits)

lemma go_split_no_sep: "c \<notin> set s \<Longrightarrow> go_split c s = [s]"
  by (induction s) auto

lemma go_split_append:
  "c \<notin> set a \<Longrightarrow> go_split c (a @ c # b) = a # go_split c b"
  by (induction a) auto

lemma go_split_join:
  assumes "xs \<noteq> []" "\<forall>x\<in>set xs. c \<notin> set x"
  shows "go_split c (go_join [c] xs) = xs"
  using assms by (induction "[c]" xs rule: go_join.induct) (auto simp: go_split_no_sep go_split_append)

lemma go_join_split: "go_join [c] (go_split c s) = s"
proof (induction s)
  case (Cons x s)
  then show ?case
    by (cases "go_split c s"; cases "tl (go_split c s)") auto
qed simp

lemma go_split_elems: "x \<in> set (go_split c s) \<Longrightarrow> c \<notin> set x"
  by (induction s arbitrary: x) (auto split: if_splits list.splits)

lemma set_go_join: "set (go_join sep xs) \<subseteq> set sep \<union> (\<Union>x\<in>set xs. set x)"
  by (induction sep xs rule: go_join.induct) auto

lemma go_split2_sep: "c \<notin> set a \<Longrightarrow> go_split2 c (a @ c # b) = [a, b]"
  by (simp add: go_split2_def takeWhile_append dropWhile_append)

lemma go_index_found: "c \<notin> set a \<Longrightarrow> go_index (a @ c # b) c = int (length a)"
  by (induction a) auto

lemma go_index_range: "- 1 \<le> go_index s c \<and> go_index s c < int (length s)"
  by (induction s) (auto simp: Let_def)

lemma go_index_none: "go_index s c = - 1 \<longleftrightarrow> c \<notin> set s"
proof (induction s)
  case (Cons x s)
  then show ?case using go_index_range [of s c] by (auto simp: Let_def)
qed simp

lemma digit_val_char: "0 \<le> d \<Longrightarrow> d < 10 \<Longrightarrow> digit_val (digit_char d) = Some d"
  by (simp add: digit_val_def digit_char_def)

lemma digits_val_append:
  "digits_val acc (a @ b) = (case digits_val acc a of None \<Rightarrow> None | Some n \<Rightarrow> digits_val n b)"
  by (induction a arbitrary: acc) (auto split: option.splits)

lemma nat_digits_lt: "n < 10 \<Longrightarrow> nat_digits n = [digit_char n]"
  by (simp add: nat_digits.simps [of n])

lemma nat_digits_ge: "10 \<le> n \<Longrightarrow> nat_digits n = nat_digits (n div 10) @ [digit_char (n mod 10)]"
  by (simp add: nat_digits.simps [of n])

lemma digits_val_nat_digits: "0 \<le> n \<Longrightarrow> digits_val 0 (nat_digits n) = Some n"
proof (induction n rule: nat_digits.induct)
  case (1 n)
  show ?case
  proof (cases "n < 10")
    case False
    with 1 have "digits_val 0 (nat_digits (n div 10)) = Some (n div 10)" by simp
    with False show ?thesis by (simp add: nat_digits_ge digits_val_append digit_val_char)
  qed (use 1 in \<open>simp add: nat_digits_lt digit_val_char\<close>)
qed

lemma nat_digits_nonempty [simp]: "nat_digits n \<noteq> []"
  by (cases "n < 10") (simp_all add: nat_digits_lt nat_digits_ge)

lemma nat_digits_chars: "0 \<le> n \<Longrightarrow> c \<in> set (nat_digits n) \<Longrightarrow> is_digit c"
proof (induction n rule: nat_digits.induct)
  case (1 n)
  show ?case
  proof (cases "n < 10")
    case True
    with 1 show ?thesis by (auto simp: nat_digits_lt is_digit_def digit_val_char)
  next
    case False
    with 1 show ?thesis by (auto simp: nat_digits_ge is_digit_def digit_val_char)
  qed
qed

lemma not_digits [simp]:
  "\<not> is_digit (CHR ''-'')" "\<not> is_digit (CHR ''+'')" "\<not> is_digit (CHR ''_'')"
  "\<not> is_digit (CHR ''.'')" "\<not> is_digit (CHR '','')" "\<not> is_digit (CHR '')'')" "\<not> is_digit (CHR ''#'')"
  by (simp_all add: is_digit_def digit_val_def)

lemma split_sign_nat_digits:
  assumes "0 \<le> n"
  shows "split_sign (nat_digits n) = (False, nat_digits n)"
proof (cases "nat_digits n")
  case (Cons c r)
  then have "is_digit c" using nat_digits_chars [OF assms, of c] by simp
  then have "c \<noteq> CHR ''-''" "c \<noteq> CHR ''+''" by auto
  with Cons show ?thesis by (simp add: split_sign_def)
qed simp

lemma parse_int_itoa_if:
  "parse_int bits (itoa i) = (if - (2 ^ (bits - 1)) \<le> i \<and> i < 2 ^ (bits - 1) then Inr i else Inl ErrRange)"
proof (cases "i < 0")
  case True
  have "split_sign (itoa i) = (True, nat_digits (- i))"
    using True by (simp add: itoa_def split_sign_def)
  with True show ?thesis by (simp add: parse_int_def digits_val_nat_digits)
next
  case False
  have "split_sign (itoa i) = (False, nat_digits i)"
    using False by (simp add: itoa_def split_sign_nat_digits)
  with False show ?thesis by (simp add: parse_int_def digits_val_nat_digits)
qed

lemma parse_int_itoa:
  assumes "- (2 ^ (bits - 1)) \<le> i" "i < 2 ^ (bits - 1)"
  shows "parse_int bits (itoa i) = Inr i"
  using assms by (simp add: parse_int_itoa_if)

lemma itoa_chars: "c \<in> set (itoa i) \<Longrightarrow> is_digit c \<or> c = CHR ''-''"
  using nat_digits_chars [of i c] nat_digits_chars [of "- i" c] by (auto simp: itoa_def split: if_splits)

lemma itoa_nonempty [simp]: "itoa i \<noteq> []"
  by (simp add: itoa_def)

lemma itoa_inj: "in_i64 i \<Longrightarrow> in_i64 j \<Longrightarrow> itoa i = itoa j \<Longrightarrow> i = j"
  using parse_int_itoa [of 64 i] parse_int_itoa [of 64 j] unfolding in_i64_def
  by (metis diff_Suc_1 numeral_eq_Suc pred_numeral_simps(2) sum.inject(2) semiring_norm(26,27))

lemma go_slice_middle:
  "i = int (length a) \<Longrightarrow> j = int (length a + length b) \<Longrightarrow> go_slice (a @ b @ c) i j = Some b"
  by (simp add: go_slice_def)

lemma go_slice_prefix:
  "0 \<le> j \<Longrightarrow> j \<le> int (length s) \<Longrightarrow> go_slice s 0 j = Some (take (nat j) s)"
  by (simp add: go_slice_def)

end
