(* ===== verification/Go_Hash.thy ===== *)
theory Go_Hash
  imports Go_Strings
begin

text \<open>
  The two hash functions of Go's standard library the program uses: \<open>crypto/md5\<close> (for primary
  keys and checksums) and \<open>hash/crc32\<close> with the IEEE polynomial (for the shards of the graph
  cache and the consistent-hash ring). Both are written out on 32-bit words and executable.
\<close>

unbundle bit_operations_syntax

type_synonym u32 = "32 word"

definition bytes_of :: "string \<Rightarrow> u32 list" where
  "bytes_of s = map (\<lambda>c. of_int (of_char c)) s"

section \<open>CRC-32\<close>

definition crc_bit :: "u32 \<Rightarrow> u32" where
  "crc_bit c = (if c AND 1 = 1 then drop_bit 1 c XOR 0xEDB88320 else drop_bit 1 c)"

definition crc_byte :: "u32 \<Rightarrow> u32 \<Rightarrow> u32" where
  "crc_byte c b =
    crc_bit (crc_bit (crc_bit (crc_bit (crc_bit (crc_bit (crc_bit (crc_bit (c XOR b))))))))"

definition crc32_ieee :: "string \<Rightarrow> u32" where
  "crc32_ieee s = NOT (foldl crc_byte 0xFFFFFFFF (bytes_of s))"

section \<open>MD5\<close>

definition md5_k :: "u32 list" where
  "md5_k =
    [0xd76aa478, 0xe8c7b756, 0x242070db, 0xc1bdceee, 0xf57c0faf, 0x4787c62a, 0xa8304613, 0xfd469501,
     0x698098d8, 0x8b44f7af, 0xffff5bb1, 0x895cd7be, 0x6b901122, 0xfd987193, 0xa679438e, 0x49b40821,
     0xf61e2562, 0xc040b340, 0x265e5a51, 0xe9b6c7aa, 0xd62f105d, 0x02441453, 0xd8a1e681, 0xe7d3fbc8,
     0x21e1cde6, 0xc33707d6, 0xf4d50d87, 0x455a14ed, 0xa9e3e905, 0xfcefa3f8, 0x676f02d9, 0x8d2a4c8a,
     0xfffa3942, 0x8771f681, 0x6d9d6122, 0xfde5380c, 0xa4beea44, 0x4bdecfa9, 0xf6bb4b60, 0xbebfbc70,
     0x289b7ec6, 0xeaa127fa, 0xd4ef3085, 0x04881d05, 0xd9d4d039, 0xe6db99e5, 0x1fa27cf8, 0xc4ac5665,
     0xf4292244, 0x432aff97, 0xab9423a7, 0xfc93a039, 0x655b59c3, 0x8f0ccc92, 0xffeff47d, 0x85845dd1,
     0x6fa87e4f, 0xfe2ce6e0, 0xa3014314, 0x4e0811a1, 0xf7537e82, 0xbd3af235, 0x2ad7d2bb, 0xeb86d391]"

definition md5_s :: "nat list" where
  "md5_s = concat (replicate 4 [7, 12, 17, 22]) @ concat (replicate 4 [5, 9, 14, 20])
         @ concat (replicate 4 [4, 11, 16, 23]) @ concat (replicate 4 [6, 10, 15, 21])"

text \<open>The message word read in each round, and the round function's number.\<close>

definition md5_g :: "nat list" where
  "md5_g = map (\<lambda>i. i) [0..<16] @ map (\<lambda>i. (5 * i + 1) mod 16) [0..<16]
         @ map (\<lambda>i. (3 * i + 5) mod 16) [0..<16] @ map (\<lambda>i. (7 * i) mod 16) [0..<16]"

definition md5_f :: "nat \<Rightarrow> u32 \<Rightarrow> u32 \<Rightarrow> u32 \<Rightarrow> u32" where
  "md5_f r b c d =
    (if r = 0 then (b AND c) OR (NOT b AND d)
     else if r = 1 then (d AND b) OR (NOT d AND c)
     else if r = 2 then b XOR c XOR d
     else c XOR (b OR NOT d))"

type_synonym md5_state = "u32 \<times> u32 \<times> u32 \<times> u32"

definition rotl :: "nat \<Rightarrow> u32 \<Rightarrow> u32" where
  "rotl n x = push_bit n x OR drop_bit (32 - n) x"

fun md5_step :: "u32 list \<Rightarrow> md5_state \<Rightarrow> nat \<times> u32 \<times> nat \<times> nat \<Rightarrow> md5_state" where
  "md5_step ws (a, b, c, d) (r, k, s, g) =
    (d, b + rotl s (md5_f r b c d + a + k + ws ! g), b, c)"

definition md5_schedule :: "(nat \<times> u32 \<times> nat \<times> nat) list" where
  "md5_schedule =
    zip (concat (map (\<lambda>r. replicate 16 r) [0, 1, 2, 3])) (zip md5_k (zip md5_s md5_g))"

fun md5_block :: "md5_state \<Rightarrow> u32 list \<Rightarrow> md5_state" where
  "md5_block (a, b, c, d) ws =
    (let (a', b', c', d') = foldl (md5_step ws) (a, b, c, d) md5_schedule
     in (a + a', b + b', c + c', d + d'))"

text \<open>Padding: a one bit, zeros, and the length in bits as 64 bits, little endian.\<close>

definition le_bytes :: "nat \<Rightarrow> int \<Rightarrow> u32 list" where
  "le_bytes n v = map (\<lambda>i. of_int ((v div 256 ^ i) mod 256)) [0..<n]"

definition md5_pad :: "string \<Rightarrow> u32 list" where
  "md5_pad s =
    bytes_of s @ [0x80] @ replicate ((119 - length s mod 64) mod 64) 0
      @ le_bytes 8 (8 * int (length s) mod 2 ^ 64)"

fun le_words :: "u32 list \<Rightarrow> u32 list" where
  "le_words (a # b # c # d # r) =
    (a OR push_bit 8 b OR push_bit 16 c OR push_bit 24 d) # le_words r"
| "le_words _ = []"

function chunks16 :: "u32 list \<Rightarrow> u32 list list" where
  "chunks16 ws = (if ws = [] then [] else take 16 ws # chunks16 (drop 16 ws))"
  by pat_completeness auto
termination
  by (relation "measure length") auto

declare chunks16.simps [simp del]

definition md5_words :: "string \<Rightarrow> md5_state" where
  "md5_words s =
    foldl md5_block (0x67452301, 0xefcdab89, 0x98badcfe, 0x10325476) (chunks16 (le_words (md5_pad s)))"

text \<open>The digest in lower-case hexadecimal, as \<open>fmt.Sprintf("%x", ...)\<close> prints it.\<close>

definition hex_digit :: "nat \<Rightarrow> char" where
  "hex_digit n = ''0123456789abcdef'' ! n"

definition hex_byte :: "u32 \<Rightarrow> string" where
  "hex_byte b = [hex_digit (unat (drop_bit 4 b AND 15)), hex_digit (unat (b AND 15))]"

definition hex_word :: "u32 \<Rightarrow> string" where
  "hex_word w = concat (map (\<lambda>i. hex_byte (drop_bit (8 * i) w)) [0, 1, 2, 3])"

definition md5_hex :: "string \<Rightarrow> string" where
  "md5_hex s = (case md5_words s of (a, b, c, d) \<Rightarrow> concat (map hex_word [a, b, c, d]))"

section \<open>The shape of a digest\<close>

definition is_hex :: "char \<Rightarrow> bool" where
  "is_hex c \<longleftrightarrow> c \<in> set ''0123456789abcdef''"

lemma hex_digit_is_hex: "n < 16 \<Longrightarrow> is_hex (hex_digit n)"
  unfolding is_hex_def hex_digit_def by (rule nth_mem) simp

lemma unat_and_15: "unat ((b :: u32) AND 15) < 16"
proof -
  have "b AND 15 \<le> (15 :: u32)" by (rule word_and_le1)
  then have "unat (b AND 15) \<le> unat (15 :: u32)" by (simp only: word_le_nat_alt)
  then show ?thesis by simp
qed

lemma hex_byte_shape: "length (hex_byte b) = 2 \<and> (\<forall>c\<in>set (hex_byte b). is_hex c)"
  by (simp add: hex_byte_def hex_digit_is_hex unat_and_15)

lemma hex_word_shape: "length (hex_word w) = 8 \<and> (\<forall>c\<in>set (hex_word w). is_hex c)"
  using hex_byte_shape by (auto simp: hex_word_def)

lemma length_md5_hex [simp]: "length (md5_hex s) = 32"
  using hex_word_shape by (auto simp: md5_hex_def split: prod.splits)

lemma md5_hex_chars: "c \<in> set (md5_hex s) \<Longrightarrow> is_hex c"
  using hex_word_shape by (auto simp: md5_hex_def split: prod.splits)

lemma is_hex_not_underscore [simp]: "\<not> is_hex (CHR ''_'')" "\<not> is_hex (CHR ''/'')"
  by (simp_all add: is_hex_def)

end
