(* ===== verification/Utils.thy ===== *)
theory Utils
  imports Go_Hash
begin

text \<open>
  \<open>common/utils\<close>: the textual identities of the system. Tags are a Go map of strings; the
  order-independent rendering \<open>SortedTags\<close> and the primary key \<open>PK\<close> built from it decide which
  series a data point belongs to in every module, so the lemmas here are about determinism
  (no dependence on the visiting order of the map), the round trip between the map and its
  string, and the injectivity of the key.
\<close>

section \<open>Model\<close>

type_synonym tagmap = "(string, string) gomap"

definition KeysOfMap :: "(string, 'v) gomap \<Rightarrow> string list" where
  "KeysOfMap m = sort (map fst m)"

definition tag_pair :: "string \<Rightarrow> string \<Rightarrow> string" where
  "tag_pair k v = k @ ''='' @ v"

text \<open>
  \<open>tags[key]\<close> of a missing key would be the empty string; the keys come from the map itself.
\<close>

definition SortedTags :: "tagmap \<Rightarrow> string" where
  "SortedTags tags =
    (case tags of
       [] \<Rightarrow> ''''
     | [(k, v)] \<Rightarrow> tag_pair k v
     | _ \<Rightarrow>
        go_join '','' (map (\<lambda>k. tag_pair k (case gget tags k of Some v \<Rightarrow> v | None \<Rightarrow> ''''))
          (sort (map fst tags))))"

definition dict_step :: "tagmap \<Rightarrow> string \<Rightarrow> tagmap" where
  "dict_step d tag =
    (case go_split2 (CHR ''='') tag of
       [k, v] \<Rightarrow> gput k v d
     | _ \<Rightarrow> d)"

definition DictedTagstring :: "string \<Rightarrow> tagmap" where
  "DictedTagstring s =
    (if s = '''' then []
     else foldl dict_step [] (go_split (CHR '','') (go_remove (CHR '' '') s)))"

text \<open>The map built so far is returned together with the error, as in the source.\<close>

fun split_tags_loop :: "tagmap \<Rightarrow> string list \<Rightarrow> string option \<times> tagmap" where
  "split_tags_loop tags [] = (None, tags)"
| "split_tags_loop tags (tag # rest) =
    (case go_split2 (CHR ''='') tag of
       [k, v] \<Rightarrow> split_tags_loop (gput k v tags) rest
     | _ \<Rightarrow> (Some (''bad tag '' @ tag), tags))"

definition SplitTagsString :: "string \<Rightarrow> string option \<times> tagmap" where
  "SplitTagsString s =
    (let s' = go_remove (CHR '' '') s
     in if s' = '''' then (None, []) else split_tags_loop [] (go_split (CHR '','') s'))"

definition Counter :: "string \<Rightarrow> tagmap \<Rightarrow> string" where
  "Counter metric tags = (if tags = [] then metric else metric @ ''/'' @ SortedTags tags)"

definition PK :: "string \<Rightarrow> string \<Rightarrow> tagmap \<Rightarrow> string" where
  "PK endpoint metric tags =
    (if tags = [] then endpoint @ ''/'' @ metric
     else endpoint @ ''/'' @ metric @ ''/'' @ SortedTags tags)"

definition PK2 :: "string \<Rightarrow> string \<Rightarrow> string" where
  "PK2 endpoint counter = endpoint @ ''/'' @ counter"

definition UUID :: "string \<Rightarrow> string \<Rightarrow> tagmap \<Rightarrow> string \<Rightarrow> int \<Rightarrow> string" where
  "UUID endpoint metric tags dstype step =
    (if tags = [] then endpoint @ ''/'' @ metric @ ''/'' @ dstype @ ''/'' @ itoa step
     else endpoint @ ''/'' @ metric @ ''/'' @ SortedTags tags @ ''/'' @ dstype @ ''/'' @ itoa step)"

definition Md5 :: "string \<Rightarrow> string" where
  "Md5 raw = md5_hex raw"

definition Checksum :: "string \<Rightarrow> string \<Rightarrow> tagmap \<Rightarrow> string" where
  "Checksum endpoint metric tags = Md5 (PK endpoint metric tags)"

definition ChecksumOfUUID :: "string \<Rightarrow> string \<Rightarrow> tagmap \<Rightarrow> string \<Rightarrow> int64 \<Rightarrow> string" where
  "ChecksumOfUUID endpoint metric tags dstype step = Md5 (UUID endpoint metric tags dstype step)"

definition ReadableFloat :: "float64 \<Rightarrow> string" where
  "ReadableFloat raw =
    (let val = format_f 5 raw
     in if CHR ''.'' \<in> set val then go_trim_right (CHR ''.'') (go_trim_right (CHR ''0'') val) else val)"

section \<open>The rendering does not depend on the visiting order\<close>

lemma SortedTags_join:
  assumes "gomap_ok tags"
  shows "SortedTags tags =
    go_join '','' (map (\<lambda>k. tag_pair k (the (gget tags k))) (sort (map fst tags)))"
proof (cases tags rule: list.exhaust)
  case (Cons kv rest)
  obtain k v where kv: "kv = (k, v)" by fastforce
  show ?thesis
  proof (cases rest)
    case (Cons a list)
    have "SortedTags tags = go_join '',''
        (map (\<lambda>k. tag_pair k (case gget tags k of Some v \<Rightarrow> v | None \<Rightarrow> '''')) (sort (map fst tags)))"
      using \<open>tags = kv # rest\<close> Cons kv unfolding SortedTags_def by simp
    also have "\<dots> = go_join '','' (map (\<lambda>k. tag_pair k (the (gget tags k))) (sort (map fst tags)))"
      by (intro arg_cong [where f = "go_join '',''"] map_cong)
        (force simp: weak_map_of_SomeI split: option.splits dest: map_of_eq_None_iff [THEN iffD1])+
    finally show ?thesis .
  qed (use \<open>tags = kv # rest\<close> kv in \<open>simp add: SortedTags_def\<close>)
qed (simp add: SortedTags_def)

lemma SortedTags_perm:
  assumes "gomap_ok tags" "mset tags = mset tags'"
  shows "SortedTags tags = SortedTags tags'"
proof -
  have m: "mset (map fst tags) = mset (map fst tags')" using assms(2) by simp
  with assms have ok: "gomap_ok tags'" unfolding gomap_ok_def by (metis mset_eq_imp_distinct_iff)
  have "sort (map fst tags) = sort (map fst tags')"
    by (metis m sorted_list_of_multiset_mset)
  with gget_perm [OF assms] show ?thesis by (simp add: SortedTags_join ok assms(1))
qed

lemma mset_Nil_iff: "mset xs = mset ys \<Longrightarrow> xs = [] \<longleftrightarrow> ys = []"
  by (metis mset_zero_iff)

text \<open>
  A series' primary key, checksum, UUID and counter string do not depend on the order in
  which Go visits the tag map: any two visiting orders of the same tags give the same strings.
\<close>

theorem identity_order_independent:
  assumes "gomap_ok tags" "mset tags = mset tags'"
  shows "PK e m tags = PK e m tags' \<and> Checksum e m tags = Checksum e m tags'
    \<and> UUID e m tags ds st = UUID e m tags' ds st \<and> Counter m tags = Counter m tags'"
  using SortedTags_perm [OF assms] mset_Nil_iff [OF assms(2)]
  by (simp add: PK_def Checksum_def UUID_def Counter_def)

theorem identity_order_independent_witness:
  "PK ''h'' ''m'' [(''b'', ''1''), (''a'', ''2'')] = PK ''h'' ''m'' [(''a'', ''2''), (''b'', ''1'')]"
  using identity_order_independent [of "[(''b'', ''1''), (''a'', ''2'')]" "[(''a'', ''2''), (''b'', ''1'')]"]
  by (simp add: gomap_ok_def)

section \<open>Round trip between tags and their string\<close>

text \<open>A tag that survives: no comma and no space anywhere, no equals sign in the key.\<close>

definition clean_tag :: "string \<times> string \<Rightarrow> bool" where
  "clean_tag kv \<longleftrightarrow>
    CHR ''='' \<notin> set (fst kv) \<and>
    CHR '','' \<notin> set (fst kv) \<union> set (snd kv) \<and> CHR '' '' \<notin> set (fst kv) \<union> set (snd kv)"

definition clean_tags :: "tagmap \<Rightarrow> bool" where
  "clean_tags tags \<longleftrightarrow> gomap_ok tags \<and> list_all clean_tag tags"

lemma dict_step_pair: "CHR ''='' \<notin> set k \<Longrightarrow> dict_step d (tag_pair k v) = gput k v d"
  using go_split2_sep [of "CHR ''=''" k v] by (simp add: dict_step_def tag_pair_def)

lemma foldl_dict_pairs:
  assumes "\<forall>k\<in>set ks. CHR ''='' \<notin> set k"
  shows "gget (foldl dict_step d (map (\<lambda>k. tag_pair k (f k)) ks)) k =
    (if k \<in> set ks then Some (f k) else gget d k)"
  using assms
proof (induction ks arbitrary: d)
  case (Cons a ks)
  then show ?case by (auto simp: dict_step_pair)
qed simp

lemma go_remove_id: "c \<notin> set s \<Longrightarrow> go_remove c s = s"
  unfolding go_remove_def by (induction s) auto

text \<open>What \<open>SortedTags\<close> joins, and that the separators occur nowhere else.\<close>

definition tag_parts :: "tagmap \<Rightarrow> string list" where
  "tag_parts tags = map (\<lambda>k. tag_pair k (the (gget tags k))) (sort (map fst tags))"

lemma clean_tags_lookup:
  assumes "clean_tags tags" "k \<in> set (map fst tags)"
  shows "clean_tag (k, the (gget tags k))"
proof -
  from assms(2) obtain v where v: "gget tags k = Some v" by (metis map_of_eq_None_iff option.exhaust set_map)
  then have "(k, v) \<in> set tags" by (rule map_of_SomeD)
  with assms(1) v show ?thesis by (auto simp: clean_tags_def list_all_iff)
qed

lemma tag_parts_clean:
  assumes "clean_tags tags" "p \<in> set (tag_parts tags)"
  shows "CHR '','' \<notin> set p \<and> CHR '' '' \<notin> set p"
  using assms clean_tags_lookup [OF assms(1)]
  by (fastforce simp: tag_parts_def tag_pair_def clean_tag_def)

lemma SortedTags_parts: "clean_tags tags \<Longrightarrow> SortedTags tags = go_join '','' (tag_parts tags)"
  by (simp add: SortedTags_join clean_tags_def tag_parts_def)

lemma SortedTags_no_space:
  assumes "clean_tags tags"
  shows "CHR '' '' \<notin> set (SortedTags tags)"
  using set_go_join [of "'',''" "tag_parts tags"] tag_parts_clean [OF assms]
  by (auto simp: SortedTags_parts [OF assms])

lemma split_SortedTags:
  assumes "clean_tags tags" "tags \<noteq> []"
  shows "go_split (CHR '','') (SortedTags tags) = tag_parts tags"
proof -
  have "tag_parts tags \<noteq> []"
    using assms(2) by (simp add: tag_parts_def) (metis length_0_conv length_map length_sort)
  then show ?thesis
    using tag_parts_clean [OF assms(1)] by (simp add: SortedTags_parts [OF assms(1)] go_split_join)
qed

lemma Dicted_SortedTags:
  assumes "clean_tags tags"
  shows "gget (DictedTagstring (SortedTags tags)) = gget tags"
proof (cases "tags = []")
  case False
  have ne: "SortedTags tags \<noteq> ''''"
  proof
    assume "SortedTags tags = ''''"
    with split_SortedTags [OF assms False] have "'''' \<in> set (tag_parts tags)" by (metis go_split.simps(1) list.set_intros(1))
    then show False by (auto simp: tag_parts_def tag_pair_def)
  qed
  have keys: "\<forall>k\<in>set (sort (map fst tags)). CHR ''='' \<notin> set k"
    using clean_tags_lookup [OF assms] by (auto simp: clean_tag_def)
  have "DictedTagstring (SortedTags tags) = foldl dict_step [] (tag_parts tags)"
    using ne by (simp add: DictedTagstring_def go_remove_id SortedTags_no_space assms split_SortedTags False)
  then have "gget (DictedTagstring (SortedTags tags)) k =
      (if k \<in> set (map fst tags) then Some (the (gget tags k)) else None)" for k
    using foldl_dict_pairs [OF keys, of "[]"] by (simp add: tag_parts_def)
  moreover have "gget tags k = (if k \<in> set (map fst tags) then Some (the (gget tags k)) else None)" for k
    by (cases "gget tags k") (auto simp: map_of_eq_None_iff dest!: map_of_SomeD intro: rev_image_eqI)
  ultimately show ?thesis by (metis ext)
qed (simp add: SortedTags_def DictedTagstring_def)

text \<open>
  \<open>DictedTagstring\<close> inverts \<open>SortedTags\<close>: rendering a tag map whose keys and values hold
  no separator characters and parsing the string back gives a map with the same entries.
\<close>

theorem tags_roundtrip:
  assumes "clean_tags tags"
  shows "gget (DictedTagstring (SortedTags tags)) = gget tags"
  by (rule Dicted_SortedTags [OF assms])

theorem tags_roundtrip_witness:
  "gget (DictedTagstring (SortedTags [(''port'', ''80''), (''idc'', ''bj'')])) = gget [(''port'', ''80''), (''idc'', ''bj'')]"
  by (rule tags_roundtrip) (simp add: clean_tags_def gomap_ok_def clean_tag_def)

lemma gomap_ok_dict_step: "gomap_ok d \<Longrightarrow> gomap_ok (dict_step d t)"
  by (auto simp: dict_step_def split: list.splits)

lemma gomap_ok_DictedTagstring [simp]: "gomap_ok (DictedTagstring s)"
  by (auto simp: DictedTagstring_def intro: foldl_invariant [where P = gomap_ok] gomap_ok_dict_step)

text \<open>
  Where every tag has an equals sign the two parsers agree; the strict one reports the
  first tag that has none.
\<close>

lemma split_tags_loop_ok:
  "\<forall>t\<in>set ts. CHR ''='' \<in> set t \<Longrightarrow> split_tags_loop d ts = (None, foldl dict_step d ts)"
  by (induction ts arbitrary: d) (auto simp: dict_step_def go_split2_def)

lemma split_tags_loop_err:
  "fst (split_tags_loop d ts) \<noteq> None \<longleftrightarrow> (\<exists>t\<in>set ts. CHR ''='' \<notin> set t)"
  by (induction ts arbitrary: d) (auto simp: go_split2_def)

lemma SplitTagsString_same: "fst (SplitTagsString s) = None \<Longrightarrow> snd (SplitTagsString s) = DictedTagstring s"
  using split_tags_loop_err [of "[]" "go_split (CHR '','') (go_remove (CHR '' '') s)"]
  by (auto simp: SplitTagsString_def DictedTagstring_def Let_def split_tags_loop_ok
      dict_step_def go_split2_def go_remove_def split: if_splits)

text \<open>
  \<open>SplitTagsString\<close> accepts a string exactly when every comma-separated piece of it, spaces
  removed, holds an equals sign (or nothing is left), and then returns what the lenient parser
  \<open>DictedTagstring\<close> returns.
\<close>

theorem SplitTagsString_strict:
  "(fst (SplitTagsString s) = None \<longleftrightarrow>
      go_remove (CHR '' '') s = '''' \<or>
      (\<forall>t\<in>set (go_split (CHR '','') (go_remove (CHR '' '') s)). CHR ''='' \<in> set t)) \<and>
   (fst (SplitTagsString s) = None \<longrightarrow> snd (SplitTagsString s) = DictedTagstring s)" (is "?acc \<and> (?ok \<longrightarrow> ?same)")
proof (intro conjI impI)
  show ?acc
    using split_tags_loop_err [of "[]" "go_split (CHR '','') (go_remove (CHR '' '') s)"]
    by (auto simp: SplitTagsString_def Let_def)
next
  assume ?ok
  then show ?same by (rule SplitTagsString_same)
qed

theorem SplitTagsString_strict_witness:
  "SplitTagsString ''a=1, b=2'' = (None, DictedTagstring ''a=1, b=2'') \<and>
   fst (SplitTagsString ''a=1,b'') \<noteq> None"
proof -
  have "fst (SplitTagsString ''a=1, b=2'') = None" by code_simp
  then show ?thesis
    using SplitTagsString_strict [of "''a=1, b=2''"] SplitTagsString_strict [of "''a=1,b''"]
    by (simp add: go_remove_def prod_eq_iff)
qed

section \<open>Injectivity of the primary key\<close>

definition slash_free :: "string \<Rightarrow> bool" where
  "slash_free s \<longleftrightarrow> CHR ''/'' \<notin> set s"

lemma append_sep_inj:
  fixes c :: char
  assumes "a @ c # x = b @ c # y" "c \<notin> set a" "c \<notin> set b"
  shows "a = b \<and> x = y"
proof -
  have "go_split2 c (a @ c # x) = go_split2 c (b @ c # y)" using assms(1) by simp
  with assms(2,3) show ?thesis by (simp add: go_split2_sep)
qed

lemma SortedTags_inj:
  "clean_tags t \<Longrightarrow> clean_tags t' \<Longrightarrow> SortedTags t = SortedTags t' \<Longrightarrow> gget t = gget t'"
  by (metis Dicted_SortedTags)

lemma Nil_iff_gget: "gget t = gget t' \<Longrightarrow> t = [] \<longleftrightarrow> t' = []"
  by (metis map_of_eq_empty_iff)

text \<open>
  Two series have the same primary key only if they have the same endpoint, metric and
  tags, provided endpoint and metric hold no slash and the tags hold no separators.
\<close>

theorem PK_injective:
  assumes "PK e m t = PK e' m' t'"
    and "slash_free e" "slash_free e'" "slash_free m" "slash_free m'"
    and "clean_tags t" "clean_tags t'"
  shows "e = e' \<and> m = m' \<and> gget t = gget t'"
proof -
  let ?r = "\<lambda>m t. if t = [] then m else m @ ''/'' @ SortedTags t"
  have pk: "PK e m t = e @ CHR ''/'' # ?r m t" for e m t by (simp add: PK_def)
  from assms(1-3) append_sep_inj [of e "CHR ''/''" "?r m t" e' "?r m' t'"]
  have e: "e = e'" and r: "?r m t = ?r m' t'" by (auto simp: pk slash_free_def)
  have tt: "t = [] \<longleftrightarrow> t' = []"
    using r assms(4,5) by (auto simp: slash_free_def split: if_splits)
  show ?thesis
  proof (cases "t = []")
    case False
    with r tt append_sep_inj [of m "CHR ''/''" "SortedTags t" m' "SortedTags t'"] assms(4,5)
    have "m = m'" "SortedTags t = SortedTags t'" by (auto simp: slash_free_def)
    with e assms(6,7) SortedTags_inj show ?thesis by blast
  qed (use e r tt in auto)
qed

theorem PK_injective_witness:
  "PK ''h1'' ''cpu'' [(''a'', ''1'')] \<noteq> PK ''h1'' ''cpu'' [(''a'', ''2'')]"
proof
  assume eq: "PK ''h1'' ''cpu'' [(''a'', ''1'')] = PK ''h1'' ''cpu'' [(''a'', ''2'')]"
  have "gget [(''a'', ''1'')] = gget [(''a'', ''2'')]"
    using PK_injective [OF eq] by (simp add: slash_free_def clean_tags_def gomap_ok_def clean_tag_def)
  then have "gget [(''a'', ''1'')] ''a'' = gget [(''a'', ''2'')] ''a''" by (rule fun_cong)
  then show False by simp
qed

text \<open>Without the restriction the key is ambiguous: a slash can move between the parts.\<close>

lemma PK_ambiguous: "PK ''a/b'' ''c'' [] = PK ''a'' ''b/c'' []"
  by (simp add: PK_def)

lemma length_Md5 [simp]: "length (Md5 s) = 32"
  by (simp add: Md5_def)

lemma Md5_hex: "c \<in> set (Md5 s) \<Longrightarrow> is_hex c"
  by (simp add: Md5_def md5_hex_chars)

end
