(* ===== verification/Model.thy ===== *)
theory Model
  imports Utils
begin

text \<open>
  \<open>common/model\<close>: the records the modules exchange over RPC, field by field, and the methods
  on them that carry behaviour. A pointer field is an option, \<open>None\<close> for nil; a method that
  dereferences a nil pointer panics, so it returns \<open>None\<close>.
\<close>

section \<open>Records\<close>

record template =
  tpl_Id :: int
  tpl_Name :: string
  tpl_ParentId :: int
  tpl_ActionId :: int
  tpl_Creator :: string

record strategy =
  st_Id :: int
  st_Metric :: string
  st_Tags :: tagmap
  st_Func :: string
  st_Operator :: string
  st_RightValue :: float64
  st_MaxStep :: int
  st_Priority :: int
  st_Note :: string
  st_Tpl :: "template option"

record expression =
  ex_Id :: int
  ex_Metric :: string
  ex_Tags :: tagmap
  ex_Func :: string
  ex_Operator :: string
  ex_RightValue :: float64
  ex_MaxStep :: int
  ex_Priority :: int
  ex_Note :: string
  ex_ActionId :: int

record event =
  ev_Id :: string
  ev_Strategy :: "strategy option"
  ev_Expression :: "expression option"
  ev_Status :: string
  ev_Endpoint :: string
  ev_LeftValue :: float64
  ev_CurrentStep :: int
  ev_EventTime :: int64
  ev_PushedTags :: tagmap

record host_strategy =
  hs_Hostname :: string
  hs_Strategies :: "strategy list"

record judge_item =
  ji_Endpoint :: string
  ji_Metric :: string
  ji_Value :: float64
  ji_Timestamp :: int64
  ji_JudgeType :: string
  ji_Tags :: tagmap

record history_data =
  hd_Timestamp :: int64
  hd_Value :: float64

record graph_item =
  gi_Endpoint :: string
  gi_Metric :: string
  gi_Tags :: tagmap
  gi_Value :: float64
  gi_Timestamp :: int64
  gi_DsType :: string
  gi_Step :: int
  gi_Heartbeat :: int
  gi_Min :: string
  gi_Max :: string

record rrd_data =
  rd_Timestamp :: int64
  rd_Value :: float64

text \<open>The dynamic types a JSON-RPC \<open>interface{}\<close> value can have, as far as the code tells them apart.\<close>

datatype iface = VString string | VFloat float64 | VInt int64 | VOther

record metric_value =
  mv_Endpoint :: string
  mv_Metric :: string
  mv_Value :: iface
  mv_Step :: int64
  mv_Type :: string
  mv_Tags :: string
  mv_Timestamp :: int64

record meta_data =
  md_Metric :: string
  md_Endpoint :: string
  md_Timestamp :: int64
  md_Step :: int64
  md_Value :: float64
  md_CounterType :: string
  md_Tags :: tagmap

record tsdb_item =
  ti_Metric :: string
  ti_Tags :: tagmap
  ti_Value :: float64
  ti_Timestamp :: int64

record transfer_response =
  tr_Message :: string
  tr_Total :: int
  tr_Invalid :: int
  tr_Latency :: int64

record agent_report_request =
  ar_Hostname :: string
  ar_IP :: string
  ar_AgentVersion :: string
  ar_PluginVersion :: string

record agent_update_info =
  au_LastUpdate :: int64
  au_ReportRequest :: agent_report_request

record builtin_metric =
  bm_Metric :: string
  bm_Tags :: string

record host =
  ho_Id :: int
  ho_Name :: string

record nodata_item =
  ni_Counter :: string
  ni_Ts :: int64
  ni_FStatus :: string
  ni_FTs :: int64

record nodata_config =
  nc_Id :: int
  nc_Name :: string
  nc_ObjType :: string
  nc_Endpoint :: string
  nc_Metric :: string
  nc_Tags :: tagmap
  nc_Type :: string
  nc_Step :: int64
  nc_Mock :: float64

section \<open>Methods\<close>

text \<open>\<open>Event\<close> is made from a strategy or from an expression; the strategy wins.\<close>

definition ExpressionId :: "event \<Rightarrow> int" where
  "ExpressionId ev = (case ev_Expression ev of Some x \<Rightarrow> ex_Id x | None \<Rightarrow> 0)"

definition StrategyId :: "event \<Rightarrow> int" where
  "StrategyId ev = (case ev_Strategy ev of Some s \<Rightarrow> st_Id s | None \<Rightarrow> 0)"

definition TplId :: "event \<Rightarrow> int option" where
  "TplId ev = (case ev_Strategy ev of Some s \<Rightarrow> map_option tpl_Id (st_Tpl s) | None \<Rightarrow> Some 0)"

definition Tpl :: "event \<Rightarrow> template option" where
  "Tpl ev = (case ev_Strategy ev of Some s \<Rightarrow> st_Tpl s | None \<Rightarrow> None)"

definition ActionId :: "event \<Rightarrow> int option" where
  "ActionId ev =
    (case ev_Expression ev of
       Some x \<Rightarrow> Some (ex_ActionId x)
     | None \<Rightarrow> do { s \<leftarrow> ev_Strategy ev; t \<leftarrow> st_Tpl s; Some (tpl_ActionId t) })"

text \<open>The accessors that read the strategy if there is one and the expression otherwise.\<close>

definition from_origin :: "(strategy \<Rightarrow> 'a) \<Rightarrow> (expression \<Rightarrow> 'a) \<Rightarrow> event \<Rightarrow> 'a option" where
  "from_origin f g ev =
    (case ev_Strategy ev of Some s \<Rightarrow> Some (f s) | None \<Rightarrow> map_option g (ev_Expression ev))"

definition Priority :: "event \<Rightarrow> int option" where
  "Priority ev = from_origin st_Priority ex_Priority ev"

definition Note :: "event \<Rightarrow> string option" where
  "Note ev = from_origin st_Note ex_Note ev"

definition Metric :: "event \<Rightarrow> string option" where
  "Metric ev = from_origin st_Metric ex_Metric ev"

definition RightValue :: "event \<Rightarrow> float64 option" where
  "RightValue ev = from_origin st_RightValue ex_RightValue ev"

definition Operator :: "event \<Rightarrow> string option" where
  "Operator ev = from_origin st_Operator ex_Operator ev"

definition Func :: "event \<Rightarrow> string option" where
  "Func ev = from_origin st_Func ex_Func ev"

definition MaxStep :: "event \<Rightarrow> int option" where
  "MaxStep ev = from_origin st_MaxStep ex_MaxStep ev"

definition event_Counter :: "event \<Rightarrow> string option" where
  "event_Counter ev =
    map_option (\<lambda>m. ev_Endpoint ev @ ''/'' @ m @ '' '' @ SortedTags (ev_PushedTags ev)) (Metric ev)"

definition judge_PrimaryKey :: "judge_item \<Rightarrow> string" where
  "judge_PrimaryKey it = Md5 (PK (ji_Endpoint it) (ji_Metric it) (ji_Tags it))"

definition graph_PrimaryKey :: "graph_item \<Rightarrow> string" where
  "graph_PrimaryKey it = PK (gi_Endpoint it) (gi_Metric it) (gi_Tags it)"

definition graph_Checksum :: "graph_item \<Rightarrow> string" where
  "graph_Checksum it = Checksum (gi_Endpoint it) (gi_Metric it) (gi_Tags it)"

definition graph_UUID :: "graph_item \<Rightarrow> string" where
  "graph_UUID it = UUID (gi_Endpoint it) (gi_Metric it) (gi_Tags it) (gi_DsType it) (gi_Step it)"

definition meta_PK :: "meta_data \<Rightarrow> string" where
  "meta_PK it = PK (md_Endpoint it) (md_Metric it) (md_Tags it)"

definition NewRRDData :: "int64 \<Rightarrow> float64 \<Rightarrow> rrd_data" where
  "NewRRDData ts v = \<lparr>rd_Timestamp = ts, rd_Value = v\<rparr>"

text \<open>NaN and the infinities have no JSON number; they become \<open>null\<close>.\<close>

definition JsonFloat_MarshalJSON :: "float64 \<Rightarrow> string" where
  "JsonFloat_MarshalJSON v = (if is_nan v \<or> is_inf v then ''null'' else format_f 6 v)"

definition builtin_String :: "builtin_metric \<Rightarrow> string" where
  "builtin_String m = bm_Metric m @ ''/'' @ bm_Tags m"

text \<open>
  \<open>TsdbString\<close>. Keys are lower-cased; \<open>strings.ToLower\<close> is modelled on ASCII letters (bytes of
  multi-byte characters are left as they are).
\<close>

definition TsdbString :: "tsdb_item \<Rightarrow> string" where
  "TsdbString it =
    foldl (\<lambda>s (k, v). s @ map ascii_lower (go_replace (CHR '' '') (CHR ''_'') k) @ ''=''
        @ go_replace (CHR '' '') (CHR ''_'') v @ '' '')
      (''put '' @ ti_Metric it @ '' '' @ itoa (ti_Timestamp it) @ '' '' @ format_f 3 (ti_Value it) @ '' '')
      (ti_Tags it)"

section \<open>Facts\<close>

lemma length_judge_PrimaryKey [simp]: "length (judge_PrimaryKey it) = 32"
  by (simp add: judge_PrimaryKey_def)

lemma from_origin_total: "ev_Strategy ev \<noteq> None \<or> ev_Expression ev \<noteq> None \<Longrightarrow> from_origin f g ev \<noteq> None"
  by (auto simp: from_origin_def split: option.splits)

lemma Priority_total: "ev_Strategy ev \<noteq> None \<or> ev_Expression ev \<noteq> None \<Longrightarrow> Priority ev \<noteq> None"
  unfolding Priority_def by (rule from_origin_total)

end
