(* ===== verification/Judge_Store.thy ===== *)
theory Judge_Store
  imports Model
begin

text \<open>
  \<open>modules/judge/store/linkedlist.go\<close> and \<open>history.go\<close>: the recent points of one series
  (\<open>SafeLinkedList\<close>, newest first) and the map from primary keys to them (\<open>JudgeItemMap\<close>).
  A list is the Isabelle list of its values, front first. Every operation is one critical
  section of the source; \<open>None\<close> is a panic.
\<close>

section \<open>The list of one series\<close>

type_synonym safe_list = "judge_item list"

definition hist_of :: "judge_item \<Rightarrow> history_data" where
  "hist_of it = \<lparr>hd_Timestamp = ji_Timestamp it, hd_Value = ji_Value it\<rparr>"

text \<open>One point of a counter: the difference quotient with the next older item.\<close>

definition hist_diff :: "judge_item \<Rightarrow> judge_item \<Rightarrow> history_data" where
  "hist_diff a b =
    (let diffVal = f_sub (ji_Value a) (ji_Value b);
         diffTs = i64 (ji_Timestamp a - ji_Timestamp b)
     in \<lparr>hd_Timestamp = ji_Timestamp a, hd_Value = f_div diffVal (f_of_int diffTs)\<rparr>)"

fun hist_diffs :: "nat \<Rightarrow> safe_list \<Rightarrow> history_data list" where
  "hist_diffs (Suc n) (a # b # r) = hist_diff a b # hist_diffs n (b # r)"
| "hist_diffs _ _ = []"

definition is_gauge :: "char \<Rightarrow> bool" where
  "is_gauge c \<longleftrightarrow> c = CHR ''G'' \<or> c = CHR ''g''"

text \<open>
  \<open>limit + 1\<close> wraps for the largest integer; the list is then taken for long enough and the
  allocation of the result panics. An empty \<open>JudgeType\<close> panics on its first byte.
\<close>

definition HistoryData :: "safe_list \<Rightarrow> int \<Rightarrow> (history_data list \<times> bool) option" where
  "HistoryData L limit =
    (if limit < 1 then Some ([], False)
     else case L of
       [] \<Rightarrow> Some ([], False)
     | firstItem # _ \<Rightarrow>
        (case ji_JudgeType firstItem of
           [] \<Rightarrow> None
         | judgeType # _ \<Rightarrow>
            let size = int (length L) in
            if is_gauge judgeType then
              (let isEnough = (limit \<le> size); limit' = (if size < limit then size else limit)
               in Some (map hist_of (take (nat limit') L), isEnough))
            else if size < i64 (limit + 1) then
              Some (hist_diffs (nat (size - 1)) L, False)
            else if i64 (limit + 1) < limit then None
            else Some (hist_diffs (nat limit) L, True)))"

text \<open>
  \<open>PushFrontAndMaintain\<close>: a point that is not newer than the front, or has no positive
  time, is refused once the list has one; otherwise it goes to the front and the oldest
  points beyond \<open>maxCount\<close> are removed. Removing from an empty list panics.
\<close>

definition PushFrontAndMaintain_list ::
    "safe_list \<Rightarrow> judge_item \<Rightarrow> int \<Rightarrow> (safe_list \<times> bool) option" where
  "PushFrontAndMaintain_list L v maxCount =
    (if (case L of [] \<Rightarrow> False | f # _ \<Rightarrow> ji_Timestamp v \<le> ji_Timestamp f \<or> ji_Timestamp v \<le> 0)
     then Some (L, False)
     else let L' = v # L; sz = int (length L') in
       if sz \<le> maxCount then Some (L', True)
       else if maxCount < 0 then None
       else Some (take (nat maxCount) L', True))"

definition ToSlice :: "safe_list \<Rightarrow> judge_item list" where
  "ToSlice L = L"

definition Front :: "safe_list \<Rightarrow> judge_item option" where
  "Front L = (case L of [] \<Rightarrow> None | x # _ \<Rightarrow> Some x)"

definition SafeLinkedList_PushFront :: "judge_item \<Rightarrow> safe_list \<Rightarrow> safe_list" where
  "SafeLinkedList_PushFront v L = v # L"

definition SafeLinkedList_Len :: "safe_list \<Rightarrow> int" where
  "SafeLinkedList_Len L = int (length L)"

section \<open>The map of series\<close>

type_synonym item_map = "(string, safe_list) gomap"

definition NewJudgeItemMap :: item_map where
  "NewJudgeItemMap = []"

definition JudgeItemMap_Get :: "item_map \<Rightarrow> string \<Rightarrow> safe_list option" where
  "JudgeItemMap_Get M key = gget M key"

definition JudgeItemMap_Set :: "item_map \<Rightarrow> string \<Rightarrow> safe_list \<Rightarrow> item_map" where
  "JudgeItemMap_Set M key val = gput key val M"

definition JudgeItemMap_Len :: "item_map \<Rightarrow> int" where
  "JudgeItemMap_Len M = int (length M)"

definition JudgeItemMap_Delete :: "item_map \<Rightarrow> string \<Rightarrow> item_map" where
  "JudgeItemMap_Delete M key = gdel key M"

definition BatchDelete :: "item_map \<Rightarrow> string list \<Rightarrow> item_map" where
  "BatchDelete M keys = fold gdel keys M"

definition is_stale :: "int64 \<Rightarrow> safe_list \<Rightarrow> bool" where
  "is_stale before L = (case Front L of None \<Rightarrow> False | Some f \<Rightarrow> ji_Timestamp f < before)"

definition stale_keys :: "item_map \<Rightarrow> int64 \<Rightarrow> string list" where
  "stale_keys M before = map fst (filter (\<lambda>(k, L). is_stale before L) M)"

definition CleanStale :: "item_map \<Rightarrow> int64 \<Rightarrow> item_map" where
  "CleanStale M before = BatchDelete M (stale_keys M before)"

definition hex_digits :: "string list" where
  "hex_digits = map (\<lambda>c. [c]) ''0123456789abcdef''"

type_synonym big_map = "(string, item_map) gomap"

definition InitHistoryBigMap :: big_map where
  "InitHistoryBigMap = concat (map (\<lambda>a. map (\<lambda>b. (a @ b, [])) hex_digits) hex_digits)"

text \<open>The cleaner visits all 256 buckets.\<close>

definition cleanStale :: "big_map \<Rightarrow> int64 \<Rightarrow> big_map" where
  "cleanStale big now = map (\<lambda>(b, M). (b, CleanStale M (i64 (now - 3600 * 24 * 7)))) big"

section \<open>Invariant of a series\<close>

text \<open>
  Newest first: strictly decreasing times, and every item has a judge type. A series made by
  the operations above never holds two points of the same time, so the difference quotient
  never divides by zero.
\<close>

definition decreasing :: "safe_list \<Rightarrow> bool" where
  "decreasing L \<longleftrightarrow> sorted_wrt (\<lambda>a b. ji_Timestamp b < ji_Timestamp a) L"

definition list_ok :: "safe_list \<Rightarrow> bool" where
  "list_ok L \<longleftrightarrow> decreasing L \<and> list_all (\<lambda>it. ji_JudgeType it \<noteq> '''' \<and> in_i64 (ji_Timestamp it)) L"

definition item_ok :: "judge_item \<Rightarrow> bool" where
  "item_ok it \<longleftrightarrow> ji_JudgeType it \<noteq> '''' \<and> in_i64 (ji_Timestamp it)"

lemma list_ok_Nil [simp]: "list_ok []"
  by (simp add: list_ok_def decreasing_def)

lemma list_ok_single [simp]: "list_ok [v] = item_ok v"
  by (simp add: list_ok_def item_ok_def decreasing_def)

lemma list_ok_take: "list_ok L \<Longrightarrow> list_ok (take n L)"
  by (auto simp: list_ok_def decreasing_def sorted_wrt_take list_all_iff dest: in_set_takeD)

lemma list_ok_push:
  assumes "list_ok L" "item_ok v" "\<And>f. Front L = Some f \<Longrightarrow> ji_Timestamp f < ji_Timestamp v"
  shows "list_ok (v # L)"
proof (cases L)
  case (Cons f r)
  then have "ji_Timestamp f < ji_Timestamp v" using assms(3) by (simp add: Front_def)
  then show ?thesis using assms(1,2) Cons by (fastforce simp: list_ok_def item_ok_def decreasing_def)
qed (use assms in simp)

lemma push_list_facts:
  assumes "list_ok L" "item_ok v" "0 \<le> maxCount"
  shows "\<exists>L' acc. PushFrontAndMaintain_list L v maxCount = Some (L', acc) \<and> list_ok L' \<and>
    (acc \<longleftrightarrow> L = [] \<or> (ji_Timestamp (hd L) < ji_Timestamp v \<and> 0 < ji_Timestamp v)) \<and>
    L' = (if acc then take (nat maxCount) (v # L) else L)"
proof (cases "L \<noteq> [] \<and> (ji_Timestamp v \<le> ji_Timestamp (hd L) \<or> ji_Timestamp v \<le> 0)")
  case True
  with assms(1) show ?thesis by (auto simp: PushFrontAndMaintain_list_def split: list.splits)
next
  case False
  then have g: "\<not> (case L of [] \<Rightarrow> False | f # _ \<Rightarrow> ji_Timestamp v \<le> ji_Timestamp f \<or> ji_Timestamp v \<le> 0)"
    by (auto split: list.splits)
  have "list_ok (v # L)"
    using assms False by (intro list_ok_push) (auto simp: Front_def split: list.splits)
  then have t: "list_ok (take (nat maxCount) (v # L))" by (rule list_ok_take)
  have "PushFrontAndMaintain_list L v maxCount = Some (take (nat maxCount) (v # L), True)"
    using g assms(3) unfolding PushFrontAndMaintain_list_def Let_def by (auto intro!: take_all [symmetric])
  with t False show ?thesis by auto
qed

text \<open>
  Pushing a point keeps the series strictly decreasing in time and, once the result is a
  list at all, bounded: it is at most as long as the larger of the old list and \<open>maxCount\<close>,
  and exactly the newest \<open>maxCount\<close> points survive. A refused point changes nothing.
\<close>

theorem push_invariant:
  assumes "list_ok L" "item_ok v" "0 \<le> maxCount"
  shows "\<exists>L' acc. PushFrontAndMaintain_list L v maxCount = Some (L', acc) \<and> list_ok L' \<and>
    (acc \<longleftrightarrow> L = [] \<or> (ji_Timestamp (hd L) < ji_Timestamp v \<and> 0 < ji_Timestamp v)) \<and>
    L' = (if acc then take (nat maxCount) (v # L) else L)"
  using assms by (rule push_list_facts)

definition sample :: "int \<Rightarrow> int \<Rightarrow> judge_item" where
  "sample t v = \<lparr>ji_Endpoint = ''h'', ji_Metric = ''cpu'', ji_Value = f_of_int v, ji_Timestamp = t,
    ji_JudgeType = ''GAUGE'', ji_Tags = []\<rparr>"

theorem push_invariant_witness:
  "\<exists>L' acc. PushFrontAndMaintain_list [sample 60 1, sample 0 2] (sample 120 3) 2 = Some (L', acc) \<and>
    acc \<and> L' = [sample 120 3, sample 60 1]"
  using push_invariant [of "[sample 60 1, sample 0 2]" "sample 120 3" 2]
  by (auto simp: list_ok_def item_ok_def decreasing_def sample_def in_i64_def numeral_2_eq_2)

section \<open>History\<close>

lemma length_hist_diffs: "length (hist_diffs n L) = min n (length L - 1)"
  by (induction n L rule: hist_diffs.induct) auto

lemma hist_diffs_nth:
  "i < length (hist_diffs n L) \<Longrightarrow> hist_diffs n L ! i = hist_diff (L ! i) (L ! Suc i)"
proof (induction n L arbitrary: i rule: hist_diffs.induct)
  case (1 n a b r)
  then show ?case by (cases i) auto
qed auto

text \<open>\<open>isEnough\<close> is exactly "as many points as asked for".\<close>

lemma HistoryData_total:
  assumes "list_ok L" "in_i64 limit" "limit < 2 ^ 63 - 1"
  shows "\<exists>vs e. HistoryData L limit = Some (vs, e)"
proof -
  have "limit < 1 \<or> i64 (limit + 1) = limit + 1"
    using assms(2,3) by (auto simp: in_i64_def intro!: i64_id)
  then show ?thesis using assms(1)
    by (auto simp: HistoryData_def list_ok_def Let_def split: list.splits)
qed

lemma HistoryData_enough:
  assumes "HistoryData L limit = Some (vs, True)" "in_i64 limit"
  shows "1 \<le> limit \<and> int (length vs) = limit \<and> length vs \<le> length L \<and> L \<noteq> []"
proof -
  from assms(1) have "1 \<le> limit" by (auto simp: HistoryData_def split: if_splits)
  with assms(1) show ?thesis
    by (cases L) (auto simp: HistoryData_def Let_def length_hist_diffs i64_Suc [OF assms(2)]
        split: list.splits if_splits)
qed

text \<open>
  For a gauge series \<open>HistoryData\<close> returns the newest points as they were pushed; for a
  counter series it returns the difference quotients of neighbouring points, and each of them
  divides by a positive number of seconds.
\<close>

theorem HistoryData_values:
  assumes "list_ok L" "in_i64 limit" "HistoryData L limit = Some (vs, True)" "i < length vs"
    and "ji_Timestamp (hd L) < 2 ^ 62" "- (2 ^ 62) < ji_Timestamp (last L)"
  shows "if is_gauge (hd (ji_JudgeType (hd L))) then vs ! i = hist_of (L ! i)
    else Suc i < length L \<and> 0 < ji_Timestamp (L ! i) - ji_Timestamp (L ! Suc i) \<and>
      hd_Timestamp (vs ! i) = ji_Timestamp (L ! i) \<and>
      hd_Value (vs ! i) = f_div (f_sub (ji_Value (L ! i)) (ji_Value (L ! Suc i)))
        (f_of_int (ji_Timestamp (L ! i) - ji_Timestamp (L ! Suc i)))"
proof -
  from assms(3) have lim: "1 \<le> limit" "L \<noteq> []"
    using HistoryData_enough [OF assms(3,2)] by auto
  then obtain f r where L: "L = f # r" by (cases L) auto
  show ?thesis
  proof (cases "is_gauge (hd (ji_JudgeType (hd L)))")
    case True
    with assms(3,4) lim show ?thesis
      by (auto simp: L HistoryData_def Let_def split: list.splits if_splits)
  next
    case False
    with assms(3) lim have vs: "vs = hist_diffs (nat limit) L"
      by (auto simp: L HistoryData_def Let_def split: list.splits if_splits)
    then have i: "Suc i < length L" using assms(4) by (auto simp: length_hist_diffs)
    have srt: "sorted_wrt (\<lambda>a b. ji_Timestamp b < ji_Timestamp a) L"
      using assms(1) by (simp add: list_ok_def decreasing_def)
    then have lt: "ji_Timestamp (L ! Suc i) < ji_Timestamp (L ! i)"
      using sorted_wrt_nth_less [OF srt, of i "Suc i"] i by simp
    have le: "ji_Timestamp (L ! j) \<le> ji_Timestamp (hd L) \<and> ji_Timestamp (last L) \<le> ji_Timestamp (L ! j)"
      if "j < length L" for j
    proof -
      have "j = 0 \<or> ji_Timestamp (L ! j) < ji_Timestamp (L ! 0)"
        using sorted_wrt_nth_less [OF srt, of 0 j] that by auto
      moreover have "j = length L - 1 \<or> ji_Timestamp (L ! (length L - 1)) < ji_Timestamp (L ! j)"
        using sorted_wrt_nth_less [OF srt, of j "length L - 1"] that by linarith
      ultimately show ?thesis using lim(2) by (auto simp: hd_conv_nth last_conv_nth)
    qed
    have "in_i64 (ji_Timestamp (L ! i) - ji_Timestamp (L ! Suc i))"
      using le [of i] le [of "Suc i"] i assms(5,6) by (simp add: in_i64_def)
    with lt i False assms(4) show ?thesis
      by (simp add: vs hist_diffs_nth hist_diff_def Let_def i64_id)
  qed
qed

definition csample :: "int \<Rightarrow> int \<Rightarrow> judge_item" where
  "csample t v = (sample t v)\<lparr>ji_JudgeType := ''COUNTER''\<rparr>"

theorem HistoryData_values_witness:
  "hd_Value (fst (the (HistoryData [csample 120 90, csample 60 30] 1)) ! 0) =
    f_div (f_sub (f_of_int 90) (f_of_int 30)) (f_of_int 60)"
proof -
  have h: "HistoryData [csample 120 90, csample 60 30] 1 = Some ([hist_diff (csample 120 90) (csample 60 30)], True)"
    by (simp add: HistoryData_def csample_def sample_def is_gauge_def i64_def numeral_2_eq_2)
  have "list_ok [csample 120 90, csample 60 30]"
    by (simp add: list_ok_def decreasing_def csample_def sample_def in_i64_def)
  from HistoryData_values [OF this _ h, of 0] show ?thesis unfolding h
    by (simp add: csample_def sample_def in_i64_def is_gauge_def)
qed

section \<open>The map\<close>

lemma is_stale_iff: "is_stale before L \<longleftrightarrow> L \<noteq> [] \<and> ji_Timestamp (hd L) < before"
  by (cases L) (auto simp: is_stale_def Front_def)

lemma CleanStale_lookup:
  assumes "gomap_ok M"
  shows "gget (CleanStale M before) k =
    (case gget M k of None \<Rightarrow> None
     | Some L \<Rightarrow> if L \<noteq> [] \<and> ji_Timestamp (hd L) < before then None else Some L)"
proof -
  have "k \<in> set (stale_keys M before) \<longleftrightarrow>
      (\<exists>L. (k, L) \<in> set M \<and> L \<noteq> [] \<and> ji_Timestamp (hd L) < before)"
    by (force simp: stale_keys_def is_stale_iff)
  then have mem: "k \<in> set (stale_keys M before) \<longleftrightarrow>
      (\<exists>L. gget M k = Some L \<and> L \<noteq> [] \<and> ji_Timestamp (hd L) < before)"
    using assms by (simp add: gomap_ok_def)
  show ?thesis
    using gm.lookup_fold_remove [OF assms, of "stale_keys M before" k] mem
    by (auto simp: CleanStale_def BatchDelete_def split: option.splits)
qed

text \<open>
  \<open>CleanStale\<close> drops exactly the series whose newest point is older than the limit, and
  leaves every other series as it is.
\<close>

theorem CleanStale_exact:
  assumes "gomap_ok M"
  shows "gget (CleanStale M before) k = Some L \<longleftrightarrow>
    gget M k = Some L \<and> \<not> (L \<noteq> [] \<and> ji_Timestamp (hd L) < before)"
  by (auto simp: CleanStale_lookup [OF assms] split: option.splits if_splits)

theorem CleanStale_exact_witness:
  "gget (CleanStale [(''a'', [sample 10 1]), (''b'', [sample 900 1])] 500) ''b'' = Some [sample 900 1]"
  using CleanStale_exact [of "[(''a'', [sample 10 1]), (''b'', [sample 900 1])]" 500 "''b''"]
  by (simp add: gomap_ok_def sample_def)

text \<open>Every digest has its bucket: the two-byte prefixes of digests are the 256 keys.\<close>

lemma gget_const: "k \<in> fst ` set m \<Longrightarrow> \<forall>kv\<in>set m. snd kv = c \<Longrightarrow> gget m k = Some c"
  by (induction m) auto

lemma in_hex_digits: "is_hex a \<Longrightarrow> [a] \<in> set hex_digits"
  unfolding hex_digits_def is_hex_def set_map by (rule imageI)

lemma in_InitHistoryBigMap:
  assumes "x \<in> set hex_digits" "y \<in> set hex_digits"
  shows "(x @ y, []) \<in> set InitHistoryBigMap"
proof -
  have "(x @ y, []) \<in> set (map (\<lambda>b. (x @ b, [])) hex_digits)"
    using assms(2) by (simp only: set_map) (rule imageI)
  moreover have "map (\<lambda>b. (x @ b, [])) hex_digits \<in> set (map (\<lambda>a. map (\<lambda>b. (a @ b, [])) hex_digits) hex_digits)"
    using assms(1) by (simp only: set_map) (rule imageI)
  ultimately show ?thesis unfolding InitHistoryBigMap_def set_concat by (rule UN_I [rotated])
qed

lemma InitHistoryBigMap_empty: "\<forall>kv\<in>set InitHistoryBigMap. snd kv = []"
  unfolding InitHistoryBigMap_def set_concat set_map by auto

lemma hex_bucket:
  assumes "is_hex a" "is_hex b"
  shows "gget InitHistoryBigMap [a, b] = Some []"
  by (rule gget_const [OF _ InitHistoryBigMap_empty])
    (use imageI [OF in_InitHistoryBigMap [OF in_hex_digits in_hex_digits, OF assms], of fst] in simp)

lemma digest_prefix:
  assumes "length pk = 32" "\<forall>c\<in>set pk. is_hex c"
  shows "\<exists>a b. go_slice pk 0 2 = Some [a, b] \<and> is_hex a \<and> is_hex b"
proof -
  from assms(1) obtain a b r where "pk = a # b # r"
    by (cases pk; cases "tl pk") auto
  with assms show ?thesis by (auto simp: go_slice_def numeral_2_eq_2)
qed

end
