(* ===== verification/Judge_Func.thy ===== *)
theory Judge_Func
  imports Judge_Store
begin

text \<open>
  \<open>modules/judge/store/func.go\<close>: the alarm functions (\<open>max(#3)\<close>, \<open>all(#3)\<close>, \<open>lookup(#2,3)\<close>
  and so on), their parser and the comparison with the threshold. The interface \<open>Function\<close>
  is a datatype with one constructor per struct; \<open>Compute\<close> dispatches on it. A loop over
  \<open>vs[i]\<close> consumes the list element by element and panics when the list is too short.
\<close>

section \<open>Thresholds\<close>

definition f_eps :: float64 where
  "f_eps = f_of_rat False (1 / 10000)"

definition checkIsTriggered :: "float64 \<Rightarrow> string \<Rightarrow> float64 \<Rightarrow> bool" where
  "checkIsTriggered leftValue operator rightValue =
    (if operator = ''='' \<or> operator = ''=='' then f_lt (f_abs (f_sub leftValue rightValue)) f_eps
     else if operator = ''!='' then f_lt f_eps (f_abs (f_sub leftValue rightValue))
     else if operator = ''<'' then f_lt leftValue rightValue
     else if operator = ''<='' then f_le leftValue rightValue
     else if operator = ''>'' then f_lt rightValue leftValue
     else if operator = ''>='' then f_le rightValue leftValue
     else False)"

section \<open>The functions\<close>

datatype judge_fn =
    MaxFunction int string float64
  | MinFunction int string float64
  | AllFunction int string float64
  | SumFunction int string float64
  | AvgFunction int string float64
  | DiffFunction int string float64
  | PDiffFunction int string float64
  | LookupFunction int int string float64

record compute_result =
  cr_vs :: "history_data list"
  cr_left :: float64
  cr_triggered :: bool
  cr_enough :: bool

definition not_enough :: "history_data list \<Rightarrow> compute_result" where
  "not_enough vs = \<lparr>cr_vs = vs, cr_left = f_zero, cr_triggered = False, cr_enough = False\<rparr>"

fun max_loop :: "nat \<Rightarrow> history_data list \<Rightarrow> float64 \<Rightarrow> float64 option" where
  "max_loop 0 vs m = Some m"
| "max_loop (Suc n) [] m = None"
| "max_loop (Suc n) (v # vs) m = max_loop n vs (if f_lt m (hd_Value v) then hd_Value v else m)"

fun min_loop :: "nat \<Rightarrow> history_data list \<Rightarrow> float64 \<Rightarrow> float64 option" where
  "min_loop 0 vs m = Some m"
| "min_loop (Suc n) [] m = None"
| "min_loop (Suc n) (v # vs) m = min_loop n vs (if f_lt (hd_Value v) m then hd_Value v else m)"

fun all_loop :: "string \<Rightarrow> float64 \<Rightarrow> nat \<Rightarrow> history_data list \<Rightarrow> bool \<Rightarrow> bool option" where
  "all_loop op r 0 vs t = Some t"
| "all_loop op r (Suc n) [] t = None"
| "all_loop op r (Suc n) (v # vs) t =
    (if checkIsTriggered (hd_Value v) op r then all_loop op r n vs True else Some False)"

fun sum_loop :: "nat \<Rightarrow> history_data list \<Rightarrow> float64 \<Rightarrow> float64 option" where
  "sum_loop 0 vs s = Some s"
| "sum_loop (Suc n) [] s = None"
| "sum_loop (Suc n) (v # vs) s = sum_loop n vs (f_add s (hd_Value v))"

text \<open>\<open>lookup\<close>: \<open>num\<close> hits are wanted; \<open>n\<close> counts the hits so far.\<close>

fun lookup_loop :: "int \<Rightarrow> string \<Rightarrow> float64 \<Rightarrow> nat \<Rightarrow> history_data list \<Rightarrow> int \<Rightarrow> bool option" where
  "lookup_loop num op r 0 vs n = Some False"
| "lookup_loop num op r (Suc k) [] n = None"
| "lookup_loop num op r (Suc k) (v # vs) n =
    (if checkIsTriggered (hd_Value v) op r
     then (if n + 1 = num then Some True else lookup_loop num op r k vs (n + 1))
     else lookup_loop num op r k vs n)"

text \<open>\<open>diff\<close> keeps the left value of the last point it looked at.\<close>

fun diff_loop ::
    "string \<Rightarrow> float64 \<Rightarrow> float64 \<Rightarrow> nat \<Rightarrow> history_data list \<Rightarrow> float64 \<Rightarrow> (float64 \<times> bool) option" where
  "diff_loop op r first 0 vs left = Some (left, False)"
| "diff_loop op r first (Suc n) [] left = None"
| "diff_loop op r first (Suc n) (v # vs) left =
    (let left' = f_sub first (hd_Value v)
     in if checkIsTriggered left' op r then Some (left', True) else diff_loop op r first n vs left')"

definition f_100 :: float64 where
  "f_100 = f_of_int 100"

fun pdiff_loop ::
    "string \<Rightarrow> float64 \<Rightarrow> float64 \<Rightarrow> nat \<Rightarrow> history_data list \<Rightarrow> float64 \<Rightarrow> bool \<Rightarrow> (float64 \<times> bool) option" where
  "pdiff_loop op r first 0 vs left t = Some (left, t)"
| "pdiff_loop op r first (Suc n) [] left t = None"
| "pdiff_loop op r first (Suc n) (v # vs) left t =
    (if f_eq (hd_Value v) f_zero then pdiff_loop op r first n vs left t
     else let left' = f_mul (f_div (f_sub first (hd_Value v)) (hd_Value v)) f_100
       in if checkIsTriggered left' op r then Some (left', True)
          else pdiff_loop op r first n vs left' False)"

text \<open>
  Each \<open>Compute\<close> first asks for the history it needs, and returns \<open>not_enough\<close> when there is
  less; then it reads \<open>vs[0]\<close>, which panics on an empty list.
\<close>

definition with_history ::
    "safe_list \<Rightarrow> int \<Rightarrow> (history_data list \<Rightarrow> history_data \<Rightarrow> history_data list \<Rightarrow> (float64 \<times> bool) option)
      \<Rightarrow> compute_result option" where
  "with_history L limit body =
    (case HistoryData L limit of
       None \<Rightarrow> None
     | Some (vs, False) \<Rightarrow> Some (not_enough vs)
     | Some ([], True) \<Rightarrow> None
     | Some (v # r, True) \<Rightarrow>
        map_option (\<lambda>(l, t). \<lparr>cr_vs = v # r, cr_left = l, cr_triggered = t, cr_enough = True\<rparr>)
          (body (v # r) v r))"

fun Compute :: "judge_fn \<Rightarrow> safe_list \<Rightarrow> compute_result option" where
  "Compute (MaxFunction limit op r) L =
    with_history L limit (\<lambda>vs v rest.
      map_option (\<lambda>m. (m, checkIsTriggered m op r)) (max_loop (nat (limit - 1)) rest (hd_Value v)))"
| "Compute (MinFunction limit op r) L =
    with_history L limit (\<lambda>vs v rest.
      map_option (\<lambda>m. (m, checkIsTriggered m op r)) (min_loop (nat (limit - 1)) rest (hd_Value v)))"
| "Compute (AllFunction limit op r) L =
    with_history L limit (\<lambda>vs v rest.
      map_option (\<lambda>t. (hd_Value v, t)) (all_loop op r (nat limit) vs True))"
| "Compute (SumFunction limit op r) L =
    with_history L limit (\<lambda>vs v rest.
      map_option (\<lambda>s. (s, checkIsTriggered s op r)) (sum_loop (nat limit) vs f_zero))"
| "Compute (AvgFunction limit op r) L =
    with_history L limit (\<lambda>vs v rest.
      map_option (\<lambda>s. let a = f_div s (f_of_int limit) in (a, checkIsTriggered a op r))
        (sum_loop (nat limit) vs f_zero))"
| "Compute (DiffFunction limit op r) L =
    with_history L (i64 (limit + 1)) (\<lambda>vs v rest.
      diff_loop op r (hd_Value v) (nat limit) rest f_zero)"
| "Compute (PDiffFunction limit op r) L =
    with_history L (i64 (limit + 1)) (\<lambda>vs v rest.
      pdiff_loop op r (hd_Value v) (nat limit) rest f_zero False)"
| "Compute (LookupFunction num limit op r) L =
    with_history L limit (\<lambda>vs v rest.
      map_option (\<lambda>t. (hd_Value v, t)) (lookup_loop num op r (nat limit) vs 0))"

section \<open>The parser\<close>

datatype func_error = AtoiError num_error | NotSupportedMethod

fun atois_list :: "string list \<Rightarrow> num_error + int list" where
  "atois_list [] = Inr []"
| "atois_list (v # vs) =
    (case atoi v of
       Inl e \<Rightarrow> Inl e
     | Inr i \<Rightarrow> (case atois_list vs of Inl e \<Rightarrow> Inl e | Inr is \<Rightarrow> Inr (i # is)))"

definition atois :: "string \<Rightarrow> num_error + int list" where
  "atois s = atois_list (go_split (CHR '','') s)"

text \<open>
  The slices panic when the string holds no \<open>#\<close> in the right place; \<open>lookup\<close> reads a second
  argument that need not be there.
\<close>

definition make_fn :: "string \<Rightarrow> int list \<Rightarrow> string \<Rightarrow> float64 \<Rightarrow> (func_error + judge_fn) option" where
  "make_fn name args op r =
    (if name = ''max'' then map_option (\<lambda>x. Inr (MaxFunction x op r)) (go_nth args 0)
     else if name = ''min'' then map_option (\<lambda>x. Inr (MinFunction x op r)) (go_nth args 0)
     else if name = ''all'' then map_option (\<lambda>x. Inr (AllFunction x op r)) (go_nth args 0)
     else if name = ''sum'' then map_option (\<lambda>x. Inr (SumFunction x op r)) (go_nth args 0)
     else if name = ''avg'' then map_option (\<lambda>x. Inr (AvgFunction x op r)) (go_nth args 0)
     else if name = ''diff'' then map_option (\<lambda>x. Inr (DiffFunction x op r)) (go_nth args 0)
     else if name = ''pdiff'' then map_option (\<lambda>x. Inr (PDiffFunction x op r)) (go_nth args 0)
     else if name = ''lookup'' then do {
       n \<leftarrow> go_nth args 0; l \<leftarrow> go_nth args 1; Some (Inr (LookupFunction n l op r)) }
     else Some (Inl NotSupportedMethod))"

definition ParseFuncFromString :: "string \<Rightarrow> string \<Rightarrow> float64 \<Rightarrow> (func_error + judge_fn) option" where
  "ParseFuncFromString str op r =
    (let idx = go_index str (CHR ''#'')
     in do {
       a \<leftarrow> go_slice str (idx + 1) (int (length str) - 1);
       (case atois a of
          Inl e \<Rightarrow> Some (Inl (AtoiError e))
        | Inr args \<Rightarrow> do { name \<leftarrow> go_slice str 0 (idx - 1); make_fn name args op r })
     })"

section \<open>What the loops compute\<close>

text \<open>A window of samples with no NaN among them.\<close>

definition no_nan :: "history_data list \<Rightarrow> bool" where
  "no_nan vs \<longleftrightarrow> list_all (\<lambda>v. \<not> is_nan (hd_Value v)) vs"

definition hits :: "string \<Rightarrow> float64 \<Rightarrow> history_data list \<Rightarrow> nat" where
  "hits op r vs = length (filter (\<lambda>v. checkIsTriggered (hd_Value v) op r) vs)"

lemma max_loop_correct:
  assumes "max_loop n vs m = Some x" "\<not> is_nan m" "no_nan (take n vs)"
  shows "f_le m x \<and> (\<forall>v\<in>set (take n vs). f_le (hd_Value v) x) \<and>
    (x = m \<or> x \<in> hd_Value ` set (take n vs)) \<and> \<not> is_nan x"
  using assms
proof (induction n vs m rule: max_loop.induct)
  case (3 n v vs m)
  let ?m = "if f_lt m (hd_Value v) then hd_Value v else m"
  have nn: "\<not> is_nan (hd_Value v)" "no_nan (take n vs)" using 3 by (auto simp: no_nan_def)
  with 3 have IH: "f_le ?m x \<and> (\<forall>v\<in>set (take n vs). f_le (hd_Value v) x) \<and>
    (x = ?m \<or> x \<in> hd_Value ` set (take n vs)) \<and> \<not> is_nan x" by simp
  have "f_le m ?m" "f_le (hd_Value v) ?m"
    using nn 3 f_not_lt [of m "hd_Value v"] by (auto intro: f_le_refl f_lt_imp_le)
  then have "f_le m x" "f_le (hd_Value v) x" using IH by (meson f_le_trans)+
  with IH show ?case by (auto split: if_splits)
qed (auto intro: f_le_refl)

lemma min_loop_correct:
  assumes "min_loop n vs m = Some x" "\<not> is_nan m" "no_nan (take n vs)"
  shows "f_le x m \<and> (\<forall>v\<in>set (take n vs). f_le x (hd_Value v)) \<and>
    (x = m \<or> x \<in> hd_Value ` set (take n vs)) \<and> \<not> is_nan x"
  using assms
proof (induction n vs m rule: min_loop.induct)
  case (3 n v vs m)
  let ?m = "if f_lt (hd_Value v) m then hd_Value v else m"
  have nn: "\<not> is_nan (hd_Value v)" "no_nan (take n vs)" using 3 by (auto simp: no_nan_def)
  with 3 have IH: "f_le x ?m \<and> (\<forall>v\<in>set (take n vs). f_le x (hd_Value v)) \<and>
    (x = ?m \<or> x \<in> hd_Value ` set (take n vs)) \<and> \<not> is_nan x" by simp
  have "f_le ?m m" "f_le ?m (hd_Value v)"
    using nn 3 f_not_lt [of "hd_Value v" m] by (auto intro: f_le_refl f_lt_imp_le)
  then have "f_le x m" "f_le x (hd_Value v)" using IH by (meson f_le_trans)+
  with IH show ?case by (auto split: if_splits)
qed (auto intro: f_le_refl)

lemma max_loop_total: "n \<le> length vs \<Longrightarrow> \<exists>x. max_loop n vs m = Some x"
  by (induction n vs m rule: max_loop.induct) auto

lemma min_loop_total: "n \<le> length vs \<Longrightarrow> \<exists>x. min_loop n vs m = Some x"
  by (induction n vs m rule: min_loop.induct) auto

lemma sum_loop_eq:
  "n \<le> length vs \<Longrightarrow> sum_loop n vs s = Some (foldl f_add s (map hd_Value (take n vs)))"
  by (induction n vs s rule: sum_loop.induct) auto

lemma all_loop_eq:
  "n \<le> length vs \<Longrightarrow> all_loop op r n vs t =
    Some (if n = 0 then t else (\<forall>v\<in>set (take n vs). checkIsTriggered (hd_Value v) op r))"
  by (induction op r n vs t rule: all_loop.induct) auto

lemma lookup_loop_eq:
  "n \<le> length vs \<Longrightarrow> 0 \<le> k \<Longrightarrow>
    lookup_loop num op r n vs k = Some (k < num \<and> num \<le> k + int (hits op r (take n vs)))"
  by (induction num op r n vs k rule: lookup_loop.induct) (auto simp: hits_def)

lemma diff_loop_total: "n \<le> length vs \<Longrightarrow> \<exists>l t. diff_loop op r x n vs l0 = Some (l, t)"
  by (induction op r x n vs l0 rule: diff_loop.induct) (auto simp: Let_def)

lemma diff_loop_triggered:
  "diff_loop op r x n vs l0 = Some (l, t) \<Longrightarrow> n \<le> length vs \<Longrightarrow>
    t = (\<exists>v\<in>set (take n vs). checkIsTriggered (f_sub x (hd_Value v)) op r) \<and>
    (t \<longrightarrow> checkIsTriggered l op r)"
  by (induction op r x n vs l0 rule: diff_loop.induct) (auto simp: Let_def split: if_splits)

lemma pdiff_loop_total: "n \<le> length vs \<Longrightarrow> \<exists>l t. pdiff_loop op r x n vs l0 t0 = Some (l, t)"
  by (induction op r x n vs l0 t0 rule: pdiff_loop.induct) (auto simp: Let_def)

text \<open>Integer samples add up exactly as long as every prefix sum keeps to 53 bits.\<close>

lemma foldl_f_add_int:
  assumes "\<And>k. k \<le> length is \<Longrightarrow> \<bar>a + sum_list (take k is)\<bar> \<le> 2 ^ 53" "\<forall>i\<in>set is. \<bar>i\<bar> \<le> 2 ^ 53"
  shows "foldl f_add (f_of_int a) (map f_of_int is) = f_of_int (a + sum_list is)"
  using assms
proof (induction "is" arbitrary: a)
  case (Cons i "is")
  have a: "\<bar>a\<bar> \<le> 2 ^ 53" using Cons.prems(1) [of 0] by simp
  have "foldl f_add (f_of_int (a + i)) (map f_of_int is) = f_of_int (a + i + sum_list is)"
    using Cons.prems(1) [of "Suc k" for k] Cons.prems(2) by (intro Cons.IH) (auto simp: add.assoc)
  then show ?case using a Cons.prems(2) by (simp add: f_add_of_int add.assoc)
qed simp

section \<open>Compute\<close>

lemma with_history_enough:
  assumes "with_history L limit body = Some res" "cr_enough res" "in_i64 limit"
  obtains v r where "HistoryData L limit = Some (v # r, True)" "cr_vs res = v # r"
    "body (v # r) v r = Some (cr_left res, cr_triggered res)" "int (length (v # r)) = limit"
proof -
  from assms(1,2) obtain v r where "HistoryData L limit = Some (v # r, True)" "cr_vs res = v # r"
    "body (v # r) v r = Some (cr_left res, cr_triggered res)"
    by (auto simp: with_history_def not_enough_def split: option.splits prod.splits bool.splits list.splits)
  then show thesis using that HistoryData_enough [of L limit "v # r"] assms(3) by blast
qed

text \<open>
  \<open>max(#n)\<close>, once it has enough data, has looked at exactly \<open>n\<close> points, reports a value
  that occurs among them and that no point exceeds, and triggers exactly when that maximum
  meets the threshold. The points must not be NaN.
\<close>

theorem max_correct:
  assumes "Compute (MaxFunction n op r) L = Some res" "cr_enough res" "in_i64 n" "no_nan (cr_vs res)"
  shows "int (length (cr_vs res)) = n \<and> cr_left res \<in> hd_Value ` set (cr_vs res) \<and>
    (\<forall>v\<in>set (cr_vs res). f_le (hd_Value v) (cr_left res)) \<and>
    cr_triggered res = checkIsTriggered (cr_left res) op r"
proof -
  from assms(1) have "with_history L n (\<lambda>vs v rest.
      map_option (\<lambda>m. (m, checkIsTriggered m op r)) (max_loop (nat (n - 1)) rest (hd_Value v))) = Some res"
    by simp
  from with_history_enough [OF this assms(2,3)] obtain v s where
    vs: "cr_vs res = v # s" and len: "int (length (v # s)) = n" and
    b: "map_option (\<lambda>m. (m, checkIsTriggered m op r)) (max_loop (nat (n - 1)) s (hd_Value v)) =
        Some (cr_left res, cr_triggered res)" by blast
  have tk: "take (nat (n - 1)) s = s" using len by simp
  from b have m: "max_loop (nat (n - 1)) s (hd_Value v) = Some (cr_left res)"
    and t: "cr_triggered res = checkIsTriggered (cr_left res) op r" by auto
  from max_loop_correct [OF m] assms(4) vs tk len t show ?thesis by (auto simp: no_nan_def)
qed

lemma min_correct:
  assumes "Compute (MinFunction n op r) L = Some res" "cr_enough res" "in_i64 n" "no_nan (cr_vs res)"
  shows "int (length (cr_vs res)) = n \<and> cr_left res \<in> hd_Value ` set (cr_vs res) \<and>
    (\<forall>v\<in>set (cr_vs res). f_le (cr_left res) (hd_Value v)) \<and>
    cr_triggered res = checkIsTriggered (cr_left res) op r"
proof -
  from assms(1) have "with_history L n (\<lambda>vs v rest.
      map_option (\<lambda>m. (m, checkIsTriggered m op r)) (min_loop (nat (n - 1)) rest (hd_Value v))) = Some res"
    by simp
  from with_history_enough [OF this assms(2,3)] obtain v s where
    vs: "cr_vs res = v # s" and len: "int (length (v # s)) = n" and
    b: "map_option (\<lambda>m. (m, checkIsTriggered m op r)) (min_loop (nat (n - 1)) s (hd_Value v)) =
        Some (cr_left res, cr_triggered res)" by blast
  have tk: "take (nat (n - 1)) s = s" using len by simp
  from b have m: "min_loop (nat (n - 1)) s (hd_Value v) = Some (cr_left res)"
    and t: "cr_triggered res = checkIsTriggered (cr_left res) op r" by auto
  from min_loop_correct [OF m] assms(4) vs tk len t show ?thesis by (auto simp: no_nan_def)
qed

definition demo_list :: safe_list where
  "demo_list = [sample 180 7, sample 120 90, sample 60 30]"

theorem max_correct_witness:
  "cr_left (the (Compute (MaxFunction 3 ''>'' (f_of_int 80)) demo_list)) = f_of_int 90 \<and>
   cr_triggered (the (Compute (MaxFunction 3 ''>'' (f_of_int 80)) demo_list)) = True \<and>
   list_all (\<lambda>v. f_le (hd_Value v) (f_of_int 90)) (map hist_of demo_list)"
proof -
  have c: "Compute (MaxFunction 3 ''>'' (f_of_int 80)) demo_list =
      Some \<lparr>cr_vs = map hist_of demo_list, cr_left = f_of_int 90, cr_triggered = True, cr_enough = True\<rparr>"
    by code_simp
  have n: "no_nan (map hist_of demo_list)" by code_simp
  show ?thesis using max_correct [OF c] n unfolding c by (simp add: in_i64_def list_all_iff)
qed

text \<open>
  \<open>all(#n)\<close> triggers exactly when every one of the \<open>n\<close> newest points meets the threshold,
  and \<open>lookup(#num,n)\<close> exactly when at least \<open>num\<close> of them do and \<open>num\<close> is positive.
\<close>

theorem all_lookup_correct:
  assumes "in_i64 n"
  shows "(\<forall>res. Compute (AllFunction n op r) L = Some res \<and> cr_enough res \<longrightarrow>
      int (length (cr_vs res)) = n \<and>
      cr_triggered res = (\<forall>v\<in>set (cr_vs res). checkIsTriggered (hd_Value v) op r)) \<and>
    (\<forall>res. Compute (LookupFunction num n op r) L = Some res \<and> cr_enough res \<longrightarrow>
      int (length (cr_vs res)) = n \<and>
      cr_triggered res = (0 < num \<and> num \<le> int (hits op r (cr_vs res))))"
proof (intro conjI allI impI; elim conjE)
  fix res assume c: "Compute (AllFunction n op r) L = Some res" and e: "cr_enough res"
  from c have "with_history L n (\<lambda>vs v rest.
      map_option (\<lambda>t. (hd_Value v, t)) (all_loop op r (nat n) vs True)) = Some res" by simp
  from with_history_enough [OF this e assms] obtain v s where
    vs: "cr_vs res = v # s" "int (length (v # s)) = n" and
    "map_option (\<lambda>t. (hd_Value v, t)) (all_loop op r (nat n) (v # s) True) = Some (cr_left res, cr_triggered res)"
    by blast
  moreover have "nat n = length (v # s)" using vs(2) by simp
  ultimately show "int (length (cr_vs res)) = n"
    "cr_triggered res = (\<forall>v\<in>set (cr_vs res). checkIsTriggered (hd_Value v) op r)"
    using all_loop_eq [of "nat n" "v # s" op r True] by auto
next
  fix res assume c: "Compute (LookupFunction num n op r) L = Some res" and e: "cr_enough res"
  from c have "with_history L n (\<lambda>vs v rest.
      map_option (\<lambda>t. (hd_Value v, t)) (lookup_loop num op r (nat n) vs 0)) = Some res" by simp
  from with_history_enough [OF this e assms] obtain v s where
    vs: "cr_vs res = v # s" "int (length (v # s)) = n" and
    "map_option (\<lambda>t. (hd_Value v, t)) (lookup_loop num op r (nat n) (v # s) 0) = Some (cr_left res, cr_triggered res)"
    by blast
  moreover have "nat n = length (v # s)" using vs(2) by simp
  ultimately show "int (length (cr_vs res)) = n"
    "cr_triggered res = (0 < num \<and> num \<le> int (hits op r (cr_vs res)))"
    using lookup_loop_eq [of "nat n" "v # s" 0 num op r] by auto
qed

theorem all_lookup_correct_witness:
  "cr_triggered (the (Compute (LookupFunction 2 3 ''>'' (f_of_int 20)) demo_list))"
proof -
  have c: "Compute (LookupFunction 2 3 ''>'' (f_of_int 20)) demo_list =
      Some \<lparr>cr_vs = map hist_of demo_list, cr_left = f_of_int 7, cr_triggered = True, cr_enough = True\<rparr>"
    by code_simp
  have h: "hits ''>'' (f_of_int 20) (map hist_of demo_list) = 2" by code_simp
  have "in_i64 3" by (simp add: in_i64_def)
  from all_lookup_correct [OF this, of "''>''" "f_of_int 20" demo_list 2] c h show ?thesis by simp
qed

text \<open>
  \<open>diff(#n)\<close> triggers exactly when the difference of the newest point and one of the \<open>n\<close>
  points before it meets the threshold, and the left value it reports is then such a
  difference.
\<close>

theorem diff_correct:
  assumes "Compute (DiffFunction n op r) L = Some res" "cr_enough res" "in_i64 n" "0 \<le> n"
  shows "cr_vs res \<noteq> [] \<and> int (length (cr_vs res)) = n + 1 \<and>
    cr_triggered res =
      (\<exists>v\<in>set (tl (cr_vs res)). checkIsTriggered (f_sub (hd_Value (hd (cr_vs res))) (hd_Value v)) op r) \<and>
    (cr_triggered res \<longrightarrow> checkIsTriggered (cr_left res) op r)"
proof -
  from assms(1) have w: "with_history L (i64 (n + 1)) (\<lambda>vs v rest.
      diff_loop op r (hd_Value v) (nat n) rest f_zero) = Some res" by simp
  from with_history_enough [OF w assms(2)] obtain v s where
    h: "HistoryData L (i64 (n + 1)) = Some (v # s, True)" and
    vs: "cr_vs res = v # s" "int (length (v # s)) = i64 (n + 1)" and
    d: "diff_loop op r (hd_Value v) (nat n) s f_zero = Some (cr_left res, cr_triggered res)"
    by simp blast
  have "i64 (n + 1) = n + 1" using vs(2) assms(3) by (auto simp: i64_Suc split: if_splits)
  with vs have "nat n = length s" "int (length (v # s)) = n + 1" by auto
  with diff_loop_triggered [OF d] vs show ?thesis by simp
qed

theorem diff_correct_witness:
  "cr_triggered (the (Compute (DiffFunction 2 ''<'' (f_of_int (- 80))) demo_list))"
proof -
  have c: "Compute (DiffFunction 2 ''<'' (f_of_int (- 80))) demo_list =
      Some \<lparr>cr_vs = map hist_of demo_list, cr_left = f_of_int (- 83), cr_triggered = True, cr_enough = True\<rparr>"
    by code_simp
  have e: "\<exists>v\<in>set (tl (map hist_of demo_list)).
      checkIsTriggered (f_sub (hd_Value (hd (map hist_of demo_list))) (hd_Value v)) ''<'' (f_of_int (- 80))"
    by code_simp
  show ?thesis unfolding c using diff_correct [OF c] e by (simp add: in_i64_def)
qed

lemma sum_correct:
  assumes "Compute (SumFunction n op r) L = Some res" "cr_enough res" "in_i64 n"
  shows "cr_left res = foldl f_add f_zero (map hd_Value (cr_vs res)) \<and>
    int (length (cr_vs res)) = n \<and> cr_triggered res = checkIsTriggered (cr_left res) op r"
proof -
  from assms(1) have w: "with_history L n (\<lambda>vs v rest.
      map_option (\<lambda>s. (s, checkIsTriggered s op r)) (sum_loop (nat n) vs f_zero)) = Some res" by simp
  from with_history_enough [OF w assms(2,3)] obtain v s where
    vs: "cr_vs res = v # s" "int (length (v # s)) = n" and
    b: "map_option (\<lambda>s. (s, checkIsTriggered s op r)) (sum_loop (nat n) (v # s) f_zero) =
      Some (cr_left res, cr_triggered res)" by blast
  have "nat n = length (v # s)" using vs(2) by simp
  with sum_loop_eq [of "nat n" "v # s" f_zero] b vs show ?thesis by auto
qed

text \<open>
  \<open>sum(#n)\<close> is exact on integer samples: when the \<open>n\<close> points are integers and no partial
  sum leaves 53 bits, the left value is the float of the integer sum of exactly \<open>n\<close> points.
\<close>

theorem sum_exact:
  assumes "Compute (SumFunction n op r) L = Some res" "cr_enough res" "in_i64 n"
    and "map hd_Value (cr_vs res) = map f_of_int is"
    and "\<And>k. k \<le> length is \<Longrightarrow> \<bar>sum_list (take k is)\<bar> \<le> 2 ^ 53" "\<forall>i\<in>set is. \<bar>i\<bar> \<le> 2 ^ 53"
  shows "cr_left res = f_of_int (sum_list is) \<and> int (length is) = n"
proof -
  have "f_zero = f_of_int 0" by (simp add: f_of_int_exact)
  then have "foldl f_add f_zero (map f_of_int is) = f_of_int (sum_list is)"
    using foldl_f_add_int [of "is" 0] assms(5,6) by simp
  moreover have "length is = length (cr_vs res)" using arg_cong [OF assms(4), of length] by simp
  ultimately show ?thesis using sum_correct [OF assms(1-3)] assms(4) by simp
qed

theorem sum_exact_witness:
  "cr_left (the (Compute (SumFunction 3 ''>'' (f_of_int 80)) demo_list)) = f_of_int 127"
proof -
  have c: "Compute (SumFunction 3 ''>'' (f_of_int 80)) demo_list =
      Some \<lparr>cr_vs = map hist_of demo_list, cr_left = f_of_int 127, cr_triggered = True, cr_enough = True\<rparr>"
    by code_simp
  have m: "map hd_Value (map hist_of demo_list) = map f_of_int [7, 90, 30]"
    by (simp add: demo_list_def hist_of_def sample_def)
  have "\<bar>sum_list (take k [7, 90, 30 :: int])\<bar> \<le> 2 ^ 53" for k
    by (cases k; cases "k - 1"; cases "k - 2") (auto simp: take_Cons' split: if_splits)
  then show ?thesis unfolding c using sum_exact [OF c, of "[7, 90, 30]"] m by (simp add: in_i64_def)
qed

section \<open>No function panics on a well-formed series\<close>

fun fn_window :: "judge_fn \<Rightarrow> int" where
  "fn_window (MaxFunction n _ _) = n"
| "fn_window (MinFunction n _ _) = n"
| "fn_window (AllFunction n _ _) = n"
| "fn_window (SumFunction n _ _) = n"
| "fn_window (AvgFunction n _ _) = n"
| "fn_window (DiffFunction n _ _) = n"
| "fn_window (PDiffFunction n _ _) = n"
| "fn_window (LookupFunction _ n _ _) = n"

lemma with_history_total:
  assumes "list_ok L" "in_i64 limit" "limit < 2 ^ 63 - 1"
    and "\<And>v r. int (length (v # r)) = limit \<Longrightarrow> \<exists>x. body (v # r) v r = Some x"
  shows "\<exists>res. with_history L limit body = Some res"
proof -
  obtain vs e where h: "HistoryData L limit = Some (vs, e)" using HistoryData_total [OF assms(1-3)] by blast
  show ?thesis
  proof (cases e)
    case True
    with h have "HistoryData L limit = Some (vs, True)" by simp
    from HistoryData_enough [OF this assms(2)] have "1 \<le> limit" "int (length vs) = limit" by auto
    then obtain v r where "vs = v # r" by (cases vs) auto
    with assms(4) [of v r] \<open>int (length vs) = limit\<close> h True show ?thesis by (auto simp: with_history_def)
  qed (use h in \<open>cases vs; simp add: with_history_def\<close>)
qed

text \<open>
  On a well-formed series no alarm function panics, whatever its arguments, as long as its
  window is below the two largest integers; in particular too large, zero and negative windows
  are answered with "not enough data".
\<close>

theorem Compute_total:
  assumes "list_ok L" "in_i64 (fn_window fn)" "fn_window fn < 2 ^ 63 - 2"
  shows "\<exists>res. Compute fn L = Some res"
proof (cases fn)
  case (MaxFunction n op r)
  show ?thesis unfolding MaxFunction Compute.simps
    by (rule with_history_total) (use assms MaxFunction max_loop_total in \<open>force+\<close>)
next
  case (MinFunction n op r)
  show ?thesis unfolding MinFunction Compute.simps
    by (rule with_history_total) (use assms MinFunction min_loop_total in \<open>force+\<close>)
next
  case (AllFunction n op r)
  show ?thesis unfolding AllFunction Compute.simps
    by (rule with_history_total) (use assms AllFunction in \<open>auto simp: all_loop_eq\<close>)
next
  case (SumFunction n op r)
  show ?thesis unfolding SumFunction Compute.simps
    by (rule with_history_total) (use assms SumFunction in \<open>auto simp: sum_loop_eq\<close>)
next
  case (AvgFunction n op r)
  show ?thesis unfolding AvgFunction Compute.simps
    by (rule with_history_total) (use assms AvgFunction in \<open>auto simp: sum_loop_eq\<close>)
next
  case (DiffFunction n op r)
  then have n1: "i64 (n + 1) = n + 1" using assms(2,3) by (simp add: i64_Suc)
  show ?thesis unfolding DiffFunction Compute.simps n1
    by (rule with_history_total) (use assms DiffFunction n1 diff_loop_total in \<open>force simp: in_i64_def\<close>)+
next
  case (PDiffFunction n op r)
  then have n1: "i64 (n + 1) = n + 1" using assms(2,3) by (simp add: i64_Suc)
  show ?thesis unfolding PDiffFunction Compute.simps n1
    by (rule with_history_total) (use assms PDiffFunction n1 pdiff_loop_total in \<open>force simp: in_i64_def\<close>)+
next
  case (LookupFunction num n op r)
  show ?thesis unfolding LookupFunction Compute.simps
    by (rule with_history_total) (use assms LookupFunction in \<open>auto simp: lookup_loop_eq\<close>)
qed

theorem Compute_total_witness:
  "\<exists>res. Compute (PDiffFunction 2 ''>'' (f_of_int 5)) demo_list = Some res"
  by (rule Compute_total)
    (simp_all add: demo_list_def sample_def list_ok_def decreasing_def in_i64_def)

section \<open>The parser on the documented syntax\<close>

text \<open>\<open>name(#n)\<close> and \<open>name(#a,b)\<close>, as the configuration documents them.\<close>

definition fn_syntax :: "string \<Rightarrow> int list \<Rightarrow> string" where
  "fn_syntax name args = name @ ''(#'' @ go_join '','' (map itoa args) @ '')''"

lemma atois_list_itoa: "\<forall>i\<in>set is. in_i64 i \<Longrightarrow> atois_list (map itoa is) = Inr is"
  by (induction "is") (auto simp: parse_int_itoa in_i64_def)

lemma atois_join:
  assumes "is \<noteq> []" "\<forall>i\<in>set is. in_i64 i"
  shows "atois (go_join '','' (map itoa is)) = Inr is"
proof -
  have "CHR '','' \<notin> set (itoa i)" for i using itoa_chars [of "CHR '',''" i] by auto
  then show ?thesis using assms by (simp add: atois_def go_split_join atois_list_itoa)
qed

lemma ParseFunc_syntax:
  assumes "CHR ''#'' \<notin> set name" "is \<noteq> []" "\<forall>i\<in>set is. in_i64 i"
  shows "go_index (fn_syntax name is) (CHR ''#'') = int (length name) + 1"
    and "go_slice (fn_syntax name is) (int (length name) + 2) (int (length (fn_syntax name is)) - 1) =
      Some (go_join '','' (map itoa is))"
    and "go_slice (fn_syntax name is) 0 (int (length name)) = Some name"
proof -
  have s: "fn_syntax name is = (name @ ''('') @ CHR ''#'' # (go_join '','' (map itoa is) @ '')'')"
    by (simp add: fn_syntax_def)
  show "go_index (fn_syntax name is) (CHR ''#'') = int (length name) + 1"
    unfolding s by (subst go_index_found) (use assms(1) in auto)
  have t: "fn_syntax name is = (name @ ''(#'') @ go_join '','' (map itoa is) @ '')''"
    by (simp add: fn_syntax_def)
  show "go_slice (fn_syntax name is) (int (length name) + 2) (int (length (fn_syntax name is)) - 1) =
      Some (go_join '','' (map itoa is))"
    unfolding t by (rule go_slice_middle) simp_all
  show "go_slice (fn_syntax name is) 0 (int (length name)) = Some name"
    by (simp add: fn_syntax_def go_slice_prefix)
qed

lemma ParseFunc_fn_syntax:
  assumes "CHR ''#'' \<notin> set name" "is \<noteq> []" "\<forall>i\<in>set is. in_i64 i"
  shows "ParseFuncFromString (fn_syntax name is) op r = make_fn name is op r"
proof -
  have i: "int (length name) + 1 + 1 = int (length name) + 2" "int (length name) + 1 - 1 = int (length name)"
    by simp_all
  show ?thesis
    by (simp only: ParseFuncFromString_def Let_def ParseFunc_syntax [OF assms] i bind.bind_lunit
        atois_join [OF assms(2,3)] sum.case)
qed

text \<open>
  The parser accepts the documented syntax: \<open>name(#n)\<close> yields the function of that name
  with window \<open>n\<close> for each of the seven one-argument functions, \<open>lookup(#a,b)\<close> the lookup
  with \<open>a\<close> hits in \<open>b\<close> points, and an unknown name the error \<open>not_supported_method\<close>.
\<close>

theorem ParseFunc_documented:
  assumes "in_i64 n" "in_i64 k"
  shows "ParseFuncFromString (fn_syntax ''max'' [n]) op r = Some (Inr (MaxFunction n op r)) \<and>
    ParseFuncFromString (fn_syntax ''min'' [n]) op r = Some (Inr (MinFunction n op r)) \<and>
    ParseFuncFromString (fn_syntax ''all'' [n]) op r = Some (Inr (AllFunction n op r)) \<and>
    ParseFuncFromString (fn_syntax ''sum'' [n]) op r = Some (Inr (SumFunction n op r)) \<and>
    ParseFuncFromString (fn_syntax ''avg'' [n]) op r = Some (Inr (AvgFunction n op r)) \<and>
    ParseFuncFromString (fn_syntax ''diff'' [n]) op r = Some (Inr (DiffFunction n op r)) \<and>
    ParseFuncFromString (fn_syntax ''pdiff'' [n]) op r = Some (Inr (PDiffFunction n op r)) \<and>
    ParseFuncFromString (fn_syntax ''lookup'' [k, n]) op r = Some (Inr (LookupFunction k n op r)) \<and>
    ParseFuncFromString (fn_syntax ''median'' [n]) op r = Some (Inl NotSupportedMethod)"
  using assms by (simp add: ParseFunc_fn_syntax make_fn_def go_nth_def)

theorem ParseFunc_documented_witness:
  "ParseFuncFromString ''all(#3)'' ''>'' f_zero = Some (Inr (AllFunction 3 ''>'' f_zero))"
proof -
  have "fn_syntax ''all'' [3] = ''all(#3)''" by code_simp
  then show ?thesis using ParseFunc_documented [of 3 3 "''>''" f_zero] by (simp add: in_i64_def)
qed

text \<open>
  The parser panics, instead of returning an error, on a \<open>lookup\<close> with one argument and on
  strings without an opening parenthesis and hash, so such a configured function takes the
  judging process down.
\<close>

theorem ParseFunc_panics:
  "ParseFuncFromString ''lookup(#2)'' op r = None \<and> ParseFuncFromString '''' op r = None \<and>
   ParseFuncFromString ''#'' op r = None \<and> ParseFuncFromString ''3)'' op r = None \<and>
   ParseFuncFromString ''#3)'' op r = None"
  by (intro conjI; code_simp)

lemma atois_list_range: "atois_list vs = Inr is \<Longrightarrow> i \<in> set is \<Longrightarrow> in_i64 i"
proof (induction vs arbitrary: "is")
  case (Cons v vs)
  then show ?case
    by (auto simp: parse_int_def in_i64_def Let_def split: sum.splits prod.splits option.splits if_splits)
qed simp

end
