(* ===== verification/Judge_Engine.thy ===== *)
theory Judge_Engine
  imports Judge_Func
begin

text \<open>
  \<open>modules/judge\<close>: the judging itself (\<open>store/judge.go\<close>), the shared state it works on
  (\<open>g/var.go\<close>), the RPC entry \<open>Judge.Send\<close> (\<open>rpc/receiver.go\<close>) and the refresh of strategies
  and expressions (\<open>cron/strategy.go\<close>). The process state is one record; a handler maps it to
  the next state or panics. What \<open>sendEvent\<close> pushes to Redis is appended to \<open>js_redis\<close>: the
  queue key and the event of each \<open>LPUSH\<close>, in order.
\<close>

section \<open>State and configuration\<close>

record judge_config =
  jc_Remain :: int
  jc_MinInterval :: int64
  jc_QueueKey :: "int \<Rightarrow> string"

record judge_state =
  js_big :: big_map
  js_strategies :: "(string, strategy list) gomap"
  js_expressions :: "(string, expression list) gomap"
  js_events :: "(string, event) gomap"
  js_redis :: "(string \<times> event) list"

definition init_judge :: judge_state where
  "init_judge = \<lparr>js_big = InitHistoryBigMap, js_strategies = [], js_expressions = [],
    js_events = [], js_redis = []\<rparr>"

section \<open>Sending events\<close>

text \<open>\<open>json.Marshal\<close> refuses NaN and the infinities.\<close>

definition json_finite :: "float64 \<Rightarrow> bool" where
  "json_finite f \<longleftrightarrow> is_fin f"

definition marshalable :: "event \<Rightarrow> bool" where
  "marshalable ev \<longleftrightarrow> json_finite (ev_LeftValue ev) \<and>
    (case ev_Strategy ev of None \<Rightarrow> True | Some s \<Rightarrow> json_finite (st_RightValue s)) \<and>
    (case ev_Expression ev of None \<Rightarrow> True | Some x \<Rightarrow> json_finite (ex_RightValue x))"

definition sendEvent :: "judge_config \<Rightarrow> judge_state \<Rightarrow> event \<Rightarrow> judge_state option" where
  "sendEvent cfg st ev =
    (let st1 = st\<lparr>js_events := gput (ev_Id ev) ev (js_events st)\<rparr>
     in if \<not> marshalable ev then Some st1
        else do {
          p \<leftarrow> Priority ev;
          Some (st1\<lparr>js_redis := js_redis st @ [(jc_QueueKey cfg p, ev)]\<rparr>)
        })"

definition sendEventIfNeed ::
    "judge_config \<Rightarrow> judge_state \<Rightarrow> history_data list \<Rightarrow> bool \<Rightarrow> int64 \<Rightarrow> event \<Rightarrow> int
      \<Rightarrow> judge_state option" where
  "sendEventIfNeed cfg st historyData isTriggered now ev maxStep =
    (let first_alarm =
          (let ev' = ev\<lparr>ev_Status := ''PROBLEM'', ev_CurrentStep := 1\<rparr>
           in if maxStep = 0 then Some st else sendEvent cfg st ev')
     in case gget (js_events st) (ev_Id ev) of
          None \<Rightarrow> if isTriggered then first_alarm else Some st
        | Some lastEvent \<Rightarrow>
           (case ev_Status lastEvent of
              [] \<Rightarrow> None
            | c # _ \<Rightarrow>
               if isTriggered then
                 (if c = CHR ''O'' then first_alarm
                  else if maxStep \<le> ev_CurrentStep lastEvent then Some st
                  else if historyData = [] then None
                  else if hd_Timestamp (last historyData) \<le> ev_EventTime lastEvent then Some st
                  else if i64 (now - ev_EventTime lastEvent) < jc_MinInterval cfg then Some st
                  else sendEvent cfg st
                    (ev\<lparr>ev_Status := ''PROBLEM'', ev_CurrentStep := i64 (ev_CurrentStep lastEvent + 1)\<rparr>))
               else if c = CHR ''P'' then
                 sendEvent cfg st (ev\<lparr>ev_Status := ''OK'', ev_CurrentStep := 1\<rparr>)
               else Some st))"

section \<open>Strategies\<close>

definition mk_event :: "string \<Rightarrow> int \<Rightarrow> judge_item \<Rightarrow> float64 \<Rightarrow> event" where
  "mk_event kind i it left =
    \<lparr>ev_Id = kind @ ''_'' @ itoa i @ ''_'' @ judge_PrimaryKey it, ev_Strategy = None, ev_Expression = None,
     ev_Status = '''', ev_Endpoint = ji_Endpoint it, ev_LeftValue = left, ev_CurrentStep = 0,
     ev_EventTime = ji_Timestamp it, ev_PushedTags = ji_Tags it\<rparr>"

definition judgeItemWithStrategy ::
    "judge_config \<Rightarrow> safe_list \<Rightarrow> judge_item \<Rightarrow> int64 \<Rightarrow> judge_state \<Rightarrow> strategy \<Rightarrow> judge_state option" where
  "judgeItemWithStrategy cfg L firstItem now st s =
    (case ParseFuncFromString (st_Func s) (st_Operator s) (st_RightValue s) of
       None \<Rightarrow> None
     | Some (Inl err) \<Rightarrow> Some st
     | Some (Inr fn) \<Rightarrow> do {
         res \<leftarrow> Compute fn L;
         if \<not> cr_enough res then Some st
         else sendEventIfNeed cfg st (cr_vs res) (cr_triggered res) now
           ((mk_event ''s'' (st_Id s) firstItem (cr_left res))\<lparr>ev_Strategy := Some s\<rparr>) (st_MaxStep s)
       })"

text \<open>Every tag the strategy asks for must be on the item, with the same value.\<close>

definition tags_match :: "tagmap \<Rightarrow> tagmap \<Rightarrow> bool" where
  "tags_match wanted have_tags = list_all (\<lambda>(k, v). gget have_tags k = Some v) wanted"

definition CheckStrategy ::
    "judge_config \<Rightarrow> safe_list \<Rightarrow> judge_item \<Rightarrow> int64 \<Rightarrow> judge_state \<Rightarrow> judge_state option" where
  "CheckStrategy cfg L firstItem now st =
    (case gget (js_strategies st) (ji_Endpoint firstItem @ ''/'' @ ji_Metric firstItem) of
       None \<Rightarrow> Some st
     | Some strategies \<Rightarrow>
        foldM (\<lambda>st s. if tags_match (st_Tags s) (ji_Tags firstItem)
            then judgeItemWithStrategy cfg L firstItem now st s else Some st) st strategies)"

section \<open>Expressions\<close>

definition buildKeysFromMetricAndTags :: "judge_item \<Rightarrow> string list" where
  "buildKeysFromMetricAndTags it =
    map (\<lambda>(k, v). ji_Metric it @ ''/'' @ k @ ''='' @ v) (ji_Tags it)
      @ [ji_Metric it @ ''/endpoint='' @ ji_Endpoint it]"

text \<open>A tag named \<open>endpoint\<close> on the item overrides the item's endpoint.\<close>

definition copyItemTags :: "judge_item \<Rightarrow> tagmap" where
  "copyItemTags it = foldl (\<lambda>ret (k, v). gput k v ret) [(''endpoint'', ji_Endpoint it)] (ji_Tags it)"

definition expression_related :: "judge_item \<Rightarrow> expression \<Rightarrow> bool" where
  "expression_related firstItem x =
    tags_match (ex_Tags x)
      (if gget (ex_Tags x) ''endpoint'' \<noteq> None then copyItemTags firstItem else ji_Tags firstItem)"

definition filterRelatedExpressions :: "expression list \<Rightarrow> judge_item \<Rightarrow> expression list" where
  "filterRelatedExpressions xs firstItem = filter (expression_related firstItem) xs"

definition judgeItemWithExpression ::
    "judge_config \<Rightarrow> safe_list \<Rightarrow> judge_item \<Rightarrow> int64 \<Rightarrow> judge_state \<Rightarrow> expression \<Rightarrow> judge_state option" where
  "judgeItemWithExpression cfg L firstItem now st x =
    (case ParseFuncFromString (ex_Func x) (ex_Operator x) (ex_RightValue x) of
       None \<Rightarrow> None
     | Some (Inl err) \<Rightarrow> Some st
     | Some (Inr fn) \<Rightarrow> do {
         res \<leftarrow> Compute fn L;
         if \<not> cr_enough res then Some st
         else sendEventIfNeed cfg st (cr_vs res) (cr_triggered res) now
           ((mk_event ''e'' (ex_Id x) firstItem (cr_left res))\<lparr>ev_Expression := Some x\<rparr>) (ex_MaxStep x)
       })"

text \<open>The two nested loops carry the ids handled so far.\<close>

definition expr_step ::
    "judge_config \<Rightarrow> safe_list \<Rightarrow> judge_item \<Rightarrow> int64 \<Rightarrow> judge_state \<times> int list \<Rightarrow> expression
      \<Rightarrow> (judge_state \<times> int list) option" where
  "expr_step cfg L firstItem now sh x =
    (case sh of (st, handled) \<Rightarrow>
       if ex_Id x \<in> set handled then Some (st, handled)
       else map_option (\<lambda>st'. (st', ex_Id x # handled)) (judgeItemWithExpression cfg L firstItem now st x))"

definition expr_key_step ::
    "judge_config \<Rightarrow> safe_list \<Rightarrow> judge_item \<Rightarrow> int64 \<Rightarrow> (string, expression list) gomap
      \<Rightarrow> judge_state \<times> int list \<Rightarrow> string \<Rightarrow> (judge_state \<times> int list) option" where
  "expr_key_step cfg L firstItem now expressionMap sh key =
    (case gget expressionMap key of
       None \<Rightarrow> Some sh
     | Some xs \<Rightarrow> foldM (expr_step cfg L firstItem now) sh (filterRelatedExpressions xs firstItem))"

definition CheckExpression ::
    "judge_config \<Rightarrow> safe_list \<Rightarrow> judge_item \<Rightarrow> int64 \<Rightarrow> judge_state \<Rightarrow> judge_state option" where
  "CheckExpression cfg L firstItem now st =
    map_option fst
      (foldM (expr_key_step cfg L firstItem now (js_expressions st)) (st, [])
        (buildKeysFromMetricAndTags firstItem))"

definition Judge ::
    "judge_config \<Rightarrow> safe_list \<Rightarrow> judge_item \<Rightarrow> int64 \<Rightarrow> judge_state \<Rightarrow> judge_state option" where
  "Judge cfg L firstItem now st = do {
    st1 \<leftarrow> CheckStrategy cfg L firstItem now st;
    CheckExpression cfg L firstItem now st1
  }"

section \<open>Receiving points\<close>

text \<open>\<open>PushFrontAndMaintain\<close> on bucket \<open>b\<close>; a bucket that does not exist is a nil pointer.\<close>

definition PushFrontAndMaintain ::
    "judge_config \<Rightarrow> string \<Rightarrow> string \<Rightarrow> judge_item \<Rightarrow> int64 \<Rightarrow> judge_state \<Rightarrow> judge_state option" where
  "PushFrontAndMaintain cfg b key v now st = do {
    M \<leftarrow> gget (js_big st) b;
    (case gget M key of
       Some L \<Rightarrow> do {
         (L', needJudge) \<leftarrow> PushFrontAndMaintain_list L v (jc_Remain cfg);
         let st1 = st\<lparr>js_big := gput b (gput key L' M) (js_big st)\<rparr>;
         if needJudge then Judge cfg L' v now st1 else Some st1
       }
     | None \<Rightarrow>
         Judge cfg [v] v now (st\<lparr>js_big := gput b (gput key [v] M) (js_big st)\<rparr>))
  }"

definition Send_item :: "judge_config \<Rightarrow> int64 \<Rightarrow> judge_state \<Rightarrow> judge_item \<Rightarrow> judge_state option" where
  "Send_item cfg now st it = do {
    let pk = judge_PrimaryKey it;
    b \<leftarrow> go_slice pk 0 2;
    PushFrontAndMaintain cfg b pk it now st
  }"

definition Send :: "judge_config \<Rightarrow> int64 \<Rightarrow> judge_state \<Rightarrow> judge_item list \<Rightarrow> judge_state option" where
  "Send cfg now st items = foldM (Send_item cfg now) st items"

section \<open>Refreshing strategies and expressions\<close>

definition strategy_key :: "string \<Rightarrow> strategy \<Rightarrow> string" where
  "strategy_key hostname s = hostname @ ''/'' @ st_Metric s"

definition rebuildStrategyMap :: "host_strategy list \<Rightarrow> judge_state \<Rightarrow> judge_state" where
  "rebuildStrategyMap resp st =
    st\<lparr>js_strategies :=
      foldl (\<lambda>m hs. foldl (\<lambda>m s. add_to_bucket (strategy_key (hs_Hostname hs) s) s m) m (hs_Strategies hs))
        [] resp\<rparr>"

definition rebuildExpressionMap :: "expression list \<Rightarrow> judge_state \<Rightarrow> judge_state" where
  "rebuildExpressionMap resp st =
    st\<lparr>js_expressions :=
      foldl (\<lambda>m x. foldl (\<lambda>m (k, v). add_to_bucket (ex_Metric x @ ''/'' @ k @ ''='' @ v) x m) m (ex_Tags x))
        [] resp\<rparr>"

text \<open>A failed RPC leaves the map as it was.\<close>

definition syncStrategies :: "(string + host_strategy list) \<Rightarrow> judge_state \<Rightarrow> judge_state" where
  "syncStrategies resp st = (case resp of Inl err \<Rightarrow> st | Inr r \<Rightarrow> rebuildStrategyMap r st)"

definition syncExpression :: "(string + expression list) \<Rightarrow> judge_state \<Rightarrow> judge_state" where
  "syncExpression resp st = (case resp of Inl err \<Rightarrow> st | Inr r \<Rightarrow> rebuildExpressionMap r st)"

definition clean_judge :: "int64 \<Rightarrow> judge_state \<Rightarrow> judge_state" where
  "clean_judge now st = st\<lparr>js_big := cleanStale (js_big st) now\<rparr>"

end
