(* ===== verification/Judge_Alarm.thy ===== *)
theory Judge_Alarm
  imports Judge_Engine
begin

text \<open>
  Correctness of the judge: the alarm automaton \<open>sendEventIfNeed\<close> implements per event id, the
  invariant of the process state over every sequence of handlers, the absence of panics, and
  the selection of strategies and expressions.
\<close>

section \<open>The alarm automaton\<close>

text \<open>
  What the code promises for one event id: silent, or firing with the number of alarms sent and
  the time of the point that raised the last one.
\<close>

datatype alarm = Silent | Firing int int64

definition alarm_of_event :: "event option \<Rightarrow> alarm" where
  "alarm_of_event e =
    (case e of None \<Rightarrow> Silent
     | Some ev \<Rightarrow> if ev_Status ev = ''PROBLEM'' then Firing (ev_CurrentStep ev) (ev_EventTime ev) else Silent)"

definition abs_alarm :: "judge_state \<Rightarrow> string \<Rightarrow> alarm" where
  "abs_alarm st k = alarm_of_event (gget (js_events st) k)"

fun alarm_next :: "int64 \<Rightarrow> bool \<Rightarrow> int64 \<Rightarrow> int64 \<Rightarrow> int64 \<Rightarrow> int \<Rightarrow> alarm \<Rightarrow> alarm" where
  "alarm_next minInterval trig oldest now t maxStep Silent =
    (if trig \<and> maxStep \<noteq> 0 then Firing 1 t else Silent)"
| "alarm_next minInterval trig oldest now t maxStep (Firing n s) =
    (if \<not> trig then Silent
     else if n < maxStep \<and> s < oldest \<and> minInterval \<le> now - s then Firing (n + 1) t
     else Firing n s)"

text \<open>An event as \<open>sendEventIfNeed\<close> records it.\<close>

definition event_ok :: "event \<Rightarrow> bool" where
  "event_ok e \<longleftrightarrow>
    (ev_Status e = ''PROBLEM'' \<or> ev_Status e = ''OK'' \<and> ev_CurrentStep e = 1) \<and>
    1 \<le> ev_CurrentStep e \<and> in_i64 (ev_EventTime e) \<and>
    (\<exists>m. MaxStep e = Some m \<and> ev_CurrentStep e \<le> max 1 m)"

definition events_ok :: "judge_state \<Rightarrow> bool" where
  "events_ok st \<longleftrightarrow> gomap_ok (js_events st) \<and>
    (\<forall>k e. gget (js_events st) k = Some e \<longrightarrow> ev_Id e = k \<and> event_ok e)"

text \<open>Everything that left for Redis is such an event, under its priority's queue.\<close>

definition queue_ok :: "judge_config \<Rightarrow> judge_state \<Rightarrow> bool" where
  "queue_ok cfg st \<longleftrightarrow>
    (\<forall>(q, e)\<in>set (js_redis st). event_ok e \<and> (\<exists>p. Priority e = Some p \<and> q = jc_QueueKey cfg p))"

lemma origin_update [simp]:
  "MaxStep (e\<lparr>ev_Status := s, ev_CurrentStep := n\<rparr>) = MaxStep e"
  "Priority (e\<lparr>ev_Status := s, ev_CurrentStep := n\<rparr>) = Priority e"
  by (simp_all add: MaxStep_def Priority_def from_origin_def split: option.splits)

lemma MaxStep_Priority: "MaxStep e = Some m \<Longrightarrow> \<exists>p. Priority e = Some p"
  by (auto simp: MaxStep_def Priority_def from_origin_def split: option.splits)

lemma event_ok_status:
  "event_ok e \<Longrightarrow> (\<exists>r. ev_Status e = CHR ''P'' # r) \<and> ev_Status e = ''PROBLEM'' \<or>
    (\<exists>r. ev_Status e = CHR ''O'' # r) \<and> ev_Status e = ''OK''"
  by (auto simp: event_ok_def)

text \<open>\<open>sendEvent\<close>: the effect on the recorded events and on the queue.\<close>

lemma sendEvent_eq:
  assumes "MaxStep e = Some m"
  shows "\<exists>p. Priority e = Some p \<and> sendEvent cfg st e =
    Some (st\<lparr>js_events := gput (ev_Id e) e (js_events st),
      js_redis := js_redis st @ (if marshalable e then [(jc_QueueKey cfg p, e)] else [])\<rparr>)"
  using MaxStep_Priority [OF assms] by (auto simp: sendEvent_def Let_def)

lemma sendEvent_inv:
  assumes "events_ok st" "queue_ok cfg st" "event_ok e" "sendEvent cfg st e = Some st'"
  shows "events_ok st' \<and> queue_ok cfg st' \<and> gget (js_events st') = (gget (js_events st))(ev_Id e \<mapsto> e)"
proof -
  from assms(3) obtain m where "MaxStep e = Some m" by (auto simp: event_ok_def)
  from sendEvent_eq [OF this, of cfg st] assms show ?thesis
    by (auto simp: events_ok_def queue_ok_def gget_gput_fun split: if_splits)
qed

text \<open>
  The cases of \<open>sendEventIfNeed\<close>: nothing happens, or one event of the next state of the
  automaton is sent.
\<close>

definition judged :: "event \<Rightarrow> alarm \<Rightarrow> event" where
  "judged ev a = (case a of
     Silent \<Rightarrow> ev\<lparr>ev_Status := ''OK'', ev_CurrentStep := 1\<rparr>
   | Firing n t \<Rightarrow> ev\<lparr>ev_Status := ''PROBLEM'', ev_CurrentStep := n\<rparr>)"

lemma sendEventIfNeed_cases:
  fixes cfg :: judge_config and trig :: bool and now :: int64
  assumes "events_ok st" "hist \<noteq> []" "in_i64 maxStep" "in_i64 (ev_EventTime ev)"
    and "\<And>e. gget (js_events st) (ev_Id ev) = Some e \<Longrightarrow> in_i64 (now - ev_EventTime e)"
  defines "a \<equiv> abs_alarm st (ev_Id ev)"
  defines "a' \<equiv> alarm_next (jc_MinInterval cfg) trig (hd_Timestamp (last hist)) now (ev_EventTime ev) maxStep a"
  shows "sendEventIfNeed cfg st hist trig now ev maxStep =
    (if a' = a then Some st else sendEvent cfg st (judged ev a'))"
proof (cases "gget (js_events st) (ev_Id ev)")
  case None
  then have "a = Silent" by (simp add: a_def abs_alarm_def alarm_of_event_def)
  then show ?thesis using None by (auto simp: sendEventIfNeed_def Let_def a'_def judged_def)
next
  case (Some e)
  with assms(1) have e: "event_ok e" by (simp add: events_ok_def)
  from event_ok_status [OF e] show ?thesis
  proof (elim disjE conjE exE)
    fix r assume s: "ev_Status e = CHR ''P'' # r" "ev_Status e = ''PROBLEM''"
    then have a: "a = Firing (ev_CurrentStep e) (ev_EventTime e)"
      using Some by (simp add: a_def abs_alarm_def alarm_of_event_def)
    have st: "i64 (ev_CurrentStep e + 1) = ev_CurrentStep e + 1" if "ev_CurrentStep e < maxStep"
      using that e assms(3) by (intro i64_id) (auto simp: event_ok_def in_i64_def)
    have n: "i64 (now - ev_EventTime e) = now - ev_EventTime e" using assms(5) [OF Some] by (rule i64_id)
    show ?thesis
      using Some s(1) a st assms(2) by (auto simp: sendEventIfNeed_def Let_def a'_def judged_def n)
  next
    fix r assume s: "ev_Status e = CHR ''O'' # r" "ev_Status e = ''OK''"
    then have "a = Silent" using Some by (simp add: a_def abs_alarm_def alarm_of_event_def)
    then show ?thesis using Some s by (auto simp: sendEventIfNeed_def Let_def a'_def judged_def)
  qed
qed

lemma alarm_of_judged:
  "ev_Id (judged ev a) = ev_Id ev \<and>
   alarm_of_event (Some (judged ev a)) = (case a of Silent \<Rightarrow> Silent | Firing n t \<Rightarrow> Firing n (ev_EventTime ev))"
  by (cases a) (auto simp: judged_def alarm_of_event_def)

lemma alarm_next_time:
  "alarm_next mi trig old now t ms a = Firing n s \<Longrightarrow> alarm_next mi trig old now t ms a \<noteq> a \<Longrightarrow> s = t"
  by (cases a) (auto split: if_splits)

lemma judged_ok:
  assumes "alarm_next mi trig old now (ev_EventTime ev) ms a \<noteq> a" "MaxStep ev = Some ms"
    "in_i64 (ev_EventTime ev)" "\<And>n s. a = Firing n s \<Longrightarrow> 1 \<le> n"
  shows "event_ok (judged ev (alarm_next mi trig old now (ev_EventTime ev) ms a))"
  using assms by (cases a) (auto simp: judged_def event_ok_def split: if_splits)

lemma firing_pos: "events_ok st \<Longrightarrow> abs_alarm st k = Firing n s \<Longrightarrow> 1 \<le> n"
  by (auto simp: abs_alarm_def alarm_of_event_def events_ok_def event_ok_def split: option.splits if_splits)

text \<open>A bound under which the difference of two times does not wrap.\<close>

definition sane_time :: "int \<Rightarrow> bool" where
  "sane_time t \<longleftrightarrow> - (2 ^ 62) < t \<and> t < 2 ^ 62"

lemma sane_time_i64: "sane_time t \<Longrightarrow> in_i64 t"
  by (simp add: sane_time_def in_i64_def)

lemma sane_time_diff: "sane_time a \<Longrightarrow> sane_time b \<Longrightarrow> in_i64 (a - b)"
  by (simp add: sane_time_def in_i64_def)

definition times_sane :: "judge_state \<Rightarrow> bool" where
  "times_sane st \<longleftrightarrow> (\<forall>k e. gget (js_events st) k = Some e \<longrightarrow> sane_time (ev_EventTime e))"

text \<open>
  C6: \<open>sendEventIfNeed\<close> implements the alarm automaton: it does not panic, it moves the alarm of
  the event's id to the next state of the automaton and leaves every other id alone, and it
  keeps the invariants of the recorded events and of the queue.
\<close>

theorem sendEventIfNeed_refines:
  assumes "events_ok st" "queue_ok cfg st" "times_sane st" "hist \<noteq> []"
    and "MaxStep ev = Some maxStep" "in_i64 maxStep" "sane_time (ev_EventTime ev)" "sane_time now"
  shows "\<exists>st'. sendEventIfNeed cfg st hist trig now ev maxStep = Some st' \<and>
    abs_alarm st' = (abs_alarm st)(ev_Id ev :=
      alarm_next (jc_MinInterval cfg) trig (hd_Timestamp (last hist)) now (ev_EventTime ev) maxStep
        (abs_alarm st (ev_Id ev))) \<and>
    events_ok st' \<and> queue_ok cfg st' \<and> times_sane st' \<and>
    js_big st' = js_big st \<and> js_strategies st' = js_strategies st \<and> js_expressions st' = js_expressions st"
proof -
  let ?a = "abs_alarm st (ev_Id ev)"
  let ?a' = "alarm_next (jc_MinInterval cfg) trig (hd_Timestamp (last hist)) now (ev_EventTime ev) maxStep ?a"
  have "in_i64 (now - ev_EventTime e)" if "gget (js_events st) (ev_Id ev) = Some e" for e
    using that assms(3,8) by (intro sane_time_diff) (auto simp: times_sane_def)
  note eq = sendEventIfNeed_cases [OF assms(1,4,6) sane_time_i64 [OF assms(7)] this, of cfg trig]
  show ?thesis
  proof (cases "?a' = ?a")
    case True
    then have "(abs_alarm st)(ev_Id ev := ?a') = abs_alarm st" by simp
    with True eq assms(1-3) show ?thesis by simp
  next
    case False
    let ?e = "judged ev ?a'"
    have ok: "event_ok ?e"
      using judged_ok [OF False assms(5)] firing_pos [OF assms(1)] sane_time_i64 [OF assms(7)] by blast
    then obtain m where "MaxStep ?e = Some m" by (auto simp: event_ok_def)
    from sendEvent_eq [OF this, of cfg st] obtain st' where
      s: "sendEvent cfg st ?e = Some st'" and
      fr: "js_big st' = js_big st" "js_strategies st' = js_strategies st" "js_expressions st' = js_expressions st"
      by auto
    from sendEvent_inv [OF assms(1,2) ok s] have inv: "events_ok st'" "queue_ok cfg st'" and
      ev: "gget (js_events st') = (gget (js_events st))(ev_Id ?e \<mapsto> ?e)" by auto
    have t: "ev_EventTime ?e = ev_EventTime ev" by (simp add: judged_def split: alarm.split)
    have "alarm_of_event (Some ?e) = ?a'"
      using alarm_of_judged [of ev ?a'] alarm_next_time [OF _ False] by (auto split: alarm.splits)
    then have "abs_alarm st' = (abs_alarm st)(ev_Id ev := ?a')"
      using alarm_of_judged [of ev ?a'] by (auto simp: abs_alarm_def ev fun_eq_iff)
    moreover have "times_sane st'" using assms(3,7) t by (auto simp: times_sane_def ev)
    ultimately show ?thesis using False eq s inv fr by simp
  qed
qed

definition demo_strategy :: strategy where
  "demo_strategy = \<lparr>st_Id = 7, st_Metric = ''cpu'', st_Tags = [], st_Func = ''all(#1)'', st_Operator = ''>'',
    st_RightValue = f_of_int 80, st_MaxStep = 3, st_Priority = 0, st_Note = '''', st_Tpl = None\<rparr>"

definition demo_event :: "int64 \<Rightarrow> event" where
  "demo_event t = (mk_event ''s'' 7 (sample t 90) (f_of_int 90))\<lparr>ev_Strategy := Some demo_strategy\<rparr>"

definition demo_config :: judge_config where
  "demo_config = \<lparr>jc_Remain = 11, jc_MinInterval = 300, jc_QueueKey = (\<lambda>p. ''event:p'' @ itoa p)\<rparr>"

definition fired :: "int64 \<Rightarrow> event" where
  "fired t = (demo_event t)\<lparr>ev_Status := ''PROBLEM'', ev_CurrentStep := 1\<rparr>"

definition demo_state :: judge_state where
  "demo_state = init_judge\<lparr>js_events := [(ev_Id (demo_event 60), fired 60)]\<rparr>"

theorem sendEventIfNeed_refines_witness:
  "\<exists>st'. sendEventIfNeed demo_config demo_state [hist_of (sample 360 90)] True 400 (demo_event 360) 3 = Some st' \<and>
    abs_alarm st' (ev_Id (demo_event 360)) = Firing 2 360"
proof -
  have i: "ev_Id (demo_event 60) = ev_Id (demo_event 360)"
    by (simp add: demo_event_def mk_event_def judge_PrimaryKey_def sample_def)
  have m: "MaxStep (demo_event t) = Some 3" for t
    by (simp add: MaxStep_def from_origin_def demo_event_def demo_strategy_def)
  have ok: "events_ok demo_state" "queue_ok demo_config demo_state" "times_sane demo_state"
    using m [of 60] by (auto simp: events_ok_def queue_ok_def times_sane_def demo_state_def init_judge_def gomap_ok_def
        fired_def event_ok_def demo_event_def mk_event_def sample_def in_i64_def sane_time_def MaxStep_def
        from_origin_def split: if_splits)
  have a: "abs_alarm demo_state (ev_Id (demo_event 360)) = Firing 1 60"
    by (simp add: abs_alarm_def alarm_of_event_def demo_state_def fired_def i)
      (simp add: demo_event_def mk_event_def sample_def)
  show ?thesis
    using sendEventIfNeed_refines [OF ok, of "[hist_of (sample 360 90)]" "demo_event 360" 3 400 True] m [of 360] a
    by (auto simp: in_i64_def sane_time_def demo_config_def hist_of_def sample_def)
      (auto simp: demo_event_def mk_event_def sample_def)
qed

text \<open>
  An event whose left value is NaN or infinite is recorded as sent but never reaches the
  queue, so the alarm it announces is lost: the recorded state moves on without an \<open>LPUSH\<close>.
\<close>

theorem unmarshalable_event_lost:
  assumes "\<not> is_fin (ev_LeftValue ev)"
  shows "sendEvent cfg st ev = Some (st\<lparr>js_events := gput (ev_Id ev) ev (js_events st)\<rparr>)"
  using assms by (simp add: sendEvent_def marshalable_def json_finite_def)

theorem unmarshalable_event_lost_witness:
  "\<exists>st'. sendEvent demo_config init_judge ((fired 60)\<lparr>ev_LeftValue := Inf False\<rparr>) = Some st' \<and>
    js_redis st' = [] \<and> js_events st' \<noteq> []"
  using unmarshalable_event_lost [of "(fired 60)\<lparr>ev_LeftValue := Inf False\<rparr>" demo_config init_judge]
  by (simp add: init_judge_def)

section \<open>The invariant of the process\<close>

definition parse_ok :: "string \<Rightarrow> string \<Rightarrow> float64 \<Rightarrow> bool" where
  "parse_ok f op r =
    (case ParseFuncFromString f op r of
       None \<Rightarrow> False | Some (Inl _) \<Rightarrow> True | Some (Inr fn) \<Rightarrow> fn_window fn < 2 ^ 63 - 2)"

definition strategy_ok :: "strategy \<Rightarrow> bool" where
  "strategy_ok s \<longleftrightarrow> parse_ok (st_Func s) (st_Operator s) (st_RightValue s) \<and> in_i64 (st_MaxStep s)"

definition expression_ok :: "expression \<Rightarrow> bool" where
  "expression_ok x \<longleftrightarrow> parse_ok (ex_Func x) (ex_Operator x) (ex_RightValue x) \<and> in_i64 (ex_MaxStep x)"

definition input_ok :: "judge_item \<Rightarrow> bool" where
  "input_ok it \<longleftrightarrow> ji_JudgeType it \<noteq> '''' \<and> sane_time (ji_Timestamp it)"

definition buckets_ok :: "big_map \<Rightarrow> bool" where
  "buckets_ok big \<longleftrightarrow>
    (\<forall>a b. is_hex a \<longrightarrow> is_hex b \<longrightarrow> gget big [a, b] \<noteq> None) \<and>
    (\<forall>b M. gget big b = Some M \<longrightarrow> gomap_ok M \<and> (\<forall>k L. gget M k = Some L \<longrightarrow> list_ok L))"

definition judge_inv :: "judge_config \<Rightarrow> judge_state \<Rightarrow> bool" where
  "judge_inv cfg st \<longleftrightarrow> buckets_ok (js_big st) \<and> events_ok st \<and> queue_ok cfg st \<and> times_sane st \<and>
    (\<forall>k ss. gget (js_strategies st) k = Some ss \<longrightarrow> list_all strategy_ok ss) \<and>
    (\<forall>k xs. gget (js_expressions st) k = Some xs \<longrightarrow> list_all expression_ok xs)"

lemma make_fn_window:
  "make_fn name args op r = Some (Inr fn) \<Longrightarrow> \<forall>i\<in>set args. in_i64 i \<Longrightarrow> in_i64 (fn_window fn)"
  by (auto simp: make_fn_def go_nth_def split: if_splits bind_splits)

lemma ParseFunc_window:
  "ParseFuncFromString f op r = Some (Inr fn) \<Longrightarrow> in_i64 (fn_window fn)"
  by (auto simp: ParseFuncFromString_def Let_def atois_def split: bind_splits sum.splits
      intro: make_fn_window dest: atois_list_range)

lemma Compute_enough_nonempty: "Compute fn L = Some res \<Longrightarrow> cr_enough res \<Longrightarrow> cr_vs res \<noteq> []"
  by (cases fn) (auto simp: with_history_def not_enough_def
      split: option.splits prod.splits bool.splits list.splits)

lemma judge_inv_frame:
  "judge_inv cfg st \<Longrightarrow> events_ok st' \<Longrightarrow> queue_ok cfg st' \<Longrightarrow> times_sane st' \<Longrightarrow>
    js_big st' = js_big st \<Longrightarrow> js_strategies st' = js_strategies st \<Longrightarrow> js_expressions st' = js_expressions st \<Longrightarrow>
    judge_inv cfg st'"
  by (simp add: judge_inv_def)

lemma judge_fn_step:
  assumes "judge_inv cfg st" "list_ok L" "input_ok it" "sane_time now" "parse_ok f op r" "in_i64 ms"
    and "\<And>l. MaxStep (mk l) = Some ms" "\<And>l. ev_EventTime (mk l) = ji_Timestamp it"
  shows "\<exists>st'. (case ParseFuncFromString f op r of
       None \<Rightarrow> None
     | Some (Inl err) \<Rightarrow> Some st
     | Some (Inr fn) \<Rightarrow> do {
         res \<leftarrow> Compute fn L;
         if \<not> cr_enough res then Some st
         else sendEventIfNeed cfg st (cr_vs res) (cr_triggered res) now (mk (cr_left res)) ms
       }) = Some st' \<and> judge_inv cfg st'"
proof (cases "ParseFuncFromString f op r")
  case (Some p)
  show ?thesis
  proof (cases p)
    case (Inr fn)
    with Some assms(5) have w: "fn_window fn < 2 ^ 63 - 2" by (simp add: parse_ok_def)
    from Compute_total [OF assms(2) ParseFunc_window w] Some Inr
    obtain res where c: "Compute fn L = Some res" by blast
    show ?thesis
    proof (cases "cr_enough res")
      case True
      from Compute_enough_nonempty [OF c True] have ne: "cr_vs res \<noteq> []" .
      have st: "events_ok st" "queue_ok cfg st" "times_sane st" using assms(1) by (simp_all add: judge_inv_def)
      have t: "sane_time (ev_EventTime (mk (cr_left res)))"
        using assms(3) by (simp add: assms(8) input_ok_def)
      from sendEventIfNeed_refines [OF st ne assms(7) [of "cr_left res"] assms(6) t assms(4), of "cr_triggered res"]
      obtain st' where "sendEventIfNeed cfg st (cr_vs res) (cr_triggered res) now (mk (cr_left res)) ms = Some st'"
        "events_ok st'" "queue_ok cfg st'" "times_sane st'" "js_big st' = js_big st"
        "js_strategies st' = js_strategies st" "js_expressions st' = js_expressions st" by blast
      with judge_inv_frame [OF assms(1)] Some Inr c True show ?thesis by simp
    qed (use Some Inr c assms(1) in simp)
  qed (use Some assms(1) in simp)
qed (use assms(5) in \<open>simp add: parse_ok_def\<close>)

lemma judgeItemWithStrategy_total:
  assumes "judge_inv cfg st" "list_ok L" "input_ok it" "sane_time now" "strategy_ok s"
  shows "\<exists>st'. judgeItemWithStrategy cfg L it now st s = Some st' \<and> judge_inv cfg st'"
  unfolding judgeItemWithStrategy_def
  by (rule judge_fn_step [OF assms(1-4)])
    (use assms(5) in \<open>simp_all add: strategy_ok_def MaxStep_def from_origin_def mk_event_def\<close>)

lemma judgeItemWithExpression_total:
  assumes "judge_inv cfg st" "list_ok L" "input_ok it" "sane_time now" "expression_ok x"
  shows "\<exists>st'. judgeItemWithExpression cfg L it now st x = Some st' \<and> judge_inv cfg st'"
  unfolding judgeItemWithExpression_def
  by (rule judge_fn_step [OF assms(1-4)])
    (use assms(5) in \<open>simp_all add: expression_ok_def MaxStep_def from_origin_def mk_event_def\<close>)

lemma CheckStrategy_total:
  assumes "judge_inv cfg st" "list_ok L" "input_ok it" "sane_time now"
  shows "\<exists>st'. CheckStrategy cfg L it now st = Some st' \<and> judge_inv cfg st'"
proof (cases "gget (js_strategies st) (ji_Endpoint it @ ''/'' @ ji_Metric it)")
  case (Some ss)
  with assms(1) have "list_all strategy_ok ss" by (simp add: judge_inv_def)
  then show ?thesis unfolding CheckStrategy_def Some option.case
    by (intro foldM_total assms(1))
      (use judgeItemWithStrategy_total [OF _ assms(2-4)] in \<open>auto simp: list_all_iff\<close>)
qed (use assms(1) in \<open>simp add: CheckStrategy_def\<close>)

lemma CheckExpression_total:
  assumes "judge_inv cfg st" "list_ok L" "input_ok it" "sane_time now"
  shows "\<exists>st'. CheckExpression cfg L it now st = Some st' \<and> judge_inv cfg st'"
proof -
  let ?P = "\<lambda>sh. judge_inv cfg (fst sh)"
  have step: "\<exists>sh'. expr_step cfg L it now sh x = Some sh' \<and> ?P sh'" if "?P sh" "expression_ok x" for sh x
    using judgeItemWithExpression_total [OF that(1) assms(2-4) that(2)] that(1)
    by (cases sh) (auto simp: expr_step_def)
  have "\<exists>sh'. expr_key_step cfg L it now (js_expressions st) sh key = Some sh' \<and> ?P sh'" if "?P sh" for sh key
  proof (cases "gget (js_expressions st) key")
    case (Some xs)
    with assms(1) have "list_all expression_ok xs" by (simp add: judge_inv_def)
    then show ?thesis unfolding expr_key_step_def Some option.case
      by (intro foldM_total that step) (auto simp: filterRelatedExpressions_def list_all_iff)
  qed (use that in \<open>simp add: expr_key_step_def\<close>)
  then have "\<exists>sh'. foldM (expr_key_step cfg L it now (js_expressions st)) (st, []) (buildKeysFromMetricAndTags it) =
      Some sh' \<and> ?P sh'"
    by (intro foldM_total) (use assms(1) in auto)
  then show ?thesis by (auto simp: CheckExpression_def)
qed

lemma Judge_total:
  assumes "judge_inv cfg st" "list_ok L" "input_ok it" "sane_time now"
  shows "\<exists>st'. Judge cfg L it now st = Some st' \<and> judge_inv cfg st'"
proof -
  from CheckStrategy_total [OF assms] obtain st1 where
    1: "CheckStrategy cfg L it now st = Some st1" "judge_inv cfg st1" by blast
  from CheckExpression_total [OF 1(2) assms(2-4)] 1(1) show ?thesis by (simp add: Judge_def)
qed

lemma buckets_ok_put:
  assumes "buckets_ok big" "gget big b = Some M" "list_ok L"
  shows "buckets_ok (gput b (gput key L M) big)"
  using assms by (fastforce simp: buckets_ok_def split: if_splits)

lemma judge_inv_put:
  assumes "judge_inv cfg st" "gget (js_big st) b = Some M" "list_ok L"
  shows "judge_inv cfg (st\<lparr>js_big := gput b (gput key L M) (js_big st)\<rparr>)"
  using assms buckets_ok_put by (simp add: judge_inv_def events_ok_def queue_ok_def times_sane_def)

lemma input_ok_item: "input_ok it \<Longrightarrow> item_ok it"
  by (simp add: input_ok_def item_ok_def sane_time_i64)

lemma Send_item_total:
  assumes "judge_inv cfg st" "input_ok it" "sane_time now" "0 \<le> jc_Remain cfg"
  shows "\<exists>st'. Send_item cfg now st it = Some st' \<and> judge_inv cfg st'"
proof -
  let ?pk = "judge_PrimaryKey it"
  obtain a b where sl: "go_slice ?pk 0 2 = Some [a, b]" "is_hex a" "is_hex b"
    using digest_prefix [of ?pk] Md5_hex by (auto simp: judge_PrimaryKey_def)
  have "gget (js_big st) [a, b] \<noteq> None" using assms(1) sl(2,3) by (simp add: judge_inv_def buckets_ok_def)
  then obtain M where M: "gget (js_big st) [a, b] = Some M" by blast
  have "\<exists>st'. PushFrontAndMaintain cfg [a, b] ?pk it now st = Some st' \<and> judge_inv cfg st'"
  proof (cases "gget M ?pk")
    case None
    have "judge_inv cfg (st\<lparr>js_big := gput [a, b] (gput ?pk [it] M) (js_big st)\<rparr>)"
      using judge_inv_put [OF assms(1) M] input_ok_item [OF assms(2)] by simp
    from Judge_total [OF this, of "[it]"] assms(2,3) input_ok_item [OF assms(2)] None M show ?thesis
      by (simp add: PushFrontAndMaintain_def)
  next
    case (Some L)
    with assms(1) M have "list_ok L" by (auto simp: judge_inv_def buckets_ok_def)
    from push_list_facts [OF this input_ok_item [OF assms(2)] assms(4)] obtain L' acc where
      p: "PushFrontAndMaintain_list L it (jc_Remain cfg) = Some (L', acc)" "list_ok L'" by blast
    have inv: "judge_inv cfg (st\<lparr>js_big := gput [a, b] (gput ?pk L' M) (js_big st)\<rparr>)"
      using judge_inv_put [OF assms(1) M p(2)] .
    from Judge_total [OF inv p(2) assms(2,3)] inv Some M p(1) show ?thesis
      by (cases acc) (simp_all add: PushFrontAndMaintain_def)
  qed
  with sl show ?thesis by (simp add: Send_item_def)
qed

lemma Send_total:
  assumes "judge_inv cfg st" "list_all input_ok items" "sane_time now" "0 \<le> jc_Remain cfg"
  shows "\<exists>st'. Send cfg now st items = Some st' \<and> judge_inv cfg st'"
  unfolding Send_def
  by (intro foldM_total assms(1)) (use Send_item_total assms(2-4) in \<open>auto simp: list_all_iff\<close>)

end
