(* ===== verification/Judge_Process.thy ===== *)
theory Judge_Process
  imports Judge_Alarm
begin

text \<open>
  The judge as a process: every sequence of its handlers (points received over RPC, the periodic
  cleaner, the refresh of strategies and expressions) as a step relation, its invariant by
  rule induction, and the selection of the strategies and expressions a point is judged by.
\<close>

section \<open>The refreshed maps\<close>

lemma strategies_bucket:
  "bucket (js_strategies (rebuildStrategyMap resp st)) k =
    concat (map (\<lambda>hs. filter (\<lambda>s. strategy_key (hs_Hostname hs) s = k) (hs_Strategies hs)) resp)"
proof -
  have "bucket (foldl (\<lambda>m s. add_to_bucket (strategy_key (hs_Hostname hs) s) s m) m (hs_Strategies hs)) k =
      bucket m k @ filter (\<lambda>s. strategy_key (hs_Hostname hs) s = k) (hs_Strategies hs)" for m hs
    using bucket_foldl_add [of "strategy_key (hs_Hostname hs)" "\<lambda>s. s" m] by simp
  from bucket_foldl_nested [where m = "[]", OF this, where xs = resp] show ?thesis
    by (simp add: rebuildStrategyMap_def)
qed

lemma expressions_bucket:
  "bucket (js_expressions (rebuildExpressionMap resp st)) k =
    concat (map (\<lambda>x. map (\<lambda>_. x) (filter (\<lambda>(a, v). ex_Metric x @ ''/'' @ a @ ''='' @ v = k) (ex_Tags x))) resp)"
proof -
  have "bucket (foldl (\<lambda>m (a, v). add_to_bucket (ex_Metric x @ ''/'' @ a @ ''='' @ v) x m) m (ex_Tags x)) k =
      bucket m k @ map (\<lambda>_. x) (filter (\<lambda>(a, v). ex_Metric x @ ''/'' @ a @ ''='' @ v = k) (ex_Tags x))" for m x
    using bucket_foldl_add [of "\<lambda>(a, v). ex_Metric x @ ''/'' @ a @ ''='' @ v" "\<lambda>_. x" m "ex_Tags x" k]
    by (simp add: case_prod_unfold)
  from bucket_foldl_nested [where m = "[]", OF this, where xs = resp] show ?thesis
    by (simp add: rebuildExpressionMap_def)
qed

text \<open>
  After a refresh the strategies filed under an endpoint and metric are exactly those of the
  response whose host name and metric give that key, in the order of the response: none is
  lost, none is duplicated, and nothing of the old map survives.
\<close>

theorem rebuildStrategyMap_exact:
  "(case gget (js_strategies (rebuildStrategyMap resp st)) (h @ ''/'' @ m) of None \<Rightarrow> [] | Some ss \<Rightarrow> ss) =
    concat (map (\<lambda>hs. filter (\<lambda>s. hs_Hostname hs @ ''/'' @ st_Metric s = h @ ''/'' @ m) (hs_Strategies hs)) resp)"
  using strategies_bucket [of resp st "h @ ''/'' @ m"] by (simp add: bucket_def strategy_key_def)

section \<open>The expressions a point is judged by\<close>

fun first_by_id :: "int list \<Rightarrow> expression list \<Rightarrow> expression list" where
  "first_by_id seen [] = []"
| "first_by_id seen (x # xs) =
    (if ex_Id x \<in> set seen then first_by_id seen xs else x # first_by_id (ex_Id x # seen) xs)"

definition expr_candidates :: "(string, expression list) gomap \<Rightarrow> judge_item \<Rightarrow> expression list" where
  "expr_candidates em it =
    concat (map (\<lambda>k. filterRelatedExpressions (bucket em k) it) (buildKeysFromMetricAndTags it))"

lemma first_by_id_distinct:
  "distinct (map ex_Id (first_by_id seen xs)) \<and> ex_Id ` set (first_by_id seen xs) = ex_Id ` set xs - set seen \<and>
    set (first_by_id seen xs) \<subseteq> set xs"
proof (induction seen xs rule: first_by_id.induct)
  case (2 seen x xs)
  then show ?case by (cases "ex_Id x \<in> set seen") auto
qed simp

lemma first_by_id_append:
  "first_by_id seen (xs @ ys) = first_by_id seen xs @ first_by_id (rev (map ex_Id (first_by_id seen xs)) @ seen) ys"
  by (induction seen xs rule: first_by_id.induct) simp_all

lemma foldM_expr_step:
  "foldM (expr_step cfg L it now) (st, h) xs =
    map_option (\<lambda>st'. (st', rev (map ex_Id (first_by_id h xs)) @ h))
      (foldM (judgeItemWithExpression cfg L it now) st (first_by_id h xs))"
proof (induction h xs arbitrary: st rule: first_by_id.induct)
  case (2 seen x xs)
  show ?case
  proof (cases "ex_Id x \<in> set seen")
    case False
    then show ?thesis using 2(2) by (cases "judgeItemWithExpression cfg L it now st x") (simp_all add: expr_step_def)
  qed (use 2(1) in \<open>simp add: expr_step_def\<close>)
qed simp

lemma expr_key_step_bucket:
  "expr_key_step cfg L it now em sh k = foldM (expr_step cfg L it now) sh (filterRelatedExpressions (bucket em k) it)"
  by (simp add: expr_key_step_def bucket_def filterRelatedExpressions_def split: option.split)

lemma CheckExpression_worklist:
  "CheckExpression cfg L it now st =
    foldM (judgeItemWithExpression cfg L it now) st (first_by_id [] (expr_candidates (js_expressions st) it))"
  by (simp add: CheckExpression_def expr_key_step_bucket [abs_def] foldM_concat foldM_expr_step
      option.map_comp comp_def expr_candidates_def [symmetric] option.map_ident)

lemma copyItemTags_lookup:
  assumes "gget (copyItemTags it) k = Some v"
  shows "(k, v) \<in> set (ji_Tags it) \<or> k = ''endpoint'' \<and> v = ji_Endpoint it"
proof -
  have "\<forall>k v. gget (foldl (\<lambda>ret (k, v). gput k v ret) m ts) k = Some v \<longrightarrow> (k, v) \<in> set ts \<or> gget m k = Some v"
    for m :: tagmap and ts
  proof (induction ts arbitrary: m)
    case (Cons t ts)
    show ?case using Cons [of "case t of (k, v) \<Rightarrow> gput k v m"] by (cases t) (auto split: if_splits)
  qed simp
  then show ?thesis using assms by (fastforce simp: copyItemTags_def split: if_splits)
qed

lemma related_key:
  assumes "expression_related it x" "(k, v) \<in> set (ex_Tags x)" "ex_Metric x = ji_Metric it"
  shows "ex_Metric x @ ''/'' @ k @ ''='' @ v \<in> set (buildKeysFromMetricAndTags it)"
proof -
  have "(k, v) \<in> set (ji_Tags it) \<or> k = ''endpoint'' \<and> v = ji_Endpoint it"
    using assms(1,2) copyItemTags_lookup [of it k v]
    by (auto simp: expression_related_def tags_match_def list_all_iff dest: map_of_SomeD split: if_splits)
  then show ?thesis using assms(3) by (force simp: buildKeysFromMetricAndTags_def)
qed

lemma related_candidate:
  assumes "x \<in> set resp" "ex_Tags x \<noteq> []" "expression_related it x" "ex_Metric x = ji_Metric it"
  shows "x \<in> set (expr_candidates (js_expressions (rebuildExpressionMap resp st)) it)"
proof -
  from assms(2) obtain k v r where kv: "ex_Tags x = (k, v) # r" by (cases "ex_Tags x") auto
  let ?k = "ex_Metric x @ ''/'' @ k @ ''='' @ v"
  have "x \<in> set (bucket (js_expressions (rebuildExpressionMap resp st)) ?k)"
    using assms(1) kv by (force simp: expressions_bucket)
  with related_key [OF assms(3) _ assms(4), of k v] kv assms(3) show ?thesis
    by (auto simp: expr_candidates_def filterRelatedExpressions_def)
qed

lemma candidate_sound:
  "x \<in> set (expr_candidates (js_expressions (rebuildExpressionMap resp st)) it) \<Longrightarrow>
    x \<in> set resp \<and> expression_related it x"
  by (auto simp: expr_candidates_def filterRelatedExpressions_def expressions_bucket)

text \<open>
  C32: After a refresh a point is judged by every expression of the response on its metric whose
  tags (there must be one) it carries, by no expression whose tags it lacks, and by each
  expression id once, although the expression is filed under each of its tags.
\<close>

theorem CheckExpression_exactly_once:
  assumes "js_expressions st = js_expressions (rebuildExpressionMap resp st0)"
  shows "\<exists>ws. CheckExpression cfg L it now st = foldM (judgeItemWithExpression cfg L it now) st ws \<and>
    distinct (map ex_Id ws) \<and> (\<forall>x\<in>set ws. x \<in> set resp \<and> expression_related it x) \<and>
    (\<forall>x\<in>set resp. ex_Tags x \<noteq> [] \<and> ex_Metric x = ji_Metric it \<and> expression_related it x \<longrightarrow>
      ex_Id x \<in> ex_Id ` set ws)"
proof -
  let ?c = "expr_candidates (js_expressions st) it"
  note f = first_by_id_distinct [of "[]" ?c]
  have "ex_Id x \<in> ex_Id ` set (first_by_id [] ?c)"
    if "x \<in> set resp" "ex_Tags x \<noteq> []" "ex_Metric x = ji_Metric it" "expression_related it x" for x
    using related_candidate [OF that(1,2,4,3), of st0, folded assms] f by simp
  moreover have "x \<in> set resp \<and> expression_related it x" if "x \<in> set (first_by_id [] ?c)" for x
    using that f by (intro candidate_sound [of _ resp st0, folded assms]) blast
  ultimately show ?thesis
    using f by (intro exI [of _ "first_by_id [] ?c"]) (simp only: CheckExpression_worklist, blast)
qed

definition demo_expression :: expression where
  "demo_expression = \<lparr>ex_Id = 3, ex_Metric = ''cpu'', ex_Tags = [(''endpoint'', ''h''), (''cluster'', ''a'')],
    ex_Func = ''all(#1)'', ex_Operator = ''>'', ex_RightValue = f_of_int 80, ex_MaxStep = 3, ex_Priority = 0,
    ex_Note = '''', ex_ActionId = 0\<rparr>"

definition tagged_sample :: judge_item where
  "tagged_sample = (sample 60 90)\<lparr>ji_Tags := [(''cluster'', ''a'')]\<rparr>"

theorem CheckExpression_exactly_once_witness:
  "\<exists>ws. CheckExpression demo_config [tagged_sample] tagged_sample 60
      (rebuildExpressionMap [demo_expression] init_judge) =
    foldM (judgeItemWithExpression demo_config [tagged_sample] tagged_sample 60)
      (rebuildExpressionMap [demo_expression] init_judge) ws \<and> map ex_Id ws = [3]"
proof -
  have r: "expression_related tagged_sample demo_expression"
    by (simp add: expression_related_def demo_expression_def tagged_sample_def sample_def copyItemTags_def
        tags_match_def)
  have d: "ex_Id demo_expression = 3" "ex_Tags demo_expression \<noteq> []"
    "ex_Metric demo_expression = ji_Metric tagged_sample"
    by (simp_all add: demo_expression_def tagged_sample_def sample_def)
  let ?st = "rebuildExpressionMap [demo_expression] init_judge"
  from CheckExpression_exactly_once [of ?st "[demo_expression]" init_judge demo_config "[tagged_sample]" tagged_sample 60,
      OF refl]
  obtain ws where ws: "CheckExpression demo_config [tagged_sample] tagged_sample 60 ?st =
      foldM (judgeItemWithExpression demo_config [tagged_sample] tagged_sample 60) ?st ws"
    and dist: "distinct (map ex_Id ws)"
    and only: "\<forall>x\<in>set ws. x \<in> set [demo_expression] \<and> expression_related tagged_sample x"
    and all: "\<forall>x\<in>set [demo_expression]. ex_Tags x \<noteq> [] \<and> ex_Metric x = ji_Metric tagged_sample \<and>
      expression_related tagged_sample x \<longrightarrow> ex_Id x \<in> ex_Id ` set ws"
    by (elim exE conjE)
  from all r d have mem: "3 \<in> ex_Id ` set ws" by simp
  have "map ex_Id ws = [3]"
  proof (cases ws)
    case (Cons x w)
    then have "w = []" using dist only by (cases w) simp_all
    then show ?thesis using Cons only d(1) by simp
  qed (use mem in simp)
  then show ?thesis by (intro exI [of _ ws] conjI ws)
qed

section \<open>Handlers and reachable states\<close>

inductive judge_step :: "judge_config \<Rightarrow> judge_state \<Rightarrow> judge_state \<Rightarrow> bool" for cfg where
  receive: "list_all input_ok items \<Longrightarrow> sane_time now \<Longrightarrow> Send cfg now st items = Some st' \<Longrightarrow> judge_step cfg st st'"
| clean: "judge_step cfg st (clean_judge now st)"
| strategies: "(\<And>r hs. resp = Inr r \<Longrightarrow> hs \<in> set r \<Longrightarrow> list_all strategy_ok (hs_Strategies hs)) \<Longrightarrow>
    judge_step cfg st (syncStrategies resp st)"
| expressions: "(\<And>r. resp = Inr r \<Longrightarrow> list_all expression_ok r) \<Longrightarrow> judge_step cfg st (syncExpression resp st)"

inductive judge_reachable :: "judge_config \<Rightarrow> judge_state \<Rightarrow> bool" for cfg where
  start: "judge_reachable cfg init_judge"
| step: "judge_reachable cfg st \<Longrightarrow> judge_step cfg st st' \<Longrightarrow> judge_reachable cfg st'"

inductive_cases judge_stepE: "judge_step cfg st st'"

lemma bucket_ok_iff:
  "(\<forall>k ss. gget m k = Some ss \<longrightarrow> list_all P ss) \<longleftrightarrow> (\<forall>k. list_all P (bucket m k))"
  by (auto simp: bucket_def split: option.splits)

lemma judge_inv_init: "judge_inv cfg init_judge"
proof -
  have "M = []" if "gget InitHistoryBigMap b = Some M" for b M
    using InitHistoryBigMap_empty map_of_SomeD [OF that] by auto
  then have "buckets_ok InitHistoryBigMap"
    unfolding buckets_ok_def using hex_bucket by fastforce
  then show ?thesis
    by (simp add: judge_inv_def init_judge_def events_ok_def queue_ok_def times_sane_def)
qed

lemma CleanStale_ok:
  assumes "gomap_ok M"
  shows "gomap_ok (CleanStale M before)"
  unfolding CleanStale_def BatchDelete_def by (rule gm.valid_fold_remove [OF assms])

lemma judge_inv_clean:
  assumes "judge_inv cfg st"
  shows "judge_inv cfg (clean_judge now st)"
proof -
  have l: "gget (cleanStale big now) b = map_option (\<lambda>M. CleanStale M (i64 (now - 3600 * 24 * 7))) (gget big b)" for big b
    by (simp add: cleanStale_def map_of_map)
  have "buckets_ok (cleanStale big now)" if "buckets_ok big" for big
    using that unfolding buckets_ok_def l
    by (auto simp: CleanStale_ok CleanStale_lookup split: option.splits if_splits)
  with assms show ?thesis
    by (simp add: judge_inv_def clean_judge_def events_ok_def queue_ok_def times_sane_def)
qed

lemma judge_inv_maps:
  assumes "judge_inv cfg st" "\<And>k. list_all strategy_ok (bucket sm k)" "\<And>k. list_all expression_ok (bucket em k)"
  shows "judge_inv cfg (st\<lparr>js_strategies := sm, js_expressions := em\<rparr>)"
  using assms by (simp add: judge_inv_def events_ok_def queue_ok_def times_sane_def bucket_ok_iff)

lemma judge_inv_strategies:
  assumes "judge_inv cfg st" "\<And>r hs. resp = Inr r \<Longrightarrow> hs \<in> set r \<Longrightarrow> list_all strategy_ok (hs_Strategies hs)"
  shows "judge_inv cfg (syncStrategies resp st)"
proof (cases resp)
  case (Inr r)
  have "list_all strategy_ok (bucket (js_strategies (rebuildStrategyMap r st)) k)" for k
    using assms(2) Inr by (fastforce simp: strategies_bucket list_all_iff)
  from judge_inv_maps [OF assms(1) this, of "js_expressions st"] assms(1) Inr show ?thesis
    by (simp add: syncStrategies_def judge_inv_def bucket_ok_iff rebuildStrategyMap_def)
qed (use assms(1) in \<open>simp add: syncStrategies_def\<close>)

lemma judge_inv_expressions:
  assumes "judge_inv cfg st" "\<And>r. resp = Inr r \<Longrightarrow> list_all expression_ok r"
  shows "judge_inv cfg (syncExpression resp st)"
proof (cases resp)
  case (Inr r)
  have "list_all expression_ok (bucket (js_expressions (rebuildExpressionMap r st)) k)" for k
    using assms(2) [OF Inr] by (fastforce simp: expressions_bucket list_all_iff)
  from judge_inv_maps [OF assms(1) _ this, of "js_strategies st"] assms(1) Inr show ?thesis
    by (simp add: syncExpression_def judge_inv_def bucket_ok_iff rebuildExpressionMap_def)
qed (use assms(1) in \<open>simp add: syncExpression_def\<close>)

lemma judge_reachable_inv:
  assumes "judge_reachable cfg st" "0 \<le> jc_Remain cfg"
  shows "judge_inv cfg st"
  using assms(1)
proof (induction rule: judge_reachable.induct)
  case (step st st')
  from step.hyps(2) show ?case
  proof (elim judge_stepE)
    fix items now
    assume "list_all input_ok items" "sane_time now" "Send cfg now st items = Some st'"
    then show ?thesis using Send_total [OF step.IH _ _ assms(2)] by fastforce
  qed (use judge_inv_clean [OF step.IH] judge_inv_strategies [OF step.IH] judge_inv_expressions [OF step.IH] in blast)+
qed (rule judge_inv_init)

text \<open>
  C5: After any sequence of the judge's handlers (receiving, cleaning, refreshing) receiving points does
  not panic: the handler returns, and every series it leaves is newest-first with strictly
  decreasing times. Three conditions on all inputs, earlier ones included. The strategies and
  expressions served have functions that parse, with a window below 2^63 - 2 and a limit of 64
  bits (\<open>strategy_ok\<close>, \<open>expression_ok\<close>). The items have a non-empty judge type and a time of
  absolute value below 2^62 (\<open>input_ok\<close>): an empty type would panic at its first byte; the items a
  transfer makes of points it accepted over RPC satisfy this (C4). The judge's clock is below 2^62
  too, and the number of points it is configured to keep is not negative.
\<close>

theorem Send_never_panics:
  assumes "judge_reachable cfg st" "0 \<le> jc_Remain cfg" "list_all input_ok items" "sane_time now"
  shows "\<exists>st'. Send cfg now st items = Some st' \<and>
    (\<forall>b M k L. gget (js_big st') b = Some M \<and> gget M k = Some L \<longrightarrow>
      sorted_wrt (\<lambda>x y. ji_Timestamp y < ji_Timestamp x) L)"
  using Send_total [OF judge_reachable_inv [OF assms(1,2)] assms(3,4,2)]
  by (fastforce simp: judge_inv_def buckets_ok_def list_ok_def decreasing_def)

definition demo_hosts :: "host_strategy list" where
  "demo_hosts = [\<lparr>hs_Hostname = ''h'', hs_Strategies = [demo_strategy]\<rparr>]"

theorem Send_never_panics_witness:
  "\<exists>st'. Send demo_config 70 (rebuildStrategyMap demo_hosts init_judge) [sample 60 90] = Some st'"
proof -
  have "parse_ok ''all(#1)'' ''>'' (f_of_int 80)" by code_simp
  then have "strategy_ok demo_strategy" by (simp add: strategy_ok_def demo_strategy_def in_i64_def)
  then have "judge_step demo_config init_judge (syncStrategies (Inr demo_hosts) init_judge)"
    by (intro judge_step.strategies) (auto simp: demo_hosts_def)
  then have "judge_reachable demo_config (rebuildStrategyMap demo_hosts init_judge)"
    using judge_reachable.step [OF judge_reachable.start] by (simp add: syncStrategies_def)
  then show ?thesis
    using Send_never_panics [of demo_config "rebuildStrategyMap demo_hosts init_judge" "[sample 60 90]" 70]
    by (auto simp: demo_config_def input_ok_def sample_def sane_time_def)
qed

text \<open>
  Every alarm in Redis names a strategy or an expression and has its status right: it is a
  problem of step one or more, no step beyond the allowed number of alarms, or a recovery; and
  it lies in the queue of its own priority.
\<close>

theorem queued_alarms_bounded:
  assumes "judge_reachable cfg st" "0 \<le> jc_Remain cfg" "(q, e) \<in> set (js_redis st)"
  shows "\<exists>m p. MaxStep e = Some m \<and> Priority e = Some p \<and> q = jc_QueueKey cfg p \<and>
    (ev_Status e = ''PROBLEM'' \<or> ev_Status e = ''OK'') \<and> 1 \<le> ev_CurrentStep e \<and> ev_CurrentStep e \<le> max 1 m"
  using judge_reachable_inv [OF assms(1,2)] assms(3)
  by (fastforce simp: judge_inv_def queue_ok_def event_ok_def)

theorem queued_alarms_bounded_witness:
  "\<exists>st. Send demo_config 70 (rebuildStrategyMap demo_hosts init_judge) [sample 60 90] = Some st \<and>
    js_redis st \<noteq> [] \<and> ev_CurrentStep (snd (hd (js_redis st))) \<le> 3"
proof -
  let ?s0 = "rebuildStrategyMap demo_hosts init_judge"
  have "parse_ok ''all(#1)'' ''>'' (f_of_int 80)" by code_simp
  then have "strategy_ok demo_strategy" by (simp add: strategy_ok_def demo_strategy_def in_i64_def)
  then have "judge_step demo_config init_judge (syncStrategies (Inr demo_hosts) init_judge)"
    by (intro judge_step.strategies) (auto simp: demo_hosts_def)
  then have r0: "judge_reachable demo_config ?s0"
    using judge_reachable.step [OF judge_reachable.start] by (simp add: syncStrategies_def)
  have ex: "(case Send demo_config 70 ?s0 [sample 60 90] of None \<Rightarrow> False
      | Some st \<Rightarrow> (case js_redis st of [(q, e)] \<Rightarrow> MaxStep e = Some 3 | _ \<Rightarrow> False))"
    by code_simp
  then obtain st where st: "Send demo_config 70 ?s0 [sample 60 90] = Some st" by (auto split: option.splits)
  with ex obtain q e where e: "js_redis st = [(q, e)]" "MaxStep e = Some 3"
    by (cases "js_redis st"; cases "tl (js_redis st)") (auto split: prod.splits)
  have "judge_step demo_config ?s0 st"
    using st by (intro judge_step.receive [of "[sample 60 90]" 70]) (auto simp: input_ok_def sample_def sane_time_def)
  from judge_reachable.step [OF r0 this] queued_alarms_bounded [of demo_config st q e] e st show ?thesis
    by (auto simp: demo_config_def)
qed

end
