(* ===== verification/Hbs_Core.thy ===== *)
theory Hbs_Core
  imports Model
begin

text \<open>
  The heartbeat server (\<open>modules/hbs\<close>): what it reads from the database, its caches, and the
  handlers that agents and judges call. The answer of a query is an argument: an error, or the
  rows, where a row that cannot be scanned is \<open>None\<close> and is skipped, as the source does. The SQL
  conditions are the database's and are not modelled.

  Go visits a map in an order of its own. Maps that come with the state are lists, so a statement
  about them holds for every order; for the maps that a handler builds itself the order is the
  argument \<open>visit\<close>, any function that permutes its argument.
\<close>

section \<open>Reading the database\<close>

definition QueryHostGroups :: "(int \<times> int) rows \<Rightarrow> string + (int, int list) gomap" where
  "QueryHostGroups rows =
    (case rows of Inl err \<Rightarrow> Inl err
     | Inr rs \<Rightarrow> Inr (foldl (\<lambda>m r. add_to_bucket (snd r) (fst r) m) [] (scanned rs)))"

definition QueryPlugins :: "(int \<times> string) rows \<Rightarrow> string + (int, string list) gomap" where
  "QueryPlugins rows =
    (case rows of Inl err \<Rightarrow> Inl err
     | Inr rs \<Rightarrow> Inr (foldl (\<lambda>m r. add_to_bucket (fst r) (snd r) m) [] (scanned rs)))"

definition QueryGroupTemplates :: "(int \<times> int) rows \<Rightarrow> string + (int, int list) gomap" where
  "QueryGroupTemplates rows =
    (case rows of Inl err \<Rightarrow> Inl err
     | Inr rs \<Rightarrow> Inr (foldl (\<lambda>m r. add_to_bucket (fst r) (snd r) m) [] (scanned rs)))"

text \<open>The rows of the join are template and host.\<close>

definition QueryHostTemplateIds :: "(int \<times> int) rows \<Rightarrow> string + (int, int list) gomap" where
  "QueryHostTemplateIds rows =
    (case rows of Inl err \<Rightarrow> Inl err
     | Inr rs \<Rightarrow> Inr (foldl (\<lambda>m r. add_to_bucket (snd r) (fst r) m) [] (scanned rs)))"

definition QueryHosts :: "(int \<times> string) rows \<Rightarrow> string + (string, int) gomap" where
  "QueryHosts rows =
    (case rows of Inl err \<Rightarrow> Inl err
     | Inr rs \<Rightarrow> Inr (foldl (\<lambda>m r. gput (snd r) (fst r) m) [] (scanned rs)))"

definition QueryMonitoredHosts :: "host rows \<Rightarrow> string + (int, host) gomap" where
  "QueryMonitoredHosts rows =
    (case rows of Inl err \<Rightarrow> Inl err
     | Inr rs \<Rightarrow> Inr (foldl (\<lambda>m t. gput (ho_Id t) t m) [] (scanned rs)))"

definition QueryTemplates :: "template rows \<Rightarrow> string + (int, template) gomap" where
  "QueryTemplates rows =
    (case rows of Inl err \<Rightarrow> Inl err
     | Inr rs \<Rightarrow> Inr (foldl (\<lambda>m t. gput (tpl_Id t) t m) [] (scanned rs)))"

text \<open>
  A row of \<open>strategy\<close> is the strategy's own columns, the column \<open>tags\<close> and the template's id; the
  tags and the template of the record are filled in here.
\<close>

definition strategy_row_tags :: "string \<Rightarrow> tagmap" where
  "strategy_row_tags tags = (if tags = '''' then [] else foldl dict_step [] (go_split (CHR '','') tags))"

definition strategy_row ::
    "(int, template) gomap \<Rightarrow> (int, strategy) gomap \<Rightarrow> strategy \<times> string \<times> int \<Rightarrow> (int, strategy) gomap" where
  "strategy_row tpls ret row =
    (case row of (s, tags, tid) \<Rightarrow>
      (case gget tpls tid of
         None \<Rightarrow> ret
       | Some t \<Rightarrow> gput (st_Id s) (s\<lparr>st_Tags := strategy_row_tags tags, st_Tpl := Some t\<rparr>) ret))"

definition QueryStrategies ::
    "(int, template) gomap \<Rightarrow> (strategy \<times> string \<times> int) rows \<Rightarrow> string + (int, strategy) gomap" where
  "QueryStrategies tpls rows =
    (if tpls = [] then Inl ''illegal argument''
     else case rows of Inl err \<Rightarrow> Inl err | Inr rs \<Rightarrow> Inr (foldl (strategy_row tpls) [] (scanned rs)))"

text \<open>
  An expression is written \<open>(metric=qps k1=v1 k2=v2)\<close>, possibly with text around the parentheses.
  The slice between them panics when the closing one is missing or comes first.
\<close>

fun exp_tags_loop :: "string \<Rightarrow> string list \<Rightarrow> tagmap \<Rightarrow> string + tagmap" where
  "exp_tags_loop expr [] tags = Inr tags"
| "exp_tags_loop expr (item # arr) tags =
    (case go_split (CHR ''='') item of
       [k, v] \<Rightarrow> exp_tags_loop expr arr (gput (go_trim_space k) (go_trim_space v) tags)
     | _ \<Rightarrow> Inl (''parse '' @ expr @ '' fail''))"

definition parseExpression :: "string \<Rightarrow> (string + string \<times> tagmap) option" where
  "parseExpression expr = do {
    let left = go_index expr (CHR ''('');
    let right = go_index expr (CHR '')'');
    inner \<leftarrow> go_slice expr (left + 1) right;
    let arr = go_fields (go_trim_space inner);
    Some (if length arr < 2 then Inl (''tag not enough. exp: '' @ expr)
      else case exp_tags_loop expr arr [] of
        Inl err \<Rightarrow> Inl err
      | Inr tags \<Rightarrow>
          (case gget tags ''metric'' of
             None \<Rightarrow> Inl (''no metric give of '' @ expr)
           | Some metric \<Rightarrow> Inr (metric, gdel ''metric'' tags)))
  }"

definition expression_row :: "expression list \<Rightarrow> expression \<times> string \<Rightarrow> expression list option" where
  "expression_row ret row =
    (case row of (e, expr) \<Rightarrow> do {
      r \<leftarrow> parseExpression expr;
      Some (case r of Inl err \<Rightarrow> ret | Inr (metric, tags) \<Rightarrow> ret @ [e\<lparr>ex_Metric := metric, ex_Tags := tags\<rparr>])
    })"

definition QueryExpressions :: "(expression \<times> string) rows \<Rightarrow> (string + expression list) option" where
  "QueryExpressions rows =
    (case rows of Inl err \<Rightarrow> Some (Inl err)
     | Inr rs \<Rightarrow> map_option Inr (foldM expression_row [] (scanned rs)))"

text \<open>Each metric and tags once; \<open>keys\<close> is the set of strings already seen.\<close>

definition builtin_row :: "builtin_metric list \<times> string list \<Rightarrow> builtin_metric \<Rightarrow> builtin_metric list \<times> string list" where
  "builtin_row acc m =
    (case acc of (ret, keys) \<Rightarrow>
      (let k = bm_Metric m @ bm_Tags m
       in if k \<in> set keys then (ret, keys) else (ret @ [m], k # keys)))"

definition QueryBuiltinMetrics :: "builtin_metric rows \<Rightarrow> string + builtin_metric list" where
  "QueryBuiltinMetrics rows =
    (case rows of Inl err \<Rightarrow> Inl err | Inr rs \<Rightarrow> Inr (fst (foldl builtin_row ([], []) (scanned rs))))"

section \<open>The caches\<close>

record hbs_db =
  db_plugins :: "(int \<times> string) rows"
  db_group_templates :: "(int \<times> int) rows"
  db_host_groups :: "(int \<times> int) rows"
  db_hosts :: "(int \<times> string) rows"
  db_templates :: "template rows"
  db_strategies :: "(strategy \<times> string \<times> int) rows"
  db_host_template_ids :: "(int \<times> int) rows"
  db_expressions :: "(expression \<times> string) rows"
  db_monitored_hosts :: "host rows"

record hbs_state =
  hb_GroupPlugins :: "(int, string list) gomap"
  hb_GroupTemplates :: "(int, int list) gomap"
  hb_HostGroupsMap :: "(int, int list) gomap"
  hb_HostMap :: "(string, int) gomap"
  hb_TemplateCache :: "(int, template) gomap"
  hb_Strategies :: "(int, strategy) gomap"
  hb_HostTemplateIds :: "(int, int list) gomap"
  hb_ExpressionCache :: "expression list"
  hb_MonitoredHosts :: "(int, host) gomap"
  hb_Agents :: "(string, agent_update_info) gomap"
  hb_updates :: "agent_update_info list"

definition init_hbs :: hbs_state where
  "init_hbs = \<lparr>hb_GroupPlugins = [], hb_GroupTemplates = [], hb_HostGroupsMap = [], hb_HostMap = [],
    hb_TemplateCache = [], hb_Strategies = [], hb_HostTemplateIds = [], hb_ExpressionCache = [],
    hb_MonitoredHosts = [], hb_Agents = [], hb_updates = []\<rparr>"

text \<open>A query that fails leaves its cache as it was.\<close>

definition reload :: "string + 'm \<Rightarrow> 'm \<Rightarrow> 'm" where
  "reload q old = (case q of Inl err \<Rightarrow> old | Inr m \<Rightarrow> m)"

definition GroupPlugins_Init :: "hbs_db \<Rightarrow> hbs_state \<Rightarrow> hbs_state" where
  "GroupPlugins_Init db st = st\<lparr>hb_GroupPlugins := reload (QueryPlugins (db_plugins db)) (hb_GroupPlugins st)\<rparr>"

definition GroupTemplates_Init :: "hbs_db \<Rightarrow> hbs_state \<Rightarrow> hbs_state" where
  "GroupTemplates_Init db st =
    st\<lparr>hb_GroupTemplates := reload (QueryGroupTemplates (db_group_templates db)) (hb_GroupTemplates st)\<rparr>"

definition HostGroupsMap_Init :: "hbs_db \<Rightarrow> hbs_state \<Rightarrow> hbs_state" where
  "HostGroupsMap_Init db st =
    st\<lparr>hb_HostGroupsMap := reload (QueryHostGroups (db_host_groups db)) (hb_HostGroupsMap st)\<rparr>"

definition HostMap_Init :: "hbs_db \<Rightarrow> hbs_state \<Rightarrow> hbs_state" where
  "HostMap_Init db st = st\<lparr>hb_HostMap := reload (QueryHosts (db_hosts db)) (hb_HostMap st)\<rparr>"

definition TemplateCache_Init :: "hbs_db \<Rightarrow> hbs_state \<Rightarrow> hbs_state" where
  "TemplateCache_Init db st =
    st\<lparr>hb_TemplateCache := reload (QueryTemplates (db_templates db)) (hb_TemplateCache st)\<rparr>"

definition Strategies_Init :: "(int, template) gomap \<Rightarrow> hbs_db \<Rightarrow> hbs_state \<Rightarrow> hbs_state" where
  "Strategies_Init tpls db st =
    st\<lparr>hb_Strategies := reload (QueryStrategies tpls (db_strategies db)) (hb_Strategies st)\<rparr>"

definition HostTemplateIds_Init :: "hbs_db \<Rightarrow> hbs_state \<Rightarrow> hbs_state" where
  "HostTemplateIds_Init db st =
    st\<lparr>hb_HostTemplateIds := reload (QueryHostTemplateIds (db_host_template_ids db)) (hb_HostTemplateIds st)\<rparr>"

definition ExpressionCache_Init :: "hbs_db \<Rightarrow> hbs_state \<Rightarrow> hbs_state option" where
  "ExpressionCache_Init db st = do {
    q \<leftarrow> QueryExpressions (db_expressions db);
    Some (st\<lparr>hb_ExpressionCache := reload q (hb_ExpressionCache st)\<rparr>)
  }"

definition MonitoredHosts_Init :: "hbs_db \<Rightarrow> hbs_state \<Rightarrow> hbs_state" where
  "MonitoredHosts_Init db st =
    st\<lparr>hb_MonitoredHosts := reload (QueryMonitoredHosts (db_monitored_hosts db)) (hb_MonitoredHosts st)\<rparr>"

text \<open>One round of \<open>LoopInit\<close>, which is also what \<open>Init\<close> does first.\<close>

definition cache_Init :: "hbs_db \<Rightarrow> hbs_state \<Rightarrow> hbs_state option" where
  "cache_Init db st = do {
    let st = TemplateCache_Init db (HostMap_Init db (HostGroupsMap_Init db (GroupTemplates_Init db (GroupPlugins_Init db st))));
    let st = HostTemplateIds_Init db (Strategies_Init (hb_TemplateCache st) db st);
    st \<leftarrow> ExpressionCache_Init db st;
    Some (MonitoredHosts_Init db st)
  }"

section \<open>Template inheritance\<close>

text \<open>
  The chain of a template and its ancestors, oldest first. The argument counts the templates
  still allowed, \<open>10 - depth\<close> in the source.
\<close>

fun parent_loop :: "(int, template) gomap \<Rightarrow> int \<Rightarrow> nat \<Rightarrow> int list \<Rightarrow> int list" where
  "parent_loop allTpls tid 0 ret = []"
| "parent_loop allTpls tid (Suc n) ret =
    (if tid \<le> 0 then ret
     else case gget allTpls tid of
       None \<Rightarrow> ret
     | Some t \<Rightarrow> if n = 0 then [] else parent_loop allTpls (tpl_ParentId t) n (ret @ [tid]))"

definition ParentIds :: "(int, template) gomap \<Rightarrow> int \<Rightarrow> int list" where
  "ParentIds allTpls tid = rev (parent_loop allTpls tid 10 [])"

definition Tpl2Strategies :: "(int, strategy) gomap \<Rightarrow> (int, strategy list) gomap" where
  "Tpl2Strategies strategies =
    foldl (\<lambda>ret s. case st_Tpl s of None \<Rightarrow> ret | Some t \<Rightarrow> add_to_bucket (tpl_Id t) s ret) [] (map snd strategies)"

definition slice_int_contains :: "int list \<Rightarrow> int \<Rightarrow> bool" where
  "slice_int_contains xs target = list_ex (\<lambda>b. b = target) xs"

definition slice_int_eq :: "int list \<Rightarrow> int list \<Rightarrow> bool" where
  "slice_int_eq a b \<longleftrightarrow> length a = length b \<and> list_all (\<lambda>(x, y). x = y) (zip a b)"

definition slice_int_lt :: "int list \<Rightarrow> int list \<Rightarrow> bool" where
  "slice_int_lt a b = list_all (slice_int_contains b) a"

text \<open>The inner loop: whether bucket \<open>i\<close> stays, looking at the buckets \<open>js\<close>.\<close>

fun bucket_valid :: "int list list \<Rightarrow> nat \<Rightarrow> nat list \<Rightarrow> bool" where
  "bucket_valid buckets i [] = True"
| "bucket_valid buckets i (j # js) =
    (if i = j then bucket_valid buckets i js
     else if slice_int_eq (buckets ! i) (buckets ! j) then True
     else if slice_int_lt (buckets ! i) (buckets ! j) then False
     else bucket_valid buckets i js)"

definition uniq_tpl_buckets :: "int list list \<Rightarrow> int list list" where
  "uniq_tpl_buckets buckets =
    map (\<lambda>i. buckets ! i) (filter (\<lambda>i. bucket_valid buckets i [0..<length buckets]) [0..<length buckets])"

definition strategy_uuid :: "strategy \<Rightarrow> string" where
  "strategy_uuid s = ''metric:'' @ st_Metric s @ ''/tags:'' @ SortedTags (st_Tags s)"

type_synonym stras_map = "(string, strategy list) gomap"

definition tid_stras :: "(int, strategy list) gomap \<Rightarrow> int \<Rightarrow> stras_map" where
  "tid_stras tpl2 tid =
    (case gget tpl2 tid of None \<Rightarrow> []
     | Some stras \<Rightarrow> foldl (\<lambda>m s. add_to_bucket (strategy_uuid s) s m) [] stras)"

definition bucket_stras :: "(stras_map \<Rightarrow> stras_map) \<Rightarrow> (int, strategy list) gomap \<Rightarrow> int list \<Rightarrow> stras_map" where
  "bucket_stras visit tpl2 tids =
    foldl (\<lambda>m tid. foldl (\<lambda>m (uuid, ss). gput uuid ss m) m (visit (tid_stras tpl2 tid))) [] tids"

definition emit_strategy ::
    "(int, template) gomap \<Rightarrow> int \<Rightarrow> strategy list \<times> int list \<Rightarrow> strategy \<Rightarrow> (strategy list \<times> int list) option" where
  "emit_strategy allTpls last_tid acc s =
    (case acc of (strategies, ids) \<Rightarrow>
      if st_Id s \<in> set ids then Some (strategies, ids)
      else do {
        t \<leftarrow> st_Tpl s;
        let v = (if tpl_Id t \<noteq> last_tid then s\<lparr>st_Tpl := gget allTpls last_tid\<rparr> else s);
        Some (strategies @ [v], st_Id s # ids)
      })"

definition emit_bucket ::
    "(stras_map \<Rightarrow> stras_map) \<Rightarrow> (int, template) gomap \<Rightarrow> (int, strategy list) gomap
      \<Rightarrow> strategy list \<times> int list \<Rightarrow> int list \<Rightarrow> (strategy list \<times> int list) option" where
  "emit_bucket visit allTpls tpl2 acc tids = do {
    last_tid \<leftarrow> go_nth tids (int (length tids) - 1);
    foldM (\<lambda>acc (uuid, ss). foldM (emit_strategy allTpls last_tid) acc ss) acc (visit (bucket_stras visit tpl2 tids))
  }"

definition CalcInheritStrategies ::
    "(stras_map \<Rightarrow> stras_map) \<Rightarrow> (int, template) gomap \<Rightarrow> int list \<Rightarrow> (int, strategy list) gomap \<Rightarrow> strategy list option" where
  "CalcInheritStrategies visit allTpls tids tpl2 =
    (let tpl_buckets = filter (\<lambda>ids. ids \<noteq> []) (map (ParentIds allTpls) tids)
     in map_option fst (foldM (emit_bucket visit allTpls tpl2) ([], []) (uniq_tpl_buckets tpl_buckets)))"

section \<open>The handlers for judges\<close>

definition hbs_GetExpressions :: "hbs_state \<Rightarrow> expression list" where
  "hbs_GetExpressions st = hb_ExpressionCache st"

definition host_strategies_step ::
    "(stras_map \<Rightarrow> stras_map) \<Rightarrow> hbs_state \<Rightarrow> host_strategy list \<Rightarrow> int \<times> int list \<Rightarrow> host_strategy list option" where
  "host_strategies_step visit st acc row =
    (case row of (hostId, tplIds) \<Rightarrow>
      (case gget (hb_MonitoredHosts st) hostId of
         None \<Rightarrow> Some acc
       | Some h \<Rightarrow> do {
           ss \<leftarrow> CalcInheritStrategies visit (hb_TemplateCache st) tplIds (Tpl2Strategies (hb_Strategies st));
           Some (if ss = [] then acc else acc @ [\<lparr>hs_Hostname = ho_Name h, hs_Strategies = ss\<rparr>])
         }))"

definition hbs_GetStrategies :: "(stras_map \<Rightarrow> stras_map) \<Rightarrow> hbs_state \<Rightarrow> host_strategy list option" where
  "hbs_GetStrategies visit st =
    (if hb_HostTemplateIds st = [] \<or> hb_MonitoredHosts st = [] \<or> hb_TemplateCache st = [] \<or> hb_Strategies st = []
     then Some []
     else foldM (host_strategies_step visit st) [] (hb_HostTemplateIds st))"

section \<open>The handlers for agents\<close>

definition group_plugins :: "hbs_state \<Rightarrow> int list \<Rightarrow> string list" where
  "group_plugins st gids =
    concat (map (\<lambda>gid. case gget (hb_GroupPlugins st) gid of None \<Rightarrow> [] | Some ps \<Rightarrow> ps) gids)"

definition GetPlugins :: "hbs_state \<Rightarrow> string \<Rightarrow> string list" where
  "GetPlugins st hostname =
    (case gget (hb_HostMap st) hostname of
       None \<Rightarrow> []
     | Some hid \<Rightarrow>
        (case gget (hb_HostGroupsMap st) hid of
           None \<Rightarrow> []
         | Some gids \<Rightarrow> sort (map fst (foldl (\<lambda>m p. gput p () m) [] (group_plugins st gids)))))"

record agent_heartbeat_request =
  ah_Hostname :: string
  ah_Checksum :: string

record agent_plugins_response =
  ap_Plugins :: "string list"
  ap_Timestamp :: int64

record builtin_metric_response =
  br_Metrics :: "builtin_metric list"
  br_Checksum :: string
  br_Timestamp :: int64

definition MinePlugins ::
    "hbs_state \<Rightarrow> int64 \<Rightarrow> agent_heartbeat_request \<Rightarrow> agent_plugins_response \<Rightarrow> agent_plugins_response" where
  "MinePlugins st now args reply =
    (if ah_Hostname args = '''' then reply
     else reply\<lparr>ap_Plugins := GetPlugins st (ah_Hostname args), ap_Timestamp := now\<rparr>)"

text \<open>The set of ids is a map without values; \<open>ids\<close> is the order in which it is listed.\<close>

definition set_add :: "'a list \<Rightarrow> 'a \<Rightarrow> 'a list" where
  "set_add S x = (if x \<in> set S then S else S @ [x])"

definition host_template_set :: "hbs_state \<Rightarrow> int list \<Rightarrow> int list" where
  "host_template_set st gids =
    foldl (\<lambda>S gid. case gget (hb_GroupTemplates st) gid of None \<Rightarrow> S | Some tids \<Rightarrow> foldl set_add S tids) [] gids"

definition GetBuiltinMetrics ::
    "(string \<Rightarrow> builtin_metric rows) \<Rightarrow> (int list \<Rightarrow> int list) \<Rightarrow> hbs_state \<Rightarrow> string \<Rightarrow> string + builtin_metric list" where
  "GetBuiltinMetrics db ids st hostname =
    (case gget (hb_HostMap st) hostname of
       None \<Rightarrow> Inr []
     | Some hid \<Rightarrow>
        (case gget (hb_HostGroupsMap st) hid of
           None \<Rightarrow> Inr []
         | Some gids \<Rightarrow>
            (let tidSet = host_template_set st gids;
                 tidSlice = ids tidSet
             in if tidSlice = [] then Inr []
                else
                  (let tidSet' = foldl (\<lambda>S tid. foldl set_add S (ParentIds (hb_TemplateCache st) tid)) tidSet tidSlice
                   in QueryBuiltinMetrics (db (go_join '','' (map itoa (ids tidSet'))))))))"

definition DigestBuiltinMetrics :: "builtin_metric list \<Rightarrow> builtin_metric list \<times> string" where
  "DigestBuiltinMetrics items =
    (let sorted = sort_key builtin_String items
     in (sorted, Md5 (concat (map builtin_String sorted))))"

definition BuiltinMetrics ::
    "(string \<Rightarrow> builtin_metric rows) \<Rightarrow> (int list \<Rightarrow> int list) \<Rightarrow> int64 \<Rightarrow> hbs_state \<Rightarrow> agent_heartbeat_request
      \<Rightarrow> builtin_metric_response \<Rightarrow> builtin_metric_response" where
  "BuiltinMetrics db ids now st args reply =
    (if ah_Hostname args = '''' then reply
     else case GetBuiltinMetrics db ids st (ah_Hostname args) of
       Inl err \<Rightarrow> reply
     | Inr metrics \<Rightarrow>
        (let (sorted, checksum) = (if metrics = [] then (metrics, '''') else DigestBuiltinMetrics metrics)
         in reply\<lparr>br_Metrics := (if ah_Checksum args = checksum then [] else sorted), br_Checksum := checksum,
              br_Timestamp := now\<rparr>))"

text \<open>The agents that report: what reaches the table \<open>host\<close> is appended to \<open>hb_updates\<close>.\<close>

definition agent_changed :: "agent_report_request \<Rightarrow> agent_report_request \<Rightarrow> bool" where
  "agent_changed old req \<longleftrightarrow> ar_AgentVersion old \<noteq> ar_AgentVersion req \<or> ar_IP old \<noteq> ar_IP req \<or>
    ar_PluginVersion old \<noteq> ar_PluginVersion req"

definition Agents_Put :: "int64 \<Rightarrow> agent_report_request \<Rightarrow> hbs_state \<Rightarrow> hbs_state" where
  "Agents_Put now req st =
    (let val = \<lparr>au_LastUpdate = now, au_ReportRequest = req\<rparr>;
         put = (case gget (hb_Agents st) (ar_Hostname req) of
             None \<Rightarrow> True | Some agentInfo \<Rightarrow> agent_changed (au_ReportRequest agentInfo) req)
     in if put then st\<lparr>hb_updates := hb_updates st @ [val], hb_Agents := gput (ar_Hostname req) val (hb_Agents st)\<rparr>
        else st)"

definition ReportStatus :: "int64 \<Rightarrow> agent_report_request \<Rightarrow> hbs_state \<Rightarrow> hbs_state \<times> int" where
  "ReportStatus now args st = (if ar_Hostname args = '''' then (st, 1) else (Agents_Put now args st, 0))"

definition stale_agent :: "int64 \<Rightarrow> (string, agent_update_info) gomap \<Rightarrow> string \<Rightarrow> (string, agent_update_info) gomap" where
  "stale_agent before M key =
    (case gget M key of
       None \<Rightarrow> M
     | Some agent \<Rightarrow> if au_LastUpdate agent < before then gdel (ar_Hostname (au_ReportRequest agent)) M else M)"

definition deleteStaleAgents :: "int64 \<Rightarrow> hbs_state \<Rightarrow> hbs_state" where
  "deleteStaleAgents now st =
    st\<lparr>hb_Agents := foldl (stale_agent (i64 (now - 86400))) (hb_Agents st) (map fst (hb_Agents st))\<rparr>"

definition TrustableIps :: "string list \<Rightarrow> string" where
  "TrustableIps trustable = go_join '','' trustable"

end
