(* ===== verification/Hbs_Inherit.thy ===== *)
theory Hbs_Inherit
  imports Hbs_Core
begin

text \<open>
  Template inheritance in the heartbeat server: the chain of ancestors of a template, and the
  strategies a host gets from the templates bound to it, against a description that does not
  mention buckets or visiting orders.
\<close>

section \<open>Chains of ancestors\<close>

inductive chain :: "(int, template) gomap \<Rightarrow> int \<Rightarrow> int list \<Rightarrow> bool" for T where
  chain_stop: "tid \<le> 0 \<or> gget T tid = None \<Longrightarrow> chain T tid []"
| chain_step: "0 < tid \<Longrightarrow> gget T tid = Some t \<Longrightarrow> chain T (tpl_ParentId t) ids \<Longrightarrow> chain T tid (ids @ [tid])"

inductive_cases chain_NilE: "chain T tid []"

lemma parent_loop_chain:
  "chain T tid ids \<Longrightarrow> parent_loop T tid (Suc n) ret = (if length ids \<le> n then ret @ rev ids else [])"
proof (induction arbitrary: n ret rule: chain.induct)
  case (chain_step tid t ids)
  then show ?case by (cases n) auto
qed auto

lemma parent_loop_no_chain:
  "\<nexists>ids. chain T tid ids \<Longrightarrow> parent_loop T tid (Suc n) ret = []"
proof (induction n arbitrary: tid ret)
  case (Suc n)
  then have tid: "0 < tid" by (metis chain_stop linorder_not_le)
  from Suc.prems obtain t where t: "gget T tid = Some t" by (metis chain_stop not_None_eq)
  with tid Suc.prems have "\<nexists>ids. chain T (tpl_ParentId t) ids" by (metis chain_step)
  with Suc.IH tid t show ?case by simp
next
  case 0
  then have tid: "0 < tid" by (metis chain_stop linorder_not_le)
  from 0 obtain t where "gget T tid = Some t" by (metis chain_stop not_None_eq)
  with tid show ?case by simp
qed

text \<open>
  C37: Looking up the ancestors of a template ends, whatever the templates say: a chain of fewer
  than ten templates is returned, the oldest first; a longer chain, or parents that form a
  cycle and so have no chain, give the empty list.
\<close>

theorem ParentIds_exact:
  "(\<forall>ids. chain T tid ids \<longrightarrow> ParentIds T tid = (if length ids < 10 then ids else [])) \<and>
    ((\<nexists>ids. chain T tid ids) \<longrightarrow> ParentIds T tid = []) \<and> length (ParentIds T tid) < 10"
proof -
  have ten: "(10 :: nat) = Suc 9" by simp
  have c: "ParentIds T tid = (if length ids < 10 then ids else [])" if "chain T tid ids" for ids
    unfolding ParentIds_def ten using parent_loop_chain [OF that, of 9 "[]"] by auto
  moreover have n: "ParentIds T tid = []" if "\<nexists>ids. chain T tid ids"
    unfolding ParentIds_def ten by (simp only: parent_loop_no_chain [OF that] rev.simps)
  ultimately show ?thesis by (cases "\<exists>ids. chain T tid ids") auto
qed

definition tpl :: "int \<Rightarrow> int \<Rightarrow> template" where
  "tpl i p = \<lparr>tpl_Id = i, tpl_Name = ''t'', tpl_ParentId = p, tpl_ActionId = 1, tpl_Creator = ''''\<rparr>"

definition family :: "(int, template) gomap" where
  "family = [(1, tpl 1 0), (2, tpl 2 1), (3, tpl 3 2), (7, tpl 7 8), (8, tpl 8 7)]"

theorem ParentIds_exact_witness:
  "ParentIds family 3 = [1, 2, 3] \<and> ParentIds family 7 = [] \<and> length (ParentIds family 7) < 10"
proof -
  have "chain family 0 []" by (rule chain_stop) simp
  then have "chain family 1 [1]" using chain_step [of 1 family "tpl 1 0" "[]"] by (simp add: family_def tpl_def)
  then have "chain family 2 [1, 2]" using chain_step [of 2 family "tpl 2 1" "[1]"] by (simp add: family_def tpl_def)
  then have "chain family 3 [1, 2, 3]" using chain_step [of 3 family "tpl 3 2" "[1, 2]"] by (simp add: family_def tpl_def)
  moreover have "ParentIds family 7 = []" by code_simp
  ultimately show ?thesis using ParentIds_exact [of family 3] ParentIds_exact [of family 7] by auto
qed

lemma parent_loop_suffix:
  "parent_loop T tid n ret \<noteq> [] \<Longrightarrow>
    parent_loop T tid n ret = ret \<or> (\<exists>r. parent_loop T tid n ret = ret @ tid # r \<and> 0 < tid \<and> gget T tid \<noteq> None)"
proof (induction T tid n ret rule: parent_loop.induct)
  case (2 T tid n ret)
  show ?case
  proof (cases "tid \<le> 0 \<or> gget T tid = None")
    case False
    then obtain t where t: "gget T tid = Some t" "0 < tid" by auto
    have n: "n \<noteq> 0"
    proof
      assume "n = 0"
      with t 2(2) show False by simp
    qed
    with t 2(2) have "parent_loop T (tpl_ParentId t) n (ret @ [tid]) \<noteq> []" by simp
    from 2(1) [OF _ t(1) n this] t n show ?thesis by auto
  qed auto
qed simp

lemma ParentIds_last: "ParentIds T tid \<noteq> [] \<Longrightarrow> last (ParentIds T tid) = tid \<and> gget T tid \<noteq> None"
  using parent_loop_suffix [of T tid 10 "[]"] by (auto simp: ParentIds_def last_rev)

section \<open>The buckets that stay\<close>

lemma slice_int_eq_iff: "slice_int_eq a b \<longleftrightarrow> a = b"
proof -
  have "a = b \<longleftrightarrow> list_all2 (=) a b" by (simp add: list.rel_eq)
  then show ?thesis by (auto simp: slice_int_eq_def list_all_iff list_all2_iff)
qed

lemma slice_int_lt_iff: "slice_int_lt a b \<longleftrightarrow> set a \<subseteq> set b"
  by (auto simp: slice_int_lt_def slice_int_contains_def list_all_iff list_ex_iff)

lemma bucket_valid_distinct:
  assumes "\<And>j. j \<in> set js \<Longrightarrow> j \<noteq> i \<Longrightarrow> buckets ! j \<noteq> buckets ! i"
  shows "bucket_valid buckets i js \<longleftrightarrow> (\<forall>j\<in>set js. j \<noteq> i \<longrightarrow> \<not> set (buckets ! i) \<subseteq> set (buckets ! j))"
  using assms
proof (induction js)
  case (Cons j js)
  have ih: "bucket_valid buckets i js \<longleftrightarrow> (\<forall>j\<in>set js. j \<noteq> i \<longrightarrow> \<not> set (buckets ! i) \<subseteq> set (buckets ! j))"
    using Cons.prems by (intro Cons.IH) auto
  show ?case using ih Cons.prems [of j]
    by (cases "i = j") (auto simp: slice_int_eq_iff slice_int_lt_iff simp del: subset_iff)
qed simp

lemma uniq_tpl_buckets_distinct:
  assumes "distinct buckets"
  shows "set (uniq_tpl_buckets buckets) = {b \<in> set buckets. \<forall>b'\<in>set buckets. b' \<noteq> b \<longrightarrow> \<not> set b \<subseteq> set b'}"
proof -
  have "bucket_valid buckets i [0..<length buckets] \<longleftrightarrow>
      (\<forall>b'\<in>set buckets. b' \<noteq> buckets ! i \<longrightarrow> \<not> set (buckets ! i) \<subseteq> set b')" if "i < length buckets" for i
  proof -
    have "bucket_valid buckets i [0..<length buckets] \<longleftrightarrow>
        (\<forall>j\<in>set [0..<length buckets]. j \<noteq> i \<longrightarrow> \<not> set (buckets ! i) \<subseteq> set (buckets ! j))"
      using assms that by (intro bucket_valid_distinct) (auto simp: nth_eq_iff_index_eq)
    also have "\<dots> \<longleftrightarrow> (\<forall>j<length buckets. buckets ! j \<noteq> buckets ! i \<longrightarrow> \<not> set (buckets ! i) \<subseteq> set (buckets ! j))"
      using assms that by (auto simp: nth_eq_iff_index_eq)
    finally show ?thesis by (simp add: all_set_conv_all_nth)
  qed
  then show ?thesis by (auto simp: uniq_tpl_buckets_def in_set_conv_nth)
qed

lemma uniq_tpl_buckets_sub: "set (uniq_tpl_buckets buckets) \<subseteq> set buckets"
  by (auto simp: uniq_tpl_buckets_def)

section \<open>What a chain of templates gives\<close>

text \<open>
  The strategies of a chain, oldest template first: those of a template that no younger template
  of the chain replaces by one on the same metric and tags.
\<close>

fun survivors :: "(int, strategy list) gomap \<Rightarrow> int list \<Rightarrow> strategy list" where
  "survivors tpl2 [] = []"
| "survivors tpl2 (tid # younger) =
    filter (\<lambda>s. list_all (\<lambda>y. list_all (\<lambda>s'. strategy_uuid s' \<noteq> strategy_uuid s) (bucket tpl2 y)) younger) (bucket tpl2 tid)
      @ survivors tpl2 younger"

lemma survivors_snoc:
  "set (survivors tpl2 (tids @ [t])) =
    {s \<in> set (survivors tpl2 tids). \<forall>s'\<in>set (bucket tpl2 t). strategy_uuid s' \<noteq> strategy_uuid s} \<union> set (bucket tpl2 t)"
  by (induction tids) (auto simp: list_all_iff)

lemma survivors_sub: "s \<in> set (survivors tpl2 tids) \<Longrightarrow> \<exists>t\<in>set tids. s \<in> set (bucket tpl2 t)"
  by (induction tids) auto

definition permutes_maps :: "(stras_map \<Rightarrow> stras_map) \<Rightarrow> bool" where
  "permutes_maps visit \<longleftrightarrow> (\<forall>m. mset (visit m) = mset m)"

lemma permutes_mapsD:
  assumes "permutes_maps visit"
  shows "set (visit m) = set m" "gomap_ok m \<Longrightarrow> gomap_ok (visit m)" "gomap_ok m \<Longrightarrow> gget (visit m) = gget m"
proof -
  have p: "mset (visit m) = mset m" using assms by (simp add: permutes_maps_def)
  then show "set (visit m) = set m" by (rule mset_eq_setD)
  have "mset (map fst (visit m)) = mset (map fst m)" using p by simp
  then show ok: "gomap_ok m \<Longrightarrow> gomap_ok (visit m)"
    unfolding gomap_ok_def by (metis mset_eq_imp_distinct_iff)
  show "gomap_ok m \<Longrightarrow> gget (visit m) = gget m" using gget_perm [of m "visit m"] p by simp
qed

lemma gomap_ok_tid_stras: "gomap_ok (tid_stras tpl2 tid)"
  by (simp add: tid_stras_def split: option.split)

lemma gget_tid_stras:
  "gget (tid_stras tpl2 tid) u =
    (if filter (\<lambda>s. strategy_uuid s = u) (bucket tpl2 tid) = [] then None
     else Some (filter (\<lambda>s. strategy_uuid s = u) (bucket tpl2 tid)))"
  using gget_foldl_add [of strategy_uuid "\<lambda>s. s"]
  by (simp add: tid_stras_def bucket_def split: option.split)

lemma gget_override:
  "gomap_ok n \<Longrightarrow> gget (foldl (\<lambda>m (uuid, ss). gput uuid ss m) m n) u = (case gget n u of None \<Rightarrow> gget m u | Some ss \<Rightarrow> Some ss)"
proof (induction n arbitrary: m)
  case (Cons x n)
  obtain k v where x: "x = (k, v)" by (cases x)
  with Cons.prems have ok: "gomap_ok n" "gget n k = None"
    by (auto simp: gomap_ok_def map_of_eq_None_iff)
  from Cons.IH [OF ok(1)] ok(2) show ?case by (auto simp: x split: option.split)
qed simp

lemma gomap_ok_override: "gomap_ok m \<Longrightarrow> gomap_ok (foldl (\<lambda>m (uuid, ss). gput uuid ss m) m n)"
  by (induction n arbitrary: m) auto

lemma bucket_stras_survivors:
  assumes "permutes_maps visit"
  shows "gomap_ok (bucket_stras visit tpl2 tids) \<and>
    set (bucket (bucket_stras visit tpl2 tids) u) = {s \<in> set (survivors tpl2 tids). strategy_uuid s = u}"
proof (induction tids rule: rev_induct)
  case (snoc t tids)
  let ?n = "visit (tid_stras tpl2 t)"
  have n: "gomap_ok ?n" "gget ?n = gget (tid_stras tpl2 t)"
    using permutes_mapsD [OF assms] gomap_ok_tid_stras by auto
  have step: "bucket_stras visit tpl2 (tids @ [t]) = foldl (\<lambda>m (uuid, ss). gput uuid ss m) (bucket_stras visit tpl2 tids) ?n"
    by (simp add: bucket_stras_def)
  have "gget (bucket_stras visit tpl2 (tids @ [t])) u =
      (case gget (tid_stras tpl2 t) u of None \<Rightarrow> gget (bucket_stras visit tpl2 tids) u | Some ss \<Rightarrow> Some ss)"
    unfolding step gget_override [OF n(1)] n(2) ..
  then have b: "bucket (bucket_stras visit tpl2 (tids @ [t])) u =
      (if filter (\<lambda>s. strategy_uuid s = u) (bucket tpl2 t) = [] then bucket (bucket_stras visit tpl2 tids) u
       else filter (\<lambda>s. strategy_uuid s = u) (bucket tpl2 t))"
    by (simp add: gget_tid_stras bucket_def split: option.splits)
  have "gomap_ok (bucket_stras visit tpl2 (tids @ [t]))"
    unfolding step using snoc by (intro gomap_ok_override) simp
  moreover have "set (bucket (bucket_stras visit tpl2 (tids @ [t])) u) =
      {s \<in> set (survivors tpl2 (tids @ [t])). strategy_uuid s = u}"
    using snoc unfolding b survivors_snoc by (auto simp: filter_empty_conv)
  ultimately show ?case ..
qed (simp add: bucket_stras_def)

lemma visited_survivors:
  assumes "permutes_maps visit"
  shows "set (concat (map snd (visit (bucket_stras visit tpl2 tids)))) = set (survivors tpl2 tids)"
proof -
  let ?m = "bucket_stras visit tpl2 tids"
  have ok: "gomap_ok ?m" using bucket_stras_survivors [OF assms] by blast
  have "s \<in> set (survivors tpl2 tids) \<longleftrightarrow> (\<exists>u. s \<in> set (bucket ?m u))" for s
    using bucket_stras_survivors [OF assms] by auto
  moreover have "(\<exists>u. s \<in> set (bucket ?m u)) \<longleftrightarrow> (\<exists>(u, ss)\<in>set ?m. s \<in> set ss)" for s
    using ok by (fastforce simp: bucket_def gomap_ok_def split: option.splits dest: map_of_SomeD)
  moreover have "set (concat (map snd (visit ?m))) = {s. \<exists>(u, ss)\<in>set ?m. s \<in> set ss}"
    using permutes_mapsD(1) [OF assms, of ?m] by auto
  ultimately show ?thesis by auto
qed

end
