(* ===== verification/Hbs_Flow.thy ===== *)
theory Hbs_Flow
  imports Hbs_Inherit
begin

text \<open>
  What the heartbeat server serves: the strategies of every host, for any history of reloads and
  reports; the reading of expressions; and the set of agents it believes alive.
\<close>

section \<open>Emitting the strategies of a host\<close>

definition rebind :: "(int, template) gomap \<Rightarrow> int \<Rightarrow> strategy \<Rightarrow> strategy" where
  "rebind T last_tid s =
    (if map_option tpl_Id (st_Tpl s) = Some last_tid then s else s\<lparr>st_Tpl := gget T last_tid\<rparr>)"

lemma rebind_Id [simp]: "st_Id (rebind T l s) = st_Id s"
  by (simp add: rebind_def)

definition emitted_ok :: "strategy list \<times> int list \<Rightarrow> bool" where
  "emitted_ok acc \<longleftrightarrow> set (snd acc) = st_Id ` set (fst acc) \<and> distinct (map st_Id (fst acc))"

lemma emit_list:
  assumes "emitted_ok acc" "\<forall>s\<in>set xs. st_Tpl s \<noteq> None"
  shows "\<exists>acc'. foldM (emit_strategy T l) acc xs = Some acc' \<and> emitted_ok acc' \<and>
    st_Id ` set (fst acc') = st_Id ` set (fst acc) \<union> st_Id ` set xs \<and> set (fst acc') \<subseteq> set (fst acc) \<union> rebind T l ` set xs \<and>
    set (fst acc) \<subseteq> set (fst acc')"
  using assms
proof (induction xs arbitrary: acc)
  case (Cons s xs)
  obtain out ids where acc: "acc = (out, ids)" by (cases acc)
  from Cons.prems(2) obtain t where t: "st_Tpl s = Some t" by auto
  let ?acc1 = "if st_Id s \<in> set ids then (out, ids) else (out @ [rebind T l s], st_Id s # ids)"
  have e: "emit_strategy T l acc s = Some ?acc1"
    using t by (auto simp: emit_strategy_def acc rebind_def Let_def)
  have ok: "emitted_ok ?acc1" using Cons.prems(1) by (auto simp: emitted_ok_def acc)
  have i: "st_Id ` set (fst ?acc1) = insert (st_Id s) (st_Id ` set out)" "set (fst ?acc1) \<subseteq> insert (rebind T l s) (set out)"
      "set out \<subseteq> set (fst ?acc1)"
    using Cons.prems(1) by (auto simp: emitted_ok_def acc)
  from Cons.IH [OF ok] Cons.prems(2) obtain acc' where a: "foldM (emit_strategy T l) ?acc1 xs = Some acc'" "emitted_ok acc'"
      "st_Id ` set (fst acc') = st_Id ` set (fst ?acc1) \<union> st_Id ` set xs"
      "set (fst acc') \<subseteq> set (fst ?acc1) \<union> rebind T l ` set xs" "set (fst ?acc1) \<subseteq> set (fst acc')" by auto
  have "foldM (emit_strategy T l) acc (s # xs) = Some acc'" using e a(1) by simp
  moreover have "st_Id ` set (fst acc') = st_Id ` set (fst acc) \<union> st_Id ` set (s # xs)" using a(3) i(1) by (simp add: acc)
  moreover have "set (fst acc') \<subseteq> set (fst acc) \<union> rebind T l ` set (s # xs)" using a(4) i(2) by (auto simp: acc)
  moreover have "set (fst acc) \<subseteq> set (fst acc')" using a(5) i(3) by (auto simp: acc)
  ultimately show ?case using a(2) by blast
qed simp

text \<open>The strategies filed under a template, each with some template attached.\<close>

definition tpl2_ok :: "(int, strategy list) gomap \<Rightarrow> bool" where
  "tpl2_ok tpl2 \<longleftrightarrow> (\<forall>t. \<forall>s\<in>set (bucket tpl2 t). st_Tpl s \<noteq> None)"

lemma emit_bucket_ok:
  assumes "permutes_maps visit" "tpl2_ok tpl2" "emitted_ok acc" "b \<noteq> []"
  shows "\<exists>acc'. emit_bucket visit T tpl2 acc b = Some acc' \<and> emitted_ok acc' \<and>
    st_Id ` set (fst acc') = st_Id ` set (fst acc) \<union> st_Id ` set (survivors tpl2 b) \<and>
    set (fst acc') \<subseteq> set (fst acc) \<union> rebind T (last b) ` set (survivors tpl2 b) \<and> set (fst acc) \<subseteq> set (fst acc')"
proof -
  let ?xs = "concat (map snd (visit (bucket_stras visit tpl2 b)))"
  have xs: "set ?xs = set (survivors tpl2 b)" by (rule visited_survivors [OF assms(1)])
  have "go_nth b (int (length b) - 1) = Some (last b)"
    using assms(4) by (cases b rule: rev_cases) (simp_all add: go_nth_def nth_append)
  then have e: "emit_bucket visit T tpl2 acc b = foldM (emit_strategy T (last b)) acc ?xs"
    using foldM_concat [of "emit_strategy T (last b)" snd acc "visit (bucket_stras visit tpl2 b)"]
    by (simp add: emit_bucket_def case_prod_unfold)
  have "\<forall>s\<in>set ?xs. st_Tpl s \<noteq> None"
    unfolding xs using survivors_sub [of _ tpl2 b] assms(2) by (fastforce simp: tpl2_ok_def)
  from emit_list [OF assms(3) this, of T "last b"] show ?thesis unfolding e xs .
qed

lemma emit_buckets_ok:
  assumes "permutes_maps visit" "tpl2_ok tpl2" "emitted_ok acc" "\<forall>b\<in>set bs. b \<noteq> []"
  shows "\<exists>acc'. foldM (emit_bucket visit T tpl2) acc bs = Some acc' \<and> emitted_ok acc' \<and>
    st_Id ` set (fst acc') = st_Id ` set (fst acc) \<union> (\<Union>b\<in>set bs. st_Id ` set (survivors tpl2 b)) \<and>
    set (fst acc') \<subseteq> set (fst acc) \<union> (\<Union>b\<in>set bs. rebind T (last b) ` set (survivors tpl2 b))"
  using assms(3,4)
proof (induction bs arbitrary: acc)
  case (Cons b bs)
  from Cons.prems(2) have "b \<noteq> []" by simp
  from emit_bucket_ok [OF assms(1,2) Cons.prems(1) this, of T] obtain acc1 where a: "emit_bucket visit T tpl2 acc b = Some acc1"
      "emitted_ok acc1" "st_Id ` set (fst acc1) = st_Id ` set (fst acc) \<union> st_Id ` set (survivors tpl2 b)"
      "set (fst acc1) \<subseteq> set (fst acc) \<union> rebind T (last b) ` set (survivors tpl2 b)" by blast
  from Cons.IH [OF a(2)] Cons.prems(2) obtain acc' where b: "foldM (emit_bucket visit T tpl2) acc1 bs = Some acc'"
      "emitted_ok acc'" "st_Id ` set (fst acc') = st_Id ` set (fst acc1) \<union> (\<Union>b\<in>set bs. st_Id ` set (survivors tpl2 b))"
      "set (fst acc') \<subseteq> set (fst acc1) \<union> (\<Union>b\<in>set bs. rebind T (last b) ` set (survivors tpl2 b))" by auto
  have "foldM (emit_bucket visit T tpl2) acc (b # bs) = Some acc'" using a(1) b(1) by simp
  moreover have "st_Id ` set (fst acc') = st_Id ` set (fst acc) \<union> (\<Union>b\<in>set (b # bs). st_Id ` set (survivors tpl2 b))"
    using a(3) b(3) by auto
  moreover have "set (fst acc') \<subseteq> set (fst acc) \<union> (\<Union>b\<in>set (b # bs). rebind T (last b) ` set (survivors tpl2 b))"
    using a(4) b(4) by auto
  ultimately show ?case using b(2) by blast
qed simp

definition chains_of :: "(int, template) gomap \<Rightarrow> int list \<Rightarrow> int list list" where
  "chains_of T tids = filter (\<lambda>ids. ids \<noteq> []) (map (ParentIds T) tids)"

lemma Calc_buckets:
  assumes "permutes_maps visit" "tpl2_ok tpl2"
  shows "\<exists>rs. CalcInheritStrategies visit T tids tpl2 = Some rs \<and> distinct (map st_Id rs) \<and>
    st_Id ` set rs = (\<Union>b\<in>set (uniq_tpl_buckets (chains_of T tids)). st_Id ` set (survivors tpl2 b)) \<and>
    set rs \<subseteq> (\<Union>b\<in>set (uniq_tpl_buckets (chains_of T tids)). rebind T (last b) ` set (survivors tpl2 b))"
proof -
  have "\<forall>b\<in>set (uniq_tpl_buckets (chains_of T tids)). b \<noteq> []"
    using uniq_tpl_buckets_sub [of "chains_of T tids"] by (auto simp: chains_of_def)
  from emit_buckets_ok [OF assms _ this, of "([], [])" T] show ?thesis
    by (auto simp: CalcInheritStrategies_def chains_of_def emitted_ok_def)
qed

definition maximal_chains :: "(int, template) gomap \<Rightarrow> int list \<Rightarrow> int list list" where
  "maximal_chains T tids =
    filter (\<lambda>c. list_all (\<lambda>c'. c' = c \<or> \<not> set c \<subseteq> set c') (chains_of T tids)) (chains_of T tids)"

lemma distinct_chains_of: "distinct tids \<Longrightarrow> distinct (chains_of T tids)"
proof -
  have "inj_on (ParentIds T) {tid. ParentIds T tid \<noteq> []}"
    by (rule inj_onI) (metis ParentIds_last mem_Collect_eq)
  moreover have "chains_of T tids = map (ParentIds T) (filter (\<lambda>tid. ParentIds T tid \<noteq> []) tids)"
    by (simp add: chains_of_def filter_map comp_def)
  ultimately show "distinct tids \<Longrightarrow> distinct (chains_of T tids)"
    by (auto simp: distinct_map intro: inj_on_subset)
qed

lemma uniq_chains: "distinct tids \<Longrightarrow> set (uniq_tpl_buckets (chains_of T tids)) = set (maximal_chains T tids)"
  using uniq_tpl_buckets_distinct [OF distinct_chains_of, of tids T] by (auto simp: maximal_chains_def list_all_iff)

lemma Calc_inherit:
  assumes "permutes_maps visit" "tpl2_ok tpl2" "distinct tids"
  shows "\<exists>rs. CalcInheritStrategies visit T tids tpl2 = Some rs \<and> distinct (map st_Id rs) \<and>
    st_Id ` set rs = (\<Union>c\<in>set (maximal_chains T tids). st_Id ` set (survivors tpl2 c)) \<and>
    (\<forall>r\<in>set rs. \<exists>c\<in>set (maximal_chains T tids). \<exists>s\<in>set (survivors tpl2 c). r = rebind T (last c) s)"
proof -
  from Calc_buckets [OF assms(1,2), of T tids] obtain rs where rs: "CalcInheritStrategies visit T tids tpl2 = Some rs"
      "distinct (map st_Id rs)"
      "st_Id ` set rs = (\<Union>b\<in>set (uniq_tpl_buckets (chains_of T tids)). st_Id ` set (survivors tpl2 b))"
      "set rs \<subseteq> (\<Union>b\<in>set (uniq_tpl_buckets (chains_of T tids)). rebind T (last b) ` set (survivors tpl2 b))" by blast
  have "\<forall>r\<in>set rs. \<exists>c\<in>set (maximal_chains T tids). \<exists>s\<in>set (survivors tpl2 c). r = rebind T (last c) s"
    using rs(4) unfolding uniq_chains [OF assms(3)] by blast
  with rs(1-3) show ?thesis unfolding uniq_chains [OF assms(3)] by blast
qed

text \<open>
  C7: A host gets from the templates bound to it (each bound once) exactly the strategies of the
  chains that no other chain contains, without those a younger template of the chain replaces;
  each strategy comes once, and under the youngest template of a chain it comes from. Nothing
  in this depends on the order in which Go visits its maps.
\<close>

theorem CalcInherit_exact:
  assumes "permutes_maps visit" "tpl2_ok tpl2" "distinct tids"
  shows "\<exists>rs. CalcInheritStrategies visit T tids tpl2 = Some rs \<and> distinct (map st_Id rs) \<and>
    st_Id ` set rs = (\<Union>c\<in>set (maximal_chains T tids). st_Id ` set (survivors tpl2 c)) \<and>
    (\<forall>r\<in>set rs. \<exists>c\<in>set (maximal_chains T tids). \<exists>s\<in>set (survivors tpl2 c). r = rebind T (last c) s)"
  by (rule Calc_inherit [OF assms])

definition strat :: "int \<Rightarrow> string \<Rightarrow> int \<Rightarrow> strategy" where
  "strat i m t = \<lparr>st_Id = i, st_Metric = m, st_Tags = [], st_Func = ''all(#3)'', st_Operator = ''>'',
    st_RightValue = f_zero, st_MaxStep = 3, st_Priority = 0, st_Note = '''', st_Tpl = gget family t\<rparr>"

definition family_strategies :: "(int, strategy) gomap" where
  "family_strategies = [(10, strat 10 ''cpu'' 1), (11, strat 11 ''mem'' 1), (20, strat 20 ''cpu'' 2)]"

definition family_tpl2 :: "(int, strategy list) gomap" where
  "family_tpl2 = [(1, [strat 10 ''cpu'' 1, strat 11 ''mem'' 1]), (2, [strat 20 ''cpu'' 2])]"

lemma family_tpl2_ok: "tpl2_ok family_tpl2"
  by (simp add: tpl2_ok_def bucket_def family_tpl2_def strat_def family_def)

lemma permutes_rev: "permutes_maps rev"
  by (simp add: permutes_maps_def)

theorem CalcInherit_exact_witness:
  "\<exists>rs. CalcInheritStrategies rev family [1, 2] family_tpl2 = Some rs \<and> st_Id ` set rs = {11, 20} \<and>
    maximal_chains family [1, 2] = [[1, 2]]"
proof -
  have m: "maximal_chains family [1, 2] = [[1, 2]]" by code_simp
  have s: "map st_Id (survivors family_tpl2 [1, 2]) = [11, 20]" by code_simp
  then have "st_Id ` set (survivors family_tpl2 [1, 2]) = {11, 20}" by (metis list.set_map list.simps(15) set_empty2)
  with CalcInherit_exact [OF permutes_rev family_tpl2_ok, of "[1, 2]" family] show ?thesis by (auto simp: m)
qed

section \<open>A template bound twice\<close>

lemma twice_stays: "b \<in> set (uniq_tpl_buckets (b # b # bs))"
proof -
  let ?bs = "b # b # bs"
  have "[0..<length ?bs] = 0 # 1 # [2..<length ?bs]"
    using upt_conv_Cons [of 0 "length ?bs"] upt_conv_Cons [of 1 "length ?bs"] by (simp only: length_Cons) (simp add: numeral_2_eq_2)
  then have "bucket_valid ?bs 0 [0..<length ?bs]" by (simp add: slice_int_eq_iff)
  moreover have "0 \<in> set [0..<length ?bs]" by simp
  ultimately have "0 \<in> set (filter (\<lambda>i. bucket_valid ?bs i [0..<length ?bs]) [0..<length ?bs])"
    by (simp only: set_filter mem_Collect_eq)
  then have "?bs ! 0 \<in> set (uniq_tpl_buckets ?bs)" unfolding uniq_tpl_buckets_def set_map by (rule imageI)
  then show ?thesis by simp
qed

text \<open>
  A host that is in two groups with the same template has that template listed twice; the
  elimination of contained chains then stops at the copy, so the strategies of the template are
  served although a younger template bound to the same host replaces them.
\<close>

theorem bound_twice_not_replaced:
  assumes "permutes_maps visit" "tpl2_ok tpl2" "s \<in> set (survivors tpl2 (ParentIds T a))"
  shows "\<exists>rs. CalcInheritStrategies visit T (a # a # tids) tpl2 = Some rs \<and> st_Id s \<in> st_Id ` set rs"
proof -
  have "ParentIds T a \<noteq> []" using assms(3) by auto
  then have "chains_of T (a # a # tids) = ParentIds T a # ParentIds T a # chains_of T tids" by (simp add: chains_of_def)
  then have "ParentIds T a \<in> set (uniq_tpl_buckets (chains_of T (a # a # tids)))" using twice_stays by metis
  moreover from Calc_buckets [OF assms(1,2), of T "a # a # tids"] obtain rs where
    rs: "CalcInheritStrategies visit T (a # a # tids) tpl2 = Some rs"
      "st_Id ` set rs = (\<Union>b\<in>set (uniq_tpl_buckets (chains_of T (a # a # tids))). st_Id ` set (survivors tpl2 b))" by blast
  ultimately show ?thesis using assms(3) by (intro exI [of _ rs]) blast
qed

theorem bound_twice_not_replaced_witness:
  "\<exists>rs. CalcInheritStrategies rev family [1, 1, 2] family_tpl2 = Some rs \<and> 10 \<in> st_Id ` set rs \<and>
    map_option (map st_Id) (CalcInheritStrategies rev family [1, 2] family_tpl2) = Some [20, 11]"
proof -
  have "10 \<in> st_Id ` set (survivors family_tpl2 (ParentIds family 1))" by code_simp
  then obtain s where s: "s \<in> set (survivors family_tpl2 (ParentIds family 1))" "st_Id s = 10" by (metis imageE)
  have "map_option (map st_Id) (CalcInheritStrategies rev family [1, 2] family_tpl2) = Some [20, 11]" by code_simp
  with bound_twice_not_replaced [OF permutes_rev family_tpl2_ok s(1), of "[2]"] s(2) show ?thesis by auto
qed

end
