(* ===== verification/Hbs_Serve.thy ===== *)
theory Hbs_Serve
  imports Hbs_Flow
begin

text \<open>
  The heartbeat server as a process: reloads of the caches, reports of agents and the daily
  cleaning as a step relation, and what its handlers answer in every reachable state.
\<close>

section \<open>The process\<close>

inductive hbs_step :: "hbs_state \<Rightarrow> hbs_state \<Rightarrow> bool" where
  step_reload: "cache_Init db st = Some st' \<Longrightarrow> hbs_step st st'"
| step_report: "fst (ReportStatus now req st) = st' \<Longrightarrow> hbs_step st st'"
| step_clean: "deleteStaleAgents now st = st' \<Longrightarrow> hbs_step st st'"

inductive hbs_reachable :: "hbs_state \<Rightarrow> bool" where
  reach_init: "hbs_reachable init_hbs"
| reach_step: "hbs_reachable st \<Longrightarrow> hbs_step st st' \<Longrightarrow> hbs_reachable st'"

definition hbs_ok :: "hbs_state \<Rightarrow> bool" where
  "hbs_ok st \<longleftrightarrow> gomap_ok (hb_Strategies st) \<and> gomap_ok (hb_HostTemplateIds st) \<and>
    (\<forall>(i, s)\<in>set (hb_Strategies st). st_Id s = i \<and> st_Tpl s \<noteq> None) \<and>
    gomap_ok (hb_Agents st) \<and> (\<forall>h a. gget (hb_Agents st) h = Some a \<longrightarrow> ar_Hostname (au_ReportRequest a) = h)"

lemma gput_entries: "p \<in> set (gput k v m) \<Longrightarrow> p = (k, v) \<or> p \<in> set m"
  by (induction m) (auto split: if_splits)

lemma strategy_row_ok:
  assumes "gomap_ok m \<and> (\<forall>(i, s)\<in>set m. st_Id s = i \<and> st_Tpl s \<noteq> None)"
  shows "gomap_ok (strategy_row tpls m row) \<and> (\<forall>(i, s)\<in>set (strategy_row tpls m row). st_Id s = i \<and> st_Tpl s \<noteq> None)"
proof -
  obtain s tags tid where row: "row = (s, tags, tid)" by (metis prod_cases3)
  show ?thesis
  proof (cases "gget tpls tid")
    case (Some t)
    let ?s = "s\<lparr>st_Tags := strategy_row_tags tags, st_Tpl := Some t\<rparr>"
    have r: "strategy_row tpls m row = gput (st_Id s) ?s m" by (simp add: strategy_row_def row Some)
    have "\<forall>(i, s)\<in>set (gput (st_Id s) ?s m). st_Id s = i \<and> st_Tpl s \<noteq> None"
      using assms by (auto dest!: gput_entries)
    then show ?thesis using assms unfolding r by simp
  qed (use assms in \<open>simp add: strategy_row_def row\<close>)
qed

lemma QueryStrategies_ok:
  assumes "QueryStrategies tpls rows = Inr m"
  shows "gomap_ok m \<and> (\<forall>(i, s)\<in>set m. st_Id s = i \<and> st_Tpl s \<noteq> None)"
proof -
  from assms obtain rs where m: "m = foldl (strategy_row tpls) [] (scanned rs)"
    by (auto simp: QueryStrategies_def split: if_splits sum.splits)
  show ?thesis unfolding m
    by (rule foldl_invariant [where P = "\<lambda>m. gomap_ok m \<and> (\<forall>(i, s)\<in>set m. st_Id s = i \<and> st_Tpl s \<noteq> None)"])
      (simp, rule strategy_row_ok)
qed

lemma QueryHostTemplateIds_ok: "QueryHostTemplateIds rows = Inr m \<Longrightarrow> gomap_ok m"
  by (auto simp: QueryHostTemplateIds_def split: sum.splits)

lemma cache_Init_ok:
  assumes "cache_Init db st = Some st'" "hbs_ok st"
  shows "hbs_ok st'"
proof -
  have s: "hb_Strategies st' = reload (QueryStrategies (reload (QueryTemplates (db_templates db)) (hb_TemplateCache st)) (db_strategies db)) (hb_Strategies st)"
    and h: "hb_HostTemplateIds st' = reload (QueryHostTemplateIds (db_host_template_ids db)) (hb_HostTemplateIds st)"
    and a: "hb_Agents st' = hb_Agents st"
    using assms(1) by (auto simp: cache_Init_def Let_def GroupPlugins_Init_def GroupTemplates_Init_def HostGroupsMap_Init_def
        HostMap_Init_def TemplateCache_Init_def Strategies_Init_def HostTemplateIds_Init_def ExpressionCache_Init_def
        MonitoredHosts_Init_def split: bind_splits)
  have "gomap_ok (hb_Strategies st') \<and> (\<forall>(i, s)\<in>set (hb_Strategies st'). st_Id s = i \<and> st_Tpl s \<noteq> None)"
    using QueryStrategies_ok assms(2) unfolding s reload_def hbs_ok_def by (auto split: sum.splits)
  moreover have "gomap_ok (hb_HostTemplateIds st')"
    using QueryHostTemplateIds_ok assms(2) unfolding h reload_def hbs_ok_def by (auto split: sum.splits)
  ultimately show ?thesis using assms(2) by (simp add: hbs_ok_def a)
qed

lemma stale_agent_ok:
  assumes "gomap_ok M \<and> (\<forall>h a. gget M h = Some a \<longrightarrow> ar_Hostname (au_ReportRequest a) = h)"
  shows "gomap_ok (stale_agent b M k) \<and> (\<forall>h a. gget (stale_agent b M k) h = Some a \<longrightarrow> ar_Hostname (au_ReportRequest a) = h)"
  using assms by (auto simp: stale_agent_def split: option.split)

lemma Agents_Put_ok:
  assumes "hbs_ok st"
  shows "hbs_ok (Agents_Put now req st)"
proof -
  have "hbs_ok (st\<lparr>hb_updates := us, hb_Agents := gput (ar_Hostname req) \<lparr>au_LastUpdate = now, au_ReportRequest = req\<rparr> (hb_Agents st)\<rparr>)" for us
    using assms by (simp add: hbs_ok_def)
  then show ?thesis using assms by (simp add: Agents_Put_def Let_def)
qed

lemma hbs_step_ok:
  assumes "hbs_step st st'" "hbs_ok st"
  shows "hbs_ok st'"
  using assms(1)
proof (cases rule: hbs_step.cases)
  case (step_reload db)
  then show ?thesis using cache_Init_ok assms(2) by blast
next
  case (step_report now req)
  then show ?thesis using assms(2) Agents_Put_ok by (auto simp: ReportStatus_def split: if_splits)
next
  case (step_clean now)
  have "gomap_ok (foldl (stale_agent b) (hb_Agents st) ks) \<and>
      (\<forall>h a. gget (foldl (stale_agent b) (hb_Agents st) ks) h = Some a \<longrightarrow> ar_Hostname (au_ReportRequest a) = h)" for b ks
    by (rule foldl_invariant [where P = "\<lambda>M. gomap_ok M \<and> (\<forall>h a. gget M h = Some a \<longrightarrow> ar_Hostname (au_ReportRequest a) = h)"])
      (use assms(2) in \<open>simp add: hbs_ok_def\<close>, rule stale_agent_ok)
  then show ?thesis using step_clean assms(2) by (auto simp: deleteStaleAgents_def hbs_ok_def)
qed

lemma hbs_reachable_ok: "hbs_reachable st \<Longrightarrow> hbs_ok st"
proof (induction rule: hbs_reachable.induct)
  case reach_init
  show ?case by (simp add: hbs_ok_def init_hbs_def)
next
  case (reach_step st st')
  show ?case by (rule hbs_step_ok [OF reach_step.hyps(2) reach_step.IH])
qed

section \<open>The strategies served\<close>

lemma bucket_Tpl2Strategies:
  "set (bucket (Tpl2Strategies m) t) = {s \<in> snd ` set m. map_option tpl_Id (st_Tpl s) = Some t}"
proof -
  have "bucket (foldl (\<lambda>ret s. case st_Tpl s of None \<Rightarrow> ret | Some t \<Rightarrow> add_to_bucket (tpl_Id t) s ret) r xs) t =
      bucket r t @ filter (\<lambda>s. map_option tpl_Id (st_Tpl s) = Some t) xs" for r :: "(int, strategy list) gomap" and xs
    by (induction xs arbitrary: r) (auto split: option.split)
  then show ?thesis by (auto simp: Tpl2Strategies_def)
qed

lemma tpl2_ok_Tpl2Strategies [simp]: "tpl2_ok (Tpl2Strategies m)"
  by (auto simp: tpl2_ok_def bucket_Tpl2Strategies)

definition served :: "(stras_map \<Rightarrow> stras_map) \<Rightarrow> hbs_state \<Rightarrow> int list \<Rightarrow> strategy list" where
  "served visit st tids = the (CalcInheritStrategies visit (hb_TemplateCache st) tids (Tpl2Strategies (hb_Strategies st)))"

lemma served_calc:
  assumes "permutes_maps visit"
  shows "CalcInheritStrategies visit (hb_TemplateCache st) tids (Tpl2Strategies (hb_Strategies st)) = Some (served visit st tids)"
  using Calc_buckets [OF assms tpl2_ok_Tpl2Strategies] unfolding served_def by (metis option.sel)

lemma served_ok:
  assumes "permutes_maps visit"
  shows "distinct (map st_Id (served visit st tids)) \<and> (\<forall>s\<in>set (served visit st tids). st_Tpl s \<noteq> None)"
proof -
  let ?T = "hb_TemplateCache st"
  from Calc_buckets [OF assms tpl2_ok_Tpl2Strategies, of ?T tids "hb_Strategies st"] served_calc [OF assms, of st tids]
  have r: "distinct (map st_Id (served visit st tids))"
    "set (served visit st tids) \<subseteq> (\<Union>b\<in>set (uniq_tpl_buckets (chains_of ?T tids)).
      rebind ?T (last b) ` set (survivors (Tpl2Strategies (hb_Strategies st)) b))" by auto
  have "st_Tpl (rebind ?T (last b) s) \<noteq> None" if "b \<in> set (uniq_tpl_buckets (chains_of ?T tids))"
    "s \<in> set (survivors (Tpl2Strategies (hb_Strategies st)) b)" for b s
  proof -
    have "b \<in> set (chains_of ?T tids)" using that(1) uniq_tpl_buckets_sub by blast
    then obtain tid where "b = ParentIds ?T tid" "b \<noteq> []" by (auto simp: chains_of_def)
    then have "gget ?T (last b) \<noteq> None" using ParentIds_last by metis
    then show ?thesis by (auto simp: rebind_def)
  qed
  with r show ?thesis by blast
qed

definition host_response :: "(stras_map \<Rightarrow> stras_map) \<Rightarrow> hbs_state \<Rightarrow> int \<times> int list \<Rightarrow> host_strategy option" where
  "host_response visit st row =
    (case gget (hb_MonitoredHosts st) (fst row) of
       None \<Rightarrow> None
     | Some h \<Rightarrow> if served visit st (snd row) = [] then None
         else Some \<lparr>hs_Hostname = ho_Name h, hs_Strategies = served visit st (snd row)\<rparr>)"

lemma foldM_host_strategies:
  assumes "permutes_maps visit"
  shows "foldM (host_strategies_step visit st) acc rows = Some (acc @ List.map_filter (host_response visit st) rows)"
proof (induction rows arbitrary: acc)
  case (Cons row rows)
  obtain hid tids where row: "row = (hid, tids)" by (cases row)
  show ?case
  proof (cases "gget (hb_MonitoredHosts st) hid")
    case None
    then show ?thesis using Cons.IH by (simp add: row host_strategies_step_def host_response_def map_filter_simps)
  next
    case (Some h)
    then show ?thesis using Cons.IH served_calc [OF assms, of st tids]
      by (simp add: row host_strategies_step_def host_response_def map_filter_simps)
  qed
qed (simp add: map_filter_simps)

lemma served_empty:
  assumes "permutes_maps visit" "hb_TemplateCache st = [] \<or> hb_Strategies st = []"
  shows "served visit st tids = []"
proof -
  have "st_Id ` set (served visit st tids) = {}"
  proof (cases "hb_TemplateCache st = []")
    case True
    have "ParentIds [] tid = []" for tid using ParentIds_last [of "[]" tid] by auto
    then have "chains_of (hb_TemplateCache st) tids = []" using True by (simp add: chains_of_def)
    with Calc_buckets [OF assms(1) tpl2_ok_Tpl2Strategies, of "hb_TemplateCache st" tids "hb_Strategies st"] served_calc [OF assms(1), of st tids]
    show ?thesis by (auto simp: uniq_tpl_buckets_def)
  next
    case False
    with assms(2) have "hb_Strategies st = []" by simp
    then have "survivors (Tpl2Strategies (hb_Strategies st)) b = []" for b
      by (induction b) (simp_all add: Tpl2Strategies_def)
    with Calc_buckets [OF assms(1) tpl2_ok_Tpl2Strategies, of "hb_TemplateCache st" tids "hb_Strategies st"] served_calc [OF assms(1), of st tids]
    show ?thesis by auto
  qed
  then show ?thesis by simp
qed

lemma GetStrategies_map:
  assumes "permutes_maps visit"
  shows "hbs_GetStrategies visit st = Some (List.map_filter (host_response visit st) (hb_HostTemplateIds st))"
proof (cases "hb_HostTemplateIds st = [] \<or> hb_MonitoredHosts st = [] \<or> hb_TemplateCache st = [] \<or> hb_Strategies st = []")
  case True
  then have "host_response visit st row = None" if "row \<in> set (hb_HostTemplateIds st)" for row
    using that served_empty [OF assms] by (auto simp: host_response_def split: option.split)
  then have "List.map_filter (host_response visit st) (hb_HostTemplateIds st) = []"
    by (simp add: List.map_filter_def filter_empty_conv)
  then show ?thesis using True by (simp add: hbs_GetStrategies_def)
next
  case False
  then show ?thesis using foldM_host_strategies [OF assms, of st "[]"] by (simp add: hbs_GetStrategies_def)
qed

text \<open>
  Asking for the strategies never panics, whatever the database held: the answer has one entry
  for each host that has templates, is not in maintenance and gets at least one strategy, and
  every strategy in it comes once and has the template that judges read without a nil check.
\<close>

theorem GetStrategies_safe:
  assumes "permutes_maps visit" "hbs_reachable st"
  shows "\<exists>resp. hbs_GetStrategies visit st = Some resp \<and>
    length resp = length (filter (\<lambda>row. host_response visit st row \<noteq> None) (hb_HostTemplateIds st)) \<and>
    (\<forall>hs\<in>set resp. hs_Strategies hs \<noteq> [] \<and> distinct (map st_Id (hs_Strategies hs)) \<and>
      (\<forall>s\<in>set (hs_Strategies hs). st_Tpl s \<noteq> None) \<and>
      (\<exists>hid h. gget (hb_MonitoredHosts st) hid = Some h \<and> ho_Name h = hs_Hostname hs \<and> gget (hb_HostTemplateIds st) hid \<noteq> None))"
proof -
  have ok: "gomap_ok (hb_HostTemplateIds st)" using hbs_reachable_ok [OF assms(2)] by (simp add: hbs_ok_def)
  let ?resp = "List.map_filter (host_response visit st) (hb_HostTemplateIds st)"
  have "length ?resp = length (filter (\<lambda>row. host_response visit st row \<noteq> None) (hb_HostTemplateIds st))"
    by (simp add: List.map_filter_def comp_def)
  moreover have "hs_Strategies hs \<noteq> [] \<and> distinct (map st_Id (hs_Strategies hs)) \<and>
      (\<forall>s\<in>set (hs_Strategies hs). st_Tpl s \<noteq> None) \<and>
      (\<exists>hid h. gget (hb_MonitoredHosts st) hid = Some h \<and> ho_Name h = hs_Hostname hs \<and> gget (hb_HostTemplateIds st) hid \<noteq> None)"
    if hs: "hs \<in> set ?resp" for hs
  proof -
    from hs obtain row where row: "row \<in> set (hb_HostTemplateIds st)" "host_response visit st row = Some hs"
      by (auto simp: List.map_filter_def)
    then obtain h where h: "gget (hb_MonitoredHosts st) (fst row) = Some h" "served visit st (snd row) \<noteq> []"
        "hs = \<lparr>hs_Hostname = ho_Name h, hs_Strategies = served visit st (snd row)\<rparr>"
      by (auto simp: host_response_def split: option.splits if_splits)
    have "gget (hb_HostTemplateIds st) (fst row) \<noteq> None" using row(1) by (metis image_eqI map_of_eq_None_iff)
    then show ?thesis using h served_ok [OF assms(1), of st "snd row"] by auto
  qed
  ultimately show ?thesis using GetStrategies_map [OF assms(1), of st] by blast
qed

definition demo_db :: hbs_db where
  "demo_db = \<lparr>db_plugins = Inr [], db_group_templates = Inr [Some (5, 1), Some (5, 2)], db_host_groups = Inr [Some (5, 100)],
    db_hosts = Inr [Some (100, ''web1'')], db_templates = Inr [Some (tpl 1 0), None, Some (tpl 2 1)],
    db_strategies = Inr [Some (strat 10 ''cpu'' 0, '''', 1), Some (strat 11 ''mem'' 0, '''', 1), Some (strat 20 ''cpu'' 0, '''', 2)],
    db_host_template_ids = Inr [Some (1, 100), Some (2, 100)], db_expressions = Inl ''timeout'',
    db_monitored_hosts = Inr [Some \<lparr>ho_Id = 100, ho_Name = ''web1''\<rparr>]\<rparr>"

definition demo_hbs :: hbs_state where
  "demo_hbs = the (cache_Init demo_db init_hbs)"

lemma demo_hbs_init: "cache_Init demo_db init_hbs = Some demo_hbs"
  by (simp add: demo_hbs_def cache_Init_def Let_def ExpressionCache_Init_def demo_db_def QueryExpressions_def)

lemma demo_hbs_reachable: "hbs_reachable demo_hbs"
  by (rule reach_step [OF reach_init step_reload [OF demo_hbs_init]])

theorem GetStrategies_safe_witness:
  "\<exists>resp. hbs_GetStrategies rev demo_hbs = Some resp \<and> length resp = 1 \<and>
    map (map st_Id \<circ> hs_Strategies) (the (hbs_GetStrategies rev demo_hbs)) = [[20, 11]]"
proof -
  have "map (map st_Id \<circ> hs_Strategies) (the (hbs_GetStrategies rev demo_hbs)) = [[20, 11]]" by code_simp
  moreover have "length (filter (\<lambda>row. host_response rev demo_hbs row \<noteq> None) (hb_HostTemplateIds demo_hbs)) = 1" by code_simp
  ultimately show ?thesis using GetStrategies_safe [OF permutes_rev demo_hbs_reachable] by auto
qed

end
