(* ===== verification/Hbs_Agents.thy ===== *)
theory Hbs_Agents
  imports Hbs_Serve
begin

text \<open>
  The reading of expressions, the metrics and plugins that agents are told to collect, and the
  agents the heartbeat server believes alive.
\<close>

section \<open>Expressions\<close>

text \<open>Characters that are no white space and have no meaning in an expression.\<close>

definition plain :: "char \<Rightarrow> bool" where
  "plain c \<longleftrightarrow> 33 \<le> (of_char c :: int) \<and> (of_char c :: int) \<le> 126"

definition plain_word :: "string \<Rightarrow> bool" where
  "plain_word w \<longleftrightarrow> w \<noteq> [] \<and> list_all plain w"

lemma space_len_plain: "33 \<le> a \<Longrightarrow> a \<le> 126 \<Longrightarrow> space_len (a # r) = 0"
  by (cases r rule: list.exhaust; cases "tl r") auto

lemma lead_space_plain [simp]: "plain c \<Longrightarrow> lead_space (c # s) = 0"
  by (simp add: lead_space_def plain_def space_len_plain numeral_3_eq_3)

lemma lead_space_blank [simp]: "lead_space (CHR '' '' # s) = 1"
proof -
  have "space_len (32 # r) = 1" for r by (cases r rule: list.exhaust; cases "tl r") auto
  then show ?thesis by (simp add: lead_space_def numeral_3_eq_3)
qed

lemma go_fields_word:
  "list_all plain w \<Longrightarrow> go_fields_acc u (w @ CHR '' '' # s) = (if u @ w = [] then [] else [u @ w]) @ go_fields_acc [] s"
  by (induction w arbitrary: u) auto

lemma go_fields_last: "list_all plain w \<Longrightarrow> go_fields_acc u w = (if u @ w = [] then [] else [u @ w])"
  by (induction w arbitrary: u) auto

lemma go_fields_join: "list_all plain_word ws \<Longrightarrow> go_fields (go_join '' '' ws) = ws"
proof (induction ws)
  case (Cons w ws)
  then show ?case
    by (cases ws) (auto simp: go_fields_def go_fields_word go_fields_last plain_word_def)
qed (simp add: go_fields_def)

lemma space_len_end: "33 \<le> c \<Longrightarrow> c \<le> 126 \<Longrightarrow> length xs < 3 \<Longrightarrow> space_len (xs @ [c]) \<noteq> Suc (length xs)"
  by (cases xs rule: list.exhaust; cases "tl xs"; cases "tl (tl xs)") auto

lemma ends_in_space_plain: "plain c \<Longrightarrow> k \<in> {1, 2, 3} \<Longrightarrow> \<not> ends_in_space k (s @ [c])"
proof
  assume c: "plain c" and k: "k \<in> {1, 2, 3}" and e: "ends_in_space k (s @ [c])"
  let ?xs = "map of_char (drop (Suc (length s) - k) s) :: int list"
  have "drop (Suc 0 - k) [c] = [c]" using k by auto
  with e have l: "k \<le> Suc (length s)" and sp: "space_len (?xs @ [of_char c]) = k"
    by (auto simp: ends_in_space_def Suc_diff_le)
  have "Suc (length ?xs) = k" using l k by auto
  moreover have "space_len (?xs @ [of_char c]) \<noteq> Suc (length ?xs)"
    using c k l by (intro space_len_end) (auto simp: plain_def)
  ultimately show False using sp by simp
qed

lemma go_trim_space_plain:
  assumes "plain c" "plain d"
  shows "go_trim_space (c # s @ [d]) = c # s @ [d]" "go_trim_space [c] = [c]"
proof -
  have t: "trail_space (x @ [e]) = 0" if "plain e" for x e
    using ends_in_space_plain [OF that] by (simp add: trail_space_def)
  have l: "go_trim_left_space (c # r) = c # r" for r
    using assms(1) by (simp add: go_trim_left_space.simps)
  show "go_trim_space (c # s @ [d]) = c # s @ [d]"
    using t [OF assms(2), of "c # s"] by (simp add: go_trim_space_def l go_trim_right_space.simps)
  show "go_trim_space [c] = [c]"
    using t [OF assms(1), of "[]"] by (simp add: go_trim_space_def l go_trim_right_space.simps)
qed

lemma go_trim_space_ends:
  assumes "s \<noteq> []" "plain (hd s)" "plain (last s)"
  shows "go_trim_space s = s"
proof (cases s)
  case (Cons c r)
  then show ?thesis using assms go_trim_space_plain
    by (cases r rule: rev_cases) auto
qed (use assms in simp)

lemma go_trim_space_word: "plain_word w \<Longrightarrow> go_trim_space w = w"
  by (rule go_trim_space_ends) (auto simp: plain_word_def list_all_iff)

lemma hd_last_join:
  "ws \<noteq> [] \<Longrightarrow> list_all plain_word ws \<Longrightarrow>
    go_join '' '' ws \<noteq> [] \<and> plain (hd (go_join '' '' ws)) \<and> plain (last (go_join '' '' ws))"
proof (induction ws)
  case (Cons w ws)
  have w: "w \<noteq> []" "plain (hd w)" "plain (last w)" using Cons.prems(2) by (auto simp: plain_word_def list_all_iff)
  show ?case
  proof (cases ws)
    case Nil
    with w show ?thesis by simp
  next
    case (Cons w' ws')
    with Cons.IH Cons.prems w show ?thesis by auto
  qed
qed simp

definition exp_word :: "string \<Rightarrow> bool" where
  "exp_word w \<longleftrightarrow> plain_word w \<and> CHR ''='' \<notin> set w \<and> CHR ''('' \<notin> set w \<and> CHR '')'' \<notin> set w"

definition expression_text :: "string \<Rightarrow> tagmap \<Rightarrow> string" where
  "expression_text metric tags =
    ''each('' @ go_join '' '' (tag_pair ''metric'' metric # map (\<lambda>(k, v). tag_pair k v) tags) @ '')''"

definition clean_expression :: "string \<Rightarrow> tagmap \<Rightarrow> bool" where
  "clean_expression metric tags \<longleftrightarrow> exp_word metric \<and> tags \<noteq> [] \<and> gomap_ok tags \<and>
    list_all (\<lambda>(k, v). exp_word k \<and> exp_word v \<and> k \<noteq> ''metric'') tags"

lemma plain_eq [simp]: "plain (CHR ''='')"
  by (simp add: plain_def)

lemma exp_word_metric: "exp_word ''metric''"
  by (simp add: exp_word_def plain_word_def plain_def)

lemma plain_tag_pair: "exp_word k \<Longrightarrow> exp_word v \<Longrightarrow> plain_word (tag_pair k v)"
  by (auto simp: exp_word_def plain_word_def tag_pair_def)

lemma split_tag_pair: "exp_word k \<Longrightarrow> exp_word v \<Longrightarrow> go_split (CHR ''='') (tag_pair k v) = [k, v]"
  by (simp add: exp_word_def tag_pair_def go_split_append go_split_no_sep)

lemma exp_tags_loop_pairs:
  "list_all (\<lambda>(k, v). exp_word k \<and> exp_word v) tags \<Longrightarrow>
    exp_tags_loop expr (map (\<lambda>(k, v). tag_pair k v) tags) m = Inr (foldl (\<lambda>m (k, v). gput k v m) m tags)"
  by (induction tags arbitrary: m) (auto simp: split_tag_pair go_trim_space_word exp_word_def)

lemma gput_new: "gget m k = None \<Longrightarrow> gput k v m = m @ [(k, v)]"
  by (induction m) (auto split: if_splits)

lemma foldl_gput_new:
  "distinct (map fst tags) \<Longrightarrow> fst ` set tags \<inter> fst ` set m = {} \<Longrightarrow> foldl (\<lambda>m (k, v). gput k v m) m tags = m @ tags"
proof (induction tags arbitrary: m)
  case (Cons t tags)
  obtain k v where t: "t = (k, v)" by (cases t)
  have "gput k v m = m @ [(k, v)]" using Cons.prems by (intro gput_new) (auto simp: t map_of_eq_None_iff)
  then show ?case using Cons.IH [of "m @ [(k, v)]"] Cons.prems by (auto simp: t)
qed simp

lemma gdel_missing: "k \<notin> fst ` set m \<Longrightarrow> gdel k m = m"
  by (induction m) auto

lemma set_join_words: "set (go_join '' '' ws) \<subseteq> {CHR '' ''} \<union> (\<Union>w\<in>set ws. set w)"
  using set_go_join [of "'' ''" ws] by simp

lemma parseExpression_steps:
  assumes "go_index e (CHR ''('') = l" "go_index e (CHR '')'') = r" "go_slice e (l + 1) r = Some inner"
    and "go_fields (go_trim_space inner) = arr" "\<not> length arr < 2" "exp_tags_loop e arr [] = Inr tags"
    and "gget tags ''metric'' = Some m"
  shows "parseExpression e = Some (Inr (m, gdel ''metric'' tags))"
  using assms by (simp add: parseExpression_def)

text \<open>
  C39: Parsing reads an expression back: a metric and at least one tag, written
  \<open>each(metric=m k=v ...)\<close> in words without white space, parentheses and equals signs.
\<close>

theorem parseExpression_roundtrip:
  assumes "clean_expression metric tags"
  shows "parseExpression (expression_text metric tags) = Some (Inr (metric, tags))"
proof -
  let ?all = "(''metric'', metric) # tags"
  let ?ws = "map (\<lambda>(k, v). tag_pair k v) ?all"
  let ?inner = "go_join '' '' ?ws"
  let ?e = "expression_text metric tags"
  have words: "list_all (\<lambda>(k, v). exp_word k \<and> exp_word v) ?all"
    using assms exp_word_metric by (auto simp: clean_expression_def list_all_iff)
  then have plain: "list_all plain_word ?ws" by (auto simp: list_all_iff plain_tag_pair)
  have no: "CHR '')'' \<notin> set ?inner"
  proof -
    have "CHR '')'' \<notin> set w" if "w \<in> set ?ws" for w
      using that words by (auto simp: list_all_iff exp_word_def tag_pair_def)
    then show ?thesis using set_join_words [of ?ws] by blast
  qed
  have e: "?e = ''each('' @ ?inner @ '')''" by (simp add: expression_text_def)
  have left: "go_index ?e (CHR ''('') = 4" unfolding e by simp
  have right: "go_index ?e (CHR '')'') = int (length (''each('' @ ?inner))"
    using go_index_found [of "CHR '')''" "''each('' @ ?inner" "''''"] no unfolding e by simp
  have slice: "go_slice ?e 5 (int (length (''each('' @ ?inner))) = Some ?inner"
    unfolding e by (simp add: go_slice_def nat_diff_distrib nat_add_distrib)
  have "?ws \<noteq> []" by simp
  then have "go_trim_space ?inner = ?inner" using hd_last_join [OF _ plain] go_trim_space_ends by blast
  then have fields: "go_fields (go_trim_space ?inner) = ?ws" by (simp only: go_fields_join [OF plain])
  have loop: "exp_tags_loop ?e ?ws [] = Inr ?all"
  proof -
    have "distinct (map fst ?all)" "fst ` set ?all \<inter> fst ` set ([] :: tagmap) = {}"
      using assms by (auto simp: clean_expression_def gomap_ok_def list_all_iff)
    from foldl_gput_new [OF this] exp_tags_loop_pairs [OF words, of ?e "[]"] show ?thesis by (simp only: append_Nil)
  qed
  have "gdel ''metric'' ?all = tags"
    using assms by (auto simp: clean_expression_def list_all_iff intro!: gdel_missing)
  moreover have "\<not> length ?ws < 2" using assms by (cases tags) (auto simp: clean_expression_def)
  ultimately show ?thesis
    using parseExpression_steps [OF left right _ fields _ loop, of metric] slice by simp
qed

theorem parseExpression_roundtrip_witness:
  "parseExpression ''each(metric=qps srv=falcon idc=lg)'' = Some (Inr (''qps'', [(''srv'', ''falcon''), (''idc'', ''lg'')]))"
proof -
  have "clean_expression ''qps'' [(''srv'', ''falcon''), (''idc'', ''lg'')]" by code_simp
  moreover have "expression_text ''qps'' [(''srv'', ''falcon''), (''idc'', ''lg'')] = ''each(metric=qps srv=falcon idc=lg)''" by code_simp
  ultimately show ?thesis using parseExpression_roundtrip by metis
qed

lemma parseExpression_panic: "parseExpression expr = None \<longleftrightarrow> go_index expr (CHR '')'') \<le> go_index expr (CHR ''('')"
proof -
  have "go_slice expr (go_index expr (CHR ''('') + 1) (go_index expr (CHR '')'')) = None \<longleftrightarrow>
      go_index expr (CHR '')'') \<le> go_index expr (CHR ''('')"
    using go_index_range [of expr "CHR ''(''"] go_index_range [of expr "CHR '')''"] by (auto simp: go_slice_def)
  then show ?thesis by (auto simp: parseExpression_def Let_def split: bind_splits)
qed

lemma foldM_None: "x \<in> set xs \<Longrightarrow> (\<And>s. f s x = None) \<Longrightarrow> foldM f s xs = None"
  by (induction xs arbitrary: s) (auto split: option.split)

text \<open>
  One row of \<open>expression\<close> whose closing parenthesis is missing or comes before the opening one
  makes the reload of the caches panic, whatever else the database holds. The loop that reloads
  runs in a goroutine of its own without recovering, so the row takes the heartbeat server down.
\<close>

theorem malformed_expression_panics:
  assumes "db_expressions db = Inr rows" "Some (e, expr) \<in> set rows"
    and "go_index expr (CHR '')'') \<le> go_index expr (CHR ''('')"
  shows "cache_Init db st = None"
proof -
  have "(e, expr) \<in> set (scanned rows)" using assms(2) by (auto simp: scanned_def List.map_filter_def image_iff intro!: bexI [of _ "Some (e, expr)"])
  moreover have "expression_row ret (e, expr) = None" for ret
    using assms(3) parseExpression_panic [of expr] by (simp add: expression_row_def)
  ultimately have "foldM expression_row [] (scanned rows) = None" by (rule foldM_None)
  then have "QueryExpressions (db_expressions db) = None" by (simp add: QueryExpressions_def assms(1))
  then show ?thesis by (simp add: cache_Init_def ExpressionCache_Init_def Let_def)
qed

definition blank_expression :: expression where
  "blank_expression = \<lparr>ex_Id = 1, ex_Metric = '''', ex_Tags = [], ex_Func = ''all(#1)'', ex_Operator = ''>'',
    ex_RightValue = f_zero, ex_MaxStep = 3, ex_Priority = 0, ex_Note = '''', ex_ActionId = 1\<rparr>"

theorem malformed_expression_panics_witness:
  "cache_Init (demo_db\<lparr>db_expressions := Inr [Some (blank_expression, ''each(metric=qps srv=falcon'')]\<rparr>) init_hbs = None"
  using malformed_expression_panics [of "demo_db\<lparr>db_expressions := Inr [Some (blank_expression, ''each(metric=qps srv=falcon'')]\<rparr>"
      "[Some (blank_expression, ''each(metric=qps srv=falcon'')]" blank_expression "''each(metric=qps srv=falcon''" init_hbs] by simp

section \<open>What agents collect\<close>

definition builtin_names :: "string list" where
  "builtin_names = [''net.port.listen'', ''proc.num'', ''du.bs'', ''url.check.health'']"

lemma builtin_key_inj:
  assumes "m \<in> set builtin_names" "m' \<in> set builtin_names" "m @ t = m' @ t'"
  shows "m = m' \<and> t = t'"
  using assms unfolding builtin_names_def by auto

lemma builtin_rows:
  assumes "\<forall>m\<in>set ms \<union> set ret. bm_Metric m \<in> set builtin_names"
    and "set keys = (\<lambda>m. bm_Metric m @ bm_Tags m) ` set ret" "distinct ret"
  shows "distinct (fst (foldl builtin_row (ret, keys) ms)) \<and> set (fst (foldl builtin_row (ret, keys) ms)) = set ret \<union> set ms"
  using assms
proof (induction ms arbitrary: ret keys)
  case (Cons m ms)
  have "bm_Metric m @ bm_Tags m \<in> set keys \<longleftrightarrow> m \<in> set ret"
  proof
    assume "bm_Metric m @ bm_Tags m \<in> set keys"
    then obtain m' where m': "m' \<in> set ret" "bm_Metric m @ bm_Tags m = bm_Metric m' @ bm_Tags m'" using Cons.prems(2) by blast
    have "bm_Metric m \<in> set builtin_names" "bm_Metric m' \<in> set builtin_names" using Cons.prems(1) m'(1) by simp_all
    from builtin_key_inj [OF this m'(2)] have "m = m'" by simp
    with m'(1) show "m \<in> set ret" by simp
  qed (use Cons.prems(2) in auto)
  then have step: "builtin_row (ret, keys) m =
      (if m \<in> set ret then (ret, keys) else (ret @ [m], (bm_Metric m @ bm_Tags m) # keys))"
    by (simp add: builtin_row_def Let_def)
  show ?case
  proof (cases "m \<in> set ret")
    case True
    then show ?thesis using Cons.IH [of ret keys] Cons.prems step by auto
  next
    case False
    have "distinct (fst (foldl builtin_row (ret @ [m], (bm_Metric m @ bm_Tags m) # keys) ms)) \<and>
        set (fst (foldl builtin_row (ret @ [m], (bm_Metric m @ bm_Tags m) # keys) ms)) = set (ret @ [m]) \<union> set ms"
      using Cons.prems False by (intro Cons.IH) auto
    then show ?thesis using step False by simp
  qed
qed simp

text \<open>
  The metrics an agent is told to collect are each row of the database once: the key by which
  duplicates are dropped joins metric and tags without a separator, but no two rows that differ
  have the same key, because none of the four metrics is a prefix of another.
\<close>

theorem QueryBuiltinMetrics_exact:
  assumes "\<forall>m\<in>set (scanned rows). bm_Metric m \<in> set builtin_names"
  shows "\<exists>ms. QueryBuiltinMetrics (Inr rows) = Inr ms \<and> distinct ms \<and> set ms = set (scanned rows)"
  using builtin_rows [of "scanned rows" "[]" "[]"] assms by (simp add: QueryBuiltinMetrics_def)

theorem QueryBuiltinMetrics_exact_witness:
  "\<exists>ms. QueryBuiltinMetrics (Inr [Some \<lparr>bm_Metric = ''du.bs'', bm_Tags = ''x''\<rparr>, None, Some \<lparr>bm_Metric = ''du.bs'', bm_Tags = ''x''\<rparr>]) = Inr ms \<and>
    distinct ms \<and> set ms = {\<lparr>bm_Metric = ''du.bs'', bm_Tags = ''x''\<rparr>}"
  using QueryBuiltinMetrics_exact [of "[Some \<lparr>bm_Metric = ''du.bs'', bm_Tags = ''x''\<rparr>, None, Some \<lparr>bm_Metric = ''du.bs'', bm_Tags = ''x''\<rparr>]"]
  by (simp add: scanned_def map_filter_simps builtin_names_def)

lemma map_sort_key_perm:
  assumes "mset xs = mset ys"
  shows "map f (sort_key f xs) = map f (sort_key f ys)"
proof -
  have "sort (map f zs) = map f (sort_key f zs)" for zs
    by (rule properties_for_sort) simp_all
  moreover have "sort (map f xs) = sort (map f ys)"
    using assms by (metis mset_map sorted_list_of_multiset_mset)
  ultimately show ?thesis by simp
qed

text \<open>
  The digest an agent compares does not depend on the order in which the database returns the
  rows, nor on the sort being unstable.
\<close>

lemma Digest_perm: "mset ms = mset ms' \<Longrightarrow> snd (DigestBuiltinMetrics ms) = snd (DigestBuiltinMetrics ms')"
  using map_sort_key_perm [of ms ms' builtin_String] by (simp add: DigestBuiltinMetrics_def Let_def)

section \<open>Plugins\<close>

lemma GetPlugins_exact:
  assumes "gget (hb_HostMap st) hostname = Some hid" "gget (hb_HostGroupsMap st) hid = Some gids"
  shows "sorted (GetPlugins st hostname) \<and> distinct (GetPlugins st hostname) \<and>
    set (GetPlugins st hostname) = (\<Union>gid\<in>set gids. set (bucket (hb_GroupPlugins st) gid))"
proof -
  have k: "gomap_ok m \<Longrightarrow> gomap_ok (foldl (\<lambda>m p. gput p () m) m ps) \<and>
      set (map fst (foldl (\<lambda>m p. gput p () m) m ps)) = set (map fst m) \<union> set ps" for m :: "(string, unit) gomap" and ps
  proof (induction ps arbitrary: m)
    case (Cons p ps)
    show ?case using Cons.IH [of "gput p () m"] Cons.prems keys_gput [of p "()" m] by auto
  qed simp
  have "set (group_plugins st gids) = (\<Union>gid\<in>set gids. set (bucket (hb_GroupPlugins st) gid))"
    by (auto simp: group_plugins_def bucket_def)
  then show ?thesis using k [of "[]" "group_plugins st gids"] assms by (simp add: GetPlugins_def gomap_ok_def)
qed

section \<open>Agents believed alive\<close>

lemma report_unchanged:
  assumes "gget (hb_Agents st) (ar_Hostname req) = Some a" "\<not> agent_changed (au_ReportRequest a) req"
  shows "fst (ReportStatus now req st) = st"
  using assms by (simp add: ReportStatus_def Agents_Put_def Let_def)

lemma stale_fold_none:
  "gget M h = None \<Longrightarrow> gget (foldl (stale_agent b) M ks) h = None"
  by (induction ks arbitrary: M) (auto simp: stale_agent_def split: option.split)

lemma stale_fold:
  assumes "gget M h = Some a" "au_LastUpdate a < b" "ar_Hostname (au_ReportRequest a) = h" "h \<in> set ks"
  shows "gget (foldl (stale_agent b) M ks) h = None"
  using assms
proof (induction ks arbitrary: M)
  case (Cons k ks)
  show ?case
  proof (cases "gget (stale_agent b M k) h")
    case None
    then show ?thesis using stale_fold_none by simp
  next
    case (Some a')
    have "k \<noteq> h" using Some Cons.prems by (auto simp: stale_agent_def)
    moreover have "a' = a" using Some Cons.prems(1) by (auto simp: stale_agent_def split: option.splits if_splits)
    ultimately show ?thesis using Cons.IH [of "stale_agent b M k"] Some Cons.prems by simp
  qed
qed simp

text \<open>
  The cleaner promises to drop the agents that sent no heartbeat for a day. It drops every agent
  whose versions and address have not changed for a day, however often it reports: an unchanged
  report does not renew the time of the last one.
\<close>

theorem live_agent_dropped:
  assumes "hbs_reachable st" "gget (hb_Agents st) (ar_Hostname req) = Some \<lparr>au_LastUpdate = t0, au_ReportRequest = req\<rparr>"
    and "t0 + 86400 < now" "in_i64 t0" "0 \<le> t0" "in_i64 now"
  shows "gget (hb_Agents (deleteStaleAgents now (foldl (\<lambda>st t. fst (ReportStatus t req st)) st reports))) (ar_Hostname req) = None"
proof -
  have same: "foldl (\<lambda>st t. fst (ReportStatus t req st)) st reports = st"
  proof (induction reports)
    case (Cons t reports)
    have "fst (ReportStatus t req st) = st" using assms(2) by (intro report_unchanged) (auto simp: agent_changed_def)
    then show ?case using Cons by simp
  qed simp
  have w: "i64 (now - 86400) = now - 86400" using assms(3-6) by (intro i64_id) (auto simp: in_i64_def)
  have "ar_Hostname req \<in> set (map fst (hb_Agents st))"
    using assms(2) by (metis domI dom_map_of_conv_image_fst list.set_map)
  with assms(2,3) show ?thesis
    unfolding same deleteStaleAgents_def w by (simp add: stale_fold)
qed

definition demo_agent :: agent_report_request where
  "demo_agent = \<lparr>ar_Hostname = ''web1'', ar_IP = ''10.0.0.1'', ar_AgentVersion = ''5.1'', ar_PluginVersion = ''''\<rparr>"

theorem live_agent_dropped_witness:
  "gget (hb_Agents (deleteStaleAgents 100000 (foldl (\<lambda>st t. fst (ReportStatus t demo_agent st))
    (fst (ReportStatus 1000 demo_agent demo_hbs)) [99940, 99999]))) ''web1'' = None"
proof -
  let ?st = "fst (ReportStatus 1000 demo_agent demo_hbs)"
  have r: "hbs_reachable ?st" by (rule reach_step [OF demo_hbs_reachable step_report [OF refl]])
  have a: "hb_Agents demo_hbs = []" by code_simp
  have g: "gget (hb_Agents ?st) (ar_Hostname demo_agent) = Some \<lparr>au_LastUpdate = 1000, au_ReportRequest = demo_agent\<rparr>"
    by (simp add: ReportStatus_def Agents_Put_def Let_def a demo_agent_def)
  have h: "ar_Hostname demo_agent = ''web1''" by (simp add: demo_agent_def)
  show ?thesis using live_agent_dropped [OF r g, of 100000 "[99940, 99999]"] by (simp add: in_i64_def h)
qed

end
