(* ===== verification/Toolkit.thy ===== *)
theory Toolkit
  imports Utils
begin

text \<open>
  The containers of \<open>vendor/github.com/toolkits\<close> the modules are built on: the bounded send
  queue \<open>SafeListLimited\<close> and the consistent-hash ring, each behind the contract its clients
  use: \<open>send_queue\<close> (first in, first out, bounded) and \<open>node_ring\<close> (a key has one node, and the
  node is a member).
\<close>

section \<open>The queue\<close>

text \<open>Front first, as in \<open>container/list\<close>.\<close>

record 'a safe_list_limited =
  sl_max :: int
  sl_items :: "'a list"

definition NewSafeListLimited :: "int \<Rightarrow> 'a safe_list_limited" where
  "NewSafeListLimited n = \<lparr>sl_max = n, sl_items = []\<rparr>"

definition sl_Len :: "'a safe_list_limited \<Rightarrow> int" where
  "sl_Len Q = int (length (sl_items Q))"

definition sl_PushFront :: "'a \<Rightarrow> 'a safe_list_limited \<Rightarrow> 'a safe_list_limited \<times> bool" where
  "sl_PushFront v Q =
    (if sl_max Q \<le> sl_Len Q then (Q, False) else (Q\<lparr>sl_items := v # sl_items Q\<rparr>, True))"

text \<open>The batch is checked against the bound once, before the first of its items is pushed.\<close>

definition sl_PushFrontBatch :: "'a list \<Rightarrow> 'a safe_list_limited \<Rightarrow> 'a safe_list_limited \<times> bool" where
  "sl_PushFrontBatch vs Q =
    (if sl_max Q \<le> sl_Len Q then (Q, False)
     else (Q\<lparr>sl_items := foldl (\<lambda>L v. v # L) (sl_items Q) vs\<rparr>, True))"

definition sl_PushFrontViolently :: "'a \<Rightarrow> 'a safe_list_limited \<Rightarrow> 'a safe_list_limited" where
  "sl_PushFrontViolently v Q =
    (let L = v # sl_items Q
     in Q\<lparr>sl_items := (if sl_max Q < int (length L) then butlast L else L)\<rparr>)"

definition sl_PopBack :: "'a safe_list_limited \<Rightarrow> 'a option \<times> 'a safe_list_limited" where
  "sl_PopBack Q =
    (if sl_items Q = [] then (None, Q)
     else (Some (last (sl_items Q)), Q\<lparr>sl_items := butlast (sl_items Q)\<rparr>))"

text \<open>
  \<open>PopBackBy\<close> takes up to \<open>max\<close> items from the back, oldest first. A negative \<open>max\<close> on a
  non-empty list is a negative capacity and panics.
\<close>

definition sl_PopBackBy :: "int \<Rightarrow> 'a safe_list_limited \<Rightarrow> ('a list \<times> 'a safe_list_limited) option" where
  "sl_PopBackBy n Q =
    (let count = sl_Len Q in
     if count = 0 then Some ([], Q)
     else let c = (if n < count then n else count) in
       if c < 0 then None
       else Some (take (nat c) (rev (sl_items Q)),
         Q\<lparr>sl_items := take (length (sl_items Q) - nat c) (sl_items Q)\<rparr>))"

definition sl_PopBackAll :: "'a safe_list_limited \<Rightarrow> 'a list \<times> 'a safe_list_limited" where
  "sl_PopBackAll Q = (rev (sl_items Q), Q\<lparr>sl_items := []\<rparr>)"

definition sl_RemoveAll :: "'a safe_list_limited \<Rightarrow> 'a safe_list_limited" where
  "sl_RemoveAll Q = Q\<lparr>sl_items := []\<rparr>"

definition sl_Front :: "'a safe_list_limited \<Rightarrow> 'a option" where
  "sl_Front Q = (case sl_items Q of [] \<Rightarrow> None | x # _ \<Rightarrow> Some x)"

definition sl_FrontAll :: "'a safe_list_limited \<Rightarrow> 'a list" where
  "sl_FrontAll Q = sl_items Q"

text \<open>
  The contract of a send queue: the pending items, oldest first, and how the two operations
  the senders use change them.
\<close>

locale send_queue =
  fixes push :: "'a \<Rightarrow> 'q \<Rightarrow> 'q \<times> bool"
    and pop_by :: "int \<Rightarrow> 'q \<Rightarrow> ('a list \<times> 'q) option"
    and pending :: "'q \<Rightarrow> 'a list"
    and bound :: "'q \<Rightarrow> int"
  assumes push_pending: "push x q = (q', ok) \<Longrightarrow> pending q' = (if ok then pending q @ [x] else pending q)"
    and push_ok: "push x q = (q', ok) \<Longrightarrow> ok \<longleftrightarrow> int (length (pending q)) < bound q"
    and push_bound: "push x q = (q', ok) \<Longrightarrow> bound q' = bound q"
    and pop_total: "0 \<le> n \<Longrightarrow> pop_by n q \<noteq> None"
    and pop_pending: "pop_by n q = Some (xs, q') \<Longrightarrow> pending q = xs @ pending q'"
    and pop_length: "0 \<le> n \<Longrightarrow> pop_by n q = Some (xs, q') \<Longrightarrow> length xs = min (nat n) (length (pending q))"
    and pop_bound: "pop_by n q = Some (xs, q') \<Longrightarrow> bound q' = bound q"
begin

lemma push_capped:
  "push x q = (q', ok) \<Longrightarrow> int (length (pending q)) \<le> bound q \<Longrightarrow> int (length (pending q')) \<le> bound q'"
  using push_pending [of x q q' ok] push_ok [of x q q' ok] push_bound [of x q q' ok] by auto

lemma push_many:
  "pending (foldl (\<lambda>q x. fst (push x q)) q xs) =
    pending q @ take (nat (bound q) - length (pending q)) xs \<and>
   bound (foldl (\<lambda>q x. fst (push x q)) q xs) = bound q"
proof (induction xs arbitrary: q)
  case (Cons x xs)
  obtain q' ok where p: "push x q = (q', ok)" by fastforce
  show ?case
  proof (cases ok)
    case True
    then have "nat (bound q) - length (pending q) = Suc (nat (bound q) - Suc (length (pending q)))"
      using push_ok [OF p] by linarith
    then show ?thesis using Cons [of q'] push_pending [OF p] push_bound [OF p] p True by simp
  next
    case False
    then show ?thesis using Cons [of q'] push_pending [OF p] push_ok [OF p] push_bound [OF p] p by simp
  qed
qed simp

end

lemma rev_split: "rev xs = take c (rev xs) @ rev (take (length xs - c) xs)"
  by (cases "c \<le> length xs") (simp_all add: rev_take)

lemma sl_PopBackBy_eq:
  assumes "sl_PopBackBy n Q = Some (xs, Q')"
  shows "rev (sl_items Q) = xs @ rev (sl_items Q') \<and> sl_max Q' = sl_max Q \<and>
    (0 \<le> n \<longrightarrow> length xs = min (nat n) (length (sl_items Q)))"
  using assms rev_split [of "sl_items Q"]
  by (auto simp: sl_PopBackBy_def sl_Len_def Let_def min_def split: if_splits)

interpretation slq: send_queue sl_PushFront sl_PopBackBy "\<lambda>Q. rev (sl_items Q)" sl_max
proof unfold_locales
  fix n :: int and Q Q' :: "'a safe_list_limited" and xs :: "'a list"
  show "0 \<le> n \<Longrightarrow> sl_PopBackBy n Q \<noteq> None" by (simp add: sl_PopBackBy_def Let_def sl_Len_def)
  assume "sl_PopBackBy n Q = Some (xs, Q')"
  note eq = sl_PopBackBy_eq [OF this]
  show "rev (sl_items Q) = xs @ rev (sl_items Q')" "sl_max Q' = sl_max Q" using eq by simp_all
  show "length xs = min (nat n) (length (rev (sl_items Q)))" if "0 \<le> n"
    unfolding length_rev using eq that by blast
qed (auto simp: sl_PushFront_def sl_Len_def split: if_splits)

text \<open>
  Items pushed onto a queue come out of it in the order they went in: draining it in batches
  returns what was pending, followed by as many of the new items as fit under the bound.
\<close>

theorem queue_fifo:
  assumes "foldl (\<lambda>Q x. fst (sl_PushFront x Q)) Q xs = Q1" "sl_PopBackBy n Q1 = Some (ys, Q2)" "0 \<le> n"
  shows "ys @ rev (sl_items Q2) = rev (sl_items Q) @ take (nat (sl_max Q) - length (sl_items Q)) xs \<and>
    length ys = min (nat n) (length (sl_items Q1))"
proof
  have p: "rev (sl_items Q1) = rev (sl_items Q) @ take (nat (sl_max Q) - length (sl_items Q)) xs"
    using slq.push_many [of Q xs] unfolding assms(1) by simp
  from slq.pop_pending [OF assms(2)] p
  show "ys @ rev (sl_items Q2) = rev (sl_items Q) @ take (nat (sl_max Q) - length (sl_items Q)) xs" by (rule subst)
  show "length ys = min (nat n) (length (sl_items Q1))"
    using slq.pop_length [OF assms(3,2)] by (simp only: length_rev)
qed

theorem queue_fifo_witness:
  "sl_PopBackBy 2 (foldl (\<lambda>Q x. fst (sl_PushFront x Q)) (NewSafeListLimited 3) [1, 2, 3, 4 :: int]) =
      Some ([1, 2], \<lparr>sl_max = 3, sl_items = [3]\<rparr>) \<and>
    [1, 2] @ rev [3 :: int] = take 3 [1, 2, 3, 4]"
proof -
  have p: "sl_PopBackBy 2 (foldl (\<lambda>Q x. fst (sl_PushFront x Q)) (NewSafeListLimited 3) [1, 2, 3, 4 :: int]) =
      Some ([1, 2], \<lparr>sl_max = 3, sl_items = [3]\<rparr>)"
    by code_simp
  from queue_fifo [OF refl p] p show ?thesis by (simp add: NewSafeListLimited_def)
qed

section \<open>The ring\<close>

record ring =
  rg_replicas :: int
  rg_circle :: "(u32, string) gomap"
  rg_members :: "(string, bool) gomap"
  rg_sorted :: "u32 list"
  rg_count :: int64

datatype ring_error = EmptyCircle

definition New_ring :: ring where
  "New_ring = \<lparr>rg_replicas = 20, rg_circle = [], rg_members = [], rg_sorted = [], rg_count = 0\<rparr>"

definition eltKey :: "string \<Rightarrow> int \<Rightarrow> string" where
  "eltKey elt idx = itoa idx @ elt"

definition hashKey :: "string \<Rightarrow> u32" where
  "hashKey key = crc32_ieee key"

text \<open>The division in the test for an oversized buffer panics when there are no replicas.\<close>

definition updateSortedHashes :: "ring \<Rightarrow> ring option" where
  "updateSortedHashes c =
    (if i64 (rg_replicas c * 4) = 0 then None else Some (c\<lparr>rg_sorted := sort (map fst (rg_circle c))\<rparr>))"

definition elt_hashes :: "ring \<Rightarrow> string \<Rightarrow> u32 list" where
  "elt_hashes c elt = map (\<lambda>i. hashKey (eltKey elt i)) [0..rg_replicas c - 1]"

definition ring_add :: "string \<Rightarrow> ring \<Rightarrow> ring option" where
  "ring_add elt c = do {
    c1 \<leftarrow> updateSortedHashes (c\<lparr>rg_circle := foldl (\<lambda>m h. gput h elt m) (rg_circle c) (elt_hashes c elt),
      rg_members := gput elt True (rg_members c)\<rparr>);
    Some (c1\<lparr>rg_count := i64 (rg_count c1 + 1)\<rparr>)
  }"

definition ring_remove :: "string \<Rightarrow> ring \<Rightarrow> ring option" where
  "ring_remove elt c = do {
    c1 \<leftarrow> updateSortedHashes (c\<lparr>rg_circle := foldl (\<lambda>m h. gdel h m) (rg_circle c) (elt_hashes c elt),
      rg_members := gdel elt (rg_members c)\<rparr>);
    Some (c1\<lparr>rg_count := i64 (rg_count c1 - 1)\<rparr>)
  }"

text \<open>\<open>sort.Search\<close>: binary search for the first index where \<open>f\<close> holds.\<close>

function sort_search :: "(nat \<Rightarrow> bool) \<Rightarrow> nat \<Rightarrow> nat \<Rightarrow> nat" where
  "sort_search f i j =
    (if i < j then let h = (i + j) div 2 in if \<not> f h then sort_search f (h + 1) j else sort_search f i h
     else i)"
  by pat_completeness auto
termination
  by (relation "measure (\<lambda>(f, i, j). j - i)") auto

declare sort_search.simps [simp del]

definition ring_search :: "u32 list \<Rightarrow> u32 \<Rightarrow> nat" where
  "ring_search hashes key =
    (let i = sort_search (\<lambda>x. key < hashes ! x) 0 (length hashes)
     in if length hashes \<le> i then 0 else i)"

definition ring_Get :: "ring \<Rightarrow> string \<Rightarrow> (ring_error + string) option" where
  "ring_Get c name =
    (if rg_circle c = [] then Some (Inl EmptyCircle)
     else do {
       h \<leftarrow> go_nth (rg_sorted c) (int (ring_search (rg_sorted c) (hashKey name)));
       Some (Inr (case gget (rg_circle c) h of None \<Rightarrow> '''' | Some n \<Rightarrow> n))
     })"

definition NewConsistentHashNodesRing :: "int \<Rightarrow> string list \<Rightarrow> ring option" where
  "NewConsistentHashNodesRing numberOfReplicas nodes =
    foldM (\<lambda>c node. ring_add node c) (New_ring\<lparr>rg_replicas := numberOfReplicas\<rparr>) nodes"

definition GetNode :: "ring \<Rightarrow> string \<Rightarrow> (ring_error + string) option" where
  "GetNode c pk = ring_Get c pk"

section \<open>Where a key goes\<close>

lemma sort_search_first:
  assumes "\<And>x y. x \<le> y \<Longrightarrow> f x \<Longrightarrow> f y" "i \<le> j"
  shows "i \<le> sort_search f i j \<and> sort_search f i j \<le> j \<and>
    (\<forall>x. i \<le> x \<and> x < sort_search f i j \<longrightarrow> \<not> f x) \<and> (sort_search f i j < j \<longrightarrow> f (sort_search f i j))"
  using assms
proof (induction f i j rule: sort_search.induct)
  case (1 f i j)
  let ?h = "(i + j) div 2"
  show ?case
  proof (cases "i < j")
    case True
    then have h: "i \<le> ?h" "?h < j" by auto
    show ?thesis
    proof (cases "f ?h")
      case fh: True
      then have eq: "sort_search f i j = sort_search f i ?h" using True by (simp add: sort_search.simps [of f i j])
      have IH: "i \<le> sort_search f i ?h \<and> sort_search f i ?h \<le> ?h \<and>
          (\<forall>x. i \<le> x \<and> x < sort_search f i ?h \<longrightarrow> \<not> f x) \<and> (sort_search f i ?h < ?h \<longrightarrow> f (sort_search f i ?h))"
        using 1(2) [OF True refl] fh 1(3) h(1) by blast
      have "f (sort_search f i ?h)" using IH fh by (cases "sort_search f i ?h = ?h") auto
      then show ?thesis using IH h unfolding eq by auto
    next
      case fh: False
      then have eq: "sort_search f i j = sort_search f (?h + 1) j" using True by (simp add: sort_search.simps [of f i j])
      have IH: "?h + 1 \<le> sort_search f (?h + 1) j \<and> sort_search f (?h + 1) j \<le> j \<and>
          (\<forall>x. ?h + 1 \<le> x \<and> x < sort_search f (?h + 1) j \<longrightarrow> \<not> f x) \<and>
          (sort_search f (?h + 1) j < j \<longrightarrow> f (sort_search f (?h + 1) j))"
        using 1(1) [OF True refl fh 1(3)] h(2) by simp
      have "\<not> f x" if "i \<le> x" "x < sort_search f (?h + 1) j" for x
        using IH fh that 1(3) [of x ?h] by (cases "x \<le> ?h") auto
      then show ?thesis using IH h unfolding eq by auto
    qed
  next
    case False
    then have "sort_search f i j = i" by (simp add: sort_search.simps)
    then show ?thesis using False 1(4) by auto
  qed
qed

lemma sort_search_cong:
  "(\<And>x. x < j \<Longrightarrow> f x = g x) \<Longrightarrow> sort_search f i j = sort_search g i j"
proof (induction f i j rule: sort_search.induct)
  case (1 f i j)
  show ?case
  proof (cases "i < j")
    case True
    then have "(i + j) div 2 < j" by auto
    then show ?thesis
      using 1 True unfolding sort_search.simps [of f i j] sort_search.simps [of g i j] by (simp add: Let_def)
  qed (simp add: sort_search.simps)
qed

text \<open>The point of the circle a key belongs to: the next one clockwise.\<close>

definition successor :: "u32 set \<Rightarrow> u32 \<Rightarrow> u32 \<Rightarrow> bool" where
  "successor points key h \<longleftrightarrow> h \<in> points \<and>
    (if \<exists>k\<in>points. key < k then key < h \<and> (\<forall>k\<in>points. key < k \<longrightarrow> h \<le> k) else \<forall>k\<in>points. h \<le> k)"

lemma successor_unique: "successor P key h \<Longrightarrow> successor P key h' \<Longrightarrow> h = h'"
  by (auto simp: successor_def split: if_splits intro: antisym)

lemma successor_mono: "successor Q key h \<Longrightarrow> P \<subseteq> Q \<Longrightarrow> h \<in> P \<Longrightarrow> successor P key h"
  unfolding successor_def by (metis (full_types) subsetD)

lemma ring_search_successor:
  assumes "sorted hashes" "hashes \<noteq> []"
  shows "ring_search hashes key < length hashes \<and> successor (set hashes) key (hashes ! ring_search hashes key)"
proof -
  let ?n = "length hashes"
  let ?f = "\<lambda>x. ?n \<le> x \<or> key < hashes ! x"
  have mono: "?f y" if "x \<le> y" "?f x" for x y
    using that sorted_nth_mono [OF assms(1), of x y] by (cases "y < ?n") auto
  have eq: "sort_search (\<lambda>x. key < hashes ! x) i j = sort_search ?f i j" if "j \<le> ?n" for i j
    by (rule sort_search_cong) (use that in auto)
  define s where "s = sort_search ?f 0 ?n"
  have first: "0 \<le> s \<and> s \<le> ?n \<and> (\<forall>x. 0 \<le> x \<and> x < s \<longrightarrow> \<not> ?f x) \<and> (s < ?n \<longrightarrow> ?f s)"
    unfolding s_def by (rule sort_search_first) (rule mono, assumption+, rule le0)
  have s: "s \<le> ?n" "\<And>x. x < s \<Longrightarrow> \<not> ?f x" using first by blast+
  have "?f s" if "s < ?n" using first that by blast
  then have s3: "key < hashes ! s" if "s < ?n" using that by simp
  have r: "ring_search hashes key = (if ?n \<le> s then 0 else s)"
    using eq [of ?n 0] by (simp add: ring_search_def Let_def s_def)
  show ?thesis
  proof (cases "s < ?n")
    case True
    have "hashes ! s \<le> k" if "k \<in> set hashes" "key < k" for k
    proof -
      from that obtain i where i: "i < ?n" "k = hashes ! i" by (auto simp: in_set_conv_nth)
      with that(2) s(2) [of i] have "s \<le> i" by fastforce
      then show ?thesis using sorted_nth_mono [OF assms(1)] i by simp
    qed
    then show ?thesis using True s3 r by (auto simp: successor_def)
  next
    case False
    have "k \<le> key" if "k \<in> set hashes" for k
      using that False s(1,2) by (auto simp: in_set_conv_nth not_less)
    moreover have "hashes ! 0 \<le> k" if "k \<in> set hashes" for k
      using that sorted_nth_mono [OF assms(1), of 0] by (auto simp: in_set_conv_nth)
    ultimately show ?thesis using False r assms(2) by (force simp: successor_def not_less [symmetric])
  qed
qed

text \<open>The invariant of a ring: the sorted points are those of the circle, which members own.\<close>

definition ring_ok :: "ring \<Rightarrow> bool" where
  "ring_ok c \<longleftrightarrow> rg_sorted c = sort (map fst (rg_circle c)) \<and> gomap_ok (rg_circle c) \<and>
    (\<forall>h n. gget (rg_circle c) h = Some n \<longrightarrow> gget (rg_members c) n \<noteq> None)"

definition points :: "ring \<Rightarrow> u32 set" where
  "points c = set (map fst (rg_circle c))"

lemma points_iff: "h \<in> points c \<longleftrightarrow> gget (rg_circle c) h \<noteq> None"
  by (simp add: points_def map_of_eq_None_iff)

lemma foldl_gput_lookup:
  "gget (foldl (\<lambda>m h. gput h v m) m hs) k = (if k \<in> set hs then Some v else gget m k)"
  by (induction hs arbitrary: m) auto

lemma foldl_gput_ok: "gomap_ok m \<Longrightarrow> gomap_ok (foldl (\<lambda>m h. gput h v m) m hs)"
  by (induction hs arbitrary: m) auto

lemma ring_Get_successor:
  assumes "ring_ok c" "rg_circle c \<noteq> []"
  shows "\<exists>h n. ring_Get c name = Some (Inr n) \<and> successor (points c) (hashKey name) h \<and>
    gget (rg_circle c) h = Some n \<and> gget (rg_members c) n \<noteq> None"
proof -
  let ?s = "rg_sorted c"
  have s: "?s = sort (map fst (rg_circle c))" using assms(1) by (simp add: ring_ok_def)
  then have set: "set ?s = points c" and srt: "sorted ?s" by (simp_all add: points_def)
  have "length ?s = length (rg_circle c)" unfolding s by simp
  then have ne: "?s \<noteq> []" using assms(2) by auto
  from ring_search_successor [OF srt ne, of "hashKey name"] set
  obtain h where h: "go_nth ?s (int (ring_search ?s (hashKey name))) = Some h" "successor (points c) (hashKey name) h"
    by (simp add: go_nth_def)
  then have "h \<in> points c" by (simp add: successor_def)
  then obtain n where "gget (rg_circle c) h = Some n" unfolding points_iff by blast
  with h assms show ?thesis by (auto simp: ring_Get_def ring_ok_def)
qed

lemma ring_add_facts:
  assumes "ring_ok c" "ring_add elt c = Some c'"
  shows "ring_ok c' \<and> rg_replicas c' = rg_replicas c \<and>
    gget (rg_circle c') = (\<lambda>h. if h \<in> set (elt_hashes c elt) then Some elt else gget (rg_circle c) h) \<and>
    gget (rg_members c') = (gget (rg_members c))(elt \<mapsto> True)"
  using assms unfolding ring_ok_def
  by (auto simp: ring_add_def updateSortedHashes_def foldl_gput_lookup foldl_gput_ok gget_gput_fun fun_eq_iff
      split: if_splits bind_splits)

lemma ring_add_total: "0 < rg_replicas c \<Longrightarrow> rg_replicas c < 2 ^ 31 \<Longrightarrow> ring_add elt c \<noteq> None"
  by (simp add: ring_add_def updateSortedHashes_def i64_id in_i64_def)

lemma New_ring_ok: "ring_ok (New_ring\<lparr>rg_replicas := r\<rparr>)"
  by (simp add: ring_ok_def New_ring_def)

lemma NewRing_facts:
  assumes "0 < r" "r < 2 ^ 31"
  shows "\<exists>c. NewConsistentHashNodesRing r nodes = Some c \<and> ring_ok c \<and>
    (\<forall>n. gget (rg_members c) n \<noteq> None \<longrightarrow> n \<in> set nodes) \<and> (nodes \<noteq> [] \<longrightarrow> rg_circle c \<noteq> [])"
proof -
  let ?P = "\<lambda>c. ring_ok c \<and> rg_replicas c = r \<and> (\<forall>n. gget (rg_members c) n \<noteq> None \<longrightarrow> n \<in> set nodes)"
  have step: "\<exists>c'. ring_add n c = Some c' \<and> ?P c' \<and> rg_circle c' \<noteq> []" if c: "?P c" and n: "n \<in> set nodes" for c n
  proof -
    from c assms obtain c' where a: "ring_add n c = Some c'" using ring_add_total [of c n] by auto
    have "hashKey (eltKey n 0) \<in> set (elt_hashes c n)" using c assms by (force simp: elt_hashes_def)
    then have "gget (rg_circle c') (hashKey (eltKey n 0)) \<noteq> None" using ring_add_facts [OF _ a] c by simp
    then have "rg_circle c' \<noteq> []" by auto
    then show ?thesis using ring_add_facts [OF _ a] c n a by auto
  qed
  have "\<exists>c'. foldM (\<lambda>c node. ring_add node c) c ns = Some c' \<and> ?P c' \<and> (ns \<noteq> [] \<or> rg_circle c \<noteq> [] \<longrightarrow> rg_circle c' \<noteq> [])"
    if "?P c" "set ns \<subseteq> set nodes" for c ns
    using that
  proof (induction ns arbitrary: c)
    case (Cons n ns)
    from step [OF Cons.prems(1), of n] Cons.prems(2) obtain c' where c': "ring_add n c = Some c'" "?P c'" "rg_circle c' \<noteq> []"
      by auto
    with Cons.IH [OF c'(2)] Cons.prems(2) show ?case by auto
  qed simp
  from this [of "New_ring\<lparr>rg_replicas := r\<rparr>" nodes] New_ring_ok [of r] show ?thesis
    by (auto simp: NewConsistentHashNodesRing_def New_ring_def)
qed

text \<open>
  A ring over at least one node gives every key a node of the cluster: the owner of the first
  point after the key's hash, or of the first point of all when the hash lies past the last.
\<close>

theorem GetNode_successor:
  assumes "0 < r" "r < 2 ^ 31" "nodes \<noteq> []"
  shows "\<exists>c h n. NewConsistentHashNodesRing r nodes = Some c \<and> GetNode c pk = Some (Inr n) \<and> n \<in> set nodes \<and>
    gget (rg_circle c) h = Some n \<and> successor (set (map fst (rg_circle c))) (crc32_ieee pk) h"
  using NewRing_facts [OF assms(1,2), of nodes] ring_Get_successor [of _ pk] assms(3)
  by (fastforce simp: GetNode_def points_def hashKey_def)

theorem GetNode_successor_witness:
  "\<exists>c n. NewConsistentHashNodesRing 2 [''judge-00'', ''judge-01''] = Some c \<and>
    GetNode c ''h/cpu'' = Some (Inr n) \<and> n \<in> {''judge-00'', ''judge-01''}"
  using GetNode_successor [of 2 "[''judge-00'', ''judge-01'']" "''h/cpu''"] by auto

text \<open>
  Adding a node to a ring moves no key between the nodes that were there: a key whose node
  changes goes to the new node.
\<close>

theorem ring_add_moves_only_to_new:
  assumes "ring_ok c" "ring_add elt c = Some c'" "ring_Get c pk = Some (Inr n)" "ring_Get c' pk = Some (Inr n')" "n' \<noteq> n"
  shows "n' = elt"
proof (rule ccontr)
  assume ne: "n' \<noteq> elt"
  note a = ring_add_facts [OF assms(1,2)]
  have c: "rg_circle c \<noteq> []" "rg_circle c' \<noteq> []" using assms(3,4) by (auto simp: ring_Get_def)
  from ring_Get_successor [OF assms(1) c(1), of pk] assms(3) obtain h where
    h: "successor (points c) (hashKey pk) h" "gget (rg_circle c) h = Some n" by auto
  from ring_Get_successor [OF _ c(2), of pk] a assms(4) obtain h' where
    h': "successor (points c') (hashKey pk) h'" "gget (rg_circle c') h' = Some n'" by auto
  have "gget (rg_circle c) h' = Some n'" using h'(2) a ne by (simp split: if_splits)
  moreover have "points c \<subseteq> points c'" using a by (auto simp: points_iff)
  ultimately have "h' = h" using successor_unique [OF successor_mono [OF h'(1)] h(1)] by (simp add: points_iff)
  with h(2) \<open>gget (rg_circle c) h' = Some n'\<close> assms(5) show False by simp
qed

theorem ring_add_moves_only_to_new_witness:
  "\<exists>c c' pk. ring_add ''a'' (New_ring\<lparr>rg_replicas := 1\<rparr>) = Some c \<and> ring_add ''b'' c = Some c' \<and>
    ring_Get c pk = Some (Inr ''a'') \<and> ring_Get c' pk = Some (Inr ''b'')"
proof -
  let ?r0 = "New_ring\<lparr>rg_replicas := 1\<rparr>"
  have 1: "ring_add ''a'' ?r0 = Some (the (ring_add ''a'' ?r0))" by code_simp
  let ?c = "the (ring_add ''a'' ?r0)"
  have 2: "ring_add ''b'' ?c = Some (the (ring_add ''b'' ?c))" by code_simp
  have g: "ring_Get ?c ''0'' = Some (Inr ''a'')" by code_simp
  have g': "(case ring_Get (the (ring_add ''b'' ?c)) ''0'' of Some (Inr n') \<Rightarrow> n' \<noteq> ''a'' | _ \<Rightarrow> False)" by code_simp
  have ok: "ring_ok ?c" using ring_add_facts [OF New_ring_ok 1] by simp
  from g' obtain n' where n': "ring_Get (the (ring_add ''b'' ?c)) ''0'' = Some (Inr n')" "n' \<noteq> ''a''"
    by (auto split: option.splits sum.splits)
  from ring_add_moves_only_to_new [OF ok 2 g n'] n' g 1 2 show ?thesis by blast
qed

text \<open>The contract the senders rely on.\<close>

locale node_ring =
  fixes get :: "'r \<Rightarrow> string \<Rightarrow> (ring_error + string) option"
    and members :: "'r \<Rightarrow> string set"
    and valid :: "'r \<Rightarrow> bool"
  assumes get_member: "valid r \<Longrightarrow> members r \<noteq> {} \<Longrightarrow> \<exists>n\<in>members r. get r pk = Some (Inr n)"
begin

lemma get_never_fails: "valid r \<Longrightarrow> members r \<noteq> {} \<Longrightarrow> get r pk \<noteq> None \<and> (\<forall>e. get r pk \<noteq> Some (Inl e))"
  using get_member [of r pk] by auto

end

definition ring_nodes :: "ring \<Rightarrow> string set" where
  "ring_nodes c = {n. gget (rg_members c) n \<noteq> None}"

definition ring_valid :: "ring \<Rightarrow> bool" where
  "ring_valid c \<longleftrightarrow> ring_ok c \<and> (ring_nodes c \<noteq> {} \<longrightarrow> rg_circle c \<noteq> [])"

interpretation chr: node_ring GetNode ring_nodes ring_valid
proof unfold_locales
  fix r pk assume "ring_valid r" "ring_nodes r \<noteq> {}"
  then show "\<exists>n\<in>ring_nodes r. GetNode r pk = Some (Inr n)"
    using ring_Get_successor [of r pk] by (fastforce simp: ring_valid_def ring_nodes_def GetNode_def)
qed

end
