(* ===== verification/Transfer_Core.thy ===== *)
theory Transfer_Core
  imports Toolkit Model
begin

text \<open>
  \<open>modules/transfer\<close>: receiving points over RPC (\<open>receiver/rpc/rpc_transfer.go\<close>) and telnet
  (\<open>receiver/socket/socket_telnet.go\<close>), converting and aligning them, routing them by the
  consistent-hash rings to bounded queues (\<open>sender/sender.go\<close>, \<open>sender/send_queues.go\<close>,
  \<open>sender/node_rings.go\<close>) and one round of the forwarding tasks (\<open>sender/send_tasks.go\<close>). The
  outcome of a remote call is an argument of the round. The counters are those of
  \<open>proc/proc.go\<close> the code increments; the trace and filter taps of \<open>proc\<close> are left out.
\<close>

section \<open>Configuration and state\<close>

record transfer_config =
  tc_MinStep :: int
  tc_JudgeEnabled :: bool
  tc_GraphEnabled :: bool
  tc_TsdbEnabled :: bool
  tc_JudgeCluster :: "(string, string) gomap"
  tc_GraphCluster :: "(string, string) gomap"
  tc_JudgeReplicas :: int
  tc_GraphReplicas :: int
  tc_JudgeBatch :: int
  tc_GraphBatch :: int
  tc_TsdbBatch :: int
  tc_TsdbRetry :: int

record transfer_counters =
  pc_Recv :: int64
  pc_RpcRecv :: int64
  pc_HttpRecv :: int64
  pc_SocketRecv :: int64
  pc_ToJudge :: int64
  pc_ToGraph :: int64
  pc_ToTsdb :: int64
  pc_JudgeDrop :: int64
  pc_GraphDrop :: int64
  pc_TsdbDrop :: int64
  pc_JudgeFail :: int64
  pc_GraphFail :: int64
  pc_TsdbFail :: int64

record transfer_state =
  tx_MinStep :: int
  tx_JudgeRing :: ring
  tx_GraphRing :: ring
  tx_JudgeQueues :: "(string, judge_item safe_list_limited) gomap"
  tx_GraphQueues :: "(string, graph_item safe_list_limited) gomap"
  tx_TsdbQueue :: "tsdb_item safe_list_limited option"
  tx_proc :: transfer_counters

text \<open>\<open>g.ParseConfig\<close> splits the address lists of a cluster (\<open>formatClusterItems\<close>).\<close>

definition formatClusterItems :: "(string, string) gomap \<Rightarrow> (string, string list) gomap" where
  "formatClusterItems cluster = map (\<lambda>(node, clusterStr). (node, map go_trim_space (go_split (CHR '','') clusterStr))) cluster"

definition GraphClusterList :: "transfer_config \<Rightarrow> (string, string list) gomap" where
  "GraphClusterList cfg = formatClusterItems (tc_GraphCluster cfg)"

definition zero_counters :: transfer_counters where
  "zero_counters = \<lparr>pc_Recv = 0, pc_RpcRecv = 0, pc_HttpRecv = 0, pc_SocketRecv = 0, pc_ToJudge = 0, pc_ToGraph = 0,
    pc_ToTsdb = 0, pc_JudgeDrop = 0, pc_GraphDrop = 0, pc_TsdbDrop = 0, pc_JudgeFail = 0, pc_GraphFail = 0,
    pc_TsdbFail = 0\<rparr>"

definition DefaultSendQueueMaxSize :: int where
  "DefaultSendQueueMaxSize = 102400"

definition init_judge_queues :: "transfer_config \<Rightarrow> (string, judge_item safe_list_limited) gomap" where
  "init_judge_queues cfg =
    foldl (\<lambda>m (node, _). gput node (NewSafeListLimited DefaultSendQueueMaxSize) m) [] (tc_JudgeCluster cfg)"

definition init_graph_queues :: "transfer_config \<Rightarrow> (string, graph_item safe_list_limited) gomap" where
  "init_graph_queues cfg =
    foldl (\<lambda>m (node, addrs). foldl (\<lambda>m addr. gput (node @ addr) (NewSafeListLimited DefaultSendQueueMaxSize) m) m addrs)
      [] (GraphClusterList cfg)"

definition init_tsdb_queue :: "transfer_config \<Rightarrow> tsdb_item safe_list_limited option" where
  "init_tsdb_queue cfg =
    (if tc_TsdbEnabled cfg then Some (NewSafeListLimited DefaultSendQueueMaxSize) else None)"

text \<open>The replicas are converted to 32 bits on their way into the ring.\<close>

definition i32 :: "int \<Rightarrow> int" where
  "i32 x = signed_take_bit 31 x"

definition initNodeRings :: "transfer_config \<Rightarrow> (ring \<times> ring) option" where
  "initNodeRings cfg = do {
    j \<leftarrow> NewConsistentHashNodesRing (i32 (tc_JudgeReplicas cfg)) (KeysOfMap (tc_JudgeCluster cfg));
    g \<leftarrow> NewConsistentHashNodesRing (i32 (tc_GraphReplicas cfg)) (KeysOfMap (tc_GraphCluster cfg));
    Some (j, g)
  }"

definition transfer_Start :: "transfer_config \<Rightarrow> transfer_state option" where
  "transfer_Start cfg = do {
    (j, g) \<leftarrow> initNodeRings cfg;
    Some \<lparr>tx_MinStep = (if tc_MinStep cfg < 1 then 30 else tc_MinStep cfg), tx_JudgeRing = j, tx_GraphRing = g,
      tx_JudgeQueues = init_judge_queues cfg, tx_GraphQueues = init_graph_queues cfg,
      tx_TsdbQueue = init_tsdb_queue cfg, tx_proc = zero_counters\<rparr>
  }"

section \<open>Converting\<close>

definition GAUGE :: string where "GAUGE = ''GAUGE''"
definition COUNTER :: string where "COUNTER = ''COUNTER''"
definition DERIVE :: string where "DERIVE = ''DERIVE''"

definition alignTs :: "int64 \<Rightarrow> int64 \<Rightarrow> int64 option" where
  "alignTs ts period = do { r \<leftarrow> go_mod ts period; Some (i64 (ts - r)) }"

definition clamp_step :: "int \<Rightarrow> int64 \<Rightarrow> int" where
  "clamp_step minStep step = (if step < minStep then minStep else step)"

definition convert2JudgeItem :: "int \<Rightarrow> meta_data \<Rightarrow> judge_item option" where
  "convert2JudgeItem minStep d = do {
    ts \<leftarrow> alignTs (md_Timestamp d) (clamp_step minStep (md_Step d));
    Some \<lparr>ji_Endpoint = md_Endpoint d, ji_Metric = md_Metric d, ji_Value = md_Value d, ji_Timestamp = ts,
      ji_JudgeType = md_CounterType d, ji_Tags = md_Tags d\<rparr>
  }"

datatype convert_error = NotSupportedCounterType

definition convert2GraphItem :: "int \<Rightarrow> meta_data \<Rightarrow> (convert_error + graph_item) option" where
  "convert2GraphItem minStep d =
    (let step = clamp_step minStep (md_Step d);
         mk = (\<lambda>dsType mn ts. \<lparr>gi_Endpoint = md_Endpoint d, gi_Metric = md_Metric d, gi_Tags = md_Tags d,
           gi_Value = md_Value d, gi_Timestamp = ts, gi_DsType = dsType, gi_Step = step,
           gi_Heartbeat = i64 (step * 2), gi_Min = mn, gi_Max = ''U''\<rparr>)
     in if md_CounterType d = GAUGE then
          map_option (\<lambda>ts. Inr (mk GAUGE ''U'' ts)) (alignTs (md_Timestamp d) step)
        else if md_CounterType d = COUNTER then
          map_option (\<lambda>ts. Inr (mk DERIVE ''0'' ts)) (alignTs (md_Timestamp d) step)
        else if md_CounterType d = DERIVE then
          map_option (\<lambda>ts. Inr (mk DERIVE ''0'' ts)) (alignTs (md_Timestamp d) step)
        else Some (Inl NotSupportedCounterType))"

definition convert2TsdbItem :: "meta_data \<Rightarrow> tsdb_item" where
  "convert2TsdbItem d =
    \<lparr>ti_Metric = md_Metric d,
     ti_Tags = gput ''endpoint'' (md_Endpoint d) (foldl (\<lambda>m (k, v). gput k v m) [] (md_Tags d)),
     ti_Value = md_Value d, ti_Timestamp = md_Timestamp d\<rparr>"

section \<open>Queueing\<close>

definition Push2Judge_item :: "transfer_state \<Rightarrow> meta_data \<Rightarrow> transfer_state option" where
  "Push2Judge_item st item =
    (case GetNode (tx_JudgeRing st) (meta_PK item) of
       None \<Rightarrow> None
     | Some (Inl err) \<Rightarrow> Some st
     | Some (Inr node) \<Rightarrow> do {
         judgeItem \<leftarrow> convert2JudgeItem (tx_MinStep st) item;
         Q \<leftarrow> gget (tx_JudgeQueues st) node;
         (let (Q', isSuccess) = sl_PushFront judgeItem Q;
              st1 = st\<lparr>tx_JudgeQueues := gput node Q' (tx_JudgeQueues st)\<rparr>
          in Some (if isSuccess then st1
            else st1\<lparr>tx_proc := (tx_proc st)\<lparr>pc_JudgeDrop := i64 (pc_JudgeDrop (tx_proc st) + 1)\<rparr>\<rparr>))
       })"

definition Push2JudgeSendQueue :: "meta_data list \<Rightarrow> transfer_state \<Rightarrow> transfer_state option" where
  "Push2JudgeSendQueue items st = foldM Push2Judge_item st items"

definition push_addr ::
    "string \<Rightarrow> graph_item \<Rightarrow> (string, graph_item safe_list_limited) gomap \<times> int \<Rightarrow> string
      \<Rightarrow> ((string, graph_item safe_list_limited) gomap \<times> int) option" where
  "push_addr node graphItem qe addr =
    (case qe of (Qs, errCnt) \<Rightarrow> do {
       Q \<leftarrow> gget Qs (node @ addr);
       (let (Q', ok) = sl_PushFront graphItem Q
        in Some (gput (node @ addr) Q' Qs, if ok then errCnt else errCnt + 1))
     })"

definition Push2Graph_item :: "transfer_config \<Rightarrow> transfer_state \<Rightarrow> meta_data \<Rightarrow> transfer_state option" where
  "Push2Graph_item cfg st item =
    (case convert2GraphItem (tx_MinStep st) item of
       None \<Rightarrow> None
     | Some (Inl err) \<Rightarrow> Some st
     | Some (Inr graphItem) \<Rightarrow>
        (case GetNode (tx_GraphRing st) (meta_PK item) of
           None \<Rightarrow> None
         | Some (Inl err) \<Rightarrow> Some st
         | Some (Inr node) \<Rightarrow> do {
             addrs \<leftarrow> gget (GraphClusterList cfg) node;
             (Qs, errCnt) \<leftarrow> foldM (push_addr node graphItem) (tx_GraphQueues st, 0) addrs;
             let st1 = st\<lparr>tx_GraphQueues := Qs\<rparr>;
             Some (if 0 < errCnt
               then st1\<lparr>tx_proc := (tx_proc st)\<lparr>pc_GraphDrop := i64 (pc_GraphDrop (tx_proc st) + 1)\<rparr>\<rparr> else st1)
           }))"

definition Push2GraphSendQueue :: "transfer_config \<Rightarrow> meta_data list \<Rightarrow> transfer_state \<Rightarrow> transfer_state option" where
  "Push2GraphSendQueue cfg items st = foldM (Push2Graph_item cfg) st items"

definition Push2Tsdb_item :: "transfer_state \<Rightarrow> meta_data \<Rightarrow> transfer_state option" where
  "Push2Tsdb_item st item = do {
    Q \<leftarrow> tx_TsdbQueue st;
    (let (Q', isSuccess) = sl_PushFront (convert2TsdbItem item) Q;
         st1 = st\<lparr>tx_TsdbQueue := Some Q'\<rparr>
     in Some (if isSuccess then st1
       else st1\<lparr>tx_proc := (tx_proc st)\<lparr>pc_TsdbDrop := i64 (pc_TsdbDrop (tx_proc st) + 1)\<rparr>\<rparr>))
  }"

definition Push2TsdbSendQueue :: "meta_data list \<Rightarrow> transfer_state \<Rightarrow> transfer_state option" where
  "Push2TsdbSendQueue items st = foldM Push2Tsdb_item st items"

section \<open>Receiving\<close>

definition value_of_iface :: "iface \<Rightarrow> float64 option" where
  "value_of_iface v =
    (case v of
       VString s \<Rightarrow> (case parse_float s of Inl err \<Rightarrow> None | Inr f \<Rightarrow> Some f)
     | VFloat f \<Rightarrow> Some f
     | VInt i \<Rightarrow> Some (f_of_int i)
     | VOther \<Rightarrow> None)"

text \<open>One point: \<open>None\<close> when it is counted as invalid. A nil pointer in the batch is \<open>None\<close>.\<close>

definition recv_point :: "int64 \<Rightarrow> metric_value option \<Rightarrow> meta_data option" where
  "recv_point now arg =
    (case arg of
       None \<Rightarrow> None
     | Some v \<Rightarrow>
        if mv_Metric v = ''kernel.hostname'' then None
        else if mv_Metric v = '''' \<or> mv_Endpoint v = '''' then None
        else if mv_Type v \<noteq> COUNTER \<and> mv_Type v \<noteq> GAUGE \<and> mv_Type v \<noteq> DERIVE then None
        else if mv_Value v = VString '''' then None
        else if mv_Step v \<le> 0 then None
        else if 510 < length (mv_Metric v) + length (mv_Tags v) then None
        else
          (let ts = (if mv_Timestamp v \<le> 0 \<or> i64 (now * 2) < mv_Timestamp v then now else mv_Timestamp v)
           in map_option (\<lambda>vv. \<lparr>md_Metric = mv_Metric v, md_Endpoint = mv_Endpoint v, md_Timestamp = ts,
               md_Step = mv_Step v, md_Value = vv, md_CounterType = mv_Type v, md_Tags = DictedTagstring (mv_Tags v)\<rparr>)
             (value_of_iface (mv_Value v))))"

definition recv_points :: "int64 \<Rightarrow> metric_value option list \<Rightarrow> meta_data list \<times> int" where
  "recv_points now args =
    foldl (\<lambda>(items, invalid) arg. case recv_point now arg of
        None \<Rightarrow> (items, invalid + 1) | Some d \<Rightarrow> (items @ [d], invalid)) ([], 0) args"

definition count_recv :: "string \<Rightarrow> int \<Rightarrow> transfer_counters \<Rightarrow> transfer_counters" where
  "count_recv from cnt p =
    (let p1 = p\<lparr>pc_Recv := i64 (pc_Recv p + cnt)\<rparr>
     in if from = ''rpc'' then p1\<lparr>pc_RpcRecv := i64 (pc_RpcRecv p + cnt)\<rparr>
        else if from = ''http'' then p1\<lparr>pc_HttpRecv := i64 (pc_HttpRecv p + cnt)\<rparr>
        else p1)"

definition RecvMetricValues ::
    "transfer_config \<Rightarrow> int64 \<Rightarrow> int64 \<Rightarrow> string \<Rightarrow> metric_value option list \<Rightarrow> transfer_state
      \<Rightarrow> (transfer_state \<times> transfer_response) option" where
  "RecvMetricValues cfg now latency from args st = do {
    let (items, invalid) = recv_points now args;
    let st0 = st\<lparr>tx_proc := count_recv from (int (length items)) (tx_proc st)\<rparr>;
    st1 \<leftarrow> (if tc_GraphEnabled cfg then Push2GraphSendQueue cfg items st0 else Some st0);
    st2 \<leftarrow> (if tc_JudgeEnabled cfg then Push2JudgeSendQueue items st1 else Some st1);
    st3 \<leftarrow> (if tc_TsdbEnabled cfg then Push2TsdbSendQueue items st2 else Some st2);
    Some (st3, \<lparr>tr_Message = ''ok'', tr_Total = int (length args), tr_Invalid = invalid, tr_Latency = latency\<rparr>)
  }"

datatype line_error = NotEnoughFields | BadNumber num_error | InvalidCounterType | InvalidCounterStep

definition DEFAULT_STEP :: int64 where
  "DEFAULT_STEP = 60"

definition line_step :: "string list \<Rightarrow> line_error + int64" where
  "line_step flds =
    (if length flds = 6 then
      (let dst_args = go_split (CHR '':'') (flds ! 5) in
       if length dst_args = 1 then (case parse_int 64 (dst_args ! 0) of Inl e \<Rightarrow> Inl (BadNumber e) | Inr i \<Rightarrow> Inr i)
       else if length dst_args = 4 then (case parse_int 64 (dst_args ! 3) of Inl e \<Rightarrow> Inl (BadNumber e) | Inr i \<Rightarrow> Inr i)
       else Inl InvalidCounterStep)
     else Inr DEFAULT_STEP)"

definition convertLine2MetaData :: "string list \<Rightarrow> line_error + meta_data" where
  "convertLine2MetaData flds =
    (if length flds \<noteq> 4 \<and> length flds \<noteq> 5 \<and> length flds \<noteq> 6 then Inl NotEnoughFields
     else case parse_int 64 (flds ! 2) of Inl e \<Rightarrow> Inl (BadNumber e) | Inr ts \<Rightarrow>
     (case parse_float (flds ! 3) of Inl e \<Rightarrow> Inl (BadNumber e) | Inr v \<Rightarrow>
      (let typ = (if 5 \<le> length flds then flds ! 4 else COUNTER) in
       if typ \<noteq> DERIVE \<and> typ \<noteq> GAUGE \<and> typ \<noteq> COUNTER then Inl InvalidCounterType
       else case line_step flds of Inl e \<Rightarrow> Inl e | Inr step \<Rightarrow>
         Inr \<lparr>md_Metric = flds ! 1, md_Endpoint = flds ! 0, md_Timestamp = ts, md_Step = step, md_Value = v,
           md_CounterType = typ, md_Tags = []\<rparr>)))"

text \<open>
  The telnet session reads lines until the connection ends or the line \<open>quit\<close> comes; only then
  the points read so far are queued. \<open>ls\<close> are the lines \<open>ReadString\<close> returns, with their
  newline; the end of the list is the read error.
\<close>

fun telnet_items :: "string list \<Rightarrow> meta_data list" where
  "telnet_items [] = []"
| "telnet_items (l # ls) =
    (let line = go_trim (CHR ''\<newline>'') l; t = go_fields line in
     if line = ''quit'' then []
     else if line = '''' then telnet_items ls
     else if length t < 2 then telnet_items ls
     else if hd t \<noteq> ''update'' then telnet_items ls
     else (case convertLine2MetaData (tl t) of Inl err \<Rightarrow> telnet_items ls | Inr item \<Rightarrow> item # telnet_items ls))"

definition socketTelnetHandle :: "transfer_config \<Rightarrow> string list \<Rightarrow> transfer_state \<Rightarrow> transfer_state option" where
  "socketTelnetHandle cfg ls st = do {
    let items = telnet_items ls;
    let p = tx_proc st;
    let cnt = int (length items);
    let st0 = st\<lparr>tx_proc := p\<lparr>pc_SocketRecv := i64 (pc_SocketRecv p + cnt), pc_Recv := i64 (pc_Recv p + cnt)\<rparr>\<rparr>;
    st1 \<leftarrow> (if tc_GraphEnabled cfg then Push2GraphSendQueue cfg items st0 else Some st0);
    (if tc_JudgeEnabled cfg then Push2JudgeSendQueue items st1 else Some st1)
  }"

section \<open>Forwarding\<close>

text \<open>
  \<open>call i\<close> says whether the \<open>i\<close>-th attempt succeeds. The result is whether one did and how many
  were made.
\<close>

fun try_call :: "(nat \<Rightarrow> bool) \<Rightarrow> nat \<Rightarrow> nat \<Rightarrow> bool \<times> nat" where
  "try_call call made 0 = (False, made)"
| "try_call call made (Suc left) = (if call made then (True, Suc made) else try_call call (Suc made) left)"

text \<open>One round of a task: what it takes from the queue, how the call goes, and the counters.\<close>

definition forward2JudgeRound ::
    "transfer_config \<Rightarrow> string \<Rightarrow> (nat \<Rightarrow> bool) \<Rightarrow> transfer_state \<Rightarrow> (transfer_state \<times> judge_item list) option" where
  "forward2JudgeRound cfg node call st = do {
    Q \<leftarrow> gget (tx_JudgeQueues st) node;
    (items, Q') \<leftarrow> sl_PopBackBy (tc_JudgeBatch cfg) Q;
    let count = int (length items);
    let st1 = st\<lparr>tx_JudgeQueues := gput node Q' (tx_JudgeQueues st)\<rparr>;
    let p = tx_proc st;
    Some (if count = 0 then (st1, [])
      else if fst (try_call call 0 3) then (st1\<lparr>tx_proc := p\<lparr>pc_ToJudge := i64 (pc_ToJudge p + count)\<rparr>\<rparr>, items)
      else (st1\<lparr>tx_proc := p\<lparr>pc_JudgeFail := i64 (pc_JudgeFail p + count)\<rparr>\<rparr>, []))
  }"

definition forward2GraphRound ::
    "transfer_config \<Rightarrow> string \<Rightarrow> string \<Rightarrow> (nat \<Rightarrow> bool) \<Rightarrow> transfer_state
      \<Rightarrow> (transfer_state \<times> graph_item list) option" where
  "forward2GraphRound cfg node addr call st = do {
    Q \<leftarrow> gget (tx_GraphQueues st) (node @ addr);
    (items, Q') \<leftarrow> sl_PopBackBy (tc_GraphBatch cfg) Q;
    let count = int (length items);
    let st1 = st\<lparr>tx_GraphQueues := gput (node @ addr) Q' (tx_GraphQueues st)\<rparr>;
    let p = tx_proc st;
    Some (if count = 0 then (st1, [])
      else if fst (try_call call 0 3) then (st1\<lparr>tx_proc := p\<lparr>pc_ToGraph := i64 (pc_ToGraph p + count)\<rparr>\<rparr>, items)
      else (st1\<lparr>tx_proc := p\<lparr>pc_GraphFail := i64 (pc_GraphFail p + count)\<rparr>\<rparr>, []))
  }"

definition tsdb_buffer :: "tsdb_item list \<Rightarrow> string" where
  "tsdb_buffer items = concat (map (\<lambda>it. TsdbString it @ ''\<newline>'') items)"

text \<open>
  With no retries configured the loop body never runs and \<open>err\<close> stays nil: nothing is sent and
  nothing is counted.
\<close>

definition forward2TsdbRound ::
    "transfer_config \<Rightarrow> (nat \<Rightarrow> bool) \<Rightarrow> transfer_state \<Rightarrow> (transfer_state \<times> string option) option" where
  "forward2TsdbRound cfg call st = do {
    Q \<leftarrow> tx_TsdbQueue st;
    (items, Q') \<leftarrow> sl_PopBackBy (tc_TsdbBatch cfg) Q;
    let count = int (length items);
    let st1 = st\<lparr>tx_TsdbQueue := Some Q'\<rparr>;
    let p = tx_proc st;
    Some (if count = 0 \<or> tc_TsdbRetry cfg \<le> 0 then (st1, None)
      else if fst (try_call call 0 (nat (tc_TsdbRetry cfg)))
        then (st1\<lparr>tx_proc := p\<lparr>pc_ToTsdb := i64 (pc_ToTsdb p + count)\<rparr>\<rparr>, Some (tsdb_buffer items))
      else (st1\<lparr>tx_proc := p\<lparr>pc_TsdbFail := i64 (pc_TsdbFail p + count)\<rparr>\<rparr>, None))
  }"

definition calcSendCacheSize :: "('k, 'a safe_list_limited) gomap \<Rightarrow> int64" where
  "calcSendCacheSize m = foldl (\<lambda>cnt (_, Q). i64 (cnt + sl_Len Q)) 0 m"

end
