(* ===== verification/Transfer_Flow.thy ===== *)
theory Transfer_Flow
  imports Transfer_Core
begin

text \<open>
  Correctness of the transfer: what a valid point is, how it is aligned and converted, that the
  send queues exist for every node the rings can answer with, that points arrive in the queue
  of their node in order and are lost only when it is full, and what a forwarding round does.
\<close>

section \<open>Alignment and conversion\<close>

lemma alignTs_facts:
  assumes "0 \<le> ts" "in_i64 ts" "1 \<le> period" "in_i64 period"
  shows "alignTs ts period = Some (ts - ts mod period)"
proof -
  have "0 \<le> ts mod period" "ts mod period \<le> ts" using assms by (simp_all add: zmod_le_nonneg_dividend)
  then have "in_i64 (ts - ts mod period)" using assms unfolding in_i64_def by linarith
  then show ?thesis using go_mod_nonneg [OF assms(1) _ assms(4)] assms(3) by (simp add: alignTs_def i64_id)
qed

lemma alignTs_total: "period \<noteq> 0 \<Longrightarrow> \<exists>t. alignTs ts period = Some t"
  by (simp add: alignTs_def go_mod_def)

lemma clamp_step_pos: "1 \<le> m \<Longrightarrow> 1 \<le> clamp_step m s"
  by (simp add: clamp_step_def)

lemma clamp_step_i64: "in_i64 m \<Longrightarrow> in_i64 s \<Longrightarrow> in_i64 (clamp_step m s)"
  by (simp add: clamp_step_def)

text \<open>
  A point of a supported type becomes a graph item of the round-robin database's types: a
  counter and a derive are both stored as a non-negative \<open>DERIVE\<close>, a gauge as it is; the step
  is never below the minimum, and the time is the start of the point's step.
\<close>

theorem convert2GraphItem_correct:
  assumes "md_CounterType d \<in> {GAUGE, COUNTER, DERIVE}" "1 \<le> minStep" "in_i64 minStep" "in_i64 (md_Step d)"
    and "0 \<le> md_Timestamp d" "in_i64 (md_Timestamp d)"
  shows "\<exists>g. convert2GraphItem minStep d = Some (Inr g) \<and>
    gi_Endpoint g = md_Endpoint d \<and> gi_Metric g = md_Metric d \<and> gi_Tags g = md_Tags d \<and> gi_Value g = md_Value d \<and>
    gi_DsType g = (if md_CounterType d = GAUGE then GAUGE else DERIVE) \<and>
    gi_Min g = (if md_CounterType d = GAUGE then ''U'' else ''0'') \<and> gi_Max g = ''U'' \<and>
    gi_Step g = max minStep (md_Step d) \<and>
    gi_Timestamp g mod gi_Step g = 0 \<and> gi_Timestamp g \<le> md_Timestamp d \<and> md_Timestamp d < gi_Timestamp g + gi_Step g"
proof -
  let ?s = "clamp_step minStep (md_Step d)"
  have s: "1 \<le> ?s" "in_i64 ?s" "?s = max minStep (md_Step d)"
    using assms clamp_step_pos clamp_step_i64 by (auto simp: clamp_step_def)
  have "(md_Timestamp d - md_Timestamp d mod ?s) mod ?s = 0" by (simp add: mod_diff_right_eq)
  moreover have "md_Timestamp d mod ?s < ?s" "0 \<le> md_Timestamp d mod ?s" using s(1) by simp_all
  ultimately show ?thesis
    using assms(1) alignTs_facts [OF assms(5,6) s(1,2)] s(3)
    by (auto simp: convert2GraphItem_def Let_def GAUGE_def COUNTER_def DERIVE_def)
qed

definition demo_meta :: meta_data where
  "demo_meta = \<lparr>md_Metric = ''cpu'', md_Endpoint = ''h'', md_Timestamp = 125, md_Step = 60, md_Value = f_of_int 5,
    md_CounterType = ''COUNTER'', md_Tags = [(''k'', ''v'')]\<rparr>"

theorem convert2GraphItem_correct_witness:
  "\<exists>g. convert2GraphItem 30 demo_meta = Some (Inr g) \<and> gi_DsType g = ''DERIVE'' \<and> gi_Step g = 60 \<and>
    gi_Timestamp g mod 60 = 0 \<and> gi_Timestamp g \<le> 125"
  using convert2GraphItem_correct [of demo_meta 30]
  by (auto simp: demo_meta_def in_i64_def GAUGE_def COUNTER_def DERIVE_def)

section \<open>Validation\<close>

definition meta_valid :: "int64 \<Rightarrow> meta_data \<Rightarrow> bool" where
  "meta_valid now d \<longleftrightarrow> md_Metric d \<noteq> '''' \<and> md_Metric d \<noteq> ''kernel.hostname'' \<and> md_Endpoint d \<noteq> '''' \<and>
    md_CounterType d \<in> {GAUGE, COUNTER, DERIVE} \<and> 0 < md_Step d \<and> 0 < md_Timestamp d \<and>
    md_Timestamp d \<le> max now (i64 (now * 2)) \<and> length (md_Metric d) \<le> 510"

lemma recv_point_valid: "0 < now \<Longrightarrow> recv_point now arg = Some d \<Longrightarrow> meta_valid now d"
  by (auto simp: recv_point_def meta_valid_def Let_def split: option.splits if_splits)

lemma recv_points_eq:
  "recv_points now args = (List.map_filter (recv_point now) args,
    int (length args) - int (length (List.map_filter (recv_point now) args)))"
proof -
  have "foldl (\<lambda>(items, invalid) arg. case recv_point now arg of
        None \<Rightarrow> (items, invalid + 1) | Some d \<Rightarrow> (items @ [d], invalid)) (xs, n) args =
      (xs @ List.map_filter (recv_point now) args,
       n + (int (length args) - int (length (List.map_filter (recv_point now) args))))" for xs and n :: int
    by (induction args arbitrary: xs n) (auto simp: map_filter_simps split: option.split)
  from this [of "[]" 0] show ?thesis by (simp add: recv_points_def)
qed

section \<open>The queues of the nodes\<close>

definition judge_side_ok :: "transfer_state \<Rightarrow> bool" where
  "judge_side_ok st \<longleftrightarrow> 1 \<le> tx_MinStep st \<and> ring_valid (tx_JudgeRing st) \<and> ring_nodes (tx_JudgeRing st) \<noteq> {} \<and>
    (\<forall>n\<in>ring_nodes (tx_JudgeRing st). gget (tx_JudgeQueues st) n \<noteq> None)"

definition graph_side_ok :: "transfer_config \<Rightarrow> transfer_state \<Rightarrow> bool" where
  "graph_side_ok cfg st \<longleftrightarrow> 1 \<le> tx_MinStep st \<and> ring_valid (tx_GraphRing st) \<and> ring_nodes (tx_GraphRing st) \<noteq> {} \<and>
    (\<forall>n\<in>ring_nodes (tx_GraphRing st). \<exists>addrs. gget (GraphClusterList cfg) n = Some addrs \<and>
      (\<forall>a\<in>set addrs. gget (tx_GraphQueues st) (n @ a) \<noteq> None))"

definition tsdb_side_ok :: "transfer_state \<Rightarrow> bool" where
  "tsdb_side_ok st \<longleftrightarrow> tx_TsdbQueue st \<noteq> None"

definition judge_node :: "transfer_state \<Rightarrow> meta_data \<Rightarrow> string" where
  "judge_node st item = (case GetNode (tx_JudgeRing st) (meta_PK item) of Some (Inr n) \<Rightarrow> n | _ \<Rightarrow> '''')"

definition graph_node :: "transfer_state \<Rightarrow> meta_data \<Rightarrow> string" where
  "graph_node st item = (case GetNode (tx_GraphRing st) (meta_PK item) of Some (Inr n) \<Rightarrow> n | _ \<Rightarrow> '''')"

lemma judge_node_member:
  assumes "judge_side_ok st"
  shows "judge_node st item \<in> ring_nodes (tx_JudgeRing st) \<and>
    GetNode (tx_JudgeRing st) (meta_PK item) = Some (Inr (judge_node st item))"
  using assms chr.get_member [of "tx_JudgeRing st" "meta_PK item"] by (auto simp: judge_side_ok_def judge_node_def)

lemma graph_node_member:
  assumes "graph_side_ok cfg st"
  shows "graph_node st item \<in> ring_nodes (tx_GraphRing st) \<and>
    GetNode (tx_GraphRing st) (meta_PK item) = Some (Inr (graph_node st item))"
  using assms chr.get_member [of "tx_GraphRing st" "meta_PK item"] by (auto simp: graph_side_ok_def graph_node_def)

definition to_judge :: "int \<Rightarrow> meta_data \<Rightarrow> judge_item" where
  "to_judge minStep d = the (convert2JudgeItem minStep d)"

lemma convert2JudgeItem_total: "1 \<le> m \<Longrightarrow> convert2JudgeItem m d = Some (to_judge m d)"
  using alignTs_total [of "clamp_step m (md_Step d)" "md_Timestamp d"] clamp_step_pos [of m "md_Step d"]
  by (force simp: convert2JudgeItem_def to_judge_def)

lemma Push2Judge_item_step:
  assumes "judge_side_ok st"
  shows "\<exists>st' Q. Push2Judge_item st item = Some st' \<and> judge_side_ok st' \<and>
    gget (tx_JudgeQueues st) (judge_node st item) = Some Q \<and>
    gget (tx_JudgeQueues st') = (gget (tx_JudgeQueues st))(judge_node st item \<mapsto>
      fst (sl_PushFront (to_judge (tx_MinStep st) item) Q)) \<and>
    tx_JudgeRing st' = tx_JudgeRing st \<and> tx_MinStep st' = tx_MinStep st \<and> tx_GraphRing st' = tx_GraphRing st \<and>
    tx_GraphQueues st' = tx_GraphQueues st \<and> tx_TsdbQueue st' = tx_TsdbQueue st"
proof -
  note n = judge_node_member [OF assms, of item]
  then obtain Q where Q: "gget (tx_JudgeQueues st) (judge_node st item) = Some Q"
    using assms by (auto simp: judge_side_ok_def)
  have c: "convert2JudgeItem (tx_MinStep st) item = Some (to_judge (tx_MinStep st) item)"
    using assms by (intro convert2JudgeItem_total) (simp add: judge_side_ok_def)
  show ?thesis
    using n Q c assms
    by (cases "sl_PushFront (to_judge (tx_MinStep st) item) Q")
      (auto simp: Push2Judge_item_def Let_def gget_gput_fun judge_side_ok_def)
qed

text \<open>What one push leaves in the queue of node \<open>n\<close>.\<close>

definition pushed :: "'a list \<Rightarrow> 'a safe_list_limited \<Rightarrow> 'a safe_list_limited" where
  "pushed xs Q = foldl (\<lambda>Q x. fst (sl_PushFront x Q)) Q xs"

lemma pushed_pending:
  "rev (sl_items (pushed xs Q)) = rev (sl_items Q) @ take (nat (sl_max Q) - length (sl_items Q)) xs \<and>
    sl_max (pushed xs Q) = sl_max Q"
  using slq.push_many [of Q xs] by (simp add: pushed_def)

lemma Push2Judge_facts:
  assumes "judge_side_ok st"
  shows "\<exists>st'. Push2JudgeSendQueue items st = Some st' \<and> judge_side_ok st' \<and>
    tx_JudgeRing st' = tx_JudgeRing st \<and> tx_MinStep st' = tx_MinStep st \<and> tx_GraphRing st' = tx_GraphRing st \<and>
    tx_GraphQueues st' = tx_GraphQueues st \<and> tx_TsdbQueue st' = tx_TsdbQueue st \<and>
    (\<forall>n Q. gget (tx_JudgeQueues st) n = Some Q \<longrightarrow>
      gget (tx_JudgeQueues st') n =
        Some (pushed (map (to_judge (tx_MinStep st)) (filter (\<lambda>d. judge_node st d = n) items)) Q))"
  using assms
proof (induction items arbitrary: st)
  case (Cons item items)
  from Push2Judge_item_step [OF Cons.prems, of item] obtain st1 Q0 where
    s1: "Push2Judge_item st item = Some st1" "judge_side_ok st1"
      "gget (tx_JudgeQueues st) (judge_node st item) = Some Q0"
      "gget (tx_JudgeQueues st1) = (gget (tx_JudgeQueues st))(judge_node st item \<mapsto>
        fst (sl_PushFront (to_judge (tx_MinStep st) item) Q0))"
      "tx_JudgeRing st1 = tx_JudgeRing st" "tx_MinStep st1 = tx_MinStep st" "tx_GraphRing st1 = tx_GraphRing st"
      "tx_GraphQueues st1 = tx_GraphQueues st" "tx_TsdbQueue st1 = tx_TsdbQueue st" by blast
  have jn: "judge_node st1 d = judge_node st d" for d using s1(5) by (simp add: judge_node_def)
  from Cons.IH [OF s1(2)] s1 show ?case
    by (auto simp: Push2JudgeSendQueue_def pushed_def jn)
qed (simp add: Push2JudgeSendQueue_def pushed_def)

text \<open>
  C31: Points reach the queue of their judge node in the order they were received, none goes
  anywhere else, and a point is dropped only when its node's queue is full.
\<close>

theorem Push2Judge_routes_in_order:
  assumes "judge_side_ok st" "gget (tx_JudgeQueues st) n = Some Q"
  shows "\<exists>st' Q'. Push2JudgeSendQueue items st = Some st' \<and> gget (tx_JudgeQueues st') n = Some Q' \<and>
    rev (sl_items Q') = rev (sl_items Q) @ take (nat (sl_max Q) - length (sl_items Q))
      (map (to_judge (tx_MinStep st)) (filter (\<lambda>d. GetNode (tx_JudgeRing st) (meta_PK d) = Some (Inr n)) items))"
proof -
  have "(judge_node st d = n) = (GetNode (tx_JudgeRing st) (meta_PK d) = Some (Inr n))" for d
    using judge_node_member [OF assms(1), of d] by auto
  with Push2Judge_facts [OF assms(1), of items] assms(2) show ?thesis
    using pushed_pending by fastforce
qed

definition one_node_state :: transfer_state where
  "one_node_state = \<lparr>tx_MinStep = 30, tx_JudgeRing = the (NewConsistentHashNodesRing 1 [''j'']),
    tx_GraphRing = the (NewConsistentHashNodesRing 1 [''g'']), tx_JudgeQueues = [(''j'', NewSafeListLimited 2)],
    tx_GraphQueues = [(''ga:1'', NewSafeListLimited 2), (''gb:1'', NewSafeListLimited 2)],
    tx_TsdbQueue = Some (NewSafeListLimited 2), tx_proc = zero_counters\<rparr>"

lemma one_node_ring:
  "\<exists>c. NewConsistentHashNodesRing 1 [x] = Some c \<and> ring_valid c \<and> ring_nodes c = {x}"
proof -
  from NewRing_facts [of 1 "[x]"] obtain c where c: "NewConsistentHashNodesRing 1 [x] = Some c" "ring_ok c"
    "\<forall>n. gget (rg_members c) n \<noteq> None \<longrightarrow> n = x" "rg_circle c \<noteq> []" by auto
  have "gget (rg_members c) x = Some True"
    using c(1) ring_add_facts [OF New_ring_ok [of 1], of x]
    by (auto simp: NewConsistentHashNodesRing_def New_ring_def split: option.splits)
  with c show ?thesis by (auto simp: ring_valid_def ring_nodes_def)
qed

lemma one_node_judge:
  "judge_side_ok one_node_state \<and> GetNode (tx_JudgeRing one_node_state) pk = Some (Inr ''j'')"
proof -
  obtain c where c: "NewConsistentHashNodesRing 1 [''j''] = Some c" "ring_valid c" "ring_nodes c = {''j''}"
    using one_node_ring [of "''j''"] by blast
  have r: "tx_JudgeRing one_node_state = c" unfolding one_node_state_def by (simp only: transfer_state.simps c option.sel)
  have q: "gget (tx_JudgeQueues one_node_state) ''j'' \<noteq> None" "1 \<le> tx_MinStep one_node_state"
    by (simp_all add: one_node_state_def)
  show ?thesis using chr.get_member [OF c(2), of pk] unfolding judge_side_ok_def r c(3) using c(2) q by simp
qed

theorem Push2Judge_routes_in_order_witness:
  "\<exists>st' Q'. Push2JudgeSendQueue [demo_meta, demo_meta\<lparr>md_Timestamp := 200\<rparr>, demo_meta] one_node_state = Some st' \<and>
    gget (tx_JudgeQueues st') ''j'' = Some Q' \<and>
    rev (sl_items Q') = [to_judge 30 demo_meta, to_judge 30 (demo_meta\<lparr>md_Timestamp := 200\<rparr>)]"
proof -
  have q: "gget (tx_JudgeQueues one_node_state) ''j'' = Some (NewSafeListLimited 2)" "tx_MinStep one_node_state = 30"
    by (simp_all add: one_node_state_def)
  from Push2Judge_routes_in_order [OF _ q(1), of "[demo_meta, demo_meta\<lparr>md_Timestamp := 200\<rparr>, demo_meta]"]
  show ?thesis using one_node_judge unfolding q(2) by (simp add: NewSafeListLimited_def numeral_2_eq_2)
qed

end
