(* ===== verification/Transfer_Deliver.thy ===== *)
theory Transfer_Deliver
  imports Transfer_Flow
begin

text \<open>
  The transfer as a whole: what starting it establishes, that receiving a batch never panics and
  accounts for every point, replication to the graph addresses, and the forwarding rounds.
\<close>

section \<open>Replication to the graph nodes\<close>

definition to_graph :: "int \<Rightarrow> meta_data \<Rightarrow> graph_item option" where
  "to_graph m d = (case convert2GraphItem m d of Some (Inr g) \<Rightarrow> Some g | _ \<Rightarrow> None)"

definition graph_keys :: "transfer_config \<Rightarrow> transfer_state \<Rightarrow> meta_data \<Rightarrow> string list" where
  "graph_keys cfg st d = map (\<lambda>a. graph_node st d @ a) (the (gget (GraphClusterList cfg) (graph_node st d)))"

definition graph_pushes :: "transfer_config \<Rightarrow> transfer_state \<Rightarrow> string \<Rightarrow> meta_data \<Rightarrow> graph_item list" where
  "graph_pushes cfg st k d =
    (case to_graph (tx_MinStep st) d of None \<Rightarrow> [] | Some g \<Rightarrow> map (\<lambda>_. g) (filter (\<lambda>x. x = k) (graph_keys cfg st d)))"

lemma convert2GraphItem_total: "1 \<le> m \<Longrightarrow> convert2GraphItem m d \<noteq> None"
  using alignTs_total [of "clamp_step m (md_Step d)" "md_Timestamp d"] clamp_step_pos [of m "md_Step d"]
  by (force simp: convert2GraphItem_def Let_def)

lemma pushed_append: "pushed (xs @ ys) Q = pushed ys (pushed xs Q)"
  by (simp add: pushed_def)

lemma pushed_Nil [simp]: "pushed [] Q = Q"
  by (simp add: pushed_def)

lemma map_option_pushed_Nil [simp]: "map_option (pushed []) x = x"
  by (cases x) simp_all

lemma push_addr_all:
  assumes "\<forall>a\<in>set addrs. gget Qs (node @ a) \<noteq> None"
  shows "\<exists>Qs' e'. foldM (push_addr node g) (Qs, e) addrs = Some (Qs', e') \<and>
    (\<forall>k. gget Qs' k = map_option (pushed (map (\<lambda>_. g) (filter (\<lambda>a. node @ a = k) addrs))) (gget Qs k))"
  using assms
proof (induction addrs arbitrary: Qs e)
  case (Cons a addrs)
  then obtain Q where Q: "gget Qs (node @ a) = Some Q" by auto
  obtain Q' ok where p: "sl_PushFront g Q = (Q', ok)" by fastforce
  have "\<forall>a'\<in>set addrs. gget (gput (node @ a) Q' Qs) (node @ a') \<noteq> None" using Cons.prems by simp
  from Cons.IH [OF this, of "if ok then e else e + 1"] Q p show ?case
    by (auto simp: push_addr_def Let_def pushed_def)
qed simp

lemma Push2Graph_item_step:
  assumes "graph_side_ok cfg st"
  shows "\<exists>st'. Push2Graph_item cfg st item = Some st' \<and> graph_side_ok cfg st' \<and>
    (\<forall>k. gget (tx_GraphQueues st') k = map_option (pushed (graph_pushes cfg st k item)) (gget (tx_GraphQueues st) k)) \<and>
    tx_GraphRing st' = tx_GraphRing st \<and> tx_MinStep st' = tx_MinStep st \<and> tx_JudgeRing st' = tx_JudgeRing st \<and>
    tx_JudgeQueues st' = tx_JudgeQueues st \<and> tx_TsdbQueue st' = tx_TsdbQueue st"
proof -
  note n = graph_node_member [OF assms, of item]
  have "1 \<le> tx_MinStep st" using assms by (simp add: graph_side_ok_def)
  then obtain r where r: "convert2GraphItem (tx_MinStep st) item = Some r" using convert2GraphItem_total by blast
  show ?thesis
  proof (cases r)
    case (Inl e)
    then have "graph_pushes cfg st k item = []" for k using r by (simp add: graph_pushes_def to_graph_def)
    then show ?thesis using Inl r assms by (simp add: Push2Graph_item_def)
  next
    case (Inr g)
    from n assms obtain addrs where a: "gget (GraphClusterList cfg) (graph_node st item) = Some addrs"
      "\<forall>a\<in>set addrs. gget (tx_GraphQueues st) (graph_node st item @ a) \<noteq> None"
      by (auto simp: graph_side_ok_def)
    from push_addr_all [OF a(2), of g 0] obtain Qs e where
      f: "foldM (push_addr (graph_node st item) g) (tx_GraphQueues st, 0) addrs = Some (Qs, e)" and
      q: "\<forall>k. gget Qs k = map_option (pushed (map (\<lambda>_. g) (filter (\<lambda>a. graph_node st item @ a = k) addrs)))
        (gget (tx_GraphQueues st) k)" by blast
    have p: "graph_pushes cfg st k item = map (\<lambda>_. g) (filter (\<lambda>a. graph_node st item @ a = k) addrs)" for k
      using r Inr a(1) by (simp add: graph_pushes_def to_graph_def graph_keys_def filter_map comp_def)
    have "gget Qs k \<noteq> None \<longleftrightarrow> gget (tx_GraphQueues st) k \<noteq> None" for k using q by simp
    then have ok: "graph_side_ok cfg (st\<lparr>tx_GraphQueues := Qs\<rparr>)" using assms by (auto simp: graph_side_ok_def)
    let ?st1 = "st\<lparr>tx_GraphQueues := Qs\<rparr>"
    let ?st2 = "if 0 < e then ?st1\<lparr>tx_proc := (tx_proc st)\<lparr>pc_GraphDrop := i64 (pc_GraphDrop (tx_proc st) + 1)\<rparr>\<rparr>
      else ?st1"
    have "Push2Graph_item cfg st item = Some ?st2" using n r Inr a(1) f by (simp add: Push2Graph_item_def Let_def)
    then show ?thesis using ok q by (intro exI [of _ ?st2]) (simp add: p graph_side_ok_def)
  qed
qed

lemma Push2Graph_facts:
  assumes "graph_side_ok cfg st"
  shows "\<exists>st'. Push2GraphSendQueue cfg items st = Some st' \<and> graph_side_ok cfg st' \<and>
    tx_GraphRing st' = tx_GraphRing st \<and> tx_MinStep st' = tx_MinStep st \<and> tx_JudgeRing st' = tx_JudgeRing st \<and>
    tx_JudgeQueues st' = tx_JudgeQueues st \<and> tx_TsdbQueue st' = tx_TsdbQueue st \<and>
    (\<forall>k. gget (tx_GraphQueues st') k =
      map_option (pushed (concat (map (graph_pushes cfg st k) items))) (gget (tx_GraphQueues st) k))"
  using assms
proof (induction items arbitrary: st)
  case (Cons item items)
  from Push2Graph_item_step [OF Cons.prems, of item] obtain st1 where
    s1: "Push2Graph_item cfg st item = Some st1" "graph_side_ok cfg st1"
      "\<forall>k. gget (tx_GraphQueues st1) k = map_option (pushed (graph_pushes cfg st k item)) (gget (tx_GraphQueues st) k)"
      "tx_GraphRing st1 = tx_GraphRing st" "tx_MinStep st1 = tx_MinStep st" "tx_JudgeRing st1 = tx_JudgeRing st"
      "tx_JudgeQueues st1 = tx_JudgeQueues st" "tx_TsdbQueue st1 = tx_TsdbQueue st" by blast
  have "graph_keys cfg st1 d = graph_keys cfg st d" for d
    using s1(4) by (simp add: graph_keys_def graph_node_def)
  then have "graph_pushes cfg st1 k d = graph_pushes cfg st k d" for k d
    using s1(5) by (simp add: graph_pushes_def split: option.split)
  then have g: "graph_pushes cfg st1 = graph_pushes cfg st" by (simp add: fun_eq_iff)
  from Cons.IH [OF s1(2)] obtain st2 where
    s2: "Push2GraphSendQueue cfg items st1 = Some st2" "graph_side_ok cfg st2"
      "tx_GraphRing st2 = tx_GraphRing st1" "tx_MinStep st2 = tx_MinStep st1" "tx_JudgeRing st2 = tx_JudgeRing st1"
      "tx_JudgeQueues st2 = tx_JudgeQueues st1" "tx_TsdbQueue st2 = tx_TsdbQueue st1"
      "\<forall>k. gget (tx_GraphQueues st2) k =
        map_option (pushed (concat (map (graph_pushes cfg st1 k) items))) (gget (tx_GraphQueues st1) k)" by blast
  have "Push2GraphSendQueue cfg (item # items) st = Some st2" using s1(1) s2(1) by (simp add: Push2GraphSendQueue_def)
  moreover have "gget (tx_GraphQueues st2) k =
      map_option (pushed (concat (map (graph_pushes cfg st k) (item # items)))) (gget (tx_GraphQueues st) k)" for k
    using s1(3) s2(8) g by (cases "gget (tx_GraphQueues st) k") (simp_all add: pushed_append)
  ultimately show ?case using s1 s2 by simp
qed (simp add: Push2GraphSendQueue_def)

text \<open>
  C8: Points for the graphs go to every replica. Pushing a list of points returns, and the queue under a
  key (the name of a node followed by one of its addresses) then holds, oldest first, what it
  held before and after that, in the order of the list, the converted point once for each address of the
  point's own node on the hash ring that gives this key. A point whose type does not convert is
  queued nowhere. A queue takes as many as there is room for up to its bound and drops the rest,
  and what it takes does not depend on how full the queues of other addresses are. The transfer's
  side of the graphs must be set up (\<open>graph_side_ok\<close>, as \<open>transfer_Start_ok\<close> shows of its start): a step of
  at least one, a ring that is valid and not empty, and for every node on it addresses in the
  configuration with a queue for each.
\<close>

theorem Push2Graph_replicates:
  assumes "graph_side_ok cfg st" "gget (tx_GraphQueues st) k = Some Q"
  shows "\<exists>st' Q'. Push2GraphSendQueue cfg items st = Some st' \<and> gget (tx_GraphQueues st') k = Some Q' \<and>
    rev (sl_items Q') = rev (sl_items Q) @ take (nat (sl_max Q) - length (sl_items Q))
      (concat (map (\<lambda>d. case to_graph (tx_MinStep st) d of None \<Rightarrow> []
          | Some g \<Rightarrow> map (\<lambda>_. g) (filter (\<lambda>a. graph_node st d @ a = k)
              (the (gget (GraphClusterList cfg) (graph_node st d))))) items))"
proof -
  have "graph_pushes cfg st k = (\<lambda>d. case to_graph (tx_MinStep st) d of None \<Rightarrow> []
      | Some g \<Rightarrow> map (\<lambda>_. g) (filter (\<lambda>a. graph_node st d @ a = k) (the (gget (GraphClusterList cfg) (graph_node st d)))))"
    by (simp add: graph_pushes_def graph_keys_def filter_map comp_def fun_eq_iff split: option.split)
  with Push2Graph_facts [OF assms(1), of items] assms(2) show ?thesis using pushed_pending by fastforce
qed

definition demo_cluster :: transfer_config where
  "demo_cluster = \<lparr>tc_MinStep = 30, tc_JudgeEnabled = True, tc_GraphEnabled = True, tc_TsdbEnabled = True,
    tc_JudgeCluster = [(''j'', ''x:1'')], tc_GraphCluster = [(''g'', ''a:1, b:1'')], tc_JudgeReplicas = 1,
    tc_GraphReplicas = 1, tc_JudgeBatch = 2, tc_GraphBatch = 2, tc_TsdbBatch = 2, tc_TsdbRetry = 3\<rparr>"

lemma demo_cluster_list: "GraphClusterList demo_cluster = [(''g'', [''a:1'', ''b:1''])]"
  by code_simp

lemma one_node_graph:
  "graph_side_ok demo_cluster one_node_state \<and> graph_node one_node_state d = ''g''"
proof -
  obtain c where c: "NewConsistentHashNodesRing 1 [''g''] = Some c" "ring_valid c" "ring_nodes c = {''g''}"
    using one_node_ring [of "''g''"] by blast
  have r: "tx_GraphRing one_node_state = c" unfolding one_node_state_def by (simp only: transfer_state.simps c option.sel)
  have q: "gget (tx_GraphQueues one_node_state) (''g'' @ ''a:1'') \<noteq> None"
    "gget (tx_GraphQueues one_node_state) (''g'' @ ''b:1'') \<noteq> None" "1 \<le> tx_MinStep one_node_state"
    by (simp_all add: one_node_state_def)
  have ok: "graph_side_ok demo_cluster one_node_state"
    unfolding graph_side_ok_def r c(3) demo_cluster_list using c(2) q by simp
  then show ?thesis using graph_node_member [OF ok, of d] unfolding r c(3) by simp
qed

theorem Push2Graph_replicates_witness:
  "\<exists>st' Q' g. Push2GraphSendQueue demo_cluster [demo_meta] one_node_state = Some st' \<and>
    gget (tx_GraphQueues st') ''gb:1'' = Some Q' \<and> sl_items Q' = [g] \<and> gi_Timestamp g = 120"
proof -
  have q: "gget (tx_GraphQueues one_node_state) ''gb:1'' = Some (NewSafeListLimited 2)" "tx_MinStep one_node_state = 30"
    by (simp_all add: one_node_state_def)
  have "(case to_graph 30 demo_meta of None \<Rightarrow> False | Some g \<Rightarrow> gi_Timestamp g = 120)" by code_simp
  then obtain g where "to_graph 30 demo_meta = Some g" "gi_Timestamp g = 120" by (auto split: option.splits)
  with Push2Graph_replicates [OF _ q(1), of demo_cluster "[demo_meta]"] show ?thesis
    using one_node_graph [of demo_meta] unfolding q(2)
    by (auto simp: NewSafeListLimited_def demo_cluster_list)
qed

section \<open>Receiving a batch\<close>

lemma Push2Tsdb_facts:
  assumes "tx_TsdbQueue st = Some Q"
  shows "\<exists>st'. Push2TsdbSendQueue items st = Some st' \<and>
    tx_TsdbQueue st' = Some (pushed (map convert2TsdbItem items) Q) \<and>
    tx_GraphRing st' = tx_GraphRing st \<and> tx_MinStep st' = tx_MinStep st \<and> tx_JudgeRing st' = tx_JudgeRing st \<and>
    tx_JudgeQueues st' = tx_JudgeQueues st \<and> tx_GraphQueues st' = tx_GraphQueues st"
  using assms
proof (induction items arbitrary: st Q)
  case (Cons item items)
  obtain Q1 ok where p: "sl_PushFront (convert2TsdbItem item) Q = (Q1, ok)" by fastforce
  then obtain st1 where s1: "Push2Tsdb_item st item = Some st1" "tx_TsdbQueue st1 = Some Q1"
    "tx_GraphRing st1 = tx_GraphRing st" "tx_MinStep st1 = tx_MinStep st" "tx_JudgeRing st1 = tx_JudgeRing st"
    "tx_JudgeQueues st1 = tx_JudgeQueues st" "tx_GraphQueues st1 = tx_GraphQueues st"
    using Cons.prems by (auto simp: Push2Tsdb_item_def Let_def)
  from Cons.IH [OF s1(2)] s1 p show ?case by (auto simp: Push2TsdbSendQueue_def pushed_def)
qed (simp add: Push2TsdbSendQueue_def)

text \<open>What the process needs of a configuration's enabled back ends.\<close>

definition transfer_ok :: "transfer_config \<Rightarrow> transfer_state \<Rightarrow> bool" where
  "transfer_ok cfg st \<longleftrightarrow> (tc_JudgeEnabled cfg \<longrightarrow> judge_side_ok st) \<and> (tc_GraphEnabled cfg \<longrightarrow> graph_side_ok cfg st) \<and>
    (tc_TsdbEnabled cfg \<longrightarrow> tsdb_side_ok st)"

lemma transfer_ok_proc: "transfer_ok cfg (st\<lparr>tx_proc := p\<rparr>) = transfer_ok cfg st"
  by (simp add: transfer_ok_def judge_side_ok_def graph_side_ok_def tsdb_side_ok_def)

lemma push_stages:
  assumes "transfer_ok cfg st"
  shows "\<exists>st1 st2 st3.
    (if tc_GraphEnabled cfg then Push2GraphSendQueue cfg items st else Some st) = Some st1 \<and>
    (if tc_JudgeEnabled cfg then Push2JudgeSendQueue items st1 else Some st1) = Some st2 \<and>
    (if tc_TsdbEnabled cfg then Push2TsdbSendQueue items st2 else Some st2) = Some st3 \<and>
    transfer_ok cfg st2 \<and> transfer_ok cfg st3 \<and>
    (tc_TsdbEnabled cfg \<longrightarrow> tx_TsdbQueue st3 = map_option (pushed (map convert2TsdbItem items)) (tx_TsdbQueue st))"
proof -
  obtain st1 where s1: "(if tc_GraphEnabled cfg then Push2GraphSendQueue cfg items st else Some st) = Some st1"
    "transfer_ok cfg st1" "tx_TsdbQueue st1 = tx_TsdbQueue st"
  proof (cases "tc_GraphEnabled cfg")
    case True
    then have "graph_side_ok cfg st" using assms by (simp add: transfer_ok_def)
    from Push2Graph_facts [OF this, of items] obtain st1 where p: "Push2GraphSendQueue cfg items st = Some st1"
      "graph_side_ok cfg st1" "tx_JudgeRing st1 = tx_JudgeRing st" "tx_MinStep st1 = tx_MinStep st"
      "tx_JudgeQueues st1 = tx_JudgeQueues st" "tx_TsdbQueue st1 = tx_TsdbQueue st" by blast
    have "transfer_ok cfg st1" using assms p(2-6) by (simp add: transfer_ok_def judge_side_ok_def tsdb_side_ok_def)
    then show ?thesis using that [of st1] True p(1,6) by simp
  qed (use that assms in simp)
  obtain st2 where s2: "(if tc_JudgeEnabled cfg then Push2JudgeSendQueue items st1 else Some st1) = Some st2"
    "transfer_ok cfg st2" "tx_TsdbQueue st2 = tx_TsdbQueue st"
  proof (cases "tc_JudgeEnabled cfg")
    case True
    then have "judge_side_ok st1" using s1(2) by (simp add: transfer_ok_def)
    from Push2Judge_facts [OF this, of items] obtain st2 where p: "Push2JudgeSendQueue items st1 = Some st2"
      "judge_side_ok st2" "tx_GraphRing st2 = tx_GraphRing st1" "tx_MinStep st2 = tx_MinStep st1"
      "tx_GraphQueues st2 = tx_GraphQueues st1" "tx_TsdbQueue st2 = tx_TsdbQueue st1" by blast
    have "transfer_ok cfg st2" using s1(2) p(2-6) by (simp add: transfer_ok_def graph_side_ok_def tsdb_side_ok_def)
    then show ?thesis using that [of st2] True p(1,6) s1(3) by simp
  qed (use that s1(2,3) in simp)
  obtain st3 where s3: "(if tc_TsdbEnabled cfg then Push2TsdbSendQueue items st2 else Some st2) = Some st3"
    "transfer_ok cfg st3"
    "tc_TsdbEnabled cfg \<longrightarrow> tx_TsdbQueue st3 = map_option (pushed (map convert2TsdbItem items)) (tx_TsdbQueue st)"
  proof (cases "tc_TsdbEnabled cfg")
    case True
    then obtain Q where "tx_TsdbQueue st2 = Some Q" using s2(2) by (auto simp: transfer_ok_def tsdb_side_ok_def)
    from Push2Tsdb_facts [OF this, of items] obtain st3 where p: "Push2TsdbSendQueue items st2 = Some st3"
      "tx_TsdbQueue st3 = Some (pushed (map convert2TsdbItem items) Q)" "tx_GraphRing st3 = tx_GraphRing st2"
      "tx_MinStep st3 = tx_MinStep st2" "tx_JudgeRing st3 = tx_JudgeRing st2"
      "tx_JudgeQueues st3 = tx_JudgeQueues st2" "tx_GraphQueues st3 = tx_GraphQueues st2" by blast
    have "transfer_ok cfg st3"
      using s2(2) p(2-7) by (simp add: transfer_ok_def judge_side_ok_def graph_side_ok_def tsdb_side_ok_def)
    then show ?thesis using that [of st3] True p(1,2) s2(3) [symmetric] \<open>tx_TsdbQueue st2 = Some Q\<close> by simp
  qed (use that s2(2) in simp)
  show ?thesis using s1 s2 s3 by blast
qed

text \<open>
  C30: Receiving a batch returns, whatever is in it: every point is either accepted or counted as
  invalid, what is queued for TSDB are the accepted points in order, and the process stays
  able to receive.
\<close>

theorem RecvMetricValues_accounts:
  assumes "transfer_ok cfg st"
  shows "\<exists>st' reply. RecvMetricValues cfg now latency from args st = Some (st', reply) \<and> transfer_ok cfg st' \<and>
    tr_Total reply = int (length args) \<and>
    tr_Invalid reply = int (length (filter (\<lambda>arg. recv_point now arg = None) args)) \<and>
    (tc_TsdbEnabled cfg \<longrightarrow> tx_TsdbQueue st' =
      map_option (pushed (map convert2TsdbItem (List.map_filter (recv_point now) args))) (tx_TsdbQueue st))"
proof -
  let ?items = "List.map_filter (recv_point now) args"
  have inv: "int (length args) - int (length ?items) = int (length (filter (\<lambda>arg. recv_point now arg = None) args))"
    by (induction args) (auto simp: map_filter_simps split: option.split)
  from push_stages [of cfg "st\<lparr>tx_proc := count_recv from (int (length ?items)) (tx_proc st)\<rparr>" ?items] assms
  show ?thesis by (auto simp: RecvMetricValues_def recv_points_eq transfer_ok_proc inv)
qed

definition point :: "string \<Rightarrow> iface \<Rightarrow> metric_value" where
  "point m v = \<lparr>mv_Endpoint = ''h'', mv_Metric = m, mv_Value = v, mv_Step = 60, mv_Type = ''GAUGE'',
    mv_Tags = ''k=v'', mv_Timestamp = 125\<rparr>"

lemma one_node_transfer: "transfer_ok demo_cluster one_node_state"
  using one_node_judge one_node_graph by (simp add: transfer_ok_def tsdb_side_ok_def one_node_state_def)

theorem RecvMetricValues_accounts_witness:
  "\<exists>st' reply. RecvMetricValues demo_cluster 1000 2 ''rpc''
      [Some (point ''cpu'' (VInt 5)), None, Some (point ''cpu'' (VString ''x''))] one_node_state = Some (st', reply) \<and>
    tr_Total reply = 3 \<and> tr_Invalid reply = 2"
proof -
  let ?args = "[Some (point ''cpu'' (VInt 5)), None, Some (point ''cpu'' (VString ''x''))]"
  have "length (filter (\<lambda>arg. recv_point 1000 arg = None) ?args) = 2" by code_simp
  with RecvMetricValues_accounts [OF one_node_transfer, of 1000 2 "''rpc''" ?args] show ?thesis by fastforce
qed

text \<open>
  Every point that is accepted is well formed: it has a metric, an endpoint, a known type and
  a positive step, and a time that is positive and at most twice the receiver's clock.
\<close>

theorem recv_points_valid:
  assumes "0 < now"
  shows "list_all (meta_valid now) (fst (recv_points now args))"
proof -
  have "d \<in> set (List.map_filter (recv_point now) args) \<Longrightarrow> meta_valid now d" for d
    using recv_point_valid [OF assms] by (induction args) (auto simp: map_filter_simps split: option.splits)
  then show ?thesis by (simp add: recv_points_eq list_all_iff)
qed

theorem recv_points_valid_witness:
  "list_all (meta_valid 1000) (fst (recv_points 1000 [Some (point ''cpu'' (VInt 5)), Some (point '''' (VInt 5))])) \<and>
    length (fst (recv_points 1000 [Some (point ''cpu'' (VInt 5)), Some (point '''' (VInt 5))])) = 1"
proof -
  have "length (fst (recv_points 1000 [Some (point ''cpu'' (VInt 5)), Some (point '''' (VInt 5))])) = 1" by code_simp
  then show ?thesis
    using recv_points_valid [of 1000 "[Some (point ''cpu'' (VInt 5)), Some (point '''' (VInt 5))]"] by simp
qed

section \<open>Starting\<close>

lemma gget_foldl_gput:
  "gget (foldl (\<lambda>m (x, _). gput (f x) c m) m xs) k = (if k \<in> f ` fst ` set xs then Some c else gget m k)"
  by (induction xs arbitrary: m) auto

lemma gget_foldl_addrs:
  "gget (foldl (\<lambda>m a. gput (f a) c m) m as) k = (if k \<in> f ` set as then Some c else gget m k)"
  by (induction as arbitrary: m) auto

lemma init_graph_queues_lookup:
  "gget (init_graph_queues cfg) k =
    (if \<exists>(n, as)\<in>set (GraphClusterList cfg). \<exists>a\<in>set as. k = n @ a
     then Some (NewSafeListLimited DefaultSendQueueMaxSize) else None)"
proof -
  let ?Q = "NewSafeListLimited DefaultSendQueueMaxSize"
  have "gget (foldl (\<lambda>m (node, addrs). foldl (\<lambda>m addr. gput (node @ addr) ?Q m) m addrs) m xs) k =
      (if \<exists>(n, as)\<in>set xs. \<exists>a\<in>set as. k = n @ a then Some ?Q else gget m k)"
    for m :: "(string, graph_item safe_list_limited) gomap" and xs :: "(string \<times> string list) list"
    by (induction xs arbitrary: m) (auto simp: gget_foldl_addrs split: prod.split)
  from this [of "[]" "GraphClusterList cfg"] show ?thesis by (simp add: init_graph_queues_def)
qed

lemma ring_over:
  assumes "0 < r" "r < 2 ^ 31" "nodes \<noteq> []"
  shows "\<exists>c. NewConsistentHashNodesRing r nodes = Some c \<and> ring_valid c \<and> ring_nodes c \<noteq> {} \<and> ring_nodes c \<subseteq> set nodes"
proof -
  from NewRing_facts [OF assms(1,2), of nodes] assms(3) obtain c where
    c: "NewConsistentHashNodesRing r nodes = Some c" "ring_ok c" "rg_circle c \<noteq> []"
      "\<forall>n. gget (rg_members c) n \<noteq> None \<longrightarrow> n \<in> set nodes" by blast
  from ring_Get_successor [OF c(2,3), of "''''"] have "ring_nodes c \<noteq> {}" by (auto simp: ring_nodes_def)
  with c show ?thesis by (auto simp: ring_valid_def ring_nodes_def)
qed

lemma i32_id: "0 \<le> r \<Longrightarrow> r < 2 ^ 31 \<Longrightarrow> i32 r = r"
  by (simp add: i32_def signed_take_bit_int_eq_self)

text \<open>
  Starting with non-empty judge and graph clusters gives a process in which every node a ring
  can name has its queues, so that \<open>RecvMetricValues_accounts\<close> and the routing theorems apply.
\<close>

theorem transfer_Start_ok:
  assumes "gomap_ok (tc_JudgeCluster cfg)" "gomap_ok (tc_GraphCluster cfg)"
    and "tc_JudgeCluster cfg \<noteq> []" "tc_GraphCluster cfg \<noteq> []"
    and "0 < tc_JudgeReplicas cfg" "tc_JudgeReplicas cfg < 2 ^ 31"
    and "0 < tc_GraphReplicas cfg" "tc_GraphReplicas cfg < 2 ^ 31"
  shows "\<exists>st. transfer_Start cfg = Some st \<and> transfer_ok cfg st"
proof -
  have len: "length (KeysOfMap m) = length m" for m :: "(string, string) gomap" by (simp add: KeysOfMap_def)
  have keys: "set (KeysOfMap m) = fst ` set m" "m \<noteq> [] \<longrightarrow> KeysOfMap m \<noteq> []" for m :: "(string, string) gomap"
    using len [of m] by (simp_all add: KeysOfMap_def) (metis length_0_conv len KeysOfMap_def)
  obtain j where j: "NewConsistentHashNodesRing (tc_JudgeReplicas cfg) (KeysOfMap (tc_JudgeCluster cfg)) = Some j"
    "ring_valid j" "ring_nodes j \<noteq> {}" "ring_nodes j \<subseteq> fst ` set (tc_JudgeCluster cfg)"
    using ring_over [OF assms(5,6), of "KeysOfMap (tc_JudgeCluster cfg)"] keys assms(3) by auto
  obtain g where g: "NewConsistentHashNodesRing (tc_GraphReplicas cfg) (KeysOfMap (tc_GraphCluster cfg)) = Some g"
    "ring_valid g" "ring_nodes g \<noteq> {}" "ring_nodes g \<subseteq> fst ` set (tc_GraphCluster cfg)"
    using ring_over [OF assms(7,8), of "KeysOfMap (tc_GraphCluster cfg)"] keys assms(4) by auto
  have "\<exists>addrs. gget (GraphClusterList cfg) n = Some addrs \<and> (\<forall>a\<in>set addrs. gget (init_graph_queues cfg) (n @ a) \<noteq> None)"
    if "n \<in> ring_nodes g" for n
  proof -
    have "n \<in> fst ` set (GraphClusterList cfg)"
      using that g(4) by (force simp: GraphClusterList_def formatClusterItems_def)
    then obtain addrs where "gget (GraphClusterList cfg) n = Some addrs" by (metis weak_map_of_SomeI imageE prod.collapse)
    then show ?thesis using map_of_SomeD by (fastforce simp: init_graph_queues_lookup)
  qed
  moreover have "gget (init_judge_queues cfg) n \<noteq> None" if "n \<in> ring_nodes j" for n
    using that j(4) gget_foldl_gput [of "\<lambda>x. x" "NewSafeListLimited DefaultSendQueueMaxSize :: judge_item safe_list_limited" "[]" "tc_JudgeCluster cfg" n]
    by (auto simp: init_judge_queues_def)
  ultimately show ?thesis
    using j g assms(5-8)
    by (simp add: transfer_Start_def initNodeRings_def i32_id transfer_ok_def judge_side_ok_def graph_side_ok_def
        tsdb_side_ok_def init_tsdb_queue_def)
qed

theorem transfer_Start_ok_witness: "\<exists>st. transfer_Start demo_cluster = Some st \<and> transfer_ok demo_cluster st"
  using transfer_Start_ok [of demo_cluster] by (simp add: demo_cluster_def gomap_ok_def)

section \<open>Forwarding\<close>

lemma try_call_ok: "fst (try_call call k n) \<longleftrightarrow> (\<exists>i<n. call (k + i))"
proof (induction n arbitrary: k)
  case (Suc n)
  show ?case using Suc [of "Suc k"] by (auto simp: less_Suc_eq_0_disj)
qed simp

lemma try_call_made: "snd (try_call call k n) \<le> k + n"
proof (induction n arbitrary: k)
  case (Suc n)
  show ?case using Suc [of "Suc k"] by simp
qed simp

text \<open>
  A forwarding round takes the oldest points of the node's queue, at most a batch, tries the
  judge at most three times, and counts every point it took either as sent or as failed;
  the points are delivered exactly when one of the attempts succeeds.
\<close>

theorem forward2Judge_accounts:
  assumes "gget (tx_JudgeQueues st) node = Some Q" "0 \<le> tc_JudgeBatch cfg"
  shows "\<exists>st' Q' taken sent. forward2JudgeRound cfg node call st = Some (st', sent) \<and>
    gget (tx_JudgeQueues st') node = Some Q' \<and> rev (sl_items Q) = taken @ rev (sl_items Q') \<and>
    length taken = min (nat (tc_JudgeBatch cfg)) (length (sl_items Q)) \<and>
    sent = (if call 0 \<or> call 1 \<or> call 2 then taken else []) \<and>
    (taken \<noteq> [] \<longrightarrow> tx_proc st' = (if call 0 \<or> call 1 \<or> call 2
      then (tx_proc st)\<lparr>pc_ToJudge := i64 (pc_ToJudge (tx_proc st) + int (length taken))\<rparr>
      else (tx_proc st)\<lparr>pc_JudgeFail := i64 (pc_JudgeFail (tx_proc st) + int (length taken))\<rparr>))"
proof -
  from slq.pop_total [OF assms(2), of Q] obtain taken Q' where
    p: "sl_PopBackBy (tc_JudgeBatch cfg) Q = Some (taken, Q')" by auto
  have c: "rev (sl_items Q) = taken @ rev (sl_items Q')" "length taken = min (nat (tc_JudgeBatch cfg)) (length (sl_items Q))"
    using slq.pop_pending [OF p] slq.pop_length [OF assms(2) p, unfolded length_rev] by blast+
  have t: "fst (try_call call 0 3) \<longleftrightarrow> call 0 \<or> call 1 \<or> call 2"
    by (auto simp: try_call_ok less_Suc_eq numeral_3_eq_3 numeral_2_eq_2)
  let ?st1 = "st\<lparr>tx_JudgeQueues := gput node Q' (tx_JudgeQueues st)\<rparr>"
  show ?thesis
  proof (cases "taken = []")
    case True
    then have "forward2JudgeRound cfg node call st = Some (?st1, [])"
      using p assms(1) by (simp add: forward2JudgeRound_def)
    then show ?thesis using c True by (intro exI [of _ ?st1] exI [of _ Q'] exI [of _ taken] exI [of _ "[]"]) simp
  next
    case False
    let ?ok = "call 0 \<or> call 1 \<or> call 2"
    let ?p = "if ?ok then (tx_proc st)\<lparr>pc_ToJudge := i64 (pc_ToJudge (tx_proc st) + int (length taken))\<rparr>
      else (tx_proc st)\<lparr>pc_JudgeFail := i64 (pc_JudgeFail (tx_proc st) + int (length taken))\<rparr>"
    have "forward2JudgeRound cfg node call st = Some (?st1\<lparr>tx_proc := ?p\<rparr>, if ?ok then taken else [])"
      using p assms(1) t False by (simp add: forward2JudgeRound_def Let_def)
    then show ?thesis using c
      by (intro exI [of _ "?st1\<lparr>tx_proc := ?p\<rparr>"] exI [of _ Q'] exI [of _ taken] exI [of _ "if ?ok then taken else []"])
        simp
  qed
qed

theorem forward2Judge_accounts_witness:
  "\<exists>st' sent. forward2JudgeRound demo_cluster ''j'' (\<lambda>i. i = 1)
      (one_node_state\<lparr>tx_JudgeQueues := [(''j'', \<lparr>sl_max = 5, sl_items = [to_judge 30 demo_meta]\<rparr>)]\<rparr>) = Some (st', sent) \<and>
    sent = [to_judge 30 demo_meta]"
proof -
  let ?st = "one_node_state\<lparr>tx_JudgeQueues := [(''j'', \<lparr>sl_max = 5, sl_items = [to_judge 30 demo_meta]\<rparr>)]\<rparr>"
  have q: "gget (tx_JudgeQueues ?st) ''j'' = Some \<lparr>sl_max = 5, sl_items = [to_judge 30 demo_meta]\<rparr>" by simp
  have b: "tc_JudgeBatch demo_cluster = 2" by (simp add: demo_cluster_def)
  have "0 \<le> tc_JudgeBatch demo_cluster" by (simp add: b)
  from forward2Judge_accounts [OF q this, of "\<lambda>i. i = 1"] obtain st' and Q' :: "judge_item safe_list_limited" and taken sent where
    r: "forward2JudgeRound demo_cluster ''j'' (\<lambda>i. i = 1) ?st = Some (st', sent)"
      "rev (sl_items \<lparr>sl_max = 5, sl_items = [to_judge 30 demo_meta]\<rparr>) = taken @ rev (sl_items Q')"
      "length taken = min (nat (tc_JudgeBatch demo_cluster)) (length (sl_items \<lparr>sl_max = 5, sl_items = [to_judge 30 demo_meta]\<rparr>))"
      "sent = (if 0 = (1 :: nat) \<or> 1 = (1 :: nat) \<or> 2 = (1 :: nat) then taken else [])"
    by (elim exE conjE) (rule that, assumption+)
  have "length taken = 1" using r(3) by (simp add: b)
  then have "taken = [to_judge 30 demo_meta]" using r(2) by (cases taken) auto
  with r(1,4) show ?thesis by simp
qed

section \<open>The telnet line\<close>

text \<open>
  A telnet line of four fields is a counter of step 60: the type defaults to \<open>COUNTER\<close>,
  although the comment above the function promises \<open>DERIVE\<close>.
\<close>

theorem convertLine_defaults:
  assumes "in_i64 ts"
  shows "convertLine2MetaData [ep, m, itoa ts, v] =
    (case parse_float v of Inl e \<Rightarrow> Inl (BadNumber e)
     | Inr f \<Rightarrow> Inr \<lparr>md_Metric = m, md_Endpoint = ep, md_Timestamp = ts, md_Step = 60, md_Value = f,
         md_CounterType = ''COUNTER'', md_Tags = []\<rparr>)"
  using parse_int_itoa [of 64 ts] assms [unfolded in_i64_def]
  by (auto simp: convertLine2MetaData_def line_step_def COUNTER_def DERIVE_def GAUGE_def DEFAULT_STEP_def
      split: sum.split)

theorem convertLine_defaults_witness:
  "\<exists>d. convertLine2MetaData [''h'', ''cpu'', itoa 125, ''5''] = Inr d \<and> md_CounterType d = ''COUNTER'' \<and> md_Step d = 60"
proof -
  have "(case parse_float ''5'' of Inl _ \<Rightarrow> False | Inr _ \<Rightarrow> True)" by code_simp
  then show ?thesis using convertLine_defaults [of 125 "''h''" "''cpu''" "''5''"]
    by (auto simp: in_i64_def split: sum.splits)
qed

end
