(* ===== verification/Alarm_Core.thy ===== *)
theory Alarm_Core
  imports Judge_Engine
begin

text \<open>
  The alarm consumer (\<open>modules/alarm\<close>): it takes events from Redis, files them in the database,
  looks up who is to be told, and writes messages: events of high priority at once, those of
  low priority to queues of users that a combiner empties every minute. A list of Redis is
  a list with its left end first: \<open>LPUSH\<close> is \<open>#\<close> and \<open>RPOP\<close> takes the last. What an element
  decodes to is kept with it; JSON itself is not modelled, and neither are the sends of
  the messages over HTTP. The answers of the environment during one handler are the fields of
  \<open>alarm_env\<close>.
\<close>

section \<open>Messages and state\<close>

text \<open>\<open>Blank\<close> is the empty text or \<open>nil\<close>, \<open>Garbage\<close> one that does not decode.\<close>

datatype 'a reply = Blank | Garbage | Decoded 'a

record sms =
  sm_Tos :: string
  sm_Content :: string

record im =
  im_Tos :: string
  im_Content :: string

record mail =
  ma_Tos :: string
  ma_Subject :: string
  ma_Content :: string

record mail_dto =
  mt_Priority :: int
  mt_Metric :: string
  mt_Subject :: string
  mt_Content :: string
  mt_Email :: string
  mt_Status :: string

record sms_dto =
  sd_Priority :: int
  sd_Metric :: string
  sd_Content :: string
  sd_Phone :: string
  sd_Status :: string

record im_dto =
  it_Priority :: int
  it_Metric :: string
  it_Content :: string
  it_IM :: string
  it_Status :: string

record action =
  ac_Id :: int
  ac_Uic :: string
  ac_Url :: string
  ac_Callback :: int
  ac_BeforeCallbackSms :: int
  ac_BeforeCallbackMail :: int
  ac_AfterCallbackSms :: int
  ac_AfterCallbackMail :: int

record user =
  us_Name :: string
  us_Phone :: string
  us_Email :: string
  us_IM :: string

text \<open>The printed condition of an event is kept as its three parts, a time as its seconds.\<close>

record event_case =
  ec_Id :: string
  ec_Endpoint :: string
  ec_Metric :: string
  ec_Func :: string
  ec_Cond :: "float64 \<times> string \<times> float64"
  ec_Note :: string
  ec_MaxStep :: int
  ec_CurrentStep :: int
  ec_Priority :: int
  ec_Status :: string
  ec_Timestamp :: int64
  ec_UpdateAt :: int64
  ec_ProcessNote :: int
  ec_ProcessStatus :: string
  ec_TplCreator :: string
  ec_ExpressionId :: int
  ec_StrategyId :: int
  ec_TemplateId :: int

record event_row =
  er_EventCaseId :: string
  er_Step :: int
  er_Cond :: "float64 \<times> string \<times> float64"
  er_Status :: int
  er_Timestamp :: int64

record alarm_state =
  al_Events :: "(string, event reply list) gomap"
  al_UserSms :: "sms_dto reply list"
  al_UserIM :: "im_dto reply list"
  al_UserMail :: "mail_dto reply list"
  al_Sms :: "sms reply list"
  al_IM :: "im reply list"
  al_Mail :: "mail reply list"
  al_Actions :: "(int, action) gomap"
  al_Users :: "(string, user list) gomap"
  al_Cases :: "(string, event_case) gomap"
  al_Rows :: "event_row list"

record callback_params =
  cb_Url :: string
  cb_endpoint :: string
  cb_metric :: string
  cb_status :: string
  cb_step :: string
  cb_priority :: string
  cb_time :: string
  cb_tpl_id :: string
  cb_exp_id :: string
  cb_stra_id :: string
  cb_tags :: string

text \<open>
  The environment of one handler: the printing of times, the answers of the HTTP services (\<open>None\<close>
  is an error, for a team also a null list), which of the six message queues take an
  \<open>LPUSH\<close>, the visiting orders of the users and of the sets, and the configured dashboard.
\<close>

datatype message_queue = QSms | QIM | QMail | QUserSms | QUserIM | QUserMail

record alarm_env =
  ae_time :: "int64 \<Rightarrow> string"
  ae_action :: "int \<Rightarrow> action option"
  ae_team :: "string \<Rightarrow> user list option"
  ae_callback :: "callback_params \<Rightarrow> string \<times> string option"
  ae_link :: "string \<Rightarrow> string + string"
  ae_lpush :: "message_queue \<Rightarrow> bool"
  ae_users :: "(string, user) gomap \<Rightarrow> (string, user) gomap"
  ae_slice :: "string list \<Rightarrow> string list"
  ae_Dashboard :: string

section \<open>Writing and popping messages\<close>

definition WriteSms :: "alarm_env \<Rightarrow> string list \<Rightarrow> string \<Rightarrow> alarm_state \<Rightarrow> alarm_state" where
  "WriteSms env tos content st =
    (if tos = [] then st
     else if ae_lpush env QSms
     then st\<lparr>al_Sms := Decoded \<lparr>sm_Tos = go_join '','' tos, sm_Content = content\<rparr> # al_Sms st\<rparr>
     else st)"

definition WriteIM :: "alarm_env \<Rightarrow> string list \<Rightarrow> string \<Rightarrow> alarm_state \<Rightarrow> alarm_state" where
  "WriteIM env tos content st =
    (if tos = [] then st
     else if ae_lpush env QIM
     then st\<lparr>al_IM := Decoded \<lparr>im_Tos = go_join '','' tos, im_Content = content\<rparr> # al_IM st\<rparr>
     else st)"

definition WriteMail :: "alarm_env \<Rightarrow> string list \<Rightarrow> string \<Rightarrow> string \<Rightarrow> alarm_state \<Rightarrow> alarm_state" where
  "WriteMail env tos subject content st =
    (if tos = [] then st
     else if ae_lpush env QMail
     then st\<lparr>al_Mail := Decoded \<lparr>ma_Tos = go_join '','' tos, ma_Subject = subject, ma_Content = content\<rparr> # al_Mail st\<rparr>
     else st)"

text \<open>The loop of all \<open>popAll\<close> functions; \<open>n\<close> pops succeed before the connection fails.\<close>

fun pop_all_loop :: "nat \<Rightarrow> 'a list \<Rightarrow> 'a reply list \<Rightarrow> 'a list \<times> 'a reply list" where
  "pop_all_loop 0 ret q = (ret, q)"
| "pop_all_loop (Suc n) ret q =
    (if q = [] then (ret, q)
     else case last q of
       Decoded d \<Rightarrow> pop_all_loop n (ret @ [d]) (butlast q)
     | _ \<Rightarrow> pop_all_loop n ret (butlast q))"

definition PopAllSms :: "nat \<Rightarrow> alarm_state \<Rightarrow> sms list \<times> alarm_state" where
  "PopAllSms n st = (let (ret, q) = pop_all_loop n [] (al_Sms st) in (ret, st\<lparr>al_Sms := q\<rparr>))"

definition PopAllIM :: "nat \<Rightarrow> alarm_state \<Rightarrow> im list \<times> alarm_state" where
  "PopAllIM n st = (let (ret, q) = pop_all_loop n [] (al_IM st) in (ret, st\<lparr>al_IM := q\<rparr>))"

definition PopAllMail :: "nat \<Rightarrow> alarm_state \<Rightarrow> mail list \<times> alarm_state" where
  "PopAllMail n st = (let (ret, q) = pop_all_loop n [] (al_Mail st) in (ret, st\<lparr>al_Mail := q\<rparr>))"

definition popAllSmsDto :: "nat \<Rightarrow> alarm_state \<Rightarrow> sms_dto list \<times> alarm_state" where
  "popAllSmsDto n st = (let (ret, q) = pop_all_loop n [] (al_UserSms st) in (ret, st\<lparr>al_UserSms := q\<rparr>))"

definition popAllImDto :: "nat \<Rightarrow> alarm_state \<Rightarrow> im_dto list \<times> alarm_state" where
  "popAllImDto n st = (let (ret, q) = pop_all_loop n [] (al_UserIM st) in (ret, st\<lparr>al_UserIM := q\<rparr>))"

definition popAllMailDto :: "nat \<Rightarrow> alarm_state \<Rightarrow> mail_dto list \<times> alarm_state" where
  "popAllMailDto n st = (let (ret, q) = pop_all_loop n [] (al_UserMail st) in (ret, st\<lparr>al_UserMail := q\<rparr>))"

section \<open>Texts\<close>

definition alarm_text :: "alarm_env \<Rightarrow> event \<Rightarrow> string option" where
  "alarm_text env ev = do {
    p \<leftarrow> Priority ev;
    note \<leftarrow> Note ev;
    func \<leftarrow> Func ev;
    metric \<leftarrow> Metric ev;
    op \<leftarrow> Operator ev;
    rv \<leftarrow> RightValue ev;
    Some (''[P'' @ itoa p @ ''][''
      @ ev_Status ev @ ''][''
      @ ev_Endpoint ev @ ''][][''
      @ note @ '' '' @ func @ '' '' @ metric @ '' '' @ SortedTags (ev_PushedTags ev) @ '' ''
      @ ReadableFloat (ev_LeftValue ev) @ op @ ReadableFloat rv @ ''][O''
      @ itoa (ev_CurrentStep ev) @ '' '' @ ae_time env (ev_EventTime ev) @ '']'')
  }"

definition BuildCommonSMSContent :: "alarm_env \<Rightarrow> event \<Rightarrow> string option" where
  "BuildCommonSMSContent env ev = alarm_text env ev"

definition BuildCommonIMContent :: "alarm_env \<Rightarrow> event \<Rightarrow> string option" where
  "BuildCommonIMContent env ev = alarm_text env ev"

definition Link :: "alarm_env \<Rightarrow> event \<Rightarrow> string option" where
  "Link env ev = do {
    tplId \<leftarrow> TplId ev;
    Some (if tplId \<noteq> 0 then ae_Dashboard env @ ''/portal/template/view/'' @ itoa tplId
      else let eid = ExpressionId ev in
        if eid \<noteq> 0 then ae_Dashboard env @ ''/portal/expression/view/'' @ itoa eid else '''')
  }"

definition crlf :: string where
  "crlf = [char_of (13 :: nat), char_of (10 :: nat)]"

definition BuildCommonMailContent :: "alarm_env \<Rightarrow> event \<Rightarrow> string option" where
  "BuildCommonMailContent env ev = do {
    link \<leftarrow> Link env ev;
    p \<leftarrow> Priority ev;
    metric \<leftarrow> Metric ev;
    func \<leftarrow> Func ev;
    op \<leftarrow> Operator ev;
    rv \<leftarrow> RightValue ev;
    note \<leftarrow> Note ev;
    mx \<leftarrow> MaxStep ev;
    Some (ev_Status ev @ crlf @ ''P'' @ itoa p @ crlf @ ''Endpoint:'' @ ev_Endpoint ev @ crlf @ ''Metric:'' @ metric
      @ crlf @ ''Tags:'' @ SortedTags (ev_PushedTags ev) @ crlf @ func @ '': '' @ ReadableFloat (ev_LeftValue ev)
      @ op @ ReadableFloat rv @ crlf @ ''Note:'' @ note @ crlf @ ''Max:'' @ itoa mx @ '', Current:''
      @ itoa (ev_CurrentStep ev) @ crlf @ ''Timestamp:'' @ ae_time env (ev_EventTime ev) @ crlf @ link @ crlf)
  }"

section \<open>Actions and users\<close>

definition CurlAction :: "alarm_env \<Rightarrow> int \<Rightarrow> action option" where
  "CurlAction env i = (if i \<le> 0 then None else ae_action env i)"

definition GetAction :: "alarm_env \<Rightarrow> int \<Rightarrow> alarm_state \<Rightarrow> action option \<times> alarm_state" where
  "GetAction env i st =
    (case CurlAction env i of
       Some a \<Rightarrow> (Some a, st\<lparr>al_Actions := gput i a (al_Actions st)\<rparr>)
     | None \<Rightarrow> (gget (al_Actions st) i, st))"

definition CurlUic :: "alarm_env \<Rightarrow> string \<Rightarrow> user list option" where
  "CurlUic env team = (if team = '''' then Some [] else ae_team env team)"

definition UsersOf :: "alarm_env \<Rightarrow> string \<Rightarrow> alarm_state \<Rightarrow> user list option \<times> alarm_state" where
  "UsersOf env team st =
    (case CurlUic env team of
       Some us \<Rightarrow> (Some us, st\<lparr>al_Users := gput team us (al_Users st)\<rparr>)
     | None \<Rightarrow> (gget (al_Users st) team, st))"

definition team_step ::
    "alarm_env \<Rightarrow> (string, user) gomap \<times> alarm_state \<Rightarrow> string \<Rightarrow> (string, user) gomap \<times> alarm_state" where
  "team_step env acc team =
    (case acc of (userMap, st) \<Rightarrow>
       if team = '''' then (userMap, st)
       else let (users, st1) = UsersOf env team st in
         case users of
           None \<Rightarrow> (userMap, st1)
         | Some us \<Rightarrow> (foldl (\<lambda>m u. gput (us_Name u) u m) userMap us, st1))"

definition GetUsers :: "alarm_env \<Rightarrow> string \<Rightarrow> alarm_state \<Rightarrow> (string, user) gomap \<times> alarm_state" where
  "GetUsers env teams st = foldl (team_step env) ([], st) (go_split (CHR '','') teams)"

text \<open>The users in the order in which \<open>range\<close> visits their map.\<close>

definition visited_users :: "alarm_env \<Rightarrow> (string, user) gomap \<Rightarrow> user list" where
  "visited_users env userMap = map snd (ae_users env userMap)"

definition string_set :: "alarm_env \<Rightarrow> string list \<Rightarrow> string list" where
  "string_set env xs = ae_slice env (remdups (filter (\<lambda>x. x \<noteq> '''') xs))"

definition ParseTeams ::
    "alarm_env \<Rightarrow> string \<Rightarrow> alarm_state \<Rightarrow> (string list \<times> string list \<times> string list) \<times> alarm_state" where
  "ParseTeams env teams st =
    (if teams = '''' then (([], [], []), st)
     else let (userMap, st1) = GetUsers env teams st;
              us = visited_users env userMap
       in ((string_set env (map us_Phone us), string_set env (map us_Email us), string_set env (map us_IM us)), st1))"

section \<open>Callbacks\<close>

definition callback_text :: "alarm_env \<Rightarrow> event \<Rightarrow> action \<Rightarrow> string option" where
  "callback_text env ev act =
    (if ac_Url act = '''' then Some ''callback url is blank''
     else do {
       metric \<leftarrow> Metric ev;
       p \<leftarrow> Priority ev;
       tplId \<leftarrow> TplId ev;
       let (resp, err) = ae_callback env
         \<lparr>cb_Url = ac_Url act, cb_endpoint = ev_Endpoint ev, cb_metric = metric, cb_status = ev_Status ev,
          cb_step = itoa (ev_CurrentStep ev), cb_priority = itoa p, cb_time = ae_time env (ev_EventTime ev),
          cb_tpl_id = itoa tplId, cb_exp_id = itoa (ExpressionId ev), cb_stra_id = itoa (StrategyId ev),
          cb_tags = go_join '','' (map (\<lambda>(k, v). k @ '':'' @ v) (ev_PushedTags ev))\<rparr>;
       let success = (case err of None \<Rightarrow> ''success'' | Some e \<Rightarrow> ''fail:'' @ e);
       Some (''curl '' @ ac_Url act @ '' '' @ success @ ''. resp: '' @ resp)
     })"

definition HandleCallback :: "alarm_env \<Rightarrow> event \<Rightarrow> action \<Rightarrow> alarm_state \<Rightarrow> alarm_state option" where
  "HandleCallback env ev act st =
    (if ac_Uic act = '''' then do { message \<leftarrow> callback_text env ev act; Some st }
     else do {
       let ((phones, mails, ims), st1) = ParseTeams env (ac_Uic act) st;
       smsContent \<leftarrow> BuildCommonSMSContent env ev;
       mailContent \<leftarrow> BuildCommonMailContent env ev;
       imContent \<leftarrow> BuildCommonIMContent env ev;
       let st2 = (if ac_BeforeCallbackSms act = 1 then WriteIM env ims imContent (WriteSms env phones smsContent st1) else st1);
       let st3 = (if ac_BeforeCallbackMail act = 1 then WriteMail env mails smsContent mailContent st2 else st2);
       message \<leftarrow> callback_text env ev act;
       let st4 = (if ac_AfterCallbackSms act = 1 then WriteIM env ims message (WriteSms env phones message st3) else st3);
       Some (if ac_AfterCallbackMail act = 1 then WriteMail env mails message message st4 else st4)
     })"

section \<open>Consuming events\<close>

definition consumeHighEvents :: "alarm_env \<Rightarrow> event \<Rightarrow> action \<Rightarrow> alarm_state \<Rightarrow> alarm_state option" where
  "consumeHighEvents env ev act st =
    (if ac_Uic act = '''' then Some st
     else do {
       let ((phones, mails, ims), st1) = ParseTeams env (ac_Uic act) st;
       smsContent \<leftarrow> BuildCommonSMSContent env ev;
       mailContent \<leftarrow> BuildCommonMailContent env ev;
       imContent \<leftarrow> BuildCommonIMContent env ev;
       p \<leftarrow> Priority ev;
       let st2 = (if p < 3 then WriteSms env phones smsContent st1 else st1);
       Some (WriteMail env mails smsContent mailContent (WriteIM env ims imContent st2))
     })"

definition ParseUserSms :: "alarm_env \<Rightarrow> event \<Rightarrow> action \<Rightarrow> alarm_state \<Rightarrow> alarm_state option" where
  "ParseUserSms env ev act st = do {
    let (userMap, st1) = GetUsers env (ac_Uic act) st;
    content \<leftarrow> BuildCommonSMSContent env ev;
    metric \<leftarrow> Metric ev;
    p \<leftarrow> Priority ev;
    Some (foldl (\<lambda>st u. if ae_lpush env QUserSms
        then st\<lparr>al_UserSms := Decoded \<lparr>sd_Priority = p, sd_Metric = metric, sd_Content = content, sd_Phone = us_Phone u,
          sd_Status = ev_Status ev\<rparr> # al_UserSms st\<rparr>
        else st) st1 (visited_users env userMap))
  }"

definition ParseUserMail :: "alarm_env \<Rightarrow> event \<Rightarrow> action \<Rightarrow> alarm_state \<Rightarrow> alarm_state option" where
  "ParseUserMail env ev act st = do {
    let (userMap, st1) = GetUsers env (ac_Uic act) st;
    metric \<leftarrow> Metric ev;
    subject \<leftarrow> BuildCommonSMSContent env ev;
    content \<leftarrow> BuildCommonMailContent env ev;
    p \<leftarrow> Priority ev;
    Some (foldl (\<lambda>st u. if ae_lpush env QUserMail
        then st\<lparr>al_UserMail := Decoded \<lparr>mt_Priority = p, mt_Metric = metric, mt_Subject = subject, mt_Content = content,
          mt_Email = us_Email u, mt_Status = ev_Status ev\<rparr> # al_UserMail st\<rparr>
        else st) st1 (visited_users env userMap))
  }"

definition ParseUserIm :: "alarm_env \<Rightarrow> event \<Rightarrow> action \<Rightarrow> alarm_state \<Rightarrow> alarm_state option" where
  "ParseUserIm env ev act st = do {
    let (userMap, st1) = GetUsers env (ac_Uic act) st;
    content \<leftarrow> BuildCommonIMContent env ev;
    metric \<leftarrow> Metric ev;
    p \<leftarrow> Priority ev;
    Some (foldl (\<lambda>st u. if ae_lpush env QUserIM
        then st\<lparr>al_UserIM := Decoded \<lparr>it_Priority = p, it_Metric = metric, it_Content = content, it_IM = us_IM u,
          it_Status = ev_Status ev\<rparr> # al_UserIM st\<rparr>
        else st) st1 (visited_users env userMap))
  }"

definition consumeLowEvents :: "alarm_env \<Rightarrow> event \<Rightarrow> action \<Rightarrow> alarm_state \<Rightarrow> alarm_state option" where
  "consumeLowEvents env ev act st =
    (if ac_Uic act = '''' then Some st
     else do {
       p \<leftarrow> Priority ev;
       st1 \<leftarrow> (if p < 3 then ParseUserSms env ev act st else Some st);
       st2 \<leftarrow> ParseUserIm env ev act st1;
       ParseUserMail env ev act st2
     })"

definition consume :: "alarm_env \<Rightarrow> event \<Rightarrow> bool \<Rightarrow> alarm_state \<Rightarrow> alarm_state option" where
  "consume env ev isHigh st = do {
    actionId \<leftarrow> ActionId ev;
    (if actionId \<le> 0 then Some st
     else let (a, st1) = GetAction env actionId st in
       case a of
         None \<Rightarrow> Some st1
       | Some act \<Rightarrow> do {
           st2 \<leftarrow> (if ac_Callback act = 1 then HandleCallback env ev act st1 else Some st1);
           (if isHigh then consumeHighEvents env ev act st2 else consumeLowEvents env ev act st2)
         })
  }"

section \<open>The database of events\<close>

text \<open>
  Whether the query, the statement on \<open>event_cases\<close> and the one on \<open>events\<close> succeed. The column
  \<open>timestamp\<close> of \<open>event_cases\<close> is declared without attributes: on servers that then add
  \<open>ON UPDATE CURRENT_TIMESTAMP\<close> an update that does not name it sets it to the time of the
  database (\<open>Some now\<close>), on the others it stays (\<open>None\<close>).
\<close>

record insert_io =
  ii_select :: bool
  ii_case :: bool
  ii_row :: bool
  ii_stamp :: "int64 option"

definition stamped :: "int64 option \<Rightarrow> event_case \<Rightarrow> event_case" where
  "stamped stamp c = (case stamp of None \<Rightarrow> c | Some now \<Rightarrow> c\<lparr>ec_Timestamp := now\<rparr>)"

definition counterGen :: "string \<Rightarrow> string \<Rightarrow> string" where
  "counterGen metric tags = (if tags \<noteq> '''' then metric @ ''/'' @ tags else metric)"

definition event_cond :: "event \<Rightarrow> (float64 \<times> string \<times> float64) option" where
  "event_cond ev = do { op \<leftarrow> Operator ev; rv \<leftarrow> RightValue ev; Some (ev_LeftValue ev, op, rv) }"

definition insertEvent :: "bool \<Rightarrow> event \<Rightarrow> alarm_state \<Rightarrow> alarm_state option" where
  "insertEvent ok ev st = do {
    cond \<leftarrow> event_cond ev;
    let status = (if ev_Status ev = ''OK'' then 1 else 0);
    Some (if ok then st\<lparr>al_Rows := al_Rows st @ [\<lparr>er_EventCaseId = ev_Id ev, er_Step = ev_CurrentStep ev, er_Cond = cond,
        er_Status = status, er_Timestamp = ev_EventTime ev\<rparr>]\<rparr> else st)
  }"

definition tpl_creator :: "event \<Rightarrow> string" where
  "tpl_creator ev = (case Tpl ev of None \<Rightarrow> '''' | Some t \<Rightarrow> tpl_Creator t)"

text \<open>A case that is inserted a second time violates the primary key; the schema gives its process status.\<close>

definition new_case :: "event \<Rightarrow> event_case option" where
  "new_case ev = do {
    metric \<leftarrow> Metric ev;
    func \<leftarrow> Func ev;
    cond \<leftarrow> event_cond ev;
    note \<leftarrow> Note ev;
    mx \<leftarrow> MaxStep ev;
    p \<leftarrow> Priority ev;
    tplId \<leftarrow> TplId ev;
    Some \<lparr>ec_Id = ev_Id ev, ec_Endpoint = ev_Endpoint ev, ec_Metric = counterGen metric (SortedTags (ev_PushedTags ev)),
      ec_Func = func, ec_Cond = cond, ec_Note = note, ec_MaxStep = mx, ec_CurrentStep = ev_CurrentStep ev, ec_Priority = p,
      ec_Status = ev_Status ev, ec_Timestamp = ev_EventTime ev, ec_UpdateAt = ev_EventTime ev, ec_ProcessNote = 0,
      ec_ProcessStatus = ''unresolved'', ec_TplCreator = tpl_creator ev, ec_ExpressionId = ExpressionId ev,
      ec_StrategyId = StrategyId ev, ec_TemplateId = tplId\<rparr>
  }"

definition updated_case :: "int64 option \<Rightarrow> event \<Rightarrow> event_case \<Rightarrow> event_case option" where
  "updated_case stamp ev c = do {
    n \<leftarrow> new_case ev;
    let c1 = c\<lparr>ec_UpdateAt := ec_UpdateAt n, ec_MaxStep := ec_MaxStep n, ec_CurrentStep := ec_CurrentStep n, ec_Note := ec_Note n,
      ec_Cond := ec_Cond n, ec_Status := ec_Status n, ec_Func := ec_Func n, ec_Priority := ec_Priority n,
      ec_TplCreator := ec_TplCreator n, ec_ExpressionId := ec_ExpressionId n, ec_StrategyId := ec_StrategyId n,
      ec_TemplateId := ec_TemplateId n\<rparr>;
    let c2 = (if ec_ProcessStatus c = ''resolved'' \<or> ec_ProcessStatus c = ''ignored''
      then c1\<lparr>ec_ProcessStatus := ''unresolved'', ec_ProcessNote := 0\<rparr> else c1);
    Some (if ev_CurrentStep ev = 1 then c2\<lparr>ec_Timestamp := ev_EventTime ev\<rparr> else stamped stamp c2)
  }"

definition InsertEvent :: "insert_io \<Rightarrow> event \<Rightarrow> alarm_state \<Rightarrow> alarm_state option" where
  "InsertEvent io ev st = do {
    st1 \<leftarrow> (case (if ii_select io then gget (al_Cases st) (ev_Id ev) else None) of
      None \<Rightarrow> do {
        c \<leftarrow> new_case ev;
        Some (if ii_case io \<and> gget (al_Cases st) (ev_Id ev) = None
          then st\<lparr>al_Cases := gput (ev_Id ev) c (al_Cases st)\<rparr> else st)
      }
    | Some old \<Rightarrow> do {
        c \<leftarrow> updated_case (ii_stamp io) ev old;
        Some (if ii_case io then st\<lparr>al_Cases := gput (ev_Id ev) c (al_Cases st)\<rparr> else st)
      });
    insertEvent (ii_row io) ev st1
  }"

text \<open>\<open>DELETE ... LIMIT\<close>: at most \<open>n\<close> rows, the first in the order of the table; a negative limit is an error.\<close>

fun delete_older :: "int64 \<Rightarrow> nat \<Rightarrow> event_row list \<Rightarrow> event_row list" where
  "delete_older before n [] = []"
| "delete_older before n (r # rs) =
    (if er_Timestamp r < before then (case n of 0 \<Rightarrow> r # rs | Suc n' \<Rightarrow> delete_older before n' rs)
     else r # delete_older before n rs)"

definition DeleteEventOlder :: "bool \<Rightarrow> int64 \<Rightarrow> int \<Rightarrow> alarm_state \<Rightarrow> alarm_state" where
  "DeleteEventOlder ok before limit st =
    (if ok \<and> 0 \<le> limit then st\<lparr>al_Rows := delete_older before (nat limit) (al_Rows st)\<rparr> else st)"

section \<open>Taking events\<close>

text \<open>
  \<open>BRPOP\<close> takes the last element of the first list that has one. While all are empty the call waits:
  here it returns with an error and the loop calls again. An event that does not decode is lost.
\<close>

fun brpop :: "string list \<Rightarrow> (string, 'a list) gomap \<Rightarrow> ('a \<times> (string, 'a list) gomap) option" where
  "brpop [] M = None"
| "brpop (q # qs) M =
    (case bucket M q of [] \<Rightarrow> brpop qs M | xs \<Rightarrow> Some (last xs, gput q (butlast xs) M))"

definition popEvent ::
    "bool \<Rightarrow> insert_io \<Rightarrow> string list \<Rightarrow> alarm_state \<Rightarrow> ((string + event) \<times> alarm_state) option" where
  "popEvent up io queues st =
    (if \<not> up then Some (Inl ''get alarm event from redis fail'', st)
     else case brpop queues (al_Events st) of
       None \<Rightarrow> Some (Inl ''waiting'', st)
     | Some (r, M) \<Rightarrow>
        let st1 = st\<lparr>al_Events := M\<rparr> in
        (case r of
           Decoded ev \<Rightarrow> map_option (\<lambda>st2. (Inr ev, st2)) (InsertEvent io ev st1)
         | _ \<Rightarrow> Some (Inl ''parse alarm event fail'', st1)))"

text \<open>One turn of the two reading loops.\<close>

definition read_round ::
    "bool \<Rightarrow> alarm_env \<Rightarrow> bool \<Rightarrow> insert_io \<Rightarrow> string list \<Rightarrow> alarm_state \<Rightarrow> alarm_state option" where
  "read_round isHigh env up io queues st = do {
    (r, st1) \<leftarrow> popEvent up io queues st;
    (case r of Inl err \<Rightarrow> Some st1 | Inr ev \<Rightarrow> consume env ev isHigh st1)
  }"

definition ReadHighEvent_round :: "alarm_env \<Rightarrow> bool \<Rightarrow> insert_io \<Rightarrow> string list \<Rightarrow> alarm_state \<Rightarrow> alarm_state option" where
  "ReadHighEvent_round env up io queues st = (if queues = [] then Some st else read_round True env up io queues st)"

definition ReadLowEvent_round :: "alarm_env \<Rightarrow> bool \<Rightarrow> insert_io \<Rightarrow> string list \<Rightarrow> alarm_state \<Rightarrow> alarm_state option" where
  "ReadLowEvent_round env up io queues st = (if queues = [] then Some st else read_round False env up io queues st)"

section \<open>The combiner\<close>

text \<open>\<open>strings.Split\<close> at the two characters \<open>a b\<close>.\<close>

fun split_pair :: "char \<Rightarrow> char \<Rightarrow> string \<Rightarrow> string list" where
  "split_pair a b [] = [[]]"
| "split_pair a b [x] = [[x]]"
| "split_pair a b (x # y # r) =
    (if x = a \<and> y = b then [] # split_pair a b r
     else case split_pair a b (y # r) of w # ws \<Rightarrow> (x # w) # ws | [] \<Rightarrow> [[x]])"

definition example_of :: "string \<Rightarrow> string" where
  "example_of first = (let t = split_pair (CHR '']'') (CHR ''['') first in if 3 \<le> length t then t ! 2 else '''')"

definition combined_text :: "alarm_env \<Rightarrow> int \<Rightarrow> string \<Rightarrow> nat \<Rightarrow> string \<Rightarrow> string list \<Rightarrow> string" where
  "combined_text env priority status sz metric contents =
    (let eg = example_of (hd contents);
         head_text = ''[P'' @ itoa priority @ '']['' @ status @ ''] '' @ itoa (int sz) @ '' '' @ metric
     in case ae_link env (go_join '',,'' contents) of
       Inr path \<Rightarrow>
         if path = '''' then head_text @ ''.  e.g. '' @ eg @ ''. detail in email''
         else head_text @ '' e.g. '' @ eg @ '' '' @ ae_Dashboard env @ ''/portal/links/'' @ path @ '' ''
     | Inl err \<Rightarrow> head_text @ ''.  e.g. '' @ eg @ ''. detail in email'')"

definition sms_key :: "sms_dto \<Rightarrow> string" where
  "sms_key d = itoa (sd_Priority d) @ sd_Status d @ sd_Phone d @ sd_Metric d"

definition im_key :: "im_dto \<Rightarrow> string" where
  "im_key d = itoa (it_Priority d) @ it_Status d @ it_IM d @ it_Metric d"

definition mail_key :: "mail_dto \<Rightarrow> string" where
  "mail_key d = itoa (mt_Priority d) @ mt_Status d @ mt_Email d @ mt_Metric d"

definition group_by_key :: "('a \<Rightarrow> string) \<Rightarrow> 'a list \<Rightarrow> (string, 'a list) gomap" where
  "group_by_key key dtos = foldl (\<lambda>m d. add_to_bucket (key d) d m) [] dtos"

text \<open>One group; groups are never empty.\<close>

definition combine_sms_group :: "alarm_env \<Rightarrow> alarm_state \<Rightarrow> sms_dto list \<Rightarrow> alarm_state" where
  "combine_sms_group env st arr =
    (case arr of
       [] \<Rightarrow> st
     | [d] \<Rightarrow> WriteSms env [sd_Phone d] (sd_Content d) st
     | d # _ \<Rightarrow> WriteSms env [sd_Phone d]
         (combined_text env (sd_Priority d) (sd_Status d) (length arr) (sd_Metric d) (map sd_Content arr)) st)"

definition combine_im_group :: "alarm_env \<Rightarrow> alarm_state \<Rightarrow> im_dto list \<Rightarrow> alarm_state" where
  "combine_im_group env st arr =
    (case arr of
       [] \<Rightarrow> st
     | [d] \<Rightarrow> WriteIM env [it_IM d] (it_Content d) st
     | d # _ \<Rightarrow> WriteIM env [it_IM d]
         (combined_text env (it_Priority d) (it_Status d) (length arr) (it_Metric d) (map it_Content arr)) st)"

definition combine_mail_group :: "alarm_env \<Rightarrow> alarm_state \<Rightarrow> mail_dto list \<Rightarrow> alarm_state" where
  "combine_mail_group env st arr =
    (case arr of
       [] \<Rightarrow> st
     | [d] \<Rightarrow> WriteMail env [mt_Email d] (mt_Subject d) (mt_Content d) st
     | d # _ \<Rightarrow> WriteMail env [mt_Email d]
         (''[P'' @ itoa (mt_Priority d) @ ''][''  @ mt_Status d @ ''] '' @ itoa (int (length arr)) @ '' '' @ mt_Metric d)
         (go_join crlf (map mt_Content arr)) st)"

definition combineSms ::
    "((string, sms_dto list) gomap \<Rightarrow> (string, sms_dto list) gomap) \<Rightarrow> alarm_env \<Rightarrow> nat \<Rightarrow> alarm_state \<Rightarrow> alarm_state" where
  "combineSms visit env n st =
    (let (dtos, st1) = popAllSmsDto n st in
     if dtos = [] then st1
     else foldl (\<lambda>st kv. combine_sms_group env st (snd kv)) st1 (visit (group_by_key sms_key dtos)))"

definition combineIM ::
    "((string, im_dto list) gomap \<Rightarrow> (string, im_dto list) gomap) \<Rightarrow> alarm_env \<Rightarrow> nat \<Rightarrow> alarm_state \<Rightarrow> alarm_state" where
  "combineIM visit env n st =
    (let (dtos, st1) = popAllImDto n st in
     if dtos = [] then st1
     else foldl (\<lambda>st kv. combine_im_group env st (snd kv)) st1 (visit (group_by_key im_key dtos)))"

definition combineMail ::
    "((string, mail_dto list) gomap \<Rightarrow> (string, mail_dto list) gomap) \<Rightarrow> alarm_env \<Rightarrow> nat \<Rightarrow> alarm_state \<Rightarrow> alarm_state" where
  "combineMail visit env n st =
    (let (dtos, st1) = popAllMailDto n st in
     if dtos = [] then st1
     else foldl (\<lambda>st kv. combine_mail_group env st (snd kv)) st1 (visit (group_by_key mail_key dtos)))"

end
