(* ===== verification/Alarm_Flow.thy ===== *)
theory Alarm_Flow
  imports Alarm_Core
begin

text \<open>
  What the alarm consumer guarantees: complete events are consumed without a panic, every event
  is filed, queues are drained in order, and the combiner tells everyone it should, as long as
  its keys do not run into each other; when they do, someone is not told.
\<close>

section \<open>Complete events\<close>

definition event_complete :: "event \<Rightarrow> bool" where
  "event_complete ev \<longleftrightarrow>
    (case ev_Strategy ev of Some s \<Rightarrow> st_Tpl s \<noteq> None | None \<Rightarrow> ev_Expression ev \<noteq> None)"

lemma complete_fields:
  assumes "event_complete ev"
  shows "Priority ev \<noteq> None" "Note ev \<noteq> None" "Func ev \<noteq> None" "Metric ev \<noteq> None" "Operator ev \<noteq> None"
    "RightValue ev \<noteq> None" "MaxStep ev \<noteq> None" "TplId ev \<noteq> None" "ActionId ev \<noteq> None"
  using assms by (auto simp: event_complete_def Priority_def Note_def Func_def Metric_def Operator_def RightValue_def
      MaxStep_def TplId_def ActionId_def from_origin_def split: option.splits)

lemma complete_texts:
  assumes "event_complete ev"
  shows "BuildCommonSMSContent env ev \<noteq> None" "BuildCommonIMContent env ev \<noteq> None"
    "BuildCommonMailContent env ev \<noteq> None" "callback_text env ev act \<noteq> None"
  using complete_fields [OF assms]
  by (auto simp: BuildCommonSMSContent_def BuildCommonIMContent_def alarm_text_def BuildCommonMailContent_def Link_def
      callback_text_def split: prod.splits)

lemma HandleCallback_total: "event_complete ev \<Longrightarrow> \<exists>st'. HandleCallback env ev act st = Some st'"
  using complete_texts(1-3) [of ev env] complete_texts(4) [of ev env act]
  by (auto simp: HandleCallback_def Let_def split: prod.splits)

lemma consumeHigh_total: "event_complete ev \<Longrightarrow> \<exists>st'. consumeHighEvents env ev act st = Some st'"
  using complete_texts(1-3) [of ev env] complete_fields(1) [of ev]
  by (auto simp: consumeHighEvents_def split: prod.splits)

lemma ParseUser_total:
  assumes "event_complete ev"
  shows "\<exists>st'. ParseUserSms env ev act st = Some st'" "\<exists>st'. ParseUserIm env ev act st = Some st'"
    "\<exists>st'. ParseUserMail env ev act st = Some st'"
  using complete_texts(1-3) [OF assms, of env] complete_fields(1,4) [OF assms]
  by (auto simp: ParseUserSms_def ParseUserIm_def ParseUserMail_def split: prod.splits)

lemma consumeLow_total:
  assumes "event_complete ev"
  shows "\<exists>st'. consumeLowEvents env ev act st = Some st'"
proof (cases "ac_Uic act = ''''")
  case False
  obtain p where p: "Priority ev = Some p" using complete_fields(1) [OF assms] by blast
  obtain st1 where "(if p < 3 then ParseUserSms env ev act st else Some st) = Some st1"
    using ParseUser_total(1) [OF assms, of env act st] by (cases "p < 3") auto
  moreover obtain st2 where "ParseUserIm env ev act st1 = Some st2" using ParseUser_total(2) [OF assms] by blast
  moreover obtain st3 where "ParseUserMail env ev act st2 = Some st3" using ParseUser_total(3) [OF assms] by blast
  ultimately show ?thesis using False p by (simp add: consumeLowEvents_def)
qed (simp add: consumeLowEvents_def)

lemma consume_total:
  assumes "event_complete ev"
  shows "\<exists>st'. consume env ev isHigh st = Some st'"
proof -
  obtain i where i: "ActionId ev = Some i" using complete_fields(9) [OF assms] by blast
  obtain a st1 where g: "GetAction env i st = (a, st1)" by (cases "GetAction env i st")
  show ?thesis
  proof (cases "i \<le> 0 \<or> a = None")
    case False
    then obtain act where a: "a = Some act" by blast
    obtain st2 where "(if ac_Callback act = 1 then HandleCallback env ev act st1 else Some st1) = Some st2"
      using HandleCallback_total [OF assms, of env act st1] by (cases "ac_Callback act = 1") auto
    then show ?thesis
      using False i g a consumeHigh_total [OF assms, of env act st2] consumeLow_total [OF assms, of env act st2]
      by (simp add: consume_def)
  qed (use i g in \<open>auto simp: consume_def\<close>)
qed

text \<open>Consuming an event does not touch the queues of events.\<close>

lemma frame_writes [simp]:
  "al_Events (WriteSms env tos c st) = al_Events st" "al_Events (WriteIM env tos c st) = al_Events st"
  "al_Events (WriteMail env tos sub c st) = al_Events st"
  by (simp_all add: WriteSms_def WriteIM_def WriteMail_def)

lemma frame_GetUsers: "GetUsers env teams st = (m, st') \<Longrightarrow> al_Events st' = al_Events st"
proof -
  have "al_Events (snd (foldl (team_step env) acc ts)) = al_Events (snd acc)" for acc ts
  proof (induction ts arbitrary: acc)
    case (Cons t ts)
    have "al_Events (snd (team_step env acc t)) = al_Events (snd acc)"
      by (auto simp: team_step_def UsersOf_def split: prod.splits option.splits)
    then show ?case using Cons.IH by simp
  qed simp
  then show "GetUsers env teams st = (m, st') \<Longrightarrow> al_Events st' = al_Events st" by (metis GetUsers_def snd_conv)
qed

lemma frame_ParseTeams: "ParseTeams env teams st = (x, st') \<Longrightarrow> al_Events st' = al_Events st"
  by (auto simp: ParseTeams_def Let_def dest: frame_GetUsers split: if_splits prod.splits)

lemma frame_foldl:
  assumes "\<And>st x. al_Events (f st x) = al_Events st"
  shows "al_Events (foldl f st xs) = al_Events st"
  by (induction xs arbitrary: st) (simp_all add: assms)

lemma frame_ParseUser:
  "ParseUserSms env ev act st = Some st' \<Longrightarrow> al_Events st' = al_Events st"
  "ParseUserIm env ev act st = Some st' \<Longrightarrow> al_Events st' = al_Events st"
  "ParseUserMail env ev act st = Some st' \<Longrightarrow> al_Events st' = al_Events st"
  by (auto simp: ParseUserSms_def ParseUserIm_def ParseUserMail_def frame_foldl
      dest: frame_GetUsers split: prod.splits bind_splits)

lemma frame_HandleCallback: "HandleCallback env ev act st = Some st' \<Longrightarrow> al_Events st' = al_Events st"
  by (auto simp: HandleCallback_def Let_def dest: frame_ParseTeams split: if_split_asm prod.splits bind_splits)

lemma frame_consumeHigh: "consumeHighEvents env ev act st = Some st' \<Longrightarrow> al_Events st' = al_Events st"
  by (auto simp: consumeHighEvents_def Let_def dest: frame_ParseTeams split: if_split_asm prod.splits bind_splits)

lemma frame_consumeLow: "consumeLowEvents env ev act st = Some st' \<Longrightarrow> al_Events st' = al_Events st"
  by (auto simp: consumeLowEvents_def dest!: frame_ParseUser split: if_split_asm bind_splits)

lemma frame_consume:
  assumes "consume env ev isHigh st = Some st'"
  shows "al_Events st' = al_Events st"
proof -
  have g: "GetAction env i st = (a, st1) \<Longrightarrow> al_Events st1 = al_Events st" for i a st1
    by (auto simp: GetAction_def split: option.splits)
  show ?thesis using assms
    by (auto simp: consume_def dest!: g frame_HandleCallback frame_consumeHigh frame_consumeLow
        split: if_split_asm prod.splits option.splits bind_splits)
qed

section \<open>Filing events\<close>

lemma new_case_total: "event_complete ev \<Longrightarrow> \<exists>c. new_case ev = Some c"
  using complete_fields [of ev] by (auto simp: new_case_def event_cond_def)

lemma InsertEvent_total:
  assumes "event_complete ev"
  shows "\<exists>st'. InsertEvent io ev st = Some st' \<and> al_Events st' = al_Events st"
proof -
  obtain c where c: "new_case ev = Some c" using new_case_total [OF assms] by blast
  obtain cond where cond: "event_cond ev = Some cond" using complete_fields(5,6) [OF assms] by (auto simp: event_cond_def)
  show ?thesis
    by (auto simp: InsertEvent_def insertEvent_def updated_case_def Let_def c cond split: option.split)
qed

lemma updated_case_facts:
  assumes "new_case ev = Some n"
  shows "\<exists>c. updated_case stamp ev old = Some c \<and> ec_Status c = ec_Status n \<and> ec_CurrentStep c = ec_CurrentStep n \<and>
    ec_Cond c = ec_Cond n \<and> ec_UpdateAt c = ec_UpdateAt n \<and> ec_ProcessStatus c \<noteq> ''resolved'' \<and>
    ec_ProcessStatus c \<noteq> ''ignored'' \<and> ec_Endpoint c = ec_Endpoint old \<and> ec_Metric c = ec_Metric old \<and>
    ec_Timestamp c = (if ev_CurrentStep ev = 1 then ev_EventTime ev else case stamp of None \<Rightarrow> ec_Timestamp old | Some now \<Rightarrow> now)"
  by (simp add: updated_case_def assms Let_def stamped_def split: option.split)

text \<open>
  C17: With a working database, filing an event adds a row for it and leaves exactly one case under its
  identifier, which shows the event: its status, step and condition. The case is open (not resolved
  or ignored), whatever an operator had marked; its start is the time of the last event of step
  one, unless the server stamps the rows it updates; and its endpoint and counter stay those of the first event.
\<close>

theorem InsertEvent_case:
  assumes "event_complete ev" "ii_select io" "ii_case io" "ii_row io"
  shows "\<exists>st' c. InsertEvent io ev st = Some st' \<and> gget (al_Cases st') (ev_Id ev) = Some c \<and>
    ec_Status c = ev_Status ev \<and> ec_CurrentStep c = ev_CurrentStep ev \<and> Some (ec_Cond c) = event_cond ev \<and>
    ec_UpdateAt c = ev_EventTime ev \<and> ec_ProcessStatus c \<noteq> ''resolved'' \<and> ec_ProcessStatus c \<noteq> ''ignored'' \<and>
    (\<exists>r. al_Rows st' = al_Rows st @ [r] \<and> er_EventCaseId r = ev_Id ev \<and> (er_Status r = 1 \<longleftrightarrow> ev_Status ev = ''OK'')) \<and>
    (case gget (al_Cases st) (ev_Id ev) of
       None \<Rightarrow> ec_Timestamp c = ev_EventTime ev
     | Some old \<Rightarrow> ec_Endpoint c = ec_Endpoint old \<and> ec_Metric c = ec_Metric old \<and>
         ec_Timestamp c = (if ev_CurrentStep ev = 1 then ev_EventTime ev
           else case ii_stamp io of None \<Rightarrow> ec_Timestamp old | Some now \<Rightarrow> now)) \<and>
    (\<forall>k. k \<noteq> ev_Id ev \<longrightarrow> gget (al_Cases st') k = gget (al_Cases st) k)"
proof -
  obtain n where n: "new_case ev = Some n" using new_case_total [OF assms(1)] by blast
  obtain cond where cond: "event_cond ev = Some cond" using complete_fields(5,6) [OF assms(1)] by (auto simp: event_cond_def)
  from n cond have f: "ec_Status n = ev_Status ev" "ec_CurrentStep n = ev_CurrentStep ev" "ec_Cond n = cond"
      "ec_UpdateAt n = ev_EventTime ev" "ec_ProcessStatus n = ''unresolved''" "ec_Timestamp n = ev_EventTime ev"
    by (auto simp: new_case_def split: bind_splits)
  show ?thesis
  proof (cases "gget (al_Cases st) (ev_Id ev)")
    case None
    then show ?thesis using assms(2-4) n cond f by (simp add: InsertEvent_def insertEvent_def)
  next
    case (Some old)
    from updated_case_facts [OF n, of "ii_stamp io" old] obtain c where c: "updated_case (ii_stamp io) ev old = Some c" "ec_Status c = ec_Status n"
      "ec_CurrentStep c = ec_CurrentStep n" "ec_Cond c = ec_Cond n" "ec_UpdateAt c = ec_UpdateAt n"
      "ec_ProcessStatus c \<noteq> ''resolved''" "ec_ProcessStatus c \<noteq> ''ignored''" "ec_Endpoint c = ec_Endpoint old"
      "ec_Metric c = ec_Metric old" "ec_Timestamp c = (if ev_CurrentStep ev = 1 then ev_EventTime ev
        else case ii_stamp io of None \<Rightarrow> ec_Timestamp old | Some now \<Rightarrow> now)"
      by blast
    then show ?thesis using Some assms(2-4) cond f by (simp add: InsertEvent_def insertEvent_def)
  qed
qed

section \<open>Draining a queue\<close>

definition decoded :: "'a reply list \<Rightarrow> 'a list" where
  "decoded q = List.map_filter (\<lambda>r. case r of Decoded d \<Rightarrow> Some d | _ \<Rightarrow> None) q"

lemma pop_all_loop_all:
  "length q < n \<Longrightarrow> pop_all_loop n ret q = (ret @ decoded (rev q), [])"
proof (induction q arbitrary: n ret rule: rev_induct)
  case Nil
  then show ?case by (cases n) (simp_all add: decoded_def map_filter_simps)
next
  case (snoc r q)
  then obtain n' where n: "n = Suc n'" "length q < n'" by (cases n) auto
  show ?case using snoc.IH [OF n(2)] by (cases r) (simp_all add: n(1) decoded_def map_filter_simps)
qed

section \<open>Combining\<close>

lemma bucket_group: "bucket (group_by_key key ds) k = filter (\<lambda>d. key d = k) ds"
  using bucket_foldl_add [of key "\<lambda>d. d" "[]" ds k] by (simp add: group_by_key_def)

lemma gomap_ok_group [simp]: "gomap_ok (group_by_key key ds)"
  using gomap_ok_foldl_add [of "[]" key "\<lambda>d. d" ds] by (simp add: group_by_key_def)

lemma group_entries:
  "(k, g) \<in> set (group_by_key key ds) \<longleftrightarrow> g = filter (\<lambda>d. key d = k) ds \<and> g \<noteq> []"
proof -
  have "(k, g) \<in> set (group_by_key key ds) \<longleftrightarrow> gget (group_by_key key ds) k = Some g"
    using gomap_ok_group [of key ds] by (simp add: gomap_ok_def map_of_eq_Some_iff)
  then show ?thesis using gget_foldl_add [of key "\<lambda>d. d" ds k] by (auto simp: group_by_key_def)
qed

text \<open>
  The groups of the combiner, in the order of a visit: one for each class of messages, each with
  all its messages in the order of the queue.
\<close>

definition classes_of :: "('a \<Rightarrow> 'c) \<Rightarrow> 'a list \<Rightarrow> 'a list list \<Rightarrow> bool" where
  "classes_of cls ds gs \<longleftrightarrow> distinct (map (\<lambda>g. cls (hd g)) gs) \<and>
    list_all (\<lambda>g. g \<noteq> [] \<and> g = filter (\<lambda>d. cls d = cls (hd g)) ds) gs \<and>
    list_all (\<lambda>d. list_ex (\<lambda>g. cls (hd g) = cls d) gs) ds"

lemma groups_classes:
  assumes "mset M = mset (group_by_key key ds)"
    and "\<And>d d'. d \<in> set ds \<Longrightarrow> d' \<in> set ds \<Longrightarrow> key d = key d' \<longleftrightarrow> cls d = cls d'"
  shows "classes_of cls ds (map snd M)"
proof -
  have M: "(k, g) \<in> set M \<longleftrightarrow> g = filter (\<lambda>d. key d = k) ds \<and> g \<noteq> []" for k g
    using group_entries mset_eq_setD [OF assms(1)] by blast
  have hd_key: "hd g \<in> set ds \<and> key (hd g) = k" if "(k, g) \<in> set M" for k g
  proof -
    from that M have g: "g = filter (\<lambda>d. key d = k) ds" "g \<noteq> []" by blast+
    have "hd g \<in> set (filter (\<lambda>d. key d = k) ds)" using hd_in_set [OF g(2)] unfolding g(1) [symmetric] .
    then show ?thesis by simp
  qed
  have "distinct (map fst M)"
    using gomap_ok_group [of key ds] assms(1) mset_eq_imp_distinct_iff [of "map fst M" "map fst (group_by_key key ds)"]
    by (simp add: gomap_ok_def)
  then have "distinct M" and inj: "inj_on fst (set M)" by (simp_all add: distinct_map)
  have "inj_on (\<lambda>kg. cls (hd (snd kg))) (set M)"
  proof (rule inj_onI)
    fix x y assume x: "x \<in> set M" "y \<in> set M" "cls (hd (snd x)) = cls (hd (snd y))"
    have h: "hd (snd x) \<in> set ds \<and> key (hd (snd x)) = fst x" "hd (snd y) \<in> set ds \<and> key (hd (snd y)) = fst y"
      using hd_key [of "fst x" "snd x"] hd_key [of "fst y" "snd y"] x(1,2) by simp_all
    then have "fst x = fst y" using x(3) assms(2) [of "hd (snd x)" "hd (snd y)"] by metis
    then show "x = y" using inj x(1,2) by (simp add: inj_on_def)
  qed
  with \<open>distinct M\<close> have "distinct (map (\<lambda>g. cls (hd g)) (map snd M))" by (simp add: distinct_map comp_def)
  moreover have "g \<noteq> [] \<and> g = filter (\<lambda>d. cls d = cls (hd g)) ds" if "(k, g) \<in> set M" for k g
  proof -
    have "filter (\<lambda>d. key d = k) ds = filter (\<lambda>d. cls d = cls (hd g)) ds"
      using hd_key [OF that] assms(2) by (intro filter_cong) auto
    then show ?thesis using that M by simp
  qed
  moreover have "\<exists>kg\<in>set M. cls (hd (snd kg)) = cls d" if d: "d \<in> set ds" for d
  proof -
    let ?g = "filter (\<lambda>x. key x = key d) ds"
    have "?g \<noteq> []" using d by (auto simp: filter_empty_conv)
    then have m: "(key d, ?g) \<in> set M" using M by simp
    then have "cls (hd ?g) = cls d" using hd_key [OF m] assms(2) d by blast
    with m show ?thesis by force
  qed
  ultimately show ?thesis by (auto simp: classes_of_def list_all_iff list_ex_iff)
qed

definition sms_of :: "alarm_env \<Rightarrow> sms_dto list \<Rightarrow> sms" where
  "sms_of env g = (let d = hd g in
    \<lparr>sm_Tos = sd_Phone d,
     sm_Content = (if length g = 1 then sd_Content d
       else combined_text env (sd_Priority d) (sd_Status d) (length g) (sd_Metric d) (map sd_Content g))\<rparr>)"

lemma combine_sms_group_eq:
  "g \<noteq> [] \<Longrightarrow> ae_lpush env QSms \<Longrightarrow> combine_sms_group env st g = st\<lparr>al_Sms := Decoded (sms_of env g) # al_Sms st\<rparr>"
  by (cases g; cases "tl g") (simp_all add: combine_sms_group_def WriteSms_def sms_of_def Let_def)

lemma combine_sms_groups:
  assumes "ae_lpush env QSms" "list_all (\<lambda>g. g \<noteq> []) gs"
  shows "foldl (combine_sms_group env) st gs = st\<lparr>al_Sms := rev (map (Decoded \<circ> sms_of env) gs) @ al_Sms st\<rparr>"
  using assms by (induction gs arbitrary: st) (simp_all add: combine_sms_group_eq)

definition sms_class :: "sms_dto \<Rightarrow> int \<times> string \<times> string \<times> string" where
  "sms_class d = (sd_Priority d, sd_Status d, sd_Phone d, sd_Metric d)"

definition keys_distinguish :: "('a \<Rightarrow> string) \<Rightarrow> ('a \<Rightarrow> 'c) \<Rightarrow> 'a list \<Rightarrow> bool" where
  "keys_distinguish key cls ds \<longleftrightarrow> list_all (\<lambda>d. list_all (\<lambda>d'. key d = key d' \<longleftrightarrow> cls d = cls d') ds) ds"

text \<open>
  C16: A round of the combiner empties the queue of short messages and writes one message for each
  priority, status, phone and metric that waited, to that phone: the message itself where it is
  alone, a summary of all of them otherwise; provided the printed keys tell the four apart.
\<close>

theorem combineSms_delivers:
  assumes "\<And>m. mset (visit m) = mset m" "ae_lpush env QSms" "length (al_UserSms st) < n"
    and "keys_distinguish sms_key sms_class (decoded (rev (al_UserSms st)))"
  shows "\<exists>gs. classes_of sms_class (decoded (rev (al_UserSms st))) gs \<and>
    combineSms visit env n st = st\<lparr>al_UserSms := [], al_Sms := rev (map (Decoded \<circ> sms_of env) gs) @ al_Sms st\<rparr>"
proof -
  let ?ds = "decoded (rev (al_UserSms st))"
  let ?gs = "map snd (visit (group_by_key sms_key ?ds))"
  have c: "classes_of sms_class ?ds ?gs"
    using assms(4) by (intro groups_classes [OF assms(1)]) (simp add: keys_distinguish_def list_all_iff)
  then have ne: "list_all (\<lambda>g. g \<noteq> []) ?gs" by (simp add: classes_of_def list_all_iff)
  have pop: "popAllSmsDto n st = (?ds, st\<lparr>al_UserSms := []\<rparr>)"
    using pop_all_loop_all [OF assms(3), of "[]"] by (simp add: popAllSmsDto_def)
  have empty: "?gs = []" if "?ds = []"
  proof -
    have "mset (visit (group_by_key sms_key ?ds)) = {#}" unfolding assms(1) that by (simp add: group_by_key_def)
    then show ?thesis by simp
  qed
  have "combineSms visit env n st = foldl (combine_sms_group env) (st\<lparr>al_UserSms := []\<rparr>) ?gs"
    using empty by (simp add: combineSms_def pop foldl_map)
  also have "\<dots> = st\<lparr>al_UserSms := [], al_Sms := rev (map (Decoded \<circ> sms_of env) ?gs) @ al_Sms st\<rparr>"
    using combine_sms_groups [OF assms(2) ne] by simp
  finally show ?thesis using c by blast
qed

text \<open>
  The key of the combiner is the four fields printed without a separator, so two messages whose
  account and metric run together alike are combined: here the one for the account \<open>a @ b\<close> is
  lost, and only the account \<open>a\<close> is told.
\<close>

theorem combined_account_not_told:
  assumes "\<And>m. mset (visit m) = mset m" "ae_lpush env QIM" "2 < n" "al_IM st = []"
    and "al_UserIM st = [Decoded d2, Decoded d1]" "it_Priority d1 = it_Priority d2" "it_Status d1 = it_Status d2"
    and "it_IM d1 = a" "it_Metric d1 = b @ c" "it_IM d2 = a @ b" "it_Metric d2 = c" "b \<noteq> ''''"
  shows "map im_Tos (decoded (al_IM (combineIM visit env n st))) = [a] \<and> it_IM d2 \<noteq> a"
proof -
  have pop: "popAllImDto n st = ([d1, d2], st\<lparr>al_UserIM := []\<rparr>)"
    using pop_all_loop_all [of "al_UserIM st" n "[]"] assms(3,5)
    by (simp add: popAllImDto_def decoded_def map_filter_simps)
  have k: "im_key d1 = im_key d2" using assms by (simp add: im_key_def)
  have "group_by_key im_key [d1, d2] = [(im_key d2, [d1, d2])]" by (simp add: group_by_key_def add_to_bucket_def k)
  moreover have "visit [(im_key d2, [d1, d2])] = [(im_key d2, [d1, d2])]"
    using assms(1) [of "[(im_key d2, [d1, d2])]"] by simp
  ultimately show ?thesis using assms(2,4,8,10,12)
    by (simp add: combineIM_def pop combine_im_group_def WriteIM_def decoded_def map_filter_simps)
qed

section \<open>Taking events in order\<close>

text \<open>
  An event is taken from the first queue that has one, so one of a less urgent queue only when the
  more urgent are empty, and it is the oldest of its queue; nothing else leaves Redis, and nothing
  happens while all queues are empty.
\<close>

theorem brpop_urgent_oldest:
  "brpop qs M = None \<and> list_all (\<lambda>q. bucket M q = []) qs
  \<or> (\<exists>pre q post xs x. qs = pre @ q # post \<and> list_all (\<lambda>q. bucket M q = []) pre \<and> bucket M q = xs @ [x] \<and>
      brpop qs M = Some (x, gput q xs M) \<and> (\<forall>k. bucket (gput q xs M) k = (if k = q then xs else bucket M k)))"
proof (induction qs)
  case (Cons q qs)
  show ?case
  proof (cases "bucket M q" rule: rev_cases)
    case Nil
    with Cons show ?thesis
    proof (elim disjE exE conjE)
      fix pre q' post xs x
      assume "qs = pre @ q' # post" "list_all (\<lambda>q. bucket M q = []) pre" "bucket M q' = xs @ [x]"
        "brpop qs M = Some (x, gput q' xs M)" "\<forall>k. bucket (gput q' xs M) k = (if k = q' then xs else bucket M k)"
      then show ?thesis using Nil by (intro disjI2 exI [of _ "q # pre"] exI [of _ q'] exI [of _ post] exI [of _ xs] exI [of _ x]) simp
    qed simp
  next
    case (snoc xs x)
    then have "bucket M q = (hd (xs @ [x])) # tl (xs @ [x])" by simp
    with snoc have "brpop (q # qs) M = Some (x, gput q xs M)" by (cases xs) simp_all
    moreover have "bucket (gput q xs M) k = (if k = q then xs else bucket M k)" for k by (simp add: bucket_def)
    ultimately show ?thesis using snoc
      by (intro disjI2 exI [of _ "[]"] exI [of _ q] exI [of _ qs] exI [of _ xs] exI [of _ x]) simp
  qed
qed simp

section \<open>Instances\<close>

definition demo_alarm :: event where
  "demo_alarm = \<lparr>ev_Id = ''s_1_x'', ev_Strategy = Some \<lparr>st_Id = 1, st_Metric = ''cpu'', st_Tags = [], st_Func = ''all(#3)'',
      st_Operator = ''>'', st_RightValue = f_of_int 80, st_MaxStep = 3, st_Priority = 4, st_Note = ''n'',
      st_Tpl = Some \<lparr>tpl_Id = 5, tpl_Name = ''t'', tpl_ParentId = 0, tpl_ActionId = 9, tpl_Creator = ''root''\<rparr>\<rparr>,
    ev_Expression = None, ev_Status = ''PROBLEM'', ev_Endpoint = ''h'', ev_LeftValue = f_of_int 90, ev_CurrentStep = 2,
    ev_EventTime = 60, ev_PushedTags = []\<rparr>"

definition demo_env :: alarm_env where
  "demo_env = \<lparr>ae_time = itoa,
    ae_action = (\<lambda>i. Some \<lparr>ac_Id = i, ac_Uic = ''ops'', ac_Url = '''', ac_Callback = 0, ac_BeforeCallbackSms = 0,
      ac_BeforeCallbackMail = 0, ac_AfterCallbackSms = 0, ac_AfterCallbackMail = 0\<rparr>),
    ae_team = (\<lambda>t. Some [\<lparr>us_Name = ''u'', us_Phone = ''138'', us_Email = ''u@x'', us_IM = ''u''\<rparr>]),
    ae_callback = (\<lambda>c. (''ok'', None)), ae_link = (\<lambda>t. Inl ''down''), ae_lpush = (\<lambda>q. True), ae_users = (\<lambda>m. m),
    ae_slice = (\<lambda>xs. xs), ae_Dashboard = ''http''\<rparr>"

definition empty_alarm :: alarm_state where
  "empty_alarm = \<lparr>al_Events = [], al_UserSms = [], al_UserIM = [], al_UserMail = [], al_Sms = [], al_IM = [], al_Mail = [],
    al_Actions = [], al_Users = [], al_Cases = [], al_Rows = []\<rparr>"

lemma InsertEvent_case_witness:
  "\<exists>st'. InsertEvent \<lparr>ii_select = True, ii_case = True, ii_row = True, ii_stamp = None\<rparr> demo_alarm empty_alarm = Some st' \<and>
    map_option ec_Status (gget (al_Cases st') ''s_1_x'') = Some ''PROBLEM''"
proof -
  have "event_complete demo_alarm" by (simp add: event_complete_def demo_alarm_def)
  from InsertEvent_case [OF this, of "\<lparr>ii_select = True, ii_case = True, ii_row = True, ii_stamp = None\<rparr>" empty_alarm]
  show ?thesis by (auto simp: demo_alarm_def)
qed

definition waiting_sms :: "string \<Rightarrow> string \<Rightarrow> sms_dto reply" where
  "waiting_sms metric phone = Decoded \<lparr>sd_Priority = 4, sd_Metric = metric, sd_Content = ''[P4][OK][h][][x]'', sd_Phone = phone,
    sd_Status = ''OK''\<rparr>"

lemma combineSms_delivers_witness:
  "length (al_Sms (combineSms (\<lambda>m. m) demo_env 9 (empty_alarm\<lparr>al_UserSms :=
      [waiting_sms ''cpu'' ''138'', Blank, waiting_sms ''mem'' ''138'', waiting_sms ''cpu'' ''138'']\<rparr>))) = 2
    \<and> al_UserSms (combineSms (\<lambda>m. m) demo_env 9 (empty_alarm\<lparr>al_UserSms :=
      [waiting_sms ''cpu'' ''138'', Blank, waiting_sms ''mem'' ''138'', waiting_sms ''cpu'' ''138'']\<rparr>)) = []"
proof
  let ?st = "empty_alarm\<lparr>al_UserSms := [waiting_sms ''cpu'' ''138'', Blank, waiting_sms ''mem'' ''138'', waiting_sms ''cpu'' ''138'']\<rparr>"
  have "keys_distinguish sms_key sms_class (decoded (rev (al_UserSms ?st)))" by code_simp
  then obtain gs where "combineSms (\<lambda>m. m) demo_env 9 ?st =
      ?st\<lparr>al_UserSms := [], al_Sms := rev (map (Decoded \<circ> sms_of demo_env) gs) @ al_Sms ?st\<rparr>"
    using combineSms_delivers [of "\<lambda>m. m" demo_env ?st 9] by (auto simp: demo_env_def)
  then show "al_UserSms (combineSms (\<lambda>m. m) demo_env 9 ?st) = []" by simp
  show "length (al_Sms (combineSms (\<lambda>m. m) demo_env 9 ?st)) = 2" by code_simp
qed

definition waiting_im :: "string \<Rightarrow> string \<Rightarrow> im_dto" where
  "waiting_im metric account = \<lparr>it_Priority = 4, it_Metric = metric, it_Content = ''x'', it_IM = account, it_Status = ''OK''\<rparr>"

lemma combined_account_not_told_witness:
  "map im_Tos (decoded (al_IM (combineIM (\<lambda>m. m) demo_env 9 (empty_alarm\<lparr>al_UserIM :=
      [Decoded (waiting_im ''load'' ''bobcpu.''), Decoded (waiting_im ''cpu.load'' ''bob'')]\<rparr>)))) = [''bob'']"
  using combined_account_not_told [of "\<lambda>m. m" demo_env 9
      "empty_alarm\<lparr>al_UserIM := [Decoded (waiting_im ''load'' ''bobcpu.''), Decoded (waiting_im ''cpu.load'' ''bob'')]\<rparr>"
      "waiting_im ''load'' ''bobcpu.''" "waiting_im ''cpu.load'' ''bob''" "''bob''" "''cpu.''" "''load''"]
  by (simp add: demo_env_def empty_alarm_def waiting_im_def)

end
