(* ===== verification/Composition.thy ===== *)
theory Composition
  imports Judge_Process Hbs_Serve Hbs_Agents Transfer_Deliver Alarm_Flow
begin

text \<open>
  The processes together: strategies travel from the heartbeat server to the judges, points from
  the transfer to the judges, events from the judges through Redis to the alarm consumer. What one
  side promises is what the next assumes.
\<close>

section \<open>From the heartbeat server to the judge\<close>

lemma survivors_stored:
  "s \<in> set (survivors (Tpl2Strategies m) b) \<Longrightarrow> s \<in> snd ` set m"
  using survivors_sub [of s "Tpl2Strategies m" b] by (auto simp: bucket_Tpl2Strategies)

lemma rebind_strategy_ok [simp]: "strategy_ok (rebind T l s) = strategy_ok s"
  by (simp add: rebind_def strategy_ok_def)

lemma served_strategy_ok:
  assumes "permutes_maps visit" "list_all (\<lambda>(i, s). strategy_ok s) (hb_Strategies st)"
  shows "list_all strategy_ok (served visit st tids)"
proof -
  from Calc_buckets [OF assms(1) tpl2_ok_Tpl2Strategies, of "hb_TemplateCache st" tids "hb_Strategies st"]
    served_calc [OF assms(1), of st tids]
  have "set (served visit st tids) \<subseteq> (\<Union>b\<in>set (uniq_tpl_buckets (chains_of (hb_TemplateCache st) tids)).
      rebind (hb_TemplateCache st) (last b) ` set (survivors (Tpl2Strategies (hb_Strategies st)) b))" by auto
  then show ?thesis using assms(2) survivors_stored by (fastforce simp: list_all_iff)
qed

definition hosts_slash_free :: "hbs_state \<Rightarrow> bool" where
  "hosts_slash_free st \<longleftrightarrow> list_all (\<lambda>(i, h). slash_free (ho_Name h)) (hb_MonitoredHosts st)"

lemma response_entry:
  assumes "permutes_maps visit"
  shows "hs \<in> set (List.map_filter (host_response visit st) rows) \<longleftrightarrow>
    (\<exists>hid tids h. (hid, tids) \<in> set rows \<and> gget (hb_MonitoredHosts st) hid = Some h \<and>
      served visit st tids \<noteq> [] \<and> hs = \<lparr>hs_Hostname = ho_Name h, hs_Strategies = served visit st tids\<rparr>)"
  by (force simp: List.map_filter_def host_response_def split: option.splits if_splits)

lemma GetStrategies_strategy_ok:
  assumes "permutes_maps visit" "list_all (\<lambda>(i, s). strategy_ok s) (hb_Strategies st)" "hbs_GetStrategies visit st = Some resp"
    "hs \<in> set resp"
  shows "list_all strategy_ok (hs_Strategies hs)"
  using assms(3,4) served_strategy_ok [OF assms(1,2)] by (auto simp: GetStrategies_map [OF assms(1)] response_entry [OF assms(1)])

text \<open>
  Whatever strategies the heartbeat server serves, as long as those stored in the database have
  parseable functions, the judge takes them: after the refresh receiving points does not panic,
  and the judge is in a reachable state again.
\<close>

theorem served_strategies_safe:
  assumes "permutes_maps visit" "list_all (\<lambda>(i, s). strategy_ok s) (hb_Strategies hs)"
    "judge_reachable cfg js" "0 \<le> jc_Remain cfg" "list_all input_ok items" "sane_time now"
  shows "\<exists>resp js'. hbs_GetStrategies visit hs = Some resp \<and>
    Send cfg now (syncStrategies (Inr resp) js) items = Some js' \<and> judge_reachable cfg js'"
proof -
  obtain resp where resp: "hbs_GetStrategies visit hs = Some resp" using GetStrategies_map [OF assms(1)] by blast
  have "judge_step cfg js (syncStrategies (Inr resp) js)"
    using GetStrategies_strategy_ok [OF assms(1,2) resp] by (intro judge_step.strategies) simp
  then have r: "judge_reachable cfg (syncStrategies (Inr resp) js)" by (rule judge_reachable.step [OF assms(3)])
  from Send_total [OF judge_reachable_inv [OF r assms(4)] assms(5,6,4)]
  obtain js' where s: "Send cfg now (syncStrategies (Inr resp) js) items = Some js'" by blast
  have "judge_reachable cfg js'" by (rule judge_reachable.step [OF r receive [OF assms(5,6) s]])
  with resp s show ?thesis by blast
qed

text \<open>
  C3: What the judge files under an endpoint and a metric after a refresh are exactly the strategies
  of that metric that the templates of that host give by inheritance: none of another host,
  whatever slashes the metrics contain, as long as host names have none.
\<close>

theorem served_strategies_filed:
  assumes "permutes_maps visit" "hosts_slash_free hs" "slash_free h"
  shows "\<exists>resp. hbs_GetStrategies visit hs = Some resp \<and>
    (\<forall>m s. s \<in> set (bucket (js_strategies (syncStrategies (Inr resp) js)) (h @ ''/'' @ m)) \<longleftrightarrow>
      (\<exists>hid tids host ss. (hid, tids) \<in> set (hb_HostTemplateIds hs) \<and> gget (hb_MonitoredHosts hs) hid = Some host \<and>
        ho_Name host = h \<and> CalcInheritStrategies visit (hb_TemplateCache hs) tids (Tpl2Strategies (hb_Strategies hs)) = Some ss \<and>
        s \<in> set ss \<and> st_Metric s = m))"
proof (intro exI conjI allI)
  let ?resp = "List.map_filter (host_response visit hs) (hb_HostTemplateIds hs)"
  show "hbs_GetStrategies visit hs = Some ?resp" by (rule GetStrategies_map [OF assms(1)])
  have key: "strategy_key (ho_Name host) s = h @ CHR ''/'' # m \<longleftrightarrow> ho_Name host = h \<and> st_Metric s = m"
    if "gget (hb_MonitoredHosts hs) hid = Some host" for hid host s m
  proof -
    have "slash_free (ho_Name host)"
      using assms(2) map_of_SomeD [OF that] by (fastforce simp: hosts_slash_free_def list_all_iff)
    then show ?thesis
      using append_sep_inj [of "ho_Name host" "CHR ''/''" "st_Metric s" h m] assms(3)
      by (auto simp: strategy_key_def slash_free_def)
  qed
  fix m s
  have "s \<in> set (bucket (js_strategies (syncStrategies (Inr ?resp) js)) (h @ ''/'' @ m)) \<longleftrightarrow>
      (\<exists>e\<in>set ?resp. s \<in> set (hs_Strategies e) \<and> strategy_key (hs_Hostname e) s = h @ ''/'' @ m)"
    by (auto simp: syncStrategies_def strategies_bucket)
  also have "\<dots> \<longleftrightarrow> (\<exists>hid tids host. (hid, tids) \<in> set (hb_HostTemplateIds hs) \<and> gget (hb_MonitoredHosts hs) hid = Some host \<and>
      s \<in> set (served visit hs tids) \<and> strategy_key (ho_Name host) s = h @ ''/'' @ m)"
    (is "?E \<longleftrightarrow> ?S")
  proof
    assume ?E
    then obtain e where "e \<in> set ?resp" "s \<in> set (hs_Strategies e)" "strategy_key (hs_Hostname e) s = h @ ''/'' @ m" by blast
    then show ?S unfolding response_entry [OF assms(1)] by force
  next
    assume ?S
    then obtain hid tids host where d: "(hid, tids) \<in> set (hb_HostTemplateIds hs)" "gget (hb_MonitoredHosts hs) hid = Some host"
        "s \<in> set (served visit hs tids)" "strategy_key (ho_Name host) s = h @ ''/'' @ m" by blast
    then have "\<lparr>hs_Hostname = ho_Name host, hs_Strategies = served visit hs tids\<rparr> \<in> set ?resp"
      unfolding response_entry [OF assms(1)] by force
    with d show ?E by force
  qed
  also have "\<dots> \<longleftrightarrow> (\<exists>hid tids host ss. (hid, tids) \<in> set (hb_HostTemplateIds hs) \<and> gget (hb_MonitoredHosts hs) hid = Some host \<and>
      ho_Name host = h \<and> CalcInheritStrategies visit (hb_TemplateCache hs) tids (Tpl2Strategies (hb_Strategies hs)) = Some ss \<and>
      s \<in> set ss \<and> st_Metric s = m)"
    by (simp add: served_calc [OF assms(1)] key cong: conj_cong) blast
  finally show "s \<in> set (bucket (js_strategies (syncStrategies (Inr ?resp) js)) (h @ ''/'' @ m)) \<longleftrightarrow>
    (\<exists>hid tids host ss. (hid, tids) \<in> set (hb_HostTemplateIds hs) \<and> gget (hb_MonitoredHosts hs) hid = Some host \<and>
      ho_Name host = h \<and> CalcInheritStrategies visit (hb_TemplateCache hs) tids (Tpl2Strategies (hb_Strategies hs)) = Some ss \<and>
      s \<in> set ss \<and> st_Metric s = m)" .
qed

section \<open>From the transfer to the judge\<close>

lemma valid_judge_item:
  assumes "meta_valid now d" "0 < now" "now < 2 ^ 60"
  shows "\<exists>it. convert2JudgeItem minStep d = Some it \<and> input_ok it"
proof -
  let ?s = "clamp_step minStep (md_Step d)"
  let ?t = "md_Timestamp d"
  have s: "0 < ?s" using assms(1) by (simp add: meta_valid_def clamp_step_def)
  have t: "0 < ?t" "?t < 2 ^ 61" using assms by (auto simp: meta_valid_def i64_id in_i64_def)
  have r: "0 \<le> ?t mod ?s" "?t mod ?s \<le> ?t" using s t(1) by (simp_all add: zmod_le_nonneg_dividend)
  have m: "?t smod ?s = ?t mod ?s" using s t(1) by (simp add: smod_nonneg)
  have "in_i64 (?t mod ?s)" "in_i64 (?t - ?t mod ?s)" using r t by (simp_all add: in_i64_def)
  then have "alignTs ?t ?s = Some (?t - ?t mod ?s)" using s by (simp add: alignTs_def go_mod_def m i64_id)
  moreover have "sane_time (?t - ?t mod ?s)" using r t by (simp add: sane_time_def)
  moreover have "md_CounterType d \<noteq> ''''" using assms(1) by (auto simp: meta_valid_def GAUGE_def COUNTER_def DERIVE_def)
  ultimately show ?thesis by (simp add: convert2JudgeItem_def input_ok_def)
qed

lemma foldM_convert:
  assumes "list_all (\<lambda>d. \<exists>it. f d = Some it \<and> P it) ds"
  shows "\<exists>its. those (map f ds) = Some its \<and> length its = length ds \<and> list_all P its"
  using assms by (induction ds) auto

text \<open>
  C4: No point the transfer accepts over RPC can, by what it holds, panic a judge: whatever arguments
  it received, at a clock between 1 and 2^60 seconds, every point it kept converts to a judge item (the
  alignment does not divide by zero, the type is not empty, the time is sane), and a judge that
  receives these items returns and is in a reachable state again. The judge is one of the states of
  \<open>judge_reachable\<close>: so far it was served only strategies and expressions whose functions
  parse, it received only items with a type and a sane time, and its clock is and was below 2^62; it keeps a
  number of points that is not negative. The API does not check functions: with a stored \<open>lookup(#2)\<close>
  the judge panics when it judges an accepted point by it (\<open>unparsed_function_panics\<close>).
\<close>

theorem received_points_safe:
  assumes "0 < now" "now < 2 ^ 60" "judge_reachable cfg js" "0 \<le> jc_Remain cfg" "sane_time now'"
  shows "\<exists>its js'. those (map (convert2JudgeItem minStep) (fst (recv_points now args))) = Some its \<and>
    Send cfg now' js its = Some js' \<and> judge_reachable cfg js'"
proof -
  have "list_all (meta_valid now) (fst (recv_points now args))"
    using recv_point_valid [OF assms(1)] by (auto simp: recv_points_eq list_all_iff List.map_filter_def)
  then have "list_all (\<lambda>d. \<exists>it. convert2JudgeItem minStep d = Some it \<and> input_ok it) (fst (recv_points now args))"
    using valid_judge_item [OF _ assms(1,2)] by (auto simp: list_all_iff)
  from foldM_convert [OF this] obtain its where its: "those (map (convert2JudgeItem minStep) (fst (recv_points now args))) = Some its"
    "list_all input_ok its" by blast
  from Send_total [OF judge_reachable_inv [OF assms(3,4)] its(2) assms(5,4)]
  obtain js' where s: "Send cfg now' js its = Some js'" by blast
  have "judge_reachable cfg js'" by (rule judge_reachable.step [OF assms(3) receive [OF its(2) assms(5) s]])
  with its s show ?thesis by blast
qed

section \<open>From the judge to the alarm consumer\<close>

text \<open>Every event that left the judge is complete, and so will be those of the strategies it has.\<close>

definition log_ok :: "judge_state \<Rightarrow> bool" where
  "log_ok st \<longleftrightarrow> list_all (\<lambda>(q, e). event_complete e) (js_redis st) \<and>
    (\<forall>k. list_all (\<lambda>s. st_Tpl s \<noteq> None) (bucket (js_strategies st) k))"

lemma event_complete_status [simp]:
  "event_complete (e\<lparr>ev_Status := s, ev_CurrentStep := n\<rparr>) = event_complete e"
  by (cases e) (simp add: event_complete_def split: option.splits)

lemma sendEvent_log:
  "log_ok st \<Longrightarrow> event_complete ev \<Longrightarrow> sendEvent cfg st ev = Some st' \<Longrightarrow> log_ok st'"
  by (auto simp: sendEvent_def Let_def log_ok_def split: if_splits bind_splits)

lemma sendEventIfNeed_log:
  assumes "log_ok st" "event_complete ev" "sendEventIfNeed cfg st vs trig now ev ms = Some st'"
  shows "log_ok st'"
proof -
  have "log_ok st1" if "sendEvent cfg st (ev\<lparr>ev_Status := s, ev_CurrentStep := n\<rparr>) = Some st1" for s n st1
    using sendEvent_log [OF assms(1) _ that] assms(2) by simp
  then show ?thesis using assms(1,3)
    by (auto simp: sendEventIfNeed_def Let_def split: if_splits option.splits list.splits)
qed

lemma judge_fn_log:
  assumes "log_ok st" "\<And>l. event_complete (mk l)"
    and "(case p of None \<Rightarrow> None | Some (Inl err) \<Rightarrow> Some st
      | Some (Inr fn) \<Rightarrow> do {
         res \<leftarrow> Compute fn L;
         if \<not> cr_enough res then Some st
         else sendEventIfNeed cfg st (cr_vs res) (cr_triggered res) now (mk (cr_left res)) ms
       }) = Some st'"
  shows "log_ok st'"
  using assms(1,3) sendEventIfNeed_log [OF assms(1) assms(2)]
  by (auto split: option.splits sum.splits bind_splits if_splits)

lemma judgeItemWithStrategy_log:
  "log_ok st \<Longrightarrow> st_Tpl s \<noteq> None \<Longrightarrow> judgeItemWithStrategy cfg L it now st s = Some st' \<Longrightarrow> log_ok st'"
  unfolding judgeItemWithStrategy_def
  by (erule judge_fn_log [rotated 2]) (simp_all add: event_complete_def)

lemma judgeItemWithExpression_log:
  "log_ok st \<Longrightarrow> judgeItemWithExpression cfg L it now st x = Some st' \<Longrightarrow> log_ok st'"
  unfolding judgeItemWithExpression_def
  by (erule judge_fn_log [rotated 2]) (simp_all add: event_complete_def mk_event_def)

lemma CheckStrategy_log:
  assumes "log_ok st" "CheckStrategy cfg L it now st = Some st'"
  shows "log_ok st'"
proof (cases "gget (js_strategies st) (ji_Endpoint it @ ''/'' @ ji_Metric it)")
  case (Some ss)
  have "list_all (\<lambda>s. st_Tpl s \<noteq> None) ss"
    using assms(1) Some unfolding log_ok_def bucket_def by (metis option.simps(5))
  moreover have "foldM (\<lambda>st s. if tags_match (st_Tags s) (ji_Tags it)
      then judgeItemWithStrategy cfg L it now st s else Some st) st ss = Some st'"
    using assms(2) Some by (simp add: CheckStrategy_def)
  ultimately show ?thesis
  proof (elim foldM_invariant [where P = log_ok])
    fix s x s1
    assume "list_all (\<lambda>s. st_Tpl s \<noteq> None) ss" "log_ok s" "x \<in> set ss"
      "(if tags_match (st_Tags x) (ji_Tags it) then judgeItemWithStrategy cfg L it now s x else Some s) = Some s1"
    then show "log_ok s1" using judgeItemWithStrategy_log [of s x cfg L it now s1] by (auto simp: list_all_iff split: if_splits)
  qed (rule assms(1))
qed (use assms in \<open>simp add: CheckStrategy_def\<close>)

lemma CheckExpression_log:
  assumes "log_ok st" "CheckExpression cfg L it now st = Some st'"
  shows "log_ok st'"
  using assms(2) unfolding CheckExpression_worklist
  by (rule foldM_invariant [where P = log_ok]) (rule assms(1), rule judgeItemWithExpression_log)

lemma Judge_log:
  assumes "log_ok st" "Judge cfg L it now st = Some st'"
  shows "log_ok st'"
proof -
  from assms(2) obtain st1 where "CheckStrategy cfg L it now st = Some st1" "CheckExpression cfg L it now st1 = Some st'"
    by (cases "CheckStrategy cfg L it now st") (simp_all add: Judge_def)
  then show ?thesis using CheckExpression_log CheckStrategy_log [OF assms(1)] by blast
qed

lemma log_ok_big [simp]: "log_ok (st\<lparr>js_big := M\<rparr>) = log_ok st"
  by (simp add: log_ok_def)

lemma Send_log:
  assumes "log_ok st" "Send cfg now st items = Some st'"
  shows "log_ok st'"
  using assms(2) unfolding Send_def
proof (rule foldM_invariant [where P = log_ok])
  fix s x s1
  assume "log_ok s" "Send_item cfg now s x = Some s1"
  then show "log_ok s1"
    using Judge_log [of "s\<lparr>js_big := _\<rparr>"]
    by (auto simp: Send_item_def PushFrontAndMaintain_def Let_def split: bind_splits option.splits if_splits)
qed (rule assms(1))

lemma sync_log:
  assumes "permutes_maps visit" "log_ok st" "hbs_GetStrategies visit h = Some resp"
  shows "log_ok (syncStrategies (Inr resp) st)"
proof -
  have "list_all (\<lambda>s. st_Tpl s \<noteq> None) (hs_Strategies hs)" if "hs \<in> set resp" for hs
    using that assms(3) served_ok [OF assms(1), of h]
    by (auto simp: GetStrategies_map [OF assms(1)] response_entry [OF assms(1)] list_all_iff)
  then have "list_all (\<lambda>s. st_Tpl s \<noteq> None) (bucket (js_strategies (rebuildStrategyMap resp st)) k)" for k
    by (auto simp: strategies_bucket list_all_iff)
  then show ?thesis using assms(2) by (simp add: syncStrategies_def log_ok_def rebuildStrategyMap_def)
qed

section \<open>The processes as one system\<close>

text \<open>
  One heartbeat server, one judge and one alarm consumer with the Redis between them. A step is a
  handler of one of them; what a judge pushes appears in the event queues of the alarm consumer.
  The heartbeat server may take any step, so it may load functions that do not parse. The points
  are those a transfer accepted over RPC, at any time before.
\<close>

record falcon =
  fa_hbs :: hbs_state
  fa_judge :: judge_state
  fa_alarm :: alarm_state

definition lpush_events ::
    "(string \<times> event) list \<Rightarrow> (string, event reply list) gomap \<Rightarrow> (string, event reply list) gomap" where
  "lpush_events evs M = foldl (\<lambda>M (q, e). gput q (Decoded e # bucket M q) M) M evs"

definition functions_parse :: "hbs_state \<Rightarrow> bool" where
  "functions_parse h \<longleftrightarrow> list_all (\<lambda>(i, s). strategy_ok s) (hb_Strategies h) \<and> list_all expression_ok (hb_ExpressionCache h)"

inductive from_transfer :: "judge_item \<Rightarrow> bool" where
  transferred: "0 < now \<Longrightarrow> now < 2 ^ 60 \<Longrightarrow> d \<in> set (fst (recv_points now args)) \<Longrightarrow>
    convert2JudgeItem minStep d = Some it \<Longrightarrow> from_transfer it"

inductive falcon_step :: "(stras_map \<Rightarrow> stras_map) \<Rightarrow> judge_config \<Rightarrow> falcon \<Rightarrow> falcon \<Rightarrow> bool" for visit cfg where
  hbs_acts: "hbs_step (fa_hbs s) h \<Longrightarrow> falcon_step visit cfg s (s\<lparr>fa_hbs := h\<rparr>)"
| strategies_sync: "hbs_GetStrategies visit (fa_hbs s) = Some resp \<Longrightarrow>
    falcon_step visit cfg s (s\<lparr>fa_judge := syncStrategies (Inr resp) (fa_judge s)\<rparr>)"
| expressions_sync: "falcon_step visit cfg s
    (s\<lparr>fa_judge := syncExpression (Inr (hbs_GetExpressions (fa_hbs s))) (fa_judge s)\<rparr>)"
| points_arrive: "list_all from_transfer items \<Longrightarrow> sane_time now \<Longrightarrow> Send cfg now (fa_judge s) items = Some j \<Longrightarrow>
    falcon_step visit cfg s (s\<lparr>fa_judge := j, fa_alarm := (fa_alarm s)\<lparr>al_Events :=
      lpush_events (drop (length (js_redis (fa_judge s))) (js_redis j)) (al_Events (fa_alarm s))\<rparr>\<rparr>)"
| judge_cleans: "falcon_step visit cfg s (s\<lparr>fa_judge := clean_judge now (fa_judge s)\<rparr>)"
| alarm_reads: "read_round isHigh env up io queues (fa_alarm s) = Some a \<Longrightarrow> falcon_step visit cfg s (s\<lparr>fa_alarm := a\<rparr>)"
| alarm_combines: "al_Events a = al_Events (fa_alarm s) \<Longrightarrow> falcon_step visit cfg s (s\<lparr>fa_alarm := a\<rparr>)"

text \<open>The last step stands for everything else the alarm consumer does: combining, sending, cleaning.\<close>

text \<open>A run is the list of the states it went through, the latest first.\<close>

inductive falcon_run :: "(stras_map \<Rightarrow> stras_map) \<Rightarrow> judge_config \<Rightarrow> falcon list \<Rightarrow> bool" for visit cfg where
  falcon_start: "al_Events a = [] \<Longrightarrow> falcon_run visit cfg [\<lparr>fa_hbs = init_hbs, fa_judge = init_judge, fa_alarm = a\<rparr>]"
| falcon_next: "falcon_run visit cfg (s # past) \<Longrightarrow> falcon_step visit cfg s s' \<Longrightarrow> falcon_run visit cfg (s' # s # past)"

definition queues_complete :: "(string, event reply list) gomap \<Rightarrow> bool" where
  "queues_complete M \<longleftrightarrow> (\<forall>q. list_all (\<lambda>r. \<exists>e. r = Decoded e \<and> event_complete e) (bucket M q))"

definition falcon_ok :: "judge_config \<Rightarrow> falcon \<Rightarrow> bool" where
  "falcon_ok cfg s \<longleftrightarrow> functions_parse (fa_hbs s) \<and> judge_inv cfg (fa_judge s) \<and> log_ok (fa_judge s) \<and>
    queues_complete (al_Events (fa_alarm s))"

lemma bucket_gput [simp]: "bucket (gput q xs M) k = (if k = q then xs else bucket M k)"
  by (simp add: bucket_def)

lemma queues_complete_push:
  "queues_complete M \<Longrightarrow> list_all (\<lambda>(q, e). event_complete e) evs \<Longrightarrow> queues_complete (lpush_events evs M)"
proof (induction evs arbitrary: M)
  case (Cons qe evs)
  obtain q e where qe: "qe = (q, e)" by (cases qe)
  have "queues_complete (gput q (Decoded e # bucket M q) M)"
    using Cons.prems by (simp add: queues_complete_def qe)
  from Cons.IH [OF this] Cons.prems(2) show ?case by (simp add: lpush_events_def qe)
qed (simp add: lpush_events_def)

lemma queues_complete_pop:
  assumes "queues_complete M" "brpop qs M = Some (r, M')"
  shows "queues_complete M' \<and> (\<exists>e. r = Decoded e \<and> event_complete e)"
  using assms(2)
proof (induction qs)
  case (Cons q qs)
  show ?case
  proof (cases "bucket M q")
    case (Cons x xs)
    then have e: "r = last (bucket M q)" "M' = gput q (butlast (bucket M q)) M" "bucket M q \<noteq> []"
      using Cons.prems by auto
    have "list_all (\<lambda>r. \<exists>e. r = Decoded e \<and> event_complete e) (bucket M q)"
      using assms(1) by (simp add: queues_complete_def)
    then have "list_all (\<lambda>r. \<exists>e. r = Decoded e \<and> event_complete e) (butlast (bucket M q))" "\<exists>e. r = Decoded e \<and> event_complete e"
      unfolding e(1) using e(3) by (auto simp: list_all_iff dest: in_set_butlastD)
    then show ?thesis using assms(1) unfolding e(2) by (simp add: queues_complete_def)
  qed (use Cons in simp)
qed simp

lemma read_round_ok:
  assumes "queues_complete (al_Events st)"
  shows "\<exists>st'. read_round isHigh env up io queues st = Some st' \<and> queues_complete (al_Events st')"
proof (cases "brpop queues (al_Events st)")
  case (Some rM)
  obtain r M where rM: "rM = (r, M)" by (cases rM)
  from queues_complete_pop [OF assms Some [unfolded rM]] obtain e where e: "r = Decoded e" "event_complete e" "queues_complete M"
    by blast
  from InsertEvent_total [OF e(2), of io "st\<lparr>al_Events := M\<rparr>"] obtain st1 where
    st1: "InsertEvent io e (st\<lparr>al_Events := M\<rparr>) = Some st1" "al_Events st1 = M" by auto
  from consume_total [OF e(2), of env isHigh st1] obtain st2 where st2: "consume env e isHigh st1 = Some st2" by blast
  show ?thesis
    using Some rM e st1 st2 frame_consume [OF st2] assms
    by (cases up) (simp_all add: read_round_def popEvent_def)
qed (use assms in \<open>simp add: read_round_def popEvent_def\<close>)

lemma from_transfer_ok: "from_transfer it \<Longrightarrow> input_ok it"
proof (induction rule: from_transfer.induct)
  case (transferred now d args minStep it)
  have "meta_valid now d"
    using transferred(3) recv_point_valid [OF transferred(1)] by (auto simp: recv_points_eq List.map_filter_def)
  from valid_judge_item [OF this transferred(1,2), of minStep] transferred(4) show ?case by simp
qed

lemma from_transfer_all: "list_all from_transfer items \<Longrightarrow> list_all input_ok items"
  by (simp add: list_all_iff from_transfer_ok)

lemma falcon_step_ok:
  assumes "falcon_step visit cfg s s'" "falcon_ok cfg s" "functions_parse (fa_hbs s')" "permutes_maps visit" "0 \<le> jc_Remain cfg"
  shows "falcon_ok cfg s'"
  using assms(1)
proof (cases rule: falcon_step.cases)
  case (hbs_acts h)
  then show ?thesis using assms(2,3) by (simp add: falcon_ok_def)
next
  case (strategies_sync resp)
  have "judge_inv cfg (syncStrategies (Inr resp) (fa_judge s))"
    using assms(2) GetStrategies_strategy_ok [OF assms(4) _ strategies_sync(2)]
    by (intro judge_inv_strategies) (auto simp: falcon_ok_def functions_parse_def)
  then show ?thesis using strategies_sync assms(2) sync_log [OF assms(4)] by (simp add: falcon_ok_def)
next
  case expressions_sync
  have "judge_inv cfg (syncExpression (Inr (hbs_GetExpressions (fa_hbs s))) (fa_judge s))"
    using assms(2) by (intro judge_inv_expressions) (auto simp: falcon_ok_def functions_parse_def hbs_GetExpressions_def)
  then show ?thesis using expressions_sync assms(2)
    by (simp add: falcon_ok_def log_ok_def syncExpression_def rebuildExpressionMap_def)
next
  case (points_arrive items now j)
  have inv: "judge_inv cfg (fa_judge s)" "log_ok (fa_judge s)" "queues_complete (al_Events (fa_alarm s))"
    using assms(2) by (simp_all add: falcon_ok_def)
  have j: "judge_inv cfg j" "log_ok j"
    using Send_total [OF inv(1) from_transfer_all [OF points_arrive(2)] points_arrive(3) assms(5)] Send_log [OF inv(2) points_arrive(4)] points_arrive(4) by auto
  have "list_all (\<lambda>(q, e). event_complete e) (drop n (js_redis j))" for n
    using j(2) set_drop_subset [of n "js_redis j"] by (auto simp: log_ok_def list_all_iff)
  then show ?thesis using points_arrive(1) j inv(3) queues_complete_push assms(2) by (simp add: falcon_ok_def)
next
  case (judge_cleans now)
  then show ?thesis using assms(2) judge_inv_clean [of cfg "fa_judge s" now]
    by (simp add: falcon_ok_def clean_judge_def)
next
  case (alarm_reads isHigh env up io queues a)
  have "queues_complete (al_Events (fa_alarm s))" using assms(2) by (simp add: falcon_ok_def)
  from read_round_ok [OF this, of isHigh env up io queues] alarm_reads assms(2) show ?thesis by (auto simp: falcon_ok_def)
next
  case (alarm_combines a)
  then show ?thesis using assms(2) by (simp add: falcon_ok_def)
qed

lemma falcon_run_ok:
  assumes "falcon_run visit cfg (s # past)" "list_all (\<lambda>t. functions_parse (fa_hbs t)) (s # past)"
    "permutes_maps visit" "0 \<le> jc_Remain cfg"
  shows "falcon_ok cfg s"
  using assms(1,2)
proof (induction "s # past" arbitrary: s past rule: falcon_run.induct)
  case (falcon_start a)
  then show ?case using judge_inv_init [of cfg]
    by (simp add: falcon_ok_def functions_parse_def init_hbs_def log_ok_def init_judge_def queues_complete_def)
next
  case (falcon_next s past s')
  show ?case using falcon_step_ok [OF falcon_next(3) falcon_next(2) _ assms(3,4)] falcon_next(4) by simp
qed

text \<open>
  C1: Heartbeat server, judge and alarm consumer work together without a panic, as long as
  the functions users stored parse. Take any run of the three from their start, in any order: the
  heartbeat server reloads its caches, takes reports and cleans, the judge refreshes, cleans and
  receives points a transfer accepted over RPC, the alarm consumer reads, files and combines. If in
  every state of the run all strategies and expressions of the heartbeat server's caches have
  functions that parse (\<open>functions_parse\<close>, windows below 2^63 - 2; the API does not check it, and
  \<open>lookup(#2)\<close> panics the judge),
  then in the last state strategies can be served, points from a transfer can be received at a
  sane clock, the alarm consumer can take, file and deliver whatever event comes first with any
  answers of its environment, and no event a judge raised lacks its action. The reload itself is
  not claimed: it can panic (C36), which ends the run. The judge keeps a number of points
  that is not negative.
\<close>

theorem falcon_never_panics:
  assumes "falcon_run visit cfg (s # past)" "list_all (\<lambda>t. functions_parse (fa_hbs t)) (s # past)"
    "permutes_maps visit" "0 \<le> jc_Remain cfg" "list_all from_transfer items" "sane_time now"
  shows "hbs_GetStrategies visit (fa_hbs s) \<noteq> None \<and> Send cfg now (fa_judge s) items \<noteq> None \<and>
    read_round isHigh env up io queues (fa_alarm s) \<noteq> None \<and>
    list_all (\<lambda>(q, e). ActionId e \<noteq> None) (js_redis (fa_judge s))"
proof -
  have ok: "falcon_ok cfg s" by (rule falcon_run_ok [OF assms(1-4)])
  then have "judge_inv cfg (fa_judge s)" "queues_complete (al_Events (fa_alarm s))" "log_ok (fa_judge s)"
    by (simp_all add: falcon_ok_def)
  moreover from this(3) have "list_all (\<lambda>(q, e). ActionId e \<noteq> None) (js_redis (fa_judge s))"
    using complete_fields(9) unfolding log_ok_def list_all_iff by fast
  ultimately show ?thesis
    using GetStrategies_map [OF assms(3), of "fa_hbs s"] Send_total [OF _ from_transfer_all [OF assms(5)] assms(6,4), of "fa_judge s"]
      read_round_ok [of "fa_alarm s" isHigh env up io queues]
    by fastforce
qed

text \<open>
  The condition on functions is needed: a strategy whose function does not parse panics the judge
  whenever it judges a point it applies to.
\<close>

theorem unparsed_function_panics:
  assumes "gget (js_strategies st) (ji_Endpoint it @ ''/'' @ ji_Metric it) = Some ss" "s \<in> set ss"
    "tags_match (st_Tags s) (ji_Tags it)" "ParseFuncFromString (st_Func s) (st_Operator s) (st_RightValue s) = None"
  shows "Judge cfg L it now st = None"
proof -
  have "foldM (\<lambda>st s. if tags_match (st_Tags s) (ji_Tags it)
      then judgeItemWithStrategy cfg L it now st s else Some st) st ss = None"
    using assms(2) by (rule foldM_None) (simp add: assms(3,4) judgeItemWithStrategy_def)
  moreover note assms(1)
  ultimately show ?thesis by (simp add: Judge_def CheckStrategy_def)
qed

section \<open>Instances\<close>

lemma demo_hbs_stored: "list_all (\<lambda>(i, s). strategy_ok s) (hb_Strategies demo_hbs)"
proof -
  have "list_all (\<lambda>(i, s). st_Func s = ''all(#3)'' \<and> st_Operator s = ''>'' \<and> st_RightValue s = f_zero \<and> st_MaxStep s = 3)
      (hb_Strategies demo_hbs)" by code_simp
  moreover have "parse_ok ''all(#3)'' ''>'' f_zero" by code_simp
  ultimately show ?thesis by (auto simp: list_all_iff strategy_ok_def in_i64_def)
qed

lemma served_strategies_safe_witness:
  "\<exists>resp js'. hbs_GetStrategies rev demo_hbs = Some resp \<and>
    Send demo_config 70 (syncStrategies (Inr resp) init_judge) [sample 60 90] = Some js' \<and> judge_reachable demo_config js'"
  by (rule served_strategies_safe [OF permutes_rev demo_hbs_stored judge_reachable.start])
    (simp_all add: demo_config_def input_ok_def sample_def sane_time_def)

lemma served_strategies_filed_witness:
  "20 \<in> st_Id ` set (bucket (js_strategies (syncStrategies (Inr (the (hbs_GetStrategies rev demo_hbs))) init_judge)) ''web1/cpu'')
    \<and> hbs_GetStrategies rev demo_hbs \<noteq> None"
proof -
  have f: "hosts_slash_free demo_hbs" "slash_free ''web1''" by code_simp+
  from served_strategies_filed [OF permutes_rev f, of init_judge]
  have "hbs_GetStrategies rev demo_hbs \<noteq> None" by blast
  moreover have "list_ex (\<lambda>s. st_Id s = 20)
      (bucket (js_strategies (syncStrategies (Inr (the (hbs_GetStrategies rev demo_hbs))) init_judge)) ''web1/cpu'')"
    by code_simp
  ultimately show ?thesis by (auto simp: list_ex_iff)
qed

lemma received_points_safe_witness:
  "\<exists>its js'. those (map (convert2JudgeItem 30) (fst (recv_points 1000 [Some (point ''cpu'' (VInt 5)), None]))) = Some its \<and>
    Send demo_config 1001 init_judge its = Some js' \<and> judge_reachable demo_config js'"
  by (rule received_points_safe [OF _ _ judge_reachable.start]) (simp_all add: demo_config_def sane_time_def)

lemma transferred_point:
  "from_transfer (the (convert2JudgeItem 30 (the (recv_point 1000 (Some (point ''cpu'' (VInt 5)))))))"
proof (rule transferred)
  show "the (recv_point 1000 (Some (point ''cpu'' (VInt 5)))) \<in> set (fst (recv_points 1000 [Some (point ''cpu'' (VInt 5))]))"
    by code_simp
  show "convert2JudgeItem 30 (the (recv_point 1000 (Some (point ''cpu'' (VInt 5))))) =
      Some (the (convert2JudgeItem 30 (the (recv_point 1000 (Some (point ''cpu'' (VInt 5)))))))"
    by code_simp
qed simp_all

lemma falcon_never_panics_witness:
  "\<exists>resp. hbs_GetStrategies rev demo_hbs = Some resp \<and> resp \<noteq> [] \<and>
    read_round True demo_env True \<lparr>ii_select = True, ii_case = True, ii_row = True, ii_stamp = None\<rparr> [''event:p0''] empty_alarm \<noteq> None \<and>
    Send demo_config 1001 (syncStrategies (Inr resp) init_judge)
      [the (convert2JudgeItem 30 (the (recv_point 1000 (Some (point ''cpu'' (VInt 5))))))] \<noteq> None"
proof -
  obtain resp where resp: "hbs_GetStrategies rev demo_hbs = Some resp" using GetStrategies_map [OF permutes_rev] by blast
  let ?s0 = "\<lparr>fa_hbs = init_hbs, fa_judge = init_judge, fa_alarm = empty_alarm\<rparr>"
  let ?s1 = "?s0\<lparr>fa_hbs := demo_hbs\<rparr>"
  let ?s2 = "\<lparr>fa_hbs = demo_hbs, fa_judge = syncStrategies (Inr resp) init_judge, fa_alarm = empty_alarm\<rparr>"
  have "hb_ExpressionCache demo_hbs = []" by code_simp
  then have "functions_parse demo_hbs" using demo_hbs_stored by (simp add: functions_parse_def)
  then have ok: "list_all (\<lambda>t. functions_parse (fa_hbs t)) [?s2, ?s1, ?s0]" by (simp add: functions_parse_def init_hbs_def)
  have "falcon_run rev demo_config [?s0]" by (rule falcon_start) (simp add: empty_alarm_def)
  moreover have "falcon_step rev demo_config ?s0 ?s1" by (rule hbs_acts) (simp add: step_reload [OF demo_hbs_init])
  ultimately have "falcon_run rev demo_config [?s1, ?s0]" by (rule falcon_next)
  moreover have "falcon_step rev demo_config ?s1 ?s2" using strategies_sync [of rev ?s1 resp demo_config] resp by simp
  ultimately have r: "falcon_run rev demo_config [?s2, ?s1, ?s0]" by (rule falcon_next)
  have i: "0 \<le> jc_Remain demo_config" "sane_time 1001" by (simp_all add: demo_config_def sane_time_def)
  have "list_ex (\<lambda>x. True) (the (hbs_GetStrategies rev demo_hbs))" by code_simp
  then have "resp \<noteq> []" using resp by auto
  with falcon_never_panics [OF r ok permutes_rev i(1) _ i(2), of "[the (convert2JudgeItem 30 (the (recv_point 1000 (Some (point ''cpu'' (VInt 5))))))]"
      True demo_env True "\<lparr>ii_select = True, ii_case = True, ii_row = True, ii_stamp = None\<rparr>" "[''event:p0'']"] transferred_point resp
  show ?thesis by simp
qed

end
