(* ===== verification/Gateway_Core.thy ===== *)
theory Gateway_Core
  imports Transfer_Core
begin

text \<open>
  The gateway (\<open>modules/gateway\<close>): it takes points like a transfer and hands them on to one of
  several transfers, tried in turn from a random one. The counters of its performance library
  are kept by name; its taps on the points are left out. The connection pool is the
  environment: how many calls to a host are under way, and whether a call succeeds.
\<close>

section \<open>State\<close>

record gateway_config =
  gw_Enabled :: bool
  gw_Batch :: int
  gw_MaxConns :: int64
  gw_Retry :: int
  gw_Cluster :: "(string, string) gomap"

record gateway_state =
  gw_Queue :: "meta_data safe_list_limited"
  gw_Hostnames :: "string list"
  gw_Map :: "(string, string) gomap"
  gw_SendCnt :: "(string, int64) gomap"
  gw_SendFailCnt :: "(string, int64) gomap"
  gw_Meters :: "(string, int64) gomap"

definition DefaultSendQueueMaxSize :: int where
  "DefaultSendQueueMaxSize = 1024000"

definition init_gateway :: gateway_state where
  "init_gateway = \<lparr>gw_Queue = NewSafeListLimited DefaultSendQueueMaxSize, gw_Hostnames = [], gw_Map = [],
    gw_SendCnt = [], gw_SendFailCnt = [], gw_Meters = []\<rparr>"

definition gw_initConnPools :: "gateway_config \<Rightarrow> gateway_state \<Rightarrow> gateway_state" where
  "gw_initConnPools cfg st =
    (let st1 = foldl (\<lambda>st (hn, addr). st\<lparr>gw_Hostnames := gw_Hostnames st @ [hn], gw_Map := gput hn addr (gw_Map st)\<rparr>)
           st (gw_Cluster cfg)
     in foldl (\<lambda>st (hn, addr). st\<lparr>gw_SendCnt := gput hn 0 (gw_SendCnt st), gw_SendFailCnt := gput hn 0 (gw_SendFailCnt st)\<rparr>)
          st1 (gw_Cluster cfg))"

definition meter :: "string \<Rightarrow> int64 \<Rightarrow> (string, int64) gomap \<Rightarrow> (string, int64) gomap" where
  "meter name n m = gput name (i64 ((case gget m name of None \<Rightarrow> 0 | Some c \<Rightarrow> c) + n)) m"

section \<open>Receiving\<close>

definition gw_recv_point :: "int64 \<Rightarrow> metric_value option \<Rightarrow> meta_data option" where
  "gw_recv_point now arg =
    (case arg of
       None \<Rightarrow> None
     | Some v \<Rightarrow>
        if mv_Metric v = ''kernel.hostname'' then None
        else if mv_Metric v = '''' \<or> mv_Endpoint v = '''' then None
        else if mv_Type v \<noteq> COUNTER \<and> mv_Type v \<noteq> GAUGE \<and> mv_Type v \<noteq> DERIVE then None
        else if mv_Value v = VString '''' then None
        else if mv_Step v \<le> 0 then None
        else if 510 < length (mv_Metric v) + length (mv_Tags v) then None
        else
          (case SplitTagsString (mv_Tags v) of
             (Some errtags, _) \<Rightarrow> None
           | (None, tags) \<Rightarrow>
              (let ts = (if mv_Timestamp v \<le> 0 \<or> i64 (now * 2) < mv_Timestamp v then now else mv_Timestamp v)
               in map_option (\<lambda>vv. \<lparr>md_Metric = mv_Metric v, md_Endpoint = mv_Endpoint v, md_Timestamp = ts,
                   md_Step = mv_Step v, md_Value = vv, md_CounterType = mv_Type v, md_Tags = tags\<rparr>)
                 (value_of_iface (mv_Value v)))))"

definition gw_Push2SendQueue :: "meta_data list \<Rightarrow> gateway_state \<Rightarrow> gateway_state" where
  "gw_Push2SendQueue items st =
    foldl (\<lambda>st item. let (Q, isOk) = sl_PushFront item (gw_Queue st) in
        if isOk then st\<lparr>gw_Queue := Q\<rparr> else st\<lparr>gw_Queue := Q, gw_Meters := meter ''SendDrop'' 1 (gw_Meters st)\<rparr>)
      st items"

definition gw_RecvMetricValues ::
    "gateway_config \<Rightarrow> int64 \<Rightarrow> int64 \<Rightarrow> string \<Rightarrow> metric_value option list \<Rightarrow> gateway_state
      \<Rightarrow> gateway_state \<times> transfer_response" where
  "gw_RecvMetricValues cfg now latency from args st =
    (let (items, invalid) = foldl (\<lambda>(items, invalid) arg. case gw_recv_point now arg of
            None \<Rightarrow> (items, invalid + 1) | Some d \<Rightarrow> (items @ [d], invalid)) ([], 0) args;
         cnt = int (length items);
         m1 = meter ''Recv'' cnt (gw_Meters st);
         m2 = (if from = ''rpc'' then meter ''RpcRecv'' cnt m1 else if from = ''http'' then meter ''HttpRecv'' cnt m1 else m1);
         st1 = st\<lparr>gw_Meters := m2\<rparr>;
         st2 = (if gw_Enabled cfg then gw_Push2SendQueue items st1 else st1)
     in (st2, \<lparr>tr_Message = ''ok'', tr_Total = int (length args), tr_Invalid = invalid, tr_Latency = latency\<rparr>))"

text \<open>The line format and the loop over the lines are those of the transfer.\<close>

definition gw_convertLine2MetaData :: "string list \<Rightarrow> line_error + meta_data" where
  "gw_convertLine2MetaData flds = convertLine2MetaData flds"

definition gw_socketTelnetHandle :: "gateway_config \<Rightarrow> string list \<Rightarrow> gateway_state \<Rightarrow> gateway_state" where
  "gw_socketTelnetHandle cfg ls st =
    (let items = telnet_items ls;
         cnt = int (length items);
         st1 = st\<lparr>gw_Meters := meter ''Recv'' cnt (meter ''SocketRecv'' cnt (gw_Meters st))\<rparr>
     in if gw_Enabled cfg then gw_Push2SendQueue items st1 else st1)"

section \<open>Forwarding\<close>

definition gw_convert :: "meta_data \<Rightarrow> metric_value" where
  "gw_convert v = \<lparr>mv_Endpoint = md_Endpoint v, mv_Metric = md_Metric v, mv_Value = VFloat (md_Value v), mv_Step = md_Step v,
    mv_Type = md_CounterType v, mv_Tags = SortedTags (md_Tags v), mv_Timestamp = md_Timestamp v\<rparr>"

text \<open>
  The environment of one batch: the random number of round \<open>j\<close>, the calls under way to a host and
  the outcome of a call to an address. A delivered batch names the address.
\<close>

record gateway_io =
  gi_rand :: "nat \<Rightarrow> int64"
  gi_conns :: "nat \<Rightarrow> string \<Rightarrow> int64"
  gi_call :: "nat \<Rightarrow> string \<Rightarrow> bool"

definition try_host ::
    "gateway_config \<Rightarrow> gateway_io \<Rightarrow> int \<Rightarrow> nat \<Rightarrow> string option \<times> gateway_state \<Rightarrow> nat
      \<Rightarrow> (string option \<times> gateway_state) option" where
  "try_host cfg io n j acc i =
    (case acc of
       (Some addr, st) \<Rightarrow> Some acc
     | (None, st) \<Rightarrow> do {
         idx \<leftarrow> go_mod (i64 (int i + gi_rand io j)) (int (length (gw_Hostnames st)));
         host \<leftarrow> go_nth (gw_Hostnames st) idx;
         let addr = (case gget (gw_Map st) host of None \<Rightarrow> '''' | Some a \<Rightarrow> a);
         (if gw_MaxConns cfg \<le> gi_conns io j host then Some (None, st)
          else if gi_call io j addr then do {
            c \<leftarrow> gget (gw_SendCnt st) host;
            Some (Some addr, st\<lparr>gw_SendCnt := gput host (i64 (c + n)) (gw_SendCnt st)\<rparr>)
          } else do {
            c \<leftarrow> gget (gw_SendFailCnt st) host;
            Some (None, st\<lparr>gw_SendFailCnt := gput host (i64 (c + n)) (gw_SendFailCnt st)\<rparr>)
          })
       })"

definition try_round ::
    "gateway_config \<Rightarrow> gateway_io \<Rightarrow> int \<Rightarrow> string option \<times> gateway_state \<Rightarrow> nat \<Rightarrow> (string option \<times> gateway_state) option" where
  "try_round cfg io n acc j = foldM (try_host cfg io n j) acc [0..<length (gw_Hostnames (snd acc))]"

text \<open>One turn of the task: what is delivered and where; a batch no host takes is dropped.\<close>

definition forward2Transfer_round ::
    "gateway_config \<Rightarrow> gateway_io \<Rightarrow> gateway_state \<Rightarrow> (gateway_state \<times> (string \<times> metric_value list) option) option" where
  "forward2Transfer_round cfg io st = do {
    let retry = (if gw_Retry cfg < 1 then 1 else gw_Retry cfg);
    (items, Q') \<leftarrow> sl_PopBackBy (gw_Batch cfg) (gw_Queue st);
    let n = int (length items);
    let st1 = st\<lparr>gw_Queue := Q'\<rparr>;
    (if n = 0 then Some (st1, None)
     else do {
       (sent, st2) \<leftarrow> foldM (try_round cfg io n) (None, st1) [0..<nat retry];
       Some (case sent of
         None \<Rightarrow> (st2\<lparr>gw_Meters := meter ''SendFail'' n (gw_Meters st2)\<rparr>, None)
       | Some addr \<Rightarrow> (st2\<lparr>gw_Meters := meter ''Send'' n (gw_Meters st2)\<rparr>, Some (addr, map gw_convert items)))
     })
  }"

end
