(* ===== verification/Gateway_Flow.thy ===== *)
theory Gateway_Flow
  imports Gateway_Core
begin

text \<open>
  What the gateway promises: a point it takes is taken unchanged by the transfer it is relayed
  to, and a turn of its forwarding task delivers its batch at most once, to a transfer that
  answered, whenever one does.
\<close>

section \<open>The tags the strict parser accepts survive a second trip\<close>

lemma set_gput_subset: "set (gput k v d) \<subseteq> insert (k, v) (set d)"
  by (induction d) auto

lemma go_split_subset: "t \<in> set (go_split c s) \<Longrightarrow> set t \<subseteq> set s"
  by (induction s arbitrary: t) (fastforce split: list.splits if_splits)+

lemma clean_dict_step:
  assumes "clean_tags d" "CHR '','' \<notin> set t" "CHR '' '' \<notin> set t"
  shows "clean_tags (dict_step d t)"
proof (cases "CHR ''='' \<in> set t")
  case True
  let ?k = "takeWhile (\<lambda>x. x \<noteq> CHR ''='') t" and ?v = "tl (dropWhile (\<lambda>x. x \<noteq> CHR ''='') t)"
  have k: "CHR ''='' \<notin> set ?k" by (auto dest: set_takeWhileD)
  have s: "set ?k \<subseteq> set t" "set ?v \<subseteq> set t"
    by (auto dest: set_takeWhileD list.set_sel(2) [rotated] set_dropWhileD)
       (metis list.sel(2) list.set_sel(2) set_dropWhileD)
  have c: "clean_tag (?k, ?v)" using k s assms(2,3) by (auto simp: clean_tag_def)
  have "set (gput ?k ?v d) \<subseteq> insert (?k, ?v) (set d)" by (rule set_gput_subset)
  with assms(1) c show ?thesis
    by (auto simp: dict_step_def go_split2_def True clean_tags_def list_all_iff)
qed (use assms(1) in \<open>simp add: dict_step_def go_split2_def\<close>)

lemma clean_DictedTagstring: "clean_tags (DictedTagstring s)"
proof -
  have "\<forall>t\<in>set (go_split (CHR '','') (go_remove (CHR '' '') s)). CHR '','' \<notin> set t \<and> CHR '' '' \<notin> set t"
  proof
    fix t assume t: "t \<in> set (go_split (CHR '','') (go_remove (CHR '' '') s))"
    have "set t \<subseteq> set (go_remove (CHR '' '') s)"
      using t by (rule go_split_subset)
    then show "CHR '','' \<notin> set t \<and> CHR '' '' \<notin> set t"
      using go_split_elems [OF t] by (auto simp: go_remove_def)
  qed
  moreover have "clean_tags (foldl dict_step d ts)"
    if "clean_tags d" "\<forall>t\<in>set ts. CHR '','' \<notin> set t \<and> CHR '' '' \<notin> set t" for d ts
    using that by (induction ts arbitrary: d) (auto simp: clean_dict_step)
  ultimately show ?thesis by (simp add: DictedTagstring_def clean_tags_def)
qed

definition tags_len :: "tagmap \<Rightarrow> nat" where
  "tags_len d = sum_list (map (\<lambda>(k, v). length k + length v + 2) d)"

lemma tags_len_gput: "tags_len (gput k v d) \<le> tags_len d + (length k + length v + 2)"
  by (induction d) (auto simp: tags_len_def)

lemma tags_len_dict_step: "tags_len (dict_step d t) \<le> tags_len d + (length t + 1)"
proof (cases "CHR ''='' \<in> set t")
  case True
  let ?k = "takeWhile (\<lambda>x. x \<noteq> CHR ''='') t" and ?v = "tl (dropWhile (\<lambda>x. x \<noteq> CHR ''='') t)"
  have "length ?k + length (dropWhile (\<lambda>x. x \<noteq> CHR ''='') t) = length t"
    by (metis length_append takeWhile_dropWhile_id)
  moreover have "dropWhile (\<lambda>x. x \<noteq> CHR ''='') t \<noteq> []" using True by simp
  ultimately have "length ?k + length ?v + 1 = length t"
    by (cases "dropWhile (\<lambda>x. x \<noteq> CHR ''='') t") auto
  then show ?thesis
    using tags_len_gput [of ?k ?v d] by (simp add: dict_step_def go_split2_def True)
qed (simp add: dict_step_def go_split2_def)

lemma tags_len_foldl: "tags_len (foldl dict_step d ts) \<le> tags_len d + sum_list (map (\<lambda>t. length t + 1) ts)"
proof (induction ts arbitrary: d)
  case (Cons t ts)
  have "tags_len (foldl dict_step (dict_step d t) ts) \<le> tags_len (dict_step d t) + sum_list (map (\<lambda>t. length t + 1) ts)"
    by (rule Cons.IH)
  then show ?case using tags_len_dict_step [of d t] by simp
qed simp

lemma length_go_join: "ts \<noteq> [] \<Longrightarrow> length (go_join [c] ts) + 1 = sum_list (map (\<lambda>t. length t + 1) ts)"
  by (induction "[c]" ts rule: go_join.induct) auto

lemma tags_len_Dicted:
  assumes "DictedTagstring s \<noteq> []"
  shows "tags_len (DictedTagstring s) \<le> length s + 1"
proof -
  let ?s = "go_remove (CHR '' '') s"
  have "tags_len (DictedTagstring s) \<le> sum_list (map (\<lambda>t. length t + 1) (go_split (CHR '','') ?s))"
    using assms tags_len_foldl [of "[]"] by (auto simp: DictedTagstring_def tags_len_def)
  also have "\<dots> = length ?s + 1"
    using length_go_join [of "go_split (CHR '','') ?s" "CHR '',''"] by (simp add: go_join_split)
  also have "\<dots> \<le> length s + 1" by (simp add: go_remove_def)
  finally show ?thesis .
qed

lemma length_SortedTags:
  assumes "clean_tags tags" "tags \<noteq> []"
  shows "length (SortedTags tags) + 1 = tags_len tags"
proof -
  have ne: "tag_parts tags \<noteq> []"
    using assms(2) by (simp add: tag_parts_def) (metis length_0_conv length_map length_sort)
  let ?f = "\<lambda>k. length (tag_pair k (the (gget tags k))) + 1"
  have "length (SortedTags tags) + 1 = sum_list (map ?f (sort (map fst tags)))"
    using length_go_join [OF ne] by (simp add: SortedTags_parts assms(1)) (simp add: tag_parts_def o_def)
  also have "\<dots> = sum_list (map ?f (map fst tags))"
    by (simp only: sum_mset_sum_list [symmetric] mset_map mset_sort)
  also have "\<dots> = tags_len tags"
    unfolding tags_len_def map_map
    by (rule arg_cong [where f = sum_list], rule map_cong)
       (use assms(1) in \<open>auto simp: tag_pair_def clean_tags_def gomap_ok_def\<close>)
  finally show ?thesis .
qed

lemma length_SortedTags_Dicted: "length (SortedTags (DictedTagstring s)) \<le> length s"
proof (cases "DictedTagstring s = []")
  case False
  then show ?thesis
    using length_SortedTags [OF clean_DictedTagstring False] tags_len_Dicted [OF False] by simp
qed (simp add: SortedTags_def)

section \<open>Relaying a point\<close>

lemma gw_recv_pointD:
  assumes "gw_recv_point now arg = Some d"
  shows "md_Metric d \<noteq> ''kernel.hostname'' \<and> md_Metric d \<noteq> '''' \<and> md_Endpoint d \<noteq> '''' \<and>
    md_CounterType d \<in> {COUNTER, GAUGE, DERIVE} \<and> 0 < md_Step d \<and>
    (\<exists>tags. md_Tags d = DictedTagstring tags \<and> length (md_Metric d) + length tags \<le> 510) \<and>
    (md_Timestamp d = now \<or> 0 < md_Timestamp d \<and> md_Timestamp d \<le> i64 (now * 2))"
proof -
  from assms obtain v where v: "arg = Some v" by (auto simp: gw_recv_point_def split: option.splits)
  obtain e tags where tg: "SplitTagsString (mv_Tags v) = (e, tags)" by fastforce
  have e: "e = None" using assms by (auto simp: gw_recv_point_def v tg split: if_splits option.splits)
  have t: "tags = DictedTagstring (mv_Tags v)" using SplitTagsString_same [of "mv_Tags v"] by (simp add: tg e)
  show ?thesis
    using assms unfolding gw_recv_point_def v option.simps tg e prod.case Let_def t
    by (auto split: if_splits option.splits)
qed

text \<open>
  C29: What the gateway relays, the transfer takes: a point accepted at \<open>now\<close>, sent on and read by a
  transfer whose clock has not gone back is accepted there with the same fields, and its tags,
  written as a string in between, are the same map.
\<close>

theorem relayed_point_taken:
  assumes r: "gw_recv_point now arg = Some d" and t: "0 < now" "now \<le> now'" "now' < 2 ^ 62"
  shows "\<exists>d'. recv_point now' (Some (gw_convert d)) = Some d' \<and> gget (md_Tags d') = gget (md_Tags d) \<and>
    d' = d\<lparr>md_Tags := md_Tags d'\<rparr>"
proof -
  note D = gw_recv_pointD [OF r]
  then obtain s where s: "md_Tags d = DictedTagstring s" "length (md_Metric d) + length s \<le> 510" by blast
  have len: "length (md_Metric d) + length (SortedTags (md_Tags d)) \<le> 510"
    using s length_SortedTags_Dicted [of s] by simp
  have b: "i64 (now * 2) = now * 2" "i64 (now' * 2) = now' * 2"
    using t by (simp_all add: i64_id in_i64_def)
  have ts: "0 < md_Timestamp d" "md_Timestamp d \<le> now' * 2" using D t b by auto
  have tags: "gget (DictedTagstring (SortedTags (md_Tags d))) = gget (md_Tags d)"
    by (rule Dicted_SortedTags) (simp add: s clean_DictedTagstring)
  show ?thesis
    using D ts tags len by (auto simp: recv_point_def gw_convert_def value_of_iface_def b Let_def)
qed

theorem relayed_point_taken_witness:
  "\<exists>d. gw_recv_point 100 (Some \<lparr>mv_Endpoint = ''h'', mv_Metric = ''m'', mv_Value = VInt 3, mv_Step = 60,
      mv_Type = GAUGE, mv_Tags = ''b=2, a=1'', mv_Timestamp = 90\<rparr>) = Some d \<and>
    (\<exists>d'. recv_point 103 (Some (gw_convert d)) = Some d' \<and> gget (md_Tags d') = gget (md_Tags d) \<and>
      d' = d\<lparr>md_Tags := md_Tags d'\<rparr>)"
proof -
  have "gw_recv_point 100 (Some \<lparr>mv_Endpoint = ''h'', mv_Metric = ''m'', mv_Value = VInt 3, mv_Step = 60,
      mv_Type = GAUGE, mv_Tags = ''b=2, a=1'', mv_Timestamp = 90\<rparr>) \<noteq> None" by code_simp
  then obtain d where d: "gw_recv_point 100 (Some \<lparr>mv_Endpoint = ''h'', mv_Metric = ''m'', mv_Value = VInt 3, mv_Step = 60,
      mv_Type = GAUGE, mv_Tags = ''b=2, a=1'', mv_Timestamp = 90\<rparr>) = Some d" by blast
  from relayed_point_taken [OF d, of 103] d show ?thesis by simp
qed

section \<open>Forwarding a batch\<close>

text \<open>Every transfer the gateway knows has its counters; start-up makes it so.\<close>

definition gw_ready :: "gateway_state \<Rightarrow> bool" where
  "gw_ready st \<longleftrightarrow> list_all (\<lambda>h. gget (gw_SendCnt st) h \<noteq> None \<and> gget (gw_SendFailCnt st) h \<noteq> None) (gw_Hostnames st)"

text \<open>The environment takes the batch at round \<open>j\<close> on host \<open>h\<close>; the random numbers leave room for the index.\<close>

definition host_takes :: "gateway_config \<Rightarrow> gateway_io \<Rightarrow> (string, string) gomap \<Rightarrow> nat \<Rightarrow> string \<Rightarrow> bool" where
  "host_takes cfg io m j h \<longleftrightarrow>
    gi_conns io j h < gw_MaxConns cfg \<and> gi_call io j (case gget m h of None \<Rightarrow> '''' | Some a \<Rightarrow> a)"

definition rand_ok :: "gateway_io \<Rightarrow> nat \<Rightarrow> bool" where
  "rand_ok io n \<longleftrightarrow> (\<forall>j. 0 \<le> gi_rand io j \<and> gi_rand io j + int n < 2 ^ 63)"

definition gw_same :: "gateway_state \<Rightarrow> gateway_state \<Rightarrow> bool" where
  "gw_same st st' \<longleftrightarrow> gw_Queue st' = gw_Queue st \<and> gw_Hostnames st' = gw_Hostnames st \<and> gw_Map st' = gw_Map st \<and> gw_ready st'"

lemma gw_same_refl: "gw_ready st \<Longrightarrow> gw_same st st" by (simp add: gw_same_def)

lemma gw_same_trans: "gw_same a b \<Longrightarrow> gw_same b c \<Longrightarrow> gw_same a c" by (simp add: gw_same_def)

text \<open>What an attempt at the hosts \<open>hs\<close> of round \<open>j\<close> leaves: the batch is delivered when one takes it.\<close>

definition tried :: "gateway_config \<Rightarrow> gateway_io \<Rightarrow> gateway_state \<Rightarrow> (nat \<times> string) list \<Rightarrow> string option \<Rightarrow> bool" where
  "tried cfg io st js sent \<longleftrightarrow>
    (sent \<noteq> None \<longleftrightarrow> list_ex (\<lambda>(j, h). host_takes cfg io (gw_Map st) j h) js)"

lemma tried_append:
  "tried cfg io st js None \<Longrightarrow> tried cfg io st ks sent \<Longrightarrow> tried cfg io st (js @ ks) sent"
  "tried cfg io st js (Some a) \<Longrightarrow> tried cfg io st (js @ ks) (Some a)"
  by (auto simp: tried_def)

lemma gw_index:
  assumes "rand_ok io n" "i < n"
  shows "go_mod (i64 (int i + gi_rand io j)) (int n) = Some ((int i + gi_rand io j) mod int n)"
proof -
  have b: "0 \<le> gi_rand io j" "gi_rand io j + int n < 2 ^ 63" using assms(1) by (auto simp: rand_ok_def)
  then have "in_i64 (int i + gi_rand io j)" "in_i64 (int n)" using assms(2) by (auto simp: in_i64_def)
  then show ?thesis using b assms(2) by (simp add: i64_id go_mod_nonneg)
qed

abbreviation gw_turn :: "gateway_io \<Rightarrow> gateway_state \<Rightarrow> nat \<Rightarrow> nat \<Rightarrow> string" where
  "gw_turn io st j i \<equiv>
    gw_Hostnames st ! nat ((int i + gi_rand io j) mod int (length (gw_Hostnames st)))"

lemma nat_mod_less: "0 < n \<Longrightarrow> nat (x mod int n) < n"
  by (simp add: nat_less_iff)

lemma gw_turn_in: "i < length (gw_Hostnames st) \<Longrightarrow> gw_turn io st j i \<in> set (gw_Hostnames st)"
  by (rule nth_mem, rule nat_mod_less) linarith

lemma try_host_step:
  assumes "gw_ready st" "rand_ok io (length (gw_Hostnames st))" "i < length (gw_Hostnames st)"
  shows "\<exists>sent st'. try_host cfg io n j (None, st) i = Some (sent, st') \<and> gw_same st st' \<and>
    tried cfg io st [(j, gw_turn io st j i)] sent"
proof -
  let ?h = "gw_turn io st j i"
  have p: "0 < length (gw_Hostnames st)" using assms(3) by linarith
  have m: "(int i + gi_rand io j) mod int (length (gw_Hostnames st)) < int (length (gw_Hostnames st))"
    using p by simp
  have g: "go_nth (gw_Hostnames st) ((int i + gi_rand io j) mod int (length (gw_Hostnames st))) = Some ?h"
    using p m by (simp add: go_nth_def)
  have r: "gget (gw_SendCnt st) ?h \<noteq> None" "gget (gw_SendFailCnt st) ?h \<noteq> None"
    using assms(1) gw_turn_in [OF assms(3)] unfolding gw_ready_def list_all_iff by blast+
  then obtain c f where cf: "gget (gw_SendCnt st) ?h = Some c" "gget (gw_SendFailCnt st) ?h = Some f" by blast
  have k: "gw_ready (st\<lparr>gw_SendCnt := gput ?h x (gw_SendCnt st)\<rparr>)" "gw_ready (st\<lparr>gw_SendFailCnt := gput ?h x (gw_SendFailCnt st)\<rparr>)" for x
    using assms(1) by (auto simp: gw_ready_def list_all_iff)
  show ?thesis
    unfolding try_host_def gw_index [OF assms(2,3)] prod.case option.case Option.bind.bind_lunit Let_def g
    using cf k assms(1) by (simp add: gw_same_def tried_def host_takes_def not_le [symmetric])
qed

lemma try_host_sent: "try_host cfg io n j (Some a, st) i = Some (Some a, st)"
  by (simp add: try_host_def)

lemma try_hosts:
  assumes "gw_ready st" "rand_ok io (length (gw_Hostnames st))" "\<forall>i\<in>set is. i < length (gw_Hostnames st)"
  shows "\<exists>sent st'. foldM (try_host cfg io n j) (None, st) is = Some (sent, st') \<and> gw_same st st' \<and>
    tried cfg io st (map (\<lambda>i. (j, gw_turn io st j i)) is) sent"
  using assms
proof (induction "is" arbitrary: st)
  case Nil
  then show ?case by (simp add: gw_same_refl tried_def)
next
  case (Cons i "is")
  have i: "i < length (gw_Hostnames st)" using Cons.prems(3) by simp
  from try_host_step [OF Cons.prems(1,2) i, of cfg n j] obtain sent st1 where
    s: "try_host cfg io n j (None, st) i = Some (sent, st1)" "gw_same st st1" "tried cfg io st [(j, gw_turn io st j i)] sent" by blast
  show ?case
  proof (cases sent)
    case None
    have e: "gw_Hostnames st1 = gw_Hostnames st" "gw_Map st1 = gw_Map st" "gw_ready st1" using s(2) by (simp_all add: gw_same_def)
    from Cons.IH [OF e(3)] Cons.prems obtain sent' st' where
      t: "foldM (try_host cfg io n j) (None, st1) is = Some (sent', st')" "gw_same st1 st'"
        "tried cfg io st1 (map (\<lambda>i. (j, gw_turn io st1 j i)) is) sent'" unfolding e by auto
    have "tried cfg io st (map (\<lambda>i. (j, gw_turn io st j i)) is) sent'" using t(3) unfolding tried_def e .
    then show ?thesis
      using s t gw_same_trans [OF s(2) t(2)] tried_append(1) [OF s(3) [unfolded None]] by (simp add: None)
  next
    case (Some a)
    have "foldM (try_host cfg io n j) (Some a, st1) is = Some (Some a, st1)"
      by (induction "is") (simp_all add: try_host_sent)
    then show ?thesis
      using s tried_append(2) [OF s(3) [unfolded Some]] by (simp add: Some)
  qed
qed

lemma turn_all:
  assumes "0 < n"
  shows "(\<lambda>i. nat ((int i + r) mod int n)) ` {0..<n} = {0..<n}"
proof (rule endo_inj_surj)
  show "(\<lambda>i. nat ((int i + r) mod int n)) ` {0..<n} \<subseteq> {0..<n}" using assms by (auto simp: nat_less_iff)
  show "inj_on (\<lambda>i. nat ((int i + r) mod int n)) {0..<n}"
  proof (rule inj_onI)
    fix x y assume xy: "x \<in> {0..<n}" "y \<in> {0..<n}" "nat ((int x + r) mod int n) = nat ((int y + r) mod int n)"
    then have "(int x + r) mod int n = (int y + r) mod int n" using assms by (simp add: eq_nat_nat_iff)
    then have "int x mod int n = int y mod int n" by (metis add_diff_cancel_right' mod_diff_left_eq)
    then show "x = y" using xy by simp
  qed
qed simp

text \<open>A round visits every transfer once, from a random one.\<close>

lemma tried_round:
  assumes "tried cfg io st (map (\<lambda>i. (j, gw_turn io st j i)) [0..<length (gw_Hostnames st)]) sent"
  shows "sent \<noteq> None \<longleftrightarrow> list_ex (host_takes cfg io (gw_Map st) j) (gw_Hostnames st)"
proof (cases "gw_Hostnames st = []")
  case False
  let ?n = "length (gw_Hostnames st)"
  have "set (map (gw_turn io st j) [0..<?n]) = (\<lambda>i. gw_Hostnames st ! i) ` ((\<lambda>i. nat ((int i + gi_rand io j) mod int ?n)) ` {0..<?n})"
    by (simp add: image_image)
  also have "\<dots> = set (gw_Hostnames st)"
    using False turn_all [of ?n "gi_rand io j"] nth_image [of ?n "gw_Hostnames st"] by simp
  finally have e: "set (map (gw_turn io st j) [0..<?n]) = set (gw_Hostnames st)" .
  have "sent \<noteq> None \<longleftrightarrow> list_ex (host_takes cfg io (gw_Map st) j) (map (gw_turn io st j) [0..<?n])"
    using assms by (simp add: tried_def list_ex_iff)
  then show ?thesis using e by (simp only: list_ex_iff)
qed (use assms in \<open>simp add: tried_def\<close>)

lemma try_round_step:
  assumes "gw_ready st" "rand_ok io (length (gw_Hostnames st))"
  shows "\<exists>sent st'. try_round cfg io n (None, st) j = Some (sent, st') \<and> gw_same st st' \<and>
    (sent \<noteq> None \<longleftrightarrow> list_ex (host_takes cfg io (gw_Map st) j) (gw_Hostnames st))"
proof -
  have "\<forall>i\<in>set [0..<length (gw_Hostnames st)]. i < length (gw_Hostnames st)" by simp
  from try_hosts [OF assms this, of cfg n j] obtain sent st' where
    s: "foldM (try_host cfg io n j) (None, st) [0..<length (gw_Hostnames st)] = Some (sent, st')" "gw_same st st'"
      "tried cfg io st (map (\<lambda>i. (j, gw_turn io st j i)) [0..<length (gw_Hostnames st)]) sent" by blast
  from s(1,2) tried_round [OF s(3)] show ?thesis unfolding try_round_def snd_conv by blast
qed

lemma try_round_sent: "try_round cfg io n (Some a, st) j = Some (Some a, st)"
proof -
  have "foldM (try_host cfg io n j) (Some a, st) is = Some (Some a, st)" for "is"
    by (induction "is") (simp_all add: try_host_sent)
  then show ?thesis by (simp add: try_round_def)
qed

lemma try_rounds:
  assumes "gw_ready st" "rand_ok io (length (gw_Hostnames st))"
  shows "\<exists>sent st'. foldM (try_round cfg io n) (None, st) js = Some (sent, st') \<and> gw_same st st' \<and>
    (sent \<noteq> None \<longleftrightarrow> list_ex (\<lambda>j. list_ex (host_takes cfg io (gw_Map st) j) (gw_Hostnames st)) js)"
  using assms
proof (induction js arbitrary: st)
  case Nil
  then show ?case by (simp add: gw_same_refl)
next
  case (Cons j js)
  from try_round_step [OF Cons.prems, of cfg n j] obtain sent st1 where
    s: "try_round cfg io n (None, st) j = Some (sent, st1)" "gw_same st st1"
      "sent \<noteq> None \<longleftrightarrow> list_ex (host_takes cfg io (gw_Map st) j) (gw_Hostnames st)" by blast
  show ?case
  proof (cases sent)
    case None
    have e: "gw_Hostnames st1 = gw_Hostnames st" "gw_Map st1 = gw_Map st" "gw_ready st1" using s(2) by (simp_all add: gw_same_def)
    from Cons.IH [OF e(3)] Cons.prems obtain sent' st' where
      t: "foldM (try_round cfg io n) (None, st1) js = Some (sent', st')" "gw_same st1 st'"
        "sent' \<noteq> None \<longleftrightarrow> list_ex (\<lambda>j. list_ex (host_takes cfg io (gw_Map st) j) (gw_Hostnames st)) js" unfolding e by auto
    show ?thesis using s t gw_same_trans [OF s(2) t(2)] by (simp add: None)
  next
    case (Some a)
    have "foldM (try_round cfg io n) (Some a, st1) js = Some (Some a, st1)"
      by (induction js) (simp_all add: try_round_sent)
    then show ?thesis using s by (simp add: Some)
  qed
qed

text \<open>
  C24: A turn of the forwarding task takes the oldest batch off the queue and returns. It delivers the
  whole batch, converted and in order, exactly when in one of its rounds (at least one, whatever the configured
  number of retries) some transfer with a free connection answers; otherwise the batch is gone. Three
  conditions: every host has its counters, as after the start of the pools, and keeps them; the
  configured batch is not negative; and in each round the random number plus the number of hosts
  stays below 2^63. Without the last the index can become negative and the turn panic
  (\<open>try_host_overflow\<close>).
\<close>

theorem forward_round_delivers:
  assumes ready: "gw_ready st" and rnd: "rand_ok io (length (gw_Hostnames st))" and bt: "0 \<le> gw_Batch cfg"
  shows "\<exists>items Q' st' sent.
    sl_PopBackBy (gw_Batch cfg) (gw_Queue st) = Some (items, Q') \<and>
    forward2Transfer_round cfg io st = Some (st', sent) \<and> gw_Queue st' = Q' \<and> gw_ready st' \<and>
    (sent = None \<or> map_option snd sent = Some (map gw_convert items)) \<and>
    (sent \<noteq> None \<longleftrightarrow> items \<noteq> [] \<and>
      list_ex (\<lambda>j. list_ex (host_takes cfg io (gw_Map st) j) (gw_Hostnames st)) [0..<nat (max 1 (gw_Retry cfg))])"
proof -
  from slq.pop_total [OF bt, of "gw_Queue st"] obtain items Q' where q: "sl_PopBackBy (gw_Batch cfg) (gw_Queue st) = Some (items, Q')" by auto
  let ?n = "int (length items)" and ?st1 = "st\<lparr>gw_Queue := Q'\<rparr>"
  have r: "(if gw_Retry cfg < 1 then 1 else gw_Retry cfg) = max 1 (gw_Retry cfg)" by (simp add: max_def)
  have "gw_ready ?st1" "rand_ok io (length (gw_Hostnames ?st1))" using ready rnd by (simp_all add: gw_ready_def)
  from try_rounds [OF this, of cfg ?n "[0..<nat (max 1 (gw_Retry cfg))]"] obtain sent st2 where
    s: "foldM (try_round cfg io ?n) (None, ?st1) [0..<nat (max 1 (gw_Retry cfg))] = Some (sent, st2)" "gw_same ?st1 st2"
      "sent \<noteq> None \<longleftrightarrow> list_ex (\<lambda>j. list_ex (host_takes cfg io (gw_Map st) j) (gw_Hostnames st)) [0..<nat (max 1 (gw_Retry cfg))]" by auto
  show ?thesis
  proof (cases "items = []")
    case True
    then show ?thesis using ready by (simp add: forward2Transfer_round_def q Let_def gw_ready_def)
  next
    case False
    have f: "forward2Transfer_round cfg io st = Some (case sent of
         None \<Rightarrow> (st2\<lparr>gw_Meters := meter ''SendFail'' ?n (gw_Meters st2)\<rparr>, None)
       | Some addr \<Rightarrow> (st2\<lparr>gw_Meters := meter ''Send'' ?n (gw_Meters st2)\<rparr>, Some (addr, map gw_convert items)))"
      by (simp add: forward2Transfer_round_def q Let_def False r s(1))
    show ?thesis unfolding q f s(3) [symmetric] using s(2) False
      by (cases sent) (auto simp: gw_same_def gw_ready_def)
  qed
qed

lemma gw_initConnPools_ready:
  "gw_ready (gw_initConnPools cfg init_gateway)"
proof -
  have host: "gw_Hostnames (foldl (\<lambda>st (hn, addr). st\<lparr>gw_Hostnames := gw_Hostnames st @ [hn], gw_Map := gput hn addr (gw_Map st)\<rparr>) st c) =
      gw_Hostnames st @ map fst c" for st c
    by (induction c arbitrary: st) auto
  have cnt: "(let st' = foldl (\<lambda>st (hn, addr). st\<lparr>gw_SendCnt := gput hn 0 (gw_SendCnt st), gw_SendFailCnt := gput hn 0 (gw_SendFailCnt st)\<rparr>) st c in
      gw_Hostnames st' = gw_Hostnames st \<and>
      (\<forall>h. h \<in> set (map fst c) \<or> gget (gw_SendCnt st) h \<noteq> None \<and> gget (gw_SendFailCnt st) h \<noteq> None \<longrightarrow>
        gget (gw_SendCnt st') h \<noteq> None \<and> gget (gw_SendFailCnt st') h \<noteq> None))" for st :: gateway_state and c :: "(string, string) gomap"
  proof (induction c arbitrary: st)
    case (Cons p c)
    obtain hn addr where p: "p = (hn, addr)" by fastforce
    show ?case
      using Cons.IH [of "st\<lparr>gw_SendCnt := gput hn 0 (gw_SendCnt st), gw_SendFailCnt := gput hn 0 (gw_SendFailCnt st)\<rparr>"]
      by (auto simp: p Let_def)
  qed simp
  show ?thesis
    using cnt [of _ "gw_Cluster cfg"] by (auto simp: gw_initConnPools_def gw_ready_def list_all_iff host init_gateway_def Let_def)
qed

text \<open>
  Go's \<open>rand.Int\<close> may return up to \<open>2\<^sup>6\<^sup>3 - 1\<close>: then the second index of the round is negative and the
  task panics.
\<close>

lemma try_host_overflow:
  assumes "gi_rand io j = 2 ^ 63 - 1" "length (gw_Hostnames st) = 3"
  shows "try_host cfg io n j (None, st) 1 = None"
proof -
  have i: "i64 (int 1 + gi_rand io j) = - (2 ^ 63)" by (simp add: assms(1) i64_def)
  have "go_mod (- (2 ^ 63)) 3 = Some (- 2)" by code_simp
  then show ?thesis by (simp only: try_host_def prod.case option.case i assms(2) go_nth_def) (simp add: go_nth_def)
qed

definition demo_gateway_config :: gateway_config where
  "demo_gateway_config = \<lparr>gw_Enabled = True, gw_Batch = 2, gw_MaxConns = 4, gw_Retry = 0,
    gw_Cluster = [(''t1'', ''a1''), (''t2'', ''a2'')]\<rparr>"

definition demo_gateway_io :: gateway_io where
  "demo_gateway_io = \<lparr>gi_rand = (\<lambda>j. 5), gi_conns = (\<lambda>j h. if h = ''t2'' then 4 else 0), gi_call = (\<lambda>j a. True)\<rparr>"

definition demo_gateway :: gateway_state where
  "demo_gateway = gw_Push2SendQueue
    [\<lparr>md_Metric = ''m'', md_Endpoint = ''h'', md_Timestamp = 9, md_Step = 60, md_Value = Fin False 1, md_CounterType = GAUGE, md_Tags = []\<rparr>]
    (gw_initConnPools demo_gateway_config init_gateway)"

theorem forward_round_delivers_witness:
  "\<exists>st'. forward2Transfer_round demo_gateway_config demo_gateway_io demo_gateway = Some (st', Some (''a1'',
    [\<lparr>mv_Endpoint = ''h'', mv_Metric = ''m'', mv_Value = VFloat (Fin False 1), mv_Step = 60, mv_Type = GAUGE, mv_Tags = '''', mv_Timestamp = 9\<rparr>]))
    \<and> sl_items (gw_Queue st') = []"
proof -
  have r: "gw_ready demo_gateway" by code_simp
  have h: "length (gw_Hostnames demo_gateway) = 2" by code_simp
  have q: "rand_ok demo_gateway_io (length (gw_Hostnames demo_gateway))" "0 \<le> gw_Batch demo_gateway_config"
    unfolding h by (simp_all add: rand_ok_def demo_gateway_io_def demo_gateway_config_def)
  from forward_round_delivers [OF r q] obtain st' sent where
    f: "forward2Transfer_round demo_gateway_config demo_gateway_io demo_gateway = Some (st', sent)" by blast
  have "map_option (\<lambda>(st, sent). (sl_items (gw_Queue st), sent)) (forward2Transfer_round demo_gateway_config demo_gateway_io demo_gateway) =
    Some ([], Some (''a1'',
    [\<lparr>mv_Endpoint = ''h'', mv_Metric = ''m'', mv_Value = VFloat (Fin False 1), mv_Step = 60, mv_Type = GAUGE, mv_Tags = '''', mv_Timestamp = 9\<rparr>]))"
    by code_simp
  with f show ?thesis by simp
qed

end
