(* ===== verification/Graph_Store.thy ===== *)
theory Graph_Store
  imports Toolkit Model
begin

text \<open>
  \<open>modules/graph\<close>: the cache of points waiting for the disk (\<open>store/linkedlist.go\<close>,
  \<open>store/store.go\<close>), the last points of every series (\<open>store/history.go\<close>) and the names and
  keys of round-robin files (\<open>g/utils.go\<close>). A list is front first, newest first. The cache is an
  array of \<open>CACHE_TIME / FLUSH_DISK_STEP = 1800\<close> maps made once by the package's \<open>init\<close>; the array
  has that length in every value the operations make from the initial one.
\<close>

section \<open>Keys and names\<close>

text \<open>The runes of a string: UTF-8 decoding as \<open>[]rune(s)\<close> does it, one U+FFFD for a bad byte.\<close>

definition utf8_rune :: "int list \<Rightarrow> int \<times> nat" where
  "utf8_rune bs =
    (let b0 = bs ! 0; bt = (\<lambda>i. if i < length bs then bs ! i else 0); c = (\<lambda>i. 128 \<le> bt i \<and> bt i \<le> 191) in
     if b0 < 128 then (b0, 1)
     else if 194 \<le> b0 \<and> b0 \<le> 223 \<and> c 1 then ((b0 - 192) * 64 + (bt 1 - 128), 2)
     else if 224 \<le> b0 \<and> b0 \<le> 239 \<and> c 1 \<and> c 2 \<and> (b0 = 224 \<longrightarrow> 160 \<le> bt 1) \<and> (b0 = 237 \<longrightarrow> bt 1 \<le> 159)
       then ((b0 - 224) * 4096 + (bt 1 - 128) * 64 + (bt 2 - 128), 3)
     else if 240 \<le> b0 \<and> b0 \<le> 244 \<and> c 1 \<and> c 2 \<and> c 3 \<and> (b0 = 240 \<longrightarrow> 144 \<le> bt 1) \<and> (b0 = 244 \<longrightarrow> bt 1 \<le> 143)
       then ((b0 - 240) * 262144 + (bt 1 - 128) * 4096 + (bt 2 - 128) * 64 + (bt 3 - 128), 4)
     else (65533, 1))"

function runes :: "int list \<Rightarrow> int list" where
  "runes [] = []"
| "runes (b # bs) = (let (r, n) = utf8_rune (b # bs) in r # runes (drop (n - 1) bs))"
  by pat_completeness auto
termination
  by (relation "measure length") auto

text \<open>
  \<open>unicode.IsPrint\<close> on ASCII and Latin-1; the tables of the standard library for the other code
  points are the argument \<open>wide\<close>.
\<close>

definition is_print :: "(int \<Rightarrow> bool) \<Rightarrow> int \<Rightarrow> bool" where
  "is_print wide r =
    (if r < 256 then 32 \<le> r \<and> r \<le> 126 \<or> 161 \<le> r \<and> r \<le> 255 \<and> r \<noteq> 173 else wide r)"

definition IsValidString :: "(int \<Rightarrow> bool) \<Rightarrow> string \<Rightarrow> bool" where
  "IsValidString wide str =
    list_all (\<lambda>t. t \<noteq> 13 \<and> t \<noteq> 10 \<and> t \<noteq> 39 \<and> t \<noteq> 34 \<and> t \<noteq> 62 \<and> t \<noteq> 26 \<and> is_print wide t) (runes (map of_char str))"

definition RrdFileName :: "string \<Rightarrow> string \<Rightarrow> string \<Rightarrow> int \<Rightarrow> string option" where
  "RrdFileName baseDir md5 dsType step = do {
    d \<leftarrow> go_slice md5 0 2;
    Some (baseDir @ ''/'' @ d @ ''/'' @ md5 @ ''_'' @ dsType @ ''_'' @ itoa step @ ''.rrd'')
  }"

definition FormRrdCacheKey :: "string \<Rightarrow> string \<Rightarrow> int \<Rightarrow> string" where
  "FormRrdCacheKey md5 dsType step = md5 @ ''_'' @ dsType @ ''_'' @ itoa step"

datatype key_error = BadCacheKey | BadStep num_error

definition SplitRrdCacheKey :: "string \<Rightarrow> key_error + string \<times> string \<times> int" where
  "SplitRrdCacheKey ckey =
    (let s = go_split (CHR ''_'') ckey in
     if length s \<noteq> 3 then Inl BadCacheKey
     else case parse_int 32 (s ! 2) of Inl e \<Rightarrow> Inl (BadStep e) | Inr step \<Rightarrow> Inr (s ! 0, s ! 1, step))"

section \<open>The list of one key\<close>

record graph_list =
  gl_Flag :: u32
  gl_L :: "graph_item list"

definition NewGraphList :: graph_list where
  "NewGraphList = \<lparr>gl_Flag = 0, gl_L = []\<rparr>"

definition gl_PushFront :: "graph_item \<Rightarrow> graph_list \<Rightarrow> graph_list" where
  "gl_PushFront v sl = sl\<lparr>gl_L := v # gl_L sl\<rparr>"

definition gl_Front :: "graph_list \<Rightarrow> graph_item option" where
  "gl_Front sl = (case gl_L sl of [] \<Rightarrow> None | v # _ \<Rightarrow> Some v)"

definition gl_Back :: "graph_list \<Rightarrow> graph_item option" where
  "gl_Back sl = (if gl_L sl = [] then None else Some (last (gl_L sl)))"

definition gl_PopBack :: "graph_list \<Rightarrow> graph_item option \<times> graph_list" where
  "gl_PopBack sl =
    (if gl_L sl = [] then (None, sl) else (Some (last (gl_L sl)), sl\<lparr>gl_L := butlast (gl_L sl)\<rparr>))"

definition gl_Len :: "graph_list \<Rightarrow> int" where
  "gl_Len sl = int (length (gl_L sl))"

fun pop_loop :: "nat \<Rightarrow> graph_item list \<Rightarrow> graph_item list \<Rightarrow> graph_item list \<times> graph_item list" where
  "pop_loop 0 ret L = (ret, L)"
| "pop_loop (Suc n) ret L = pop_loop n (ret @ [last L]) (butlast L)"

definition gl_PopAll :: "graph_list \<Rightarrow> graph_item list \<times> graph_list" where
  "gl_PopAll sl =
    (if gl_L sl = [] then ([], sl)
     else let (ret, L) = pop_loop (length (gl_L sl)) [] (gl_L sl) in (ret, sl\<lparr>gl_L := L\<rparr>))"

fun push_loop :: "graph_item list \<Rightarrow> nat \<Rightarrow> graph_item list \<Rightarrow> graph_item list" where
  "push_loop items 0 L = L"
| "push_loop items (Suc i) L = push_loop items i (L @ [items ! i])"

definition gl_PushAll :: "graph_item list \<Rightarrow> graph_list \<Rightarrow> graph_list" where
  "gl_PushAll items sl = sl\<lparr>gl_L := push_loop items (length items) (gl_L sl)\<rparr>"

definition gl_FetchAll :: "graph_list \<Rightarrow> graph_item list \<times> u32" where
  "gl_FetchAll sl = (rev (gl_L sl), gl_Flag sl)"

section \<open>The map of keys\<close>

definition CACHE_TIME :: int where "CACHE_TIME = 1800000"
definition FLUSH_DISK_STEP :: int where "FLUSH_DISK_STEP = 1000"

definition graph_Size :: int where
  "graph_Size = CACHE_TIME div FLUSH_DISK_STEP"

type_synonym graph_items = "(string, graph_list) gomap list"

definition init_GraphItems :: graph_items where
  "init_GraphItems = replicate (nat graph_Size) []"

definition graph_hashKey :: "string \<Rightarrow> u32" where
  "graph_hashKey key = crc32_ieee key"

definition gidx :: "string \<Rightarrow> nat" where
  "gidx key = unat (graph_hashKey key mod word_of_int graph_Size)"

definition GraphItemMap_Get :: "graph_items \<Rightarrow> string \<Rightarrow> graph_list option" where
  "GraphItemMap_Get A key = gget (A ! gidx key) key"

definition GraphItemMap_Set :: "string \<Rightarrow> graph_list \<Rightarrow> graph_items \<Rightarrow> graph_items" where
  "GraphItemMap_Set key val A = A[gidx key := gput key val (A ! gidx key)]"

definition GraphItemMap_Remove :: "string \<Rightarrow> graph_items \<Rightarrow> graph_items \<times> bool" where
  "GraphItemMap_Remove key A =
    (if gget (A ! gidx key) key = None then (A, False)
     else (A[gidx key := gdel key (A ! gidx key)], True))"

definition GraphItemMap_Getitems :: "nat \<Rightarrow> graph_items \<Rightarrow> (string, graph_list) gomap \<times> graph_items" where
  "GraphItemMap_Getitems idx A = (A ! idx, A[idx := []])"

definition GraphItemMap_Len :: "graph_items \<Rightarrow> int" where
  "GraphItemMap_Len A = foldl (\<lambda>l m. l + int (length m)) 0 A"

definition GraphItemMap_First :: "graph_items \<Rightarrow> string \<Rightarrow> graph_item option" where
  "GraphItemMap_First A key = (case GraphItemMap_Get A key of None \<Rightarrow> None | Some sl \<Rightarrow> gl_Front sl)"

definition GraphItemMap_Back :: "graph_items \<Rightarrow> string \<Rightarrow> graph_item option" where
  "GraphItemMap_Back A key = (case GraphItemMap_Get A key of None \<Rightarrow> None | Some sl \<Rightarrow> gl_Back sl)"

definition GraphItemMap_ItemCnt :: "graph_items \<Rightarrow> string \<Rightarrow> int" where
  "GraphItemMap_ItemCnt A key = (case GraphItemMap_Get A key of None \<Rightarrow> 0 | Some sl \<Rightarrow> gl_Len sl)"

text \<open>The error of the operations below is "not exist".\<close>

definition GraphItemMap_PushAll :: "string \<Rightarrow> graph_item list \<Rightarrow> graph_items \<Rightarrow> (unit + graph_items)" where
  "GraphItemMap_PushAll key items A =
    (case GraphItemMap_Get A key of None \<Rightarrow> Inl ()
     | Some sl \<Rightarrow> Inr (GraphItemMap_Set key (gl_PushAll items sl) A))"

definition GraphItemMap_GetFlag :: "graph_items \<Rightarrow> string \<Rightarrow> unit + u32" where
  "GraphItemMap_GetFlag A key = (case GraphItemMap_Get A key of None \<Rightarrow> Inl () | Some sl \<Rightarrow> Inr (gl_Flag sl))"

definition GraphItemMap_SetFlag :: "string \<Rightarrow> u32 \<Rightarrow> graph_items \<Rightarrow> (unit + graph_items)" where
  "GraphItemMap_SetFlag key flag A =
    (case GraphItemMap_Get A key of None \<Rightarrow> Inl ()
     | Some sl \<Rightarrow> Inr (GraphItemMap_Set key (sl\<lparr>gl_Flag := flag\<rparr>) A))"

definition GraphItemMap_PopAll :: "string \<Rightarrow> graph_items \<Rightarrow> graph_item list \<times> graph_items" where
  "GraphItemMap_PopAll key A =
    (case GraphItemMap_Get A key of None \<Rightarrow> ([], A)
     | Some sl \<Rightarrow> (let (ret, sl') = gl_PopAll sl in (ret, GraphItemMap_Set key sl' A)))"

definition GraphItemMap_FetchAll :: "graph_items \<Rightarrow> string \<Rightarrow> graph_item list \<times> u32" where
  "GraphItemMap_FetchAll A key = (case GraphItemMap_Get A key of None \<Rightarrow> ([], 0) | Some sl \<Rightarrow> gl_FetchAll sl)"

definition GraphItemMap_KeysByIndex :: "graph_items \<Rightarrow> nat \<Rightarrow> string list" where
  "GraphItemMap_KeysByIndex A idx = map fst (A ! idx)"

definition getWts :: "string \<Rightarrow> int64 \<Rightarrow> int64" where
  "getWts key now = i64 (now + CACHE_TIME - uint (graph_hashKey key) mod CACHE_TIME)"

definition GRAPH_F_MISS :: u32 where "GRAPH_F_MISS = 1"

text \<open>
  \<open>miss\<close> says that migration is on and the key's file is not on this node's disk, which is asked
  only for a new key.
\<close>

definition GraphItemMap_PushFront :: "bool \<Rightarrow> string \<Rightarrow> graph_item \<Rightarrow> graph_items \<Rightarrow> graph_items" where
  "GraphItemMap_PushFront miss key item A =
    (case GraphItemMap_Get A key of
       Some sl \<Rightarrow> GraphItemMap_Set key (gl_PushFront item sl) A
     | None \<Rightarrow>
        (let safeList = gl_PushFront item NewGraphList
         in GraphItemMap_Set key (if miss then safeList\<lparr>gl_Flag := GRAPH_F_MISS\<rparr> else safeList) A))"

section \<open>The last points of a series\<close>

type_synonym history_cache = "(string, graph_item safe_list_limited) gomap"

definition defaultHistorySize :: int where "defaultHistorySize = 3"

definition zero_item :: graph_item where
  "zero_item = \<lparr>gi_Endpoint = '''', gi_Metric = '''', gi_Tags = [], gi_Value = Fin False 0, gi_Timestamp = 0,
    gi_DsType = '''', gi_Step = 0, gi_Heartbeat = 0, gi_Min = '''', gi_Max = ''''\<rparr>"

definition GetLastItem :: "history_cache \<Rightarrow> string \<Rightarrow> graph_item" where
  "GetLastItem H key =
    (case gget H key of None \<Rightarrow> zero_item
     | Some l \<Rightarrow> (case sl_Front l of None \<Rightarrow> zero_item | Some it \<Rightarrow> it))"

definition GetAllItems :: "history_cache \<Rightarrow> string \<Rightarrow> graph_item list" where
  "GetAllItems H key = (case gget H key of None \<Rightarrow> [] | Some l \<Rightarrow> sl_FrontAll l)"

definition AddItem :: "string \<Rightarrow> graph_item \<Rightarrow> history_cache \<Rightarrow> history_cache" where
  "AddItem key val H =
    (let slist = (case gget H key of None \<Rightarrow> NewSafeListLimited defaultHistorySize | Some l \<Rightarrow> l)
     in gput key (case sl_Front slist of
          None \<Rightarrow> sl_PushFrontViolently val slist
        | Some first \<Rightarrow>
           if gi_Timestamp first < gi_Timestamp val then sl_PushFrontViolently val slist else slist) H)"

section \<open>The map behaves as one map\<close>

definition gim_ok :: "graph_items \<Rightarrow> bool" where
  "gim_ok A \<longleftrightarrow> length A = nat graph_Size \<and> list_all gomap_ok A"

lemma graph_Size_val [simp]: "graph_Size = 1800"
  by (simp add: graph_Size_def CACHE_TIME_def FLUSH_DISK_STEP_def)

lemma gidx_bound: "gidx key < 1800"
proof -
  have "unat (graph_hashKey key mod 1800) = unat (graph_hashKey key) mod 1800" by (simp add: unat_mod)
  then show ?thesis by (simp add: gidx_def)
qed

lemma gim_ok_idx: "gim_ok A \<Longrightarrow> gidx key < length A"
  using gidx_bound by (simp add: gim_ok_def)

lemma gim_ok_bucket: "gim_ok A \<Longrightarrow> gomap_ok (A ! gidx key)"
  using gim_ok_idx [of A key] by (simp add: gim_ok_def list_all_length)

lemma gim_ok_update: "gim_ok A \<Longrightarrow> gomap_ok m \<Longrightarrow> gim_ok (A[gidx key := m])"
  by (auto simp: gim_ok_def list_all_iff dest: subsetD [OF set_update_subset_insert])

lemma gim_init: "gim_ok init_GraphItems"
  by (simp add: gim_ok_def init_GraphItems_def list_all_iff)

lemma gim_Get_Set:
  "gim_ok A \<Longrightarrow> GraphItemMap_Get (GraphItemMap_Set k v A) k' = (if k' = k then Some v else GraphItemMap_Get A k')"
  using gim_ok_idx [of A k] by (cases "gidx k' = gidx k") (auto simp: GraphItemMap_Get_def GraphItemMap_Set_def)

lemma gim_Get_Remove:
  "gim_ok A \<Longrightarrow> GraphItemMap_Get (fst (GraphItemMap_Remove k A)) k' = (if k' = k then None else GraphItemMap_Get A k')"
  using gim_ok_idx [of A k]
  by (cases "gidx k' = gidx k") (auto simp: GraphItemMap_Get_def GraphItemMap_Remove_def)

lemma gim_ok_Set: "gim_ok A \<Longrightarrow> gim_ok (GraphItemMap_Set k v A)"
  by (simp add: GraphItemMap_Set_def gim_ok_update gim_ok_bucket)

lemma gim_ok_Remove: "gim_ok A \<Longrightarrow> gim_ok (fst (GraphItemMap_Remove k A))"
  by (simp add: GraphItemMap_Remove_def gim_ok_update gim_ok_bucket)

interpretation gim: keyed_store GraphItemMap_Get GraphItemMap_Set "\<lambda>k A. fst (GraphItemMap_Remove k A)" gim_ok
  by unfold_locales (simp_all only: gim_Get_Set gim_Get_Remove gim_ok_Set gim_ok_Remove)

lemma init_Get [simp]: "GraphItemMap_Get init_GraphItems k = None"
  using gidx_bound [of k] by (simp add: GraphItemMap_Get_def init_GraphItems_def)

section \<open>Popping and pushing back\<close>

lemma pop_loop_rev: "pop_loop (length L) ret L = (ret @ rev L, [])"
  by (induction L arbitrary: ret rule: rev_induct) simp_all

lemma push_loop_rev: "i \<le> length items \<Longrightarrow> push_loop items i L = L @ rev (take i items)"
  by (induction i arbitrary: L) (simp_all add: take_Suc_conv_app_nth)

lemma gl_PopAll_eq: "gl_PopAll sl = (rev (gl_L sl), sl\<lparr>gl_L := []\<rparr>)"
  using pop_loop_rev [of "gl_L sl" "[]"] by (cases sl) (simp add: gl_PopAll_def)

lemma gl_PushAll_eq: "gl_PushAll items sl = sl\<lparr>gl_L := gl_L sl @ rev items\<rparr>"
  by (simp add: gl_PushAll_def push_loop_rev)

lemma PopAll_facts:
  assumes "gim_ok A" "GraphItemMap_PopAll key A = (ret, A')"
  shows "gim_ok A' \<and> ret = fst (GraphItemMap_FetchAll A key) \<and>
    GraphItemMap_Get A' k = (if k = key then map_option (\<lambda>sl. sl\<lparr>gl_L := []\<rparr>) (GraphItemMap_Get A key)
      else GraphItemMap_Get A k)"
  using assms gim.valid_store [OF assms(1)] gim_Get_Set [OF assms(1)]
  by (auto simp: GraphItemMap_PopAll_def gl_PopAll_eq GraphItemMap_FetchAll_def gl_FetchAll_def split: option.splits)

text \<open>
  Popping the cached points of a key returns them oldest first and empties the key; pushing
  them back, as a failed transfer to another node does, puts every point where it was, behind
  whatever arrived in between.
\<close>

theorem PopAll_PushAll:
  assumes "gim_ok A" "GraphItemMap_Get A key = Some sl" "GraphItemMap_PopAll key A = (items, A1)"
    and "GraphItemMap_Get A2 key = Some (sl\<lparr>gl_L := newer\<rparr>)" "gim_ok A2"
  shows "items = rev (gl_L sl) \<and> GraphItemMap_Get A1 key = Some (sl\<lparr>gl_L := []\<rparr>) \<and>
    (\<exists>A3. GraphItemMap_PushAll key items A2 = Inr A3 \<and> GraphItemMap_Get A3 key = Some (sl\<lparr>gl_L := newer @ gl_L sl\<rparr>))"
  using PopAll_facts [OF assms(1,3), of key] assms(2,4) gim_Get_Set [OF assms(5)]
  by (simp add: GraphItemMap_FetchAll_def gl_FetchAll_def GraphItemMap_PushAll_def gl_PushAll_eq)

definition gpoint :: "int64 \<Rightarrow> graph_item" where
  "gpoint t = \<lparr>gi_Endpoint = ''h'', gi_Metric = ''cpu'', gi_Tags = [], gi_Value = f_of_int t, gi_Timestamp = t,
    gi_DsType = ''GAUGE'', gi_Step = 60, gi_Heartbeat = 120, gi_Min = ''U'', gi_Max = ''U''\<rparr>"

theorem PopAll_PushAll_witness:
  "\<exists>A1 A3. GraphItemMap_PopAll ''k'' (GraphItemMap_Set ''k'' \<lparr>gl_Flag = 0, gl_L = [gpoint 120, gpoint 60]\<rparr> init_GraphItems) =
      ([gpoint 60, gpoint 120], A1) \<and>
    GraphItemMap_PushAll ''k'' [gpoint 60, gpoint 120]
      (GraphItemMap_Set ''k'' \<lparr>gl_Flag = 0, gl_L = [gpoint 180]\<rparr> init_GraphItems) = Inr A3 \<and>
    GraphItemMap_Get A3 ''k'' = Some \<lparr>gl_Flag = 0, gl_L = [gpoint 180, gpoint 120, gpoint 60]\<rparr>"
proof -
  let ?sl = "\<lparr>gl_Flag = 0, gl_L = [gpoint 120, gpoint 60]\<rparr>"
  let ?A = "GraphItemMap_Set ''k'' ?sl init_GraphItems"
  let ?A2 = "GraphItemMap_Set ''k'' (?sl\<lparr>gl_L := [gpoint 180]\<rparr>) init_GraphItems"
  obtain items A1 where p: "GraphItemMap_PopAll ''k'' ?A = (items, A1)" by fastforce
  have ok: "gim_ok ?A" "gim_ok ?A2" using gim.valid_store [OF gim_init] by blast+
  have g: "GraphItemMap_Get ?A ''k'' = Some ?sl" "GraphItemMap_Get ?A2 ''k'' = Some (?sl\<lparr>gl_L := [gpoint 180]\<rparr>)"
    by (simp_all add: gim_Get_Set [OF gim_init])
  from PopAll_PushAll [OF ok(1) g(1) p g(2) ok(2)] p show ?thesis by auto
qed

section \<open>Keys of round-robin files\<close>

lemma itoa_no_underscore: "CHR ''_'' \<notin> set (itoa i)"
proof -
  have "\<not> is_digit (CHR ''_'')" by code_simp
  then show ?thesis using itoa_chars [of "CHR ''_''" i] by auto
qed

text \<open>
  A cache key gives back what it was formed from, for a digest and a type without underscores
  and a step of 32 bits; a larger step gives an error.
\<close>

theorem RrdCacheKey_roundtrip:
  assumes "CHR ''_'' \<notin> set md5" "CHR ''_'' \<notin> set dsType"
  shows "SplitRrdCacheKey (FormRrdCacheKey md5 dsType step) =
    (if - (2 ^ 31) \<le> step \<and> step < 2 ^ 31 then Inr (md5, dsType, step) else Inl (BadStep ErrRange))"
proof -
  have s: "go_split (CHR ''_'') (FormRrdCacheKey md5 dsType step) = [md5, dsType, itoa step]"
    using assms(1,2) itoa_no_underscore [of step]
    by (simp add: FormRrdCacheKey_def go_split_append go_split_no_sep)
  show ?thesis using parse_int_itoa_if [of 32 step] s by (simp add: SplitRrdCacheKey_def)
qed

theorem RrdCacheKey_roundtrip_witness:
  "SplitRrdCacheKey (FormRrdCacheKey ''0a'' ''GAUGE'' 60) = Inr (''0a'', ''GAUGE'', 60)"
  using RrdCacheKey_roundtrip [of "''0a''" "''GAUGE''" 60] by simp

section \<open>The history keeps the newest points\<close>

definition newest_first :: "graph_item list \<Rightarrow> bool" where
  "newest_first L \<longleftrightarrow> sorted_wrt (\<lambda>a b. gi_Timestamp b < gi_Timestamp a) L"

definition slist_ok :: "graph_item safe_list_limited \<Rightarrow> bool" where
  "slist_ok l \<longleftrightarrow> sl_max l = 3 \<and> length (sl_items l) \<le> 3 \<and> newest_first (sl_items l)"

definition history_ok :: "history_cache \<Rightarrow> bool" where
  "history_ok H \<longleftrightarrow> (\<forall>k l. gget H k = Some l \<longrightarrow> slist_ok l \<and> sl_items l \<noteq> [])"

lemma newest_first_Cons:
  "newest_first L \<Longrightarrow> (\<And>f r. L = f # r \<Longrightarrow> gi_Timestamp f < gi_Timestamp v) \<Longrightarrow> newest_first (v # L)"
  by (cases L) (fastforce simp: newest_first_def)+

lemma newest_first_butlast: "newest_first L \<Longrightarrow> newest_first (butlast L)"
  by (simp add: newest_first_def butlast_conv_take sorted_wrt_take)

lemma slist_ok_push:
  assumes "slist_ok l" "\<And>f. sl_Front l = Some f \<Longrightarrow> gi_Timestamp f < gi_Timestamp val"
  shows "slist_ok (sl_PushFrontViolently val l) \<and> sl_items (sl_PushFrontViolently val l) \<noteq> []"
proof -
  have n: "newest_first (val # sl_items l)"
    using assms by (intro newest_first_Cons) (auto simp: slist_ok_def sl_Front_def)
  then show ?thesis
    using assms(1) newest_first_butlast [OF n]
    by (cases "sl_items l") (auto simp: slist_ok_def sl_PushFrontViolently_def Let_def)
qed

lemma AddItem_list_ok:
  assumes "history_ok H"
  shows "\<exists>l. gget (AddItem key val H) = (gget H)(key \<mapsto> l) \<and> slist_ok l \<and> sl_items l \<noteq> []"
proof (cases "gget H key")
  case None
  let ?n = "NewSafeListLimited defaultHistorySize :: graph_item safe_list_limited"
  have ok: "slist_ok ?n" and f: "sl_Front ?n = None"
    by (simp_all add: slist_ok_def NewSafeListLimited_def defaultHistorySize_def newest_first_def sl_Front_def)
  have "slist_ok (sl_PushFrontViolently val ?n) \<and> sl_items (sl_PushFrontViolently val ?n) \<noteq> []"
    using slist_ok_push [OF ok, of val] f by simp
  then show ?thesis using None
    by (intro exI [of _ "sl_PushFrontViolently val ?n"]) (simp add: AddItem_def Let_def f fun_eq_iff)
next
  case (Some l)
  with assms have l: "slist_ok l" "sl_items l \<noteq> []" by (simp_all add: history_ok_def)
  then obtain f r where fr: "sl_items l = f # r" by (cases "sl_items l") auto
  show ?thesis
  proof (cases "gi_Timestamp f < gi_Timestamp val")
    case True
    then show ?thesis using slist_ok_push [OF l(1), of val] Some fr
      by (intro exI [of _ "sl_PushFrontViolently val l"]) (simp add: AddItem_def sl_Front_def fun_eq_iff)
  next
    case False
    then show ?thesis using Some fr l
      by (intro exI [of _ l]) (simp add: AddItem_def sl_Front_def fun_eq_iff)
  qed
qed

lemma AddItem_history_ok: "history_ok H \<Longrightarrow> history_ok (AddItem key val H)"
  using AddItem_list_ok [of H key val] by (auto simp: history_ok_def split: if_splits)

end
