(* ===== verification/Graph_Core.thy ===== *)
theory Graph_Core
  imports Graph_Store
begin

text \<open>
  \<open>modules/graph\<close>, the process: writing to round-robin files (\<open>rrdtool/rrdtool.go\<close>), the index of
  known series (\<open>index/index.go\<close>, \<open>index/cache.go\<close>, \<open>index/index_update_incr_task.go\<close>), the RPC
  handlers (\<open>api/graph.go\<close>) and the daily cleaning (\<open>cron/clean.go\<close>). The round-robin library is
  not part of the repository's Go code: a file is the list of the updates written to it, and
  whether a write succeeds and what a fetch returns are arguments. The MySQL tables behind the
  index are the argument \<open>db\<close>.
\<close>

section \<open>State\<close>

datatype rrd_value = RInt int64 | RFloat float64

type_synonym rrd_disk = "(string, (int64 \<times> rrd_value) list) gomap"

type_synonym index_cache = "(string, string \<times> graph_item) gomap"

record graph_config =
  gc_Storage :: string
  gc_Migrate :: bool

record graph_state =
  gs_Items :: graph_items
  gs_History :: history_cache
  gs_Indexed :: index_cache
  gs_unIndexed :: index_cache
  gs_disk :: rrd_disk
  gs_pulls :: "string list"

definition init_graph :: graph_state where
  "init_graph = \<lparr>gs_Items = init_GraphItems, gs_History = [], gs_Indexed = [], gs_unIndexed = [], gs_disk = [],
    gs_pulls = []\<rparr>"

definition IsRrdFileExist :: "graph_state \<Rightarrow> string \<Rightarrow> bool" where
  "IsRrdFileExist st filename \<longleftrightarrow> gget (gs_disk st) filename \<noteq> None"

section \<open>Writing round-robin files\<close>

text \<open>
  The conversion of a float to \<open>int\<close> truncates; out of range (and for NaN) it gives the smallest
  integer, as the amd64 instruction does.
\<close>

definition f_to_int :: "float64 \<Rightarrow> int64" where
  "f_to_int f =
    (case f of
       Fin s m \<Rightarrow> (let t = (if s then - \<lfloor>m\<rfloor> else \<lfloor>m\<rfloor>) in if - (2 ^ 63) \<le> t \<and> t < 2 ^ 63 then t else - (2 ^ 63))
     | _ \<Rightarrow> - (2 ^ 63))"

definition f_1e300 :: float64 where
  "f_1e300 = f_of_rat False (of_int (10 ^ 300))"

definition f_1em300 :: float64 where
  "f_1em300 = f_of_rat False (1 / of_int (10 ^ 300))"

text \<open>The point \<open>update\<close> caches for an item: values out of range are skipped.\<close>

definition rrd_point :: "graph_item \<Rightarrow> (int64 \<times> rrd_value) option" where
  "rrd_point item =
    (let v = f_abs (gi_Value item) in
     if f_lt f_1e300 v \<or> f_lt v f_1em300 \<and> f_lt (Fin False 0) v then None
     else if gi_DsType item = ''DERIVE'' \<or> gi_DsType item = ''COUNTER''
       then Some (gi_Timestamp item, RInt (f_to_int (gi_Value item)))
     else Some (gi_Timestamp item, RFloat (gi_Value item)))"

definition rrd_update :: "graph_item list \<Rightarrow> (int64 \<times> rrd_value) list" where
  "rrd_update items = List.map_filter rrd_point items"

text \<open>\<open>io\<close> says whether making the directory, creating the file and updating it succeed.\<close>

record rrd_io =
  io_dir :: bool
  io_create :: bool
  io_update :: bool

definition flushrrd :: "rrd_io \<Rightarrow> string \<Rightarrow> graph_item list \<Rightarrow> rrd_disk \<Rightarrow> rrd_disk \<times> bool" where
  "flushrrd io filename items disk =
    (if items = [] then (disk, False)
     else case gget disk filename of
       Some ps \<Rightarrow> if io_update io then (gput filename (ps @ rrd_update items) disk, True) else (disk, False)
     | None \<Rightarrow>
        if \<not> io_dir io \<or> \<not> io_create io then (disk, False)
        else if io_update io then (gput filename (rrd_update items) disk, True)
        else (gput filename [] disk, False))"

definition CommitByKey :: "graph_config \<Rightarrow> rrd_io \<Rightarrow> string \<Rightarrow> graph_state \<Rightarrow> graph_state option" where
  "CommitByKey cfg io key st =
    (case SplitRrdCacheKey key of
       Inl err \<Rightarrow> Some st
     | Inr (md5, dsType, step) \<Rightarrow> do {
         filename \<leftarrow> RrdFileName (gc_Storage cfg) md5 dsType step;
         let (items, A) = GraphItemMap_PopAll key (gs_Items st);
         let st1 = st\<lparr>gs_Items := A\<rparr>;
         Some (if items = [] then st1
           else st1\<lparr>gs_disk := fst (flushrrd io filename items (gs_disk st))\<rparr>)
       })"

definition FLUSH_MIN_COUNT :: int where "FLUSH_MIN_COUNT = 6"
definition FLUSH_MAX_WAIT :: int64 where "FLUSH_MAX_WAIT = 86400"

definition shouldFlush :: "int64 \<Rightarrow> graph_items \<Rightarrow> string \<Rightarrow> bool" where
  "shouldFlush now A key =
    (if FLUSH_MIN_COUNT \<le> GraphItemMap_ItemCnt A key then True
     else case GraphItemMap_Back A key of
       None \<Rightarrow> False
     | Some back \<Rightarrow> gi_Timestamp back \<le> i64 (now - FLUSH_MAX_WAIT))"

text \<open>
  \<open>PullByKey\<close> queues a request for the file at the node that has it; the queue is \<open>gs_pulls\<close>. The
  ring of \<open>migrate.go\<close> is the argument \<open>route\<close>.
\<close>

definition PullByKey :: "(string \<Rightarrow> bool) \<Rightarrow> string \<Rightarrow> graph_state \<Rightarrow> graph_state" where
  "PullByKey route key st =
    (case GraphItemMap_First (gs_Items st) key of
       None \<Rightarrow> st
     | Some item \<Rightarrow> if route (graph_PrimaryKey item) then st\<lparr>gs_pulls := gs_pulls st @ [key]\<rparr> else st)"

definition FlushRRD_key ::
    "graph_config \<Rightarrow> (string \<Rightarrow> bool) \<Rightarrow> int64 \<Rightarrow> bool \<Rightarrow> (string \<Rightarrow> rrd_io) \<Rightarrow> graph_state \<Rightarrow> string \<Rightarrow> graph_state option" where
  "FlushRRD_key cfg route now force io st key =
    (let flag = (case GraphItemMap_GetFlag (gs_Items st) key of Inl _ \<Rightarrow> 0 | Inr f \<Rightarrow> f) in
     if \<not> force \<and> gc_Migrate cfg \<and> and flag GRAPH_F_MISS \<noteq> 0 then Some (PullByKey route key st)
     else if force \<or> shouldFlush now (gs_Items st) key then CommitByKey cfg (io key) key st
     else Some st)"

definition FlushRRD ::
    "graph_config \<Rightarrow> (string \<Rightarrow> bool) \<Rightarrow> int64 \<Rightarrow> bool \<Rightarrow> (string \<Rightarrow> rrd_io) \<Rightarrow> nat \<Rightarrow> graph_state \<Rightarrow> graph_state option" where
  "FlushRRD cfg route now force io idx st =
    foldM (FlushRRD_key cfg route now force io) st (GraphItemMap_KeysByIndex (gs_Items st) idx)"

definition FlushAll ::
    "graph_config \<Rightarrow> (string \<Rightarrow> bool) \<Rightarrow> int64 \<Rightarrow> bool \<Rightarrow> (string \<Rightarrow> rrd_io) \<Rightarrow> graph_state \<Rightarrow> graph_state option" where
  "FlushAll cfg route now force io st =
    foldM (\<lambda>st idx. FlushRRD cfg route now force io idx st) st [0..<nat graph_Size]"

section \<open>The index\<close>

definition ReceiveItem :: "graph_config \<Rightarrow> graph_item \<Rightarrow> string \<Rightarrow> graph_state \<Rightarrow> graph_state option" where
  "ReceiveItem cfg item md5 st =
    (let uuid = graph_UUID item in
     case gget (gs_Indexed st) md5 of
       Some old \<Rightarrow>
         Some (if uuid = fst old then st\<lparr>gs_Indexed := gput md5 (uuid, item) (gs_Indexed st)\<rparr>
           else st\<lparr>gs_unIndexed := gput md5 (uuid, item) (gs_unIndexed st)\<rparr>)
     | None \<Rightarrow> do {
         rrdFileName \<leftarrow> RrdFileName (gc_Storage cfg) md5 (gi_DsType item) (gi_Step item);
         Some (if IsRrdFileExist st rrdFileName then st\<lparr>gs_Indexed := gput md5 (uuid, item) (gs_Indexed st)\<rparr>
           else st\<lparr>gs_unIndexed := gput md5 (uuid, item) (gs_unIndexed st)\<rparr>)
       })"

definition RemoveItem :: "graph_config \<Rightarrow> graph_item \<Rightarrow> graph_state \<Rightarrow> graph_state option" where
  "RemoveItem cfg item st =
    (let md5 = graph_Checksum item;
         key = FormRrdCacheKey md5 (gi_DsType item) (gi_Step item);
         st1 = st\<lparr>gs_Indexed := gdel md5 (gs_Indexed st), gs_unIndexed := gdel md5 (gs_unIndexed st),
           gs_Items := snd (GraphItemMap_PopAll key (gs_Items st))\<rparr>
     in do {
       rrdFileName \<leftarrow> RrdFileName (gc_Storage cfg) md5 (gi_DsType item) (gi_Step item);
       Some (st1\<lparr>gs_disk := gdel rrdFileName (gs_disk st)\<rparr>)
     })"

text \<open>
  \<open>updateIndexFromOneItem\<close> writes to MySQL; \<open>conn\<close> says whether a connection is to be had, \<open>db key\<close>
  whether the writes for the key succeed.
\<close>

definition index_one :: "(string \<Rightarrow> bool) \<Rightarrow> graph_state \<Rightarrow> string \<Rightarrow> graph_state" where
  "index_one db st key =
    (case gget (gs_unIndexed st) key of
       None \<Rightarrow> st
     | Some icitem \<Rightarrow>
        (let st1 = st\<lparr>gs_unIndexed := gdel key (gs_unIndexed st)\<rparr>
         in if db key then st1\<lparr>gs_Indexed := gput key icitem (gs_Indexed st1)\<rparr> else st1))"

definition updateIndexIncr :: "bool \<Rightarrow> (string \<Rightarrow> bool) \<Rightarrow> graph_state \<Rightarrow> graph_state \<times> int" where
  "updateIndexIncr conn db st =
    (if gs_unIndexed st = [] \<or> \<not> conn then (st, 0)
     else (foldl (index_one db) st (map fst (gs_unIndexed st)), int (length (gs_unIndexed st))))"

text \<open>\<open>GetTypeAndStep\<close>: the index first, then the database behind its caches.\<close>

definition GetTypeAndStep :: "(string \<Rightarrow> string \<Rightarrow> (string \<times> int) option) \<Rightarrow> graph_state \<Rightarrow> string \<Rightarrow> string
    \<Rightarrow> (string \<times> int) option" where
  "GetTypeAndStep db st endpoint counter =
    (case gget (gs_Indexed st) (Md5 (endpoint @ ''/'' @ counter)) of
       Some (_, item) \<Rightarrow> Some (gi_DsType item, gi_Step item)
     | None \<Rightarrow> db endpoint counter)"

section \<open>Receiving points\<close>

definition handleItem :: "graph_config \<Rightarrow> (int \<Rightarrow> bool) \<Rightarrow> graph_state \<Rightarrow> graph_item option \<Rightarrow> graph_state option" where
  "handleItem cfg wide st arg =
    (case arg of None \<Rightarrow> Some st
     | Some item \<Rightarrow>
        if \<not> IsValidString wide (gi_Endpoint item) then Some st
        else if \<not> IsValidString wide (Counter (gi_Metric item) (gi_Tags item)) then Some st
        else
          (let checksum = graph_Checksum item;
               key = FormRrdCacheKey checksum (gi_DsType item) (gi_Step item);
               old = (case GraphItemMap_First (gs_Items st) key of
                   None \<Rightarrow> False | Some first \<Rightarrow> gi_Timestamp item \<le> gi_Timestamp first)
           in if old then Some st
              else do {
                miss \<leftarrow> (if gc_Migrate cfg then
                    map_option (\<lambda>f. \<not> IsRrdFileExist st f)
                      (RrdFileName (gc_Storage cfg) checksum (gi_DsType item) (gi_Step item))
                  else Some False);
                let st1 = st\<lparr>gs_Items := GraphItemMap_PushFront miss key item (gs_Items st)\<rparr>;
                st2 \<leftarrow> ReceiveItem cfg item checksum st1;
                Some (st2\<lparr>gs_History := AddItem checksum item (gs_History st2)\<rparr>)
              }))"

definition handleItems :: "graph_config \<Rightarrow> (int \<Rightarrow> bool) \<Rightarrow> graph_item option list \<Rightarrow> graph_state \<Rightarrow> graph_state option" where
  "handleItems cfg wide items st = foldM (handleItem cfg wide) st items"

record graph_delete_param =
  dp_Endpoint :: string
  dp_Metric :: string
  dp_Tags :: string
  dp_Step :: int
  dp_DsType :: string

definition Delete_param :: "graph_config \<Rightarrow> graph_state \<Rightarrow> graph_delete_param \<Rightarrow> graph_state option" where
  "Delete_param cfg st p =
    (case SplitTagsString (dp_Tags p) of
       (Some err, _) \<Rightarrow> Some st
     | (None, tags) \<Rightarrow>
        RemoveItem cfg (zero_item\<lparr>gi_Endpoint := dp_Endpoint p, gi_Metric := dp_Metric p, gi_Tags := tags,
          gi_DsType := dp_DsType p, gi_Step := dp_Step p\<rparr>) st)"

definition graph_Delete :: "graph_config \<Rightarrow> graph_delete_param list \<Rightarrow> graph_state \<Rightarrow> graph_state option" where
  "graph_Delete cfg params st = foldM (Delete_param cfg) st params"

section \<open>The last value\<close>

definition GetLastRaw :: "graph_state \<Rightarrow> string \<Rightarrow> string \<Rightarrow> rrd_data" where
  "GetLastRaw st endpoint counter =
    (let item = GetLastItem (gs_History st) (Md5 (endpoint @ ''/'' @ counter))
     in NewRRDData (gi_Timestamp item) (gi_Value item))"

definition GetLast :: "(string \<Rightarrow> string \<Rightarrow> (string \<times> int) option) \<Rightarrow> graph_state \<Rightarrow> string \<Rightarrow> string \<Rightarrow> rrd_data" where
  "GetLast db st endpoint counter =
    (case GetTypeAndStep db st endpoint counter of
       None \<Rightarrow> NewRRDData 0 f_zero
     | Some (dsType, step) \<Rightarrow>
        if dsType = ''GAUGE'' then GetLastRaw st endpoint counter
        else if dsType = ''COUNTER'' \<or> dsType = ''DERIVE'' then
          (case GetAllItems (gs_History st) (Md5 (endpoint @ ''/'' @ counter)) of
             f0 # f1 # _ \<Rightarrow>
               (let delta_ts = i64 (gi_Timestamp f0 - gi_Timestamp f1);
                    delta_v = f_sub (gi_Value f0) (gi_Value f1)
                in if delta_ts \<noteq> step \<or> delta_ts \<le> 0 then NewRRDData 0 f_zero
                   else NewRRDData (gi_Timestamp f0)
                     (f_div (if f_lt delta_v f_zero then f_zero else delta_v) (f_of_int delta_ts)))
           | _ \<Rightarrow> NewRRDData 0 f_zero)
        else NewRRDData 0 f_zero)"

section \<open>Cleaning\<close>

definition clean_key :: "index_cache \<Rightarrow> graph_items \<times> int \<Rightarrow> string \<Rightarrow> graph_items \<times> int" where
  "clean_key indexed Ac key =
    (case Ac of (A, deleteCnt) \<Rightarrow>
       (let tmp = go_split (CHR ''_'') key in
        if length tmp = 3 \<and> gget indexed (tmp ! 0) = None
        then (fst (GraphItemMap_Remove key A), deleteCnt + 1) else (A, deleteCnt)))"

definition DeleteInvalidItems :: "graph_state \<Rightarrow> graph_state \<times> int" where
  "DeleteInvalidItems st =
    (let (A, cnt) = foldl (\<lambda>Ac idx. foldl (clean_key (gs_Indexed st)) Ac (GraphItemMap_KeysByIndex (fst Ac) idx))
        (gs_Items st, 0) [0..<nat graph_Size]
     in (st\<lparr>gs_Items := A\<rparr>, cnt))"

definition DeleteInvalidHistory :: "graph_state \<Rightarrow> graph_state \<times> int" where
  "DeleteInvalidHistory st =
    (let (H, cnt) = foldl (\<lambda>(H, cnt) key. if gget (gs_Indexed st) key = None then (gdel key H, cnt + 1) else (H, cnt))
        (gs_History st, 0) (map fst (gs_History st))
     in (st\<lparr>gs_History := H\<rparr>, cnt))"

end
