(* ===== verification/Graph_Flow.thy ===== *)
theory Graph_Flow
  imports Graph_Core
begin

text \<open>
  Correctness of the graph's write path: the invariant of the caches over the handlers, what a
  flush writes and when it loses points, that a forced flush leaves nothing behind, and what
  the daily cleaning removes.
\<close>

section \<open>The invariant\<close>

definition item_key :: "graph_item \<Rightarrow> string" where
  "item_key it = FormRrdCacheKey (graph_Checksum it) (gi_DsType it) (gi_Step it)"

definition cache_ok :: "graph_items \<Rightarrow> bool" where
  "cache_ok A \<longleftrightarrow> gim_ok A \<and> (\<forall>k sl. GraphItemMap_Get A k = Some sl \<longrightarrow>
    newest_first (gl_L sl) \<and> (\<forall>it\<in>set (gl_L sl). item_key it = k))"

text \<open>The history of a series, and that no waiting point of the series is newer than its front.\<close>

definition history_of :: "graph_state \<Rightarrow> string \<Rightarrow> graph_item list" where
  "history_of st c = (case gget (gs_History st) c of None \<Rightarrow> [] | Some l \<Rightarrow> sl_items l)"

definition history_leads :: "graph_state \<Rightarrow> bool" where
  "history_leads st \<longleftrightarrow> (\<forall>k sl. GraphItemMap_Get (gs_Items st) k = Some sl \<longrightarrow>
    (\<forall>it\<in>set (gl_L sl). \<exists>f r. history_of st (graph_Checksum it) = f # r \<and> gi_Timestamp it \<le> gi_Timestamp f))"

definition graph_inv :: "graph_state \<Rightarrow> bool" where
  "graph_inv st \<longleftrightarrow> cache_ok (gs_Items st) \<and> history_ok (gs_History st) \<and> history_leads st"

text \<open>The description: a list without bound to which points newer than all before are added.\<close>

definition valid_item :: "(int \<Rightarrow> bool) \<Rightarrow> graph_item \<Rightarrow> bool" where
  "valid_item wide it \<longleftrightarrow> IsValidString wide (gi_Endpoint it) \<and> IsValidString wide (Counter (gi_Metric it) (gi_Tags it))"

fun keep_newer :: "graph_item list \<Rightarrow> graph_item \<Rightarrow> graph_item list" where
  "keep_newer [] it = [it]"
| "keep_newer (f # r) it = (if gi_Timestamp f < gi_Timestamp it then it # f # r else f # r)"

fun received_of :: "(int \<Rightarrow> bool) \<Rightarrow> string \<Rightarrow> graph_item option list \<Rightarrow> graph_item list" where
  "received_of wide c [] = []"
| "received_of wide c (None # as) = received_of wide c as"
| "received_of wide c (Some it # as) =
    (if valid_item wide it \<and> graph_Checksum it = c then it # received_of wide c as else received_of wide c as)"

lemma take_keep_newer: "0 < n \<Longrightarrow> take n (keep_newer (take n L) it) = take n (keep_newer L it)"
  by (cases L; cases n) (auto simp: take_Cons' min_def)

lemma take_foldl_keep: "0 < n \<Longrightarrow> take n (foldl keep_newer (take n L) xs) = take n (foldl keep_newer L xs)"
proof (induction xs arbitrary: L)
  case (Cons x xs)
  have "take n (foldl keep_newer (keep_newer (take n L) x) xs) = take n (foldl keep_newer (take n (keep_newer (take n L) x)) xs)"
    using Cons by simp
  also have "\<dots> = take n (foldl keep_newer (keep_newer L x) xs)" using Cons by (simp add: take_keep_newer)
  finally show ?case by simp
qed simp

lemma AddItem_history:
  assumes "history_ok (gs_History st)" "gs_History st' = AddItem c it (gs_History st)"
  shows "history_of st' c' =
    (if c' = c then take 3 (keep_newer (history_of st c) it) else history_of st c')"
proof (cases "gget (gs_History st) c")
  case None
  then show ?thesis
    by (simp add: history_of_def assms(2) AddItem_def Let_def NewSafeListLimited_def defaultHistorySize_def sl_Front_def
        sl_PushFrontViolently_def)
next
  case (Some l)
  then have l: "sl_max l = 3" "length (sl_items l) \<le> 3" "sl_items l \<noteq> []"
    using assms by (auto simp: history_ok_def slist_ok_def)
  then obtain f r where fr: "sl_items l = f # r" by (cases "sl_items l") auto
  have "(if 3 < int (length (it # f # r)) then butlast (it # f # r) else it # f # r) = take 3 (it # f # r)"
    using l(2) unfolding fr by (cases "length r = 2") (simp_all add: butlast_conv_take)
  then show ?thesis using Some l(1,2) fr
    by (simp add: history_of_def assms(2) AddItem_def sl_Front_def sl_PushFrontViolently_def Let_def)
qed

lemma keep_newer_front:
  "\<exists>f r. take 3 (keep_newer L it) = f # r \<and> gi_Timestamp it \<le> gi_Timestamp f \<and>
    (\<forall>g s. L = g # s \<longrightarrow> gi_Timestamp g \<le> gi_Timestamp f)"
  by (cases L) auto

lemma cache_ok_Set:
  assumes "cache_ok A" "newest_first (gl_L sl)" "\<forall>it\<in>set (gl_L sl). item_key it = k"
  shows "cache_ok (GraphItemMap_Set k sl A)"
  using assms gim_Get_Set [of A k sl] gim_ok_Set [of A k sl] by (auto simp: cache_ok_def split: if_splits)

lemma cache_ok_PushFront:
  assumes "cache_ok A" "item_key it = k"
    and "\<And>f. GraphItemMap_First A k = Some f \<Longrightarrow> gi_Timestamp f < gi_Timestamp it"
  shows "cache_ok (GraphItemMap_PushFront miss k it A)"
proof (cases "GraphItemMap_Get A k")
  case None
  have "cache_ok (GraphItemMap_Set k sl A)" if "gl_L sl = [it]" for sl
    using cache_ok_Set [OF assms(1), of sl k] that assms(2) by (simp add: newest_first_def)
  then show ?thesis using None
    by (simp add: GraphItemMap_PushFront_def gl_PushFront_def NewGraphList_def Let_def)
next
  case (Some sl)
  then have l: "newest_first (gl_L sl)" "\<forall>x\<in>set (gl_L sl). item_key x = k" using assms(1) by (auto simp: cache_ok_def)
  have "newest_first (it # gl_L sl)"
    using l(1) Some assms(3) by (intro newest_first_Cons) (auto simp: GraphItemMap_First_def gl_Front_def)
  then show ?thesis using cache_ok_Set [OF assms(1), of "gl_PushFront it sl" k] Some l(2) assms(2)
    by (simp add: GraphItemMap_PushFront_def gl_PushFront_def)
qed

lemma cache_ok_PopAll:
  assumes "cache_ok A" "GraphItemMap_PopAll key A = (ret, A')"
  shows "cache_ok A'"
  using assms PopAll_facts [of A key ret A'] by (auto simp: cache_ok_def newest_first_def split: if_splits)

lemma RrdFileName_total: "2 \<le> length md5 \<Longrightarrow> RrdFileName d md5 ty s \<noteq> None"
  by (simp add: RrdFileName_def go_slice_def)

lemma length_Checksum: "length (graph_Checksum it) = 32"
  by (simp add: graph_Checksum_def Checksum_def)

lemma ReceiveItem_facts:
  "\<exists>st'. ReceiveItem cfg it (graph_Checksum it) st = Some st' \<and> gs_Items st' = gs_Items st \<and>
    gs_History st' = gs_History st \<and> gs_disk st' = gs_disk st \<and>
    (gget (gs_Indexed st') (graph_Checksum it) \<noteq> None \<or> gget (gs_unIndexed st') (graph_Checksum it) \<noteq> None)"
  using RrdFileName_total [of "graph_Checksum it" "gc_Storage cfg" "gi_DsType it" "gi_Step it"] length_Checksum [of it]
  by (auto simp: ReceiveItem_def Let_def split: option.split)

lemma item_key_checksum:
  assumes "item_key a = item_key b"
  shows "graph_Checksum a = graph_Checksum b"
proof -
  have "take 32 (item_key x) = graph_Checksum x" for x by (simp add: item_key_def FormRrdCacheKey_def length_Checksum)
  from this [of a] this [of b] assms show ?thesis by simp
qed

lemma PushFront_items:
  assumes "gim_ok A" "GraphItemMap_Get (GraphItemMap_PushFront miss k it A) k' = Some sl" "x \<in> set (gl_L sl)"
  shows "x = it \<or> (\<exists>sl0. GraphItemMap_Get A k' = Some sl0 \<and> x \<in> set (gl_L sl0))"
  using assms gim_Get_Set [OF assms(1)]
  by (auto simp: GraphItemMap_PushFront_def gl_PushFront_def NewGraphList_def Let_def split: option.splits if_splits)

lemma history_leads_push:
  assumes "graph_inv st" "gs_Items st' = GraphItemMap_PushFront miss (item_key it) it (gs_Items st)"
    and "gs_History st' = AddItem (graph_Checksum it) it (gs_History st)"
  shows "history_leads st'"
  unfolding history_leads_def
proof (intro allI impI ballI)
  fix k sl x assume sl: "GraphItemMap_Get (gs_Items st') k = Some sl" "x \<in> set (gl_L sl)"
  have inv: "gim_ok (gs_Items st)" "history_ok (gs_History st)" "history_leads st"
    using assms(1) by (simp_all add: graph_inv_def cache_ok_def)
  note h = AddItem_history [OF inv(2) assms(3)]
  from keep_newer_front [of "history_of st (graph_Checksum it)" it] obtain f r where
    f: "take 3 (keep_newer (history_of st (graph_Checksum it)) it) = f # r" "gi_Timestamp it \<le> gi_Timestamp f"
      "\<forall>g s. history_of st (graph_Checksum it) = g # s \<longrightarrow> gi_Timestamp g \<le> gi_Timestamp f" by blast
  show "\<exists>f r. history_of st' (graph_Checksum x) = f # r \<and> gi_Timestamp x \<le> gi_Timestamp f"
  proof (cases "x = it")
    case True
    then show ?thesis using f h by simp
  next
    case False
    then obtain sl0 where "GraphItemMap_Get (gs_Items st) k = Some sl0" "x \<in> set (gl_L sl0)"
      using PushFront_items [OF inv(1) sl(1) [unfolded assms(2)] sl(2)] by blast
    then obtain g s where g: "history_of st (graph_Checksum x) = g # s" "gi_Timestamp x \<le> gi_Timestamp g"
      using inv(3) unfolding history_leads_def by blast
    then show ?thesis using f h [of "graph_Checksum x"] by (cases "graph_Checksum x = graph_Checksum it") auto
  qed
qed

lemma history_short: "history_ok (gs_History st) \<Longrightarrow> take 3 (history_of st c) = history_of st c"
  by (auto simp: history_of_def history_ok_def slist_ok_def split: option.split)

text \<open>A point refused because its key has one at least as new adds nothing to the history either.\<close>

lemma refused_not_newer:
  assumes "graph_inv st" "GraphItemMap_First (gs_Items st) (item_key it) = Some f" "gi_Timestamp it \<le> gi_Timestamp f"
  shows "keep_newer (history_of st (graph_Checksum it)) it = history_of st (graph_Checksum it)"
proof -
  from assms(2) obtain sl where sl: "GraphItemMap_Get (gs_Items st) (item_key it) = Some sl" "f \<in> set (gl_L sl)"
    by (auto simp: GraphItemMap_First_def gl_Front_def split: option.splits list.splits)
  then have "item_key f = item_key it" using assms(1) by (auto simp: graph_inv_def cache_ok_def)
  then have c: "graph_Checksum f = graph_Checksum it" by (rule item_key_checksum)
  from sl assms(1) obtain g r where "history_of st (graph_Checksum f) = g # r" "gi_Timestamp f \<le> gi_Timestamp g"
    unfolding graph_inv_def history_leads_def by blast
  then show ?thesis using assms(3) by (simp add: c)
qed

lemma handleItem_facts:
  assumes "graph_inv st"
  shows "\<exists>st'. handleItem cfg wide st arg = Some st' \<and> graph_inv st' \<and>
    (\<forall>c. history_of st' c = take 3 (foldl keep_newer (history_of st c) (received_of wide c [arg])))"
proof (cases "\<exists>it. arg = Some it \<and> valid_item wide it \<and>
    \<not> (case GraphItemMap_First (gs_Items st) (item_key it) of None \<Rightarrow> False | Some f \<Rightarrow> gi_Timestamp it \<le> gi_Timestamp f)")
  case True
  then obtain it where it: "arg = Some it" "valid_item wide it"
    "\<not> (case GraphItemMap_First (gs_Items st) (item_key it) of None \<Rightarrow> False | Some f \<Rightarrow> gi_Timestamp it \<le> gi_Timestamp f)"
    by blast
  obtain miss where m: "(if gc_Migrate cfg then map_option (\<lambda>f. \<not> IsRrdFileExist st f)
      (RrdFileName (gc_Storage cfg) (graph_Checksum it) (gi_DsType it) (gi_Step it)) else Some False) = Some miss"
    using RrdFileName_total [of "graph_Checksum it" "gc_Storage cfg" "gi_DsType it" "gi_Step it"] length_Checksum [of it]
    by (cases "gc_Migrate cfg") auto
  let ?st1 = "st\<lparr>gs_Items := GraphItemMap_PushFront miss (item_key it) it (gs_Items st)\<rparr>"
  from ReceiveItem_facts [of cfg it ?st1] obtain st2 where
    r: "ReceiveItem cfg it (graph_Checksum it) ?st1 = Some st2" "gs_Items st2 = gs_Items ?st1" "gs_History st2 = gs_History st"
    by auto
  let ?st' = "st2\<lparr>gs_History := AddItem (graph_Checksum it) it (gs_History st2)\<rparr>"
  have h: "history_ok (gs_History st)" using assms by (simp add: graph_inv_def)
  have "cache_ok (GraphItemMap_PushFront miss (item_key it) it (gs_Items st))"
    using assms it(3) by (intro cache_ok_PushFront) (auto simp: graph_inv_def)
  moreover have "history_leads ?st'" by (rule history_leads_push [OF assms]) (simp_all add: r(2,3))
  ultimately have "graph_inv ?st'" using r(2,3) h AddItem_history_ok by (simp add: graph_inv_def)
  moreover have "history_of ?st' c = take 3 (foldl keep_newer (history_of st c) (received_of wide c [arg]))" for c
    using AddItem_history [OF h, of ?st' "graph_Checksum it" it c] history_short [OF h, of c] it(1,2) by (simp add: r(3))
  ultimately show ?thesis using it m r(1) by (auto simp: handleItem_def Let_def item_key_def valid_item_def)
next
  case False
  have "handleItem cfg wide st arg = Some st"
    using False by (cases arg) (auto simp: handleItem_def Let_def item_key_def valid_item_def)
  moreover have "foldl keep_newer (history_of st c) (received_of wide c [arg]) = history_of st c" for c
    using False refused_not_newer [OF assms] by (cases arg) (auto split: option.splits)
  ultimately show ?thesis using assms history_short by (simp add: graph_inv_def)
qed

lemma received_of_Cons: "received_of wide c (a # as) = received_of wide c [a] @ received_of wide c as"
  by (cases a) simp_all

text \<open>
  C22: Whatever list of points arrives, nil and invalid ones included, the graph takes them without
  panicking. Under every key the waiting points are those of that key, newest first with no time
  twice. The history of each series becomes the three newest of a reference list:
  the one got by going through the series' valid points in the order they came and putting in
  front of the earlier history each that is newer than all before it (\<open>keep_newer\<close>); a point that comes
  late, not newer than the newest one known, enters neither. The state is one that satisfies \<open>graph_inv\<close>,
  which the handler keeps, the empty state satisfies and a flush keeps: caches and histories are in
  order, histories of at most three points, and no waiting point is newer than the front of its
  history.
\<close>

theorem handleItems_invariant:
  assumes "graph_inv st"
  shows "\<exists>st'. handleItems cfg wide items st = Some st' \<and> graph_inv st' \<and>
    (\<forall>k sl. GraphItemMap_Get (gs_Items st') k = Some sl \<longrightarrow>
      sorted_wrt (\<lambda>a b. gi_Timestamp b < gi_Timestamp a) (gl_L sl) \<and> (\<forall>it\<in>set (gl_L sl). item_key it = k)) \<and>
    (\<forall>c. history_of st' c = take 3 (foldl keep_newer (history_of st c) (received_of wide c items)))"
proof -
  have "\<exists>st'. handleItems cfg wide items st = Some st' \<and> graph_inv st' \<and>
      (\<forall>c. history_of st' c = take 3 (foldl keep_newer (history_of st c) (received_of wide c items)))"
    using assms
  proof (induction items arbitrary: st)
    case Nil
    then show ?case using history_short by (simp add: handleItems_def graph_inv_def)
  next
    case (Cons a items)
    from handleItem_facts [OF Cons.prems] obtain st1 where
      s1: "handleItem cfg wide st a = Some st1" "graph_inv st1"
        "\<forall>c. history_of st1 c = take 3 (foldl keep_newer (history_of st c) (received_of wide c [a]))" by blast
    from Cons.IH [OF s1(2)] s1 show ?case
      by (auto simp: handleItems_def received_of_Cons [of wide _ a items] take_foldl_keep)
  qed
  then show ?thesis by (auto simp: graph_inv_def cache_ok_def newest_first_def)
qed

lemma graph_inv_init: "graph_inv init_graph"
  using gim_init by (simp add: graph_inv_def init_graph_def cache_ok_def history_ok_def history_leads_def)

definition demo_graph :: graph_config where
  "demo_graph = \<lparr>gc_Storage = ''data'', gc_Migrate = False\<rparr>"

theorem handleItems_invariant_witness:
  "\<exists>st'. handleItems demo_graph (\<lambda>_. True)
      [Some (gpoint 60), None, Some (gpoint 60), Some (gpoint 120), Some (gpoint 90), Some (gpoint 180), Some (gpoint 240)] init_graph = Some st' \<and>
    map gi_Timestamp (history_of st' (graph_Checksum (gpoint 60))) = [240, 180, 120]"
proof -
  have c: "graph_Checksum (gpoint t) = graph_Checksum (gpoint 60)" for t by (simp add: gpoint_def graph_Checksum_def)
  have v: "valid_item (\<lambda>_. True) (gpoint t) = valid_item (\<lambda>_. True) (gpoint 60)" for t by (simp add: gpoint_def valid_item_def)
  have v60: "valid_item (\<lambda>_. True) (gpoint 60)" by code_simp
  have t: "gi_Timestamp (gpoint t) = t" for t by (simp add: gpoint_def)
  show ?thesis
    using handleItems_invariant [OF graph_inv_init, of demo_graph "\<lambda>_. True"
        "[Some (gpoint 60), None, Some (gpoint 60), Some (gpoint 120), Some (gpoint 90), Some (gpoint 180), Some (gpoint 240)]"]
    by (auto simp: v [of 120] v [of 90] v [of 180] v [of 240] c [of 120] c [of 90] c [of 180] c [of 240] v60 t history_of_def init_graph_def)
qed

section \<open>Flushing\<close>

lemma flushrrd_ok:
  assumes "items \<noteq> []" "io_dir io" "io_create io" "io_update io"
  shows "fst (flushrrd io filename items disk) =
    gput filename ((case gget disk filename of None \<Rightarrow> [] | Some ps \<Rightarrow> ps) @ rrd_update items) disk"
  using assms by (simp add: flushrrd_def split: option.split)

lemma CommitByKey_eq:
  assumes "SplitRrdCacheKey key = Inr (md5, ty, step)" "RrdFileName (gc_Storage cfg) md5 ty step = Some f"
    and "gim_ok (gs_Items st)" "GraphItemMap_Get (gs_Items st) key = Some sl"
  shows "\<exists>A. CommitByKey cfg io key st = Some (st\<lparr>gs_Items := A,
      gs_disk := (if gl_L sl = [] then gs_disk st else fst (flushrrd io f (rev (gl_L sl)) (gs_disk st)))\<rparr>) \<and>
    gim_ok A \<and> GraphItemMap_Get A key = Some (sl\<lparr>gl_L := []\<rparr>) \<and>
    (\<forall>k. k \<noteq> key \<longrightarrow> GraphItemMap_Get A k = GraphItemMap_Get (gs_Items st) k)"
proof -
  obtain items A where p: "GraphItemMap_PopAll key (gs_Items st) = (items, A)" by fastforce
  note q = PopAll_facts [OF assms(3) p]
  have i: "items = rev (gl_L sl)" using q [of key] assms(4) by (simp add: GraphItemMap_FetchAll_def gl_FetchAll_def)
  have a: "gim_ok A" "GraphItemMap_Get A key = Some (sl\<lparr>gl_L := []\<rparr>)"
    "\<forall>k. k \<noteq> key \<longrightarrow> GraphItemMap_Get A k = GraphItemMap_Get (gs_Items st) k"
    using q assms(4) by auto
  have "CommitByKey cfg io key st = Some (st\<lparr>gs_Items := A,
      gs_disk := (if gl_L sl = [] then gs_disk st else fst (flushrrd io f (rev (gl_L sl)) (gs_disk st)))\<rparr>)"
    using assms(1,2) p i by (simp add: CommitByKey_def)
  with a show ?thesis by blast
qed

text \<open>A flush of a key keeps the invariant.\<close>

lemma CommitByKey_inv:
  assumes "graph_inv st" "SplitRrdCacheKey key = Inr (md5, ty, step)" "RrdFileName (gc_Storage cfg) md5 ty step = Some f"
    and "GraphItemMap_Get (gs_Items st) key = Some sl"
  shows "\<exists>st'. CommitByKey cfg io key st = Some st' \<and> graph_inv st'"
proof -
  have g: "gim_ok (gs_Items st)" using assms(1) by (simp add: graph_inv_def cache_ok_def)
  from CommitByKey_eq [OF assms(2,3) g assms(4), of io] obtain A where A:
    "CommitByKey cfg io key st = Some (st\<lparr>gs_Items := A,
      gs_disk := (if gl_L sl = [] then gs_disk st else fst (flushrrd io f (rev (gl_L sl)) (gs_disk st)))\<rparr>)"
    "gim_ok A" "GraphItemMap_Get A key = Some (sl\<lparr>gl_L := []\<rparr>)"
    "\<forall>k. k \<noteq> key \<longrightarrow> GraphItemMap_Get A k = GraphItemMap_Get (gs_Items st) k" by blast
  have e: "GraphItemMap_Get A k = (if k = key then Some (sl\<lparr>gl_L := []\<rparr>) else GraphItemMap_Get (gs_Items st) k)" for k
    using A(3,4) by simp
  let ?st = "st\<lparr>gs_Items := A, gs_disk := (if gl_L sl = [] then gs_disk st else fst (flushrrd io f (rev (gl_L sl)) (gs_disk st)))\<rparr>"
  have "history_of ?st c = history_of st c" for c by (simp add: history_of_def)
  then have "graph_inv ?st" using assms(1) A(2)
    by (auto simp: graph_inv_def cache_ok_def history_leads_def e newest_first_def split: if_splits)
  with A(1) show ?thesis by blast
qed

text \<open>
  C38: A flush of a key empties its cache before it knows whether the file was written: when it is,
  the file has the points appended oldest first; when the update fails, the points are in
  neither place.
\<close>

theorem CommitByKey_moves_or_loses:
  assumes "SplitRrdCacheKey key = Inr (md5, ty, step)" "RrdFileName (gc_Storage cfg) md5 ty step = Some f"
    and "gim_ok (gs_Items st)" "GraphItemMap_Get (gs_Items st) key = Some sl" "gl_L sl \<noteq> []"
    and "gget (gs_disk st) f = Some ps"
  shows "\<exists>st'. CommitByKey cfg io key st = Some st' \<and> GraphItemMap_Get (gs_Items st') key = Some (sl\<lparr>gl_L := []\<rparr>) \<and>
    gget (gs_disk st') f = Some (if io_update io then ps @ rrd_update (rev (gl_L sl)) else ps)"
  using CommitByKey_eq [OF assms(1-4), of io] assms(5,6) by (auto simp: flushrrd_def)

definition demo_graph_state :: graph_state where
  "demo_graph_state = init_graph\<lparr>
    gs_Items := GraphItemMap_Set ''0a_GAUGE_60'' \<lparr>gl_Flag = 0, gl_L = [gpoint 120, gpoint 60]\<rparr> init_GraphItems,
    gs_disk := [(''data/0a/0a_GAUGE_60.rrd'', [])]\<rparr>"

definition failing_io :: rrd_io where
  "failing_io = \<lparr>io_dir = True, io_create = True, io_update = False\<rparr>"

lemma demo_key:
  "SplitRrdCacheKey ''0a_GAUGE_60'' = Inr (''0a'', ''GAUGE'', 60)"
  "RrdFileName (gc_Storage demo_graph) ''0a'' ''GAUGE'' 60 = Some ''data/0a/0a_GAUGE_60.rrd''"
  by code_simp+

theorem CommitByKey_moves_or_loses_witness:
  "\<exists>st'. CommitByKey demo_graph failing_io ''0a_GAUGE_60'' demo_graph_state = Some st' \<and>
    GraphItemMap_Get (gs_Items st') ''0a_GAUGE_60'' = Some \<lparr>gl_Flag = 0, gl_L = []\<rparr> \<and>
    gget (gs_disk st') ''data/0a/0a_GAUGE_60.rrd'' = Some []"
proof -
  have a: "gim_ok (gs_Items demo_graph_state)"
    by (simp add: demo_graph_state_def gim_ok_Set gim_init)
  have b: "GraphItemMap_Get (gs_Items demo_graph_state) ''0a_GAUGE_60'' = Some \<lparr>gl_Flag = 0, gl_L = [gpoint 120, gpoint 60]\<rparr>"
    by (simp add: demo_graph_state_def gim_Get_Set gim_init)
  have c: "gget (gs_disk demo_graph_state) ''data/0a/0a_GAUGE_60.rrd'' = Some []" by (simp add: demo_graph_state_def)
  from CommitByKey_moves_or_loses [OF demo_key a b _ c, of failing_io] show ?thesis by (simp add: failing_io_def)
qed

section \<open>A forced flush leaves nothing behind\<close>

definition cached_keys :: "graph_items \<Rightarrow> string set" where
  "cached_keys A = {k. \<exists>sl. GraphItemMap_Get A k = Some sl \<and> gl_L sl \<noteq> []}"

definition key_parses :: "graph_config \<Rightarrow> string \<Rightarrow> bool" where
  "key_parses cfg k \<longleftrightarrow>
    (case SplitRrdCacheKey k of Inl _ \<Rightarrow> False | Inr (md5, ty, step) \<Rightarrow> RrdFileName (gc_Storage cfg) md5 ty step \<noteq> None)"

definition same_keys :: "graph_items \<Rightarrow> graph_items \<Rightarrow> bool" where
  "same_keys A A' \<longleftrightarrow> (\<forall>idx. set (GraphItemMap_KeysByIndex A' idx) = set (GraphItemMap_KeysByIndex A idx))"

lemma same_keys_PopAll: "same_keys A (snd (GraphItemMap_PopAll key A))"
proof (cases "GraphItemMap_Get A key")
  case (Some sl)
  have "key \<in> set (map fst (A ! gidx key))"
    using map_of_SomeD [of "A ! gidx key" key sl] Some by (force simp: GraphItemMap_Get_def)
  then have "set (map fst (gput key v (A ! gidx key))) = set (map fst (A ! gidx key))" for v
    by (simp only: keys_gput insert_absorb)
  then have "set (map fst (A[gidx key := gput key v (A ! gidx key)] ! idx)) = set (map fst (A ! idx))" for v idx
    by (cases "gidx key < length A"; cases "idx = gidx key") (simp_all add: list_update_beyond)
  then show ?thesis
    using Some by (simp add: same_keys_def GraphItemMap_PopAll_def gl_PopAll_eq GraphItemMap_Set_def GraphItemMap_KeysByIndex_def)
qed (simp add: same_keys_def GraphItemMap_PopAll_def)

lemma CommitByKey_same_keys:
  "CommitByKey cfg io key st = Some st' \<Longrightarrow> same_keys (gs_Items st) (gs_Items st')"
  using same_keys_PopAll [of "gs_Items st" key]
  by (auto simp: CommitByKey_def same_keys_def Let_def split: sum.splits prod.splits if_splits bind_splits)

lemma FlushRRD_key_forced:
  assumes "gim_ok (gs_Items st)" "key_parses cfg key"
  shows "\<exists>st'. FlushRRD_key cfg route now True io st key = Some st' \<and> gim_ok (gs_Items st') \<and>
    same_keys (gs_Items st) (gs_Items st') \<and> cached_keys (gs_Items st') = cached_keys (gs_Items st) - {key}"
proof -
  from assms(2) obtain md5 ty step f where
    k: "SplitRrdCacheKey key = Inr (md5, ty, step)" "RrdFileName (gc_Storage cfg) md5 ty step = Some f"
    by (auto simp: key_parses_def split: sum.splits prod.splits)
  have e: "FlushRRD_key cfg route now True io st key = CommitByKey cfg (io key) key st"
    by (simp add: FlushRRD_key_def)
  show ?thesis
  proof (cases "GraphItemMap_Get (gs_Items st) key")
    case None
    then have "GraphItemMap_PopAll key (gs_Items st) = ([], gs_Items st)" by (simp add: GraphItemMap_PopAll_def)
    then have "CommitByKey cfg (io key) key st = Some st" using k by (simp add: CommitByKey_def)
    moreover have "key \<notin> cached_keys (gs_Items st)" using None by (simp add: cached_keys_def)
    ultimately show ?thesis using e assms(1) by (simp add: same_keys_def)
  next
    case (Some sl)
    from CommitByKey_eq [OF k assms(1) Some, of "io key"] obtain st' where
      s: "CommitByKey cfg (io key) key st = Some st'" "gim_ok (gs_Items st')"
        "GraphItemMap_Get (gs_Items st') key = Some (sl\<lparr>gl_L := []\<rparr>)"
        "\<forall>k. k \<noteq> key \<longrightarrow> GraphItemMap_Get (gs_Items st') k = GraphItemMap_Get (gs_Items st) k" by auto
    have "k \<in> cached_keys (gs_Items st') \<longleftrightarrow> k \<in> cached_keys (gs_Items st) - {key}" for k
      using s(3,4) by (cases "k = key") (auto simp: cached_keys_def)
    then have "cached_keys (gs_Items st') = cached_keys (gs_Items st) - {key}" by blast
    then show ?thesis using e s(1,2) CommitByKey_same_keys [OF s(1)] by simp
  qed
qed

lemma FlushRRD_forced:
  assumes "gim_ok (gs_Items st)" "\<forall>k\<in>set ks. key_parses cfg k"
  shows "\<exists>st'. foldM (FlushRRD_key cfg route now True io) st ks = Some st' \<and> gim_ok (gs_Items st') \<and>
    same_keys (gs_Items st) (gs_Items st') \<and> cached_keys (gs_Items st') = cached_keys (gs_Items st) - set ks"
  using assms
proof (induction ks arbitrary: st)
  case (Cons k ks)
  from FlushRRD_key_forced [OF Cons.prems(1), of cfg k route now io] Cons.prems(2) obtain st1 where
    s1: "FlushRRD_key cfg route now True io st k = Some st1" "gim_ok (gs_Items st1)"
      "same_keys (gs_Items st) (gs_Items st1)" "cached_keys (gs_Items st1) = cached_keys (gs_Items st) - {k}" by auto
  from Cons.IH [OF s1(2)] Cons.prems(2) obtain st2 where
    s2: "foldM (FlushRRD_key cfg route now True io) st1 ks = Some st2" "gim_ok (gs_Items st2)"
      "same_keys (gs_Items st1) (gs_Items st2)" "cached_keys (gs_Items st2) = cached_keys (gs_Items st1) - set ks" by auto
  have "same_keys (gs_Items st) (gs_Items st2)" using s1(3) s2(3) by (simp add: same_keys_def)
  with s1 s2 show ?case by auto
qed (simp add: same_keys_def)

lemma cached_in_index:
  assumes "k \<in> cached_keys A"
  shows "k \<in> set (GraphItemMap_KeysByIndex A (gidx k))"
proof -
  from assms obtain sl where "gget (A ! gidx k) k = Some sl" by (auto simp: cached_keys_def GraphItemMap_Get_def)
  from map_of_SomeD [OF this] show ?thesis by (force simp: GraphItemMap_KeysByIndex_def)
qed

lemma FlushAll_forced:
  assumes "gim_ok (gs_Items st)" "\<forall>idx<1800. \<forall>k\<in>set (GraphItemMap_KeysByIndex (gs_Items st) idx). key_parses cfg k" "n \<le> 1800"
  shows "\<exists>st'. foldM (\<lambda>st idx. FlushRRD cfg route now True io idx st) st [0..<n] = Some st' \<and> gim_ok (gs_Items st') \<and>
    same_keys (gs_Items st) (gs_Items st') \<and> (\<forall>k\<in>cached_keys (gs_Items st'). n \<le> gidx k)"
  using assms(3)
proof (induction n)
  case (Suc n)
  then obtain st1 where s1: "foldM (\<lambda>st idx. FlushRRD cfg route now True io idx st) st [0..<n] = Some st1"
    "gim_ok (gs_Items st1)" "same_keys (gs_Items st) (gs_Items st1)" "\<forall>k\<in>cached_keys (gs_Items st1). n \<le> gidx k"
    by auto
  have "\<forall>k\<in>set (GraphItemMap_KeysByIndex (gs_Items st1) n). key_parses cfg k"
    using s1(3) assms(2) Suc_le_lessD [OF Suc.prems] by (simp add: same_keys_def)
  from FlushRRD_forced [OF s1(2) this, of route now io] obtain st2 where
    s2: "FlushRRD cfg route now True io n st1 = Some st2" "gim_ok (gs_Items st2)" "same_keys (gs_Items st1) (gs_Items st2)"
      "cached_keys (gs_Items st2) = cached_keys (gs_Items st1) - set (GraphItemMap_KeysByIndex (gs_Items st1) n)"
    by (auto simp: FlushRRD_def)
  have "Suc n \<le> gidx k" if "k \<in> cached_keys (gs_Items st2)" for k
  proof -
    have "k \<in> cached_keys (gs_Items st1)" "k \<notin> set (GraphItemMap_KeysByIndex (gs_Items st1) n)" using that s2(4) by auto
    then have "n \<le> gidx k" "gidx k \<noteq> n" using s1(4) cached_in_index by auto
    then show ?thesis by simp
  qed
  moreover have "same_keys (gs_Items st) (gs_Items st2)" using s1(3) s2(3) by (simp add: same_keys_def)
  ultimately show ?case using s1(1) s2(1,2) by (simp add: foldM_append)
qed (use assms(1) in \<open>simp add: same_keys_def\<close>)

text \<open>
  \<open>FlushAll(true)\<close>, which runs when the process is told to stop, visits every key: afterwards no
  key has points waiting, for keys of the form the receiver makes.
\<close>

theorem FlushAll_forced_empties:
  assumes "gim_ok (gs_Items st)"
    and "\<forall>idx<1800. \<forall>k\<in>set (GraphItemMap_KeysByIndex (gs_Items st) idx). key_parses cfg k"
  shows "\<exists>st'. FlushAll cfg route now True io st = Some st' \<and>
    (\<forall>k sl. GraphItemMap_Get (gs_Items st') k = Some sl \<longrightarrow> gl_L sl = [])"
proof -
  from FlushAll_forced [OF assms, of 1800 route now io] obtain st' where
    s: "FlushAll cfg route now True io st = Some st'" "\<forall>k\<in>cached_keys (gs_Items st'). 1800 \<le> gidx k"
    by (auto simp: FlushAll_def)
  have "k \<notin> cached_keys (gs_Items st')" for k using s(2) gidx_bound [of k] by (meson leD)
  then show ?thesis using s(1) by (auto simp: cached_keys_def)
qed

theorem FlushAll_forced_empties_witness:
  "\<exists>st'. FlushAll demo_graph (\<lambda>_. True) 1000 True (\<lambda>_. failing_io) demo_graph_state = Some st' \<and>
    (case GraphItemMap_Get (gs_Items st') ''0a_GAUGE_60'' of None \<Rightarrow> True | Some sl \<Rightarrow> gl_L sl = [])"
proof -
  have ok: "gim_ok (gs_Items demo_graph_state)" by (simp add: demo_graph_state_def gim_ok_Set gim_init)
  have "set (GraphItemMap_KeysByIndex (gs_Items demo_graph_state) idx) \<subseteq> {''0a_GAUGE_60''}" if "idx < 1800" for idx
  proof -
    have "length init_GraphItems = 1800" "\<And>i. i < 1800 \<Longrightarrow> init_GraphItems ! i = []" by (simp_all add: init_GraphItems_def)
    then show ?thesis using that gidx_bound [of "''0a_GAUGE_60''"]
      by (cases "idx = gidx ''0a_GAUGE_60''")
        (simp_all add: demo_graph_state_def GraphItemMap_KeysByIndex_def GraphItemMap_Set_def)
  qed
  moreover have "key_parses demo_graph ''0a_GAUGE_60''" using demo_key by (simp add: key_parses_def)
  ultimately have "\<forall>idx<1800. \<forall>k\<in>set (GraphItemMap_KeysByIndex (gs_Items demo_graph_state) idx). key_parses demo_graph k"
    by fast
  from FlushAll_forced_empties [OF ok this, of "\<lambda>_. True" 1000 "\<lambda>_. failing_io"]
  show ?thesis by (auto split: option.split)
qed

section \<open>Cleaning\<close>

lemma clean_keys_exact:
  assumes "gim_ok A"
  shows "gim_ok (fst (foldl (clean_key indexed) (A, n) ks)) \<and>
    GraphItemMap_Get (fst (foldl (clean_key indexed) (A, n) ks)) k =
      (if k \<in> set ks \<and> length (go_split (CHR ''_'') k) = 3 \<and> gget indexed (go_split (CHR ''_'') k ! 0) = None
       then None else GraphItemMap_Get A k)"
  using assms
proof (induction ks arbitrary: A n)
  case (Cons x ks)
  show ?case
    using Cons.IH [OF gim_ok_Remove [OF Cons.prems, of x], of "n + 1"] Cons.IH [OF Cons.prems, of n]
      gim_Get_Remove [OF Cons.prems, of x k]
    by (auto simp: clean_key_def Let_def)
qed simp

definition invalid_key :: "index_cache \<Rightarrow> string \<Rightarrow> bool" where
  "invalid_key indexed k \<longleftrightarrow> length (go_split (CHR ''_'') k) = 3 \<and> gget indexed (go_split (CHR ''_'') k ! 0) = None"

lemma DeleteInvalid_upto:
  fixes indexed :: index_cache
  assumes "gim_ok A"
  defines "B n \<equiv> fst (foldl (\<lambda>Ac idx. foldl (clean_key indexed) Ac (GraphItemMap_KeysByIndex (fst Ac) idx)) (A, 0) [0..<n])"
  shows "gim_ok (B n) \<and> (\<forall>k. \<not> invalid_key indexed k \<longrightarrow> GraphItemMap_Get (B n) k = GraphItemMap_Get A k) \<and>
    (\<forall>k. invalid_key indexed k \<and> gidx k < n \<longrightarrow> GraphItemMap_Get (B n) k = None)"
proof (induction n)
  case (Suc n)
  obtain C c where Cc: "foldl (\<lambda>Ac idx. foldl (clean_key indexed) Ac (GraphItemMap_KeysByIndex (fst Ac) idx)) (A, 0) [0..<n] = (C, c)"
    by fastforce
  then have C: "B n = C" by (simp add: B_def)
  have S: "B (Suc n) = fst (foldl (clean_key indexed) (C, c) (GraphItemMap_KeysByIndex C n))" by (simp add: B_def Cc)
  have ok: "gim_ok C" using Suc C by simp
  note x = clean_keys_exact [OF ok, of indexed c "GraphItemMap_KeysByIndex C n", folded S]
  have "GraphItemMap_Get (B (Suc n)) k = None" if "invalid_key indexed k" "gidx k < Suc n" for k
  proof (cases "GraphItemMap_Get C k = None")
    case False
    then have "\<not> gidx k < n" using Suc that(1) C by auto
    then have g: "gidx k = n" using that(2) by simp
    from False obtain v where "gget (C ! n) k = Some v" by (auto simp: GraphItemMap_Get_def g)
    from map_of_SomeD [OF this] have "k \<in> set (GraphItemMap_KeysByIndex C n)" by (force simp: GraphItemMap_KeysByIndex_def)
    then show ?thesis using x [of k] that(1) by (simp add: invalid_key_def)
  qed (use x [of k] in simp)
  moreover have "GraphItemMap_Get (B (Suc n)) k = GraphItemMap_Get A k" if "\<not> invalid_key indexed k" for k
    using x [of k] Suc C that by (auto simp: invalid_key_def)
  ultimately show ?case using x by simp
qed (simp add: B_def assms(1))

text \<open>
  The daily cleaning removes from the cache exactly the keys of three parts whose series is not
  in the index, with the points that wait under them, also when the series is new and still
  waits for the index itself; every other key keeps its points.
\<close>

theorem DeleteInvalidItems_exact:
  assumes "gim_ok (gs_Items st)"
  shows "GraphItemMap_Get (gs_Items (fst (DeleteInvalidItems st))) k =
    (if length (go_split (CHR ''_'') k) = 3 \<and> gget (gs_Indexed st) (go_split (CHR ''_'') k ! 0) = None
     then None else GraphItemMap_Get (gs_Items st) k)"
  using DeleteInvalid_upto [OF assms, of "gs_Indexed st" 1800] gidx_bound [of k]
  by (simp add: DeleteInvalidItems_def invalid_key_def case_prod_unfold Let_def)

theorem DeleteInvalidItems_exact_witness:
  "GraphItemMap_Get (gs_Items (fst (DeleteInvalidItems demo_graph_state))) ''0a_GAUGE_60'' = None"
proof -
  have ok: "gim_ok (gs_Items demo_graph_state)" by (simp add: demo_graph_state_def gim_ok_Set gim_init)
  have "length (go_split (CHR ''_'') ''0a_GAUGE_60'') = 3" by code_simp
  then show ?thesis using DeleteInvalidItems_exact [OF ok, of "''0a_GAUGE_60''"]
    by (simp add: demo_graph_state_def init_graph_def)
qed

end
