(* ===== verification/Graph_Migrate.thy ===== *)
theory Graph_Migrate
  imports Graph_Core
begin

text \<open>
  Growing the cluster of graphs (\<open>rrdtool/migrate.go\<close>, \<open>Graph.GetRrd\<close> of \<open>api/graph.go\<close>, the writing
  of a fetched file in \<open>rrdtool/sync_disk.go\<close>): a node that gets points of a series whose file it
  does not have fetches the file from the node that had the series before, and sends queries and,
  when the flush falls behind, points there. The outcomes of remote calls and of dialling are
  the environment's. The queues of tasks are not modelled: a task is one step of a worker.
\<close>

section \<open>Tasks, errors, statistics\<close>

definition NET_TASK_M_SEND :: int where "NET_TASK_M_SEND = 1"
definition NET_TASK_M_QUERY :: int where "NET_TASK_M_QUERY = 2"
definition NET_TASK_M_PULL :: int where "NET_TASK_M_PULL = 3"

record net_task =
  nt_Method :: int
  nt_Key :: string

text \<open>An error of a remote call arrives as a text (\<open>rpc.ServerError\<close>), whatever it was over there.\<close>

datatype rpc_error = ErrShutdown | ErrTimeout | ServerError string

datatype graph_error = RpcError rpc_error | FileNotExist | FileExist | FileError | KeyNotExist | BadMethod

definition os_IsNotExist :: "graph_error \<Rightarrow> bool" where
  "os_IsNotExist err \<longleftrightarrow> err = FileNotExist"

type_synonym u64 = "64 word"

record net_stats =
  FETCH_S_SUCCESS :: u64
  FETCH_S_ERR :: u64
  FETCH_S_ISNOTEXIST :: u64
  SEND_S_SUCCESS :: u64
  SEND_S_ERR :: u64
  QUERY_S_SUCCESS :: u64
  QUERY_S_ERR :: u64
  CONN_S_ERR :: u64
  CONN_S_DIAL :: u64

definition GetCounter :: "net_stats \<Rightarrow> string" where
  "GetCounter s =
    (let cell = (\<lambda>name v. name @ ''['' @ itoa (uint v) @ '']'') in
     go_join '' '' [cell ''FETCH_S_SUCCESS'' (FETCH_S_SUCCESS s), cell ''FETCH_S_ERR'' (FETCH_S_ERR s),
       cell ''FETCH_S_ISNOTEXIST'' (FETCH_S_ISNOTEXIST s), cell ''SEND_S_SUCCESS'' (SEND_S_SUCCESS s),
       cell ''SEND_S_ERR'' (SEND_S_ERR s), cell ''QUERY_S_SUCCESS'' (QUERY_S_SUCCESS s),
       cell ''QUERY_S_ERR'' (QUERY_S_ERR s), cell ''CONN_S_ERR'' (CONN_S_ERR s), cell ''CONN_S_DIAL'' (CONN_S_DIAL s)])"

section \<open>Start-up\<close>

record migrate_config =
  mg_Enabled :: bool
  mg_Replicas :: int
  mg_Cluster :: "(string, string) gomap"
  mg_Concurrency :: int

record migrate_net =
  mn_Consistent :: ring
  mn_Net_task_ch :: "string list"
  mn_clients :: "(string, int) gomap"

definition init_net :: migrate_net where
  "init_net = \<lparr>mn_Consistent = New_ring, mn_Net_task_ch = [], mn_clients = []\<rparr>"

text \<open>
  A node whose address cannot be dialled is fatal (\<open>Inl\<close>); \<open>make\<close> panics for a negative number of
  connections, the ring for one without replicas.
\<close>

definition migrate_node ::
    "migrate_config \<Rightarrow> (string \<Rightarrow> int \<Rightarrow> bool) \<Rightarrow> string + migrate_net \<Rightarrow> string \<Rightarrow> (string + migrate_net) option" where
  "migrate_node mc dial acc node =
    (case acc of Inl bad \<Rightarrow> Some acc
     | Inr net \<Rightarrow> do {
         c \<leftarrow> ring_add node (mn_Consistent net);
         (if mg_Concurrency mc < 0 then None
          else if \<not> list_all (dial (case gget (mg_Cluster mc) node of None \<Rightarrow> '''' | Some a \<Rightarrow> a)) [0..mg_Concurrency mc - 1]
            then Some (Inl node)
          else Some (Inr (net\<lparr>mn_Consistent := c, mn_Net_task_ch := mn_Net_task_ch net @ [node],
            mn_clients := gput node (mg_Concurrency mc) (mn_clients net)\<rparr>)))
       })"

definition migrate_start :: "migrate_config \<Rightarrow> (string \<Rightarrow> int \<Rightarrow> bool) \<Rightarrow> migrate_net \<Rightarrow> (string + migrate_net) option" where
  "migrate_start mc dial net =
    (if mg_Enabled mc then
       foldM (migrate_node mc dial) (Inr (net\<lparr>mn_Consistent := mn_Consistent net\<lparr>rg_replicas := mg_Replicas mc\<rparr>\<rparr>))
         (KeysOfMap (mg_Cluster mc))
     else Some (Inr net))"

section \<open>Calling the other node\<close>

text \<open>
  The outcome of the attempts of one task (\<open>None\<close> is success), and whether a dial made to reconnect
  after an attempt succeeds. Reconnecting does not give up: it returns when a dial succeeds.
\<close>

record net_env =
  ne_call :: "nat \<Rightarrow> rpc_error option"
  ne_dial :: "nat \<Rightarrow> nat \<Rightarrow> bool"

partial_function (option) redial :: "(nat \<Rightarrow> bool) \<Rightarrow> nat \<Rightarrow> nat option" where
  "redial ok k = (if ok k then Some (Suc k) else redial ok (Suc k))"

definition reconnection :: "(nat \<Rightarrow> bool) \<Rightarrow> net_stats \<Rightarrow> net_stats option" where
  "reconnection dial s = do {
    n \<leftarrow> redial dial 0;
    Some (s\<lparr>CONN_S_ERR := CONN_S_ERR s + 1, CONN_S_DIAL := CONN_S_DIAL s + of_nat n\<rparr>)
  }"

text \<open>The loop all three kinds of task share: up to \<open>left\<close> more attempts, the last error is kept.\<close>

fun call_loop :: "net_env \<Rightarrow> nat \<Rightarrow> nat \<Rightarrow> rpc_error option \<Rightarrow> net_stats \<Rightarrow> (rpc_error option \<times> net_stats) option" where
  "call_loop env i 0 err s = Some (err, s)"
| "call_loop env i (Suc left) err s =
    (case ne_call env i of
       None \<Rightarrow> Some (None, s)
     | Some e \<Rightarrow> do {
         s' \<leftarrow> (if e = ErrShutdown then reconnection (ne_dial env i) s else Some s);
         call_loop env (Suc i) left (Some e) s'
       })"

definition query_data :: "net_env \<Rightarrow> net_stats \<Rightarrow> (graph_error option \<times> net_stats) option" where
  "query_data env s = map_option (\<lambda>(err, s). (map_option RpcError err, s)) (call_loop env 0 3 None s)"

section \<open>Sending and fetching\<close>

definition GRAPH_F_SENDING :: u32 where "GRAPH_F_SENDING = 4"
definition GRAPH_F_FETCHING :: u32 where "GRAPH_F_FETCHING = 8"

text \<open>The error of \<open>SetFlag\<close> and \<open>PushAll\<close> is ignored.\<close>

definition set_flag :: "string \<Rightarrow> u32 \<Rightarrow> graph_state \<Rightarrow> graph_state" where
  "set_flag key flag st =
    (case GraphItemMap_SetFlag key flag (gs_Items st) of Inl _ \<Rightarrow> st | Inr A \<Rightarrow> st\<lparr>gs_Items := A\<rparr>)"

definition push_back :: "string \<Rightarrow> graph_item list \<Rightarrow> graph_state \<Rightarrow> graph_state" where
  "push_back key items st =
    (case GraphItemMap_PushAll key items (gs_Items st) of Inl _ \<Rightarrow> st | Inr A \<Rightarrow> st\<lparr>gs_Items := A\<rparr>)"

text \<open>The last component are the points the other node confirmed.\<close>

definition send_data ::
    "net_env \<Rightarrow> string \<Rightarrow> graph_state \<times> net_stats \<Rightarrow> (graph_error option \<times> (graph_state \<times> net_stats) \<times> graph_item list) option" where
  "send_data env key ss =
    (case ss of (st, s) \<Rightarrow>
     (case GraphItemMap_GetFlag (gs_Items st) key of
        Inl _ \<Rightarrow> Some (Some KeyNotExist, ss, [])
      | Inr flag \<Rightarrow>
          (let st1 = set_flag key (or flag GRAPH_F_SENDING) st;
               (items, A) = GraphItemMap_PopAll key (gs_Items st1);
               st2 = st1\<lparr>gs_Items := A\<rparr>;
               done = and flag (not GRAPH_F_SENDING)
           in if items = [] then Some (None, (set_flag key done st2, s), [])
              else do {
                (err, s') \<leftarrow> call_loop env 0 3 None s;
                Some (case err of
                  None \<Rightarrow> (None, (set_flag key done st2, s'), items)
                | Some e \<Rightarrow> (Some (RpcError e), (set_flag key done (push_back key items st2), s'), []))
              })))"

text \<open>
  Writing a fetched file: the file must not be there. A write that stops short leaves a file, from
  which the points \<open>ps\<close> can still be read.
\<close>

datatype write_outcome = Written | OpenFailed graph_error | ShortWrite "(int64 \<times> rrd_value) list"

definition writeFile ::
    "write_outcome \<Rightarrow> string \<Rightarrow> (int64 \<times> rrd_value) list \<Rightarrow> rrd_disk \<Rightarrow> rrd_disk \<times> graph_error option" where
  "writeFile w filename body disk =
    (if gget disk filename \<noteq> None then (disk, Some FileExist)
     else case w of
       Written \<Rightarrow> (gput filename body disk, None)
     | OpenFailed err \<Rightarrow> (disk, Some err)
     | ShortWrite ps \<Rightarrow> (gput filename ps disk, Some FileError))"

text \<open>The worker reports a directory it cannot make and then writes all the same.\<close>

definition io_write ::
    "graph_error option \<Rightarrow> write_outcome \<Rightarrow> string \<Rightarrow> (int64 \<times> rrd_value) list \<Rightarrow> rrd_disk \<Rightarrow> rrd_disk \<times> graph_error option" where
  "io_write dir w filename body disk =
    (let (disk', err) = writeFile w filename body disk in (disk', case dir of Some e \<Rightarrow> Some e | None \<Rightarrow> err))"

record fetch_env = net_env +
  fe_body :: "(int64 \<times> rrd_value) list"
  fe_dir :: "graph_error option"
  fe_write :: write_outcome

text \<open>The error of \<open>SplitRrdCacheKey\<close> is ignored: what it had read is used.\<close>

definition split_lenient :: "string \<Rightarrow> string \<times> string \<times> int" where
  "split_lenient key =
    (case SplitRrdCacheKey key of
       Inr x \<Rightarrow> x
     | Inl err \<Rightarrow> (let xs = go_split (CHR ''_'') key in if length xs = 3 then (xs ! 0, xs ! 1, 0) else ('''', '''', 0)))"

definition fetch_rrd ::
    "graph_config \<Rightarrow> fetch_env \<Rightarrow> string \<Rightarrow> graph_state \<times> net_stats \<Rightarrow> (graph_error option \<times> graph_state \<times> net_stats) option" where
  "fetch_rrd cfg env key ss =
    (case ss of (st, s) \<Rightarrow>
     (case GraphItemMap_GetFlag (gs_Items st) key of
        Inl _ \<Rightarrow> Some (Some KeyNotExist, ss)
      | Inr flag \<Rightarrow>
          (let st1 = set_flag key (or flag GRAPH_F_FETCHING) st;
               (md5, dsType, step) = split_lenient key
           in do {
             filename \<leftarrow> RrdFileName (gc_Storage cfg) md5 dsType step;
             (err, s') \<leftarrow> call_loop (net_env.truncate env) 0 3 None s;
             (case err of
               Some e \<Rightarrow> Some (Some (RpcError e), set_flag key (and flag (not GRAPH_F_FETCHING)) st1, s')
             | None \<Rightarrow>
                (let (disk, werr) = io_write (fe_dir env) (fe_write env) filename (fe_body env) (gs_disk st1);
                     flag' = (if werr = None then and flag (not GRAPH_F_MISS) else flag)
                 in Some (werr, set_flag key (and flag' (not GRAPH_F_FETCHING)) (st1\<lparr>gs_disk := disk\<rparr>), s')))
           })))"

section \<open>The worker\<close>

text \<open>
  \<open>busy\<close> is \<open>flushrrd_timeout\<close>, the file operations of a commit are \<open>io\<close>. The result is the error
  sent to whoever waits, and what the other node confirmed.
\<close>

definition net_task_worker ::
    "graph_config \<Rightarrow> bool \<Rightarrow> rrd_io \<Rightarrow> fetch_env \<Rightarrow> net_task \<Rightarrow> graph_state \<times> net_stats
      \<Rightarrow> (graph_error option \<times> (graph_state \<times> net_stats) \<times> graph_item list) option" where
  "net_task_worker cfg busy io env task ss =
    (let sent = (\<lambda>(err, (st, s), items). (err, (st, if err = None then s\<lparr>SEND_S_SUCCESS := SEND_S_SUCCESS s + 1\<rparr>
          else s\<lparr>SEND_S_ERR := SEND_S_ERR s + 1\<rparr>), items)) in
     if nt_Method task = NET_TASK_M_SEND then map_option sent (send_data (net_env.truncate env) (nt_Key task) ss)
     else if nt_Method task = NET_TASK_M_QUERY then
       map_option (\<lambda>(err, s). (err, (fst ss, if err = None then s\<lparr>QUERY_S_SUCCESS := QUERY_S_SUCCESS s + 1\<rparr>
           else s\<lparr>QUERY_S_ERR := QUERY_S_ERR s + 1\<rparr>), []))
         (query_data (net_env.truncate env) (snd ss))
     else if nt_Method task = NET_TASK_M_PULL then
       (if busy then map_option sent (send_data (net_env.truncate env) (nt_Key task) ss)
        else do {
          (err, st, s) \<leftarrow> fetch_rrd cfg env (nt_Key task) ss;
          (case err of
             None \<Rightarrow> Some (None, (st, s\<lparr>FETCH_S_SUCCESS := FETCH_S_SUCCESS s + 1\<rparr>), [])
           | Some e \<Rightarrow>
              if os_IsNotExist e then do {
                st' \<leftarrow> CommitByKey cfg io (nt_Key task) (set_flag (nt_Key task) 0 st);
                Some (err, (st', s\<lparr>FETCH_S_ISNOTEXIST := FETCH_S_ISNOTEXIST s + 1\<rparr>), [])
              }
              else Some (err, (st, s\<lparr>FETCH_S_ERR := FETCH_S_ERR s + 1\<rparr>), []))
        })
     else Some (Some BadMethod, ss, []))"

section \<open>The node that has the file\<close>

text \<open>\<open>readable\<close> says whether the file, when it is there, can be read.\<close>

definition graph_GetRrd ::
    "graph_config \<Rightarrow> rrd_io \<Rightarrow> bool \<Rightarrow> string \<Rightarrow> graph_state \<Rightarrow> (graph_state \<times> (string + (int64 \<times> rrd_value) list)) option" where
  "graph_GetRrd cfg io readable key st =
    (case SplitRrdCacheKey key of
       Inl err \<Rightarrow> Some (st, Inl ''bad key'')
     | Inr (md5, dsType, step) \<Rightarrow> do {
         filename \<leftarrow> RrdFileName (gc_Storage cfg) md5 dsType step;
         let (items, A) = GraphItemMap_PopAll key (gs_Items st);
         let st1 = st\<lparr>gs_Items := A\<rparr>;
         let st2 = (if items = [] then st1 else st1\<lparr>gs_disk := fst (flushrrd io filename items (gs_disk st))\<rparr>);
         Some (st2, case gget (gs_disk st2) filename of
            None \<Rightarrow> Inl (''open '' @ filename @ '': no such file or directory'')
          | Some body \<Rightarrow> if readable then Inr body else Inl (''read '' @ filename @ '': input/output error''))
       })"

end
