(* ===== verification/Graph_Moving.thy ===== *)
theory Graph_Moving
  imports Graph_Migrate Graph_Flow
begin

text \<open>
  What moving series between graphs keeps and loses: a failed transfer of points puts them back, a
  fetched file continues the one of the old node, and a series the old node does not know is
  never written by fetching.
\<close>

section \<open>Calls return\<close>

lemma redial_at_Some: "redial ok k = Some n \<Longrightarrow> \<exists>j\<ge>k. ok j"
  by (erule redial.raw_induct [rotated]) (metis Suc_leD order_refl)

lemma redial_reaches: "ok j \<Longrightarrow> k \<le> j \<Longrightarrow> redial ok k \<noteq> None"
proof (induction "j - k" arbitrary: k)
  case 0
  then show ?case by (simp add: redial.simps)
next
  case (Suc d)
  show ?case
  proof (cases "ok k")
    case False
    with Suc.prems have "k \<noteq> j" by blast
    with Suc.prems Suc.hyps(2) have "redial ok (Suc k) \<noteq> None" by (intro Suc.hyps(1)) auto
    then show ?thesis using False by (subst redial.simps) simp
  qed (simp add: redial.simps)
qed

lemma reconnection_returns: "reconnection dial s \<noteq> None \<longleftrightarrow> (\<exists>k. dial k)"
proof -
  have "redial dial 0 \<noteq> None \<longleftrightarrow> (\<exists>k. dial k)"
    using redial_at_Some [of dial 0] redial_reaches [of dial _ 0] by auto
  then show ?thesis by (cases "redial dial 0") (auto simp: reconnection_def)
qed

text \<open>Every attempt that finds the connection shut down can reconnect.\<close>

definition can_reconnect :: "net_env \<Rightarrow> bool" where
  "can_reconnect env \<longleftrightarrow> (\<forall>i<3. ne_call env i = Some ErrShutdown \<longrightarrow> (\<exists>k. ne_dial env i k))"

lemma ex_from_Suc: "(\<exists>j. i \<le> j \<and> j < n \<and> P j) \<longleftrightarrow> i < n \<and> P i \<or> (\<exists>j. Suc i \<le> j \<and> j < n \<and> P j)"
  by (auto simp: Suc_le_eq intro: less_imp_le) (metis le_neq_implies_less)

lemma call_loop_result:
  assumes "\<forall>j. i \<le> j \<and> j < i + left \<longrightarrow> ne_call env j = Some ErrShutdown \<longrightarrow> (\<exists>k. ne_dial env j k)"
  shows "\<exists>err' s'. call_loop env i left err s = Some (err', s') \<and>
    (err' = None \<longleftrightarrow> (\<exists>j. i \<le> j \<and> j < i + left \<and> ne_call env j = None) \<or> left = 0 \<and> err = None)"
  using assms
proof (induction left arbitrary: i err s)
  case (Suc left)
  show ?case
  proof (cases "ne_call env i")
    case None
    then show ?thesis by auto
  next
    case (Some e)
    have "\<exists>s'. (if e = ErrShutdown then reconnection (ne_dial env i) s else Some s) = Some s'"
    proof (cases "e = ErrShutdown")
      case True
      have "\<exists>k. ne_dial env i k" using Suc.prems Some True by simp
      then have "reconnection (ne_dial env i) s \<noteq> None" by (simp only: reconnection_returns)
      then show ?thesis using True by simp
    qed simp
    then obtain s1 where s1: "(if e = ErrShutdown then reconnection (ne_dial env i) s else Some s) = Some s1" by blast
    have "\<forall>j. Suc i \<le> j \<and> j < Suc i + left \<longrightarrow> ne_call env j = Some ErrShutdown \<longrightarrow> (\<exists>k. ne_dial env j k)"
      using Suc.prems by simp
    from Suc.IH [OF this, of "Some e" s1] obtain err' s' where
      r: "call_loop env (Suc i) left (Some e) s1 = Some (err', s')"
        "err' = None \<longleftrightarrow> (\<exists>j. Suc i \<le> j \<and> j < Suc i + left \<and> ne_call env j = None)" by auto
    have "call_loop env i (Suc left) err s = Some (err', s')" by (simp only: call_loop.simps Some option.case s1 r bind.simps)
    moreover have "(\<exists>j. Suc i \<le> j \<and> j < Suc i + left \<and> ne_call env j = None) \<longleftrightarrow>
        (\<exists>j. i \<le> j \<and> j < i + Suc left \<and> ne_call env j = None)"
      using ex_from_Suc [of i "Suc i + left" "\<lambda>j. ne_call env j = None"] Some by simp
    ultimately show ?thesis using r(2) by simp
  qed
qed auto

text \<open>Some of the three attempts is answered.\<close>

definition answered :: "net_env \<Rightarrow> bool" where
  "answered env \<longleftrightarrow> (\<exists>j<3. ne_call env j = None)"

lemma call_loop_3:
  assumes "can_reconnect env"
  shows "\<exists>err s'. call_loop env 0 3 None s = Some (err, s') \<and> (err = None \<longleftrightarrow> answered env)"
  using call_loop_result [of 0 3 env None s] assms by (auto simp: can_reconnect_def answered_def)

section \<open>Flags\<close>

lemma set_flag_facts:
  assumes "gim_ok (gs_Items st)"
  shows "\<exists>A. set_flag key flag st = st\<lparr>gs_Items := A\<rparr> \<and> gim_ok A \<and>
    (\<forall>k. GraphItemMap_Get A k =
      (if k = key then map_option (\<lambda>sl. sl\<lparr>gl_Flag := flag\<rparr>) (GraphItemMap_Get (gs_Items st) key)
       else GraphItemMap_Get (gs_Items st) k))"
proof (cases "GraphItemMap_Get (gs_Items st) key")
  case None
  then show ?thesis using assms by (intro exI [of _ "gs_Items st"]) (simp add: set_flag_def GraphItemMap_SetFlag_def)
next
  case (Some sl)
  then show ?thesis using assms
    by (intro exI [of _ "GraphItemMap_Set key (sl\<lparr>gl_Flag := flag\<rparr>) (gs_Items st)"])
       (simp add: set_flag_def GraphItemMap_SetFlag_def gim_ok_Set gim_Get_Set)
qed

section \<open>Sending points to the old node\<close>

text \<open>
  A transfer of the waiting points of a key ends, and none of them is lost: either the other node
  confirmed them, oldest first, and the key is empty, or they are back where they were. In both
  cases the key is no longer marked as sending and no other key is touched.
\<close>

theorem send_data_keeps:
  assumes rec: "can_reconnect env" and ok: "gim_ok (gs_Items st)"
    and key: "GraphItemMap_Get (gs_Items st) key = Some sl"
  shows "\<exists>err A s' confirmed L. send_data env key (st, s) = Some (err, (st\<lparr>gs_Items := A\<rparr>, s'), confirmed) \<and>
    confirmed @ rev L = rev (gl_L sl) \<and> (confirmed = [] \<or> L = []) \<and>
    (err = None \<longleftrightarrow> L = []) \<and> (gl_L sl \<noteq> [] \<longrightarrow> (L = [] \<longleftrightarrow> answered env)) \<and>
    GraphItemMap_Get A key = Some \<lparr>gl_Flag = and (gl_Flag sl) (not GRAPH_F_SENDING), gl_L = L\<rparr> \<and>
    (\<forall>k. k \<noteq> key \<longrightarrow> GraphItemMap_Get A k = GraphItemMap_Get (gs_Items st) k)"
proof -
  let ?flag = "gl_Flag sl" and ?done = "and (gl_Flag sl) (not GRAPH_F_SENDING)"
  have gf: "GraphItemMap_GetFlag (gs_Items st) key = Inr ?flag" by (simp add: GraphItemMap_GetFlag_def key)
  from set_flag_facts [OF ok, of key "or ?flag GRAPH_F_SENDING"] obtain A1 where
    s1: "set_flag key (or ?flag GRAPH_F_SENDING) st = st\<lparr>gs_Items := A1\<rparr>" "gim_ok A1"
      "\<And>k. GraphItemMap_Get A1 k = (if k = key then Some (sl\<lparr>gl_Flag := or ?flag GRAPH_F_SENDING\<rparr>) else GraphItemMap_Get (gs_Items st) k)"
    using key by auto
  obtain items A2 where p: "GraphItemMap_PopAll key A1 = (items, A2)" by fastforce
  note q = PopAll_facts [OF s1(2) p]
  have items: "items = rev (gl_L sl)" using q [of key] s1(3) [of key] by (simp add: GraphItemMap_FetchAll_def gl_FetchAll_def)
  have A2: "gim_ok A2" "\<And>k. GraphItemMap_Get A2 k =
      (if k = key then Some (sl\<lparr>gl_Flag := or ?flag GRAPH_F_SENDING, gl_L := []\<rparr>) else GraphItemMap_Get (gs_Items st) k)"
    using q s1(3) by (auto split: if_splits)
  let ?st2 = "st\<lparr>gs_Items := A2\<rparr>"
  have fin: "\<exists>A. set_flag key ?done (st\<lparr>gs_Items := B\<rparr>) = st\<lparr>gs_Items := A\<rparr> \<and>
      GraphItemMap_Get A key = Some \<lparr>gl_Flag = ?done, gl_L = L\<rparr> \<and>
      (\<forall>k. k \<noteq> key \<longrightarrow> GraphItemMap_Get A k = GraphItemMap_Get (gs_Items st) k)"
    if "gim_ok B" "\<And>k. GraphItemMap_Get B k = (if k = key then Some (sl\<lparr>gl_Flag := or ?flag GRAPH_F_SENDING, gl_L := L\<rparr>) else GraphItemMap_Get (gs_Items st) k)"
    for B L
    using set_flag_facts [of "st\<lparr>gs_Items := B\<rparr>" key ?done] that by (cases sl) force
  show ?thesis
  proof (cases "gl_L sl = []")
    case True
    from fin [OF A2] obtain A where "set_flag key ?done ?st2 = st\<lparr>gs_Items := A\<rparr>"
      "GraphItemMap_Get A key = Some \<lparr>gl_Flag = ?done, gl_L = []\<rparr>" "\<forall>k. k \<noteq> key \<longrightarrow> GraphItemMap_Get A k = GraphItemMap_Get (gs_Items st) k" by blast
    then show ?thesis using True items
      by (intro exI [of _ None] exI [of _ A] exI [of _ s] exI [of _ "[]"]) (simp add: send_data_def gf s1(1) p)
  next
    case ne: False
    from call_loop_3 [OF rec, of s] obtain err s' where
      c: "call_loop env 0 3 None s = Some (err, s')" "err = None \<longleftrightarrow> answered env" by blast
    show ?thesis
    proof (cases err)
      case None
      from fin [OF A2] obtain A where "set_flag key ?done ?st2 = st\<lparr>gs_Items := A\<rparr>"
        "GraphItemMap_Get A key = Some \<lparr>gl_Flag = ?done, gl_L = []\<rparr>" "\<forall>k. k \<noteq> key \<longrightarrow> GraphItemMap_Get A k = GraphItemMap_Get (gs_Items st) k" by blast
      then show ?thesis using ne items c None
        by (intro exI [of _ None] exI [of _ A] exI [of _ s'] exI [of _ items] exI [of _ "[]"]) (simp add: send_data_def gf s1(1) p)
    next
      case (Some e)
      let ?A3 = "GraphItemMap_Set key (gl_PushAll items (sl\<lparr>gl_Flag := or ?flag GRAPH_F_SENDING, gl_L := []\<rparr>)) A2"
      have pb: "push_back key (rev (gl_L sl)) ?st2 = st\<lparr>gs_Items := ?A3\<rparr>"
        by (simp add: items push_back_def GraphItemMap_PushAll_def A2(2))
      have A3: "gim_ok ?A3" "\<And>k. GraphItemMap_Get ?A3 k = (if k = key then Some (sl\<lparr>gl_Flag := or ?flag GRAPH_F_SENDING, gl_L := gl_L sl\<rparr>) else GraphItemMap_Get (gs_Items st) k)"
        using A2 by (simp_all add: gim_ok_Set gim_Get_Set gl_PushAll_eq items)
      from fin [OF A3] obtain A where "set_flag key ?done (st\<lparr>gs_Items := ?A3\<rparr>) = st\<lparr>gs_Items := A\<rparr>"
        "GraphItemMap_Get A key = Some \<lparr>gl_Flag = ?done, gl_L = gl_L sl\<rparr>" "\<forall>k. k \<noteq> key \<longrightarrow> GraphItemMap_Get A k = GraphItemMap_Get (gs_Items st) k" by blast
      then show ?thesis using ne items c Some
        by (intro exI [of _ "Some (RpcError e)"] exI [of _ A] exI [of _ s'] exI [of _ "[]"] exI [of _ "gl_L sl"])
           (simp add: send_data_def gf s1(1) p pb)
    qed
  qed
qed

section \<open>Fetching a file\<close>

text \<open>What the old node hands over: its file with its waiting points behind, which leave its cache.\<close>

lemma GetRrd_body:
  assumes k: "SplitRrdCacheKey key = Inr (md5, ty, step)" "RrdFileName (gc_Storage cfg) md5 ty step = Some f"
    and ok: "gim_ok (gs_Items st)" and io: "io_dir io" "io_create io" "io_update io"
    and r: "graph_GetRrd cfg io readable key st = Some (st', Inr body)"
  shows "body = (case gget (gs_disk st) f of None \<Rightarrow> [] | Some ps \<Rightarrow> ps) @ rrd_update (fst (GraphItemMap_FetchAll (gs_Items st) key)) \<and>
    fst (GraphItemMap_FetchAll (gs_Items st') key) = []"
proof -
  obtain items A where p: "GraphItemMap_PopAll key (gs_Items st) = (items, A)" by fastforce
  note q = PopAll_facts [OF ok p, of key]
  have e: "fst (GraphItemMap_FetchAll A key) = []"
    using q by (auto simp: GraphItemMap_FetchAll_def gl_FetchAll_def split: option.splits)
  show ?thesis
  proof (cases "items = []")
    case True
    then show ?thesis using r q e
      by (auto simp: graph_GetRrd_def k p rrd_update_def map_filter_def split: option.splits if_splits)
  next
    case False
    then show ?thesis using r q e flushrrd_ok [OF False io, of f "gs_disk st"]
      by (auto simp: graph_GetRrd_def k p split: if_splits)
  qed
qed

lemma split_lenient_Inr: "SplitRrdCacheKey key = Inr x \<Longrightarrow> split_lenient key = x"
  by (simp add: split_lenient_def)

lemma fetch_rrd_result:
  assumes rec: "can_reconnect (net_env.truncate env)" and ok: "gim_ok (gs_Items st)"
    and key: "GraphItemMap_Get (gs_Items st) key = Some sl"
    and k: "SplitRrdCacheKey key = Inr (md5, ty, step)" "RrdFileName (gc_Storage cfg) md5 ty step = Some f"
  shows "\<exists>err A s' e. fetch_rrd cfg env key (st, s) =
      Some (err, st\<lparr>gs_Items := A, gs_disk := (if answered (net_env.truncate env)
        then fst (io_write (fe_dir env) (fe_write env) f (fe_body env) (gs_disk st)) else gs_disk st)\<rparr>, s') \<and>
    err = (if answered (net_env.truncate env) then snd (io_write (fe_dir env) (fe_write env) f (fe_body env) (gs_disk st))
      else Some (RpcError e)) \<and> gim_ok A \<and>
    GraphItemMap_Get A key = Some (sl\<lparr>gl_Flag := and (if err = None then and (gl_Flag sl) (not GRAPH_F_MISS) else gl_Flag sl)
      (not GRAPH_F_FETCHING)\<rparr>)"
proof -
  let ?flag = "gl_Flag sl"
  have gf: "GraphItemMap_GetFlag (gs_Items st) key = Inr ?flag" by (simp add: GraphItemMap_GetFlag_def key)
  from set_flag_facts [OF ok, of key "or ?flag GRAPH_F_FETCHING"] obtain A1 where
    s1: "set_flag key (or ?flag GRAPH_F_FETCHING) st = st\<lparr>gs_Items := A1\<rparr>" "gim_ok A1"
      "GraphItemMap_Get A1 key = Some (sl\<lparr>gl_Flag := or ?flag GRAPH_F_FETCHING\<rparr>)"
    using key by auto
  have fin: "\<exists>A. set_flag key fl (st\<lparr>gs_Items := A1, gs_disk := D\<rparr>) = st\<lparr>gs_Items := A, gs_disk := D\<rparr> \<and> gim_ok A \<and>
      GraphItemMap_Get A key = Some (sl\<lparr>gl_Flag := fl\<rparr>)" for fl D
    using set_flag_facts [of "st\<lparr>gs_Items := A1, gs_disk := D\<rparr>" key fl] s1 by force
  from call_loop_3 [OF rec, of s] obtain err s' where
    c: "call_loop (net_env.truncate env) 0 3 None s = Some (err, s')" "err = None \<longleftrightarrow> answered (net_env.truncate env)" by blast
  obtain disk werr where w: "io_write (fe_dir env) (fe_write env) f (fe_body env) (gs_disk st) = (disk, werr)" by fastforce
  show ?thesis
  proof (cases err)
    case None
    from fin [of "and (if werr = None then and ?flag (not GRAPH_F_MISS) else ?flag) (not GRAPH_F_FETCHING)" disk] obtain A where
      "set_flag key (and (if werr = None then and ?flag (not GRAPH_F_MISS) else ?flag) (not GRAPH_F_FETCHING))
          (st\<lparr>gs_Items := A1, gs_disk := disk\<rparr>) = st\<lparr>gs_Items := A, gs_disk := disk\<rparr>" "gim_ok A"
      "GraphItemMap_Get A key = Some (sl\<lparr>gl_Flag := and (if werr = None then and ?flag (not GRAPH_F_MISS) else ?flag) (not GRAPH_F_FETCHING)\<rparr>)" by blast
    then show ?thesis using c None
      by (intro exI [of _ werr] exI [of _ A] exI [of _ s'])
         (simp add: fetch_rrd_def gf s1(1) split_lenient_Inr [OF k(1)] k(2) w)
  next
    case (Some e)
    have d: "st\<lparr>gs_Items := B, gs_disk := gs_disk st\<rparr> = st\<lparr>gs_Items := B\<rparr>" for B by (cases st) simp
    from fin [of "and ?flag (not GRAPH_F_FETCHING)" "gs_disk st"] obtain A where
      "set_flag key (and ?flag (not GRAPH_F_FETCHING)) (st\<lparr>gs_Items := A1\<rparr>) = st\<lparr>gs_Items := A\<rparr>" "gim_ok A"
      "GraphItemMap_Get A key = Some (sl\<lparr>gl_Flag := and ?flag (not GRAPH_F_FETCHING)\<rparr>)" unfolding d by blast
    then show ?thesis using c Some d
      by (intro exI [of _ "Some (RpcError e)"] exI [of _ A] exI [of _ s'] exI [of _ e])
         (simp add: fetch_rrd_def gf s1(1) split_lenient_Inr [OF k(1)] k(2))
  qed
qed

lemma gs_disk_upd: "gs_disk (st\<lparr>gs_disk := D\<rparr>) = D" for st :: graph_state
  by simp

text \<open>
  The old node answers with the file although the write of its waiting points failed: it does not
  look at the error of the flush. The waiting points then leave its cache and are not in the answer.
\<close>

theorem GetRrd_loses:
  assumes k: "SplitRrdCacheKey key = Inr (md5, ty, step)" "RrdFileName (gc_Storage cfg) md5 ty step = Some f"
    and ok: "gim_ok (gs_Items st)" and stored: "gget (gs_disk st) f = Some ps" and failed: "\<not> io_update io"
  shows "\<exists>st'. graph_GetRrd cfg io True key st = Some (st', Inr ps) \<and> gget (gs_disk st') f = Some ps \<and>
    fst (GraphItemMap_FetchAll (gs_Items st') key) = []"
proof -
  obtain items A where p: "GraphItemMap_PopAll key (gs_Items st) = (items, A)" by fastforce
  have e: "fst (GraphItemMap_FetchAll A key) = []"
    using PopAll_facts [OF ok p, of key] by (auto simp: GraphItemMap_FetchAll_def gl_FetchAll_def split: option.splits)
  show ?thesis using stored failed e
    by (cases "items = []") (simp_all add: graph_GetRrd_def k p flushrrd_def Let_def)
qed

text \<open>
  C23: A series moves whole when every write succeeds. Suppose the old node answered the request for the
  file with its directory, file creation and update working (it ignores errors of that flush, and
  with a failing update the points waiting there are lost, \<open>GetRrd_loses\<close>); the new node has the key
  in its cache but no file of it; a closed connection can be dialled again, one of the three calls is
  answered, and the new node can make the directory and write the file. Then the task of fetching succeeds,
  the mark that the file is missing goes, and the new node's next flush of the key, if its update
  succeeds, leaves a file with the old node's points, those that waited there, and those that
  waited here, in this order; nothing of the key waits any more on either side.
\<close>

theorem moved_series_whole:
  assumes k: "SplitRrdCacheKey key = Inr (md5, ty, step)"
    and fo: "RrdFileName (gc_Storage cfgo) md5 ty step = Some fo" and fn: "RrdFileName (gc_Storage cfg) md5 ty step = Some f"
    and ok: "gim_ok (gs_Items old)" "gim_ok (gs_Items st)" and io: "io_dir ioo" "io_create ioo" "io_update ioo" "io_update io'"
    and old: "graph_GetRrd cfgo ioo True key old = Some (old', Inr (fe_body env))"
    and rec: "can_reconnect (net_env.truncate env)" "answered (net_env.truncate env)" "fe_dir env = None" "fe_write env = Written"
    and key: "GraphItemMap_Get (gs_Items st) key = Some sl" "gget (gs_disk st) f = None"
  shows "\<exists>st1 s1 st2. net_task_worker cfg False io env \<lparr>nt_Method = NET_TASK_M_PULL, nt_Key = key\<rparr> (st, s) = Some (None, (st1, s1), []) \<and>
    and (snd (GraphItemMap_FetchAll (gs_Items st1) key)) GRAPH_F_MISS = 0 \<and>
    CommitByKey cfg io' key st1 = Some st2 \<and>
    gget (gs_disk st2) f = Some ((case gget (gs_disk old) fo of None \<Rightarrow> [] | Some ps \<Rightarrow> ps) @
      rrd_update (fst (GraphItemMap_FetchAll (gs_Items old) key)) @ rrd_update (fst (GraphItemMap_FetchAll (gs_Items st) key))) \<and>
    fst (GraphItemMap_FetchAll (gs_Items old') key) = [] \<and> fst (GraphItemMap_FetchAll (gs_Items st2) key) = []"
proof -
  note body = GetRrd_body [OF k fo ok(1) io(1-3) old]
  have w: "io_write (fe_dir env) (fe_write env) f (fe_body env) (gs_disk st) = (gput f (fe_body env) (gs_disk st), None)"
    by (simp add: io_write_def writeFile_def rec key(2))
  from fetch_rrd_result [OF rec(1) ok(2) key(1) k fn, of s] obtain A s' where
    r: "fetch_rrd cfg env key (st, s) = Some (None, st\<lparr>gs_Items := A, gs_disk := gput f (fe_body env) (gs_disk st)\<rparr>, s')"
      "gim_ok A" "GraphItemMap_Get A key = Some (sl\<lparr>gl_Flag := and (and (gl_Flag sl) (not GRAPH_F_MISS)) (not GRAPH_F_FETCHING)\<rparr>)"
    using rec(2) by (auto simp: w)
  let ?st1 = "st\<lparr>gs_Items := A, gs_disk := gput f (fe_body env) (gs_disk st)\<rparr>"
  have n: "net_task_worker cfg False io env \<lparr>nt_Method = NET_TASK_M_PULL, nt_Key = key\<rparr> (st, s) =
      Some (None, (?st1, s'\<lparr>FETCH_S_SUCCESS := FETCH_S_SUCCESS s' + 1\<rparr>), [])"
    by (simp add: net_task_worker_def NET_TASK_M_SEND_def NET_TASK_M_QUERY_def NET_TASK_M_PULL_def r(1))
  let ?sl1 = "sl\<lparr>gl_Flag := and (and (gl_Flag sl) (not GRAPH_F_MISS)) (not GRAPH_F_FETCHING)\<rparr>"
  have "gim_ok (gs_Items ?st1)" "GraphItemMap_Get (gs_Items ?st1) key = Some ?sl1" using r(2,3) by simp_all
  from CommitByKey_eq [OF k fn this, of io'] obtain B where
    c: "CommitByKey cfg io' key ?st1 = Some (?st1\<lparr>gs_Items := B, gs_disk := (if gl_L ?sl1 = [] then gs_disk ?st1
        else fst (flushrrd io' f (rev (gl_L ?sl1)) (gs_disk ?st1)))\<rparr>)" "GraphItemMap_Get B key = Some (?sl1\<lparr>gl_L := []\<rparr>)" by blast
  have flag: "and (and (and (gl_Flag sl) (not GRAPH_F_MISS)) (not GRAPH_F_FETCHING)) GRAPH_F_MISS = 0"
    by (rule bit_eqI) (auto simp: bit_simps)
  have "rrd_update [] = []" by (simp add: rrd_update_def map_filter_def)
  then have d: "gget (if gl_L ?sl1 = [] then gs_disk ?st1 else fst (flushrrd io' f (rev (gl_L ?sl1)) (gs_disk ?st1))) f =
      Some (fe_body env @ rrd_update (fst (GraphItemMap_FetchAll (gs_Items st) key)))"
    using io(4) key(1) by (simp add: flushrrd_def GraphItemMap_FetchAll_def gl_FetchAll_def)
  let ?st2 = "?st1\<lparr>gs_Items := B, gs_disk := (if gl_L ?sl1 = [] then gs_disk ?st1
        else fst (flushrrd io' f (rev (gl_L ?sl1)) (gs_disk ?st1)))\<rparr>"
  have b: "fe_body env = (case gget (gs_disk old) fo of None \<Rightarrow> [] | Some ps \<Rightarrow> ps) @ rrd_update (fst (GraphItemMap_FetchAll (gs_Items old) key))"
    and o: "fst (GraphItemMap_FetchAll (gs_Items old') key) = []" using body by blast+
  have "gs_disk ?st2 = (if gl_L ?sl1 = [] then gs_disk ?st1 else fst (flushrrd io' f (rev (gl_L ?sl1)) (gs_disk ?st1)))"
    by (rule gs_disk_upd)
  with d b have d2: "gget (gs_disk ?st2) f = Some ((case gget (gs_disk old) fo of None \<Rightarrow> [] | Some ps \<Rightarrow> ps) @
      rrd_update (fst (GraphItemMap_FetchAll (gs_Items old) key)) @ rrd_update (fst (GraphItemMap_FetchAll (gs_Items st) key)))"
    by (simp only: append_assoc)
  have e: "fst (GraphItemMap_FetchAll (gs_Items ?st2) key) = []" by (simp add: GraphItemMap_FetchAll_def gl_FetchAll_def c(2))
  have m: "and (snd (GraphItemMap_FetchAll (gs_Items ?st1) key)) GRAPH_F_MISS = 0"
    using r(3) flag by (simp add: GraphItemMap_FetchAll_def gl_FetchAll_def)
  show ?thesis by (intro exI conjI) (rule n, rule m, rule c(1), rule d2, rule o, rule e)
qed

text \<open>
  A series the old node has never had is not filed by fetching: the answer to the fetch is an error
  text, which \<open>os.IsNotExist\<close> does not recognise, so the branch that would write the waiting points
  to a new file is not taken. They stay in the cache, the mark stays, and the next flush only asks
  again.
\<close>

theorem unknown_series_never_filed:
  assumes k: "SplitRrdCacheKey key = Inr (md5, ty, step)"
    and fo: "RrdFileName (gc_Storage cfgo) md5 ty step = Some fo" and fn: "RrdFileName (gc_Storage cfg) md5 ty step = Some f"
    and old: "gget (gs_disk old) fo = None" "GraphItemMap_Get (gs_Items old) key = None"
    and env: "\<And>old' msg i. graph_GetRrd cfgo ioo True key old = Some (old', Inl msg) \<Longrightarrow> i < 3 \<Longrightarrow>
        ne_call env i = Some (ServerError msg)"
    and st: "gim_ok (gs_Items st)" "GraphItemMap_Get (gs_Items st) key = Some sl" "gl_Flag sl = GRAPH_F_MISS" "gc_Migrate cfg"
  shows "\<exists>err st1 s1. net_task_worker cfg False io env \<lparr>nt_Method = NET_TASK_M_PULL, nt_Key = key\<rparr> (st, s) = Some (Some err, (st1, s1), []) \<and>
    GraphItemMap_Get (gs_Items st1) key = Some sl \<and> gs_disk st1 = gs_disk st \<and>
    FlushRRD_key cfg route now False io' st1 key = Some (PullByKey route key st1)"
proof -
  have "GraphItemMap_PopAll key (gs_Items old) = ([], gs_Items old)" by (simp add: GraphItemMap_PopAll_def old(2))
  then have "graph_GetRrd cfgo ioo True key old = Some (old, Inl (''open '' @ fo @ '': no such file or directory''))"
    by (simp add: graph_GetRrd_def k fo old(1))
  note e = env [OF this]
  have rec: "can_reconnect (net_env.truncate env)" "\<not> answered (net_env.truncate env)"
    using e by (auto simp: can_reconnect_def answered_def net_env.truncate_def)
  from fetch_rrd_result [OF rec(1) st(1,2) k fn, of s] obtain A s' x where
    r: "fetch_rrd cfg env key (st, s) = Some (Some (RpcError x), st\<lparr>gs_Items := A\<rparr>, s')"
      "GraphItemMap_Get A key = Some (sl\<lparr>gl_Flag := and (gl_Flag sl) (not GRAPH_F_FETCHING)\<rparr>)"
    using rec(2) by auto
  have "and GRAPH_F_MISS (not GRAPH_F_FETCHING) = GRAPH_F_MISS" by (simp add: GRAPH_F_MISS_def GRAPH_F_FETCHING_def)
  then have sl: "GraphItemMap_Get A key = Some sl" using r(2) st(3) by (cases sl) simp
  have "net_task_worker cfg False io env \<lparr>nt_Method = NET_TASK_M_PULL, nt_Key = key\<rparr> (st, s) =
      Some (Some (RpcError x), (st\<lparr>gs_Items := A\<rparr>, s'\<lparr>FETCH_S_ERR := FETCH_S_ERR s' + 1\<rparr>), [])"
    by (simp add: net_task_worker_def NET_TASK_M_SEND_def NET_TASK_M_QUERY_def NET_TASK_M_PULL_def r(1) os_IsNotExist_def)
  moreover have "FlushRRD_key cfg route now False io' (st\<lparr>gs_Items := A\<rparr>) key = Some (PullByKey route key (st\<lparr>gs_Items := A\<rparr>))"
    by (simp add: FlushRRD_key_def GraphItemMap_GetFlag_def sl st(3,4) GRAPH_F_MISS_def)
  ultimately show ?thesis using sl by force
qed

section \<open>Instances\<close>

definition demo_stats :: net_stats where
  "demo_stats = \<lparr>FETCH_S_SUCCESS = 0, FETCH_S_ERR = 0, FETCH_S_ISNOTEXIST = 0, SEND_S_SUCCESS = 0, SEND_S_ERR = 0,
    QUERY_S_SUCCESS = 0, QUERY_S_ERR = 0, CONN_S_ERR = 0, CONN_S_DIAL = 0\<rparr>"

definition flaky_net :: net_env where
  "flaky_net = \<lparr>ne_call = (\<lambda>i. if i = 0 then Some ErrShutdown else None), ne_dial = (\<lambda>i k. k = 1)\<rparr>"

lemma flaky_net_ok: "can_reconnect flaky_net" "answered flaky_net"
proof -
  show "can_reconnect flaky_net" by (simp add: can_reconnect_def flaky_net_def)
  have "ne_call flaky_net 1 = None" by (simp add: flaky_net_def)
  then show "answered flaky_net" unfolding answered_def by (intro exI [of _ 1]) simp
qed

lemma demo_graph_state_facts:
  "gim_ok (gs_Items demo_graph_state)"
  "GraphItemMap_Get (gs_Items demo_graph_state) ''0a_GAUGE_60'' = Some \<lparr>gl_Flag = 0, gl_L = [gpoint 120, gpoint 60]\<rparr>"
  "gs_disk demo_graph_state = [(''data/0a/0a_GAUGE_60.rrd'', [])]"
  by (simp_all add: demo_graph_state_def gim_ok_Set gim_Get_Set gim_init)

theorem send_data_keeps_witness:
  "\<exists>A s'. send_data flaky_net ''0a_GAUGE_60'' (demo_graph_state, demo_stats) =
      Some (None, (demo_graph_state\<lparr>gs_Items := A\<rparr>, s'), [gpoint 60, gpoint 120]) \<and>
    GraphItemMap_Get A ''0a_GAUGE_60'' = Some \<lparr>gl_Flag = 0, gl_L = []\<rparr>"
  using send_data_keeps [OF flaky_net_ok(1) demo_graph_state_facts(1,2), of demo_stats] flaky_net_ok(2) by auto

definition new_graph_state :: graph_state where
  "new_graph_state = init_graph\<lparr>gs_Items :=
    GraphItemMap_Set ''0a_GAUGE_60'' \<lparr>gl_Flag = GRAPH_F_MISS, gl_L = [gpoint 180]\<rparr> init_GraphItems\<rparr>"

lemma new_graph_state_facts:
  "gim_ok (gs_Items new_graph_state)"
  "GraphItemMap_Get (gs_Items new_graph_state) ''0a_GAUGE_60'' = Some \<lparr>gl_Flag = GRAPH_F_MISS, gl_L = [gpoint 180]\<rparr>"
  "gs_disk new_graph_state = []"
  by (simp_all add: new_graph_state_def init_graph_def gim_ok_Set gim_Get_Set gim_init)

definition good_io :: rrd_io where
  "good_io = \<lparr>io_dir = True, io_create = True, io_update = True\<rparr>"

definition demo_fetch :: fetch_env where
  "demo_fetch = net_env.extend flaky_net (fetch_env.fields (rrd_update [gpoint 60, gpoint 120]) None Written)"

theorem moved_series_whole_witness:
  "\<exists>st1 s1 st2. net_task_worker demo_graph False good_io demo_fetch \<lparr>nt_Method = NET_TASK_M_PULL, nt_Key = ''0a_GAUGE_60''\<rparr>
      (new_graph_state, demo_stats) = Some (None, (st1, s1), []) \<and>
    CommitByKey demo_graph good_io ''0a_GAUGE_60'' st1 = Some st2 \<and>
    gget (gs_disk st2) ''data/0a/0a_GAUGE_60.rrd'' = Some (rrd_update [gpoint 60, gpoint 120] @ rrd_update [gpoint 180])"
proof -
  have io: "io_dir good_io" "io_create good_io" "io_update good_io" by (simp_all add: good_io_def)
  have tr: "net_env.truncate demo_fetch = flaky_net"
    by (simp add: demo_fetch_def net_env.defs fetch_env.defs flaky_net_def)
  have fl: "fe_body demo_fetch = rrd_update [gpoint 60, gpoint 120]" "fe_dir demo_fetch = None" "fe_write demo_fetch = Written"
    by (simp_all add: demo_fetch_def net_env.defs fetch_env.defs)
  let ?A = "GraphItemMap_Set ''0a_GAUGE_60'' \<lparr>gl_Flag = 0, gl_L = []\<rparr> (gs_Items demo_graph_state)"
  have p: "GraphItemMap_PopAll ''0a_GAUGE_60'' (gs_Items demo_graph_state) = ([gpoint 60, gpoint 120], ?A)"
    by (simp add: GraphItemMap_PopAll_def demo_graph_state_facts gl_PopAll_eq)
  have old: "graph_GetRrd demo_graph good_io True ''0a_GAUGE_60'' demo_graph_state =
      Some (demo_graph_state\<lparr>gs_Items := ?A, gs_disk := [(''data/0a/0a_GAUGE_60.rrd'', rrd_update [gpoint 60, gpoint 120])]\<rparr>,
        Inr (fe_body demo_fetch))"
    by (simp add: graph_GetRrd_def demo_key p flushrrd_def demo_graph_state_facts good_io_def fl)
  have rec: "can_reconnect (net_env.truncate demo_fetch)" "answered (net_env.truncate demo_fetch)"
    unfolding tr by (rule flaky_net_ok)+
  have nf: "gget (gs_disk new_graph_state) ''data/0a/0a_GAUGE_60.rrd'' = None" by (simp add: new_graph_state_facts)
  from moved_series_whole [OF demo_key(1) demo_key(2) demo_key(2) demo_graph_state_facts(1) new_graph_state_facts(1)
      io io(3) old rec fl(2,3) new_graph_state_facts(2) nf, of good_io demo_stats]
  show ?thesis by (fastforce simp: GraphItemMap_FetchAll_def gl_FetchAll_def demo_graph_state_facts new_graph_state_facts)
qed

definition demo_moving :: graph_config where
  "demo_moving = demo_graph\<lparr>gc_Migrate := True\<rparr>"

definition silent_fetch :: fetch_env where
  "silent_fetch = \<lparr>ne_call = (\<lambda>i. Some (ServerError ''open data/0a/0a_GAUGE_60.rrd: no such file or directory'')),
    ne_dial = (\<lambda>i k. True), fe_body = [], fe_dir = None, fe_write = Written\<rparr>"

theorem unknown_series_never_filed_witness:
  "\<exists>err st1 s1. net_task_worker demo_moving False good_io silent_fetch \<lparr>nt_Method = NET_TASK_M_PULL, nt_Key = ''0a_GAUGE_60''\<rparr>
      (new_graph_state, demo_stats) = Some (Some err, (st1, s1), []) \<and>
    GraphItemMap_Get (gs_Items st1) ''0a_GAUGE_60'' = Some \<lparr>gl_Flag = GRAPH_F_MISS, gl_L = [gpoint 180]\<rparr> \<and> gs_disk st1 = []"
proof -
  have m: "gc_Migrate demo_moving" "RrdFileName (gc_Storage demo_moving) ''0a'' ''GAUGE'' 60 = Some ''data/0a/0a_GAUGE_60.rrd''"
    using demo_key(2) by (simp_all add: demo_moving_def)
  have old: "gget (gs_disk init_graph) ''data/0a/0a_GAUGE_60.rrd'' = None" "GraphItemMap_Get (gs_Items init_graph) ''0a_GAUGE_60'' = None"
    by (simp_all add: init_graph_def)
  have env: "ne_call silent_fetch i = Some (ServerError msg)"
    if "graph_GetRrd demo_graph good_io True ''0a_GAUGE_60'' init_graph = Some (old', Inl msg)" "i < 3" for old' msg i
    using that(1) by (simp add: graph_GetRrd_def demo_key GraphItemMap_PopAll_def old silent_fetch_def)
  have e: "ne_call silent_fetch i = Some (ServerError msg)"
    if "graph_GetRrd demo_graph good_io True ''0a_GAUGE_60'' init_graph = Some (old', Inl msg)" "i < 3" for old' msg i
    using env that by blast
  have f: "gl_Flag \<lparr>gl_Flag = GRAPH_F_MISS, gl_L = [gpoint 180]\<rparr> = GRAPH_F_MISS" by simp
  have "\<exists>err st1 s1. net_task_worker demo_moving False good_io silent_fetch \<lparr>nt_Method = NET_TASK_M_PULL, nt_Key = ''0a_GAUGE_60''\<rparr>
      (new_graph_state, demo_stats) = Some (Some err, (st1, s1), []) \<and>
    GraphItemMap_Get (gs_Items st1) ''0a_GAUGE_60'' = Some \<lparr>gl_Flag = GRAPH_F_MISS, gl_L = [gpoint 180]\<rparr> \<and>
    gs_disk st1 = gs_disk new_graph_state \<and> FlushRRD_key demo_moving (\<lambda>k. True) 0 False (\<lambda>k. good_io) st1 ''0a_GAUGE_60'' =
      Some (PullByKey (\<lambda>k. True) ''0a_GAUGE_60'' st1)"
    by (rule unknown_series_never_filed [OF demo_key(1) demo_key(2) m(2) old e new_graph_state_facts(1,2) f m(1)])
  then show ?thesis unfolding new_graph_state_facts(3) by blast
qed

end
