(* ===== verification/Graph_Index.thy ===== *)
theory Graph_Index
  imports Graph_Core
begin

text \<open>
  The index of the graph in MySQL: what the tasks of \<open>index/index_update_all_task.go\<close> write for a
  series, and how a query finds the type and step of a counter through the caches of
  \<open>index/cache.go\<close>. A table is a map by its unique key; \<open>coll\<close> maps a text to what the database
  compares (its collation ignores case), and every statement may fail.
\<close>

section \<open>Tables\<close>

record index_tables =
  tb_endpoint :: "(string, int \<times> int64) gomap"
  tb_tag_endpoint :: "(string \<times> int, int64) gomap"
  tb_endpoint_counter :: "(int \<times> string, int \<times> string \<times> int64) gomap"
  tb_next :: int

text \<open>Which statements succeed: the one on the endpoint, its query, one for each tag, the one on the counter.\<close>

record index_env =
  ie_endpoint :: bool
  ie_select :: bool
  ie_tag :: "string \<Rightarrow> bool"
  ie_counter :: bool

text \<open>The inserts with their \<open>ON DUPLICATE KEY UPDATE\<close>; a new endpoint gets the next number.\<close>

definition insert_endpoint :: "(string \<Rightarrow> string) \<Rightarrow> string \<Rightarrow> int64 \<Rightarrow> index_tables \<Rightarrow> index_tables" where
  "insert_endpoint coll ep ts db =
    (case gget (tb_endpoint db) (coll ep) of
       Some (i, _) \<Rightarrow> db\<lparr>tb_endpoint := gput (coll ep) (i, ts) (tb_endpoint db)\<rparr>
     | None \<Rightarrow> db\<lparr>tb_endpoint := gput (coll ep) (tb_next db, ts) (tb_endpoint db), tb_next := tb_next db + 1\<rparr>)"

definition select_endpoint :: "(string \<Rightarrow> string) \<Rightarrow> string \<Rightarrow> index_tables \<Rightarrow> int option" where
  "select_endpoint coll ep db = map_option fst (gget (tb_endpoint db) (coll ep))"

definition select_counter :: "(string \<Rightarrow> string) \<Rightarrow> int \<Rightarrow> string \<Rightarrow> index_tables \<Rightarrow> (string \<times> int) option" where
  "select_counter coll i counter db = map_option (\<lambda>(step, ty, _). (ty, step)) (gget (tb_endpoint_counter db) (i, coll counter))"

fun insert_tags :: "(string \<Rightarrow> string) \<Rightarrow> index_env \<Rightarrow> int \<Rightarrow> int64 \<Rightarrow> tagmap \<Rightarrow> index_tables \<Rightarrow> index_tables \<times> string option" where
  "insert_tags coll ev i ts [] db = (db, None)"
| "insert_tags coll ev i ts ((tagKey, tagVal) # kvs) db =
    (let tag = tagKey @ ''='' @ tagVal in
     if ie_tag ev tag then insert_tags coll ev i ts kvs (db\<lparr>tb_tag_endpoint := gput (coll tag, i) ts (tb_tag_endpoint db)\<rparr>)
     else (db, Some ''exec''))"

text \<open>The tables that a failing statement leaves are those the statements before it made.\<close>

definition updateIndexFromOneItem ::
    "(string \<Rightarrow> string) \<Rightarrow> index_env \<Rightarrow> graph_item \<Rightarrow> index_tables \<Rightarrow> index_tables \<times> string option" where
  "updateIndexFromOneItem coll ev item db =
    (if \<not> ie_endpoint ev then (db, Some ''exec'')
     else let db1 = insert_endpoint coll (gi_Endpoint item) (gi_Timestamp item) db in
     if \<not> ie_select ev then (db1, Some ''query'')
     else case select_endpoint coll (gi_Endpoint item) db1 of
       None \<Rightarrow> (db1, Some ''no rows'')
     | Some endpointId \<Rightarrow>
        if endpointId \<le> 0 then (db1, Some ''no such endpoint'')
        else (case insert_tags coll ev endpointId (gi_Timestamp item) (gi_Tags item) db1 of
            (db2, Some err) \<Rightarrow> (db2, Some err)
          | (db2, None) \<Rightarrow>
              if \<not> ie_counter ev then (db2, Some ''exec'')
              else (db2\<lparr>tb_endpoint_counter := gput (endpointId, coll (Counter (gi_Metric item) (gi_Tags item)))
                  (gi_Step item, gi_DsType item, gi_Timestamp item) (tb_endpoint_counter db2)\<rparr>, None)))"

section \<open>The full update\<close>

definition DefaultUpdateStepInSec :: int64 where
  "DefaultUpdateStepInSec = 2 * 24 * 3600"

record index_state =
  ix_Indexed :: index_cache
  ix_tables :: index_tables
  ix_errors :: int

definition update_all_key ::
    "(string \<Rightarrow> string) \<Rightarrow> (string \<Rightarrow> index_env) \<Rightarrow> int64 \<Rightarrow> index_state \<times> int \<Rightarrow> string \<Rightarrow> index_state \<times> int" where
  "update_all_key coll ev lastTs acc key =
    (case acc of (st, ret) \<Rightarrow>
     (case gget (ix_Indexed st) key of
        None \<Rightarrow> acc
      | Some (_, gitem) \<Rightarrow>
          if gi_Timestamp gitem < lastTs then (st\<lparr>ix_Indexed := gdel key (ix_Indexed st)\<rparr>, ret)
          else (let (db, err) = updateIndexFromOneItem coll (ev key) gitem (ix_tables st)
                in (st\<lparr>ix_tables := db, ix_errors := (if err = None then ix_errors st else ix_errors st + 1)\<rparr>, ret + 1))))"

definition updateIndexAll ::
    "(string \<Rightarrow> string) \<Rightarrow> (string \<Rightarrow> index_env) \<Rightarrow> bool \<Rightarrow> int64 \<Rightarrow> int64 \<Rightarrow> index_state \<Rightarrow> index_state \<times> int" where
  "updateIndexAll coll ev conn now updateStepInSec st =
    (if ix_Indexed st = [] \<or> \<not> conn then (st, 0)
     else foldl (update_all_key coll ev (i64 (now - updateStepInSec))) (st, 0) (map fst (ix_Indexed st)))"

text \<open>The semaphore lets one full update run at a time; \<open>permits\<close> is what it has left.\<close>

definition UpdateIndexAll ::
    "int \<Rightarrow> (string \<Rightarrow> string) \<Rightarrow> (string \<Rightarrow> index_env) \<Rightarrow> bool \<Rightarrow> int64 \<Rightarrow> int64 \<Rightarrow> index_state \<Rightarrow> index_state" where
  "UpdateIndexAll permits coll ev conn now updateStepInSec st =
    (if permits \<le> 0 then st else fst (updateIndexAll coll ev conn now updateStepInSec st))"

definition UpdateIndexAllByDefaultStep ::
    "int \<Rightarrow> (string \<Rightarrow> string) \<Rightarrow> (string \<Rightarrow> index_env) \<Rightarrow> bool \<Rightarrow> int64 \<Rightarrow> index_state \<Rightarrow> index_state" where
  "UpdateIndexAllByDefaultStep permits coll ev conn now st = UpdateIndexAll permits coll ev conn now DefaultUpdateStepInSec st"

definition UpdateIndexOne ::
    "(string \<Rightarrow> string) \<Rightarrow> index_env \<Rightarrow> bool \<Rightarrow> string \<Rightarrow> string \<Rightarrow> tagmap \<Rightarrow> string \<Rightarrow> int \<Rightarrow> index_state
      \<Rightarrow> index_state \<times> string option" where
  "UpdateIndexOne coll ev conn endpoint metric tags dstype step st =
    (let itemDemo = zero_item\<lparr>gi_Endpoint := endpoint, gi_Metric := metric, gi_Tags := tags, gi_DsType := dstype, gi_Step := step\<rparr>
     in case gget (ix_Indexed st) (graph_Checksum itemDemo) of
       None \<Rightarrow> (st, Some ''not found'')
     | Some (uuid, gitem) \<Rightarrow>
        if uuid \<noteq> graph_UUID itemDemo then (st, Some ''bad type or step'')
        else if \<not> conn then (st, Some ''connection'')
        else (let (db, err) = updateIndexFromOneItem coll ev gitem (ix_tables st) in (st\<lparr>ix_tables := db\<rparr>, err)))"

section \<open>Finding the type and step of a counter\<close>

record db_caches =
  dbEndpointCache :: "(string, int) gomap"
  dbEndpointCounterCache :: "(string, string) gomap"

text \<open>An entry of the caches that has expired is gone; the two queries may fail.\<close>

definition GetEndpointFromCache ::
    "(string \<Rightarrow> string) \<Rightarrow> index_tables \<Rightarrow> bool \<Rightarrow> string \<Rightarrow> db_caches \<Rightarrow> int option \<times> db_caches" where
  "GetEndpointFromCache coll db okq endpoint c =
    (case gget (dbEndpointCache c) endpoint of
       Some i \<Rightarrow> (Some i, c)
     | None \<Rightarrow>
        if \<not> okq then (None, c)
        else case select_endpoint coll endpoint db of
          None \<Rightarrow> (None, c)
        | Some i \<Rightarrow> if i < 0 then (None, c) else (Some i, c\<lparr>dbEndpointCache := gput endpoint i (dbEndpointCache c)\<rparr>))"

definition GetCounterFromCache ::
    "(string \<Rightarrow> string) \<Rightarrow> index_tables \<Rightarrow> bool \<Rightarrow> int \<Rightarrow> string \<Rightarrow> db_caches \<Rightarrow> ((string \<times> int) option \<times> db_caches) option" where
  "GetCounterFromCache coll db okq endpointId counter c =
    (let key = itoa endpointId @ ''-'' @ counter in
     case gget (dbEndpointCounterCache c) key of
       Some dsTypeStep \<Rightarrow> do {
         let arr = go_split (CHR ''_'') dsTypeStep;
         s \<leftarrow> go_nth arr 1;
         Some (case parse_int 64 s of Inl err \<Rightarrow> (None, c) | Inr step \<Rightarrow> (Some (arr ! 0, step), c))
       }
     | None \<Rightarrow>
        Some (if \<not> okq then (None, c)
          else case select_counter coll endpointId counter db of
            None \<Rightarrow> (None, c)
          | Some (dsType, step) \<Rightarrow>
              (Some (dsType, step),
               c\<lparr>dbEndpointCounterCache := gput key (dsType @ ''_'' @ itoa step) (dbEndpointCounterCache c)\<rparr>)))"

definition lookup_counter ::
    "(string \<Rightarrow> string) \<Rightarrow> index_tables \<Rightarrow> bool \<Rightarrow> bool \<Rightarrow> string \<Rightarrow> string \<Rightarrow> db_caches \<Rightarrow> ((string \<times> int) option \<times> db_caches) option" where
  "lookup_counter coll db ok1 ok2 endpoint counter c =
    (case GetEndpointFromCache coll db ok1 endpoint c of
       (None, c1) \<Rightarrow> Some (None, c1)
     | (Some i, c1) \<Rightarrow> GetCounterFromCache coll db ok2 i counter c1)"

section \<open>What is indexed is found\<close>

lemma insert_tags_facts:
  assumes "insert_tags coll ev i ts kvs db = (db', None)"
  shows "tb_endpoint db' = tb_endpoint db \<and> tb_endpoint_counter db' = tb_endpoint_counter db \<and> tb_next db' = tb_next db \<and>
    (\<forall>k. gget (tb_tag_endpoint db') k =
      (if list_ex (\<lambda>(tk, tv). k = (coll (tk @ ''='' @ tv), i)) kvs then Some ts else gget (tb_tag_endpoint db) k))"
  using assms
proof (induction kvs arbitrary: db)
  case (Cons kv kvs)
  then show ?case by (cases kv) (fastforce simp: Let_def split: if_splits)
qed simp

lemma insert_endpoint_facts:
  "\<exists>i. gget (tb_endpoint (insert_endpoint coll ep ts db)) = (gget (tb_endpoint db))(coll ep \<mapsto> (i, ts)) \<and>
    (\<forall>j t. gget (tb_endpoint db) (coll ep) = Some (j, t) \<longrightarrow> i = j) \<and>
    tb_tag_endpoint (insert_endpoint coll ep ts db) = tb_tag_endpoint db \<and>
    tb_endpoint_counter (insert_endpoint coll ep ts db) = tb_endpoint_counter db"
  by (auto simp: insert_endpoint_def fun_eq_iff split: option.split)

text \<open>
  When the statements for a series succeed, the tables hold its endpoint, its tags and its counter
  with their latest time, the counter with the item's step and type, and every other row is as
  before.
\<close>

theorem updateIndexFromOneItem_rows:
  assumes "updateIndexFromOneItem coll ev item db = (db', None)"
  shows "\<exists>i. 0 < i \<and> gget (tb_endpoint db') = (gget (tb_endpoint db))(coll (gi_Endpoint item) \<mapsto> (i, gi_Timestamp item)) \<and>
    gget (tb_endpoint_counter db') = (gget (tb_endpoint_counter db))
      ((i, coll (Counter (gi_Metric item) (gi_Tags item))) \<mapsto> (gi_Step item, gi_DsType item, gi_Timestamp item)) \<and>
    (\<forall>k. gget (tb_tag_endpoint db') k =
      (if list_ex (\<lambda>(tk, tv). k = (coll (tk @ ''='' @ tv), i)) (gi_Tags item) then Some (gi_Timestamp item)
       else gget (tb_tag_endpoint db) k))"
proof -
  let ?db1 = "insert_endpoint coll (gi_Endpoint item) (gi_Timestamp item) db"
  from insert_endpoint_facts [of coll "gi_Endpoint item" "gi_Timestamp item" db] obtain i where
    i: "gget (tb_endpoint ?db1) = (gget (tb_endpoint db))(coll (gi_Endpoint item) \<mapsto> (i, gi_Timestamp item))"
      "tb_tag_endpoint ?db1 = tb_tag_endpoint db" "tb_endpoint_counter ?db1 = tb_endpoint_counter db" by blast
  have s: "select_endpoint coll (gi_Endpoint item) ?db1 = Some i" by (simp add: select_endpoint_def i(1))
  obtain db2 err where t: "insert_tags coll ev i (gi_Timestamp item) (gi_Tags item) ?db1 = (db2, err)" by fastforce
  have f: "0 < i" "err = None" "db' = db2\<lparr>tb_endpoint_counter := gput (i, coll (Counter (gi_Metric item) (gi_Tags item)))
      (gi_Step item, gi_DsType item, gi_Timestamp item) (tb_endpoint_counter db2)\<rparr>"
    using assms by (auto simp: updateIndexFromOneItem_def Let_def s t split: if_splits option.splits)
  note g = insert_tags_facts [OF t [unfolded f(2)]]
  show ?thesis using f(1) g i unfolding f(3)
    by (intro exI [of _ i]) (simp add: fun_eq_iff)
qed

text \<open>The caches say what the tables say.\<close>

definition caches_agree :: "(string \<Rightarrow> string) \<Rightarrow> index_tables \<Rightarrow> db_caches \<Rightarrow> bool" where
  "caches_agree coll db c \<longleftrightarrow>
    (\<forall>ep i. gget (dbEndpointCache c) ep = Some i \<longrightarrow> select_endpoint coll ep db = Some i \<and> 0 \<le> i) \<and>
    (\<forall>i counter v. 0 \<le> i \<longrightarrow> gget (dbEndpointCounterCache c) (itoa i @ ''-'' @ counter) = Some v \<longrightarrow>
      (\<exists>ty step. select_counter coll i counter db = Some (ty, step) \<and> v = ty @ ''_'' @ itoa step))"

text \<open>The identifiers are not negative, no type has an underscore, and steps are integers of the machine.\<close>

definition tables_ok :: "index_tables \<Rightarrow> bool" where
  "tables_ok db \<longleftrightarrow> (\<forall>k i ts. gget (tb_endpoint db) k = Some (i, ts) \<longrightarrow> 0 \<le> i) \<and>
    (\<forall>k step ty ts. gget (tb_endpoint_counter db) k = Some (step, ty, ts) \<longrightarrow> CHR ''_'' \<notin> set ty \<and> in_i64 step)"

definition table_lookup :: "(string \<Rightarrow> string) \<Rightarrow> index_tables \<Rightarrow> string \<Rightarrow> string \<Rightarrow> (string \<times> int) option" where
  "table_lookup coll db endpoint counter =
    (case select_endpoint coll endpoint db of None \<Rightarrow> None | Some i \<Rightarrow> select_counter coll i counter db)"

lemma itoa_dash_inj:
  assumes "0 \<le> i" "0 \<le> j" "itoa i @ ''-'' @ a = itoa j @ ''-'' @ b"
  shows "i = j \<and> a = b"
proof -
  have d: "CHR ''-'' \<notin> set (itoa n)" if "0 \<le> n" for n
  proof -
    have "\<not> is_digit (CHR ''-'')" by code_simp
    with nat_digits_chars [OF that, of "CHR ''-''"] that show ?thesis unfolding itoa_def by auto
  qed
  have "itoa i @ CHR ''-'' # a = itoa j @ CHR ''-'' # b" using assms(3) by simp
  from append_sep_inj [OF this d [OF assms(1)] d [OF assms(2)]] have e: "itoa i = itoa j" "a = b" by blast+
  have "digits_val 0 (itoa i) = Some i" "digits_val 0 (itoa j) = Some j"
    using digits_val_nat_digits assms(1,2) by (simp_all add: itoa_def)
  with e show ?thesis by (metis option.inject)
qed

text \<open>
  The caches in front of the tables change no answer: with both queries working, a lookup returns,
  never panics on what it cached, and finds what the tables say; and what it caches agrees with
  them again.
\<close>

theorem lookup_counter_transparent:
  assumes "caches_agree coll db c" "tables_ok db"
  shows "\<exists>c'. lookup_counter coll db True True endpoint counter c = Some (table_lookup coll db endpoint counter, c') \<and>
    caches_agree coll db c'"
proof -
  obtain c1 where c1: "GetEndpointFromCache coll db True endpoint c = (select_endpoint coll endpoint db, c1)"
    "caches_agree coll db c1"
  proof (cases "gget (dbEndpointCache c) endpoint")
    case (Some i)
    then show ?thesis using that [of c] assms(1) by (auto simp: GetEndpointFromCache_def caches_agree_def)
  next
    case None
    show ?thesis
    proof (cases "select_endpoint coll endpoint db")
      case no: None
      then show ?thesis using that [of c] assms(1) \<open>gget (dbEndpointCache c) endpoint = None\<close> by (simp add: GetEndpointFromCache_def)
    next
      case (Some i)
      then have "0 \<le> i" using assms(2) by (auto simp: tables_ok_def select_endpoint_def)
      then show ?thesis using that [of "c\<lparr>dbEndpointCache := gput endpoint i (dbEndpointCache c)\<rparr>"] assms(1) Some None
        by (simp add: GetEndpointFromCache_def caches_agree_def)
    qed
  qed
  show ?thesis
  proof (cases "select_endpoint coll endpoint db")
    case None
    then show ?thesis using c1 by (simp add: lookup_counter_def table_lookup_def)
  next
    case (Some i)
    then have i: "0 \<le> i" using assms(2) by (auto simp: tables_ok_def select_endpoint_def)
    have wt: "CHR ''_'' \<notin> set ty \<and> in_i64 step" if "select_counter coll i counter db = Some (ty, step)" for ty step
      using that assms(2) by (auto simp: tables_ok_def select_counter_def)
    let ?key = "itoa i @ ''-'' @ counter"
    show ?thesis
    proof (cases "gget (dbEndpointCounterCache c1) ?key")
      case hit: (Some v)
      with c1(2) i obtain ty step where v: "select_counter coll i counter db = Some (ty, step)" "v = ty @ ''_'' @ itoa step"
        unfolding caches_agree_def by blast
      have sp: "go_split (CHR ''_'') v = [ty, itoa step]"
        using wt [OF v(1)] itoa_no_underscore [of step] by (simp add: v(2) go_split_append go_split_no_sep)
      have "parse_int 64 (itoa step) = Inr step" using wt [OF v(1)] by (simp add: parse_int_itoa_if in_i64_def)
      then show ?thesis using c1 hit
        by (simp add: lookup_counter_def table_lookup_def Some GetCounterFromCache_def Let_def sp go_nth_def v(1))
    next
      case miss: None
      show ?thesis
      proof (cases "select_counter coll i counter db")
        case None
        then show ?thesis using c1 miss by (simp add: lookup_counter_def table_lookup_def Some GetCounterFromCache_def Let_def)
      next
        case found: (Some r)
        obtain ty step where r: "r = (ty, step)" by fastforce
        let ?c2 = "c1\<lparr>dbEndpointCounterCache := gput ?key (ty @ ''_'' @ itoa step) (dbEndpointCounterCache c1)\<rparr>"
        have "\<exists>ty step. select_counter coll j ctr db = Some (ty, step) \<and> v = ty @ ''_'' @ itoa step"
          if j: "0 \<le> j" and g: "gget (dbEndpointCounterCache ?c2) (itoa j @ ''-'' @ ctr) = Some v" for j ctr v
        proof (cases "itoa j @ ''-'' @ ctr = ?key")
          case True
          from itoa_dash_inj [OF j i True] g found show ?thesis by (auto simp: r)
        next
          case False
          then have "gget (dbEndpointCounterCache c1) (itoa j @ ''-'' @ ctr) = Some v" using g by simp
          then show ?thesis using c1(2) j unfolding caches_agree_def by blast
        qed
        then have "caches_agree coll db ?c2" using c1(2) unfolding caches_agree_def by simp
        then show ?thesis using c1 miss found
          by (simp add: lookup_counter_def table_lookup_def Some GetCounterFromCache_def Let_def r)
      qed
    qed
  qed
qed

definition demo_tables :: index_tables where
  "demo_tables = \<lparr>tb_endpoint = [], tb_tag_endpoint = [], tb_endpoint_counter = [], tb_next = 1\<rparr>"

definition demo_index_env :: index_env where
  "demo_index_env = \<lparr>ie_endpoint = True, ie_select = True, ie_tag = (\<lambda>t. True), ie_counter = True\<rparr>"

theorem updateIndexFromOneItem_rows_witness:
  "\<exists>db'. updateIndexFromOneItem id demo_index_env (gpoint 60) demo_tables = (db', None) \<and>
    gget (tb_endpoint db') ''h'' = Some (1, 60) \<and> gget (tb_endpoint_counter db') (1, ''cpu'') = Some (60, ''GAUGE'', 60)"
proof -
  have r: "updateIndexFromOneItem id demo_index_env (gpoint 60) demo_tables =
      (demo_tables\<lparr>tb_endpoint := [(''h'', (1, 60))], tb_endpoint_counter := [((1, ''cpu''), (60, ''GAUGE'', 60))], tb_next := 2\<rparr>, None)"
    by code_simp
  from updateIndexFromOneItem_rows [OF r] r show ?thesis by auto
qed

theorem lookup_counter_transparent_witness:
  "\<exists>c'. lookup_counter id (demo_tables\<lparr>tb_endpoint := [(''h'', (1, 60))], tb_endpoint_counter := [((1, ''cpu''), (60, ''GAUGE'', 60))]\<rparr>)
      True True ''h'' ''cpu'' \<lparr>dbEndpointCache = [], dbEndpointCounterCache = []\<rparr> = Some (Some (''GAUGE'', 60), c')"
proof -
  let ?db = "demo_tables\<lparr>tb_endpoint := [(''h'', (1, 60))], tb_endpoint_counter := [((1, ''cpu''), (60, ''GAUGE'', 60))]\<rparr>"
  have a: "caches_agree id ?db \<lparr>dbEndpointCache = [], dbEndpointCounterCache = []\<rparr>" by (simp add: caches_agree_def)
  have "tables_ok ?db" by (auto simp: tables_ok_def in_i64_def split: if_splits)
  moreover have "table_lookup id ?db ''h'' ''cpu'' = Some (''GAUGE'', 60)" by code_simp
  ultimately show ?thesis using lookup_counter_transparent [OF a, of "''h''" "''cpu''"] by auto
qed

section \<open>The full update drops what is stale\<close>

definition stale :: "int64 \<Rightarrow> index_cache \<Rightarrow> string \<Rightarrow> bool" where
  "stale lastTs m key = (case gget m key of None \<Rightarrow> False | Some (_, it) \<Rightarrow> gi_Timestamp it < lastTs)"

lemma update_all_keys:
  assumes "distinct keys" "\<forall>k\<in>set keys. gget (ix_Indexed st) k = gget m k"
  shows "gget (ix_Indexed (fst (foldl (update_all_key coll ev lastTs) (st, ret) keys))) k =
      (if k \<in> set keys \<and> stale lastTs m k then None else gget (ix_Indexed st) k) \<and>
    snd (foldl (update_all_key coll ev lastTs) (st, ret) keys) =
      ret + int (length (filter (\<lambda>k. gget m k \<noteq> None \<and> \<not> stale lastTs m k) keys))"
  using assms
proof (induction keys arbitrary: st ret)
  case (Cons key keys)
  have m: "gget (ix_Indexed st) key = gget m key" using Cons.prems(2) by simp
  obtain st1 ret1 where s: "update_all_key coll ev lastTs (st, ret) key = (st1, ret1)" by fastforce
  have one: "gget (ix_Indexed st1) k' = (if k' = key \<and> stale lastTs m key then None else gget (ix_Indexed st) k')"
    "ret1 = ret + (if gget m key \<noteq> None \<and> \<not> stale lastTs m key then 1 else 0)" for k'
    using s m by (auto simp: update_all_key_def stale_def split: option.splits if_splits prod.splits)
  have "\<forall>k'\<in>set keys. gget (ix_Indexed st1) k' = gget m k'" using Cons.prems one(1) by auto
  with Cons.IH [of st1 ret1] Cons.prems(1) show ?case by (auto simp: s one)
qed simp

text \<open>
  A full update visits every indexed series once: those whose last point is older than the window
  leave the index, the others stay, and their number is returned.
\<close>

theorem updateIndexAll_drops_stale:
  assumes "gomap_ok (ix_Indexed st)"
  shows "gget (ix_Indexed (fst (updateIndexAll coll ev True now step st))) k =
      (if stale (i64 (now - step)) (ix_Indexed st) k then None else gget (ix_Indexed st) k) \<and>
    snd (updateIndexAll coll ev True now step st) =
      int (length (filter (\<lambda>k. \<not> stale (i64 (now - step)) (ix_Indexed st) k) (map fst (ix_Indexed st))))"
proof -
  have k: "gget (ix_Indexed st) k' \<noteq> None" if "k' \<in> set (map fst (ix_Indexed st))" for k'
    using that by (auto simp: map_of_eq_None_iff)
  have sk: "k \<in> set (map fst (ix_Indexed st))" if "stale (i64 (now - step)) (ix_Indexed st) k"
    using that by (auto simp: stale_def dest: map_of_SomeD split: option.splits intro: rev_image_eqI)
  have f: "filter (\<lambda>k. gget (ix_Indexed st) k \<noteq> None \<and> \<not> stale (i64 (now - step)) (ix_Indexed st) k) (map fst (ix_Indexed st)) =
      filter (\<lambda>k. \<not> stale (i64 (now - step)) (ix_Indexed st) k) (map fst (ix_Indexed st))"
    using k by (intro filter_cong refl) blast
  show ?thesis
  proof (cases "ix_Indexed st = []")
    case True
    then show ?thesis by (simp add: updateIndexAll_def stale_def)
  next
    case False
    have d: "distinct (map fst (ix_Indexed st))" using assms by (simp add: gomap_ok_def)
    have eq: "updateIndexAll coll ev True now step st =
        foldl (update_all_key coll ev (i64 (now - step))) (st, 0) (map fst (ix_Indexed st))"
      using False by (simp add: updateIndexAll_def)
    show ?thesis
      using update_all_keys [OF d, of st "ix_Indexed st" coll ev "i64 (now - step)" 0 k] sk
      unfolding eq f by (auto simp del: set_map)
  qed
qed

theorem updateIndexAll_drops_stale_witness:
  "gget (ix_Indexed (fst (updateIndexAll id (\<lambda>k. demo_index_env) True 100000 DefaultUpdateStepInSec
      \<lparr>ix_Indexed = [(''a'', (''u'', gpoint (- 80000))), (''b'', (''v'', gpoint 60))], ix_tables = demo_tables, ix_errors = 0\<rparr>))) ''a'' = None"
  using updateIndexAll_drops_stale [of "\<lparr>ix_Indexed = [(''a'', (''u'', gpoint (- 80000))), (''b'', (''v'', gpoint 60))], ix_tables = demo_tables, ix_errors = 0\<rparr>"
      id "\<lambda>k. demo_index_env" 100000 DefaultUpdateStepInSec "''a''"]
  by (simp add: gomap_ok_def stale_def DefaultUpdateStepInSec_def gpoint_def i64_id in_i64_def)

end
