(* ===== verification/Graph_Query.thy ===== *)
theory Graph_Query
  imports Graph_Core
begin

text \<open>
  \<open>Graph.Query\<close> (\<open>modules/graph/api/graph.go\<close>): the consolidated points of the file merged with
  the points still in the cache. What the round-robin library fetches and what a remote node
  answers are arguments. The \<open>for\<close> loops that step through time are \<open>partial_function\<close>s: with a
  step that is not positive they do not end, and their value is \<open>None\<close>.
\<close>

section \<open>The handler\<close>

record query_param =
  qp_Start :: int64
  qp_End :: int64
  qp_ConsolFun :: string
  qp_Endpoint :: string
  qp_Counter :: string

record query_response =
  qr_Endpoint :: string
  qr_Counter :: string
  qr_DsType :: string
  qr_Step :: int
  qr_Values :: "rrd_data list"

definition rd :: "int64 \<Rightarrow> float64 \<Rightarrow> rrd_data" where
  "rd ts v = \<lparr>rd_Timestamp = ts, rd_Value = v\<rparr>"

definition in_window :: "int64 \<Rightarrow> int64 \<Rightarrow> int64 \<Rightarrow> bool" where
  "in_window start_ts end_ts ts \<longleftrightarrow> start_ts \<le> ts \<and> ts \<le> end_ts"

text \<open>The cached points of a counter, as rates.\<close>

definition derive_hit :: "graph_item list \<Rightarrow> int \<Rightarrow> int64 \<Rightarrow> nat \<Rightarrow> bool" where
  "derive_hit items step ts itemIdx \<longleftrightarrow> itemIdx < length items - 1 \<and> ts = gi_Timestamp (items ! itemIdx) \<and>
    ts = i64 (gi_Timestamp (items ! Suc itemIdx) - step)"

definition derive_val :: "graph_item list \<Rightarrow> int \<Rightarrow> nat \<Rightarrow> float64" where
  "derive_val items step itemIdx =
    (let v = f_div (f_sub (gi_Value (items ! Suc itemIdx)) (gi_Value (items ! itemIdx))) (f_of_int step)
     in if f_lt v f_zero then NaN else v)"

partial_function (option) derive_cache ::
    "graph_item list \<Rightarrow> int \<Rightarrow> int64 \<Rightarrow> int64 \<Rightarrow> int64 \<Rightarrow> int64 \<Rightarrow> nat \<Rightarrow> rrd_data list option" where
  "derive_cache items step start_ts end_ts itemEndTs ts itemIdx =
    (if ts < itemEndTs then
      (let hit = derive_hit items step ts itemIdx;
           val = (if hit then derive_val items step itemIdx else NaN)
       in do {
         rest \<leftarrow> derive_cache items step start_ts end_ts itemEndTs (i64 (ts + step)) (if hit then Suc itemIdx else itemIdx);
         Some ((if in_window start_ts end_ts ts then [rd ts val] else []) @ rest)
       })
     else Some [])"

text \<open>The cached points of a gauge.\<close>

definition gauge_hit :: "graph_item list \<Rightarrow> int64 \<Rightarrow> nat \<Rightarrow> bool" where
  "gauge_hit items ts itemIdx \<longleftrightarrow> itemIdx < length items \<and> ts = gi_Timestamp (items ! itemIdx)"

partial_function (option) gauge_cache ::
    "graph_item list \<Rightarrow> int \<Rightarrow> int64 \<Rightarrow> int64 \<Rightarrow> int64 \<Rightarrow> int64 \<Rightarrow> nat \<Rightarrow> rrd_data list option" where
  "gauge_cache items step start_ts end_ts itemEndTs ts itemIdx =
    (if ts \<le> itemEndTs then
      (let hit = gauge_hit items ts itemIdx;
           val = (if hit then gi_Value (items ! itemIdx) else NaN)
       in do {
         rest \<leftarrow> gauge_cache items step start_ts end_ts itemEndTs (i64 (ts + step)) (if hit then Suc itemIdx else itemIdx);
         Some ((if in_window start_ts end_ts ts then [rd ts val] else []) @ rest)
       })
     else Some [])"

definition cached_points :: "string \<Rightarrow> int \<Rightarrow> int64 \<Rightarrow> int64 \<Rightarrow> graph_item list \<Rightarrow> rrd_data list option" where
  "cached_points dsType step start_ts end_ts items =
    (let ts = gi_Timestamp (hd items); itemEndTs = gi_Timestamp (last items) in
     if dsType = ''DERIVE'' \<or> dsType = ''COUNTER'' then derive_cache items step start_ts end_ts itemEndTs ts 0
     else if dsType = ''GAUGE'' then gauge_cache items step start_ts end_ts itemEndTs ts 0
     else Some [])"

declare derive_cache.simps [code] gauge_cache.simps [code]

text \<open>The last of the first \<open>n\<close> points that lies before the cached ones.\<close>

fun find_junction :: "rrd_data list \<Rightarrow> int64 \<Rightarrow> nat \<Rightarrow> nat option" where
  "find_junction merged c0 0 = None"
| "find_junction merged c0 (Suc i) = (if rd_Timestamp (merged ! i) < c0 then Some i else find_junction merged c0 i)"

partial_function (option) fill_missing :: "int \<Rightarrow> int64 \<Rightarrow> int64 \<Rightarrow> rrd_data list option" where
  "fill_missing step c0 ts =
    (if ts < c0 then do { rest \<leftarrow> fill_missing step c0 (i64 (ts + step)); Some (rd ts NaN # rest) } else Some [])"

fun overlay :: "nat \<Rightarrow> nat \<Rightarrow> rrd_data list \<Rightarrow> rrd_data list \<Rightarrow> rrd_data list" where
  "overlay rrdDataSize rrdDataIdx merged [] = merged"
| "overlay rrdDataSize rrdDataIdx merged (c # cache) =
    overlay rrdDataSize (Suc rrdDataIdx)
      (if rrdDataIdx < rrdDataSize then (if \<not> is_nan (rd_Value c) then merged[rrdDataIdx := c] else merged)
       else merged @ [c]) cache"

definition merge_points :: "int \<Rightarrow> int64 \<Rightarrow> int64 \<Rightarrow> rrd_data list \<Rightarrow> rrd_data list \<Rightarrow> rrd_data list option" where
  "merge_points step start_ts end_ts datas cache =
    (let merged = filter (\<lambda>d. in_window start_ts end_ts (rd_Timestamp d)) datas in
     case cache of
       [] \<Rightarrow> Some merged
     | c # _ \<Rightarrow>
        (let rrdDataSize = length merged;
             c0 = rd_Timestamp c;
             junction = find_junction merged c0 rrdDataSize;
             lastTs = (case junction of None \<Rightarrow> c0 | Some i \<Rightarrow> rd_Timestamp (merged ! i));
             rrdDataIdx = (case junction of None \<Rightarrow> 0 | Some i \<Rightarrow> Suc i)
         in do {
           missing \<leftarrow> fill_missing step c0 (i64 (lastTs + step));
           Some (overlay rrdDataSize rrdDataIdx (merged @ missing) cache)
         }))"

fun fmt_points :: "int \<Rightarrow> nat \<Rightarrow> int64 \<Rightarrow> rrd_data list \<Rightarrow> rrd_data list" where
  "fmt_points step 0 ts merged = []"
| "fmt_points step (Suc n) ts [] = rd ts NaN # fmt_points step n (i64 (ts + step)) []"
| "fmt_points step (Suc n) ts (d # ds) =
    (if ts = rd_Timestamp d then d # fmt_points step n (i64 (ts + step)) ds
     else rd ts NaN # fmt_points step n (i64 (ts + step)) (d # ds))"

definition RRA1PointCnt :: int where "RRA1PointCnt = 720"

definition merge_result ::
    "string \<Rightarrow> int \<Rightarrow> int64 \<Rightarrow> int64 \<Rightarrow> graph_item list \<Rightarrow> rrd_data list \<Rightarrow> rrd_data list option" where
  "merge_result dsType step start_ts end_ts items datas = do {
    cache \<leftarrow> cached_points dsType step start_ts end_ts items;
    merged \<leftarrow> merge_points step start_ts end_ts datas cache;
    q \<leftarrow> go_div (i64 (end_ts - start_ts)) step;
    let ret_size = (if dsType = ''GAUGE'' then i64 (q + 1) else q);
    (if ret_size < 0 then None else Some (fmt_points step (nat ret_size) start_ts merged))
  }"

text \<open>
  \<open>fetch\<close> is what the round-robin library returns, \<open>remote\<close> what the node that still has the file
  answers, \<open>db\<close> the index's database.
\<close>

definition graph_Query ::
    "graph_config \<Rightarrow> (string \<Rightarrow> string \<Rightarrow> (string \<times> int) option) \<Rightarrow> (string \<Rightarrow> string \<Rightarrow> int64 \<Rightarrow> int64 \<Rightarrow> int \<Rightarrow> rrd_data list)
      \<Rightarrow> rrd_data list \<Rightarrow> int64 \<Rightarrow> query_param \<Rightarrow> graph_state \<Rightarrow> query_response option" where
  "graph_Query cfg db fetch remote nowTs param st =
    (let resp = \<lparr>qr_Endpoint = qp_Endpoint param, qr_Counter = qp_Counter param, qr_DsType = '''', qr_Step = 0,
        qr_Values = []\<rparr> in
     case GetTypeAndStep db st (qp_Endpoint param) (qp_Counter param) of
       None \<Rightarrow> Some resp
     | Some (dsType, step) \<Rightarrow> do {
         rs \<leftarrow> go_mod (qp_Start param) step;
         re \<leftarrow> go_mod (qp_End param) step;
         let resp = resp\<lparr>qr_DsType := dsType, qr_Step := step\<rparr>;
         let start_ts = i64 (qp_Start param - rs);
         let end_ts = i64 (qp_End param - re + step);
         (if i64 (end_ts - start_ts - step) < 1 then Some resp
          else do {
            let md5 = Md5 (qp_Endpoint param @ ''/'' @ qp_Counter param);
            let key = FormRrdCacheKey md5 dsType step;
            filename \<leftarrow> RrdFileName (gc_Storage cfg) md5 dsType step;
            let (items, flag) = GraphItemMap_FetchAll (gs_Items st) key;
            let datas = (if gc_Migrate cfg \<and> and flag GRAPH_F_MISS \<noteq> 0 then remote
              else fetch filename (qp_ConsolFun param) (i64 (start_ts - step)) end_ts step);
            rn \<leftarrow> go_mod nowTs step;
            let rra1StartTs = i64 (nowTs - rn - RRA1PointCnt * step);
            (if start_ts < rra1StartTs \<or> items = [] then Some (resp\<lparr>qr_Values := datas\<rparr>)
             else map_option (\<lambda>vs. resp\<lparr>qr_Values := vs\<rparr>) (merge_result dsType step start_ts end_ts items datas))
          })
       })"

section \<open>A gap in a cached counter\<close>

text \<open>The times the loops run through.\<close>

definition calm :: "int \<Rightarrow> int64 \<Rightarrow> bool" where
  "calm step ts \<longleftrightarrow> 0 < step \<and> step < 2 ^ 31 \<and> 0 \<le> ts \<and> ts < 2 ^ 62"

lemma calm_next: "calm step ts \<Longrightarrow> i64 (ts + step) = ts + step"
  by (rule i64_id) (auto simp: calm_def in_i64_def)

lemma derive_stuck:
  assumes "calm step (gi_Timestamp (hd items))" "itemEndTs < 2 ^ 62 - 2 ^ 31" "items \<noteq> []"
    and "gi_Timestamp (hd items) < ts" "ts < 2 ^ 62"
  shows "\<exists>cache. derive_cache items step start_ts end_ts itemEndTs ts 0 = Some cache \<and>
    list_all (\<lambda>d. is_nan (rd_Value d)) cache"
  using assms(4,5)
proof (induction "nat (itemEndTs - ts)" arbitrary: ts rule: less_induct)
  case less
  have "gi_Timestamp (items ! 0) \<noteq> ts" using less.prems(1) assms(3) by (cases items) auto
  then have h: "\<not> derive_hit items step ts 0" by (auto simp: derive_hit_def)
  show ?case
  proof (cases "ts < itemEndTs")
    case True
    have c: "calm step ts" using assms(1) less.prems by (simp add: calm_def)
    have "\<exists>cache. derive_cache items step start_ts end_ts itemEndTs (ts + step) 0 = Some cache \<and>
        list_all (\<lambda>d. is_nan (rd_Value d)) cache"
      using True c less.prems assms(2) by (intro less.hyps) (auto simp: calm_def)
    then show ?thesis using h True calm_next [OF c]
      by (subst derive_cache.simps) (auto simp: Let_def rd_def)
  qed (simp add: derive_cache.simps)
qed

text \<open>
  When the second cached point of a counter is not exactly one step after the first, the loop
  never leaves the first point: every rate of the cached points is reported as missing, also
  those between later points one step apart.
\<close>

theorem derive_gap_hides_all:
  assumes "calm step (gi_Timestamp a)" "gi_Timestamp (last (a # b # rest)) < 2 ^ 62 - 2 ^ 31"
    and "in_i64 (gi_Timestamp b)" "gi_Timestamp b \<noteq> gi_Timestamp a + step" "gi_Timestamp a < gi_Timestamp b"
    and "dsType \<in> {''DERIVE'', ''COUNTER''}"
  shows "\<exists>cache. cached_points dsType step start_ts end_ts (a # b # rest) = Some cache \<and>
    list_all (\<lambda>d. is_nan (rd_Value d)) cache"
proof -
  let ?items = "a # b # rest"
  have "i64 (gi_Timestamp b - step) = gi_Timestamp b - step"
    using assms(1,3,5) by (intro i64_id) (auto simp: calm_def in_i64_def)
  then have h: "\<not> derive_hit ?items step (gi_Timestamp a) 0" using assms(4) by (auto simp: derive_hit_def)
  have "\<exists>cache. derive_cache ?items step start_ts end_ts (gi_Timestamp (last ?items)) (gi_Timestamp a + step) 0 = Some cache \<and>
      list_all (\<lambda>d. is_nan (rd_Value d)) cache" if "gi_Timestamp a < gi_Timestamp (last ?items)"
    using assms(1,2) that by (intro derive_stuck) (auto simp: calm_def)
  then have "\<exists>cache. derive_cache ?items step start_ts end_ts (gi_Timestamp (last ?items)) (gi_Timestamp a) 0 = Some cache \<and>
      list_all (\<lambda>d. is_nan (rd_Value d)) cache"
    using h calm_next [OF assms(1)] by (subst derive_cache.simps) (auto simp: Let_def rd_def)
  then show ?thesis using assms(6) by (auto simp: cached_points_def Let_def)
qed

definition counter_at :: "int64 \<Rightarrow> int \<Rightarrow> graph_item" where
  "counter_at t v = zero_item\<lparr>gi_Timestamp := t, gi_Value := f_of_int v, gi_DsType := ''DERIVE'', gi_Step := 60\<rparr>"

theorem derive_gap_hides_all_witness:
  "\<exists>cache. cached_points ''DERIVE'' 60 0 1000 [counter_at 60 0, counter_at 180 6, counter_at 240 12, counter_at 300 18] = Some cache \<and>
    list_all (\<lambda>d. is_nan (rd_Value d)) cache \<and> map rd_Timestamp cache = [60, 120, 180, 240] \<and>
    derive_val [counter_at 180 6, counter_at 240 12] 60 0 = f_of_rat False (1 / 10)"
proof -
  let ?items = "[counter_at 60 0, counter_at 180 6, counter_at 240 12, counter_at 300 18]"
  have e: "map_option (map rd_Timestamp) (cached_points ''DERIVE'' 60 0 1000 ?items) = Some [60, 120, 180, 240]"
    by code_simp
  have v: "derive_val [counter_at 180 6, counter_at 240 12] 60 0 = f_of_rat False (1 / 10)" by code_simp
  have "\<exists>cache. cached_points ''DERIVE'' 60 0 1000 ?items = Some cache \<and> list_all (\<lambda>d. is_nan (rd_Value d)) cache"
    by (rule derive_gap_hides_all) (simp_all add: counter_at_def calm_def in_i64_def)
  with e v show ?thesis by auto
qed

end
