(* ===== verification/Nodata_Core.thy ===== *)
theory Nodata_Core
  imports Model Toolkit
begin

text \<open>
  The nodata module (\<open>modules/nodata\<close>): it reads which series to watch, collects their last points,
  and reports a mock value for a series that has gone silent. Database rows, the answers of the
  HTTP API and the outcome of a post are arguments.
\<close>

section \<open>The series to watch\<close>

record mock_cfg =
  mc_Id :: int
  mc_Name :: string
  mc_Obj :: string
  mc_ObjType :: string
  mc_Metric :: string
  mc_Tags :: tagmap
  mc_Type :: string
  mc_Step :: int64
  mc_Mock :: float64

definition newline :: char where
  "newline = char_of (10 :: nat)"

definition checkMockCfg :: "mock_cfg \<Rightarrow> string option" where
  "checkMockCfg mc =
    (if length (mc_Metric mc) < 1 then Some ''bad mockcfg, metric empty''
     else if mc_Type mc \<noteq> ''GAUGE'' then Some (''bad mockcfg, type illegal, type='' @ mc_Type mc)
     else if mc_Step mc < 1 then Some (''bad mockcfg, step illegal, step='' @ itoa (mc_Step mc))
     else None)"

definition getEndpointFromHosts :: "string \<Rightarrow> string list" where
  "getEndpointFromHosts hosts = filter (\<lambda>h. h \<noteq> '''') (map go_trim_space (go_split newline hosts))"

definition GetHostsFromGroup :: "(int \<times> string) rows \<Rightarrow> (string, int) gomap" where
  "GetHostsFromGroup rows =
    (case rows of Inl err \<Rightarrow> []
     | Inr rs \<Rightarrow>
        foldl (\<lambda>hosts (hid, hostname). if hid < 0 \<or> hostname = '''' then hosts else gput hostname hid hosts) [] (scanned rs))"

text \<open>\<open>db grp\<close> are the rows of the query for the group's hosts.\<close>

definition group_hosts ::
    "(string \<Rightarrow> (int \<times> string) rows) \<Rightarrow> (string, string) gomap \<Rightarrow> string \<Rightarrow> (string, string) gomap" where
  "group_hosts db hosts grp =
    (if length (go_trim_space grp) < 1 then hosts
     else foldl (\<lambda>hosts hostname. if hostname \<noteq> '''' then gput hostname hostname hosts else hosts) hosts
       (map fst (GetHostsFromGroup (db grp))))"

definition getEndpointFromGroups :: "(string \<Rightarrow> (int \<times> string) rows) \<Rightarrow> string \<Rightarrow> string list" where
  "getEndpointFromGroups db grps = map fst (foldl (group_hosts db) [] (go_split newline grps))"

definition getEndpoint :: "(string \<Rightarrow> (int \<times> string) rows) \<Rightarrow> string \<Rightarrow> string \<Rightarrow> string list" where
  "getEndpoint db objType obj =
    (if objType = ''host'' then getEndpointFromHosts obj
     else if objType = ''group'' then getEndpointFromGroups db obj
     else if objType = ''other'' then getEndpointFromHosts obj
     else [])"

definition isSpuerNodataCfg :: "nodata_config \<Rightarrow> nodata_config \<Rightarrow> bool" where
  "isSpuerNodataCfg A B \<longleftrightarrow> \<not> (nc_ObjType A = ''group'' \<and> nc_ObjType B = ''host'')"

definition NewNodataConfig :: "mock_cfg \<Rightarrow> string \<Rightarrow> nodata_config" where
  "NewNodataConfig t ep = \<lparr>nc_Id = mc_Id t, nc_Name = mc_Name t, nc_ObjType = mc_ObjType t, nc_Endpoint = ep,
    nc_Metric = mc_Metric t, nc_Tags = mc_Tags t, nc_Type = mc_Type t, nc_Step = mc_Step t, nc_Mock = mc_Mock t\<rparr>"

definition mock_endpoint :: "mock_cfg \<Rightarrow> (string, nodata_config) gomap \<Rightarrow> string \<Rightarrow> (string, nodata_config) gomap" where
  "mock_endpoint t ret ep =
    (let uuid = PK ep (mc_Metric t) (mc_Tags t);
         ncfg = NewNodataConfig t ep
     in case gget ret uuid of
          None \<Rightarrow> gput uuid ncfg ret
        | Some val \<Rightarrow> if isSpuerNodataCfg val ncfg then ret else gput uuid ncfg ret)"

definition mock_row ::
    "(string \<Rightarrow> (int \<times> string) rows) \<Rightarrow> (string, nodata_config) gomap \<Rightarrow> mock_cfg \<times> string \<Rightarrow> (string, nodata_config) gomap" where
  "mock_row db ret row =
    (let t = (fst row)\<lparr>mc_Tags := DictedTagstring (snd row)\<rparr> in
     case checkMockCfg t of
       Some err \<Rightarrow> ret
     | None \<Rightarrow> foldl (mock_endpoint t) ret (getEndpoint db (mc_ObjType t) (mc_Obj t)))"

definition GetMockCfgFromDB ::
    "(string \<Rightarrow> (int \<times> string) rows) \<Rightarrow> (mock_cfg \<times> string) rows \<Rightarrow> (string, nodata_config) gomap" where
  "GetMockCfgFromDB db rows = (case rows of Inl err \<Rightarrow> [] | Inr rs \<Rightarrow> foldl (mock_row db) [] (scanned rs))"

section \<open>State\<close>

record data_item =
  di_Ts :: int64
  di_Value :: float64
  di_FStatus :: string
  di_FTs :: int64

record nodata_status =
  ns_Key :: string
  ns_Status :: string
  ns_Cnt :: int
  ns_Ts :: int64

record json_meta =
  jm_Metric :: string
  jm_Endpoint :: string
  jm_Timestamp :: int64
  jm_Step :: int64
  jm_Value :: float64
  jm_CounterType :: string
  jm_Tags :: string

record nodata_state =
  nd_Config :: "(string, nodata_config) gomap"
  nd_Items :: "(string, data_item safe_list_limited) gomap"
  nd_Status :: "(string, nodata_status) gomap"
  nd_Mocks :: "(string, json_meta) gomap"

definition init_nodata :: nodata_state where
  "init_nodata = \<lparr>nd_Config = [], nd_Items = [], nd_Status = [], nd_Mocks = []\<rparr>"

definition syncNdConfig ::
    "(string \<Rightarrow> (int \<times> string) rows) \<Rightarrow> (mock_cfg \<times> string) rows \<Rightarrow> nodata_state \<Rightarrow> nodata_state \<times> int" where
  "syncNdConfig db rows st =
    (let nm = foldl (\<lambda>nm ndc. if nc_Endpoint ndc = '''' then nm
           else gput (PK (nc_Endpoint ndc) (nc_Metric ndc) (nc_Tags ndc)) ndc nm) [] (map snd (GetMockCfgFromDB db rows))
     in (st\<lparr>nd_Config := nm\<rparr>, int (length nm)))"

section \<open>Collecting\<close>

definition GetFirstItem :: "nodata_state \<Rightarrow> string \<Rightarrow> data_item option" where
  "GetFirstItem st key = (case gget (nd_Items st) key of None \<Rightarrow> None | Some L \<Rightarrow> sl_Front L)"

definition nodata_AddItem :: "string \<Rightarrow> data_item \<Rightarrow> nodata_state \<Rightarrow> nodata_state" where
  "nodata_AddItem key val st =
    (case gget (nd_Items st) key of
       None \<Rightarrow> st\<lparr>nd_Items := gput key (sl_PushFrontViolently val (NewSafeListLimited 3)) (nd_Items st)\<rparr>
     | Some L \<Rightarrow> st\<lparr>nd_Items := gput key (sl_PushFrontViolently val L) (nd_Items st)\<rparr>)"

definition nodata_RemoveItem :: "string \<Rightarrow> nodata_state \<Rightarrow> nodata_state" where
  "nodata_RemoveItem key st = st\<lparr>nd_Items := gdel key (nd_Items st)\<rparr>"

type_synonym last_param = "string \<times> string"

record graph_last_resp =
  gl_Endpoint :: string
  gl_Counter :: string
  gl_Value :: "rrd_data option"

definition last_args :: "nodata_state \<Rightarrow> string list \<Rightarrow> last_param list" where
  "last_args st keys =
    map (\<lambda>c. (nc_Endpoint c, Counter (nc_Metric c) (nc_Tags c))) (List.map_filter (gget (nd_Config st)) keys)"

definition store_last :: "int64 \<Rightarrow> nodata_state \<Rightarrow> graph_last_resp option \<Rightarrow> nodata_state" where
  "store_last fts st glr =
    (case glr of None \<Rightarrow> st
     | Some r \<Rightarrow>
        (case gl_Value r of None \<Rightarrow> st
         | Some v \<Rightarrow> nodata_AddItem (PK2 (gl_Endpoint r) (gl_Counter r))
             \<lparr>di_Ts = rd_Timestamp v, di_Value = rd_Value v, di_FStatus = ''OK'', di_FTs = fts\<rparr> st))"

definition fetchItemsAndStore ::
    "(last_param list \<Rightarrow> string + graph_last_resp option list) \<Rightarrow> int64 \<Rightarrow> string list \<Rightarrow> nodata_state \<Rightarrow> nodata_state \<times> int" where
  "fetchItemsAndStore queryLast fts keys st =
    (if length keys < 1 then (st, 0)
     else let args = last_args st keys in
       if length args < 1 then (st, 0)
       else case queryLast args of
         Inl err \<Rightarrow> (st, 0)
       | Inr resp \<Rightarrow> (foldl (store_last fts) st resp, int (length resp)))"

text \<open>
  The batches: \<open>for i < n { size := min(batch, n - i); use(xs[i : i+size]); i += size }\<close>. With a batch
  size of zero the loop does not end, with a negative one the slice panics; both are \<open>None\<close>.
\<close>

partial_function (option) batches :: "int \<Rightarrow> 'a list \<Rightarrow> int \<Rightarrow> 'a list list option" where
  "batches batch xs i =
    (if i < int (length xs) then do {
       let left = int (length xs) - i;
       let sz = (if left < batch then left else batch);
       b \<leftarrow> go_slice xs i (i + sz);
       rest \<leftarrow> batches batch xs (i + sz);
       Some (b # rest)
     } else Some [])"

declare batches.simps [code]

definition collect_batch :: "int \<Rightarrow> int" where
  "collect_batch batch = (if batch < 100 \<or> 1000 < batch then 200 else batch)"

text \<open>The batches are fetched by goroutines; here one after the other, each with its own clock.\<close>

definition collectDataOnce ::
    "int \<Rightarrow> (last_param list \<Rightarrow> string + graph_last_resp option list) \<Rightarrow> int64 \<Rightarrow> nodata_state \<Rightarrow> (nodata_state \<times> int) option" where
  "collectDataOnce cfg_batch queryLast fts st = do {
    bs \<leftarrow> batches (collect_batch cfg_batch) (map fst (nd_Config st)) 0;
    Some (foldl (\<lambda>(st, cnt) keys. let (st', n) = fetchItemsAndStore queryLast fts keys st in (st', cnt + n)) (st, 0) bs)
  }"

section \<open>Judging\<close>

definition LastTs :: "nodata_state \<Rightarrow> string \<Rightarrow> int64" where
  "LastTs st key = (case gget (nd_Status st) key of None \<Rightarrow> 0 | Some ns \<Rightarrow> ns_Ts ns)"

definition TurnOk :: "string \<Rightarrow> int64 \<Rightarrow> nodata_state \<Rightarrow> nodata_state" where
  "TurnOk key ts st =
    (case gget (nd_Status st) key of
       None \<Rightarrow> st\<lparr>nd_Status := gput key \<lparr>ns_Key = key, ns_Status = ''OK'', ns_Cnt = 0, ns_Ts = ts\<rparr> (nd_Status st)\<rparr>
     | Some ns \<Rightarrow> st\<lparr>nd_Status := gput key (ns\<lparr>ns_Status := ''OK'', ns_Cnt := 0, ns_Ts := ts\<rparr>) (nd_Status st)\<rparr>)"

definition TurnNodata :: "string \<Rightarrow> int64 \<Rightarrow> nodata_state \<Rightarrow> nodata_state" where
  "TurnNodata key ts st =
    (case gget (nd_Status st) key of
       None \<Rightarrow> st\<lparr>nd_Status := gput key \<lparr>ns_Key = key, ns_Status = ''NODATA'', ns_Cnt = 1, ns_Ts = ts\<rparr> (nd_Status st)\<rparr>
     | Some ns \<Rightarrow> st\<lparr>nd_Status :=
         gput key (ns\<lparr>ns_Status := ''NODATA'', ns_Cnt := i64 (ns_Cnt ns + 1), ns_Ts := ts\<rparr>) (nd_Status st)\<rparr>)"

definition genTs :: "int64 \<Rightarrow> int64 \<Rightarrow> int64 option" where
  "genTs nowTs step =
    (let step = (if step < 1 then 60 else step)
     in map_option (\<lambda>r. i64 (nowTs - r - 2 * step)) (go_mod nowTs step))"

definition getTimeout :: "int64 \<Rightarrow> int64" where
  "getTimeout step = (if step < 60 then 180 else i64 (step * 3))"

definition minfloat64 :: float64 where
  "minfloat64 = f_of_rat False (1 / 1000000)"

definition fCompare :: "float64 \<Rightarrow> float64 \<Rightarrow> int" where
  "fCompare left right =
    (let sub = f_sub left right in
     if f_lt (f_neg minfloat64) sub \<and> f_lt sub minfloat64 then 0
     else if f_le minfloat64 sub then 1
     else - 1)"

definition AddMock :: "string \<Rightarrow> json_meta \<Rightarrow> nodata_state \<Rightarrow> nodata_state" where
  "AddMock key item st = st\<lparr>nd_Mocks := gput key item (nd_Mocks st)\<rparr>"

definition genMock :: "int64 \<Rightarrow> string \<Rightarrow> nodata_config \<Rightarrow> nodata_state \<Rightarrow> nodata_state" where
  "genMock ts key ndcfg st =
    AddMock key \<lparr>jm_Metric = nc_Metric ndcfg, jm_Endpoint = nc_Endpoint ndcfg, jm_Timestamp = ts, jm_Step = nc_Step ndcfg,
      jm_Value = nc_Mock ndcfg, jm_CounterType = nc_Type ndcfg, jm_Tags = SortedTags (nc_Tags ndcfg)\<rparr> st"

definition judge_silent :: "int64 \<Rightarrow> string \<Rightarrow> nodata_config \<Rightarrow> nodata_state \<Rightarrow> nodata_state option" where
  "judge_silent now key ndcfg st =
    (if i64 (LastTs st key + nc_Step ndcfg) \<le> now then do {
       ts \<leftarrow> genTs now (nc_Step ndcfg);
       Some (genMock ts key ndcfg (TurnNodata key now st))
     } else Some st)"

definition judge_key :: "int64 \<Rightarrow> nodata_state \<Rightarrow> string \<Rightarrow> nodata_state option" where
  "judge_key now st key =
    (case gget (nd_Config st) key of
       None \<Rightarrow> Some st
     | Some ndcfg \<Rightarrow>
        (case GetFirstItem st key of
           None \<Rightarrow> Some st
         | Some item \<Rightarrow>
            (let lastTs = i64 (now - getTimeout (nc_Step ndcfg)) in
             if di_FStatus item \<noteq> ''OK'' \<or> di_FTs item < lastTs then Some st
             else if fCompare (nc_Mock ndcfg) (di_Value item) = 0 then judge_silent now key ndcfg st
             else if di_Ts item < lastTs then judge_silent now key ndcfg st
             else Some (TurnOk key now st))))"

definition nodata_judge :: "int64 \<Rightarrow> nodata_state \<Rightarrow> nodata_state option" where
  "nodata_judge now st = foldM (judge_key now) st (map fst (nd_Config st))"

section \<open>Sending\<close>

text \<open>A value that is no number has no JSON form, and the batch is dropped.\<close>

definition sendItemsToTransfer :: "(json_meta list \<Rightarrow> bool) \<Rightarrow> json_meta list \<Rightarrow> int option" where
  "sendItemsToTransfer post items =
    (if length items < 1 then Some 0
     else if \<not> list_all (\<lambda>m. is_fin (jm_Value m)) items then None
     else if post items then Some (int (length items)) else None)"

definition sendMock :: "int \<Rightarrow> (json_meta list \<Rightarrow> bool) \<Rightarrow> nodata_state \<Rightarrow> (nodata_state \<times> int) option" where
  "sendMock batch post st = do {
    bs \<leftarrow> batches batch (map snd (nd_Mocks st)) 0;
    Some (st\<lparr>nd_Mocks := []\<rparr>,
      foldl (\<lambda>cnt items. case sendItemsToTransfer post items of None \<Rightarrow> cnt | Some n \<Rightarrow> cnt + n) 0 bs)
  }"

text \<open>\<open>busy\<close>: another round is still running.\<close>

definition SendMockOnce :: "bool \<Rightarrow> bool \<Rightarrow> int \<Rightarrow> (json_meta list \<Rightarrow> bool) \<Rightarrow> nodata_state \<Rightarrow> (nodata_state \<times> int) option" where
  "SendMockOnce busy enabled batch post st =
    (if busy then Some (st, - 1) else if \<not> enabled then Some (st, 0) else sendMock batch post st)"

end
