(* ===== verification/Nodata_Flow.thy ===== *)
theory Nodata_Flow
  imports Nodata_Core
begin

text \<open>
  What the nodata module guarantees: the automaton of a watched series, the times of its mock
  values, the choice between conflicting configurations, and the sending loop.
\<close>

section \<open>Batches\<close>

lemma batches_ok:
  assumes "0 < batch" "0 \<le> i" "i \<le> int (length xs)"
  shows "\<exists>bs. batches batch xs i = Some bs \<and> concat bs = drop (nat i) xs \<and> list_all (\<lambda>b. b \<noteq> [] \<and> int (length b) \<le> batch) bs"
  using assms(2,3)
proof (induction "length xs - nat i" arbitrary: i rule: less_induct)
  case less
  show ?case
  proof (cases "i < int (length xs)")
    case False
    then show ?thesis using less.prems by (subst batches.simps) auto
  next
    case True
    define sz where "sz = (if int (length xs) - i < batch then int (length xs) - i else batch)"
    have sz: "0 < sz" "i + sz \<le> int (length xs)" "sz \<le> batch" using assms(1) True by (auto simp: sz_def)
    have "length xs - nat (i + sz) < length xs - nat i" using sz True less.prems by auto
    from less.hyps [OF this] sz less.prems obtain bs where bs: "batches batch xs (i + sz) = Some bs"
        "concat bs = drop (nat (i + sz)) xs" "list_all (\<lambda>b. b \<noteq> [] \<and> int (length b) \<le> batch) bs" by auto
    let ?b = "take (nat sz) (drop (nat i) xs)"
    have slice: "go_slice xs i (i + sz) = Some ?b" using sz less.prems by (simp add: go_slice_def)
    have "batches batch xs i = Some (?b # bs)"
      using True slice bs(1) by (subst batches.simps) (simp add: sz_def Let_def)
    moreover have "drop (nat (i + sz)) xs = drop (nat sz) (drop (nat i) xs)"
      using sz less.prems by (simp add: nat_add_distrib add.commute)
    then have "concat (?b # bs) = drop (nat i) xs" using bs(2) by (simp only: concat.simps append_take_drop_id)
    moreover have "?b \<noteq> [] \<and> int (length ?b) \<le> batch" using sz True less.prems by auto
    ultimately show ?thesis using bs(3) by (intro exI [of _ "?b # bs"]) simp
  qed
qed

lemma batches_zero: "batches batch xs i = Some bs \<Longrightarrow> batch = 0 \<longrightarrow> int (length xs) \<le> i"
  by (erule batches.raw_induct [rotated]) (fastforce split: if_splits bind_splits)

lemma batches_stuck:
  assumes "batch \<le> 0" "xs \<noteq> []"
  shows "batches batch xs 0 = None"
proof (cases "batch = 0")
  case True
  then show ?thesis using batches_zero [of batch xs 0] assms(2) by (cases "batches batch xs 0") auto
next
  case False
  then have "go_slice xs 0 batch = None" using assms(1) by (simp add: go_slice_def)
  then show ?thesis using assms by (subst batches.simps) (simp add: Let_def)
qed

lemma batches_Nil [simp]: "batches batch [] 0 = Some []"
  by (simp add: batches.simps)

lemma batches_total_iff: "batches batch xs 0 = None \<longleftrightarrow> batch \<le> 0 \<and> xs \<noteq> []"
  using batches_ok [of batch 0 xs] batches_stuck [of batch xs] by (cases "xs = []") force+

lemma sent_count:
  "\<exists>n. foldl (\<lambda>cnt items. case sendItemsToTransfer post items of None \<Rightarrow> cnt | Some n \<Rightarrow> cnt + n) c bs = c + int n \<and>
    n \<le> length (concat bs) \<and>
    (list_all (\<lambda>m. is_fin (jm_Value m)) (concat bs) \<and> (\<forall>b. post b) \<longrightarrow> n = length (concat bs))"
proof (induction bs arbitrary: c)
  case (Cons b bs)
  show ?case
  proof (cases "sendItemsToTransfer post b")
    case None
    with Cons.IH [of c] show ?thesis by (auto simp: sendItemsToTransfer_def split: if_splits)
  next
    case (Some k)
    then have k: "k = int (length b)" by (auto simp: sendItemsToTransfer_def split: if_splits)
    from Cons.IH [of "c + k"] obtain n where n: "foldl (\<lambda>cnt items. case sendItemsToTransfer post items of None \<Rightarrow> cnt | Some n \<Rightarrow> cnt + n) (c + k) bs = c + k + int n"
      "n \<le> length (concat bs)"
      "list_all (\<lambda>m. is_fin (jm_Value m)) (concat bs) \<and> (\<forall>b. post b) \<longrightarrow> n = length (concat bs)" by blast
    then show ?thesis using Some k by (intro exI [of _ "length b + n"]) auto
  qed
qed simp

text \<open>
  Sending the mock values returns exactly when the configured batch is positive or nothing
  waits: a batch of zero loops for ever (and so blocks every later round), a negative one
  panics. When it returns nothing waits any more, and the count says how many values were
  posted: all of them when every post succeeds and every value is a number.
\<close>

theorem sendMock_returns:
  "(sendMock batch post st = None \<longleftrightarrow> batch \<le> 0 \<and> nd_Mocks st \<noteq> []) \<and>
    (\<forall>st' cnt. sendMock batch post st = Some (st', cnt) \<longrightarrow> st' = st\<lparr>nd_Mocks := []\<rparr> \<and> 0 \<le> cnt \<and> cnt \<le> int (length (nd_Mocks st)) \<and>
      (list_all (\<lambda>m. is_fin (jm_Value (snd m))) (nd_Mocks st) \<and> (\<forall>b. post b) \<longrightarrow> cnt = int (length (nd_Mocks st))))"
proof -
  let ?ms = "map snd (nd_Mocks st)"
  have n: "sendMock batch post st = None \<longleftrightarrow> batches batch ?ms 0 = None"
    by (auto simp: sendMock_def split: bind_splits)
  have "st' = st\<lparr>nd_Mocks := []\<rparr> \<and> 0 \<le> cnt \<and> cnt \<le> int (length (nd_Mocks st)) \<and>
      (list_all (\<lambda>m. is_fin (jm_Value (snd m))) (nd_Mocks st) \<and> (\<forall>b. post b) \<longrightarrow> cnt = int (length (nd_Mocks st)))"
    if r: "sendMock batch post st = Some (st', cnt)" for st' cnt
  proof -
    from r obtain bs where bs: "batches batch ?ms 0 = Some bs" "st' = st\<lparr>nd_Mocks := []\<rparr>"
      "cnt = foldl (\<lambda>cnt items. case sendItemsToTransfer post items of None \<Rightarrow> cnt | Some n \<Rightarrow> cnt + n) 0 bs"
      by (auto simp: sendMock_def split: bind_splits)
    have "concat bs = ?ms"
    proof (cases "0 < batch")
      case True
      from batches_ok [OF True, of 0 ?ms] bs(1) show ?thesis by auto
    next
      case False
      then have "nd_Mocks st = []" using batches_stuck [of batch ?ms] bs(1) by auto
      then show ?thesis using bs(1) by simp
    qed
    with sent_count [of post 0 bs] bs(2,3) show ?thesis by (auto simp: list_all_iff)
  qed
  then show ?thesis using n batches_total_iff [of batch ?ms] by auto
qed

definition mock_of :: "string \<Rightarrow> json_meta" where
  "mock_of m = \<lparr>jm_Metric = m, jm_Endpoint = ''h'', jm_Timestamp = 60, jm_Step = 60, jm_Value = f_of_int (- 1),
    jm_CounterType = ''GAUGE'', jm_Tags = ''''\<rparr>"

definition demo_mocks :: nodata_state where
  "demo_mocks = init_nodata\<lparr>nd_Mocks := [(''a'', mock_of ''a''), (''b'', mock_of ''b''), (''c'', mock_of ''c'')]\<rparr>"

theorem sendMock_returns_witness:
  "sendMock 0 (\<lambda>_. True) demo_mocks = None \<and> map_option snd (sendMock 2 (\<lambda>_. True) demo_mocks) = Some 3"
proof -
  have "sendMock 0 (\<lambda>_. True) demo_mocks = None"
    using sendMock_returns [of 0 "\<lambda>_. True" demo_mocks] by (simp add: demo_mocks_def)
  moreover have "map_option snd (sendMock 2 (\<lambda>_. True) demo_mocks) = Some 3" by code_simp
  ultimately show ?thesis by simp
qed

section \<open>The automaton of a watched series\<close>

text \<open>The specification is over unbounded integers.\<close>

definition timeout :: "int \<Rightarrow> int" where
  "timeout step = max 180 (3 * step)"

definition fetched :: "int \<Rightarrow> nodata_config \<Rightarrow> data_item \<Rightarrow> bool" where
  "fetched now c item \<longleftrightarrow> di_FStatus item = ''OK'' \<and> now - timeout (nc_Step c) \<le> di_FTs item"

definition silent :: "int \<Rightarrow> nodata_config \<Rightarrow> data_item \<Rightarrow> bool" where
  "silent now c item \<longleftrightarrow> fCompare (nc_Mock c) (di_Value item) = 0 \<or> di_Ts item < now - timeout (nc_Step c)"

definition status_ts :: "nodata_status option \<Rightarrow> int" where
  "status_ts s = (case s of None \<Rightarrow> 0 | Some ns \<Rightarrow> ns_Ts ns)"

definition status_cnt :: "nodata_status option \<Rightarrow> int" where
  "status_cnt s = (case s of None \<Rightarrow> 0 | Some ns \<Rightarrow> ns_Cnt ns)"

definition mock_item :: "nodata_config \<Rightarrow> int \<Rightarrow> json_meta" where
  "mock_item c ts = \<lparr>jm_Metric = nc_Metric c, jm_Endpoint = nc_Endpoint c, jm_Timestamp = ts, jm_Step = nc_Step c,
    jm_Value = nc_Mock c, jm_CounterType = nc_Type c, jm_Tags = SortedTags (nc_Tags c)\<rparr>"

definition watch_next ::
    "int \<Rightarrow> string \<Rightarrow> nodata_config \<Rightarrow> data_item \<Rightarrow> nodata_status option \<times> json_meta option
      \<Rightarrow> nodata_status option \<times> json_meta option" where
  "watch_next now k c item sm =
    (case sm of (s, m) \<Rightarrow>
      if \<not> fetched now c item then (s, m)
      else if \<not> silent now c item then
        (Some \<lparr>ns_Key = (case s of None \<Rightarrow> k | Some ns \<Rightarrow> ns_Key ns), ns_Status = ''OK'', ns_Cnt = 0, ns_Ts = now\<rparr>, m)
      else if now < status_ts s + nc_Step c then (s, m)
      else (Some \<lparr>ns_Key = (case s of None \<Rightarrow> k | Some ns \<Rightarrow> ns_Key ns), ns_Status = ''NODATA'', ns_Cnt = status_cnt s + 1, ns_Ts = now\<rparr>,
            Some (mock_item c ((now div nc_Step c - 2) * nc_Step c))))"

definition watched :: "nodata_state \<Rightarrow> string \<Rightarrow> nodata_status option \<times> json_meta option" where
  "watched st k = (gget (nd_Status st) k, gget (nd_Mocks st) k)"

definition watch_spec :: "int \<Rightarrow> nodata_state \<Rightarrow> string \<Rightarrow> nodata_status option \<times> json_meta option" where
  "watch_spec now st k =
    (case gget (nd_Config st) k of None \<Rightarrow> watched st k
     | Some c \<Rightarrow> (case GetFirstItem st k of None \<Rightarrow> watched st k | Some item \<Rightarrow> watch_next now k c item (watched st k)))"

definition nodata_sane :: "int \<Rightarrow> nodata_state \<Rightarrow> string \<Rightarrow> bool" where
  "nodata_sane now st k \<longleftrightarrow> 0 \<le> now \<and> now < 2 ^ 62 \<and>
    (\<forall>c. gget (nd_Config st) k = Some c \<longrightarrow> 1 \<le> nc_Step c \<and> nc_Step c < 2 ^ 31) \<and>
    (\<forall>ns. gget (nd_Status st) k = Some ns \<longrightarrow> 0 \<le> ns_Ts ns \<and> ns_Ts ns < 2 ^ 62 \<and> 0 \<le> ns_Cnt ns \<and> ns_Cnt ns < 2 ^ 62)"

lemma getTimeout_eq: "1 \<le> step \<Longrightarrow> step < 2 ^ 31 \<Longrightarrow> getTimeout step = timeout step"
  using i64_id [of "step * 3"] by (auto simp: getTimeout_def timeout_def in_i64_def max_def)

lemma genTs_eq:
  assumes "1 \<le> step" "step < 2 ^ 31" "0 \<le> now" "now < 2 ^ 62"
  shows "genTs now step = Some ((now div step - 2) * step)"
proof -
  have "0 \<le> now mod step" "now mod step < step" using assms by simp_all
  then have "in_i64 (now - now mod step - 2 * step)" using assms unfolding in_i64_def int_pows by (intro conjI) linarith+
  then have "i64 (now - now mod step - 2 * step) = now - now mod step - 2 * step" by (rule i64_id)
  also have "\<dots> = (now div step - 2) * step"
    by (simp add: minus_mod_eq_div_mult left_diff_distrib)
  finally show ?thesis using assms go_mod_nonneg [of now step] by (simp add: genTs_def Let_def in_i64_def)
qed

lemma judge_silent_step:
  assumes "nodata_sane now st k" "gget (nd_Config st) k = Some c"
  shows "judge_silent now k c st = Some (if now < status_ts (gget (nd_Status st) k) + nc_Step c then st
    else genMock ((now div nc_Step c - 2) * nc_Step c) k c (TurnNodata k now st))"
proof -
  have b: "1 \<le> nc_Step c" "nc_Step c < 2 ^ 31" "0 \<le> now" "now < 2 ^ 62" using assms by (auto simp: nodata_sane_def)
  have "0 \<le> status_ts (gget (nd_Status st) k)" "status_ts (gget (nd_Status st) k) < 2 ^ 62"
    using assms(1) by (auto simp: nodata_sane_def status_ts_def split: option.split)
  then have "i64 (LastTs st k + nc_Step c) = status_ts (gget (nd_Status st) k) + nc_Step c"
    using b by (intro i64_id [THEN trans]) (auto simp: in_i64_def LastTs_def status_ts_def split: option.split)
  then show ?thesis using genTs_eq [OF b] by (simp add: judge_silent_def)
qed

lemma judge_key_step:
  assumes "nodata_sane now st k"
  shows "\<exists>st'. judge_key now st k = Some st' \<and> nd_Config st' = nd_Config st \<and> nd_Items st' = nd_Items st \<and>
    watched st' k = watch_spec now st k \<and> (\<forall>k'. k' \<noteq> k \<longrightarrow> watched st' k' = watched st k')"
proof (cases "gget (nd_Config st) k")
  case None
  then show ?thesis by (simp add: judge_key_def watch_spec_def)
next
  case (Some c)
  note cfg = Some
  show ?thesis
  proof (cases "GetFirstItem st k")
    case None
    then show ?thesis by (simp add: judge_key_def watch_spec_def cfg)
  next
    case (Some item)
    have b: "1 \<le> nc_Step c" "nc_Step c < 2 ^ 31" "0 \<le> now" "now < 2 ^ 62" using assms cfg by (auto simp: nodata_sane_def)
    have last: "i64 (now - getTimeout (nc_Step c)) = now - timeout (nc_Step c)"
      unfolding getTimeout_eq [OF b(1,2)] using b by (intro i64_id) (auto simp: in_i64_def timeout_def)
    have key: "judge_key now st k =
        (if \<not> fetched now c item then Some st else if silent now c item then judge_silent now k c st else Some (TurnOk k now st))"
      by (auto simp: judge_key_def cfg Some last fetched_def silent_def Let_def)
    have cnt: "i64 (ns_Cnt ns + 1) = ns_Cnt ns + 1" if "gget (nd_Status st) k = Some ns" for ns
    proof -
      have "0 \<le> ns_Cnt ns" "ns_Cnt ns < 2 ^ 62" using assms that unfolding nodata_sane_def by blast+
      then have "in_i64 (ns_Cnt ns + 1)" unfolding in_i64_def int_pows by (intro conjI) linarith+
      then show ?thesis by (rule i64_id)
    qed
    show ?thesis
      unfolding key judge_silent_step [OF assms cfg] watch_spec_def cfg Some
      using cnt by (auto simp: watched_def watch_next_def TurnOk_def TurnNodata_def genMock_def AddMock_def mock_item_def
          status_cnt_def split: option.splits)
  qed
qed

text \<open>A round visits every key of the configuration once, so the keys do not see each other.\<close>

lemma judge_keys_step:
  assumes "distinct ks" "\<forall>k. nodata_sane now st k"
  shows "\<exists>st'. foldM (judge_key now) st ks = Some st' \<and> nd_Config st' = nd_Config st \<and> nd_Items st' = nd_Items st \<and>
    (\<forall>k. watched st' k = (if k \<in> set ks then watch_spec now st k else watched st k))"
  using assms(1)
proof (induction ks rule: rev_induct)
  case (snoc k ks)
  from snoc obtain st1 where st1: "foldM (judge_key now) st ks = Some st1" "nd_Config st1 = nd_Config st" "nd_Items st1 = nd_Items st"
      "\<And>k. watched st1 k = (if k \<in> set ks then watch_spec now st k else watched st k)" by auto
  have k: "watched st1 k = watched st k" using snoc.prems st1(4) by simp
  have sane: "nodata_sane now st1 k" using assms(2) k st1(2) by (simp add: nodata_sane_def watched_def)
  have spec: "watch_spec now st1 k = watch_spec now st k"
  proof -
    have "GetFirstItem st1 k = GetFirstItem st k" by (simp add: GetFirstItem_def st1(3))
    then show ?thesis by (simp only: watch_spec_def k st1(2))
  qed
  from judge_key_step [OF sane] obtain st' where st': "judge_key now st1 k = Some st'" "nd_Config st' = nd_Config st1"
      "nd_Items st' = nd_Items st1" "watched st' k = watch_spec now st1 k" "\<forall>k'. k' \<noteq> k \<longrightarrow> watched st' k' = watched st1 k'"
    by blast
  have "foldM (judge_key now) st (ks @ [k]) = Some st'" using st1(1) st'(1) by (simp add: foldM_append)
  moreover have "watched st' k' = (if k' \<in> set (ks @ [k]) then watch_spec now st k' else watched st k')" for k'
    using st'(4,5) st1(4) spec by (cases "k' = k") auto
  ultimately show ?case using st1(2,3) st'(2,3) by auto
qed simp

text \<open>
  C15: A round of the nodata judge implements the automaton of a watched series, for every configured
  series at once: nothing happens without a fresh fetch; a point that is recent and is not the
  mock value makes the series alive; otherwise it is silent, and once per step it is counted
  and a mock value is queued for the period before the last. No other series is touched, and
  the round never panics.
\<close>

theorem nodata_judge_refines:
  assumes "gomap_ok (nd_Config st)" "\<forall>k. nodata_sane now st k"
  shows "\<exists>st'. nodata_judge now st = Some st' \<and> nd_Config st' = nd_Config st \<and> nd_Items st' = nd_Items st \<and>
    (\<forall>k. watched st' k = watch_spec now st k)"
proof -
  have d: "distinct (map fst (nd_Config st))" using assms(1) by (simp add: gomap_ok_def)
  have "watched st k = watch_spec now st k" if "k \<notin> set (map fst (nd_Config st))" for k
  proof -
    have "gget (nd_Config st) k = None" using that by (simp add: map_of_eq_None_iff)
    then show ?thesis by (simp add: watch_spec_def)
  qed
  with judge_keys_step [OF d assms(2)] show ?thesis by (auto simp: nodata_judge_def)
qed

definition demo_watch :: nodata_config where
  "demo_watch = \<lparr>nc_Id = 1, nc_Name = ''alive'', nc_ObjType = ''host'', nc_Endpoint = ''h'', nc_Metric = ''agent.alive'', nc_Tags = [],
    nc_Type = ''GAUGE'', nc_Step = 60, nc_Mock = f_of_int (- 1)\<rparr>"

definition demo_nodata :: nodata_state where
  "demo_nodata = nodata_AddItem ''h/agent.alive'' \<lparr>di_Ts = 600, di_Value = f_of_int 1, di_FStatus = ''OK'', di_FTs = 1000\<rparr>
    (init_nodata\<lparr>nd_Config := [(''h/agent.alive'', demo_watch)]\<rparr>)"

theorem nodata_judge_refines_witness:
  "\<exists>st'. nodata_judge 1010 demo_nodata = Some st' \<and>
    map_option ns_Status (gget (nd_Status st') ''h/agent.alive'') = Some ''NODATA'' \<and>
    map_option jm_Timestamp (gget (nd_Mocks st') ''h/agent.alive'') = Some 840"
proof -
  have "gomap_ok (nd_Config demo_nodata)" by (simp add: demo_nodata_def nodata_AddItem_def gomap_ok_def init_nodata_def)
  moreover have "\<forall>k. nodata_sane 1010 demo_nodata k"
    by (simp add: nodata_sane_def demo_nodata_def nodata_AddItem_def init_nodata_def demo_watch_def)
  ultimately obtain st' where st': "nodata_judge 1010 demo_nodata = Some st'"
      "\<forall>k. watched st' k = watch_spec 1010 demo_nodata k"
    using nodata_judge_refines by blast
  have "map_option ns_Status (fst (watch_spec 1010 demo_nodata ''h/agent.alive'')) = Some ''NODATA'' \<and>
    map_option jm_Timestamp (snd (watch_spec 1010 demo_nodata ''h/agent.alive'')) = Some 840" by code_simp
  with st' show ?thesis by (metis watched_def fst_conv snd_conv)
qed

section \<open>The times of mock values\<close>

text \<open>
  A mock value for a series that has gone silent lies strictly after its last point, so that it
  never replaces a real one, on a multiple of the step, and at least two steps in the past.
\<close>

theorem mock_time_bounds:
  assumes "1 \<le> step" "step < 2 ^ 31" "0 \<le> now" "now < 2 ^ 62" "lastPoint < i64 (now - getTimeout step)"
  shows "\<exists>ts. genTs now step = Some ts \<and> lastPoint < ts \<and> ts \<le> now - 2 * step \<and> now - 3 * step < ts \<and> step dvd ts"
proof -
  have "in_i64 (now - timeout step)" using assms(1-4) unfolding in_i64_def timeout_def by (auto simp: max_def)
  then have last: "lastPoint < now - timeout step" using assms(5) by (simp add: i64_id getTimeout_eq [OF assms(1,2)])
  have e: "(now div step - 2) * step = now - now mod step - 2 * step" by (simp add: minus_mod_eq_div_mult left_diff_distrib)
  have "0 \<le> now mod step" "now mod step < step" using assms(1) by simp_all
  then have "now - 3 * step < (now div step - 2) * step" "(now div step - 2) * step \<le> now - 2 * step"
    unfolding e by linarith+
  moreover have "3 * step \<le> timeout step" by (simp add: timeout_def)
  ultimately show ?thesis using last genTs_eq [OF assms(1-4)] by auto
qed

theorem mock_time_bounds_witness:
  "\<exists>ts. genTs 1010 60 = Some ts \<and> 600 < ts \<and> ts \<le> 890 \<and> 830 < ts \<and> 60 dvd ts"
  using mock_time_bounds [of 60 1010 600] by (simp add: getTimeout_def i64_def)

section \<open>Conflicting configurations\<close>

definition row_configs :: "(string \<Rightarrow> (int \<times> string) rows) \<Rightarrow> mock_cfg \<times> string \<Rightarrow> nodata_config list" where
  "row_configs db row =
    (let t = (fst row)\<lparr>mc_Tags := DictedTagstring (snd row)\<rparr>
     in if checkMockCfg t = None then map (NewNodataConfig t) (getEndpoint db (mc_ObjType t) (mc_Obj t)) else [])"

definition config_PK :: "nodata_config \<Rightarrow> string" where
  "config_PK c = PK (nc_Endpoint c) (nc_Metric c) (nc_Tags c)"

fun chosen :: "nodata_config list \<Rightarrow> nodata_config option" where
  "chosen [] = None"
| "chosen (c # cs) =
    Some (if nc_ObjType c = ''group'' then (case filter (\<lambda>c. nc_ObjType c = ''host'') cs of [] \<Rightarrow> c | h # _ \<Rightarrow> h) else c)"

definition add_config :: "(string, nodata_config) gomap \<Rightarrow> nodata_config \<Rightarrow> (string, nodata_config) gomap" where
  "add_config m c =
    (case gget m (config_PK c) of None \<Rightarrow> gput (config_PK c) c m
     | Some v \<Rightarrow> if isSpuerNodataCfg v c then m else gput (config_PK c) c m)"

lemma mock_endpoint_add: "mock_endpoint t m ep = add_config m (NewNodataConfig t ep)"
proof -
  have "config_PK (NewNodataConfig t ep) = PK ep (mc_Metric t) (mc_Tags t)" by (simp add: config_PK_def NewNodataConfig_def)
  then show ?thesis by (simp only: mock_endpoint_def add_config_def Let_def)
qed

lemma mock_row_add: "mock_row db m row = foldl add_config m (row_configs db row)"
proof -
  have "foldl (mock_endpoint t) m eps = foldl add_config m (map (NewNodataConfig t) eps)" for t m eps
    by (induction eps arbitrary: m) (simp_all add: mock_endpoint_add)
  then show ?thesis by (simp add: mock_row_def row_configs_def Let_def split: option.split)
qed

lemma chosen_snoc:
  "chosen (cs @ [c]) = (case chosen cs of None \<Rightarrow> Some c | Some v \<Rightarrow> Some (if isSpuerNodataCfg v c then v else c))"
  by (cases cs) (auto simp: isSpuerNodataCfg_def filter_eq_Cons_iff split: list.split)

lemma gget_add_configs: "gget (foldl add_config [] cs) k = chosen (filter (\<lambda>c. config_PK c = k) cs)"
proof (induction cs rule: rev_induct)
  case (snoc c cs)
  then show ?case by (auto simp: add_config_def chosen_snoc split: option.split)
qed simp

text \<open>
  When several configurations claim a series, exactly one is used: the first one, unless that
  comes from a group and some later one names the host itself, which then wins whatever the
  order. A series no valid configuration claims is not watched.
\<close>

theorem GetMockCfg_chosen:
  "gget (GetMockCfgFromDB db rows) k =
    (case rows of Inl err \<Rightarrow> None
     | Inr rs \<Rightarrow> chosen (filter (\<lambda>c. config_PK c = k) (concat (map (row_configs db) (scanned rs)))))"
proof -
  have "foldl (mock_row db) m rs = foldl add_config m (concat (map (row_configs db) rs))" for m rs
    by (induction rs arbitrary: m) (simp_all add: mock_row_add)
  then show ?thesis by (simp add: GetMockCfgFromDB_def gget_add_configs split: sum.split)
qed

end
