(* ===== verification/Go_Regexp.thy ===== *)
theory Go_Regexp
  imports Go_Strings
begin

text \<open>
  The part of \<open>regexp\<close> the program uses: whether a whole string matches an anchored pattern, by
  derivatives, with the language of a pattern as the specification; and splitting at runs of
  separators. Characters are bytes: the classes the program uses contain all bytes of
  multi-byte characters or none.
\<close>

section \<open>Patterns\<close>

datatype rx = RNone | REps | RChar "char \<Rightarrow> bool" | RSeq rx rx | RAlt rx rx | RStar rx

fun nullable :: "rx \<Rightarrow> bool" where
  "nullable RNone = False"
| "nullable REps = True"
| "nullable (RChar p) = False"
| "nullable (RSeq r s) = (nullable r \<and> nullable s)"
| "nullable (RAlt r s) = (nullable r \<or> nullable s)"
| "nullable (RStar r) = True"

fun deriv :: "char \<Rightarrow> rx \<Rightarrow> rx" where
  "deriv c RNone = RNone"
| "deriv c REps = RNone"
| "deriv c (RChar p) = (if p c then REps else RNone)"
| "deriv c (RSeq r s) = (if nullable r then RAlt (RSeq (deriv c r) s) (deriv c s) else RSeq (deriv c r) s)"
| "deriv c (RAlt r s) = RAlt (deriv c r) (deriv c s)"
| "deriv c (RStar r) = RSeq (deriv c r) (RStar r)"

definition rx_match :: "rx \<Rightarrow> string \<Rightarrow> bool" where
  "rx_match r s = nullable (fold deriv s r)"

definition RLit :: "string \<Rightarrow> rx" where
  "RLit s = foldr (\<lambda>c r. RSeq (RChar (\<lambda>x. x = c)) r) s REps"

definition RPlus :: "rx \<Rightarrow> rx" where
  "RPlus r = RSeq r (RStar r)"

definition ROpt :: "rx \<Rightarrow> rx" where
  "ROpt r = RAlt REps r"

section \<open>Their languages\<close>

inductive_set star :: "string set \<Rightarrow> string set" for L where
  star_Nil: "[] \<in> star L"
| star_append: "u \<in> L \<Longrightarrow> v \<in> star L \<Longrightarrow> u @ v \<in> star L"

fun lang :: "rx \<Rightarrow> string set" where
  "lang RNone = {}"
| "lang REps = {[]}"
| "lang (RChar p) = {[c] | c. p c}"
| "lang (RSeq r s) = {u @ v | u v. u \<in> lang r \<and> v \<in> lang s}"
| "lang (RAlt r s) = lang r \<union> lang s"
| "lang (RStar r) = star (lang r)"

lemma nullable_lang: "nullable r \<longleftrightarrow> [] \<in> lang r"
  by (induction r) (auto intro: star_Nil)

lemma star_Cons: "c # s \<in> star L \<longleftrightarrow> (\<exists>u v. c # u \<in> L \<and> v \<in> star L \<and> s = u @ v)"
proof
  have "x \<in> star L \<Longrightarrow> x = c # s \<Longrightarrow> \<exists>u v. c # u \<in> L \<and> v \<in> star L \<and> s = u @ v" for x
    by (induction rule: star.induct) (auto simp: append_eq_Cons_conv)
  then show "c # s \<in> star L \<Longrightarrow> \<exists>u v. c # u \<in> L \<and> v \<in> star L \<and> s = u @ v" by blast
next
  assume "\<exists>u v. c # u \<in> L \<and> v \<in> star L \<and> s = u @ v"
  then show "c # s \<in> star L" using star_append [of "c # _"] by (metis append_Cons)
qed

lemma deriv_lang: "s \<in> lang (deriv c r) \<longleftrightarrow> c # s \<in> lang r"
proof (induction r arbitrary: s)
  case (RSeq r1 r2)
  have "c # s \<in> lang (RSeq r1 r2) \<longleftrightarrow>
      (\<exists>u v. s = u @ v \<and> c # u \<in> lang r1 \<and> v \<in> lang r2) \<or> [] \<in> lang r1 \<and> c # s \<in> lang r2"
    by (auto simp: Cons_eq_append_conv)
  then show ?case using RSeq by (auto simp: nullable_lang)
next
  case (RStar r)
  then show ?case by (auto simp: star_Cons)
qed auto

lemma rx_match_lang: "rx_match r s \<longleftrightarrow> s \<in> lang r"
proof (induction s arbitrary: r)
  case Nil
  show ?case by (simp add: rx_match_def nullable_lang)
next
  case (Cons c s)
  have "rx_match r (c # s) \<longleftrightarrow> rx_match (deriv c r) s" by (simp add: rx_match_def)
  then show ?case using Cons deriv_lang by simp
qed

lemma lang_RLit [simp]: "lang (RLit s) = {s}"
  by (induction s) (auto simp: RLit_def)

lemma lang_RPlus: "lang (RPlus r) = {u @ v | u v. u \<in> lang r \<and> v \<in> star (lang r)}"
  by (simp add: RPlus_def)

lemma lang_ROpt [simp]: "lang (ROpt r) = insert [] (lang r)"
  by (auto simp: ROpt_def)

lemma star_chars: "s \<in> star {[c] | c. p c} \<longleftrightarrow> list_all p s"
  by (induction s) (auto simp: star_Cons intro: star_Nil)

lemma lang_plus_chars: "s \<in> lang (RPlus (RChar p)) \<longleftrightarrow> s \<noteq> [] \<and> list_all p s"
proof -
  have "s \<in> lang (RPlus (RChar p)) \<longleftrightarrow> (\<exists>c v. s = c # v \<and> p c \<and> list_all p v)"
  proof
    assume "s \<in> lang (RPlus (RChar p))"
    then show "\<exists>c v. s = c # v \<and> p c \<and> list_all p v" unfolding lang_RPlus lang.simps star_chars by auto
  next
    assume "\<exists>c v. s = c # v \<and> p c \<and> list_all p v"
    then obtain c v where "s = [c] @ v" "p c" "list_all p v" by auto
    then show "s \<in> lang (RPlus (RChar p))" unfolding lang_RPlus lang.simps star_chars by blast
  qed
  then show ?thesis by (cases s) auto
qed

section \<open>Splitting\<close>

text \<open>
  \<open>regexp.Split(s, -1)\<close> for the pattern \<open>[...]+\<close>: the pieces between maximal runs of the
  separators, with an empty piece before a run at the start and after one at the end.
\<close>

function split_runs :: "(char \<Rightarrow> bool) \<Rightarrow> string \<Rightarrow> string list" where
  "split_runs p s =
    (let w = takeWhile (\<lambda>c. \<not> p c) s; r = dropWhile (\<lambda>c. \<not> p c) s
     in if r = [] then [w] else w # split_runs p (dropWhile p r))"
  by pat_completeness auto
termination
proof (relation "measure (\<lambda>(p, s). length s)")
  fix p s w r
  assume r: "r = dropWhile (\<lambda>c. \<not> p c) s" "r \<noteq> []"
  then have "p (hd r)" using hd_dropWhile [of "\<lambda>c. \<not> p c" s] by simp
  then have "length (dropWhile p r) < length r" using r(2)
    by (cases r) (auto simp: le_imp_less_Suc length_dropWhile_le)
  also have "length r \<le> length s" unfolding r(1) by (rule length_dropWhile_le)
  finally show "((p, dropWhile p r), p, s) \<in> measure (\<lambda>(p, s). length s)" by simp
qed simp

declare split_runs.simps [simp del]

lemma split_runs_clean: "list_all (\<lambda>c. \<not> p c) s \<Longrightarrow> split_runs p s = [s]"
  by (subst split_runs.simps) (simp add: list_all_iff takeWhile_eq_all_conv)

lemma split_runs_step:
  assumes "list_all (\<lambda>c. \<not> p c) w" "list_all p sep" "sep \<noteq> []" "rest = [] \<or> \<not> p (hd rest)"
  shows "split_runs p (w @ sep @ rest) = w # split_runs p rest"
proof -
  have d: "dropWhile (\<lambda>c. \<not> p c) (w @ sep @ rest) = sep @ rest"
    using assms(1-3) by (cases sep) (auto simp: list_all_iff dropWhile_append)
  have t: "takeWhile (\<lambda>c. \<not> p c) (w @ sep @ rest) = w"
    using assms(1-3) by (cases sep) (auto simp: list_all_iff takeWhile_append)
  have e: "dropWhile p (sep @ rest) = rest"
    using assms(2,4) by (cases rest) (auto simp: list_all_iff dropWhile_append)
  show ?thesis by (subst split_runs.simps) (use assms(3) in \<open>simp add: d t e Let_def\<close>)
qed

lemma split_runs_nonempty [simp]: "split_runs p s \<noteq> []"
  by (subst split_runs.simps) (simp add: Let_def)

lemma takeWhile_append_stop: "takeWhile q ys = [] \<Longrightarrow> takeWhile q (xs @ ys) = takeWhile q xs"
  by (induction xs) auto

lemma last_split_runs: "last (split_runs p s) = rev (takeWhile (\<lambda>c. \<not> p c) (rev s))"
proof (induction p s rule: split_runs.induct)
  case (1 p s)
  let ?w = "takeWhile (\<lambda>c. \<not> p c) s"
  let ?r = "dropWhile (\<lambda>c. \<not> p c) s"
  show ?case
  proof (cases "?r = []")
    case True
    then have "\<forall>x\<in>set s. \<not> p x" by simp
    then show ?thesis by (subst split_runs.simps) (simp add: takeWhile_eq_all_conv [THEN iffD2] Let_def)
  next
    case False
    let ?run = "takeWhile p ?r"
    let ?rest = "dropWhile p ?r"
    have "p (hd ?r)" using hd_dropWhile [of "\<lambda>c. \<not> p c" s] False by simp
    then have run: "?run \<noteq> []" using False by (cases ?r) auto
    then have "takeWhile (\<lambda>c. \<not> p c) (rev ?run @ xs) = []" for xs
      using set_takeWhileD [of "last ?run" p ?r] by (cases ?run rule: rev_cases) auto
    moreover have "rev s = rev ?rest @ rev ?run @ rev ?w"
      by (metis append.assoc rev_append takeWhile_dropWhile_id)
    ultimately have "takeWhile (\<lambda>c. \<not> p c) (rev s) = takeWhile (\<lambda>c. \<not> p c) (rev ?rest)"
      by (simp only: takeWhile_append_stop)
    moreover have "split_runs p s = ?w # split_runs p ?rest"
      by (subst split_runs.simps) (simp only: False Let_def if_False)
    then have "last (split_runs p s) = last (split_runs p ?rest)" by (simp only: last_ConsR [OF split_runs_nonempty])
    ultimately show ?thesis using 1 [OF refl refl False] by (simp only:)
  qed
qed

lemma split_runs_last: "list_all (\<lambda>c. \<not> p c) w \<Longrightarrow> p c \<Longrightarrow> last (split_runs p (u @ c # w)) = w"
  by (simp add: last_split_runs takeWhile_append list_all_iff)

end
