(* ===== verification/Aggregator_Core.thy ===== *)
theory Aggregator_Core
  imports Nodata_Core Go_Regexp
begin

text \<open>
  The aggregator (\<open>modules/aggregator\<close>): it computes a series of a cluster from the series of its
  hosts, \<open>numerator / denominator\<close>, each an expression over counters, a number, or \<open>$#\<close>, the
  number of hosts that reported. What the HTTP API answers is an argument. Pushed points go
  to the queue of \<open>common/sdk/sender\<close>, whose front is the head of the list.
\<close>

section \<open>Cluster items\<close>

record cluster =
  cl_Id :: int
  cl_GroupId :: int
  cl_Numerator :: string
  cl_Denominator :: string
  cl_Endpoint :: string
  cl_Metric :: string
  cl_Tags :: string
  cl_DsType :: string
  cl_Step :: int
  cl_LastUpdate :: string

text \<open>
  The query for the configured range of identifiers, where \<open>-1\<close> is no bound; a range that is not a
  pair ends the process (\<open>log.Fatalln\<close>), \<open>None\<close>. What the database answers is an argument, with
  the time of a row's last update as it prints.
\<close>

definition cluster_sql :: "int list \<Rightarrow> string option" where
  "cluster_sql ids =
    (case ids of
       [lo, hi] \<Rightarrow>
         let sql = ''SELECT `id`, `grp_id`, `numerator`, `denominator`, `endpoint`, `metric`, `tags`, `ds_type`, `step`, `last_update` FROM `cluster`''
         in Some
           (if lo \<noteq> -1 \<and> hi \<noteq> -1 then sql @ '' WHERE `id` >= '' @ itoa lo @ '' and `id` <= '' @ itoa hi
            else let sql' = if lo \<noteq> -1 then sql @ '' WHERE `id` >= '' @ itoa lo else sql
                 in if hi \<noteq> -1 then sql' @ '' WHERE `id` <= '' @ itoa hi else sql')
     | _ \<Rightarrow> None)"

definition ReadClusterMonitorItems ::
    "(string \<Rightarrow> cluster rows) \<Rightarrow> int list \<Rightarrow> (string + (string, cluster) gomap) option" where
  "ReadClusterMonitorItems query ids = do {
    sql \<leftarrow> cluster_sql ids;
    Some (case query sql of Inl err \<Rightarrow> Inl err
      | Inr rs \<Rightarrow> Inr (foldl (\<lambda>M c. gput (itoa (cl_Id c) @ cl_LastUpdate c) c M) [] (scanned rs)))
  }"

text \<open>The workers that run, by key.\<close>

type_synonym workers = "(string, cluster) gomap"

definition deleteNoUseWorker :: "(string, cluster) gomap \<Rightarrow> workers \<Rightarrow> workers" where
  "deleteNoUseWorker m W =
    (let del = filter (\<lambda>key. gget m key = None) (map fst W) in foldl (\<lambda>W key. gdel key W) W del)"

definition createWorker :: "workers \<Rightarrow> string \<times> cluster \<Rightarrow> workers" where
  "createWorker W kv =
    (case gget W (fst kv) of
       Some w \<Rightarrow> W
     | None \<Rightarrow> if cl_Step (snd kv) \<le> 0 then W else gput (fst kv) (snd kv) W)"

definition createWorkerIfNeed :: "(string, cluster) gomap \<Rightarrow> workers \<Rightarrow> workers" where
  "createWorkerIfNeed m W = foldl createWorker W m"

definition updateItems :: "(string \<Rightarrow> cluster rows) \<Rightarrow> int list \<Rightarrow> workers \<Rightarrow> workers option" where
  "updateItems query ids W =
    map_option (\<lambda>r. case r of
       Inl err \<Rightarrow> W
     | Inr items \<Rightarrow> createWorkerIfNeed items (deleteNoUseWorker items W)) (ReadClusterMonitorItems query ids)"

section \<open>Expressions\<close>

definition cleanParam :: "string \<Rightarrow> string" where
  "cleanParam val =
    go_remove (char_of (9 :: nat)) (go_remove (char_of (10 :: nat)) (go_remove (char_of (13 :: nat))
      (go_remove (CHR '' '') (go_trim_space val))))"

definition needCompute :: "string \<Rightarrow> bool" where
  "needCompute val = go_contains val ''$(''"

text \<open>The full-width parentheses are U+FF08 and U+FF09.\<close>

definition wide_paren :: "nat \<Rightarrow> string" where
  "wide_paren n = map char_of [239, 188, 128 + n]"

definition is_paren :: "char \<Rightarrow> bool" where
  "is_paren c \<longleftrightarrow> c = CHR ''('' \<or> c = CHR '')''"

definition is_sep :: "char \<Rightarrow> bool" where
  "is_sep c \<longleftrightarrow> c = CHR ''$'' \<or> is_paren c"

definition rx_counter :: rx where
  "rx_counter = RSeq (RLit ''$('') (RSeq (RPlus (RChar (\<lambda>c. \<not> is_paren c))) (RLit '')''))"

definition rx_sum :: rx where
  "rx_sum = RSeq (RStar (RSeq rx_counter (RChar (\<lambda>c. c = CHR ''+'' \<or> c = CHR ''-'')))) rx_counter"

definition rx_compare :: rx where
  "rx_compare = RAlt (RLit ''>'') (RAlt (RLit ''='') (RAlt (RLit ''<'') (RAlt (RLit ''>='') (RLit ''<=''))))"

definition rx_number :: rx where
  "rx_number = RSeq (RPlus (RChar is_digit)) (ROpt (RSeq (RLit ''.'') (RPlus (RChar is_digit))))"

definition matchMode1 :: rx where
  "matchMode1 = RSeq rx_counter (RSeq rx_compare rx_number)"

definition matchMode2 :: rx where
  "matchMode2 = RSeq (RLit ''('') (RSeq rx_sum (RSeq (RLit '')'') (RSeq rx_compare rx_number)))"

definition expressionValid :: "string \<Rightarrow> bool" where
  "expressionValid val =
    (if go_contains val (wide_paren 8) \<or> go_contains val (wide_paren 9) then False
     else if val = ''$#'' then True
     else rx_match rx_sum val \<or> rx_match matchMode1 val \<or> rx_match matchMode2 val \<or> rx_match (RPlus (RChar is_digit)) val)"

definition operatorsValid :: "string list \<Rightarrow> bool" where
  "operatorsValid ops = list_all (\<lambda>p. p = ''+'' \<or> p = ''-'') ops"

text \<open>Operands at the even places, operators at the odd ones.\<close>

fun alternate :: "'a list \<Rightarrow> 'a list \<times> 'a list" where
  "alternate [] = ([], [])"
| "alternate [x] = ([x], [])"
| "alternate (x # y # r) = (let (xs, ys) = alternate r in (x # xs, y # ys))"

definition agg_parse :: "string \<Rightarrow> bool \<Rightarrow> (string list \<times> string list \<times> string) option" where
  "agg_parse expression need =
    (if \<not> need then Some ([], [], '''')
     else do {
       let items = split_runs is_sep expression;
       let count = int (length items);
       mid \<leftarrow> go_slice items 1 (count - 1);
       mode \<leftarrow> go_nth items (count - 1);
       let (operands, operators) = alternate mid;
       Some (operands, operators, mode)
     })"

section \<open>Values\<close>

definition queryOperands :: "string list \<Rightarrow> string \<Rightarrow> (string, float64) gomap \<Rightarrow> float64 list" where
  "queryOperands counters endpoint valMap = List.map_filter (\<lambda>counter. gget valMap (endpoint @ counter)) counters"

text \<open>
  \<open>FindStringSubmatch\<close> for \<open>([><=]+)([\d\.]+)\<close>: the first run of comparison signs that a digit or
  a point follows.
\<close>

definition is_cmp :: "char \<Rightarrow> bool" where
  "is_cmp c \<longleftrightarrow> c = CHR ''>'' \<or> c = CHR ''<'' \<or> c = CHR ''=''"

definition is_num_char :: "char \<Rightarrow> bool" where
  "is_num_char c \<longleftrightarrow> is_digit c \<or> c = CHR ''.''"

function find_compare :: "string \<Rightarrow> (string \<times> string) option" where
  "find_compare s =
    (let s' = dropWhile (\<lambda>c. \<not> is_cmp c) s;
         mode = takeWhile is_cmp s';
         num = takeWhile is_num_char (dropWhile is_cmp s')
     in if s' = [] then None else if num \<noteq> [] then Some (mode, num) else find_compare (dropWhile is_cmp s'))"
  by pat_completeness auto
termination
proof (relation "measure length")
  fix s s' mode num
  assume s': "s' = dropWhile (\<lambda>c. \<not> is_cmp c) s" "s' \<noteq> []"
  then have "is_cmp (hd s')" using hd_dropWhile [of "\<lambda>c. \<not> is_cmp c" s] by simp
  then have "length (dropWhile is_cmp s') < length s'" using s'(2)
    by (cases s') (auto simp: le_imp_less_Suc length_dropWhile_le)
  also have "\<dots> \<le> length s" unfolding s'(1) by (rule length_dropWhile_le)
  finally show "(dropWhile is_cmp s', s) \<in> measure length" by simp
qed simp

declare find_compare.simps [simp del]

text \<open>The error of \<open>ParseFloat\<close> is ignored: a syntax error reads as 0, an overflow as infinity.\<close>

definition compareSum :: "float64 \<Rightarrow> string \<Rightarrow> bool option" where
  "compareSum acc computeMode = do {
    (mode, num) \<leftarrow> find_compare computeMode;
    let val = (case parse_float num of Inr v \<Rightarrow> v | Inl ErrSyntax \<Rightarrow> f_zero | Inl ErrRange \<Rightarrow> Inf False);
    Some (mode = ''>'' \<and> f_lt val acc \<or> mode = ''<'' \<and> f_lt acc val \<or> mode = ''='' \<and> f_eq acc val \<or>
      mode = ''>='' \<and> f_le val acc \<or> mode = ''<='' \<and> f_le acc val)
  }"

fun apply_ops :: "float64 \<Rightarrow> float64 list \<Rightarrow> string list \<Rightarrow> float64 option" where
  "apply_ops acc [] ops = Some acc"
| "apply_ops acc (v # vs) [] = None"
| "apply_ops acc (v # vs) (p # ops) = apply_ops (if p = ''+'' then f_add acc v else f_sub acc v) vs ops"

definition agg_compute ::
    "string list \<Rightarrow> string list \<Rightarrow> string \<Rightarrow> string \<Rightarrow> (string, float64) gomap \<Rightarrow> (string + float64) option" where
  "agg_compute operands operators computeMode hostname valMap =
    (if operands = [] then Some (Inl ''counter not found'')
     else
       let vals = queryOperands operands hostname valMap in
       if length vals \<noteq> length operands then Some (Inl ''value invalid'')
       else do {
         v0 \<leftarrow> go_nth vals 0;
         acc \<leftarrow> apply_ops v0 (tl vals) operators;
         (if computeMode \<noteq> '''' then do {
            b \<leftarrow> compareSum acc computeMode;
            Some (Inr (if b then f_of_int 1 else f_zero))
          } else Some (Inr acc))
       })"

text \<open>
  \<open>res.Value\<close> is read without a check for nil, so an answer without a value panics (\<open>nodata\<close>
  checks it).
\<close>

definition query_last_step ::
    "int64 \<Rightarrow> int64 \<Rightarrow> (string, float64) gomap \<Rightarrow> graph_last_resp option \<Rightarrow> (string, float64) gomap option" where
  "query_last_step begin_ts end_ts ret res = do {
    r \<leftarrow> res;
    v \<leftarrow> gl_Value r;
    Some (if rd_Timestamp v < begin_ts \<or> end_ts < rd_Timestamp v then ret
      else gput (gl_Endpoint r @ gl_Counter r) (rd_Value v) ret)
  }"

definition QueryLastPoints ::
    "(last_param list \<Rightarrow> string + graph_last_resp option list) \<Rightarrow> string list \<Rightarrow> string list
      \<Rightarrow> string + graph_last_resp option list" where
  "QueryLastPoints post endpoints counters =
    post (concat (map (\<lambda>e. map (\<lambda>c. (e, c)) counters) endpoints))"

definition queryCounterLast ::
    "(last_param list \<Rightarrow> string + graph_last_resp option list) \<Rightarrow> string list \<Rightarrow> string list \<Rightarrow> string list
      \<Rightarrow> int64 \<Rightarrow> int64 \<Rightarrow> (string + (string, float64) gomap) option" where
  "queryCounterLast post numeratorOperands denominatorOperands hostnames begin_ts end_ts =
    (case QueryLastPoints post hostnames (numeratorOperands @ denominatorOperands) of
       Inl err \<Rightarrow> Some (Inl err)
     | Inr resp \<Rightarrow> map_option Inr (foldM (query_last_step begin_ts end_ts) [] resp))"

section \<open>A round of a worker\<close>

definition MakeMetaData :: "int64 \<Rightarrow> string \<Rightarrow> string \<Rightarrow> string \<Rightarrow> float64 \<Rightarrow> string \<Rightarrow> int64 list \<Rightarrow> json_meta" where
  "MakeMetaData now endpoint metric tags val counterType step_and_ts =
    (let md = \<lparr>jm_Metric = metric, jm_Endpoint = endpoint, jm_Timestamp = 0, jm_Step = 0, jm_Value = val,
         jm_CounterType = counterType, jm_Tags = tags\<rparr> in
     case step_and_ts of
       [] \<Rightarrow> md\<lparr>jm_Step := 60, jm_Timestamp := now\<rparr>
     | [step] \<Rightarrow> md\<lparr>jm_Step := step, jm_Timestamp := now\<rparr>
     | [step, ts] \<Rightarrow> md\<lparr>jm_Step := step, jm_Timestamp := ts\<rparr>
     | _ \<Rightarrow> md)"

definition sender_Push ::
    "int64 \<Rightarrow> string \<Rightarrow> string \<Rightarrow> string \<Rightarrow> float64 \<Rightarrow> string \<Rightarrow> int64 list \<Rightarrow> json_meta list \<Rightarrow> json_meta list" where
  "sender_Push now endpoint metric tags val counterType step_and_ts queue =
    MakeMetaData now endpoint metric tags val counterType step_and_ts # queue"

text \<open>What is summed over the hosts: numerator, denominator and the number of hosts that counted.\<close>

definition host_value ::
    "bool \<Rightarrow> string list \<times> string list \<times> string \<Rightarrow> string \<Rightarrow> (string, float64) gomap \<Rightarrow> (string + float64) option" where
  "host_value need parsed hostname valMap =
    (case parsed of (operands, operators, mode) \<Rightarrow>
      if need then agg_compute operands operators mode hostname valMap else Some (Inr f_zero))"

definition host_step ::
    "bool \<Rightarrow> string list \<times> string list \<times> string \<Rightarrow> bool \<Rightarrow> string list \<times> string list \<times> string
      \<Rightarrow> (string, float64) gomap \<Rightarrow> float64 \<times> float64 \<times> int \<Rightarrow> string \<Rightarrow> (float64 \<times> float64 \<times> int) option" where
  "host_step needN parsedN needD parsedD valMap acc hostname =
    (case acc of (numerator, denominator, validCount) \<Rightarrow> do {
      n \<leftarrow> host_value needN parsedN hostname valMap;
      (case n of Inl err \<Rightarrow> Some acc
       | Inr numeratorVal \<Rightarrow> do {
           d \<leftarrow> host_value needD parsedD hostname valMap;
           Some (case d of Inl err \<Rightarrow> acc
             | Inr denominatorVal \<Rightarrow>
                 (f_add numerator numeratorVal, f_add denominator denominatorVal, validCount + 1))
         })
    })"

text \<open>A side of the fraction that is not computed from counters: \<open>$#\<close> or a number.\<close>

definition constant_side :: "bool \<Rightarrow> string \<Rightarrow> float64 \<Rightarrow> int \<Rightarrow> num_error + float64" where
  "constant_side need str v validCount =
    (if need then Inr v
     else if str = ''$#'' then Inr (f_of_int validCount)
     else parse_float str)"

definition WorkerRun ::
    "(int \<Rightarrow> string + string list) \<Rightarrow> (last_param list \<Rightarrow> string + graph_last_resp option list) \<Rightarrow> int64 \<Rightarrow> int64
      \<Rightarrow> cluster \<Rightarrow> json_meta list \<Rightarrow> json_meta list option" where
  "WorkerRun hostnamesByID post now now' item queue =
    (let numeratorStr = cleanParam (cl_Numerator item);
         denominatorStr = cleanParam (cl_Denominator item);
         needN = needCompute numeratorStr;
         needD = needCompute denominatorStr in
     if \<not> expressionValid numeratorStr \<or> \<not> expressionValid denominatorStr then Some queue
     else if \<not> needN \<and> \<not> needD then Some queue
     else do {
       parsedN \<leftarrow> agg_parse numeratorStr needN;
       parsedD \<leftarrow> agg_parse denominatorStr needD;
       (if \<not> operatorsValid (fst (snd parsedN)) \<or> \<not> operatorsValid (fst (snd parsedD)) then Some queue
        else case hostnamesByID (cl_GroupId item) of
          Inl err \<Rightarrow> Some queue
        | Inr hostnames \<Rightarrow>
          if hostnames = [] then Some queue
          else do {
            q \<leftarrow> queryCounterLast post (fst parsedN) (fst parsedD) hostnames (i64 (now - i64 (cl_Step item * 2))) now;
            (case q of
               Inl err \<Rightarrow> Some queue
             | Inr valMap \<Rightarrow> do {
                 (n, d, validCount) \<leftarrow> foldM (host_step needN parsedN needD parsedD valMap) (f_zero, f_zero, 0) hostnames;
                 Some (case (constant_side needN numeratorStr n validCount, constant_side needD denominatorStr d validCount) of
                   (Inr numerator, Inr denominator) \<Rightarrow>
                     if f_eq denominator f_zero then queue
                     else if validCount = 0 then queue
                     else sender_Push now' (cl_Endpoint item) (cl_Metric item) (cl_Tags item)
                       (f_div numerator denominator) (cl_DsType item) [cl_Step item] queue
                 | _ \<Rightarrow> queue)
               })
          })
     })"

section \<open>Sending\<close>

definition SDK_LIMIT :: int where "SDK_LIMIT = 200"

fun pop_back_loop :: "nat \<Rightarrow> 'a list \<Rightarrow> 'a list \<Rightarrow> 'a list \<times> 'a list" where
  "pop_back_loop 0 ret L = (ret, L)"
| "pop_back_loop (Suc n) ret L = pop_back_loop n (ret @ [last L]) (butlast L)"

definition sdk_PopBack :: "int \<Rightarrow> 'a list \<Rightarrow> 'a list \<times> 'a list" where
  "sdk_PopBack limit L =
    (let sz = int (length L) in
     if sz = 0 then ([], L)
     else pop_back_loop (nat (if sz < limit then sz else limit)) [] L)"

text \<open>One turn of the sending loop; a batch that cannot be encoded or posted is lost.\<close>

definition startSender_round :: "(json_meta list \<Rightarrow> bool) \<Rightarrow> json_meta list \<Rightarrow> json_meta list \<times> json_meta list" where
  "startSender_round post queue =
    (let (L, queue') = sdk_PopBack SDK_LIMIT queue
     in (queue', if L \<noteq> [] \<and> list_all (\<lambda>m. is_fin (jm_Value m)) L \<and> post L then L else []))"

end
