(* ===== verification/Aggregator_Flow.thy ===== *)
theory Aggregator_Flow
  imports Aggregator_Core
begin

text \<open>
  What the aggregator guarantees: an expression evaluates to what its text says, a worker never
  panics on any configured text, and the workers that run are those of the configuration.
\<close>

section \<open>The text of an expression\<close>

fun chain_text :: "string \<Rightarrow> (string \<times> string) list \<Rightarrow> string \<Rightarrow> string" where
  "chain_text c [] e = c @ e"
| "chain_text c ((p, c') # r) e = c @ '')'' @ p @ ''$('' @ chain_text c' r e"

definition sum_text :: "string \<Rightarrow> (string \<times> string) list \<Rightarrow> string" where
  "sum_text c r = ''$('' @ chain_text c r '')''"

definition compare_text :: "string \<Rightarrow> (string \<times> string) list \<Rightarrow> string \<Rightarrow> string" where
  "compare_text c r w = ''('' @ ''$('' @ chain_text c r (''))'' @ w)"

definition counter_ok :: "string \<Rightarrow> bool" where
  "counter_ok c \<longleftrightarrow> c \<noteq> [] \<and> list_all (\<lambda>x. \<not> is_sep x \<and> x \<noteq> char_of (239 :: nat)) c"

definition sum_ok :: "string \<Rightarrow> (string \<times> string) list \<Rightarrow> bool" where
  "sum_ok c r \<longleftrightarrow> counter_ok c \<and> list_all (\<lambda>(p, c). (p = ''+'' \<or> p = ''-'') \<and> counter_ok c) r"

definition mode_ok :: "string \<Rightarrow> bool" where
  "mode_ok w \<longleftrightarrow> w \<in> lang (RSeq rx_compare rx_number)"

definition pieces :: "(string \<times> string) list \<Rightarrow> string list" where
  "pieces r = concat (map (\<lambda>(p, c). [p, c]) r)"

lemma counter_clean: "counter_ok c \<Longrightarrow> list_all (\<lambda>x. \<not> is_sep x) c"
  by (auto simp: counter_ok_def list_all_iff)

lemma counter_hd: "counter_ok c \<Longrightarrow> c \<noteq> [] \<and> \<not> is_sep (hd c)"
  by (cases c) (auto simp: counter_ok_def)

lemma chain_hd: "sum_ok c r \<Longrightarrow> chain_text c r e \<noteq> [] \<and> \<not> is_sep (hd (chain_text c r e))"
  using counter_hd [of c] by (cases r) (auto simp: sum_ok_def)

lemma sep_texts [simp]: "list_all is_sep ''$(''" "list_all is_sep '')''" "list_all is_sep ''))''" "list_all is_sep ''($(''"
  by (simp_all add: is_sep_def is_paren_def)

lemma split_chain:
  assumes "sum_ok c r" "list_all is_sep cl" "cl \<noteq> []" "list_all (\<lambda>x. \<not> is_sep x) w"
  shows "split_runs is_sep (chain_text c r (cl @ w)) = c # pieces r @ [w]"
  using assms(1)
proof (induction r arbitrary: c)
  case Nil
  have "w = [] \<or> \<not> is_sep (hd w)" using assms(4) by (cases w) auto
  moreover have "list_all (\<lambda>x. \<not> is_sep x) c" using Nil counter_clean by (simp add: sum_ok_def)
  ultimately have "split_runs is_sep (c @ cl @ w) = c # split_runs is_sep w"
    using split_runs_step assms(2,3) by blast
  then show ?case by (simp add: pieces_def split_runs_clean [OF assms(4)])
next
  case (Cons pc r)
  obtain p c' where pc: "pc = (p, c')" by (cases pc)
  have ok: "counter_ok c" "sum_ok c' r" "p = ''+'' \<or> p = ''-''" using Cons.prems by (auto simp: sum_ok_def pc)
  let ?t = "chain_text c' r (cl @ w)"
  have p: "list_all (\<lambda>x. \<not> is_sep x) p" "p @ ''$('' @ ?t = [] \<or> \<not> is_sep (hd (p @ ''$('' @ ?t))"
    using ok(3) by (auto simp: is_sep_def is_paren_def)
  have "split_runs is_sep (c @ '')'' @ p @ ''$('' @ ?t) = c # split_runs is_sep (p @ ''$('' @ ?t)"
    by (rule split_runs_step [OF counter_clean [OF ok(1)] _ _ p(2)]) (simp_all add: is_sep_def is_paren_def)
  also have "split_runs is_sep (p @ ''$('' @ ?t) = p # split_runs is_sep ?t"
    using chain_hd [OF ok(2)] by (intro split_runs_step [OF p(1)]) (auto simp: is_sep_def is_paren_def)
  finally show ?case using Cons.IH [OF ok(2)] by (simp add: pc pieces_def)
qed

lemma alternate_pieces: "alternate (c # pieces r) = (c # map snd r, map fst r)"
proof (induction r arbitrary: c)
  case (Cons pc r)
  obtain p c' where "pc = (p, c')" by (cases pc)
  then show ?case using Cons by (simp add: pieces_def)
qed (simp add: pieces_def)

lemma agg_parse_items:
  assumes "split_runs is_sep s = [] # xs @ [w]"
  shows "agg_parse s True = (let (operands, operators) = alternate xs in Some (operands, operators, w))"
proof -
  have "go_slice ([] # xs @ [w]) 1 (1 + int (length xs)) = Some xs"
    using go_slice_middle [of 1 "[[]]" "1 + int (length xs)" xs "[w]"] by simp
  moreover have "go_nth ([] # xs @ [w]) (1 + int (length xs)) = Some w"
    by (simp add: go_nth_def nth_append nat_add_distrib)
  ultimately show ?thesis by (simp add: agg_parse_def assms Let_def)
qed

lemma split_lead:
  assumes "list_all is_sep lead" "lead \<noteq> []" "sum_ok c r" "list_all is_sep cl" "cl \<noteq> []" "list_all (\<lambda>x. \<not> is_sep x) w"
  shows "split_runs is_sep (lead @ chain_text c r (cl @ w)) = [] # (c # pieces r) @ [w]"
proof -
  have "split_runs is_sep ([] @ lead @ chain_text c r (cl @ w)) = [] # split_runs is_sep (chain_text c r (cl @ w))"
    using chain_hd [OF assms(3)] assms(1,2) by (intro split_runs_step) auto
  then show ?thesis using split_chain [OF assms(3-6)] by simp
qed

lemma mode_clean: "mode_ok w \<Longrightarrow> list_all (\<lambda>x. \<not> is_sep x) w"
proof -
  have d: "list_all (\<lambda>x. \<not> is_sep x) u" if "u \<in> lang (RPlus (RChar is_digit))" for u
    using that by (auto simp: lang_plus_chars list_all_iff is_digit_def is_sep_def is_paren_def digit_val_def)
  assume "mode_ok w"
  then obtain a b where w: "w = a @ b" "a \<in> lang rx_compare" "b \<in> lang rx_number" by (auto simp: mode_ok_def)
  have "list_all (\<lambda>x. \<not> is_sep x) a" using w(2) by (auto simp: rx_compare_def is_sep_def is_paren_def)
  moreover have "list_all (\<lambda>x. \<not> is_sep x) b"
  proof -
    from w(3) obtain i f where b: "b = i @ f" "i \<in> lang (RPlus (RChar is_digit))"
        "f = [] \<or> (\<exists>g. f = ''.'' @ g \<and> g \<in> lang (RPlus (RChar is_digit)))"
      by (auto simp: rx_number_def)
    from b(3) d have "list_all (\<lambda>x. \<not> is_sep x) f" by (elim disjE exE conjE) (simp_all add: is_sep_def is_paren_def)
    with d [OF b(2)] show ?thesis by (simp add: b(1))
  qed
  ultimately show ?thesis by (simp add: w(1))
qed

lemma agg_parse_texts:
  assumes "sum_ok c r"
  shows "agg_parse (sum_text c r) True = Some (c # map snd r, map fst r, '''')"
    and "mode_ok w \<Longrightarrow> agg_parse (compare_text c r w) True = Some (c # map snd r, map fst r, w)"
proof -
  have "split_runs is_sep (''$('' @ chain_text c r ('')'' @ [])) = [] # (c # pieces r) @ [[]]"
    by (rule split_lead [OF _ _ assms]) (simp_all add: is_sep_def is_paren_def)
  from agg_parse_items [OF this] show "agg_parse (sum_text c r) True = Some (c # map snd r, map fst r, '''')"
    by (simp add: sum_text_def alternate_pieces)
  assume w: "mode_ok w"
  have "split_runs is_sep (''($('' @ chain_text c r (''))'' @ w)) = [] # (c # pieces r) @ [w]"
    by (rule split_lead [OF _ _ assms _ _ mode_clean [OF w]]) (simp_all add: is_sep_def is_paren_def)
  from agg_parse_items [OF this] show "agg_parse (compare_text c r w) True = Some (c # map snd r, map fst r, w)"
    by (simp add: compare_text_def alternate_pieces)
qed

section \<open>Valid texts\<close>

lemma counter_lang: "counter_ok c \<Longrightarrow> ''$('' @ c @ '')'' \<in> lang rx_counter"
proof -
  assume "counter_ok c"
  then have "c \<in> lang (RPlus (RChar (\<lambda>c. \<not> is_paren c)))"
    by (auto simp: lang_plus_chars counter_ok_def list_all_iff is_sep_def)
  then show ?thesis unfolding rx_counter_def lang.simps lang_RLit by blast
qed

lemma sum_lang: "sum_ok c r \<Longrightarrow> ''$('' @ chain_text c r '')'' \<in> lang rx_sum"
proof (induction r arbitrary: c)
  case Nil
  then have "[] @ (''$('' @ c @ '')'') \<in> lang rx_sum"
    using counter_lang [of c] star_Nil unfolding rx_sum_def lang.simps sum_ok_def by blast
  then show ?case by simp
next
  case (Cons pc r)
  obtain p c' where pc: "pc = (p, c')" by (cases pc)
  have ok: "counter_ok c" "sum_ok c' r" "p = ''+'' \<or> p = ''-''" using Cons.prems by (auto simp: sum_ok_def pc)
  from Cons.IH [OF ok(2)] obtain u v where uv: "''$('' @ chain_text c' r '')'' = u @ v"
      "u \<in> star (lang (RSeq rx_counter (RChar (\<lambda>c. c = CHR ''+'' \<or> c = CHR ''-''))))" "v \<in> lang rx_counter"
    unfolding rx_sum_def lang.simps by blast
  have "(''$('' @ c @ '')'') @ p \<in> lang (RSeq rx_counter (RChar (\<lambda>c. c = CHR ''+'' \<or> c = CHR ''-'')))"
    using counter_lang [OF ok(1)] ok(3) unfolding lang.simps by blast
  from star_append [OF this uv(2)] uv(3) have "(((''$('' @ c @ '')'') @ p) @ u) @ v \<in> lang rx_sum"
    unfolding rx_sum_def lang.simps by blast
  moreover have "((''$('' @ c @ '')'') @ p) @ u @ v = ''$('' @ chain_text c (pc # r) '')''"
    by (simp add: pc flip: uv(1))
  ultimately show ?case by simp
qed

lemma contains_char: "go_contains s sub \<Longrightarrow> sub \<noteq> [] \<Longrightarrow> hd sub \<in> set s"
proof -
  assume "go_contains s sub" "sub \<noteq> []"
  then obtain i where "take (length sub) (drop i s) = sub" by (auto simp: go_contains_def list_ex_iff)
  then have "set sub \<subseteq> set s" using set_take_subset [of "length sub" "drop i s"] set_drop_subset [of i s] by auto
  then show "hd sub \<in> set s" using \<open>sub \<noteq> []\<close> by auto
qed

lemma no_wide: "char_of (239 :: nat) \<notin> set s \<Longrightarrow> \<not> go_contains s (wide_paren n)"
  using contains_char [of s "wide_paren n"] by (auto simp: wide_paren_def)

lemma char_239: "CHR ''$'' \<noteq> char_of (239 :: nat)" "CHR ''('' \<noteq> char_of (239 :: nat)" "CHR '')'' \<noteq> char_of (239 :: nat)"
    "CHR ''+'' \<noteq> char_of (239 :: nat)" "CHR ''-'' \<noteq> char_of (239 :: nat)" "\<not> is_digit (char_of (239 :: nat))"
    "CHR ''.'' \<noteq> char_of (239 :: nat)" "CHR ''<'' \<noteq> char_of (239 :: nat)" "CHR ''>'' \<noteq> char_of (239 :: nat)"
    "CHR ''='' \<noteq> char_of (239 :: nat)"
  by (code_simp)+

lemma chain_wide:
  "sum_ok c r \<Longrightarrow> char_of (239 :: nat) \<notin> set e \<Longrightarrow> char_of (239 :: nat) \<notin> set (chain_text c r e)"
proof (induction r arbitrary: c)
  case Nil
  then show ?case by (auto simp: sum_ok_def counter_ok_def list_all_iff)
next
  case (Cons pc r)
  obtain p c' where pc: "pc = (p, c')" by (cases pc)
  have ok: "counter_ok c" "sum_ok c' r" "p = ''+'' \<or> p = ''-''" using Cons.prems by (auto simp: sum_ok_def pc)
  have "char_of (239 :: nat) \<notin> set c" using ok(1) by (auto simp: counter_ok_def list_all_iff)
  moreover have "char_of (239 :: nat) \<notin> set p" using ok(3) char_239(4,5) by auto
  ultimately show ?case using Cons.IH [OF ok(2) Cons.prems(2)] char_239(1-3) by (auto simp: pc)
qed

lemma mode_wide: "mode_ok w \<Longrightarrow> char_of (239 :: nat) \<notin> set w"
proof -
  have d: "char_of (239 :: nat) \<notin> set u" if "u \<in> lang (RPlus (RChar is_digit))" for u
    using that char_239(6) by (auto simp: lang_plus_chars list_all_iff)
  assume "mode_ok w"
  then obtain a b where w: "w = a @ b" "a \<in> lang rx_compare" "b \<in> lang rx_number" by (auto simp: mode_ok_def)
  have a: "char_of (239 :: nat) \<notin> set a" using w(2) char_239(8-10) by (auto simp: rx_compare_def)
  from w(3) obtain i f where b: "b = i @ f" "i \<in> lang (RPlus (RChar is_digit))"
      "f = [] \<or> (\<exists>g. f = ''.'' @ g \<and> g \<in> lang (RPlus (RChar is_digit)))"
    by (auto simp: rx_number_def)
  from b(3) d char_239(7) have "char_of (239 :: nat) \<notin> set f" by auto
  with a d [OF b(2)] show ?thesis by (simp add: w(1) b(1))
qed

lemma sum_valid: "sum_ok c r \<Longrightarrow> expressionValid (sum_text c r)"
proof -
  assume ok: "sum_ok c r"
  have "char_of (239 :: nat) \<notin> set (sum_text c r)"
    using chain_wide [OF ok, of "'')''"] char_239(1-3) by (auto simp: sum_text_def)
  then show ?thesis using sum_lang [OF ok]
    by (simp add: expressionValid_def no_wide rx_match_lang sum_text_def)
qed

lemma chain_text_append: "chain_text c r (e @ w) = chain_text c r e @ w"
  by (induction c r e rule: chain_text.induct) auto

lemma compare_valid: "sum_ok c r \<Longrightarrow> mode_ok w \<Longrightarrow> expressionValid (compare_text c r w)"
proof -
  assume ok: "sum_ok c r" and w: "mode_ok w"
  have n: "char_of (239 :: nat) \<notin> set (compare_text c r w)"
    using chain_wide [OF ok, of "''))'' @ w"] mode_wide [OF w] char_239(1-3) by (auto simp: compare_text_def)
  let ?s = "''$('' @ chain_text c r '')''"
  from w obtain a b where ab: "w = a @ b" "a \<in> lang rx_compare" "b \<in> lang rx_number" by (auto simp: mode_ok_def)
  have e: "compare_text c r w = ''('' @ (?s @ ('')'' @ (a @ b)))"
    using chain_text_append [of c r "'')''" "'')'' @ w"] by (simp add: compare_text_def ab(1))
  have "compare_text c r w \<in> lang matchMode2"
    unfolding matchMode2_def lang.simps lang_RLit e using sum_lang [OF ok] ab(2,3) by blast
  then show ?thesis by (simp add: expressionValid_def no_wide [OF n] rx_match_lang)
qed

section \<open>Its value\<close>

lemma find_compare_mode:
  assumes "a \<in> lang rx_compare" "b \<in> lang rx_number"
  shows "find_compare (a @ b) = Some (a, b)"
proof -
  have a: "a \<noteq> []" "list_all is_cmp a" using assms(1) by (auto simp: rx_compare_def is_cmp_def)
  have d: "u \<noteq> [] \<and> list_all is_digit u \<and> list_all is_num_char u" if "u \<in> lang (RPlus (RChar is_digit))" for u
    using that by (auto simp: lang_plus_chars is_num_char_def list_all_iff)
  from assms(2) obtain i f where f: "b = i @ f" "i \<in> lang (RPlus (RChar is_digit))"
      "f = [] \<or> (\<exists>g. f = ''.'' @ g \<and> g \<in> lang (RPlus (RChar is_digit)))"
    by (auto simp: rx_number_def)
  from f(3) d have "list_all is_num_char f" by (elim disjE exE conjE) (simp_all add: is_num_char_def)
  with f(1) d [OF f(2)] have b: "b = i @ f" "i \<noteq> []" "list_all is_digit i" "list_all is_num_char f" by simp_all
  then have n: "list_all is_num_char b" "b \<noteq> []" by (auto simp: list_all_iff is_num_char_def)
  have "\<not> is_cmp (hd b)" using b by (cases i) (auto simp: is_cmp_def is_digit_def digit_val_def)
  with n(2) have "takeWhile is_cmp b = []" "dropWhile is_cmp b = b" by (cases b; simp)+
  moreover have "dropWhile (\<lambda>c. \<not> is_cmp c) (a @ b) = a @ b" using a by (cases a) auto
  moreover have tk: "takeWhile is_num_char b = b" using n(1) by (simp add: list_all_iff takeWhile_eq_all_conv)
  ultimately show ?thesis using a n(2)
    by (subst find_compare.simps) (simp add: list_all_iff Let_def takeWhile_append dropWhile_append tk)
qed

fun signed_sum :: "float64 \<Rightarrow> (string \<times> float64) list \<Rightarrow> float64" where
  "signed_sum acc [] = acc"
| "signed_sum acc ((p, v) # r) = signed_sum (if p = ''+'' then f_add acc v else f_sub acc v) r"

lemma apply_ops_signed: "length ps = length vs \<Longrightarrow> apply_ops acc vs ps = Some (signed_sum acc (zip ps vs))"
  by (induction acc vs ps rule: apply_ops.induct) auto

definition host_has :: "(string, float64) gomap \<Rightarrow> string \<Rightarrow> string \<Rightarrow> float64 \<Rightarrow> bool" where
  "host_has V host c v \<longleftrightarrow> gget V (host @ c) = Some v"

lemma queryOperands_all:
  "list_all2 (host_has V host) cs vs \<Longrightarrow> queryOperands cs host V = vs"
  by (induction rule: list_all2_induct) (simp_all add: queryOperands_def host_has_def map_filter_simps)

lemma agg_compute_all:
  assumes "list_all2 (host_has V host) (c # cs) (v # vs)" "length ps = length cs"
  shows "agg_compute (c # cs) ps mode host V =
    (let acc = signed_sum v (zip ps vs)
     in if mode = '''' then Some (Inr acc)
        else map_option (\<lambda>b. Inr (if b then f_of_int 1 else f_zero)) (compareSum acc mode))"
proof -
  have "length vs = length ps" using assms list_all2_lengthD by fastforce
  then have "apply_ops v vs ps = Some (signed_sum v (zip ps vs))" by (intro apply_ops_signed) simp
  moreover have "length cs = length vs" using assms(1) list_all2_lengthD by fastforce
  ultimately show ?thesis
    by (simp add: agg_compute_def queryOperands_all [OF assms(1)] Let_def go_nth_def map_conv_bind_option comp_def)
qed

fun cmp_holds :: "string \<Rightarrow> float64 \<Rightarrow> float64 \<Rightarrow> bool" where
  "cmp_holds p x y = (if p = ''>'' then f_lt y x else if p = ''<'' then f_lt x y else if p = ''='' then f_eq x y
    else if p = ''>='' then f_le y x else p = ''<='' \<and> f_le x y)"

text \<open>
  C14: The expression that the text \<open>$(c)+$(c1)-...\<close> writes is accepted and evaluates, on a host
  that reported all its counters, to the signed sum of their values from the left; in
  \<open>($(c)+...)>=n\<close>, it is 1 if the sum compares as written with the number and 0 otherwise.
\<close>

theorem agg_evaluates:
  assumes "sum_ok c r" "list_all2 (host_has V host) (c # map snd r) (v # vs)"
    "a \<in> lang rx_compare" "b \<in> lang rx_number" "parse_float b = Inr y"
  shows "expressionValid (sum_text c r) \<and> expressionValid (compare_text c r (a @ b))
    \<and> Option.bind (agg_parse (sum_text c r) True) (\<lambda>(xs, ps, m). agg_compute xs ps m host V)
        = Some (Inr (signed_sum v (zip (map fst r) vs)))
    \<and> Option.bind (agg_parse (compare_text c r (a @ b)) True) (\<lambda>(xs, ps, m). agg_compute xs ps m host V)
        = Some (Inr (if cmp_holds a (signed_sum v (zip (map fst r) vs)) y then f_of_int 1 else f_zero))"
proof (intro conjI)
  have w: "mode_ok (a @ b)" using assms(3,4) unfolding mode_ok_def lang.simps by blast
  have a: "a \<noteq> []" "cmp_holds a x y \<longleftrightarrow> a = ''>'' \<and> f_lt y x \<or> a = ''<'' \<and> f_lt x y \<or> a = ''='' \<and> f_eq x y \<or>
      a = ''>='' \<and> f_le y x \<or> a = ''<='' \<and> f_le x y" for x
    using assms(3) by (auto simp: rx_compare_def)
  note parse = agg_parse_texts [OF assms(1)]
  note val = agg_compute_all [OF assms(2), of "map fst r", unfolded length_map, OF refl]
  show "expressionValid (sum_text c r)" by (rule sum_valid [OF assms(1)])
  show "expressionValid (compare_text c r (a @ b))" by (rule compare_valid [OF assms(1) w])
  show "Option.bind (agg_parse (sum_text c r) True) (\<lambda>(xs, ps, m). agg_compute xs ps m host V)
        = Some (Inr (signed_sum v (zip (map fst r) vs)))"
    by (simp add: parse(1) val)
  have "compareSum x (a @ b) = Some (cmp_holds a x y)" for x
    by (simp add: compareSum_def find_compare_mode [OF assms(3,4)] assms(5) a(2) del: cmp_holds.simps)
  then show "Option.bind (agg_parse (compare_text c r (a @ b)) True) (\<lambda>(xs, ps, m). agg_compute xs ps m host V)
        = Some (Inr (if cmp_holds a (signed_sum v (zip (map fst r) vs)) y then f_of_int 1 else f_zero))"
    using a(1) by (simp add: parse(2) [OF w] val del: cmp_holds.simps)
qed

section \<open>No panic\<close>

definition answered :: "string + graph_last_resp option list \<Rightarrow> bool" where
  "answered a = (case a of Inl err \<Rightarrow> True
     | Inr rs \<Rightarrow> list_all (\<lambda>r. case r of None \<Rightarrow> False | Some x \<Rightarrow> gl_Value x \<noteq> None) rs)"

lemma queryCounterLast_returns:
  assumes "\<forall>ps. answered (post ps)"
  shows "\<exists>q. queryCounterLast post ns ds hosts b e = Some q"
proof (cases "QueryLastPoints post hosts (ns @ ds)")
  case (Inr rs)
  have "list_all (\<lambda>r. case r of None \<Rightarrow> False | Some x \<Rightarrow> gl_Value x \<noteq> None) rs \<Longrightarrow>
      \<exists>V'. foldM (query_last_step b e) V rs = Some V'" for V
    by (induction rs arbitrary: V) (auto simp: query_last_step_def split: option.splits)
  moreover have "answered (Inr rs)" using assms Inr unfolding QueryLastPoints_def by metis
  ultimately show ?thesis using Inr by (fastforce simp: queryCounterLast_def answered_def)
qed (simp add: queryCounterLast_def)

text \<open>What parsing gives for a valid text: enough operators, and a mode that compares.\<close>

definition parsed_ok :: "string list \<times> string list \<times> string \<Rightarrow> bool" where
  "parsed_ok x = (case x of (operands, operators, mode) \<Rightarrow>
     length operands \<le> Suc (length operators) \<and> (mode = '''' \<or> find_compare mode \<noteq> None))"

lemma alternate_lengths: "length (fst (alternate xs)) \<le> Suc (length (snd (alternate xs)))"
  by (induction xs rule: alternate.induct) (auto split: prod.splits)

lemma apply_ops_returns: "length vs \<le> length ps \<Longrightarrow> \<exists>y. apply_ops acc vs ps = Some y"
  by (induction acc vs ps rule: apply_ops.induct) auto

lemma agg_compute_returns: "parsed_ok (xs, ps, m) \<Longrightarrow> \<exists>y. agg_compute xs ps m host V = Some y"
proof -
  assume ok: "parsed_ok (xs, ps, m)"
  let ?v = "queryOperands xs host V"
  show ?thesis
  proof (cases "xs = [] \<or> length ?v \<noteq> length xs")
    case True
    then show ?thesis by (auto simp: agg_compute_def Let_def)
  next
    case False
    then obtain v vs where v: "?v = v # vs" by (cases ?v) auto
    with False ok have "length vs \<le> length ps" by (auto simp: parsed_ok_def)
    from apply_ops_returns [OF this] obtain acc where "apply_ops v vs ps = Some acc" by blast
    with False v ok show ?thesis
      by (auto simp: agg_compute_def Let_def go_nth_def compareSum_def parsed_ok_def)
  qed
qed

lemma split_runs_two: "x \<in> set s \<Longrightarrow> p x \<Longrightarrow> \<exists>w ws. split_runs p s = w # ws \<and> ws \<noteq> []"
  by (subst split_runs.simps) (auto simp: Let_def)

lemma counter_end: "s \<in> lang rx_counter \<Longrightarrow> \<exists>u. s = u @ '')''"
  unfolding rx_counter_def lang.simps lang_RLit by (auto simp del: append.simps simp flip: append_assoc)

lemma sum_end: "s \<in> lang rx_sum \<Longrightarrow> \<exists>u. s = u @ '')''"
proof -
  assume "s \<in> lang rx_sum"
  then obtain u v where "s = u @ v" "v \<in> lang rx_counter" unfolding rx_sum_def lang.simps by blast
  with counter_end [of v] show ?thesis by (metis append.assoc)
qed

lemma mode1_end: "s \<in> lang matchMode1 \<Longrightarrow> \<exists>u w. s = u @ '')'' @ w \<and> mode_ok w"
proof -
  assume "s \<in> lang matchMode1"
  then obtain t w where s: "s = t @ w" "t \<in> lang rx_counter" "mode_ok w"
    unfolding matchMode1_def mode_ok_def lang.simps by blast
  with counter_end [of t] show ?thesis by (metis append.assoc)
qed

lemma mode2_end: "s \<in> lang matchMode2 \<Longrightarrow> \<exists>u w. s = u @ '')'' @ w \<and> mode_ok w"
proof -
  assume "s \<in> lang matchMode2"
  then obtain t w where "s = (''('' @ t) @ '')'' @ w" "mode_ok w"
    unfolding matchMode2_def mode_ok_def lang.simps lang_RLit by auto
  then show ?thesis by blast
qed

lemma digit_dollar: "\<not> is_digit CHR ''$''"
  by code_simp

lemma valid_end:
  assumes "expressionValid s" "needCompute s"
  shows "\<exists>u w. s = u @ '')'' @ w \<and> (w = [] \<or> mode_ok w)"
proof -
  have d: "CHR ''$'' \<in> set s" using contains_char [of s "''$(''"] assms(2) by (simp add: needCompute_def)
  have "\<not> needCompute ''$#''" by code_simp
  with assms have "s \<in> lang rx_sum \<or> s \<in> lang matchMode1 \<or> s \<in> lang matchMode2 \<or> s \<in> lang (RPlus (RChar is_digit))"
    by (auto simp: expressionValid_def rx_match_lang split: if_splits)
  moreover have "s \<notin> lang (RPlus (RChar is_digit))"
    using d list_all_iff [of is_digit s] digit_dollar by (auto simp: lang_plus_chars)
  ultimately consider "s \<in> lang rx_sum" | "s \<in> lang matchMode1" | "s \<in> lang matchMode2" by blast
  then show ?thesis
  proof cases
    case 1
    then show ?thesis using sum_end by fastforce
  qed (use mode1_end mode2_end in blast)+
qed

lemma agg_parse_valid:
  assumes "expressionValid s" "needCompute s"
  shows "\<exists>x. agg_parse s True = Some x \<and> parsed_ok x"
proof -
  from valid_end [OF assms] obtain u w where s: "s = u @ CHR '')'' # w" and w: "w = [] \<or> mode_ok w" by auto
  have sep: "is_sep CHR '')''" by (simp add: is_sep_def is_paren_def)
  have "list_all (\<lambda>x. \<not> is_sep x) w" using w mode_clean by auto
  then have l: "last (split_runs is_sep s) = w" unfolding s using sep by (rule split_runs_last)
  from split_runs_two [of "CHR '')''" s is_sep] sep obtain h ws where hs: "split_runs is_sep s = h # ws" "ws \<noteq> []"
    by (auto simp: s)
  then obtain xs where ws: "split_runs is_sep s = h # xs @ [w]" using l by (cases ws rule: rev_cases) auto
  have "go_slice (h # xs @ [w]) 1 (1 + int (length xs)) = Some xs"
    using go_slice_middle [of 1 "[h]" "1 + int (length xs)" xs "[w]"] by simp
  moreover have "go_nth (h # xs @ [w]) (1 + int (length xs)) = Some w"
    by (simp add: go_nth_def nth_append nat_add_distrib)
  ultimately have "agg_parse s True = Some (fst (alternate xs), snd (alternate xs), w)"
    by (simp add: agg_parse_def ws Let_def split: prod.splits)
  moreover have "w = [] \<or> find_compare w \<noteq> None"
    using w find_compare_mode unfolding mode_ok_def lang.simps by fastforce
  then have "parsed_ok (fst (alternate xs), snd (alternate xs), w)"
    using alternate_lengths [of xs] by (auto simp: parsed_ok_def)
  ultimately show ?thesis by blast
qed

lemma agg_parse_ok: "expressionValid s \<Longrightarrow> \<exists>x. agg_parse s (needCompute s) = Some x \<and> parsed_ok x"
  using agg_parse_valid [of s] by (cases "needCompute s") (simp_all add: agg_parse_def parsed_ok_def)

lemma host_value_returns: "parsed_ok x \<Longrightarrow> \<exists>y. host_value need x host V = Some y"
  using agg_compute_returns by (cases x) (simp add: host_value_def)

lemma host_step_returns: "parsed_ok x \<Longrightarrow> parsed_ok y \<Longrightarrow> \<exists>acc'. host_step needN x needD y V acc host = Some acc'"
proof -
  assume "parsed_ok x" "parsed_ok y"
  then obtain a b where "host_value needN x host V = Some a" "host_value needD y host V = Some b"
    using host_value_returns by blast
  then show "\<exists>acc'. host_step needN x needD y V acc host = Some acc'"
    by (cases a; cases acc) (simp_all add: host_step_def del: split_paired_Ex)
qed

lemma hosts_return: "parsed_ok x \<Longrightarrow> parsed_ok y \<Longrightarrow> \<exists>acc'. foldM (host_step needN x needD y V) acc hosts = Some acc'"
proof (induction hosts arbitrary: acc)
  case (Cons h hosts)
  from host_step_returns [OF Cons.prems] obtain acc' where "host_step needN x needD y V acc h = Some acc'" by blast
  with Cons.IH [OF Cons.prems, of acc'] show ?case by (simp del: split_paired_Ex)
qed (simp del: split_paired_Ex)

text \<open>
  C13: Whatever numerator and denominator a cluster is configured with, and whatever hosts and points
  the API answers, as long as each answer carries a value, a round of the worker ends without a
  panic and pushes nothing or one point of the cluster.
\<close>

theorem WorkerRun_total:
  assumes "\<forall>ps. answered (post ps)"
  shows "\<exists>q. WorkerRun hostnamesByID post now now' item queue = Some q
    \<and> (q = queue \<or> (\<exists>m. q = m # queue \<and> jm_Endpoint m = cl_Endpoint item \<and> jm_Metric m = cl_Metric item
         \<and> jm_Step m = cl_Step item \<and> jm_Timestamp m = now'))"
proof (cases "expressionValid (cleanParam (cl_Numerator item)) \<and> expressionValid (cleanParam (cl_Denominator item))")
  case True
  then obtain x y where x: "agg_parse (cleanParam (cl_Numerator item)) (needCompute (cleanParam (cl_Numerator item))) = Some x" "parsed_ok x"
    and y: "agg_parse (cleanParam (cl_Denominator item)) (needCompute (cleanParam (cl_Denominator item))) = Some y" "parsed_ok y"
    using agg_parse_ok by meson
  show ?thesis
  proof (cases "hostnamesByID (cl_GroupId item)")
    case (Inr hosts)
    from assms obtain q where q: "queryCounterLast post (fst x) (fst y) hosts (i64 (now - i64 (cl_Step item * 2))) now = Some q"
      using queryCounterLast_returns by blast
    show ?thesis
    proof (cases q)
      case (Inr V)
      obtain n d k where "foldM (host_step (needCompute (cleanParam (cl_Numerator item))) x
          (needCompute (cleanParam (cl_Denominator item))) y V) (f_zero, f_zero, 0) hosts = Some (n, d, k)"
        using hosts_return [OF x(2) y(2)] by (metis prod_cases3)
      then show ?thesis using True \<open>hostnamesByID _ = _\<close> x(1) y(1) q Inr
        by (cases "needCompute (cleanParam (cl_Numerator item))"; cases "needCompute (cleanParam (cl_Denominator item))")
          (simp_all add: WorkerRun_def Let_def sender_Push_def MakeMetaData_def split: sum.splits)
    qed (use True Inr in \<open>simp add: WorkerRun_def Let_def x(1) y(1) q\<close>)
  qed (use True in \<open>simp add: WorkerRun_def Let_def x(1) y(1)\<close>)
qed (auto simp: WorkerRun_def Let_def)

section \<open>The workers\<close>

lemma gget_foldl_gdel: "gget (foldl (\<lambda>W key. gdel key W) W ks) k = (if k \<in> set ks then None else gget W k)"
  by (induction ks arbitrary: W) auto

lemma gget_deleteNoUseWorker:
  "gget (deleteNoUseWorker m W) k = (if gget m k = None then None else gget W k)"
proof -
  have "k \<notin> fst ` set W \<Longrightarrow> gget W k = None" by (simp add: map_of_eq_None_iff)
  then show ?thesis by (auto simp: deleteNoUseWorker_def Let_def gget_foldl_gdel)
qed

definition wanted_worker :: "cluster option \<Rightarrow> cluster option \<Rightarrow> cluster option" where
  "wanted_worker item running =
    (case running of Some w \<Rightarrow> Some w
     | None \<Rightarrow> (case item of None \<Rightarrow> None | Some c \<Rightarrow> if cl_Step c \<le> 0 then None else Some c))"

lemma gget_createWorkerIfNeed:
  "gomap_ok m \<Longrightarrow> gget (createWorkerIfNeed m W) k = wanted_worker (gget m k) (gget W k)"
proof (induction m arbitrary: W)
  case Nil
  show ?case by (simp add: createWorkerIfNeed_def wanted_worker_def split: option.splits)
next
  case (Cons kv m)
  obtain key c where kv: "kv = (key, c)" by (cases kv)
  have ok: "gomap_ok m" and new: "gget m key = None" using Cons.prems by (simp_all add: kv gomap_ok_def map_of_eq_None_iff)
  have "gget (createWorker W kv) k' = (if k' = key then wanted_worker (Some c) (gget W k') else gget W k')" for k'
    by (simp add: createWorker_def wanted_worker_def kv split: option.splits)
  then show ?case using Cons.IH [OF ok, of "createWorker W kv"] new
    by (simp add: createWorkerIfNeed_def kv wanted_worker_def split: option.splits)
qed

lemma gomap_ok_gputs: "gomap_ok m \<Longrightarrow> gomap_ok (foldl (\<lambda>M c. gput (key c) c M) m cs)"
  by (induction cs arbitrary: m) auto

lemma gomap_ok_items: "ReadClusterMonitorItems query ids = Some (Inr items) \<Longrightarrow> gomap_ok items"
proof -
  assume r: "ReadClusterMonitorItems query ids = Some (Inr items)"
  then obtain sql where "cluster_sql ids = Some sql" by (cases "cluster_sql ids") (simp_all add: ReadClusterMonitorItems_def)
  with r show "gomap_ok items"
    using gomap_ok_gputs [of "[]" "\<lambda>c. itoa (cl_Id c) @ cl_LastUpdate c"]
    by (cases "query sql") (auto simp: ReadClusterMonitorItems_def)
qed

text \<open>
  After a refresh of the configuration, the clusters with a positive step are those that have a
  worker: a worker whose key, the identifier and the time of update, is still configured goes on with
  what it had, one whose key is not is dropped, and the others are started.
\<close>

theorem updateItems_workers:
  assumes "ReadClusterMonitorItems query ids = Some (Inr items)"
  shows "\<exists>W'. updateItems query ids W = Some W' \<and> (\<forall>k. gget W' k =
    (case gget items k of None \<Rightarrow> None
     | Some c \<Rightarrow> case gget W k of Some w \<Rightarrow> Some w | None \<Rightarrow> if 0 < cl_Step c then Some c else None))"
proof (intro exI conjI allI)
  show "updateItems query ids W = Some (createWorkerIfNeed items (deleteNoUseWorker items W))"
    by (simp add: updateItems_def assms)
  show "gget (createWorkerIfNeed items (deleteNoUseWorker items W)) k =
    (case gget items k of None \<Rightarrow> None
     | Some c \<Rightarrow> case gget W k of Some w \<Rightarrow> Some w | None \<Rightarrow> if 0 < cl_Step c then Some c else None)" for k
    by (simp add: gget_createWorkerIfNeed [OF gomap_ok_items [OF assms]] gget_deleteNoUseWorker wanted_worker_def
      split: option.splits)
qed

text \<open>Two hosts, each of which reported.\<close>

definition demo_cluster :: cluster where
  "demo_cluster = \<lparr>cl_Id = 1, cl_GroupId = 7, cl_Numerator = ''$(cpu)+$(mem)'', cl_Denominator = ''$#'', cl_Endpoint = ''site'',
     cl_Metric = ''load'', cl_Tags = '''', cl_DsType = ''GAUGE'', cl_Step = 60, cl_LastUpdate = ''''\<rparr>"

definition demo_answer :: "last_param list \<Rightarrow> string + graph_last_resp option list" where
  "demo_answer ps = Inr (map (\<lambda>p. Some \<lparr>gl_Endpoint = fst p, gl_Counter = snd p,
     gl_Value = Some \<lparr>rd_Timestamp = 100, rd_Value = f_of_int 2\<rparr>\<rparr>) ps)"

lemma demo_answered: "answered (demo_answer ps)"
  by (auto simp: answered_def demo_answer_def list_all_iff)

lemma agg_evaluates_witness:
  "expressionValid (compare_text ''cpu'' [(''+'', ''mem'')] (''>'' @ ''3''))
    \<and> Option.bind (agg_parse (compare_text ''cpu'' [(''+'', ''mem'')] (''>'' @ ''3'')) True)
        (\<lambda>(xs, ps, m). agg_compute xs ps m ''h'' [(''hcpu'', f_of_int 2), (''hmem'', f_of_int 2)]) \<noteq> None"
proof -
  have "sum_ok ''cpu'' [(''+'', ''mem'')]" by code_simp
  moreover have "list_all2 (host_has [(''hcpu'', f_of_int 2), (''hmem'', f_of_int 2)] ''h'')
      (''cpu'' # map snd [(''+'', ''mem'')]) (f_of_int 2 # [f_of_int 2])"
    by code_simp
  moreover have "''>'' \<in> lang rx_compare" by (simp add: rx_compare_def)
  moreover have "''3'' \<in> lang rx_number"
    unfolding rx_match_lang [symmetric] by code_simp
  moreover have "parse_float ''3'' = Inr (f_of_int 3)" by code_simp
  ultimately show ?thesis
    using agg_evaluates [of "''cpu''" "[(''+'', ''mem'')]" "[(''hcpu'', f_of_int 2), (''hmem'', f_of_int 2)]" "''h''"
      "f_of_int 2" "[f_of_int 2]" "''>''" "''3''" "f_of_int 3"] by simp
qed

lemma WorkerRun_total_witness:
  "WorkerRun (\<lambda>g. Inr [''h1'', ''h2'']) demo_answer 120 121 demo_cluster [] \<noteq> None"
  using WorkerRun_total [of demo_answer "\<lambda>g. Inr [''h1'', ''h2'']" 120 121 demo_cluster "[]"] demo_answered by auto

lemma updateItems_workers_witness:
  "updateItems (\<lambda>sql. Inr [Some demo_cluster]) [1, -1] [(''2'', demo_cluster)] \<noteq> None
    \<and> map_option (map fst) (updateItems (\<lambda>sql. Inr [Some demo_cluster]) [1, -1] [(''2'', demo_cluster)]) = Some [''1'']"
proof
  have "ReadClusterMonitorItems (\<lambda>sql. Inr [Some demo_cluster]) [1, -1] = Some (Inr [(''1'', demo_cluster)])"
    by code_simp
  from updateItems_workers [OF this, of "[(''2'', demo_cluster)]"]
  show "updateItems (\<lambda>sql. Inr [Some demo_cluster]) [1, -1] [(''2'', demo_cluster)] \<noteq> None" by blast
  show "map_option (map fst) (updateItems (\<lambda>sql. Inr [Some demo_cluster]) [1, -1] [(''2'', demo_cluster)]) = Some [''1'']"
    by code_simp
qed

end
