(* ===== verification/Api_Base.thy ===== *)
theory Api_Base
  imports Utils
begin

text \<open>
  The API server (\<open>modules/api\<close>): what its handlers share. A handler takes the state of the
  tables and the request and gives the new tables and the answer (\<open>helper/simple_reponse.go\<close>:
  a value with status 200, or a text with another status). The statements of a handler are
  numbered in the order of the source; \<open>ok k\<close> says whether the database carries out the
  \<open>k\<close>-th. A failing statement changes nothing.

  The object-relational mapper (\<open>vendor/github.com/jinzhu/gorm\<close>) fills a struct with the last of the
  rows a query returns and reports an error when there is none; a condition given as a struct
  holds its non-zero fields; \<open>Save\<close> inserts a struct without an identifier and updates the row of
  one that has it. Texts are compared by the collation of the database, \<open>coll\<close>.
\<close>

section \<open>Answers\<close>

datatype 'a resp = RespOK 'a | RespErr int string

definition StatusBadRequest :: int where "StatusBadRequest = 400"
definition StatusUnauthorized :: int where "StatusUnauthorized = 401"
definition StatusExpectationFailed :: int where "StatusExpectationFailed = 417"

definition db_error :: string where "db_error = ''database error''"
definition not_found :: string where "not_found = ''record not found''"

definition is_ok :: "'a resp \<Rightarrow> bool" where
  "is_ok r = (case r of RespOK _ \<Rightarrow> True | RespErr _ _ \<Rightarrow> False)"

section \<open>Queries\<close>

text \<open>\<open>Find\<close> and \<open>Scan\<close> into a struct: the last row.\<close>

definition find_last :: "('r \<Rightarrow> bool) \<Rightarrow> 'r list \<Rightarrow> 'r option" where
  "find_last P rows = (let rs = filter P rows in if rs = [] then None else Some (last rs))"

text \<open>\<open>First\<close>: the row with the smallest identifier.\<close>

definition find_first :: "('r \<Rightarrow> int) \<Rightarrow> ('r \<Rightarrow> bool) \<Rightarrow> 'r list \<Rightarrow> 'r option" where
  "find_first key P rows =
    (case sort_key key (filter P rows) of [] \<Rightarrow> None | r # _ \<Rightarrow> Some r)"

definition update_where :: "('r \<Rightarrow> bool) \<Rightarrow> ('r \<Rightarrow> 'r) \<Rightarrow> 'r list \<Rightarrow> 'r list" where
  "update_where P f rows = map (\<lambda>r. if P r then f r else r) rows"

definition delete_where :: "('r \<Rightarrow> bool) \<Rightarrow> 'r list \<Rightarrow> 'r list" where
  "delete_where P rows = filter (\<lambda>r. \<not> P r) rows"

lemma find_last_Some:
  assumes "find_last P rows = Some r"
  shows "r \<in> set rows \<and> P r"
proof -
  have "filter P rows \<noteq> []" "r = last (filter P rows)"
    using assms by (auto simp: find_last_def Let_def split: if_splits)
  from this(2) last_in_set [OF this(1)] have "r \<in> set (filter P rows)" by (simp only:)
  then show ?thesis by simp
qed

lemma find_last_None: "find_last P rows = None \<longleftrightarrow> (\<forall>r\<in>set rows. \<not> P r)"
  by (auto simp: find_last_def Let_def filter_empty_conv)

lemma find_first_Some: "find_first key P rows = Some r \<Longrightarrow> r \<in> set rows \<and> P r"
proof -
  assume "find_first key P rows = Some r"
  then have "\<exists>xs. sort_key key (filter P rows) = r # xs"
    by (auto simp: find_first_def split: list.splits)
  then have "r \<in> set (sort_key key (filter P rows))" by (metis list.set_intros(1))
  then show ?thesis by simp
qed

lemma in_update_where: "r \<in> set (update_where P f rows) \<longleftrightarrow> (\<exists>r0\<in>set rows. r = (if P r0 then f r0 else r0))"
  by (auto simp: update_where_def)

lemma in_delete_where [simp]: "r \<in> set (delete_where P rows) \<longleftrightarrow> r \<in> set rows \<and> \<not> P r"
  by (simp add: delete_where_def)

text \<open>A table with a key given by the database: positive, not repeated, below the next one.\<close>

definition table_ok :: "('r \<Rightarrow> int) \<Rightarrow> int \<Rightarrow> 'r list \<Rightarrow> bool" where
  "table_ok key n rows \<longleftrightarrow> 0 < n \<and> distinct (map key rows) \<and> list_all (\<lambda>r. 0 < key r \<and> key r < n) rows"

lemma table_ok_append: "table_ok key n rows \<Longrightarrow> key r = n \<Longrightarrow> table_ok key (n + 1) (rows @ [r])"
  by (fastforce simp: table_ok_def list_all_iff)

lemma table_ok_delete: "table_ok key n rows \<Longrightarrow> table_ok key n (delete_where P rows)"
  by (simp add: table_ok_def delete_where_def distinct_map_filter list_all_iff)

lemma map_update_where: "(\<And>r. r \<in> set rows \<Longrightarrow> P r \<Longrightarrow> g (f r) = g r) \<Longrightarrow> map g (update_where P f rows) = map g rows"
  by (auto simp: update_where_def)

lemma table_ok_update: "(\<And>r. r \<in> set rows \<Longrightarrow> P r \<Longrightarrow> key (f r) = key r) \<Longrightarrow> table_ok key n rows \<Longrightarrow> table_ok key n (update_where P f rows)"
  using map_update_where [of rows P key f] by (auto simp: table_ok_def list_all_iff in_update_where)

lemma distinct_delete: "distinct (map g rows) \<Longrightarrow> distinct (map g (delete_where P rows))"
  by (simp add: delete_where_def distinct_map_filter)

lemma unique_by: "distinct (map f xs) \<Longrightarrow> x \<in> set xs \<Longrightarrow> y \<in> set xs \<Longrightarrow> f x = f y \<Longrightarrow> x = y"
  by (auto simp: distinct_map inj_on_def)

lemma filter_update_where:
  "(\<And>r. P r \<Longrightarrow> \<not> Q r \<and> \<not> Q (f r)) \<Longrightarrow> filter Q (update_where P f rows) = filter Q rows"
  by (induction rows) (auto simp: update_where_def)

lemma filter_delete_where:
  "(\<And>r. r \<in> set rows \<Longrightarrow> P r \<Longrightarrow> \<not> Q r) \<Longrightarrow> filter Q (delete_where P rows) = filter Q rows"
  by (induction rows) (auto simp: delete_where_def)

section \<open>Helpers (\<open>app/helper\<close>, \<open>app/utils\<close>)\<close>

definition PageParser :: "string \<Rightarrow> string \<Rightarrow> string + int \<times> int" where
  "PageParser page limit =
    (if page = '''' then Inr (- 1, - 1)
     else case atoi page of Inl err \<Rightarrow> Inl ''page'' | Inr p \<Rightarrow>
       if limit = '''' then Inl ''You set page but skip limit params, please check your input''
       else case atoi limit of Inl err \<Rightarrow> Inl ''limit'' | Inr l \<Rightarrow>
         if p \<le> 0 \<or> l \<le> 0 then Inl ''limit or page can not set to 0 or less than 0''
         else Inr (if p = 1 then 0 else i64 (i64 (p - 1) * l), l))"

definition HasDangerousCharacters :: "string \<Rightarrow> bool" where
  "HasDangerousCharacters str \<longleftrightarrow>
    CHR ''<'' \<in> set str \<or> CHR ''>'' \<in> set str \<or> CHR ''&'' \<in> set str \<or> CHR 0x27 \<in> set str \<or> CHR 0x22 \<in> set str"

definition IsUsernameValid :: "string \<Rightarrow> bool" where
  "IsUsernameValid name \<longleftrightarrow> name \<noteq> '''' \<and>
    list_all (\<lambda>c. (let n = of_char c :: int in 97 \<le> n \<and> n \<le> 122 \<or> 65 \<le> n \<and> n \<le> 90 \<or> 48 \<le> n \<and> n \<le> 57) \<or>
      c = CHR ''-'' \<or> c = CHR ''_'' \<or> c = CHR ''.'') name"

text \<open>The loops that print a list with commas; an empty result is an error.\<close>

definition ArrIntToString :: "int list \<Rightarrow> string + string" where
  "ArrIntToString arr =
    (let result = foldl (\<lambda>r (i, a). if i = 0 then itoa a else r @ '','' @ itoa a) '''' (List.enumerate 0 arr)
     in if result = '''' then Inl ''array is empty'' else Inr result)"

definition ArrStringsToString :: "string list \<Rightarrow> string + string" where
  "ArrStringsToString arr =
    (let quoted = (\<lambda>a. [CHR 0x22] @ a @ [CHR 0x22]);
         result = foldl (\<lambda>r (i, a). if i = 0 then quoted a else r @ '','' @ quoted a) '''' (List.enumerate 0 arr)
     in if result = '''' then Inl ''array is empty'' else Inr result)"

definition ConverIntStringToList :: "string \<Rightarrow> string" where
  "ConverIntStringToList eid =
    foldl (\<lambda>r (i, e). case atoi e of Inl err \<Rightarrow> r | Inr v \<Rightarrow> if i = 0 then itoa v else r @ '', '' @ itoa v)
      '''' (List.enumerate 0 (go_split (CHR '','') eid))"

end
