(* ===== verification/Api_Uic.thy ===== *)
theory Api_Uic
  imports Api_Base
begin

text \<open>
  Users, sessions and teams of the API (\<open>app/controller/uic\<close>, \<open>app/model/uic\<close>, \<open>app/helper/session.go\<close>,
  \<open>app/utils/auth_middle.go\<close>).
\<close>

section \<open>Tables and configuration\<close>

record api_user =
  us_ID :: int
  us_Name :: string
  us_Cnname :: string
  us_Passwd :: string
  us_Email :: string
  us_Phone :: string
  us_IM :: string
  us_QQ :: string
  us_Role :: int

record api_session =
  se_ID :: int
  se_Uid :: int
  se_Sig :: string
  se_Expired :: int

record team =
  tm_ID :: int
  tm_Name :: string
  tm_Resume :: string
  tm_Creator :: int

record rel_team_user =
  rl_ID :: int
  rl_Tid :: int
  rl_Uid :: int

record uic_db =
  t_user :: "api_user list"
  t_session :: "api_session list"
  t_team :: "team list"
  t_rel :: "rel_team_user list"
  next_user :: int
  next_session :: int
  next_team :: int
  next_rel :: int

record api_config =
  coll :: "string \<Rightarrow> string"
  access_control :: bool
  skip_auth :: bool
  default_token :: string
  signup_disable :: bool
  salt :: string

record api_env =
  ok :: "nat \<Rightarrow> bool"
  uuid :: string
  now_ts :: int64

definition zero_user :: api_user where
  "zero_user = \<lparr>us_ID = 0, us_Name = '''', us_Cnname = '''', us_Passwd = '''', us_Email = '''', us_Phone = '''',
    us_IM = '''', us_QQ = '''', us_Role = 0\<rparr>"

definition HashIt :: "api_config \<Rightarrow> string \<Rightarrow> string" where
  "HashIt cfg passwd = Md5 (salt cfg @ passwd)"

definition IsAdmin :: "api_config \<Rightarrow> api_user \<Rightarrow> bool" where
  "IsAdmin cfg u \<longleftrightarrow> \<not> access_control cfg \<or> us_Role u = 2 \<or> us_Role u = 1"

definition IsSuperAdmin :: "api_config \<Rightarrow> api_user \<Rightarrow> bool" where
  "IsSuperAdmin cfg u \<longleftrightarrow> \<not> access_control cfg \<or> us_Role u = 2"

section \<open>Statements\<close>

definition user_named :: "api_config \<Rightarrow> string \<Rightarrow> uic_db \<Rightarrow> api_user option" where
  "user_named cfg name db = find_last (\<lambda>u. coll cfg (us_Name u) = coll cfg name) (t_user db)"

definition user_by_id :: "int \<Rightarrow> uic_db \<Rightarrow> api_user option" where
  "user_by_id i db = find_last (\<lambda>u. us_ID u = i) (t_user db)"

text \<open>Names of users are unique; \<open>Create\<close> gives the row the next identifier.\<close>

definition insert_user :: "api_config \<Rightarrow> bool \<Rightarrow> api_user \<Rightarrow> uic_db \<Rightarrow> (uic_db \<times> api_user) option" where
  "insert_user cfg okq u db =
    (if \<not> okq \<or> list_ex (\<lambda>v. coll cfg (us_Name v) = coll cfg (us_Name u)) (t_user db) then None
     else (let u' = u\<lparr>us_ID := next_user db\<rparr> in Some (db\<lparr>t_user := t_user db @ [u'], next_user := next_user db + 1\<rparr>, u')))"

text \<open>\<open>Save\<close>: an update of the row with the identifier, an insertion for the zero struct.\<close>

definition save_user :: "api_config \<Rightarrow> bool \<Rightarrow> api_user \<Rightarrow> uic_db \<Rightarrow> uic_db option" where
  "save_user cfg okq u db =
    (if us_ID u = 0 then map_option fst (insert_user cfg okq u db)
     else if \<not> okq then None
     else Some (db\<lparr>t_user := update_where (\<lambda>v. us_ID v = us_ID u) (\<lambda>v. u) (t_user db)\<rparr>))"

definition insert_session :: "int \<Rightarrow> string \<Rightarrow> int \<Rightarrow> bool \<Rightarrow> uic_db \<Rightarrow> uic_db" where
  "insert_session uid sig expired okq db =
    (if okq then db\<lparr>t_session := t_session db @ [\<lparr>se_ID = next_session db, se_Uid = uid, se_Sig = sig, se_Expired = expired\<rparr>],
       next_session := next_session db + 1\<rparr> else db)"

section \<open>Sessions\<close>

text \<open>The \<open>Apitoken\<close> header of a request.\<close>

datatype apitoken = NoToken | BadJson | Token string string

definition GetSession :: "apitoken \<Rightarrow> string + string \<times> string" where
  "GetSession tok =
    (case tok of
       NoToken \<Rightarrow> Inl ''token key is not set''
     | BadJson \<Rightarrow> Inl ''json''
     | Token name sig \<Rightarrow>
        if name = '''' then Inl ''token key:name is empty''
        else if sig = '''' then Inl ''token key:sig is empty''
        else Inr (name, sig))"

text \<open>The errors of the two queries are not looked at: a failing query finds nothing.\<close>

definition SessionChecking :: "api_config \<Rightarrow> (nat \<Rightarrow> bool) \<Rightarrow> uic_db \<Rightarrow> apitoken \<Rightarrow> bool \<times> string option" where
  "SessionChecking cfg okq db tok =
    (case GetSession tok of
       Inl err \<Rightarrow> (False, Some err)
     | Inr (name, sig) \<Rightarrow>
        if default_token cfg \<noteq> '''' \<and> sig = default_token cfg then (True, None)
        else (case (if okq 0 then user_named cfg name db else None) of
            None \<Rightarrow> (False, Some ''not found this user'')
          | Some user \<Rightarrow>
             if us_ID user = 0 then (False, Some ''not found this user'')
             else (case (if okq 1 then find_last (\<lambda>s. coll cfg (se_Sig s) = coll cfg sig \<and> se_Uid s = us_ID user) (t_session db) else None) of
                 None \<Rightarrow> (False, Some ''session not found'')
               | Some s \<Rightarrow> if se_ID s = 0 then (False, Some ''session not found'') else (True, None))))"

definition GetUser :: "api_config \<Rightarrow> bool \<Rightarrow> uic_db \<Rightarrow> apitoken \<Rightarrow> string + api_user" where
  "GetUser cfg okq db tok =
    (case GetSession tok of
       Inl err \<Rightarrow> Inl err
     | Inr (name, sig) \<Rightarrow>
        if \<not> okq then Inl db_error
        else (case user_named cfg name db of None \<Rightarrow> Inl not_found | Some u \<Rightarrow> Inr u))"

definition AuthSessionMidd ::
    "api_config \<Rightarrow> (nat \<Rightarrow> bool) \<Rightarrow> apitoken \<Rightarrow> (uic_db \<Rightarrow> uic_db \<times> string resp) \<Rightarrow> uic_db \<Rightarrow> uic_db \<times> string resp" where
  "AuthSessionMidd cfg okq tok next_handler db =
    (let (auth, err) = SessionChecking cfg okq db tok in
     if \<not> skip_auth cfg \<and> (err \<noteq> None \<or> \<not> auth)
     then (db, RespErr StatusUnauthorized (case err of None \<Rightarrow> '''' | Some e \<Rightarrow> e))
     else next_handler db)"

section \<open>Signing up, in and out\<close>

record user_input =
  in_Name :: string
  in_Cnname :: string
  in_Passwd :: string
  in_Email :: string
  in_Phone :: string
  in_IM :: string
  in_QQ :: string

text \<open>A body that does not decode is \<open>None\<close>; a required field must not be empty.\<close>

definition bind_user :: "user_input option \<Rightarrow> user_input option" where
  "bind_user b =
    (case b of None \<Rightarrow> None
     | Some i \<Rightarrow> if in_Name i = '''' \<or> in_Cnname i = '''' \<or> in_Passwd i = '''' \<or> in_Email i = '''' then None else Some i)"

definition expires :: "int64 \<Rightarrow> int64" where
  "expires t = i64 (t + 3600 * 24 * 30)"

text \<open>The session of a user: the one there is, or a new one. The answer is the signature.\<close>

definition ensure_session :: "api_env \<Rightarrow> nat \<Rightarrow> int \<Rightarrow> uic_db \<Rightarrow> uic_db \<times> string resp" where
  "ensure_session ev k uid db =
    (if \<not> ok ev k then (db, RespErr StatusBadRequest db_error)
     else case find_last (\<lambda>s. se_Uid s = uid) (t_session db) of
       Some s \<Rightarrow>
         if se_ID s = 0 then (insert_session uid (uuid ev) (expires (now_ts ev)) (ok ev (Suc k)) db, RespOK (uuid ev))
         else (db, RespOK (se_Sig s))
     | None \<Rightarrow> (insert_session uid (uuid ev) (expires (now_ts ev)) (ok ev (Suc k)) db, RespOK (uuid ev)))"

definition signup_off :: string where
  "signup_off = ''sign up is not enabled, please contact administrator''"

definition CreateUser ::
    "api_config \<Rightarrow> api_env \<Rightarrow> apitoken \<Rightarrow> user_input option \<Rightarrow> uic_db \<Rightarrow> uic_db \<times> string resp" where
  "CreateUser cfg ev tok body db =
    (case bind_user body of
       None \<Rightarrow> (db, RespErr StatusBadRequest ''bind'')
     | Some inputs \<Rightarrow>
       if HasDangerousCharacters (in_Cnname inputs) then (db, RespErr StatusBadRequest ''name pattern is invalid'')
       else (case (if signup_disable cfg then (case GetUser cfg (ok ev 0) db tok of
              Inl err \<Rightarrow> Some (if err = ''token key is not set'' then signup_off else signup_off @ ''. '' @ err)
            | Inr user \<Rightarrow> if IsAdmin cfg user then None
                else Some (signup_off @ ''. You are not admin, no permissions can do this'')) else None) of
         Some msg \<Rightarrow> (db, RespErr StatusBadRequest msg)
       | None \<Rightarrow>
         (case (if ok ev 1 then user_named cfg (in_Name inputs) db else None) of
            Some user \<Rightarrow> if us_ID user \<noteq> 0 then (db, RespErr StatusBadRequest ''name is already existing'')
              else (db, RespErr StatusBadRequest db_error)
          | None \<Rightarrow>
            (case insert_user cfg (ok ev 2) \<lparr>us_ID = 0, us_Name = in_Name inputs, us_Cnname = in_Cnname inputs,
                us_Passwd = HashIt cfg (in_Passwd inputs), us_Email = in_Email inputs, us_Phone = in_Phone inputs,
                us_IM = in_IM inputs, us_QQ = in_QQ inputs, us_Role = (if in_Name inputs = ''root'' then 2 else 0)\<rparr> db of
               None \<Rightarrow> (db, RespErr StatusBadRequest db_error)
             | Some (db1, user) \<Rightarrow> ensure_session ev 3 (us_ID user) db1))))"

definition Login :: "api_config \<Rightarrow> api_env \<Rightarrow> string \<Rightarrow> string \<Rightarrow> uic_db \<Rightarrow> uic_db \<times> string resp" where
  "Login cfg ev name password db =
    (if name = '''' \<or> password = '''' then (db, RespErr StatusBadRequest ''name or password is blank'')
     else case (if ok ev 0 then user_named cfg name db else None) of
       None \<Rightarrow>
         \<comment> \<open>the struct keeps the name it was searched by, and its empty password\<close>
         if '''' \<noteq> HashIt cfg password then (db, RespErr StatusBadRequest ''password error'')
         else ensure_session ev 1 0 db
     | Some user \<Rightarrow>
         if us_Name user = '''' then (db, RespErr StatusBadRequest ''no such user'')
         else if us_Passwd user \<noteq> HashIt cfg password then (db, RespErr StatusBadRequest ''password error'')
         else ensure_session ev 1 (us_ID user) db)"

definition Logout :: "api_config \<Rightarrow> api_env \<Rightarrow> apitoken \<Rightarrow> uic_db \<Rightarrow> uic_db \<times> string resp" where
  "Logout cfg ev tok db =
    (case GetSession tok of
       Inl err \<Rightarrow> (db, RespErr StatusBadRequest err)
     | Inr (name, sig) \<Rightarrow>
        (let uid = (case (if ok ev 0 then user_named cfg name db else None) of None \<Rightarrow> 0 | Some u \<Rightarrow> us_ID u) in
         case (if ok ev 1 then find_last (\<lambda>s. coll cfg (se_Sig s) = coll cfg sig \<and> se_Uid s = uid) (t_session db) else None) of
           None \<Rightarrow> (db, RespErr StatusBadRequest ''not found this kind of session in database.'')
         | Some s \<Rightarrow>
            if se_ID s = 0 then (db, RespErr StatusBadRequest ''not found this kind of session in database.'')
            else if \<not> ok ev 2 then (db, RespErr StatusBadRequest db_error)
            else (db\<lparr>t_session := delete_where (\<lambda>r. se_ID r = se_ID s) (t_session db)\<rparr>, RespOK ''logout successful'')))"

definition AuthSession :: "api_config \<Rightarrow> api_env \<Rightarrow> apitoken \<Rightarrow> uic_db \<Rightarrow> uic_db \<times> string resp" where
  "AuthSession cfg ev tok db =
    (let (auth, err) = SessionChecking cfg (ok ev) db tok in
     if err \<noteq> None \<or> \<not> auth then (db, RespErr StatusUnauthorized (case err of None \<Rightarrow> '''' | Some e \<Rightarrow> e))
     else (db, RespOK ''session is vaild!''))"

definition CreateRoot :: "api_config \<Rightarrow> api_env \<Rightarrow> string \<Rightarrow> uic_db \<Rightarrow> uic_db \<times> string resp" where
  "CreateRoot cfg ev password db =
    (if password = '''' then (db, RespErr StatusBadRequest ''password is empty, please check it'')
     else case save_user cfg (ok ev 0) (zero_user\<lparr>us_Name := ''root'', us_Passwd := HashIt cfg password\<rparr>) db of
       None \<Rightarrow> (db, RespErr StatusBadRequest db_error)
     | Some db' \<Rightarrow> (db', RespOK ''root created!''))"

section \<open>Users\<close>

record profile_input =
  pf_Cnname :: string
  pf_Email :: string
  pf_Phone :: string
  pf_IM :: string
  pf_QQ :: string

definition bind_profile :: "profile_input option \<Rightarrow> profile_input option" where
  "bind_profile b = (case b of None \<Rightarrow> None | Some i \<Rightarrow> if pf_Cnname i = '''' \<or> pf_Email i = '''' then None else Some i)"

definition update_profile :: "profile_input \<Rightarrow> api_user \<Rightarrow> api_user" where
  "update_profile i u = u\<lparr>us_Cnname := pf_Cnname i, us_Email := pf_Email i, us_Phone := pf_Phone i, us_IM := pf_IM i, us_QQ := pf_QQ i\<rparr>"

definition UpdateCurrentUser ::
    "api_config \<Rightarrow> api_env \<Rightarrow> apitoken \<Rightarrow> profile_input option \<Rightarrow> uic_db \<Rightarrow> uic_db \<times> string resp" where
  "UpdateCurrentUser cfg ev tok body db =
    (case bind_profile body of
       None \<Rightarrow> (db, RespErr StatusExpectationFailed ''bind'')
     | Some inputs \<Rightarrow>
       if HasDangerousCharacters (pf_Cnname inputs) then (db, RespErr StatusBadRequest ''name pattern is invalid'')
       else (case GetSession tok of
           Inl err \<Rightarrow> (db, RespErr StatusBadRequest err)
         | Inr (name, sig) \<Rightarrow>
           (case (if ok ev 0 then user_named cfg name db else None) of
              None \<Rightarrow> (db, RespErr StatusBadRequest ''name is not existing'')
            | Some user \<Rightarrow>
                if us_ID user = 0 then (db, RespErr StatusBadRequest ''name is not existing'')
                else if \<not> ok ev 1 then (db, RespErr StatusExpectationFailed db_error)
                else (db\<lparr>t_user := update_where (\<lambda>u. us_ID u = us_ID user) (update_profile inputs) (t_user db)\<rparr>,
                  RespOK ''user info updated''))))"

text \<open>
  The handler does not return when a password is missing: it answers with an error and goes on with
  what it has; the answer is the first one.
\<close>

definition ChangePassword ::
    "api_config \<Rightarrow> api_env \<Rightarrow> apitoken \<Rightarrow> string \<Rightarrow> string \<Rightarrow> uic_db \<Rightarrow> uic_db \<times> string resp" where
  "ChangePassword cfg ev tok old_password new_password db =
    (let bound = old_password \<noteq> '''' \<and> new_password \<noteq> '''';
         answer = (\<lambda>r. if bound then r else RespErr StatusBadRequest ''bind'')
     in case GetSession tok of
       Inl err \<Rightarrow> (db, answer (RespErr StatusBadRequest err))
     | Inr (name, sig) \<Rightarrow>
       (case (if ok ev 0 then user_named cfg name db else None) of
          None \<Rightarrow> (db, answer (RespErr StatusExpectationFailed (if ok ev 0 then not_found else db_error)))
        | Some user \<Rightarrow>
            if us_Passwd user \<noteq> HashIt cfg old_password
            then (db, answer (RespErr StatusBadRequest ''oldPassword is not match current one''))
            else (case save_user cfg (ok ev 1) (user\<lparr>us_Passwd := HashIt cfg new_password\<rparr>) db of
                None \<Rightarrow> (db, answer (RespErr StatusExpectationFailed db_error))
              | Some db' \<Rightarrow> (db', answer (RespOK ''password updated!'')))))"

definition UserInfo :: "api_config \<Rightarrow> api_env \<Rightarrow> apitoken \<Rightarrow> uic_db \<Rightarrow> api_user resp" where
  "UserInfo cfg ev tok db =
    (case GetUser cfg (ok ev 0) db tok of Inl err \<Rightarrow> RespErr StatusExpectationFailed err | Inr u \<Rightarrow> RespOK u)"

text \<open>The identifier of a path: missing, not a number, or a number.\<close>

definition path_id :: "string \<Rightarrow> string + int" where
  "path_id s = (if s = '''' then Inl ''user id is missing'' else case atoi s of Inl err \<Rightarrow> Inl ''atoi'' | Inr i \<Rightarrow> Inr i)"

text \<open>With the identifier zero the condition is empty and the last user of the table is found.\<close>

definition GetUser_by_uid :: "api_env \<Rightarrow> string \<Rightarrow> uic_db \<Rightarrow> api_user resp" where
  "GetUser_by_uid ev uid db =
    (case path_id uid of
       Inl err \<Rightarrow> RespErr StatusBadRequest err
     | Inr i \<Rightarrow>
        if \<not> ok ev 0 then RespErr StatusExpectationFailed db_error
        else (case find_last (\<lambda>u. i = 0 \<or> us_ID u = i) (t_user db) of
            None \<Rightarrow> RespErr StatusExpectationFailed not_found | Some u \<Rightarrow> RespOK u))"

definition GetUserByName :: "api_config \<Rightarrow> api_env \<Rightarrow> string \<Rightarrow> uic_db \<Rightarrow> api_user resp" where
  "GetUserByName cfg ev name db =
    (if name = '''' then RespErr StatusBadRequest ''user name is missing''
     else if \<not> ok ev 0 then RespErr StatusExpectationFailed db_error
     else case find_first us_ID (\<lambda>u. coll cfg (us_Name u) = coll cfg name) (t_user db) of
       None \<Rightarrow> RespErr StatusExpectationFailed not_found | Some u \<Rightarrow> RespOK u)"

text \<open>The memberships are queried, and not looked at. A missing list of teams answers with a nil error.\<close>

definition IsUserInTeams :: "api_config \<Rightarrow> api_env \<Rightarrow> string \<Rightarrow> string \<Rightarrow> uic_db \<Rightarrow> string resp" where
  "IsUserInTeams cfg ev uid teams_raw db =
    (case path_id uid of
       Inl err \<Rightarrow> RespErr StatusBadRequest err
     | Inr i \<Rightarrow>
        if teams_raw = '''' then RespErr StatusBadRequest ''system type error. please ask admin for help''
        else (let team_names = go_split (CHR '','') teams_raw in
          if \<not> ok ev 0 then RespErr StatusExpectationFailed db_error
          else case find_first us_ID (\<lambda>u. us_ID u = i) (t_user db) of
            None \<Rightarrow> RespErr StatusExpectationFailed not_found
          | Some user \<Rightarrow>
             if \<not> ok ev 1 then RespErr StatusExpectationFailed db_error
             else (let teams = filter (\<lambda>t. coll cfg (tm_Name t) \<in> coll cfg ` set team_names) (t_team db);
                       tids = map tm_ID teams;
                       tus = filter (\<lambda>r. rl_Uid r = i \<and> rl_Tid r \<in> set tids) (t_rel db)
                   in if \<not> ok ev 2 then RespErr StatusExpectationFailed db_error else RespOK ''true'')))"

text \<open>For a user without teams the list of the query is empty, which is not SQL.\<close>

definition GetUserTeams :: "api_env \<Rightarrow> string \<Rightarrow> uic_db \<Rightarrow> team list resp" where
  "GetUserTeams ev uid db =
    (case path_id uid of
       Inl err \<Rightarrow> RespErr StatusBadRequest err
     | Inr i \<Rightarrow>
        if \<not> ok ev 0 then RespErr StatusExpectationFailed db_error
        else (case find_first us_ID (\<lambda>u. us_ID u = i) (t_user db) of
            None \<Rightarrow> RespErr StatusExpectationFailed not_found
          | Some user \<Rightarrow>
             if \<not> ok ev 1 then RespErr StatusExpectationFailed db_error
             else (let tids = map rl_Tid (filter (\<lambda>r. rl_Uid r = i) (t_rel db)) in
               case ArrIntToString tids of
                 Inl err \<Rightarrow> RespErr StatusExpectationFailed ''syntax''
               | Inr tidsStr \<Rightarrow>
                  if \<not> ok ev 2 then RespErr StatusExpectationFailed db_error
                  else RespOK (filter (\<lambda>t. tm_ID t \<in> set tids) (t_team db)))))"

text \<open>The check all operations of administrators begin with: the answer of a refusal.\<close>

definition require_admin :: "api_config \<Rightarrow> bool \<Rightarrow> int \<Rightarrow> apitoken \<Rightarrow> uic_db \<Rightarrow> (int \<times> string) + api_user" where
  "require_admin cfg okq bad tok db =
    (case GetUser cfg okq db tok of
       Inl err \<Rightarrow> Inl (bad, err)
     | Inr cuser \<Rightarrow> if IsAdmin cfg cuser then Inr cuser else Inl (StatusBadRequest, ''you don't have permission!''))"

definition AdminChangeUserProfile ::
    "api_config \<Rightarrow> api_env \<Rightarrow> apitoken \<Rightarrow> int \<Rightarrow> profile_input option \<Rightarrow> uic_db \<Rightarrow> uic_db \<times> string resp" where
  "AdminChangeUserProfile cfg ev tok uid body db =
    (case (if uid = 0 then None else bind_profile body) of
       None \<Rightarrow> (db, RespErr StatusExpectationFailed ''bind'')
     | Some inputs \<Rightarrow>
       (case require_admin cfg (ok ev 0) StatusExpectationFailed tok db of
          Inl (code, err) \<Rightarrow> (db, RespErr code err)
        | Inr cuser \<Rightarrow>
            if \<not> ok ev 1 then (db, RespErr StatusExpectationFailed db_error)
            else (db\<lparr>t_user := update_where (\<lambda>u. us_ID u = uid) (update_profile inputs) (t_user db)\<rparr>,
              RespOK ''user profile updated'')))"

definition AdminUserDelete :: "api_config \<Rightarrow> api_env \<Rightarrow> apitoken \<Rightarrow> int \<Rightarrow> uic_db \<Rightarrow> uic_db \<times> string resp" where
  "AdminUserDelete cfg ev tok uid db =
    (if uid = 0 then (db, RespErr StatusBadRequest ''bind'')
     else case require_admin cfg (ok ev 0) StatusExpectationFailed tok db of
       Inl (code, err) \<Rightarrow> (db, RespErr code err)
     | Inr cuser \<Rightarrow>
         if \<not> ok ev 1 then (db, RespErr StatusExpectationFailed db_error)
         else if \<not> list_ex (\<lambda>u. us_ID u = uid \<and> us_Role u \<le> us_Role cuser) (t_user db)
           then (db, RespErr StatusExpectationFailed ''you have no such permission or sth goes wrong'')
         else (db\<lparr>t_user := delete_where (\<lambda>u. us_ID u = uid \<and> us_Role u \<le> us_Role cuser) (t_user db)\<rparr>,
           RespOK ''user has been delete''))"

definition AdminChangePassword :: "api_config \<Rightarrow> api_env \<Rightarrow> apitoken \<Rightarrow> int \<Rightarrow> string \<Rightarrow> uic_db \<Rightarrow> uic_db \<times> string resp" where
  "AdminChangePassword cfg ev tok uid passwd db =
    (if uid = 0 \<or> passwd = '''' then (db, RespErr StatusBadRequest ''bind'')
     else case require_admin cfg (ok ev 0) StatusExpectationFailed tok db of
       Inl (code, err) \<Rightarrow> (db, RespErr code err)
     | Inr cuser \<Rightarrow>
        (case (if ok ev 1 then user_by_id uid db else None) of
           None \<Rightarrow> (db, RespErr StatusExpectationFailed (if ok ev 1 then not_found else db_error))
         | Some user \<Rightarrow>
            (case save_user cfg (ok ev 2) (user\<lparr>us_Passwd := HashIt cfg passwd\<rparr>) db of
               None \<Rightarrow> (db, RespErr StatusExpectationFailed db_error)
             | Some db' \<Rightarrow> (db', RespOK ''password updated!''))))"

text \<open>\<open>matches\<close> is the regular expression of the database; a page is cut from the matching rows.\<close>

definition UserList ::
    "(string \<Rightarrow> string \<Rightarrow> bool) \<Rightarrow> api_env \<Rightarrow> string \<Rightarrow> string \<Rightarrow> string \<Rightarrow> uic_db \<Rightarrow> api_user list resp" where
  "UserList matches ev pageTmp limitTmp q db =
    (case PageParser pageTmp limitTmp of
       Inl err \<Rightarrow> RespErr StatusBadRequest err
     | Inr (page, limit) \<Rightarrow>
        if \<not> ok ev 0 then RespErr StatusExpectationFailed db_error
        else (let users = filter (\<lambda>u. matches q (us_Name u)) (t_user db)
              in RespOK (if limit \<noteq> - 1 \<and> page \<noteq> - 1 then take (nat limit) (drop (nat page) users) else users)))"

text \<open>The error of the query is not looked at: a user that is not there is the zero struct.\<close>

definition ChangeRoleOfUser :: "api_config \<Rightarrow> api_env \<Rightarrow> apitoken \<Rightarrow> int \<Rightarrow> string \<Rightarrow> uic_db \<Rightarrow> uic_db \<times> string resp" where
  "ChangeRoleOfUser cfg ev tok uid admin db =
    (if uid = 0 \<or> admin = '''' then (db, RespErr StatusBadRequest ''bind'')
     else case require_admin cfg (ok ev 0) StatusBadRequest tok db of
       Inl (code, err) \<Rightarrow> (db, RespErr code err)
     | Inr cuser \<Rightarrow>
        (let user0 = (case (if ok ev 1 then user_by_id uid db else None) of None \<Rightarrow> zero_user | Some u \<Rightarrow> u);
             user = (if admin = ''yes'' then user0\<lparr>us_Role := 1\<rparr> else if admin = ''no'' then user0\<lparr>us_Role := 0\<rparr> else user0)
         in case save_user cfg (ok ev 2) user db of
           None \<Rightarrow> (db, RespErr StatusExpectationFailed db_error)
         | Some db' \<Rightarrow> (db', RespOK ''user role update sccuessful'')))"

end
