(* ===== verification/Api_Portal.thy ===== *)
theory Api_Portal
  imports Api_Uic
begin

text \<open>
  The monitoring configuration the API keeps in the database \<open>falcon_portal\<close>: its tables
  (\<open>app/model/falcon_portal\<close>), the statements of the mapper on them, and the handlers of host
  groups, hosts, plugins and maintenance (\<open>app/controller/host\<close>).

  A deletion or a search by a struct whose identifier is zero has no condition: it is for all rows.
  A transaction works on a copy of the tables; rolling it back gives the old tables, with the
  identifiers already taken.
\<close>

section \<open>Tables\<close>

record portal_host =
  ph_ID :: int
  ph_Hostname :: string
  ph_Ip :: string
  ph_AgentVersion :: string
  ph_PluginVersion :: string
  ph_MaintainBegin :: int64
  ph_MaintainEnd :: int64

record host_group =
  hg_ID :: int
  hg_Name :: string
  hg_CreateUser :: string
  hg_ComeFrom :: int

record grp_host =
  gh_GrpID :: int
  gh_HostID :: int

record grp_tpl =
  gt_GrpID :: int
  gt_TplID :: int
  gt_BindUser :: string

record tpl_row =
  tp_ID :: int
  tp_Name :: string
  tp_ParentID :: int
  tp_ActionID :: int
  tp_CreateUser :: string

record strategy_rec =
  sg_ID :: int
  sg_Metric :: string
  sg_Tags :: string
  sg_MaxStep :: int
  sg_Priority :: int
  sg_Func :: string
  sg_Op :: string
  sg_RightValue :: string
  sg_Note :: string
  sg_RunBegin :: string
  sg_RunEnd :: string
  sg_TplId :: int

record expression_rec =
  xp_ID :: int
  xp_Expression :: string
  xp_Func :: string
  xp_Op :: string
  xp_RightValue :: string
  xp_MaxStep :: int
  xp_Priority :: int
  xp_Note :: string
  xp_ActionId :: int
  xp_CreateUser :: string
  xp_Pause :: int

record action_rec =
  an_ID :: int
  an_UIC :: string
  an_URL :: string
  an_Callback :: int
  an_BeforeCallbackSMS :: int
  an_BeforeCallbackMail :: int
  an_AfterCallbackSMS :: int
  an_AfterCallbackMail :: int

record plugin_row =
  pl_ID :: int
  pl_GrpId :: int
  pl_Dir :: string
  pl_CreateUser :: string

record mock_rec =
  mk_ID :: int
  mk_Name :: string
  mk_Obj :: string
  mk_ObjType :: string
  mk_Metric :: string
  mk_Tags :: string
  mk_DsType :: string
  mk_Step :: int
  mk_Mock :: float64
  mk_Creator :: string

record cluster_rec =
  ag_ID :: int
  ag_GrpId :: int
  ag_Numerator :: string
  ag_Denominator :: string
  ag_Endpoint :: string
  ag_Metric :: string
  ag_Tags :: string
  ag_DsType :: string
  ag_Step :: int
  ag_Creator :: string

record portal_ids =
  i_host :: int
  i_grp :: int
  i_tpl :: int
  i_strategy :: int
  i_expression :: int
  i_action :: int
  i_plugin :: int
  i_mockcfg :: int
  i_cluster :: int

record portal_db =
  t_host :: "portal_host list"
  t_grp :: "host_group list"
  t_grp_host :: "grp_host list"
  t_grp_tpl :: "grp_tpl list"
  t_tpl :: "tpl_row list"
  t_strategy :: "strategy_rec list"
  t_expression :: "expression_rec list"
  t_action :: "action_rec list"
  t_plugin :: "plugin_row list"
  t_mockcfg :: "mock_rec list"
  t_cluster :: "cluster_rec list"
  next_ids :: portal_ids

section \<open>Statements\<close>

text \<open>\<open>Find\<close> and \<open>Delete\<close> with a struct that has only its identifier.\<close>

definition find_id :: "('r \<Rightarrow> int) \<Rightarrow> int \<Rightarrow> 'r list \<Rightarrow> 'r option" where
  "find_id key i rows = find_last (\<lambda>r. i = 0 \<or> key r = i) rows"

definition delete_id :: "('r \<Rightarrow> int) \<Rightarrow> int \<Rightarrow> 'r list \<Rightarrow> 'r list" where
  "delete_id key i rows = delete_where (\<lambda>r. i = 0 \<or> key r = i) rows"

definition found :: "bool \<Rightarrow> 'r option \<Rightarrow> string + 'r" where
  "found okq r = (if okq then (case r of None \<Rightarrow> Inl not_found | Some x \<Rightarrow> Inr x) else Inl db_error)"

definition rollback :: "portal_db \<Rightarrow> portal_db \<Rightarrow> portal_db" where
  "rollback db tx = db\<lparr>next_ids := next_ids tx\<rparr>"

text \<open>\<open>Commit\<close>, whose error no handler looks at.\<close>

definition commit :: "bool \<Rightarrow> portal_db \<Rightarrow> portal_db \<Rightarrow> portal_db" where
  "commit okq db tx = (if okq then tx else rollback db tx)"

text \<open>Who the request is from: with a token for a user who is not there, a struct with the name only.\<close>

definition whoami :: "api_config \<Rightarrow> bool \<Rightarrow> apitoken \<Rightarrow> uic_db \<Rightarrow> api_user" where
  "whoami cfg okq tok uic =
    (case GetSession tok of
       Inl err \<Rightarrow> zero_user
     | Inr (name, sig) \<Rightarrow>
        (case (if okq then user_named cfg name uic else None) of None \<Rightarrow> zero_user\<lparr>us_Name := name\<rparr> | Some u \<Rightarrow> u))"

definition page_of :: "int \<times> int \<Rightarrow> 'r list \<Rightarrow> 'r list" where
  "page_of pl rows = (case pl of (page, limit) \<Rightarrow> if limit \<noteq> - 1 \<and> page \<noteq> - 1 then take (nat limit) (drop (nat page) rows) else rows)"

text \<open>The identifier in a path.\<close>

definition path_int :: "string \<Rightarrow> string \<Rightarrow> string + int" where
  "path_int what s = (if s = '''' then Inl (what @ '' is missing'') else case atoi s of Inl err \<Rightarrow> Inl ''atoi'' | Inr i \<Rightarrow> Inr i)"

section \<open>Host groups\<close>

definition bad :: "string \<Rightarrow> 'a resp" where "bad msg = RespErr StatusBadRequest msg"
definition unexpected :: "string \<Rightarrow> 'a resp" where "unexpected msg = RespErr StatusExpectationFailed msg"
definition no_permission :: string where "no_permission = ''You don't have permission!''"

definition GetHostGroups ::
    "(string \<Rightarrow> string \<Rightarrow> bool) \<Rightarrow> api_env \<Rightarrow> string \<Rightarrow> string \<Rightarrow> string \<Rightarrow> portal_db \<Rightarrow> host_group list resp" where
  "GetHostGroups matches ev pageTmp limitTmp q db =
    (case PageParser pageTmp limitTmp of
       Inl err \<Rightarrow> bad err
     | Inr pl \<Rightarrow> if \<not> ok ev 0 then unexpected db_error
         else RespOK (page_of pl (filter (\<lambda>g. matches q (hg_Name g)) (t_grp db))))"

definition CrateHostGroup ::
    "api_config \<Rightarrow> api_env \<Rightarrow> apitoken \<Rightarrow> string \<Rightarrow> uic_db \<Rightarrow> portal_db \<Rightarrow> portal_db \<times> host_group resp" where
  "CrateHostGroup cfg ev tok name uic db =
    (if name = '''' then (db, bad ''bind'')
     else let user = whoami cfg (ok ev 0) tok uic in
     if \<not> ok ev 1 \<or> list_ex (\<lambda>g. coll cfg (hg_Name g) = coll cfg name) (t_grp db) then (db, unexpected db_error)
     else let g = \<lparr>hg_ID = i_grp (next_ids db), hg_Name = name, hg_CreateUser = us_Name user, hg_ComeFrom = 1\<rparr>
       in (db\<lparr>t_grp := t_grp db @ [g], next_ids := (next_ids db)\<lparr>i_grp := i_grp (next_ids db) + 1\<rparr>\<rparr>, RespOK g))"

text \<open>
  A host that is not there yet is created with the request. Whether it is there is asked outside
  the transaction.
\<close>

definition insert_host :: "api_config \<Rightarrow> bool \<Rightarrow> string \<Rightarrow> portal_db \<Rightarrow> (portal_db \<times> int) option" where
  "insert_host cfg okq name tx =
    (if \<not> okq \<or> list_ex (\<lambda>h. coll cfg (ph_Hostname h) = coll cfg name) (t_host tx) then None
     else Some (tx\<lparr>t_host := t_host tx @ [\<lparr>ph_ID = i_host (next_ids tx), ph_Hostname = name, ph_Ip = '''', ph_AgentVersion = '''',
          ph_PluginVersion = '''', ph_MaintainBegin = 0, ph_MaintainEnd = 0\<rparr>],
        next_ids := (next_ids tx)\<lparr>i_host := i_host (next_ids tx) + 1\<rparr>\<rparr>, i_host (next_ids tx)))"

definition Existing :: "api_config \<Rightarrow> bool \<Rightarrow> string \<Rightarrow> portal_db \<Rightarrow> int option" where
  "Existing cfg okq name db =
    (case (if okq then find_last (\<lambda>h. coll cfg (ph_Hostname h) = coll cfg name) (t_host db) else None) of
       None \<Rightarrow> None | Some h \<Rightarrow> if ph_ID h \<noteq> 0 then Some (ph_ID h) else None)"

text \<open>The transaction, and whether all of its statements succeeded; three statements for a host.\<close>

fun bind_hosts :: "api_config \<Rightarrow> (nat \<Rightarrow> bool) \<Rightarrow> nat \<Rightarrow> portal_db \<Rightarrow> int \<Rightarrow> string list \<Rightarrow> portal_db \<Rightarrow> portal_db \<times> bool" where
  "bind_hosts cfg okq k db gid [] tx = (tx, True)"
| "bind_hosts cfg okq k db gid (h # hs) tx =
    (case (case Existing cfg (okq k) h db of Some i \<Rightarrow> Some (tx, i) | None \<Rightarrow> insert_host cfg (okq (k + 1)) h tx) of
       None \<Rightarrow> (tx, False)
     | Some (tx1, i) \<Rightarrow>
        if okq (k + 2) then bind_hosts cfg okq (k + 3) db gid hs (tx1\<lparr>t_grp_host := t_grp_host tx1 @ [\<lparr>gh_GrpID = gid, gh_HostID = i\<rparr>]\<rparr>)
        else (tx1, False))"

definition BindHostToHostGroup ::
    "api_config \<Rightarrow> api_env \<Rightarrow> apitoken \<Rightarrow> string list option \<Rightarrow> int \<Rightarrow> uic_db \<Rightarrow> portal_db \<Rightarrow> portal_db \<times> string resp" where
  "BindHostToHostGroup cfg ev tok hosts gid uic db =
    (case hosts of
       None \<Rightarrow> (db, bad ''bind'')
     | Some hs \<Rightarrow>
       if gid = 0 then (db, bad ''bind'')
       else let user = whoami cfg (ok ev 0) tok uic in
       case found (ok ev 1) (find_id hg_ID gid (t_grp db)) of
         Inl err \<Rightarrow> (db, unexpected err)
       | Inr hostgroup \<Rightarrow>
          if \<not> IsAdmin cfg user \<and> hg_CreateUser hostgroup \<noteq> us_Name user then (db, unexpected no_permission)
          else if \<not> ok ev 2 then (db, unexpected db_error)
          else let tx0 = db\<lparr>t_grp_host := delete_where (\<lambda>r. gh_GrpID r = hg_ID hostgroup) (t_grp_host db)\<rparr>;
                   (tx, complete) = bind_hosts cfg (ok ev) 4 db (hg_ID hostgroup) hs tx0
            in if complete then (commit (ok ev 3) db tx, RespOK ''bind to hostgroup'')
               else (rollback db tx, unexpected db_error))"

text \<open>The check of operations on what belongs to a group: an administrator, or who created the group.\<close>

definition may_group :: "api_config \<Rightarrow> bool \<Rightarrow> api_user \<Rightarrow> int \<Rightarrow> portal_db \<Rightarrow> string + bool" where
  "may_group cfg okq user gid db =
    (if IsAdmin cfg user then Inr True
     else case found okq (find_id hg_ID gid (t_grp db)) of
       Inl err \<Rightarrow> Inl err
     | Inr g \<Rightarrow> Inr (hg_CreateUser g = us_Name user))"

definition UnBindAHostToHostGroup ::
    "api_config \<Rightarrow> api_env \<Rightarrow> apitoken \<Rightarrow> int \<Rightarrow> int \<Rightarrow> uic_db \<Rightarrow> portal_db \<Rightarrow> portal_db \<times> string resp" where
  "UnBindAHostToHostGroup cfg ev tok hid gid uic db =
    (if hid = 0 \<or> gid = 0 then (db, bad ''bind'')
     else case may_group cfg (ok ev 1) (whoami cfg (ok ev 0) tok uic) gid db of
       Inl err \<Rightarrow> (db, bad err)
     | Inr may \<Rightarrow>
        if \<not> may then (db, bad no_permission)
        else if \<not> ok ev 2 then (db, unexpected db_error)
        else (db\<lparr>t_grp_host := delete_where (\<lambda>r. gh_GrpID r = gid \<and> gh_HostID r = hid) (t_grp_host db)\<rparr>,
          RespOK ''unbind host of hostgroup''))"

definition DeleteHostGroup :: "api_config \<Rightarrow> api_env \<Rightarrow> apitoken \<Rightarrow> string \<Rightarrow> uic_db \<Rightarrow> portal_db \<Rightarrow> portal_db \<times> string resp" where
  "DeleteHostGroup cfg ev tok host_group uic db =
    (case path_int ''grp id'' host_group of
       Inl err \<Rightarrow> (db, bad err)
     | Inr gid \<Rightarrow>
       (case may_group cfg (ok ev 1) (whoami cfg (ok ev 0) tok uic) gid db of
          Inl err \<Rightarrow> (db, bad err)
        | Inr may \<Rightarrow>
           if \<not> may then (db, bad no_permission)
           else if \<not> (ok ev 2 \<and> ok ev 3 \<and> ok ev 4 \<and> ok ev 5) then (db, unexpected db_error)
           else (commit (ok ev 6) db (db\<lparr>t_grp_host := delete_where (\<lambda>r. gh_GrpID r = gid) (t_grp_host db),
                t_plugin := delete_where (\<lambda>r. pl_GrpId r = gid) (t_plugin db),
                t_cluster := delete_where (\<lambda>r. ag_GrpId r = gid) (t_cluster db),
                t_grp := delete_id hg_ID gid (t_grp db)\<rparr>),
             RespOK ''hostgroup has been deleted'')))"

text \<open>The hosts of a group, one query for each; \<open>matches\<close> is a regular expression of Go.\<close>

fun group_hosts_of :: "(string \<Rightarrow> string \<Rightarrow> bool) \<Rightarrow> (nat \<Rightarrow> bool) \<Rightarrow> nat \<Rightarrow> string \<Rightarrow> grp_host list \<Rightarrow> portal_db \<Rightarrow> portal_host list" where
  "group_hosts_of matches okq k q [] db = []"
| "group_hosts_of matches okq k q (r # rs) db =
    (case (if okq k then find_last (\<lambda>h. ph_ID h = gh_HostID r) (t_host db) else None) of
       None \<Rightarrow> []
     | Some h \<Rightarrow> if ph_ID h \<noteq> 0 \<and> matches q (ph_Hostname h) then [h] else []) @ group_hosts_of matches okq (Suc k) q rs db"

definition GetHostGroup ::
    "(string \<Rightarrow> string \<Rightarrow> bool) \<Rightarrow> api_env \<Rightarrow> string \<Rightarrow> string \<Rightarrow> portal_db \<Rightarrow> (host_group \<times> portal_host list) resp" where
  "GetHostGroup matches ev host_group q db =
    (case path_int ''grp id'' host_group of
       Inl err \<Rightarrow> bad err
     | Inr gid \<Rightarrow>
       (case found (ok ev 0) (find_id hg_ID gid (t_grp db)) of
          Inl err \<Rightarrow> unexpected err
        | Inr g \<Rightarrow>
           if \<not> ok ev 1 then unexpected db_error
           else RespOK (g, group_hosts_of matches (ok ev) 2 q (filter (\<lambda>r. gh_GrpID r = gid) (t_grp_host db)) db)))"

definition PutHostGroup :: "api_config \<Rightarrow> api_env \<Rightarrow> int \<Rightarrow> string \<Rightarrow> portal_db \<Rightarrow> portal_db \<times> string resp" where
  "PutHostGroup cfg ev gid name db =
    (if gid = 0 \<or> name = '''' then (db, bad ''bind'')
     else if HasDangerousCharacters name then (db, bad ''grp_name is invalid'')
     else case found (ok ev 0) (find_id hg_ID gid (t_grp db)) of
       Inl err \<Rightarrow> (db, unexpected err)
     | Inr g \<Rightarrow>
        if \<not> ok ev 1 \<or> list_ex (\<lambda>h. hg_ID h \<noteq> gid \<and> coll cfg (hg_Name h) = coll cfg name) (t_grp db) then (db, bad db_error)
        else (db\<lparr>t_grp := update_where (\<lambda>h. hg_ID h = gid)
              (\<lambda>h. h\<lparr>hg_Name := name, hg_CreateUser := hg_CreateUser g, hg_ComeFrom := hg_ComeFrom g\<rparr>) (t_grp db)\<rparr>,
            RespOK ''hostgroup profile updated''))"

definition BindTemplateToGroup ::
    "api_config \<Rightarrow> api_env \<Rightarrow> apitoken \<Rightarrow> int \<Rightarrow> int \<Rightarrow> uic_db \<Rightarrow> portal_db \<Rightarrow> portal_db \<times> string resp" where
  "BindTemplateToGroup cfg ev tok tid gid uic db =
    (let user = whoami cfg (ok ev 0) tok uic;
         old = (if ok ev 1 then find_last (\<lambda>r. gt_GrpID r = gid \<and> gt_TplID r = tid) (t_grp_tpl db) else None)
     in if (case old of None \<Rightarrow> False | Some r \<Rightarrow> gt_BindUser r \<noteq> '''')
        then (db, bad ''this binding already existing, reject!'')
        else if \<not> ok ev 2 then (db, bad db_error)
        else (db\<lparr>t_grp_tpl := t_grp_tpl db @ [\<lparr>gt_GrpID = gid, gt_TplID = tid, gt_BindUser = us_Name user\<rparr>]\<rparr>, RespOK ''bound''))"

definition UnBindTemplateToGroup ::
    "api_config \<Rightarrow> api_env \<Rightarrow> apitoken \<Rightarrow> int \<Rightarrow> int \<Rightarrow> uic_db \<Rightarrow> portal_db \<Rightarrow> portal_db \<times> string resp" where
  "UnBindTemplateToGroup cfg ev tok tid gid uic db =
    (let user = whoami cfg (ok ev 0) tok uic;
         old = (if ok ev 1 then find_last (\<lambda>r. gt_GrpID r = gid \<and> gt_TplID r = tid) (t_grp_tpl db) else None);
         bind_user = (case old of None \<Rightarrow> '''' | Some r \<Rightarrow> gt_BindUser r)
     in if \<not> IsAdmin cfg user \<and> bind_user \<noteq> us_Name user then (db, bad ''You don't have permission can do this.'')
        else if \<not> ok ev 2 then (db, bad db_error)
        else (db\<lparr>t_grp_tpl := delete_where (\<lambda>r. gt_GrpID r = gid \<and> gt_TplID r = tid) (t_grp_tpl db)\<rparr>,
          RespOK ''template is unbind of HostGroup''))"

definition GetTemplateOfHostGroup :: "api_env \<Rightarrow> string \<Rightarrow> portal_db \<Rightarrow> (host_group \<times> tpl_row list) resp" where
  "GetTemplateOfHostGroup ev host_group db =
    (case path_int ''grp id'' host_group of
       Inl err \<Rightarrow> bad err
     | Inr gid \<Rightarrow>
       (case found (ok ev 0) (find_id hg_ID gid (t_grp db)) of
          Inl err \<Rightarrow> unexpected err
        | Inr g \<Rightarrow>
           (let tids = (if ok ev 1 then map gt_TplID (filter (\<lambda>r. gt_GrpID r = gid) (t_grp_tpl db)) else [])
            in RespOK (g, if tids = [] \<or> \<not> ok ev 2 then [] else filter (\<lambda>t. tp_ID t \<in> set tids) (t_tpl db)))))"

section \<open>Hosts\<close>

text \<open>The errors of the queries are not looked at: a failing query finds nothing, and \<open>in ()\<close> fails.\<close>

definition RelatedGrp :: "(nat \<Rightarrow> bool) \<Rightarrow> portal_host \<Rightarrow> portal_db \<Rightarrow> host_group list" where
  "RelatedGrp okq h db =
    (let gids = (if okq 0 then map gh_GrpID (filter (\<lambda>r. gh_HostID r = ph_ID h) (t_grp_host db)) else [])
     in if okq 1 \<and> gids \<noteq> [] then filter (\<lambda>g. hg_ID g \<in> set gids) (t_grp db) else [])"

definition RelatedTpl :: "(nat \<Rightarrow> bool) \<Rightarrow> portal_host \<Rightarrow> portal_db \<Rightarrow> tpl_row list" where
  "RelatedTpl okq h db =
    (let gids = map hg_ID (RelatedGrp okq h db);
         tids = (if okq 2 \<and> gids \<noteq> [] then map gt_TplID (filter (\<lambda>r. gt_GrpID r \<in> set gids) (t_grp_tpl db)) else [])
     in if okq 3 \<and> tids \<noteq> [] then filter (\<lambda>t. tp_ID t \<in> set tids) (t_tpl db) else [])"

definition GetGrpsRelatedHost :: "api_env \<Rightarrow> string \<Rightarrow> portal_db \<Rightarrow> host_group list resp" where
  "GetGrpsRelatedHost ev host_id db =
    (case path_int ''host id'' host_id of
       Inl err \<Rightarrow> bad err
     | Inr hid \<Rightarrow>
       (case found (ok ev 0) (find_id ph_ID hid (t_host db)) of
          Inl err \<Rightarrow> unexpected err | Inr h \<Rightarrow> RespOK (RelatedGrp (\<lambda>k. ok ev (k + 1)) h db)))"

definition GetTplsRelatedHost :: "api_env \<Rightarrow> string \<Rightarrow> portal_db \<Rightarrow> tpl_row list resp" where
  "GetTplsRelatedHost ev host_id db =
    (case path_int ''host id'' host_id of
       Inl err \<Rightarrow> bad err
     | Inr hid \<Rightarrow>
       (case found (ok ev 0) (find_id ph_ID hid (t_host db)) of
          Inl err \<Rightarrow> unexpected err | Inr h \<Rightarrow> RespOK (RelatedTpl (\<lambda>k. ok ev (k + 1)) h db)))"

text \<open>Two handlers without a route.\<close>

definition GetHostBindToWhichHostGroup :: "api_env \<Rightarrow> string \<Rightarrow> portal_db \<Rightarrow> host_group list resp" where
  "GetHostBindToWhichHostGroup ev host_id db =
    (case path_int ''host id'' host_id of
       Inl err \<Rightarrow> bad err
     | Inr hid \<Rightarrow>
       (let gids = (if ok ev 0 then map gh_GrpID (filter (\<lambda>r. gh_HostID r = hid) (t_grp_host db)) else [])
        in RespOK (if gids = [] \<or> \<not> ok ev 1 then [] else filter (\<lambda>g. hg_ID g \<in> set gids) (t_grp db))))"

definition GetHostGroupWithTemplate :: "api_env \<Rightarrow> string \<Rightarrow> portal_db \<Rightarrow> (host_group \<times> portal_host list) resp" where
  "GetHostGroupWithTemplate ev host_group db = GetHostGroup (\<lambda>q n. True) ev host_group '''' db"

section \<open>Plugins\<close>

definition CreatePlugin ::
    "api_config \<Rightarrow> api_env \<Rightarrow> apitoken \<Rightarrow> int \<Rightarrow> string \<Rightarrow> uic_db \<Rightarrow> portal_db \<Rightarrow> portal_db \<times> plugin_row resp" where
  "CreatePlugin cfg ev tok gid dir uic db =
    (if gid = 0 \<or> dir = '''' then (db, bad ''bind'')
     else let user = whoami cfg (ok ev 0) tok uic in
     case may_group cfg (ok ev 1) user gid db of
       Inl err \<Rightarrow> (db, unexpected err)
     | Inr may \<Rightarrow>
        if \<not> may then (db, bad no_permission)
        else if \<not> ok ev 2 then (db, unexpected db_error)
        else let p = \<lparr>pl_ID = i_plugin (next_ids db), pl_GrpId = gid, pl_Dir = dir, pl_CreateUser = us_Name user\<rparr>
          in (db\<lparr>t_plugin := t_plugin db @ [p], next_ids := (next_ids db)\<lparr>i_plugin := i_plugin (next_ids db) + 1\<rparr>\<rparr>, RespOK p))"

definition GetPluginOfGrp :: "api_env \<Rightarrow> string \<Rightarrow> portal_db \<Rightarrow> plugin_row list resp" where
  "GetPluginOfGrp ev host_group db =
    (case path_int ''grp id'' host_group of
       Inl err \<Rightarrow> bad err
     | Inr gid \<Rightarrow> if \<not> ok ev 0 then unexpected db_error else RespOK (filter (\<lambda>p. pl_GrpId p = gid) (t_plugin db)))"

definition DeletePlugin :: "api_config \<Rightarrow> api_env \<Rightarrow> apitoken \<Rightarrow> string \<Rightarrow> uic_db \<Rightarrow> portal_db \<Rightarrow> portal_db \<times> string resp" where
  "DeletePlugin cfg ev tok plugin_id uic db =
    (case path_int ''plugin id'' plugin_id of
       Inl err \<Rightarrow> (db, bad err)
     | Inr pid \<Rightarrow>
       (case found (ok ev 0) (find_id pl_ID pid (t_plugin db)) of
          Inl err \<Rightarrow> (db, unexpected err)
        | Inr p \<Rightarrow>
          (let user = whoami cfg (ok ev 1) tok uic
           in case may_group cfg (ok ev 2) user (pl_GrpId p) db of
             Inl err \<Rightarrow> (db, unexpected err)
           | Inr may \<Rightarrow>
              if \<not> may \<and> pl_CreateUser p \<noteq> us_Name user then (db, bad no_permission)
              else if \<not> ok ev 3 then (db, unexpected db_error)
              else (db\<lparr>t_plugin := delete_id pl_ID (pl_ID p) (t_plugin db)\<rparr>, RespOK ''plugin has been deleted''))))"

section \<open>Maintenance\<close>

text \<open>By names when there are any, by identifiers otherwise.\<close>

definition in_hosts :: "api_config \<Rightarrow> string list \<Rightarrow> int list \<Rightarrow> portal_host \<Rightarrow> bool" where
  "in_hosts cfg hosts ids h \<longleftrightarrow>
    (if hosts \<noteq> [] then coll cfg (ph_Hostname h) \<in> coll cfg ` set hosts else ph_ID h \<in> set ids)"

definition maintain :: "api_config \<Rightarrow> api_env \<Rightarrow> string list \<Rightarrow> int list \<Rightarrow> int64 \<Rightarrow> int64 \<Rightarrow> portal_db \<Rightarrow> portal_db \<times> string resp" where
  "maintain cfg ev hosts ids b e db =
    (if hosts = [] \<and> ids = [] then (db, bad ''hosts or ids is required'')
     else if \<not> ok ev 0 then (db, bad db_error)
     else (db\<lparr>t_host := update_where (in_hosts cfg hosts ids) (\<lambda>h. h\<lparr>ph_MaintainBegin := b, ph_MaintainEnd := e\<rparr>) (t_host db)\<rparr>,
       RespOK (if hosts \<noteq> [] then ''Through: hosts'' else ''Through: ids'')))"

definition SetMaintain :: "api_config \<Rightarrow> api_env \<Rightarrow> string list \<Rightarrow> int list \<Rightarrow> int64 \<Rightarrow> int64 \<Rightarrow> portal_db \<Rightarrow> portal_db \<times> string resp" where
  "SetMaintain cfg ev hosts ids b e db = (if b = 0 \<or> e = 0 then (db, bad ''bind'') else maintain cfg ev hosts ids b e db)"

definition UnsetMaintain :: "api_config \<Rightarrow> api_env \<Rightarrow> string list \<Rightarrow> int list \<Rightarrow> portal_db \<Rightarrow> portal_db \<times> string resp" where
  "UnsetMaintain cfg ev hosts ids db = maintain cfg ev hosts ids 0 0 db"

end
