(* ===== verification/Api_Template.thy ===== *)
theory Api_Template
  imports Api_Portal Go_Regexp
begin

text \<open>
  Templates, their actions and their strategies (\<open>app/controller/template\<close>, \<open>app/controller/strategy\<close>).
\<close>

section \<open>Templates\<close>

text \<open>A parent that is not found has no name; its error is logged only.\<close>

definition FindParentName :: "bool \<Rightarrow> tpl_row \<Rightarrow> portal_db \<Rightarrow> string" where
  "FindParentName okq t db =
    (if tp_ParentID t = 0 then ''''
     else case found okq (find_id tp_ID (tp_ParentID t) (t_tpl db)) of Inl err \<Rightarrow> '''' | Inr p \<Rightarrow> tp_Name p)"

text \<open>
  For a page the text of the query is put into the SQL without quotes: \<open>sqlq\<close> is what the database
  reads it as, if anything.
\<close>

definition GetTemplates ::
    "(string \<Rightarrow> string \<Rightarrow> bool) \<Rightarrow> (string \<Rightarrow> string option) \<Rightarrow> api_env \<Rightarrow> string \<Rightarrow> string \<Rightarrow> string \<Rightarrow> portal_db
      \<Rightarrow> (tpl_row \<times> string) list resp" where
  "GetTemplates matches sqlq ev pageTmp limitTmp q db =
    (case PageParser pageTmp limitTmp of
       Inl err \<Rightarrow> bad err
     | Inr (page, limit) \<Rightarrow>
       (case (if limit \<noteq> - 1 \<and> page \<noteq> - 1 then sqlq q else Some q) of
          None \<Rightarrow> bad db_error
        | Some q' \<Rightarrow>
           if \<not> ok ev 0 then bad db_error
           else RespOK (map (\<lambda>(i, t). (t, FindParentName (ok ev (i + 1)) t db))
             (List.enumerate 0 (page_of (page, limit) (filter (\<lambda>t. matches q' (tp_Name t)) (t_tpl db)))))))"

definition GetTemplatesSimple :: "(string \<Rightarrow> string \<Rightarrow> bool) \<Rightarrow> api_env \<Rightarrow> string \<Rightarrow> portal_db \<Rightarrow> (int \<times> string) list resp" where
  "GetTemplatesSimple matches ev q db =
    (if \<not> ok ev 0 then bad db_error
     else RespOK (map (\<lambda>t. (tp_ID t, tp_Name t)) (filter (\<lambda>t. matches q (tp_Name t)) (t_tpl db))))"

text \<open>A search by a number is by the identifier, also for zero.\<close>

definition find_key :: "('r \<Rightarrow> int) \<Rightarrow> int \<Rightarrow> 'r list \<Rightarrow> 'r option" where
  "find_key key i rows = find_last (\<lambda>r. key r = i) rows"

definition zero_action :: action_rec where
  "zero_action = \<lparr>an_ID = 0, an_UIC = '''', an_URL = '''', an_Callback = 0, an_BeforeCallbackSMS = 0,
    an_BeforeCallbackMail = 0, an_AfterCallbackSMS = 0, an_AfterCallbackMail = 0\<rparr>"

record template_view =
  tv_template :: tpl_row
  tv_strategies :: "strategy_rec list"
  tv_action :: action_rec
  tv_parent_name :: string

definition GetATemplate :: "api_env \<Rightarrow> string \<Rightarrow> portal_db \<Rightarrow> template_view resp" where
  "GetATemplate ev tpl_id db =
    (case path_int ''tpl_id'' tpl_id of
       Inl err \<Rightarrow> bad err
     | Inr tid \<Rightarrow>
       (case found (ok ev 0) (find_key tp_ID tid (t_tpl db)) of
          Inl err \<Rightarrow> bad err
        | Inr tpl \<Rightarrow>
           if \<not> ok ev 1 then bad db_error
           else (case (if tp_ActionID tpl = 0 then Inr zero_action
                else found (ok ev 2) (find_key an_ID (tp_ActionID tpl) (t_action db))) of
               Inl err \<Rightarrow> bad err
             | Inr action \<Rightarrow> RespOK \<lparr>tv_template = tpl, tv_strategies = filter (\<lambda>s. sg_TplId s = tid) (t_strategy db),
                 tv_action = action, tv_parent_name = FindParentName (ok ev 3) tpl db\<rparr>)))"

definition name_taken :: "api_config \<Rightarrow> int \<Rightarrow> string \<Rightarrow> portal_db \<Rightarrow> bool" where
  "name_taken cfg tid name db \<longleftrightarrow> list_ex (\<lambda>t. tp_ID t \<noteq> tid \<and> coll cfg (tp_Name t) = coll cfg name) (t_tpl db)"

definition CreateTemplate ::
    "api_config \<Rightarrow> api_env \<Rightarrow> apitoken \<Rightarrow> string \<Rightarrow> int \<Rightarrow> int \<Rightarrow> uic_db \<Rightarrow> portal_db \<Rightarrow> portal_db \<times> string resp" where
  "CreateTemplate cfg ev tok name parent_id action_id uic db =
    (if name = '''' then (db, bad ''bind'')
     else case GetUser cfg (ok ev 0) uic tok of
       Inl err \<Rightarrow> (db, bad err)
     | Inr user \<Rightarrow>
        if \<not> ok ev 1 \<or> name_taken cfg 0 name db then (db, bad db_error)
        else (db\<lparr>t_tpl := t_tpl db @ [\<lparr>tp_ID = i_tpl (next_ids db), tp_Name = name, tp_ParentID = parent_id,
              tp_ActionID = action_id, tp_CreateUser = us_Name user\<rparr>],
            next_ids := (next_ids db)\<lparr>i_tpl := i_tpl (next_ids db) + 1\<rparr>\<rparr>, RespOK ''template created''))"

definition UpdateTemplate ::
    "api_config \<Rightarrow> api_env \<Rightarrow> apitoken \<Rightarrow> int \<Rightarrow> string \<Rightarrow> int \<Rightarrow> uic_db \<Rightarrow> portal_db \<Rightarrow> portal_db \<times> string resp" where
  "UpdateTemplate cfg ev tok tid name parent_id uic db =
    (if name = '''' \<or> tid = 0 then (db, bad ''bind'')
     else case GetUser cfg (ok ev 0) uic tok of
       Inl err \<Rightarrow> (db, bad err)
     | Inr user \<Rightarrow>
       (case found (ok ev 1) (find_key tp_ID tid (t_tpl db)) of
          Inl err \<Rightarrow> (db, bad err)
        | Inr tpl \<Rightarrow>
           if tp_CreateUser tpl \<noteq> us_Name user \<and> \<not> IsAdmin cfg user then (db, bad no_permission)
           else if \<not> ok ev 2 \<or> name_taken cfg tid name db then (db, bad db_error)
           else (db\<lparr>t_tpl := update_where (\<lambda>t. tp_ID t = tid) (\<lambda>t. t\<lparr>tp_Name := name, tp_ParentID := parent_id\<rparr>) (t_tpl db)\<rparr>,
             RespOK ''template updated'')))"

definition DeleteTemplate :: "api_env \<Rightarrow> string \<Rightarrow> portal_db \<Rightarrow> portal_db \<times> string resp" where
  "DeleteTemplate ev tpl_id db =
    (case path_int ''tpl_id'' tpl_id of
       Inl err \<Rightarrow> (db, bad err)
     | Inr tid \<Rightarrow>
       (case found (ok ev 0) (find_key tp_ID tid (t_tpl db)) of
          Inl err \<Rightarrow> (db, bad err)
        | Inr tpl \<Rightarrow>
          (let actionId = tp_ActionID tpl in
           if \<not> (ok ev 1 \<and> (actionId = 0 \<or> ok ev 2) \<and> ok ev 3 \<and> ok ev 4) then (db, bad db_error)
           else (commit (ok ev 5) db
              (db\<lparr>t_tpl := delete_id tp_ID (tp_ID tpl) (t_tpl db),
                 t_action := (if actionId = 0 then t_action db else delete_where (\<lambda>a. an_ID a = actionId) (t_action db)),
                 t_strategy := delete_where (\<lambda>s. sg_TplId s = tid) (t_strategy db),
                 t_grp_tpl := delete_where (\<lambda>r. gt_TplID r = tid) (t_grp_tpl db)\<rparr>),
              RespOK ''template has been deleted''))))"

definition GetATemplateHostgroup :: "api_env \<Rightarrow> string \<Rightarrow> portal_db \<Rightarrow> (tpl_row \<times> host_group list) resp" where
  "GetATemplateHostgroup ev tpl_id db =
    (case path_int ''tpl_id'' tpl_id of
       Inl err \<Rightarrow> bad err
     | Inr tid \<Rightarrow>
       (case found (ok ev 0) (find_key tp_ID tid (t_tpl db)) of
          Inl err \<Rightarrow> bad err
        | Inr tpl \<Rightarrow>
          (let gids = (if ok ev 1 then map gt_GrpID (filter (\<lambda>r. gt_TplID r = tid) (t_grp_tpl db)) else [])
           in RespOK (tpl, if gids = [] \<or> \<not> ok ev 2 then [] else filter (\<lambda>g. hg_ID g \<in> set gids) (t_grp db)))))"

section \<open>Actions\<close>

definition insert_action :: "action_rec \<Rightarrow> portal_db \<Rightarrow> portal_db \<times> int" where
  "insert_action a tx =
    (tx\<lparr>t_action := t_action tx @ [a\<lparr>an_ID := i_action (next_ids tx)\<rparr>],
       next_ids := (next_ids tx)\<lparr>i_action := i_action (next_ids tx) + 1\<rparr>\<rparr>, i_action (next_ids tx))"

text \<open>
  The identifier of the new action is asked for with a query; when that query fails, indexing its
  empty answer panics, the web framework answers 500 and the transaction never ends.
\<close>

definition CreateActionToTmplate :: "api_env \<Rightarrow> action_rec \<Rightarrow> int \<Rightarrow> portal_db \<Rightarrow> portal_db \<times> string resp" where
  "CreateActionToTmplate ev inputs tid db =
    (if tid = 0 then (db, bad ''bind'')
     else if \<not> ok ev 0 then (db, bad db_error)
     else let (tx, aid) = insert_action inputs db in
     if \<not> ok ev 1 then (rollback db tx, RespErr 500 '''')
     else case found (ok ev 2) (find_key tp_ID tid (t_tpl tx)) of
       Inl err \<Rightarrow> (rollback db tx, bad err)
     | Inr tpl \<Rightarrow>
        if \<not> ok ev 3 then (rollback db tx, bad db_error)
        else (commit (ok ev 4) db
            (tx\<lparr>t_tpl := update_where (\<lambda>t. tp_ID t = tp_ID tpl) (\<lambda>t. t\<lparr>tp_ActionID := aid\<rparr>) (t_tpl tx)\<rparr>),
          RespOK ''action is created and bind to template''))"

text \<open>All columns but the identifier.\<close>

definition update_action :: "action_rec \<Rightarrow> action_rec \<Rightarrow> action_rec" where
  "update_action inputs a = inputs\<lparr>an_ID := an_ID a\<rparr>"

definition UpdateActionToTmplate :: "api_env \<Rightarrow> int \<Rightarrow> action_rec \<Rightarrow> portal_db \<Rightarrow> portal_db \<times> string resp" where
  "UpdateActionToTmplate ev aid inputs db =
    (if aid = 0 then (db, bad ''bind'')
     else case found (ok ev 0) (find_key an_ID aid (t_action db)) of
       Inl err \<Rightarrow> (db, bad err)
     | Inr action \<Rightarrow>
        if \<not> ok ev 1 then (db, bad db_error)
        else (commit (ok ev 2) db (db\<lparr>t_action := update_where (\<lambda>a. an_ID a = aid) (update_action inputs) (t_action db)\<rparr>),
          RespOK ''action is updated''))"

definition GetActionByID :: "api_env \<Rightarrow> string \<Rightarrow> portal_db \<Rightarrow> action_rec resp" where
  "GetActionByID ev act_id db =
    (case atoi act_id of
       Inl err \<Rightarrow> bad ''invalid action id''
     | Inr aid \<Rightarrow>
       (case found (ok ev 0) (find_first an_ID (\<lambda>a. an_ID a = aid) (t_action db)) of Inl err \<Rightarrow> bad err | Inr a \<Rightarrow> RespOK a))"

section \<open>Strategies\<close>

definition validOp :: rx where
  "validOp = RSeq (RChar (\<lambda>c. c \<in> set ''>=<!'')) (ROpt (RLit ''=''))"

definition validRightValue :: rx where
  "validRightValue = RSeq (ROpt (RLit ''-'')) (RSeq (RPlus (RChar is_digit)) (ROpt (RSeq (RLit ''.'') (RPlus (RChar is_digit)))))"

definition validDigits :: rx where
  "validDigits = RPlus (RChar is_digit)"

definition validTime :: rx where
  "validTime = RSeq (RChar is_digit) (RSeq (RChar is_digit) (RSeq (RLit '':'') (RSeq (RChar is_digit) (RChar is_digit))))"

text \<open>The body of a request; \<open>CheckFormat\<close> for a new strategy and, with another pattern, for an update.\<close>

record strategy_input =
  si_Metric :: string
  si_Tags :: string
  si_MaxStep :: int
  si_Priority :: int
  si_Func :: string
  si_Op :: string
  si_RightValue :: string
  si_Note :: string
  si_RunBegin :: string
  si_RunEnd :: string

definition check_strategy :: "rx \<Rightarrow> strategy_input \<Rightarrow> string option" where
  "check_strategy right i =
    (if \<not> rx_match validOp (si_Op i) then Some ''op's formating is not vaild''
     else if \<not> rx_match right (si_RightValue i) then Some ''right_value's formating is not vaild''
     else if \<not> rx_match validTime (si_RunBegin i) \<and> si_RunBegin i \<noteq> '''' then Some ''run_begin's formating is not vaild, please refer ex. 00:00''
     else if \<not> rx_match validTime (si_RunEnd i) \<and> si_RunEnd i \<noteq> '''' then Some ''run_end's formating is not vaild, please refer ex. 24:00''
     else None)"

definition CheckFormat_create :: "strategy_input \<Rightarrow> string option" where
  "CheckFormat_create i = check_strategy validRightValue i"

definition CheckFormat_update :: "strategy_input \<Rightarrow> string option" where
  "CheckFormat_update i = check_strategy validDigits i"

definition bind_strategy :: "int \<Rightarrow> strategy_input \<Rightarrow> bool" where
  "bind_strategy i inputs \<longleftrightarrow> si_Metric inputs \<noteq> '''' \<and> si_MaxStep inputs \<noteq> 0 \<and> si_Func inputs \<noteq> '''' \<and>
    si_Op inputs \<noteq> '''' \<and> si_RightValue inputs \<noteq> '''' \<and> i \<noteq> 0"

definition strategy_of :: "int \<Rightarrow> int \<Rightarrow> strategy_input \<Rightarrow> strategy_rec" where
  "strategy_of i tid inputs =
    \<lparr>sg_ID = i, sg_Metric = si_Metric inputs, sg_Tags = si_Tags inputs, sg_MaxStep = si_MaxStep inputs,
     sg_Priority = si_Priority inputs, sg_Func = si_Func inputs, sg_Op = si_Op inputs, sg_RightValue = si_RightValue inputs,
     sg_Note = si_Note inputs, sg_RunBegin = si_RunBegin inputs, sg_RunEnd = si_RunEnd inputs, sg_TplId = tid\<rparr>"

definition GetStrategys :: "api_env \<Rightarrow> string \<Rightarrow> portal_db \<Rightarrow> strategy_rec list resp" where
  "GetStrategys ev tid db =
    (case path_int ''tid'' tid of
       Inl err \<Rightarrow> bad err
     | Inr t \<Rightarrow> if \<not> ok ev 0 then bad db_error else RespOK (filter (\<lambda>s. sg_TplId s = t) (t_strategy db)))"

definition CreateStrategy :: "api_env \<Rightarrow> strategy_input \<Rightarrow> int \<Rightarrow> portal_db \<Rightarrow> portal_db \<times> string resp" where
  "CreateStrategy ev inputs tid db =
    (if \<not> bind_strategy tid inputs then (db, bad ''bind'')
     else case CheckFormat_create inputs of
       Some err \<Rightarrow> (db, bad err)
     | None \<Rightarrow>
        if \<not> ok ev 0 then (db, unexpected db_error)
        else (db\<lparr>t_strategy := t_strategy db @ [strategy_of (i_strategy (next_ids db)) tid inputs],
            next_ids := (next_ids db)\<lparr>i_strategy := i_strategy (next_ids db) + 1\<rparr>\<rparr>, RespOK ''stragtegy created''))"

definition GetStrategy :: "api_env \<Rightarrow> string \<Rightarrow> portal_db \<Rightarrow> strategy_rec resp" where
  "GetStrategy ev sid db =
    (case path_int ''sid'' sid of
       Inl err \<Rightarrow> bad err
     | Inr s \<Rightarrow>
       (case found (ok ev 0) (find_id sg_ID s (t_strategy db)) of Inl err \<Rightarrow> bad err | Inr r \<Rightarrow> RespOK r))"

definition UpdateStrategy :: "api_env \<Rightarrow> strategy_input \<Rightarrow> int \<Rightarrow> portal_db \<Rightarrow> portal_db \<times> string resp" where
  "UpdateStrategy ev inputs sid db =
    (if \<not> bind_strategy sid inputs then (db, bad ''bind'')
     else case CheckFormat_update inputs of
       Some err \<Rightarrow> (db, bad err)
     | None \<Rightarrow>
       (case found (ok ev 0) (find_id sg_ID sid (t_strategy db)) of
          Inl err \<Rightarrow> (db, unexpected (''find strategy got error:'' @ err))
        | Inr s \<Rightarrow>
           if \<not> ok ev 1 then (db, unexpected db_error)
           else (db\<lparr>t_strategy := update_where (\<lambda>r. sg_ID r = sg_ID s) (\<lambda>r. strategy_of (sg_ID r) (sg_TplId r) inputs) (t_strategy db)\<rparr>,
             RespOK ''stragtegy has been updated'')))"

definition DeleteStrategy :: "api_env \<Rightarrow> string \<Rightarrow> portal_db \<Rightarrow> portal_db \<times> string resp" where
  "DeleteStrategy ev sid db =
    (case path_int ''sid'' sid of
       Inl err \<Rightarrow> (db, bad err)
     | Inr s \<Rightarrow>
        if \<not> ok ev 0 then (db, bad db_error)
        else (db\<lparr>t_strategy := delete_id sg_ID s (t_strategy db)\<rparr>, RespOK ''strategy has been deleted''))"

text \<open>\<open>data\<close> is the file of metrics, if it can be read.\<close>

definition MetricQuery :: "string option \<Rightarrow> string list resp" where
  "MetricQuery data = (case data of None \<Rightarrow> bad ''open'' | Some s \<Rightarrow> RespOK (go_split (CHR 0x0A) s))"

end
