(* ===== verification/Api_Expression.thy ===== *)
theory Api_Expression
  imports Api_Template
begin

text \<open>
  Expressions (\<open>app/controller/expression\<close>), the mock values of nodata (\<open>app/controller/mockcfg\<close>) and
  the aggregations of groups (\<open>app/controller/host/aggreator_controller.go\<close>).
\<close>

section \<open>Expressions\<close>

text \<open>The body of a request; the users of the action are a list, \<open>None\<close> when it is missing.\<close>

record expression_input =
  ei_Expression :: string
  ei_Func :: string
  ei_Op :: string
  ei_RightValue :: string
  ei_MaxStep :: int
  ei_Priority :: int
  ei_Note :: string
  ei_Pause :: int
  ei_UIC :: "string list option"
  ei_Action :: action_rec

definition bind_expression :: "expression_input \<Rightarrow> bool" where
  "bind_expression i \<longleftrightarrow> ei_Expression i \<noteq> '''' \<and> ei_Func i \<noteq> '''' \<and> ei_Op i \<noteq> '''' \<and> ei_RightValue i \<noteq> '''' \<and>
    ei_MaxStep i \<noteq> 0 \<and> ei_Priority i \<noteq> 0 \<and> ei_UIC i \<noteq> None"

definition CheckFormat_expression :: "expression_input \<Rightarrow> string option" where
  "CheckFormat_expression i =
    (if \<not> rx_match validOp (ei_Op i) then Some ''op's formating is not vaild''
     else if \<not> rx_match validDigits (ei_RightValue i) then Some ''right_value's formating is not vaild''
     else None)"

definition action_of :: "expression_input \<Rightarrow> action_rec" where
  "action_of i = (ei_Action i)\<lparr>an_UIC := go_join '','' (case ei_UIC i of None \<Rightarrow> [] | Some us \<Rightarrow> us)\<rparr>"

definition expression_of :: "int \<Rightarrow> string \<Rightarrow> int \<Rightarrow> expression_input \<Rightarrow> expression_rec" where
  "expression_of i creator aid inputs =
    \<lparr>xp_ID = i, xp_Expression = ei_Expression inputs, xp_Func = ei_Func inputs, xp_Op = ei_Op inputs,
     xp_RightValue = ei_RightValue inputs, xp_MaxStep = ei_MaxStep inputs, xp_Priority = ei_Priority inputs,
     xp_Note = ei_Note inputs, xp_ActionId = aid, xp_CreateUser = creator, xp_Pause = ei_Pause inputs\<rparr>"

definition GetExpressionList :: "api_env \<Rightarrow> string \<Rightarrow> string \<Rightarrow> portal_db \<Rightarrow> expression_rec list resp" where
  "GetExpressionList ev pageTmp limitTmp db =
    (case PageParser pageTmp limitTmp of
       Inl err \<Rightarrow> bad err
     | Inr pl \<Rightarrow> if \<not> ok ev 0 then bad db_error else RespOK (page_of pl (t_expression db)))"

text \<open>An expression without an action shows the last action of the table.\<close>

definition GetExpression :: "api_env \<Rightarrow> string \<Rightarrow> portal_db \<Rightarrow> (expression_rec \<times> action_rec) resp" where
  "GetExpression ev eid db =
    (case path_int ''eid'' eid of
       Inl err \<Rightarrow> bad err
     | Inr i \<Rightarrow>
       (case found (ok ev 0) (find_id xp_ID i (t_expression db)) of
          Inl err \<Rightarrow> bad err
        | Inr e \<Rightarrow>
          (case found (ok ev 1) (find_id an_ID (xp_ActionId e) (t_action db)) of
             Inl err \<Rightarrow> bad (''find action got error: '' @ err)
           | Inr a \<Rightarrow> RespOK (e, a))))"

definition CreateExrpession ::
    "api_config \<Rightarrow> api_env \<Rightarrow> apitoken \<Rightarrow> expression_input \<Rightarrow> uic_db \<Rightarrow> portal_db \<Rightarrow> portal_db \<times> string resp" where
  "CreateExrpession cfg ev tok inputs uic db =
    (if \<not> bind_expression inputs then (db, bad ''bind'')
     else case CheckFormat_expression inputs of
       Some err \<Rightarrow> (db, bad err)
     | None \<Rightarrow>
        let user = whoami cfg (ok ev 0) tok uic in
        if \<not> ok ev 1 then (db, unexpected db_error)
        else let (tx, aid) = insert_action (action_of inputs) db in
          if \<not> ok ev 2 then (rollback db tx, unexpected db_error)
          else (commit (ok ev 3) db
              (tx\<lparr>t_expression := t_expression tx @ [expression_of (i_expression (next_ids tx)) (us_Name user) aid inputs],
                next_ids := (next_ids tx)\<lparr>i_expression := i_expression (next_ids tx) + 1\<rparr>\<rparr>),
            RespOK ''expression created''))"

definition UpdateExrpession ::
    "api_config \<Rightarrow> api_env \<Rightarrow> apitoken \<Rightarrow> int \<Rightarrow> expression_input \<Rightarrow> uic_db \<Rightarrow> portal_db \<Rightarrow> portal_db \<times> string resp" where
  "UpdateExrpession cfg ev tok eid inputs uic db =
    (if eid = 0 \<or> \<not> bind_expression inputs then (db, bad ''bind'')
     else case CheckFormat_expression inputs of
       Some err \<Rightarrow> (db, bad err)
     | None \<Rightarrow>
        let user = whoami cfg (ok ev 0) tok uic in
        case found (ok ev 1) (find_id xp_ID eid (t_expression db)) of
          Inl err \<Rightarrow> (db, unexpected (''find expression got error:'' @ err))
        | Inr e \<Rightarrow>
           if \<not> IsAdmin cfg user \<and> xp_CreateUser e \<noteq> us_Name user then (db, bad no_permission)
           else if \<not> (ok ev 2 \<and> ok ev 3) then (db, unexpected (''update expression got error: '' @ db_error))
           else (case found (ok ev 4) (find_key an_ID (xp_ActionId e) (t_action db)) of
               Inl err \<Rightarrow> (db, unexpected (''find action got error: '' @ err))
             | Inr a \<Rightarrow>
                if \<not> ok ev 5 then (db, unexpected db_error)
                else (commit (ok ev 6) db
                    (db\<lparr>t_expression := update_where (\<lambda>x. xp_ID x = xp_ID e)
                          (\<lambda>x. expression_of (xp_ID x) (xp_CreateUser x) (xp_ActionId x) inputs) (t_expression db),
                        t_action := update_where (\<lambda>b. an_ID b = an_ID a) (update_action (action_of inputs)) (t_action db)\<rparr>),
                  RespOK ''expression has been updated'')))"

text \<open>
  The expression is looked up for the check only, so for an administrator its action is not known
  and stays.
\<close>

definition DeleteExpression :: "api_config \<Rightarrow> api_env \<Rightarrow> apitoken \<Rightarrow> string \<Rightarrow> uic_db \<Rightarrow> portal_db \<Rightarrow> portal_db \<times> string resp" where
  "DeleteExpression cfg ev tok eid uic db =
    (case path_int ''eid'' eid of
       Inl err \<Rightarrow> (db, bad err)
     | Inr i \<Rightarrow>
       (let user = whoami cfg (ok ev 0) tok uic;
            looked = (if IsAdmin cfg user \<or> \<not> ok ev 1 then None else find_id xp_ID i (t_expression db));
            (xid, aid, creator) = (case looked of None \<Rightarrow> (i, 0, '''') | Some e \<Rightarrow> (xp_ID e, xp_ActionId e, xp_CreateUser e))
        in if \<not> IsAdmin cfg user \<and> creator \<noteq> us_Name user then (db, bad no_permission)
           else if \<not> (ok ev 2 \<and> ok ev 3) then (db, bad db_error)
           else (commit (ok ev 4) db
               (db\<lparr>t_action := delete_where (\<lambda>a. an_ID a = aid) (t_action db),
                  t_expression := delete_id xp_ID xid (t_expression db)\<rparr>),
             RespOK ''expression has been deleted'')))"

section \<open>Mock values of nodata\<close>

record mock_input =
  mi_Name :: string
  mi_Obj :: string
  mi_ObjType :: string
  mi_Metric :: string
  mi_Tags :: string
  mi_DsType :: string
  mi_Step :: int
  mi_Mock :: float64

definition CheckFormat_mock :: "mock_input \<Rightarrow> string option" where
  "CheckFormat_mock i =
    (if mi_ObjType i \<noteq> ''group'' \<and> mi_ObjType i \<noteq> ''host'' \<and> mi_ObjType i \<noteq> ''other''
     then Some ''obj_type only accpect group, host, other'' else None)"

definition bind_mock :: "mock_input \<Rightarrow> bool" where
  "bind_mock i \<longleftrightarrow> mi_Obj i \<noteq> '''' \<and> mi_ObjType i \<noteq> '''' \<and> mi_Metric i \<noteq> '''' \<and> mi_DsType i \<noteq> '''' \<and> mi_Step i \<noteq> 0"

definition mock_of :: "int \<Rightarrow> string \<Rightarrow> string \<Rightarrow> mock_input \<Rightarrow> mock_rec" where
  "mock_of i name creator inputs =
    \<lparr>mk_ID = i, mk_Name = name, mk_Obj = mi_Obj inputs, mk_ObjType = mi_ObjType inputs, mk_Metric = mi_Metric inputs,
     mk_Tags = mi_Tags inputs, mk_DsType = mi_DsType inputs, mk_Step = mi_Step inputs, mk_Mock = mi_Mock inputs, mk_Creator = creator\<rparr>"

definition GetNoDataList :: "api_env \<Rightarrow> string \<Rightarrow> string \<Rightarrow> portal_db \<Rightarrow> mock_rec list resp" where
  "GetNoDataList ev pageTmp limitTmp db =
    (case PageParser pageTmp limitTmp of
       Inl err \<Rightarrow> bad err
     | Inr pl \<Rightarrow> if \<not> ok ev 0 then bad db_error else RespOK (page_of pl (t_mockcfg db)))"

definition GetNoData :: "api_env \<Rightarrow> string \<Rightarrow> portal_db \<Rightarrow> mock_rec resp" where
  "GetNoData ev nid db =
    (case path_int ''nid'' nid of
       Inl err \<Rightarrow> bad err
     | Inr i \<Rightarrow> (case found (ok ev 0) (find_id mk_ID i (t_mockcfg db)) of Inl err \<Rightarrow> bad err | Inr m \<Rightarrow> RespOK m))"

definition CreateNoData ::
    "api_config \<Rightarrow> api_env \<Rightarrow> apitoken \<Rightarrow> mock_input \<Rightarrow> uic_db \<Rightarrow> portal_db \<Rightarrow> portal_db \<times> mock_rec resp" where
  "CreateNoData cfg ev tok inputs uic db =
    (if mi_Name inputs = '''' \<or> \<not> bind_mock inputs then (db, bad ''bind'')
     else case CheckFormat_mock inputs of
       Some err \<Rightarrow> (db, bad err)
     | None \<Rightarrow>
        let user = whoami cfg (ok ev 0) tok uic in
        if \<not> ok ev 1 \<or> list_ex (\<lambda>m. coll cfg (mk_Name m) = coll cfg (mi_Name inputs)) (t_mockcfg db) then (db, unexpected db_error)
        else let m = mock_of (i_mockcfg (next_ids db)) (mi_Name inputs) (us_Name user) inputs
          in (db\<lparr>t_mockcfg := t_mockcfg db @ [m], next_ids := (next_ids db)\<lparr>i_mockcfg := i_mockcfg (next_ids db) + 1\<rparr>\<rparr>, RespOK m))"

definition UpdateNoData :: "api_env \<Rightarrow> int \<Rightarrow> mock_input \<Rightarrow> portal_db \<Rightarrow> portal_db \<times> mock_rec resp" where
  "UpdateNoData ev nid inputs db =
    (if nid = 0 \<or> \<not> bind_mock inputs then (db, bad ''bind'')
     else case CheckFormat_mock inputs of
       Some err \<Rightarrow> (db, bad err)
     | None \<Rightarrow>
        if \<not> ok ev 0 then (db, unexpected db_error)
        else let db' = db\<lparr>t_mockcfg := update_where (\<lambda>m. mk_ID m = nid) (\<lambda>m. mock_of (mk_ID m) (mk_Name m) (mk_Creator m) inputs) (t_mockcfg db)\<rparr>
          in (db', case found (ok ev 1) (find_id mk_ID nid (t_mockcfg db')) of Inl err \<Rightarrow> unexpected err | Inr m \<Rightarrow> RespOK m))"

definition DeleteNoData :: "api_env \<Rightarrow> string \<Rightarrow> portal_db \<Rightarrow> portal_db \<times> string resp" where
  "DeleteNoData ev nid db =
    (case path_int ''nid'' nid of
       Inl err \<Rightarrow> (db, bad err)
     | Inr i \<Rightarrow>
        if \<not> ok ev 0 then (db, bad db_error)
        else (db\<lparr>t_mockcfg := delete_id mk_ID i (t_mockcfg db)\<rparr>, RespOK ''mockcfg is deleted''))"

section \<open>Aggregations\<close>

definition HostGroupName :: "bool \<Rightarrow> cluster_rec \<Rightarrow> portal_db \<Rightarrow> string + string" where
  "HostGroupName okq a db =
    (if ag_GrpId a = 0 then Inr ''''
     else case found okq (find_id hg_ID (ag_GrpId a) (t_grp db)) of Inl err \<Rightarrow> Inl err | Inr g \<Rightarrow> Inr (hg_Name g))"

definition GetAggregatorListOfGrp :: "api_env \<Rightarrow> string \<Rightarrow> string \<Rightarrow> string \<Rightarrow> portal_db \<Rightarrow> (string \<times> cluster_rec list) resp" where
  "GetAggregatorListOfGrp ev pageTmp limitTmp host_group db =
    (case PageParser pageTmp limitTmp of
       Inl err \<Rightarrow> bad err
     | Inr pl \<Rightarrow>
       (case path_int ''grp id'' host_group of
          Inl err \<Rightarrow> bad err
        | Inr gid \<Rightarrow>
           if \<not> ok ev 0 then unexpected db_error
           else (case page_of pl (filter (\<lambda>a. ag_GrpId a = gid) (t_cluster db)) of
               [] \<Rightarrow> RespOK ('''', [])
             | a # as \<Rightarrow>
                (case HostGroupName (ok ev 1) a db of Inl err \<Rightarrow> bad err | Inr name \<Rightarrow> RespOK (name, a # as)))))"

definition GetAggregator :: "api_env \<Rightarrow> string \<Rightarrow> portal_db \<Rightarrow> cluster_rec resp" where
  "GetAggregator ev agg_id db =
    (case path_int ''agg id'' agg_id of
       Inl err \<Rightarrow> bad err
     | Inr i \<Rightarrow> (case found (ok ev 0) (find_id ag_ID i (t_cluster db)) of Inl err \<Rightarrow> unexpected err | Inr a \<Rightarrow> RespOK a))"

record aggregator_input =
  gi_Numerator :: string
  gi_Denominator :: string
  gi_AggEndpoint :: string
  gi_AggMetric :: string
  gi_AggTags :: string
  gi_AggStep :: int

definition bind_aggregator :: "int \<Rightarrow> aggregator_input \<Rightarrow> bool" where
  "bind_aggregator i inputs \<longleftrightarrow> i \<noteq> 0 \<and> gi_Numerator inputs \<noteq> '''' \<and> gi_Denominator inputs \<noteq> '''' \<and>
    gi_AggEndpoint inputs \<noteq> '''' \<and> gi_AggMetric inputs \<noteq> '''' \<and> gi_AggStep inputs \<noteq> 0"

definition aggregator_of :: "int \<Rightarrow> int \<Rightarrow> string \<Rightarrow> string \<Rightarrow> aggregator_input \<Rightarrow> cluster_rec" where
  "aggregator_of i gid ds creator inputs =
    \<lparr>ag_ID = i, ag_GrpId = gid, ag_Numerator = gi_Numerator inputs, ag_Denominator = gi_Denominator inputs,
     ag_Endpoint = gi_AggEndpoint inputs, ag_Metric = gi_AggMetric inputs, ag_Tags = gi_AggTags inputs, ag_DsType = ds,
     ag_Step = gi_AggStep inputs, ag_Creator = creator\<rparr>"

definition CreateAggregator ::
    "api_config \<Rightarrow> api_env \<Rightarrow> apitoken \<Rightarrow> int \<Rightarrow> aggregator_input \<Rightarrow> uic_db \<Rightarrow> portal_db \<Rightarrow> portal_db \<times> cluster_rec resp" where
  "CreateAggregator cfg ev tok gid inputs uic db =
    (if \<not> bind_aggregator gid inputs then (db, bad ''binding error'')
     else let user = whoami cfg (ok ev 0) tok uic in
     case may_group cfg (ok ev 1) user gid db of
       Inl err \<Rightarrow> (db, unexpected (''find hostgroup error: '' @ err))
     | Inr may \<Rightarrow>
        if \<not> may then (db, bad no_permission)
        else if \<not> ok ev 2 then (db, unexpected db_error)
        else let a = aggregator_of (i_cluster (next_ids db)) gid ''GAUGE'' (us_Name user) inputs
          in (db\<lparr>t_cluster := t_cluster db @ [a], next_ids := (next_ids db)\<lparr>i_cluster := i_cluster (next_ids db) + 1\<rparr>\<rparr>, RespOK a))"

definition UpdateAggregator ::
    "api_config \<Rightarrow> api_env \<Rightarrow> apitoken \<Rightarrow> int \<Rightarrow> aggregator_input \<Rightarrow> uic_db \<Rightarrow> portal_db \<Rightarrow> portal_db \<times> cluster_rec resp" where
  "UpdateAggregator cfg ev tok aid inputs uic db =
    (if \<not> bind_aggregator aid inputs then (db, bad ''bind'')
     else case found (ok ev 0) (find_id ag_ID aid (t_cluster db)) of
       Inl err \<Rightarrow> (db, unexpected err)
     | Inr a \<Rightarrow>
       (let user = whoami cfg (ok ev 1) tok uic
        in case may_group cfg (ok ev 2) user (ag_GrpId a) db of
          Inl err \<Rightarrow> (db, unexpected (''find hostgroup got error: '' @ err))
        | Inr may \<Rightarrow>
           if \<not> may \<and> ag_Creator a \<noteq> us_Name user then (db, bad no_permission)
           else if \<not> ok ev 3 then (db, unexpected db_error)
           else let db' = db\<lparr>t_cluster := update_where (\<lambda>b. ag_ID b = ag_ID a)
                (\<lambda>b. aggregator_of (ag_ID b) (ag_GrpId b) (ag_DsType b) (ag_Creator b) inputs) (t_cluster db)\<rparr>
             in (db', case found (ok ev 4) (find_id ag_ID (ag_ID a) (t_cluster db')) of Inl err \<Rightarrow> unexpected err | Inr b \<Rightarrow> RespOK b)))"

definition DeleteAggregator :: "api_config \<Rightarrow> api_env \<Rightarrow> apitoken \<Rightarrow> string \<Rightarrow> uic_db \<Rightarrow> portal_db \<Rightarrow> portal_db \<times> string resp" where
  "DeleteAggregator cfg ev tok agg_id uic db =
    (case path_int ''agg id'' agg_id of
       Inl err \<Rightarrow> (db, bad err)
     | Inr i \<Rightarrow>
       (case found (ok ev 0) (find_id ag_ID i (t_cluster db)) of
          Inl err \<Rightarrow> (db, unexpected (''find aggregator got error: '' @ err))
        | Inr a \<Rightarrow>
          (case may_group cfg (ok ev 2) (whoami cfg (ok ev 1) tok uic) (ag_GrpId a) db of
             Inl err \<Rightarrow> (db, unexpected (''find hostgroup got error: '' @ err))
           | Inr may \<Rightarrow>
              if \<not> may then (db, bad no_permission)
              else if \<not> ok ev 3 then (db, unexpected (''delete aggregator got error: '' @ db_error))
              else (db\<lparr>t_cluster := delete_where (\<lambda>b. ag_ID b = ag_ID a \<and> ag_ID b = i) (t_cluster db)\<rparr>,
                RespOK ''aggregator has been deleted''))))"

section \<open>The routes\<close>

text \<open>The requests that write, with what they carry; reading handlers leave the tables alone.\<close>

datatype portal_request =
    PCreateGroup string | PBindHosts "string list option" int | PUnbindHost int int | PPutGroup int string | PDeleteGroup string
  | PCreatePlugin int string | PDeletePlugin string
  | PBindTemplate int int | PUnbindTemplate int int
  | PSetMaintain "string list" "int list" int int | PUnsetMaintain "string list" "int list"
  | PCreateTemplate string int int | PUpdateTemplate int string int | PDeleteTemplate string
  | PCreateAction action_rec int | PUpdateAction int action_rec
  | PCreateStrategy strategy_input int | PUpdateStrategy strategy_input int | PDeleteStrategy string
  | PCreateExpression expression_input | PUpdateExpression int expression_input | PDeleteExpression string
  | PCreateNoData mock_input | PUpdateNoData int mock_input | PDeleteNoData string
  | PCreateAggregator int aggregator_input | PUpdateAggregator int aggregator_input | PDeleteAggregator string

fun portal_handler :: "api_config \<Rightarrow> api_env \<Rightarrow> apitoken \<Rightarrow> portal_request \<Rightarrow> uic_db \<Rightarrow> portal_db \<Rightarrow> portal_db" where
  "portal_handler cfg ev tok (PCreateGroup n) uic db = fst (CrateHostGroup cfg ev tok n uic db)"
| "portal_handler cfg ev tok (PBindHosts hs g) uic db = fst (BindHostToHostGroup cfg ev tok hs g uic db)"
| "portal_handler cfg ev tok (PUnbindHost h g) uic db = fst (UnBindAHostToHostGroup cfg ev tok h g uic db)"
| "portal_handler cfg ev tok (PPutGroup g n) uic db = fst (PutHostGroup cfg ev g n db)"
| "portal_handler cfg ev tok (PDeleteGroup g) uic db = fst (DeleteHostGroup cfg ev tok g uic db)"
| "portal_handler cfg ev tok (PCreatePlugin g d) uic db = fst (CreatePlugin cfg ev tok g d uic db)"
| "portal_handler cfg ev tok (PDeletePlugin p) uic db = fst (DeletePlugin cfg ev tok p uic db)"
| "portal_handler cfg ev tok (PBindTemplate t g) uic db = fst (BindTemplateToGroup cfg ev tok t g uic db)"
| "portal_handler cfg ev tok (PUnbindTemplate t g) uic db = fst (UnBindTemplateToGroup cfg ev tok t g uic db)"
| "portal_handler cfg ev tok (PSetMaintain hs is b e) uic db = fst (SetMaintain cfg ev hs is b e db)"
| "portal_handler cfg ev tok (PUnsetMaintain hs is) uic db = fst (UnsetMaintain cfg ev hs is db)"
| "portal_handler cfg ev tok (PCreateTemplate n p a) uic db = fst (CreateTemplate cfg ev tok n p a uic db)"
| "portal_handler cfg ev tok (PUpdateTemplate t n p) uic db = fst (UpdateTemplate cfg ev tok t n p uic db)"
| "portal_handler cfg ev tok (PDeleteTemplate t) uic db = fst (DeleteTemplate ev t db)"
| "portal_handler cfg ev tok (PCreateAction a t) uic db = fst (CreateActionToTmplate ev a t db)"
| "portal_handler cfg ev tok (PUpdateAction i a) uic db = fst (UpdateActionToTmplate ev i a db)"
| "portal_handler cfg ev tok (PCreateStrategy i t) uic db = fst (CreateStrategy ev i t db)"
| "portal_handler cfg ev tok (PUpdateStrategy i s) uic db = fst (UpdateStrategy ev i s db)"
| "portal_handler cfg ev tok (PDeleteStrategy s) uic db = fst (DeleteStrategy ev s db)"
| "portal_handler cfg ev tok (PCreateExpression i) uic db = fst (CreateExrpession cfg ev tok i uic db)"
| "portal_handler cfg ev tok (PUpdateExpression e i) uic db = fst (UpdateExrpession cfg ev tok e i uic db)"
| "portal_handler cfg ev tok (PDeleteExpression e) uic db = fst (DeleteExpression cfg ev tok e uic db)"
| "portal_handler cfg ev tok (PCreateNoData i) uic db = fst (CreateNoData cfg ev tok i uic db)"
| "portal_handler cfg ev tok (PUpdateNoData n i) uic db = fst (UpdateNoData ev n i db)"
| "portal_handler cfg ev tok (PDeleteNoData n) uic db = fst (DeleteNoData ev n db)"
| "portal_handler cfg ev tok (PCreateAggregator g i) uic db = fst (CreateAggregator cfg ev tok g i uic db)"
| "portal_handler cfg ev tok (PUpdateAggregator a i) uic db = fst (UpdateAggregator cfg ev tok a i uic db)"
| "portal_handler cfg ev tok (PDeleteAggregator a) uic db = fst (DeleteAggregator cfg ev tok a uic db)"

text \<open>All routes are behind the check of the session.\<close>

definition portal_serve ::
    "api_config \<Rightarrow> (nat \<Rightarrow> bool) \<Rightarrow> api_env \<Rightarrow> apitoken \<Rightarrow> portal_request \<Rightarrow> uic_db \<Rightarrow> portal_db \<Rightarrow> portal_db" where
  "portal_serve cfg okq ev tok req uic db =
    (let (auth, err) = SessionChecking cfg okq uic tok in
     if \<not> skip_auth cfg \<and> (err \<noteq> None \<or> \<not> auth) then db else portal_handler cfg ev tok req uic db)"

end
