(* ===== verification/Api_Rules.thy ===== *)
theory Api_Rules
  imports Api_Expression
begin

text \<open>
  What the API guarantees of the monitoring configuration: tables that stay well formed, transactions
  that happen as a whole, groups that only their owners fill; and what it does not guard: whole
  tables that a request for the identifier zero empties.
\<close>

section \<open>What stays true of the tables\<close>

definition portal_inv :: "api_config \<Rightarrow> portal_db \<Rightarrow> bool" where
  "portal_inv cfg db \<longleftrightarrow>
    table_ok ph_ID (i_host (next_ids db)) (t_host db) \<and> distinct (map (\<lambda>h. coll cfg (ph_Hostname h)) (t_host db)) \<and>
    table_ok hg_ID (i_grp (next_ids db)) (t_grp db) \<and> distinct (map (\<lambda>g. coll cfg (hg_Name g)) (t_grp db)) \<and>
    table_ok tp_ID (i_tpl (next_ids db)) (t_tpl db) \<and> distinct (map (\<lambda>t. coll cfg (tp_Name t)) (t_tpl db)) \<and>
    table_ok sg_ID (i_strategy (next_ids db)) (t_strategy db) \<and>
    table_ok xp_ID (i_expression (next_ids db)) (t_expression db) \<and>
    table_ok an_ID (i_action (next_ids db)) (t_action db) \<and>
    table_ok pl_ID (i_plugin (next_ids db)) (t_plugin db) \<and>
    table_ok mk_ID (i_mockcfg (next_ids db)) (t_mockcfg db) \<and> distinct (map (\<lambda>m. coll cfg (mk_Name m)) (t_mockcfg db)) \<and>
    table_ok ag_ID (i_cluster (next_ids db)) (t_cluster db)"

text \<open>Identifiers taken by a transaction that is rolled back are not given again.\<close>

definition ids_le :: "portal_ids \<Rightarrow> portal_ids \<Rightarrow> bool" where
  "ids_le n n' \<longleftrightarrow> i_host n \<le> i_host n' \<and> i_grp n \<le> i_grp n' \<and> i_tpl n \<le> i_tpl n' \<and> i_strategy n \<le> i_strategy n' \<and>
    i_expression n \<le> i_expression n' \<and> i_action n \<le> i_action n' \<and> i_plugin n \<le> i_plugin n' \<and>
    i_mockcfg n \<le> i_mockcfg n' \<and> i_cluster n \<le> i_cluster n'"

lemma ids_le_refl [simp]: "ids_le n n" by (simp add: ids_le_def)

lemma ids_le_trans: "ids_le a b \<Longrightarrow> ids_le b c \<Longrightarrow> ids_le a c" by (auto simp: ids_le_def)

lemma table_ok_later: "table_ok key n rows \<Longrightarrow> n \<le> n' \<Longrightarrow> table_ok key n' rows"
  by (force simp: table_ok_def list_all_iff)

lemma inv_rollback: "portal_inv cfg db \<Longrightarrow> ids_le (next_ids db) (next_ids tx) \<Longrightarrow> portal_inv cfg (rollback db tx)"
  by (auto simp: portal_inv_def rollback_def ids_le_def intro: table_ok_later)

lemma inv_commit:
  "portal_inv cfg db \<Longrightarrow> portal_inv cfg tx \<Longrightarrow> ids_le (next_ids db) (next_ids tx) \<Longrightarrow> portal_inv cfg (commit q db tx)"
  by (simp add: commit_def inv_rollback)

lemma table_ok_delete_id: "table_ok key n rows \<Longrightarrow> table_ok key n (delete_id key' i rows)"
  by (simp add: delete_id_def table_ok_delete)

lemma distinct_delete_id: "distinct (map g rows) \<Longrightarrow> distinct (map g (delete_id key i rows))"
  by (simp add: delete_id_def distinct_delete)

text \<open>Giving one row of a table a name that no other row has.\<close>

lemma distinct_rename:
  assumes d: "distinct (map g rows)" "table_ok key n rows"
    and f: "\<And>r. r \<in> set rows \<Longrightarrow> g (f r) = v" and no: "\<not> list_ex (\<lambda>r. key r \<noteq> i \<and> g r = v) rows"
  shows "distinct (map g (update_where (\<lambda>r. key r = i) f rows))"
  using assms
proof (induction rows)
  case (Cons r rows)
  have t: "distinct (map key (r # rows))" using Cons.prems(2) by (simp add: table_ok_def)
  have ih: "distinct (map g (update_where (\<lambda>r. key r = i) f rows))"
    using Cons by (auto simp: table_ok_def)
  have "g (if key r = i then f r else r) \<notin> set (map g (update_where (\<lambda>r. key r = i) f rows))"
  proof (cases "key r = i")
    case True
    then have others: "update_where (\<lambda>r. key r = i) f rows = rows" using t by (auto simp: update_where_def intro!: map_idI) (metis imageI)
    have "g (f r) = v" by (rule Cons.prems(3)) simp
    moreover have "v \<notin> g ` set rows" using Cons.prems(4) t True by (auto simp: list_ex_iff) (metis image_eqI)
    ultimately show ?thesis using True by (simp add: others)
  next
    case False
    then have "g r \<noteq> v" using Cons.prems(4) by auto
    moreover have "g r \<notin> g ` set rows" using Cons.prems(1) by auto
    moreover have "g (f x) = v" if "x \<in> set rows" for x using Cons.prems(3) that by simp
    ultimately have "g (if key x = i then f x else x) \<noteq> g r" if "x \<in> set rows" for x using that by (metis image_eqI)
    then have "\<forall>y\<in>set (update_where (\<lambda>r. key r = i) f rows). g y \<noteq> g r"
      unfolding update_where_def set_map by blast
    with False show ?thesis by force
  qed
  with ih show ?case by (simp add: update_where_def)
qed (simp add: update_where_def)

subsection \<open>Host groups\<close>

lemma inv_insert_host:
  assumes "portal_inv cfg tx" "insert_host cfg q name tx = Some (tx', i)"
  shows "portal_inv cfg tx' \<and> ids_le (next_ids tx) (next_ids tx')"
  using assms table_ok_append [of ph_ID "i_host (next_ids tx)" "t_host tx" "\<lparr>ph_ID = i_host (next_ids tx), ph_Hostname = name,
      ph_Ip = '''', ph_AgentVersion = '''', ph_PluginVersion = '''', ph_MaintainBegin = 0, ph_MaintainEnd = 0\<rparr>"]
  by (auto simp: portal_inv_def insert_host_def ids_le_def list_ex_iff split: if_splits) blast

lemma inv_grp_host [simp]: "portal_inv cfg (db\<lparr>t_grp_host := rows\<rparr>) = portal_inv cfg db"
  by (simp add: portal_inv_def)

lemma inv_grp_tpl [simp]: "portal_inv cfg (db\<lparr>t_grp_tpl := rows\<rparr>) = portal_inv cfg db"
  by (simp add: portal_inv_def)

lemma inv_bind_hosts:
  "portal_inv cfg tx \<Longrightarrow>
    portal_inv cfg (fst (bind_hosts cfg okq k db gid hs tx)) \<and> ids_le (next_ids tx) (next_ids (fst (bind_hosts cfg okq k db gid hs tx)))"
proof (induction hs arbitrary: k tx)
  case (Cons h hs)
  show ?case
  proof (cases "case Existing cfg (okq k) h db of Some i \<Rightarrow> Some (tx, i) | None \<Rightarrow> insert_host cfg (okq (k + 1)) h tx")
    case (Some p)
    obtain tx1 i where p: "p = (tx1, i)" by (cases p)
    have "portal_inv cfg tx1 \<and> ids_le (next_ids tx) (next_ids tx1)"
      using Some p Cons.prems inv_insert_host [OF Cons.prems] by (auto split: option.splits)
    then show ?thesis
      using Some p Cons.IH [of "tx1\<lparr>t_grp_host := t_grp_host tx1 @ [\<lparr>gh_GrpID = gid, gh_HostID = i\<rparr>]\<rparr>" "k + 3"]
      by (auto intro: ids_le_trans)
  qed (use Cons.prems in simp)
qed simp

lemma inv_BindHost: "portal_inv cfg db \<Longrightarrow> portal_inv cfg (fst (BindHostToHostGroup cfg ev tok hosts gid uic db))"
  using inv_bind_hosts [of cfg "db\<lparr>t_grp_host := rows\<rparr>" for rows]
  by (auto simp: BindHostToHostGroup_def Let_def split_def intro!: inv_commit inv_rollback split: option.split sum.split)

lemma inv_CrateHostGroup: "portal_inv cfg db \<Longrightarrow> portal_inv cfg (fst (CrateHostGroup cfg ev tok name uic db))"
  by (auto simp: CrateHostGroup_def Let_def portal_inv_def list_ex_iff table_ok_append)

lemma inv_UnBindAHost: "portal_inv cfg db \<Longrightarrow> portal_inv cfg (fst (UnBindAHostToHostGroup cfg ev tok hid gid uic db))"
  by (simp add: UnBindAHostToHostGroup_def split: sum.split)

lemma inv_DeleteHostGroup: "portal_inv cfg db \<Longrightarrow> portal_inv cfg (fst (DeleteHostGroup cfg ev tok g uic db))"
proof -
  assume i: "portal_inv cfg db"
  then have "portal_inv cfg (db\<lparr>t_grp_host := gh, t_plugin := delete_where P (t_plugin db), t_cluster := delete_where Q (t_cluster db),
      t_grp := delete_id hg_ID gid (t_grp db)\<rparr>)" for gh P Q gid
    by (simp add: portal_inv_def table_ok_delete table_ok_delete_id distinct_delete_id)
  with i show ?thesis by (simp add: DeleteHostGroup_def inv_commit split: sum.split)
qed

lemma inv_PutHostGroup:
  assumes "portal_inv cfg db"
  shows "portal_inv cfg (fst (PutHostGroup cfg ev gid name db))"
proof -
  let ?f = "\<lambda>g h. h\<lparr>hg_Name := name, hg_CreateUser := hg_CreateUser g, hg_ComeFrom := hg_ComeFrom g\<rparr>"
  have t: "table_ok hg_ID (i_grp (next_ids db)) (t_grp db)" "distinct (map (\<lambda>g. coll cfg (hg_Name g)) (t_grp db))"
    using assms by (simp_all add: portal_inv_def)
  have "portal_inv cfg (db\<lparr>t_grp := update_where (\<lambda>h. hg_ID h = gid) (?f g) (t_grp db)\<rparr>)"
    if "\<not> list_ex (\<lambda>h. hg_ID h \<noteq> gid \<and> coll cfg (hg_Name h) = coll cfg name) (t_grp db)" for g
    using assms distinct_rename [OF t(2,1) _ that, of "?f g"] table_ok_update [OF _ t(1), of "\<lambda>h. hg_ID h = gid" "?f g"]
    by (simp add: portal_inv_def)
  with assms show ?thesis by (auto simp: PutHostGroup_def split: sum.split)
qed

lemma inv_CreatePlugin: "portal_inv cfg db \<Longrightarrow> portal_inv cfg (fst (CreatePlugin cfg ev tok g d uic db))"
  by (simp add: CreatePlugin_def Let_def portal_inv_def table_ok_append split: sum.split)

lemma inv_DeletePlugin: "portal_inv cfg db \<Longrightarrow> portal_inv cfg (fst (DeletePlugin cfg ev tok p uic db))"
  by (simp add: DeletePlugin_def Let_def portal_inv_def table_ok_delete_id split: sum.split)

lemma inv_maintain: "portal_inv cfg db \<Longrightarrow> portal_inv cfg (fst (maintain cfg ev hs is b e db))"
  by (simp add: maintain_def portal_inv_def table_ok_update map_update_where)

lemma inv_bindings:
  "portal_inv cfg db \<Longrightarrow> portal_inv cfg (fst (BindTemplateToGroup cfg ev tok t g uic db))"
  "portal_inv cfg db \<Longrightarrow> portal_inv cfg (fst (UnBindTemplateToGroup cfg ev tok t g uic db))"
  by (simp_all add: BindTemplateToGroup_def UnBindTemplateToGroup_def Let_def)

subsection \<open>Templates, actions and strategies\<close>

lemma inv_CreateTemplate: "portal_inv cfg db \<Longrightarrow> portal_inv cfg (fst (CreateTemplate cfg ev tok n p a uic db))"
proof -
  assume i: "portal_inv cfg db"
  have "0 \<notin> tp_ID ` set (t_tpl db)" using i by (auto simp: portal_inv_def table_ok_def list_all_iff)
  then have "coll cfg n \<notin> (\<lambda>t. coll cfg (tp_Name t)) ` set (t_tpl db)" if "\<not> name_taken cfg 0 n db"
    using that by (auto simp: name_taken_def list_ex_iff)
  then show ?thesis using i by (auto simp: CreateTemplate_def portal_inv_def table_ok_append split: sum.split)
qed

lemma inv_UpdateTemplate: "portal_inv cfg db \<Longrightarrow> portal_inv cfg (fst (UpdateTemplate cfg ev tok tid n p uic db))"
proof -
  assume i: "portal_inv cfg db"
  let ?f = "\<lambda>t. t\<lparr>tp_Name := n, tp_ParentID := p\<rparr>"
  have t: "table_ok tp_ID (i_tpl (next_ids db)) (t_tpl db)" "distinct (map (\<lambda>t. coll cfg (tp_Name t)) (t_tpl db))"
    using i by (simp_all add: portal_inv_def)
  have "portal_inv cfg (db\<lparr>t_tpl := update_where (\<lambda>t. tp_ID t = tid) ?f (t_tpl db)\<rparr>)" if "\<not> name_taken cfg tid n db"
    using i distinct_rename [OF t(2,1) _ that [unfolded name_taken_def], of ?f] table_ok_update [OF _ t(1), of "\<lambda>t. tp_ID t = tid" ?f]
    by (simp add: portal_inv_def)
  with i show ?thesis by (auto simp: UpdateTemplate_def split: sum.split)
qed

lemma inv_DeleteTemplate: "portal_inv cfg db \<Longrightarrow> portal_inv cfg (fst (DeleteTemplate ev t db))"
proof -
  assume i: "portal_inv cfg db"
  then have "portal_inv cfg (db\<lparr>t_tpl := delete_id tp_ID j (t_tpl db), t_action := (if b then t_action db else delete_where P (t_action db)),
      t_strategy := delete_where Q (t_strategy db), t_grp_tpl := gt\<rparr>)" for j b P Q gt
    by (simp add: portal_inv_def table_ok_delete table_ok_delete_id distinct_delete_id)
  with i show ?thesis by (simp add: DeleteTemplate_def Let_def inv_commit split: sum.split)
qed

lemma inv_insert_action:
  "portal_inv cfg db \<Longrightarrow> portal_inv cfg (fst (insert_action a db)) \<and> ids_le (next_ids db) (next_ids (fst (insert_action a db)))"
  by (simp add: insert_action_def portal_inv_def table_ok_append ids_le_def)

lemma inv_CreateAction: "portal_inv cfg db \<Longrightarrow> portal_inv cfg (fst (CreateActionToTmplate ev a t db))"
proof -
  assume i: "portal_inv cfg db"
  note a = inv_insert_action [OF i, of a]
  have "portal_inv cfg ((fst (insert_action a db))\<lparr>t_tpl := update_where P (\<lambda>t. t\<lparr>tp_ActionID := j\<rparr>) (t_tpl (fst (insert_action a db)))\<rparr>)" for P j
    using a by (simp add: portal_inv_def table_ok_update map_update_where)
  with i a show ?thesis by (simp add: CreateActionToTmplate_def Let_def split_def inv_rollback inv_commit split: sum.split)
qed

lemma inv_update_actions: "portal_inv cfg db \<Longrightarrow> portal_inv cfg (db\<lparr>t_action := update_where P (update_action a) (t_action db)\<rparr>)"
  by (simp add: portal_inv_def table_ok_update update_action_def)

lemma inv_UpdateAction: "portal_inv cfg db \<Longrightarrow> portal_inv cfg (fst (UpdateActionToTmplate ev i a db))"
  by (simp add: UpdateActionToTmplate_def inv_commit inv_update_actions split: sum.split)

lemma inv_strategies:
  "portal_inv cfg db \<Longrightarrow> portal_inv cfg (fst (CreateStrategy ev i t db))"
  "portal_inv cfg db \<Longrightarrow> portal_inv cfg (fst (UpdateStrategy ev i s db))"
  "portal_inv cfg db \<Longrightarrow> portal_inv cfg (fst (DeleteStrategy ev sid db))"
  by (simp_all add: CreateStrategy_def UpdateStrategy_def DeleteStrategy_def strategy_of_def portal_inv_def table_ok_append
    table_ok_update table_ok_delete_id split: sum.split option.split)

subsection \<open>Expressions, mock values, aggregations\<close>

lemma inv_CreateExpression: "portal_inv cfg db \<Longrightarrow> portal_inv cfg (fst (CreateExrpession cfg ev tok i uic db))"
proof -
  assume v: "portal_inv cfg db"
  note a = inv_insert_action [OF v, of "action_of i"]
  let ?tx = "fst (insert_action (action_of i) db)"
  have "portal_inv cfg (?tx\<lparr>t_expression := t_expression ?tx @ [expression_of (i_expression (next_ids ?tx)) u j i],
      next_ids := (next_ids ?tx)\<lparr>i_expression := i_expression (next_ids ?tx) + 1\<rparr>\<rparr>)" for u j
    using a by (simp add: portal_inv_def table_ok_append expression_of_def)
  moreover have "ids_le (next_ids db) ((next_ids ?tx)\<lparr>i_expression := i_expression (next_ids ?tx) + 1\<rparr>)"
    using a by (simp add: ids_le_def)
  ultimately show ?thesis using v a
    by (simp add: CreateExrpession_def Let_def split_def inv_rollback inv_commit split: option.split)
qed

lemma inv_UpdateExpression: "portal_inv cfg db \<Longrightarrow> portal_inv cfg (fst (UpdateExrpession cfg ev tok e i uic db))"
proof -
  assume v: "portal_inv cfg db"
  then have "portal_inv cfg (db\<lparr>t_expression := update_where P (\<lambda>x. expression_of (xp_ID x) (xp_CreateUser x) (xp_ActionId x) i) (t_expression db),
      t_action := update_where Q (update_action (action_of i)) (t_action db)\<rparr>)" for P Q
    by (simp add: portal_inv_def table_ok_update update_action_def expression_of_def)
  with v show ?thesis by (simp add: UpdateExrpession_def Let_def inv_commit split: sum.split option.split)
qed

lemma inv_DeleteExpression: "portal_inv cfg db \<Longrightarrow> portal_inv cfg (fst (DeleteExpression cfg ev tok e uic db))"
proof -
  assume v: "portal_inv cfg db"
  then have "portal_inv cfg (db\<lparr>t_action := delete_where P (t_action db), t_expression := delete_id xp_ID x (t_expression db)\<rparr>)" for P x
    by (simp add: portal_inv_def table_ok_delete table_ok_delete_id)
  with v show ?thesis by (simp add: DeleteExpression_def Let_def split_def inv_commit split: sum.split)
qed

lemma inv_mocks:
  "portal_inv cfg db \<Longrightarrow> portal_inv cfg (fst (CreateNoData cfg ev tok i uic db))"
  "portal_inv cfg db \<Longrightarrow> portal_inv cfg (fst (UpdateNoData ev n i db))"
  "portal_inv cfg db \<Longrightarrow> portal_inv cfg (fst (DeleteNoData ev nid db))"
  by (auto simp: CreateNoData_def UpdateNoData_def DeleteNoData_def Let_def mock_of_def portal_inv_def table_ok_append list_ex_iff
    table_ok_update map_update_where table_ok_delete_id distinct_delete_id split: sum.split option.split)

lemma inv_aggregators:
  "portal_inv cfg db \<Longrightarrow> portal_inv cfg (fst (CreateAggregator cfg ev tok g i uic db))"
  "portal_inv cfg db \<Longrightarrow> portal_inv cfg (fst (UpdateAggregator cfg ev tok a i uic db))"
  "portal_inv cfg db \<Longrightarrow> portal_inv cfg (fst (DeleteAggregator cfg ev tok aid uic db))"
  by (simp_all add: CreateAggregator_def UpdateAggregator_def DeleteAggregator_def Let_def aggregator_of_def portal_inv_def
    table_ok_append table_ok_update table_ok_delete split: sum.split)

lemmas inv_portal = inv_CrateHostGroup inv_BindHost inv_UnBindAHost inv_PutHostGroup inv_DeleteHostGroup inv_CreatePlugin inv_DeletePlugin
  inv_maintain inv_bindings inv_CreateTemplate inv_UpdateTemplate inv_DeleteTemplate inv_CreateAction inv_UpdateAction inv_strategies
  inv_CreateExpression inv_UpdateExpression inv_DeleteExpression inv_mocks inv_aggregators

text \<open>
  Every request keeps the tables of the configuration well formed, whichever of its statements or
  its commit fails: identifiers are unique and below the next one, and no two hosts, groups,
  templates or mock values have the same name to the database. The keys of the tables see to this;
  other theorems assume it.
\<close>

theorem portal_serve_invariant:
  assumes "portal_inv cfg db"
  shows "portal_inv cfg (portal_serve cfg okq ev tok req uic db)"
proof -
  have "portal_inv cfg (portal_handler cfg ev tok req uic db)"
    using assms by (cases req) (simp_all add: inv_portal SetMaintain_def UnsetMaintain_def)
  with assms show ?thesis by (simp add: portal_serve_def Let_def split_def)
qed

section \<open>Filling a group\<close>

definition names_host :: "api_config \<Rightarrow> portal_db \<Rightarrow> int \<Rightarrow> string \<Rightarrow> bool" where
  "names_host cfg db i name \<longleftrightarrow> list_ex (\<lambda>h. ph_ID h = i \<and> coll cfg (ph_Hostname h) = coll cfg name) (t_host db)"

lemma names_host_mono: "names_host cfg db i n \<Longrightarrow> set (t_host db) \<subseteq> set (t_host db') \<Longrightarrow> names_host cfg db' i n"
  by (auto simp: names_host_def list_ex_iff)

lemma Existing_names: "Existing cfg q n db = Some i \<Longrightarrow> names_host cfg db i n"
  by (auto simp: Existing_def names_host_def list_ex_iff split: option.splits if_splits dest: find_last_Some)

lemma insert_host_names:
  "insert_host cfg q n tx = Some (tx', i) \<Longrightarrow> names_host cfg tx' i n \<and> set (t_host tx) \<subseteq> set (t_host tx') \<and>
    (\<exists>hs ids. tx' = tx\<lparr>t_host := hs, next_ids := ids\<rparr>)"
  by (auto simp: insert_host_def names_host_def split: if_splits)

definition members :: "int \<Rightarrow> int list \<Rightarrow> grp_host list" where
  "members gid is = map (\<lambda>i. \<lparr>gh_GrpID = gid, gh_HostID = i\<rparr>) is"

lemma same_hosts: "\<exists>hs ids. tx = tx\<lparr>t_host := hs, next_ids := ids\<rparr>"
  by (rule exI [of _ "t_host tx"], rule exI [of _ "next_ids tx"]) simp

lemma bind_hosts_done:
  assumes "set (t_host db) \<subseteq> set (t_host tx)" "snd (bind_hosts cfg okq k db gid hs tx)"
  shows "\<exists>is rows ids. fst (bind_hosts cfg okq k db gid hs tx) = tx\<lparr>t_host := rows, t_grp_host := t_grp_host tx @ members gid is, next_ids := ids\<rparr> \<and>
    set (t_host tx) \<subseteq> set rows \<and> list_all2 (names_host cfg (fst (bind_hosts cfg okq k db gid hs tx))) is hs"
  using assms
proof (induction hs arbitrary: k tx)
  case Nil
  have "tx = tx\<lparr>t_host := t_host tx, t_grp_host := t_grp_host tx @ members gid [], next_ids := next_ids tx\<rparr>" by (simp add: members_def)
  then show ?case by (intro exI [of _ "[]"] exI [of _ "t_host tx"] exI [of _ "next_ids tx"]) simp
next
  case (Cons h hs)
  from Cons.prems(2) obtain tx1 i where
    s: "(case Existing cfg (okq k) h db of Some i \<Rightarrow> Some (tx, i) | None \<Rightarrow> insert_host cfg (okq (k + 1)) h tx) = Some (tx1, i)" "okq (k + 2)"
    by (auto split: option.splits if_splits)
  have one: "names_host cfg tx1 i h" "set (t_host tx) \<subseteq> set (t_host tx1)" "\<exists>hs ids. tx1 = tx\<lparr>t_host := hs, next_ids := ids\<rparr>"
  proof -
    have "names_host cfg tx1 i h \<and> set (t_host tx) \<subseteq> set (t_host tx1) \<and> (\<exists>hs ids. tx1 = tx\<lparr>t_host := hs, next_ids := ids\<rparr>)"
    proof (cases "Existing cfg (okq k) h db")
      case None
      then show ?thesis using s(1) insert_host_names by fastforce
    next
      case (Some j)
      then have "tx1 = tx" "i = j" using s(1) by simp_all
      then show ?thesis using names_host_mono [OF Existing_names [OF Some] Cons.prems(1)] same_hosts [of tx] by blast
    qed
    then show "names_host cfg tx1 i h" "set (t_host tx) \<subseteq> set (t_host tx1)" "\<exists>hs ids. tx1 = tx\<lparr>t_host := hs, next_ids := ids\<rparr>" by blast+
  qed
  let ?tx2 = "tx1\<lparr>t_grp_host := t_grp_host tx1 @ [\<lparr>gh_GrpID = gid, gh_HostID = i\<rparr>]\<rparr>"
  have e: "bind_hosts cfg okq k db gid (h # hs) tx = bind_hosts cfg okq (k + 3) db gid hs ?tx2" using s by simp
  have sub: "set (t_host db) \<subseteq> set (t_host ?tx2)" using Cons.prems(1) one(2) by auto
  have "snd (bind_hosts cfg okq (k + 3) db gid hs ?tx2)" using Cons.prems(2) unfolding e .
  from Cons.IH [OF sub this] obtain "is" rows ids where r:
    "fst (bind_hosts cfg okq (k + 3) db gid hs ?tx2) = ?tx2\<lparr>t_host := rows, t_grp_host := t_grp_host ?tx2 @ members gid is, next_ids := ids\<rparr>"
    "set (t_host ?tx2) \<subseteq> set rows" "list_all2 (names_host cfg (fst (bind_hosts cfg okq (k + 3) db gid hs ?tx2))) is hs" by blast
  define D where "D = fst (bind_hosts cfg okq (k + 3) db gid hs ?tx2)"
  have D: "D = tx\<lparr>t_host := rows, t_grp_host := t_grp_host tx @ members gid (i # is), next_ids := ids\<rparr>"
    using one(3) r(1) by (auto simp: D_def members_def)
  have "names_host cfg D i h" using names_host_mono [OF one(1), of D] r(2) by (simp add: D)
  moreover have "list_all2 (names_host cfg D) is hs" using r(3) by (simp add: D_def)
  moreover have "set (t_host tx) \<subseteq> set rows" using one(2) r(2) by auto
  ultimately show ?case unfolding e D_def [symmetric] using D
    by (intro exI [of _ "i # is"] exI [of _ rows] exI [of _ ids]) simp
qed

lemma BindHost_all:
  assumes "BindHostToHostGroup cfg ev tok (Some hs) gid uic db = (db', r)"
  shows "(\<exists>ids. db' = db\<lparr>next_ids := ids\<rparr>) \<and> \<not> (is_ok r \<and> ok ev 3) \<or>
    is_ok r \<and> ok ev 3 \<and> (\<exists>is rows ids. list_all2 (names_host cfg db') is hs \<and> set (t_host db) \<subseteq> set rows \<and>
      db' = db\<lparr>t_host := rows, t_grp_host := delete_where (\<lambda>m. gh_GrpID m = gid) (t_grp_host db) @ members gid is, next_ids := ids\<rparr>)"
proof -
  have same: "\<exists>ids. db = db\<lparr>next_ids := ids\<rparr>" by (rule exI [of _ "next_ids db"]) simp
  show ?thesis
  proof (cases "\<exists>g. gid \<noteq> 0 \<and> found (ok ev 1) (find_id hg_ID gid (t_grp db)) = Inr g \<and>
      (IsAdmin cfg (whoami cfg (ok ev 0) tok uic) \<or> hg_CreateUser g = us_Name (whoami cfg (ok ev 0) tok uic)) \<and> ok ev 2")
    case False
    then have "db' = db \<and> \<not> is_ok r" using assms
      by (auto simp: BindHostToHostGroup_def Let_def is_ok_def bad_def unexpected_def split: sum.splits if_splits)
    with same show ?thesis by auto
  next
    case True
    then obtain g where g: "gid \<noteq> 0" "found (ok ev 1) (find_id hg_ID gid (t_grp db)) = Inr g"
      "IsAdmin cfg (whoami cfg (ok ev 0) tok uic) \<or> hg_CreateUser g = us_Name (whoami cfg (ok ev 0) tok uic)" "ok ev 2" by blast
    have gid: "hg_ID g = gid" using g(1,2) by (auto simp: found_def find_id_def split: if_splits option.splits dest: find_last_Some)
    let ?tx0 = "db\<lparr>t_grp_host := delete_where (\<lambda>m. gh_GrpID m = gid) (t_grp_host db)\<rparr>"
    let ?b = "bind_hosts cfg (ok ev) 4 db gid hs ?tx0"
    have e: "(db', r) = (if snd ?b then (commit (ok ev 3) db (fst ?b), RespOK ''bind to hostgroup'') else (rollback db (fst ?b), unexpected db_error))"
      using assms g gid by (auto simp: BindHostToHostGroup_def Let_def split_def split: if_splits)
    show ?thesis
    proof (cases "snd ?b \<and> ok ev 3")
      case True
      then have "db' = fst ?b" "is_ok r" using e by (auto simp: commit_def is_ok_def)
      moreover from bind_hosts_done [of db ?tx0 cfg "ok ev" 4 gid hs] True obtain "is" rows ids where
        "fst ?b = ?tx0\<lparr>t_host := rows, t_grp_host := t_grp_host ?tx0 @ members gid is, next_ids := ids\<rparr>"
        "set (t_host db) \<subseteq> set rows" "list_all2 (names_host cfg (fst ?b)) is hs" by auto
      ultimately show ?thesis using True by auto
    next
      case False
      then show ?thesis using e by (auto simp: commit_def rollback_def is_ok_def unexpected_def split: if_splits)
    qed
  qed
qed

text \<open>
  C33: Binding hosts to a group happens as a whole or not at all. When it is refused, or a statement or
  the commit fails, only identifiers are used up. Otherwise the group has exactly the hosts named,
  in that order, those that were missing now exist, and other groups keep theirs.
\<close>

theorem BindHost_all_or_nothing:
  assumes "BindHostToHostGroup cfg ev tok (Some hs) gid uic db = (db', r)"
  shows "(\<exists>ids. db' = db\<lparr>next_ids := ids\<rparr>) \<and> \<not> (is_ok r \<and> ok ev 3) \<or>
    is_ok r \<and> ok ev 3 \<and> (\<exists>is rows ids. list_all2 (names_host cfg db') is hs \<and> set (t_host db) \<subseteq> set rows \<and>
      db' = db\<lparr>t_host := rows, t_grp_host := delete_where (\<lambda>m. gh_GrpID m = gid) (t_grp_host db) @ members gid is, next_ids := ids\<rparr>)"
  by (rule BindHost_all [OF assms])

section \<open>Who fills a group\<close>

definition group_rows :: "int \<Rightarrow> portal_db \<Rightarrow> grp_host list" where
  "group_rows gid db = filter (\<lambda>m. gh_GrpID m = gid) (t_grp_host db)"

lemma tables_commit [simp]:
  "t_grp_host (commit q db tx) = (if q then t_grp_host tx else t_grp_host db)"
  "t_grp_host (rollback db tx) = t_grp_host db"
  by (simp_all add: commit_def rollback_def)

lemma insert_action_tables [simp]: "t_grp_host (fst (insert_action a db)) = t_grp_host db"
  by (simp add: insert_action_def)

lemma members_untouched:
  "t_grp_host (fst (CrateHostGroup cfg ev tok n uic db)) = t_grp_host db"
  "t_grp_host (fst (PutHostGroup cfg ev g n db)) = t_grp_host db"
  "t_grp_host (fst (CreatePlugin cfg ev tok g d uic db)) = t_grp_host db"
  "t_grp_host (fst (DeletePlugin cfg ev tok p uic db)) = t_grp_host db"
  "t_grp_host (fst (BindTemplateToGroup cfg ev tok i g uic db)) = t_grp_host db"
  "t_grp_host (fst (UnBindTemplateToGroup cfg ev tok i g uic db)) = t_grp_host db"
  "t_grp_host (fst (maintain cfg ev hosts ids b e db)) = t_grp_host db"
  by (simp_all add: CrateHostGroup_def PutHostGroup_def CreatePlugin_def DeletePlugin_def BindTemplateToGroup_def
    UnBindTemplateToGroup_def maintain_def Let_def split: sum.split)

lemma members_untouched_templates:
  "t_grp_host (fst (CreateTemplate cfg ev tok n g i uic db)) = t_grp_host db"
  "t_grp_host (fst (UpdateTemplate cfg ev tok i n g uic db)) = t_grp_host db"
  "t_grp_host (fst (DeleteTemplate ev n db)) = t_grp_host db"
  "t_grp_host (fst (CreateActionToTmplate ev a i db)) = t_grp_host db"
  "t_grp_host (fst (UpdateActionToTmplate ev i a db)) = t_grp_host db"
  "t_grp_host (fst (CreateStrategy ev si i db)) = t_grp_host db"
  "t_grp_host (fst (UpdateStrategy ev si i db)) = t_grp_host db"
  "t_grp_host (fst (DeleteStrategy ev n db)) = t_grp_host db"
  by (simp_all add: CreateTemplate_def UpdateTemplate_def DeleteTemplate_def CreateActionToTmplate_def UpdateActionToTmplate_def
    CreateStrategy_def UpdateStrategy_def DeleteStrategy_def Let_def split_def split: sum.split option.split)

lemma members_untouched_expressions:
  "t_grp_host (fst (CreateExrpession cfg ev tok xi uic db)) = t_grp_host db"
  "t_grp_host (fst (UpdateExrpession cfg ev tok i xi uic db)) = t_grp_host db"
  "t_grp_host (fst (DeleteExpression cfg ev tok n uic db)) = t_grp_host db"
  "t_grp_host (fst (CreateNoData cfg ev tok mi uic db)) = t_grp_host db"
  "t_grp_host (fst (UpdateNoData ev i mi db)) = t_grp_host db"
  "t_grp_host (fst (DeleteNoData ev n db)) = t_grp_host db"
  "t_grp_host (fst (CreateAggregator cfg ev tok i gi uic db)) = t_grp_host db"
  "t_grp_host (fst (UpdateAggregator cfg ev tok i gi uic db)) = t_grp_host db"
  "t_grp_host (fst (DeleteAggregator cfg ev tok n uic db)) = t_grp_host db"
  by (simp_all add: CreateExrpession_def UpdateExrpession_def DeleteExpression_def CreateNoData_def UpdateNoData_def DeleteNoData_def
    CreateAggregator_def UpdateAggregator_def DeleteAggregator_def Let_def split_def split: sum.split option.split)

lemmas members_kept = members_untouched members_untouched_templates members_untouched_expressions

lemma find_id_unique:
  assumes "table_ok key n rows" "r \<in> set rows" "key r = i"
  shows "find_id key i rows = Some r"
proof -
  have i: "i \<noteq> 0" using assms by (auto simp: table_ok_def list_all_iff)
  show ?thesis
  proof (cases "find_id key i rows")
    case None
    then show ?thesis using assms(2,3) by (auto simp: find_id_def find_last_None)
  next
    case (Some r')
    then have "r' \<in> set rows" "key r' = i" using i by (auto simp: find_id_def dest: find_last_Some)
    then have "r' = r" using unique_by [of key rows r' r] assms by (simp add: table_ok_def)
    with Some show ?thesis by simp
  qed
qed

text \<open>
  C12: Only an administrator or the user who created a group changes which hosts are in it.
\<close>

theorem group_members_protected:
  assumes inv: "portal_inv cfg db" and g: "g \<in> set (t_grp db)"
    and no: "\<not> IsAdmin cfg (whoami cfg (ok ev 0) tok uic)" "hg_CreateUser g \<noteq> us_Name (whoami cfg (ok ev 0) tok uic)"
  shows "group_rows (hg_ID g) (portal_serve cfg okq ev tok req uic db) = group_rows (hg_ID g) db"
proof -
  have t: "table_ok hg_ID (i_grp (next_ids db)) (t_grp db)" using inv by (simp add: portal_inv_def)
  have f: "find_id hg_ID (hg_ID g) (t_grp db) = Some g" by (rule find_id_unique [OF t g refl])
  have bind: "group_rows (hg_ID g) (fst (BindHostToHostGroup cfg ev tok hosts gid uic db)) = group_rows (hg_ID g) db" for hosts gid
  proof (cases "gid = hg_ID g \<or> hosts = None")
    case True
    then have "fst (BindHostToHostGroup cfg ev tok hosts gid uic db) = db"
      using no by (auto simp: BindHostToHostGroup_def Let_def found_def f split: option.split)
    then show ?thesis by simp
  next
    case False
    then obtain hs where hs: "hosts = Some hs" by blast
    obtain db' r where b: "BindHostToHostGroup cfg ev tok (Some hs) gid uic db = (db', r)" by fastforce
    have "filter (\<lambda>m. gh_GrpID m = hg_ID g) (members gid is) = []" for "is" using False by (simp add: members_def filter_empty_conv)
    moreover have "filter (\<lambda>m. gh_GrpID m = hg_ID g) (delete_where (\<lambda>m. gh_GrpID m = gid) (t_grp_host db)) = group_rows (hg_ID g) db"
      using False by (auto simp: group_rows_def intro!: filter_delete_where)
    ultimately show ?thesis using BindHost_all [OF b] by (auto simp: b hs group_rows_def)
  qed
  have may: "may_group cfg q (whoami cfg (ok ev 0) tok uic) (hg_ID g) db \<noteq> Inr True" for q
    using no by (simp add: may_group_def found_def f)
  have unbind: "group_rows (hg_ID g) (fst (UnBindAHostToHostGroup cfg ev tok hid gid uic db)) = group_rows (hg_ID g) db" for hid gid
    using may by (cases "gid = hg_ID g") (auto simp: UnBindAHostToHostGroup_def group_rows_def intro!: filter_delete_where split: sum.split)
  have delete: "group_rows (hg_ID g) (fst (DeleteHostGroup cfg ev tok s uic db)) = group_rows (hg_ID g) db" for s
  proof (cases "path_int ''grp id'' s = Inr (hg_ID g)")
    case True
    then have "fst (DeleteHostGroup cfg ev tok s uic db) = db" using may by (auto simp: DeleteHostGroup_def split: sum.split)
    then show ?thesis by simp
  next
    case False
    then have "filter (\<lambda>m. gh_GrpID m = hg_ID g) (delete_where (\<lambda>m. gh_GrpID m = gid) (t_grp_host db)) = group_rows (hg_ID g) db"
      if "path_int ''grp id'' s = Inr gid" for gid using that by (auto simp: group_rows_def intro!: filter_delete_where)
    then show ?thesis by (auto simp: DeleteHostGroup_def group_rows_def split: sum.split)
  qed
  have "group_rows (hg_ID g) (portal_handler cfg ev tok req uic db) = group_rows (hg_ID g) db"
    by (cases req) (simp_all add: bind unbind delete, simp_all add: group_rows_def members_kept SetMaintain_def UnsetMaintain_def)
  then show ?thesis by (simp add: portal_serve_def Let_def split_def)
qed

section \<open>Deleting\<close>

text \<open>
  C34: A template goes with all that belongs to it, or not at all: when the request is answered as done
  and the commit succeeded, its row, its action, its strategies and its bindings are gone and
  everything else of these tables is there; when it is refused nothing has changed.
\<close>

theorem DeleteTemplate_clean:
  assumes inv: "portal_inv cfg db" and t: "tp_ID t = tid" "t \<in> set (t_tpl db)" and s: "atoi s = Inr tid" "s \<noteq> ''''"
  shows "if is_ok (snd (DeleteTemplate ev s db)) \<and> ok ev 5
    then fst (DeleteTemplate ev s db) =
      db\<lparr>t_tpl := filter (\<lambda>u. tp_ID u \<noteq> tid) (t_tpl db), t_action := filter (\<lambda>a. an_ID a \<noteq> tp_ActionID t) (t_action db),
        t_strategy := filter (\<lambda>u. sg_TplId u \<noteq> tid) (t_strategy db), t_grp_tpl := filter (\<lambda>r. gt_TplID r \<noteq> tid) (t_grp_tpl db)\<rparr>
    else fst (DeleteTemplate ev s db) = db"
proof -
  have tb: "table_ok tp_ID (i_tpl (next_ids db)) (t_tpl db)" using inv by (simp add: portal_inv_def)
  then have tid: "tid \<noteq> 0" using t by (auto simp: table_ok_def list_all_iff)
  have f: "find_key tp_ID tid (t_tpl db) = Some t"
    using find_id_unique [OF tb t(2,1)] tid by (simp add: find_id_def find_key_def)
  have na: "an_ID a \<noteq> 0" if "a \<in> set (t_action db)" for a using inv that by (auto simp: portal_inv_def table_ok_def list_all_iff)
  then have "filter (\<lambda>a. an_ID a \<noteq> 0) (t_action db) = t_action db" by (simp add: filter_id_conv)
  then show ?thesis using s t(1) tid
    by (auto simp: DeleteTemplate_def path_int_def found_def f Let_def is_ok_def bad_def commit_def rollback_def delete_id_def delete_where_def)
qed

text \<open>
  The identifier zero in a request stands for all rows: any user who is logged in empties the
  strategies and the mock values with one request each, and an administrator the expressions.
\<close>

theorem zero_deletes_all:
  assumes "atoi z = Inr 0" "z \<noteq> ''''" "ok ev 0" "ok ev 2" "ok ev 3" "ok ev 4" and adm: "IsAdmin cfg (whoami cfg True tok uic)"
  shows "t_strategy (fst (DeleteStrategy ev z db)) = [] \<and> t_mockcfg (fst (DeleteNoData ev z db)) = [] \<and>
    t_expression (fst (DeleteExpression cfg ev tok z uic db)) = []"
  using assms by (simp add: DeleteStrategy_def DeleteNoData_def DeleteExpression_def path_int_def delete_id_def delete_where_def
    Let_def commit_def)

text \<open>
  An administrator who deletes an expression leaves its action behind; the user who created it takes
  the action along.
\<close>

theorem deleted_expression_action:
  assumes inv: "portal_inv cfg db" and e: "e \<in> set (t_expression db)" "atoi s = Inr (xp_ID e)" "s \<noteq> ''''"
    and ok: "ok ev 0" "ok ev 1" "ok ev 2" "ok ev 3" "ok ev 4" and who: "us_Name (whoami cfg True tok uic) = xp_CreateUser e"
  shows "t_action (fst (DeleteExpression cfg ev tok s uic db)) =
    (if IsAdmin cfg (whoami cfg True tok uic) then t_action db else filter (\<lambda>a. an_ID a \<noteq> xp_ActionId e) (t_action db))"
proof -
  have tb: "table_ok xp_ID (i_expression (next_ids db)) (t_expression db)" using inv by (simp add: portal_inv_def)
  have f: "find_id xp_ID (xp_ID e) (t_expression db) = Some e" by (rule find_id_unique [OF tb e(1) refl])
  have "an_ID a \<noteq> 0" if "a \<in> set (t_action db)" for a using inv that by (auto simp: portal_inv_def table_ok_def list_all_iff)
  then have "filter (\<lambda>a. an_ID a \<noteq> 0) (t_action db) = t_action db" by (simp add: filter_id_conv)
  then show ?thesis using e(2,3) ok who
    by (auto simp: DeleteExpression_def path_int_def Let_def commit_def delete_where_def f)
qed

end
