(* ===== verification/Api_Formats.thy ===== *)
theory Api_Formats
  imports Api_Rules
begin

text \<open>
  What the format checks of the API let through: numbers that the processes reading the database
  can parse, and operators.
\<close>

section \<open>Numbers that fit\<close>

lemma pow2_le_imp: "pow2 a \<le> pow2 b \<Longrightarrow> a \<le> b"
proof (rule ccontr)
  assume le: "pow2 a \<le> pow2 b" and "\<not> a \<le> b"
  then have "pow2 (b + 1) \<le> pow2 a" by (intro pow2_mono) simp
  moreover have "pow2 (b + 1) = 2 * pow2 b" by (simp add: pow2_add)
  moreover have "0 < pow2 b" by (rule pow2_pos)
  ultimately show False using le by simp
qed

text \<open>Rounding does not pass a power of two above the magnitude.\<close>

lemma round_mag_le_pow2:
  assumes "0 \<le> m" "m \<le> pow2 k" "0 \<le> k"
  shows "round_mag m \<le> pow2 k"
proof (cases "m = 0")
  case False
  then have m: "0 < m" using assms(1) by simp
  have "pow2 (ilog2 m) \<le> pow2 k" using ilog2_bounds(1) [OF m] assms(2) by simp
  then have "ilog2 m \<le> k" by (rule pow2_le_imp)
  then have e: "max (ilog2 m - 52) (- 1074) \<le> k" (is "?e \<le> k") using assms(3) by simp
  have "m / pow2 ?e \<le> pow2 (k - ?e)"
    using assms(2) divide_right_mono [of m "pow2 k" "pow2 ?e"] by (simp add: pow2_diff less_imp_le)
  then have "round_half_even (m / pow2 ?e) \<le> round_half_even (of_int (2 ^ nat (k - ?e)))"
    using e by (intro round_half_even_mono) simp
  then have "of_int (round_half_even (m / pow2 ?e)) \<le> (of_int (2 ^ nat (k - ?e)) :: rat)"
    by (simp only: round_half_even_of_int of_int_le_iff)
  also have "\<dots> = pow2 (k - ?e)" using e by simp
  finally have "of_int (round_half_even (m / pow2 ?e)) * pow2 ?e \<le> pow2 (k - ?e) * pow2 ?e"
    by (rule mult_right_mono) (simp add: less_imp_le)
  also have "\<dots> = pow2 k" by (simp flip: pow2_add)
  finally show ?thesis using m by (simp add: round_mag_def Let_def)
qed (use assms in \<open>simp add: less_imp_le\<close>)

lemma f_of_rat_finite:
  assumes "\<bar>q\<bar> \<le> pow2 1000"
  shows "\<exists>s m. f_of_rat z q = Fin s m"
proof -
  have "round_mag \<bar>q\<bar> \<le> pow2 1000" using assms by (intro round_mag_le_pow2) auto
  also have "\<dots> < pow2 1024" by simp
  finally have "\<not> of_int (2 ^ 1024) \<le> round_mag \<bar>q\<bar>" by simp
  then show ?thesis by (simp add: f_of_rat_def round64_def Let_def)
qed

section \<open>Reading an accepted number\<close>

lemma digits_val_digits:
  "list_all is_digit ds \<Longrightarrow> 0 \<le> acc \<Longrightarrow> \<exists>n. digits_val acc ds = Some n \<and> 0 \<le> n \<and> n < (acc + 1) * 10 ^ length ds"
proof (induction ds arbitrary: acc)
  case (Cons d ds)
  then obtain v where v: "digit_val d = Some v" by (auto simp: is_digit_def)
  then have r: "0 \<le> v" "v \<le> 9" by (auto simp: digit_val_def Let_def split: if_splits)
  with Cons.IH [of "10 * acc + v"] Cons.prems obtain n where
    n: "digits_val (10 * acc + v) ds = Some n" "0 \<le> n" "n < (10 * acc + v + 1) * 10 ^ length ds" by auto
  have "(10 * acc + v + 1) * 10 ^ length ds \<le> ((acc + 1) * 10) * 10 ^ length ds"
    using r by (intro mult_right_mono) auto
  also have "\<dots> = (acc + 1) * 10 ^ length (d # ds)" by simp
  finally have "n < (acc + 1) * 10 ^ length (d # ds)" by (rule less_le_trans [OF n(3)])
  then show ?case using v n(1,2) by (simp only: digits_val.simps option.case) blast
qed simp

lemma take_digits: "list_all is_digit a \<Longrightarrow> takeWhile is_digit a = a" "list_all is_digit a \<Longrightarrow> dropWhile is_digit a = []"
  by (simp_all add: list_all_iff takeWhile_eq_all_conv)

lemma parse_decimal_digits:
  assumes "ip \<noteq> []" "list_all is_digit ip" "fp = [] \<or> fp = CHR ''.'' # gp" "list_all is_digit gp"
  shows "\<exists>q. parse_decimal (ip @ fp) = Some q \<and> 0 \<le> q \<and> q < 10 ^ (length ip + length fp)"
proof -
  have ip: "takeWhile is_digit (ip @ fp) = ip" "dropWhile is_digit (ip @ fp) = fp"
    using assms(2,3) by (auto simp: takeWhile_append dropWhile_append list_all_iff)
  define g where "g = (if fp = [] then [] else gp)"
  have g: "list_all is_digit (ip @ g)" using assms(2,4) by (simp add: g_def)
  obtain n where n: "digits_val 0 (ip @ g) = Some n" "0 \<le> n" "n < 10 ^ length (ip @ g)"
    using digits_val_digits [OF g, of 0] by auto
  have "parse_decimal (ip @ fp) = Some (of_int n * pow10 (- int (length g)))"
    using assms(1,3,4) n(1) by (auto simp: parse_decimal_def ip Let_def g_def take_digits parse_exponent_def)
  moreover have p: "0 < pow10 (- int (length g))" "pow10 (- int (length g)) \<le> 1"
    by (auto simp: pow10_def)
  have "(of_int n :: rat) < of_int (10 ^ length (ip @ g))" using n(3) by (simp only: of_int_less_iff)
  then have lt: "of_int n < (10 ^ length (ip @ g) :: rat)" by simp
  have "of_int n * pow10 (- int (length g)) \<le> of_int n" using p n(2) by (intro mult_left_le) auto
  then have "of_int n * pow10 (- int (length g)) < 10 ^ length (ip @ g)" using lt by (rule le_less_trans)
  moreover have "0 \<le> of_int n * pow10 (- int (length g))" using p n(2) by simp
  moreover have le: "(10 ^ length (ip @ g) :: rat) \<le> 10 ^ (length ip + length fp)"
    using assms(3) by (intro power_increasing) (auto simp: g_def)
  ultimately show ?thesis using \<open>parse_decimal (ip @ fp) = _\<close> less_le_trans [OF _ le]
    by (intro exI [of _ "of_int n * pow10 (- int (length g))"]) blast
qed

lemma digit_not_letter: "is_digit c \<Longrightarrow> ascii_lower c \<noteq> CHR ''n''" "is_digit c \<Longrightarrow> ascii_lower c \<noteq> CHR ''i''"
  by (auto simp: is_digit_def digit_val_def ascii_lower_def Let_def split: if_splits)

text \<open>
  A right value that is accepted, in the length its column has, is read as a float by every process
  that scans it.
\<close>

lemma accepted_number_reads:
  assumes "w \<in> lang validRightValue" "length w \<le> 300"
  shows "\<exists>s m. parse_float w = Inr (Fin s m)"
proof -
  from assms(1) obtain sg ip fp where w: "w = sg @ ip @ fp" "sg = [] \<or> sg = ''-''" "ip \<in> lang (RPlus (RChar is_digit))"
    "fp \<in> lang (ROpt (RSeq (RLit ''.'') (RPlus (RChar is_digit))))"
    by (auto simp: validRightValue_def)
  have ip: "ip \<noteq> []" "list_all is_digit ip" using w(3) unfolding lang_plus_chars by blast+
  obtain gp where fp: "fp = [] \<or> fp = CHR ''.'' # gp" "list_all is_digit gp"
  proof (cases "fp = []")
    case False
    then obtain gp where "fp = ''.'' @ gp" "gp \<in> lang (RPlus (RChar is_digit))" using w(4) by auto
    then show ?thesis using that [of gp] unfolding lang_plus_chars by simp
  qed (use that [of "[]"] in simp)
  obtain d ds where d: "ip = d # ds" "is_digit d" using ip by (cases ip) auto
  then have nd: "d \<noteq> CHR ''-''" "d \<noteq> CHR ''+''" by auto
  obtain neg where sp: "split_sign w = (neg, ip @ fp)"
    using w(1,2) d nd by (auto simp: split_sign_def)
  from parse_decimal_digits [OF ip fp] obtain q where q: "parse_decimal (ip @ fp) = Some q" "0 \<le> q"
    "q < 10 ^ (length ip + length fp)" by blast
  have "(10 ^ (length ip + length fp) :: rat) \<le> 10 ^ 300"
    using assms(2) w(1) by (intro power_increasing) auto
  also have "(10 ^ 300 :: rat) \<le> pow2 1000" by simp
  finally have "\<bar>if neg then - q else q\<bar> \<le> pow2 1000" using q(2,3) by auto
  from f_of_rat_finite [OF this] obtain s m where f: "f_of_rat neg (if neg then - q else q) = Fin s m" by blast
  have "map ascii_lower w \<noteq> ''nan''" using w(1,2) d digit_not_letter(1) by (auto simp: ascii_lower_def)
  moreover have "map ascii_lower (ip @ fp) \<noteq> ''inf''" "map ascii_lower (ip @ fp) \<noteq> ''infinity''"
    using d digit_not_letter(2) by auto
  ultimately show ?thesis by (simp add: parse_float_def sp q(1) f)
qed

lemma digits_are_value: "w \<in> lang validDigits \<Longrightarrow> w \<in> lang validRightValue"
proof -
  assume "w \<in> lang validDigits"
  moreover have "w = [] @ w @ []" by simp
  ultimately show ?thesis unfolding validRightValue_def validDigits_def lang.simps(4) lang_ROpt by blast
qed

lemma accepted_digits_read: "w \<in> lang validDigits \<Longrightarrow> length w \<le> 300 \<Longrightarrow> \<exists>s m. parse_float w = Inr (Fin s m)"
  by (rule accepted_number_reads [OF digits_are_value])

section \<open>Operators\<close>

lemma validOp_iff: "w \<in> lang validOp \<longleftrightarrow> w \<in> set [''>'', ''>='', ''='', ''=='', ''<'', ''<='', ''!'', ''!='']"
proof
  assume "w \<in> set [''>'', ''>='', ''='', ''=='', ''<'', ''<='', ''!'', ''!='']"
  then have "rx_match validOp w" by (auto simp: rx_match_def validOp_def ROpt_def RLit_def)
  then show "w \<in> lang validOp" by (simp only: rx_match_lang)
qed (auto simp: validOp_def)

section \<open>The formats of all rows\<close>

text \<open>Values and operators of strategies and expressions in the tables match the patterns.\<close>

definition formats_ok :: "portal_db \<Rightarrow> bool" where
  "formats_ok db \<longleftrightarrow>
    list_all (\<lambda>s. rx_match validOp (sg_Op s) \<and> rx_match validRightValue (sg_RightValue s)) (t_strategy db) \<and>
    list_all (\<lambda>e. rx_match validOp (xp_Op e) \<and> rx_match validDigits (xp_RightValue e)) (t_expression db)"

lemma rule_tables_commit [simp]:
  "t_strategy (commit q db tx) = (if q then t_strategy tx else t_strategy db)" "t_strategy (rollback db tx) = t_strategy db"
  "t_expression (commit q db tx) = (if q then t_expression tx else t_expression db)" "t_expression (rollback db tx) = t_expression db"
  by (simp_all add: commit_def rollback_def)

lemma rule_tables_action [simp]:
  "t_strategy (fst (insert_action a db)) = t_strategy db" "t_expression (fst (insert_action a db)) = t_expression db"
  by (simp_all add: insert_action_def)

lemma rule_tables_insert_host: "insert_host cfg q h tx = Some (tx', i) \<Longrightarrow> t_strategy tx' = t_strategy tx \<and> t_expression tx' = t_expression tx"
  by (auto simp: insert_host_def split: if_splits)

lemma rule_tables_bind_hosts:
  "t_strategy (fst (bind_hosts cfg q k db g hs tx)) = t_strategy tx \<and> t_expression (fst (bind_hosts cfg q k db g hs tx)) = t_expression tx"
  by (induction cfg q k db g hs tx rule: bind_hosts.induct) (auto split: option.split prod.split dest: rule_tables_insert_host)

definition same_rules :: "portal_db \<Rightarrow> portal_db \<Rightarrow> bool" where
  "same_rules db db' \<longleftrightarrow> t_strategy db' = t_strategy db \<and> t_expression db' = t_expression db"

lemma rules_untouched:
  "same_rules db (fst (CrateHostGroup cfg ev tok n uic db))"
  "same_rules db (fst (BindHostToHostGroup cfg ev tok hosts g uic db))"
  "same_rules db (fst (UnBindAHostToHostGroup cfg ev tok h g uic db))"
  "same_rules db (fst (PutHostGroup cfg ev g n db))"
  "same_rules db (fst (DeleteHostGroup cfg ev tok n uic db))"
  "same_rules db (fst (CreatePlugin cfg ev tok g d uic db))"
  "same_rules db (fst (DeletePlugin cfg ev tok p uic db))"
  "same_rules db (fst (BindTemplateToGroup cfg ev tok i g uic db))"
  "same_rules db (fst (UnBindTemplateToGroup cfg ev tok i g uic db))"
  "same_rules db (fst (maintain cfg ev hs ids b e db))"
  "same_rules db (fst (CreateTemplate cfg ev tok n g i uic db))"
  "same_rules db (fst (UpdateTemplate cfg ev tok i n g uic db))"
  "same_rules db (fst (CreateActionToTmplate ev a i db))"
  "same_rules db (fst (UpdateActionToTmplate ev i a db))"
  "same_rules db (fst (CreateNoData cfg ev tok mi uic db))"
  "same_rules db (fst (UpdateNoData ev i mi db))"
  "same_rules db (fst (DeleteNoData ev n db))"
  "same_rules db (fst (CreateAggregator cfg ev tok i gi uic db))"
  "same_rules db (fst (UpdateAggregator cfg ev tok i gi uic db))"
  "same_rules db (fst (DeleteAggregator cfg ev tok n uic db))"
  by (simp_all add: same_rules_def rule_tables_bind_hosts CrateHostGroup_def BindHostToHostGroup_def UnBindAHostToHostGroup_def
    PutHostGroup_def DeleteHostGroup_def CreatePlugin_def DeletePlugin_def BindTemplateToGroup_def UnBindTemplateToGroup_def
    maintain_def CreateTemplate_def UpdateTemplate_def CreateActionToTmplate_def UpdateActionToTmplate_def CreateNoData_def
    UpdateNoData_def DeleteNoData_def CreateAggregator_def UpdateAggregator_def DeleteAggregator_def Let_def split_def
    split: sum.split option.split)

lemma formats_same: "same_rules db db' \<Longrightarrow> formats_ok db \<Longrightarrow> formats_ok db'"
  by (simp add: same_rules_def formats_ok_def)

lemma formats_append:
  "formats_ok db \<Longrightarrow> CheckFormat_create si = None \<Longrightarrow> formats_ok (db\<lparr>t_strategy := t_strategy db @ [strategy_of i t si], next_ids := n\<rparr>)"
  "formats_ok db \<Longrightarrow> CheckFormat_expression xi = None \<Longrightarrow>
    formats_ok (db\<lparr>t_expression := t_expression db @ [expression_of i u a xi], next_ids := n\<rparr>)"
  by (simp_all add: formats_ok_def strategy_of_def expression_of_def CheckFormat_create_def check_strategy_def
    CheckFormat_expression_def split: if_splits)

lemma list_all_update_where: "list_all P rows \<Longrightarrow> (\<And>r. P (f r)) \<Longrightarrow> list_all P (update_where p f rows)"
  by (auto simp: update_where_def list_all_iff)

lemma list_all_delete_where: "list_all P rows \<Longrightarrow> list_all P (delete_where p rows)"
  by (auto simp: delete_where_def list_all_iff)

lemma formats_delete:
  "formats_ok db \<Longrightarrow> formats_ok (db\<lparr>t_strategy := delete_where p (t_strategy db)\<rparr>)"
  "formats_ok db \<Longrightarrow> formats_ok (db\<lparr>t_action := as, t_expression := delete_where q (t_expression db)\<rparr>)"
  by (simp_all add: formats_ok_def list_all_delete_where)

lemma formats_update:
  "formats_ok db \<Longrightarrow> CheckFormat_update si = None \<Longrightarrow>
    formats_ok (db\<lparr>t_strategy := update_where p (\<lambda>r. strategy_of (sg_ID r) (sg_TplId r) si) (t_strategy db)\<rparr>)"
  "formats_ok db \<Longrightarrow> CheckFormat_expression xi = None \<Longrightarrow>
    formats_ok (db\<lparr>t_expression := update_where q (\<lambda>x. expression_of (xp_ID x) (xp_CreateUser x) (xp_ActionId x) xi) (t_expression db),
      t_action := as\<rparr>)"
  by (auto simp: formats_ok_def strategy_of_def expression_of_def CheckFormat_update_def check_strategy_def digits_are_value
    CheckFormat_expression_def rx_match_lang split: if_splits intro!: list_all_update_where)

lemma formats_commit: "formats_ok db \<Longrightarrow> formats_ok tx \<Longrightarrow> formats_ok (commit q db tx)"
  by (simp add: commit_def rollback_def formats_ok_def)

lemma formats_action: "formats_ok db \<Longrightarrow> formats_ok (fst (insert_action a db))"
  by (simp add: formats_ok_def)

lemma formats_rollback: "formats_ok db \<Longrightarrow> formats_ok (rollback db tx)"
  by (simp add: rollback_def formats_ok_def)

lemmas formats_kept = formats_append formats_delete formats_update formats_commit formats_action formats_rollback

lemma formats_strategies:
  assumes "formats_ok db"
  shows "formats_ok (fst (CreateStrategy ev si i db))" "formats_ok (fst (UpdateStrategy ev si i db))"
    "formats_ok (fst (DeleteStrategy ev n db))"
  using assms
  by (auto simp: CreateStrategy_def UpdateStrategy_def DeleteStrategy_def delete_id_def Let_def formats_kept
    split: sum.split option.split)

lemma formats_DeleteTemplate: "formats_ok db \<Longrightarrow> formats_ok (fst (DeleteTemplate ev n db))"
  by (auto simp: DeleteTemplate_def Let_def formats_ok_def list_all_delete_where split: sum.split)

lemma formats_expressions:
  assumes "formats_ok db"
  shows "formats_ok (fst (CreateExrpession cfg ev tok xi uic db))" "formats_ok (fst (UpdateExrpession cfg ev tok i xi uic db))"
    "formats_ok (fst (DeleteExpression cfg ev tok n uic db))"
  using assms
  by (auto simp: CreateExrpession_def UpdateExrpession_def DeleteExpression_def delete_id_def Let_def split_def formats_kept
    simp del: rule_tables_action split: sum.split option.split)

text \<open>
  C35: Whatever requests come, what judges and the heartbeat server read as operators and numbers matches
  the patterns of the checks.
\<close>

theorem portal_serve_formats:
  assumes "formats_ok db"
  shows "formats_ok (portal_serve cfg okq ev tok req uic db)"
proof -
  have "formats_ok (portal_handler cfg ev tok req uic db)"
    using assms by (cases req) (simp_all add: formats_strategies formats_DeleteTemplate formats_expressions rules_untouched [THEN formats_same]
      SetMaintain_def UnsetMaintain_def)
  then show ?thesis using assms by (simp add: portal_serve_def Let_def split_def)
qed

end
