(* ===== verification/Api_Monitor.thy ===== *)
theory Api_Monitor
  imports Api_Formats Hbs_Agents
begin

text \<open>
  From the API to the judges: the heartbeat server reads the tables the API writes. The queries of
  \<open>modules/hbs/db\<close> as functions of those tables, what a configured host is served after a reload,
  and two configurations the API accepts that the heartbeat server cannot use.
\<close>

section \<open>The queries\<close>

text \<open>\<open>lt\<close> is the order of texts in the database, \<open>hm\<close> the time of day, \<open>now\<close> the time.\<close>

definition strategy_active :: "(string \<Rightarrow> string \<Rightarrow> bool) \<Rightarrow> string \<Rightarrow> strategy_rec \<Rightarrow> bool" where
  "strategy_active lt hm s \<longleftrightarrow>
    sg_RunBegin s = '''' \<and> sg_RunEnd s = '''' \<or>
    \<not> lt hm (sg_RunBegin s) \<and> lt hm (sg_RunEnd s) \<or>
    lt (sg_RunEnd s) (sg_RunBegin s) \<and> \<not> (lt hm (sg_RunBegin s) \<and> lt (sg_RunEnd s) hm)"

definition host_monitored :: "int64 \<Rightarrow> portal_host \<Rightarrow> bool" where
  "host_monitored now h \<longleftrightarrow> now < ph_MaintainBegin h \<or> ph_MaintainEnd h < now"

text \<open>A row whose right value is not a number cannot be scanned.\<close>

definition strategy_scan :: "strategy_rec \<Rightarrow> (strategy \<times> string \<times> int) option" where
  "strategy_scan s =
    (case parse_float (sg_RightValue s) of
       Inl err \<Rightarrow> None
     | Inr v \<Rightarrow> Some (\<lparr>st_Id = sg_ID s, st_Metric = sg_Metric s, st_Tags = [], st_Func = sg_Func s, st_Operator = sg_Op s,
         st_RightValue = v, st_MaxStep = sg_MaxStep s, st_Priority = sg_Priority s, st_Note = sg_Note s, st_Tpl = None\<rparr>,
         sg_Tags s, sg_TplId s))"

definition expression_scan :: "expression_rec \<Rightarrow> (expression \<times> string) option" where
  "expression_scan e =
    (case parse_float (xp_RightValue e) of
       Inl err \<Rightarrow> None
     | Inr v \<Rightarrow> Some (\<lparr>ex_Id = xp_ID e, ex_Metric = '''', ex_Tags = [], ex_Func = xp_Func e, ex_Operator = xp_Op e,
         ex_RightValue = v, ex_MaxStep = xp_MaxStep e, ex_Priority = xp_Priority e, ex_Note = xp_Note e,
         ex_ActionId = xp_ActionId e\<rparr>, xp_Expression e))"

definition template_of :: "tpl_row \<Rightarrow> template" where
  "template_of t = \<lparr>tpl_Id = tp_ID t, tpl_Name = tp_Name t, tpl_ParentId = tp_ParentID t, tpl_ActionId = tp_ActionID t,
    tpl_Creator = tp_CreateUser t\<rparr>"

text \<open>The join of bindings and members: template and host, in the order of the tables.\<close>

definition host_templates :: "portal_db \<Rightarrow> (int \<times> int) list" where
  "host_templates db =
    concat (map (\<lambda>a. map (\<lambda>b. (gt_TplID a, gh_HostID b)) (filter (\<lambda>b. gt_GrpID a = gh_GrpID b) (t_grp_host db))) (t_grp_tpl db))"

definition hbs_queries :: "(string \<Rightarrow> string \<Rightarrow> bool) \<Rightarrow> string \<Rightarrow> int64 \<Rightarrow> portal_db \<Rightarrow> hbs_db" where
  "hbs_queries lt hm now db =
    \<lparr>db_plugins = Inr (map (\<lambda>p. Some (pl_GrpId p, pl_Dir p)) (t_plugin db)),
     db_group_templates = Inr (map (\<lambda>r. Some (gt_GrpID r, gt_TplID r)) (t_grp_tpl db)),
     db_host_groups = Inr (map (\<lambda>r. Some (gh_GrpID r, gh_HostID r)) (t_grp_host db)),
     db_hosts = Inr (map (\<lambda>h. Some (ph_ID h, ph_Hostname h)) (t_host db)),
     db_templates = Inr (map (\<lambda>t. Some (template_of t)) (t_tpl db)),
     db_strategies = Inr (map strategy_scan (filter (strategy_active lt hm) (t_strategy db))),
     db_host_template_ids = Inr (map Some (host_templates db)),
     db_expressions = Inr (map expression_scan (filter (\<lambda>e. 0 < xp_ActionId e \<and> xp_Pause e = 0) (t_expression db))),
     db_monitored_hosts = Inr (map (\<lambda>h. Some \<lparr>ho_Id = ph_ID h, ho_Name = ph_Hostname h\<rparr>) (filter (host_monitored now) (t_host db)))\<rparr>"

section \<open>What a reload fills the caches with\<close>

lemma scanned_Some [simp]: "scanned (map (\<lambda>x. Some (f x)) xs) = map f xs" "scanned (map Some xs) = xs"
  by (induction xs) (simp_all add: scanned_def map_filter_simps)

lemma scanned_map: "scanned (map f xs) = List.map_filter f xs"
  by (induction xs) (simp_all add: scanned_def map_filter_simps split: option.split)

lemma gget_foldl_key:
  "distinct (map key xs) \<Longrightarrow> x \<in> set xs \<Longrightarrow> gget (foldl (\<lambda>m x. gput (key x) (val x) m) m xs) (key x) = Some (val x)"
  by (induction xs rule: rev_induct) (auto, metis imageI)

definition templates_of :: "portal_db \<Rightarrow> (int, template) gomap" where
  "templates_of db = foldl (\<lambda>m t. gput (tpl_Id t) t m) [] (map template_of (t_tpl db))"

definition tids_of :: "int \<Rightarrow> portal_db \<Rightarrow> int list" where
  "tids_of hid db = map fst (filter (\<lambda>x. snd x = hid) (host_templates db))"

text \<open>The rows that are active and can be scanned, with the template they belong to.\<close>

definition strategies_of :: "(string \<Rightarrow> string \<Rightarrow> bool) \<Rightarrow> string \<Rightarrow> portal_db \<Rightarrow> (int, strategy) gomap" where
  "strategies_of lt hm db =
    foldl (strategy_row (templates_of db)) [] (List.map_filter strategy_scan (filter (strategy_active lt hm) (t_strategy db)))"

lemma reload_caches:
  assumes "cache_Init (hbs_queries lt hm now db) st = Some st'" "t_tpl db \<noteq> []"
  shows "hb_TemplateCache st' = templates_of db" "hb_Strategies st' = strategies_of lt hm db"
    "hb_HostTemplateIds st' = foldl (\<lambda>m r. add_to_bucket (snd r) (fst r) m) [] (host_templates db)"
    "hb_MonitoredHosts st' = foldl (\<lambda>m t. gput (ho_Id t) t m) []
      (map (\<lambda>h. \<lparr>ho_Id = ph_ID h, ho_Name = ph_Hostname h\<rparr>) (filter (host_monitored now) (t_host db)))"
proof -
  have ne: "templates_of db \<noteq> []"
  proof -
    have "gget (templates_of db) (tp_ID (last (t_tpl db))) \<noteq> None"
      using assms(2) by (cases "t_tpl db" rule: rev_cases) (simp_all add: templates_of_def template_of_def)
    then show ?thesis by auto
  qed
  have t: "QueryTemplates (db_templates (hbs_queries lt hm now db)) = Inr (templates_of db)"
    by (simp add: QueryTemplates_def hbs_queries_def templates_of_def)
  have s: "QueryStrategies (templates_of db) (db_strategies (hbs_queries lt hm now db)) = Inr (strategies_of lt hm db)"
    using ne by (simp add: QueryStrategies_def hbs_queries_def strategies_of_def scanned_map)
  show "hb_TemplateCache st' = templates_of db" "hb_Strategies st' = strategies_of lt hm db"
    "hb_HostTemplateIds st' = foldl (\<lambda>m r. add_to_bucket (snd r) (fst r) m) [] (host_templates db)"
    "hb_MonitoredHosts st' = foldl (\<lambda>m t. gput (ho_Id t) t m) []
      (map (\<lambda>h. \<lparr>ho_Id = ph_ID h, ho_Name = ph_Hostname h\<rparr>) (filter (host_monitored now) (t_host db)))"
    using assms(1) t s
    by (auto simp: cache_Init_def Let_def GroupPlugins_Init_def GroupTemplates_Init_def HostGroupsMap_Init_def HostMap_Init_def
      TemplateCache_Init_def Strategies_Init_def HostTemplateIds_Init_def ExpressionCache_Init_def MonitoredHosts_Init_def reload_def
      QueryHostTemplateIds_def QueryMonitoredHosts_def hbs_queries_def split: bind_splits)
qed

lemma templates_of_lookup:
  assumes "portal_inv cfg db" "t \<in> set (t_tpl db)"
  shows "gget (templates_of db) (tp_ID t) = Some (template_of t)"
proof -
  have e: "map tpl_Id (map template_of (t_tpl db)) = map tp_ID (t_tpl db)" by (simp add: template_of_def)
  have "distinct (map tpl_Id (map template_of (t_tpl db)))" unfolding e using assms(1) by (simp add: portal_inv_def table_ok_def)
  from gget_foldl_key [OF this, of "template_of t" "\<lambda>t. t" "[]"] assms(2) show ?thesis
    by (simp add: templates_of_def template_of_def)
qed

lemma strategy_row_keys:
  "foldl (strategy_row T) m rs =
    foldl (\<lambda>m s. gput (st_Id s) s m) m
      (List.map_filter (\<lambda>(s, tags, tid). map_option (\<lambda>t. s\<lparr>st_Tags := strategy_row_tags tags, st_Tpl := Some t\<rparr>) (gget T tid)) rs)"
  by (induction rs arbitrary: m) (auto simp: strategy_row_def map_filter_simps split: option.split)

lemma distinct_map_filter_key:
  assumes "distinct (map key xs)" "\<And>x y. x \<in> set xs \<Longrightarrow> f x = Some y \<Longrightarrow> key' y = key x"
  shows "distinct (map key' (List.map_filter f xs))"
proof -
  have "set (map key' (List.map_filter f xs)) \<subseteq> key ` set xs \<and> distinct (map key' (List.map_filter f xs))"
    using assms
  proof (induction xs)
    case (Cons x xs)
    have ih: "set (map key' (List.map_filter f xs)) \<subseteq> key ` set xs" "distinct (map key' (List.map_filter f xs))"
      using Cons by auto
    have "key' y = key x" if "f x = Some y" for y using Cons.prems(2) that by simp
    then show ?case using ih Cons.prems(1) by (auto simp: map_filter_simps split: option.split)
  qed (simp add: map_filter_simps)
  then show ?thesis ..
qed

text \<open>The strategy that judges get for a row, with the template it belongs to.\<close>

definition strategy_served :: "portal_db \<Rightarrow> strategy_rec \<Rightarrow> strategy option" where
  "strategy_served db s =
    (case strategy_scan s of None \<Rightarrow> None
     | Some (r, tags, tid) \<Rightarrow> map_option (\<lambda>t. r\<lparr>st_Tags := strategy_row_tags tags, st_Tpl := Some t\<rparr>) (gget (templates_of db) tid))"

lemma strategies_of_values:
  assumes "portal_inv cfg db"
  shows "snd ` set (strategies_of lt hm db) = {r. \<exists>s\<in>set (t_strategy db). strategy_active lt hm s \<and> strategy_served db s = Some r}"
proof -
  let ?rows = "filter (strategy_active lt hm) (t_strategy db)"
  let ?f = "\<lambda>(s, tags, tid). map_option (\<lambda>t. s\<lparr>st_Tags := strategy_row_tags tags, st_Tpl := Some t\<rparr>) (gget (templates_of db) tid)"
  have mf: "List.map_filter ?f (List.map_filter strategy_scan xs) = List.map_filter (strategy_served db) xs" for xs
    by (induction xs) (auto simp: map_filter_simps strategy_served_def split: option.split prod.split)
  have e: "strategies_of lt hm db = foldl (\<lambda>m s. gput (st_Id s) s m) [] (List.map_filter (strategy_served db) ?rows)"
    by (simp add: strategies_of_def strategy_row_keys mf)
  have key: "st_Id r = sg_ID s" if "strategy_served db s = Some r" for s r
    using that by (auto simp: strategy_served_def strategy_scan_def split: sum.splits)
  have "distinct (map sg_ID ?rows)" using assms by (simp add: portal_inv_def table_ok_def distinct_map_filter)
  then have d: "distinct (map st_Id (List.map_filter (strategy_served db) ?rows))"
    by (rule distinct_map_filter_key) (simp add: key)
  have vals: "snd ` set (foldl (\<lambda>m s. gput (st_Id s) s m) [] rs) = set rs" if "distinct (map st_Id rs)" for rs :: "strategy list"
  proof -
    have "foldl (\<lambda>m (k, v). gput k v m) [] (map (\<lambda>s. (st_Id s, s)) rs) = map (\<lambda>s. (st_Id s, s)) rs"
      using foldl_gput_new [of "map (\<lambda>s. (st_Id s, s)) rs" "[]"] that by (simp add: comp_def)
    moreover have "foldl (\<lambda>m (k, v). gput k v m) [] (map (\<lambda>s. (st_Id s, s)) rs) = foldl (\<lambda>m s. gput (st_Id s) s m) [] rs"
      by (simp add: foldl_map)
    ultimately show ?thesis by (simp add: image_image)
  qed
  show ?thesis unfolding e vals [OF d] by (auto simp: List.map_filter_def intro!: rev_image_eqI)
qed

section \<open>Some chain keeps a template\<close>

lemma ParentIds_of_chain: "chain T tid ids \<Longrightarrow> ParentIds T tid = (if length ids < 10 then ids else [])"
  using parent_loop_chain [of T tid ids 9 "[]"] by (auto simp: ParentIds_def eval_nat_numeral)

lemma chain_of_ParentIds:
  assumes "ParentIds T tid \<noteq> []"
  shows "chain T tid (ParentIds T tid)"
proof -
  have ten: "(10 :: nat) = Suc 9" by simp
  obtain ids where "chain T tid ids"
    using assms parent_loop_no_chain [of T tid 9 "[]"] unfolding ParentIds_def ten by auto
  with ParentIds_of_chain [OF this] assms show ?thesis by (auto split: if_splits)
qed

lemma chain_unique: "chain T tid ids \<Longrightarrow> chain T tid ids' \<Longrightarrow> ids' = ids"
proof (induction arbitrary: ids' rule: chain.induct)
  case (chain_stop tid)
  then show ?case by (auto elim: chain.cases)
next
  case (chain_step tid t ids)
  from chain_step.prems show ?case
  proof (cases rule: chain.cases)
    case (chain_step t' ids'')
    then show ?thesis using chain_step.hyps chain_step.IH by auto
  qed (use chain_step.hyps in auto)
qed

text \<open>A chain begins with the chain of every template in it.\<close>

lemma chain_prefix:
  "chain T tid ids \<Longrightarrow> x \<in> set ids \<Longrightarrow> \<exists>p rest. ids = p @ rest \<and> chain T x p"
proof (induction rule: chain.induct)
  case (chain_step tid t ids)
  show ?case
  proof (cases "x = tid")
    case True
    then have "chain T x (ids @ [tid])" using chain.chain_step [OF chain_step.hyps] by simp
    then show ?thesis by (intro exI [of _ "ids @ [tid]"] exI [of _ "[]"]) simp
  next
    case False
    then obtain p rest where "ids = p @ rest" "chain T x p" using chain_step by auto
    then show ?thesis by (intro exI [of _ p] exI [of _ "rest @ [tid]"]) simp
  qed
qed simp

lemma chains_same_set:
  assumes "c \<in> set (chains_of T tids)" "c' \<in> set (chains_of T tids)" "set c = set c'"
  shows "c = c'"
proof -
  obtain a b where ab: "c = ParentIds T a" "c \<noteq> []" "c' = ParentIds T b" "c' \<noteq> []"
    using assms by (auto simp: chains_of_def)
  then have ch: "chain T a c" "chain T b c'" using chain_of_ParentIds by auto
  have "a \<in> set c" "b \<in> set c'" using ab ParentIds_last by (metis last_in_set)+
  then have "a \<in> set c'" "b \<in> set c" using assms(3) by auto
  then obtain p r p' r' where p: "c' = p @ r" "chain T a p" "c = p' @ r'" "chain T b p'"
    using chain_prefix [OF ch(2)] chain_prefix [OF ch(1)] by metis
  then have "p = c" "p' = c'" using chain_unique ch by metis+
  with p show ?thesis by auto
qed

lemma maximal_above:
  assumes "c \<in> set (chains_of T tids)"
  shows "\<exists>m\<in>set (maximal_chains T tids). set c \<subseteq> set m"
proof -
  let ?S = "{m \<in> set (chains_of T tids). set c \<subseteq> set m}"
  let ?K = "(\<lambda>m. card (set m)) ` ?S"
  have fin: "finite ?K" "?K \<noteq> {}" using assms by auto
  from Max_in [OF fin] obtain m where m: "m \<in> ?S" "card (set m) = Max ?K" by auto
  have max: "card (set n) \<le> card (set m)" if "n \<in> ?S" for n
    unfolding m(2) using that by (intro Max_ge fin(1)) (rule imageI)
  have "n = m" if "n \<in> set (chains_of T tids)" "set m \<subseteq> set n" for n
  proof -
    have "n \<in> ?S" using that m(1) by auto
    then have "card (set n) \<le> card (set m)" by (rule max)
    then have "set m = set n" using that(2) by (simp add: card_seteq)
    then show ?thesis using chains_same_set [of m T tids n] m(1) that(1) by auto
  qed
  then have "m \<in> set (maximal_chains T tids)" using m(1) by (auto simp: maximal_chains_def list_all_iff)
  with m(1) show ?thesis by blast
qed

lemma survivors_alone:
  assumes "s \<in> set (bucket tpl2 t)" "\<And>y s'. y \<noteq> t \<Longrightarrow> s' \<in> set (bucket tpl2 y) \<Longrightarrow> strategy_uuid s' \<noteq> strategy_uuid s"
  shows "t \<in> set c \<Longrightarrow> s \<in> set (survivors tpl2 c)"
proof (induction c)
  case (Cons a c)
  show ?case
  proof (cases "t \<in> set c")
    case False
    then have "a = t" "\<forall>y\<in>set c. y \<noteq> t" using Cons.prems by auto
    then show ?thesis using assms by (auto simp: list_all_iff)
  qed (use Cons in simp)
qed simp

section \<open>A configured strategy is served\<close>

definition row_key :: "strategy_rec \<Rightarrow> string" where
  "row_key s = ''metric:'' @ sg_Metric s @ ''/tags:'' @ SortedTags (strategy_row_tags (sg_Tags s))"

lemma templates_of_Id: "gget (templates_of db) k = Some tt \<Longrightarrow> tpl_Id tt = k"
proof -
  have "gget (foldl (\<lambda>m t. gput (tpl_Id t) t m) [] xs) k = Some tt \<Longrightarrow> tpl_Id tt = k" for xs
    by (induction xs rule: rev_induct) (auto split: if_splits)
  then show "gget (templates_of db) k = Some tt \<Longrightarrow> tpl_Id tt = k" by (simp add: templates_of_def)
qed

lemma strategy_served_fields:
  assumes "strategy_served db s = Some r"
  shows "st_Id r = sg_ID s" "strategy_uuid r = row_key s" "parse_float (sg_RightValue s) = Inr (st_RightValue r)"
    "st_Metric r = sg_Metric s" "st_Func r = sg_Func s" "st_Operator r = sg_Op s" "st_MaxStep r = sg_MaxStep s"
    "map_option tpl_Id (st_Tpl r) = Some (sg_TplId s)"
  using assms templates_of_Id
  by (fastforce simp: strategy_served_def strategy_scan_def strategy_uuid_def row_key_def split: sum.splits)+

lemma bucket_strategies_of:
  assumes "portal_inv cfg db"
  shows "set (bucket (Tpl2Strategies (strategies_of lt hm db)) t) =
    {r. \<exists>s\<in>set (t_strategy db). strategy_active lt hm s \<and> strategy_served db s = Some r \<and> sg_TplId s = t}"
  using strategy_served_fields(8) by (fastforce simp: bucket_Tpl2Strategies strategies_of_values [OF assms])

lemma tids_lookup:
  assumes "tid \<in> set (tids_of hid db)"
  shows "gget (foldl (\<lambda>m r. add_to_bucket (snd r) (fst r) m) [] (host_templates db)) hid = Some (tids_of hid db)"
  using assms by (auto simp: gget_foldl_add tids_of_def filter_empty_conv)

lemma tids_of_bound:
  assumes "m \<in> set (t_grp_host db)" "b \<in> set (t_grp_tpl db)" "gt_GrpID b = gh_GrpID m"
  shows "gt_TplID b \<in> set (tids_of (gh_HostID m) db)"
  using assms by (force simp: tids_of_def host_templates_def)

lemma monitored_lookup:
  assumes "portal_inv cfg db" "h \<in> set (t_host db)" "host_monitored now h"
  shows "gget (foldl (\<lambda>m t. gput (ho_Id t) t m) []
      (map (\<lambda>h. \<lparr>ho_Id = ph_ID h, ho_Name = ph_Hostname h\<rparr>) (filter (host_monitored now) (t_host db)))) (ph_ID h) =
    Some \<lparr>ho_Id = ph_ID h, ho_Name = ph_Hostname h\<rparr>"
proof -
  have e: "map ho_Id (map (\<lambda>h. \<lparr>ho_Id = ph_ID h, ho_Name = ph_Hostname h\<rparr>) xs) = map ph_ID xs" for xs by simp
  have "distinct (map ho_Id (map (\<lambda>h. \<lparr>ho_Id = ph_ID h, ho_Name = ph_Hostname h\<rparr>) (filter (host_monitored now) (t_host db))))"
    unfolding e using assms(1) by (simp add: portal_inv_def table_ok_def distinct_map_filter)
  from gget_foldl_key [OF this, of "\<lparr>ho_Id = ph_ID h, ho_Name = ph_Hostname h\<rparr>" "\<lambda>t. t" "[]"] assms(2,3)
  show ?thesis by simp
qed

text \<open>A member row, a binding and a template whose chain of ancestors ends within ten templates.\<close>

definition bound_to :: "portal_db \<Rightarrow> portal_host \<Rightarrow> tpl_row \<Rightarrow> bool" where
  "bound_to db h t \<longleftrightarrow> list_ex (\<lambda>m. gh_HostID m = ph_ID h \<and>
    list_ex (\<lambda>b. gt_GrpID b = gh_GrpID m \<and> gt_TplID b = tp_ID t) (t_grp_tpl db)) (t_grp_host db)"

lemma served_row:
  assumes inv: "portal_inv cfg db" and s: "s \<in> set (t_strategy db)" "strategy_active lt hm s" "sg_TplId s = tp_ID t" "t \<in> set (t_tpl db)"
    and number: "sg_RightValue s \<in> lang validRightValue" "length (sg_RightValue s) \<le> 300"
  obtains r where "strategy_served db s = Some r" "r \<in> set (bucket (Tpl2Strategies (strategies_of lt hm db)) (tp_ID t))"
proof -
  obtain v where v: "parse_float (sg_RightValue s) = Inr v" using accepted_number_reads [OF number] by blast
  then obtain r where r: "strategy_served db s = Some r"
    using templates_of_lookup [OF inv s(4)] s(3) by (simp add: strategy_served_def strategy_scan_def)
  then have "r \<in> set (bucket (Tpl2Strategies (strategies_of lt hm db)) (tp_ID t))"
    using s by (auto simp: bucket_strategies_of [OF inv])
  with r show ?thesis by (rule that)
qed

text \<open>
  C2: A stored strategy is served with the host's strategies. Let the tables be well formed
  (\<open>portal_inv\<close>, which every request of the API keeps) and let a reload of the heartbeat server's
  caches answer all queries from them without a panic. Then its answer to the judges has an entry for the
  host with that strategy, its function, operator and threshold, whatever other templates are bound
  or inherited, under these conditions. The host is not in maintenance and in a group to which the
  strategy's template is bound, and each template reaches the host once. The template's chain of
  ancestors ends and has fewer than ten templates (else it is served nowhere, \<open>own_parent_silences\<close>).
  The strategy is active at the time of the query, its right value passes the API's check and
  has at most 300 characters, so that it reads as a number, and no other template has a strategy for
  the same metric and tags.
\<close>

theorem configured_strategy_served:
  assumes visit: "permutes_maps visit" and inv: "portal_inv cfg db"
    and reload: "cache_Init (hbs_queries lt hm now db) st = Some st'"
    and host: "h \<in> set (t_host db)" "host_monitored now h" "bound_to db h t" "distinct (tids_of (ph_ID h) db)"
    and tpl: "t \<in> set (t_tpl db)" "chain (templates_of db) (tp_ID t) ids" "length ids < 10"
    and s: "s \<in> set (t_strategy db)" "sg_TplId s = tp_ID t" "strategy_active lt hm s"
      "sg_RightValue s \<in> lang validRightValue" "length (sg_RightValue s) \<le> 300"
    and alone: "list_all (\<lambda>s'. sg_TplId s' = tp_ID t \<or> row_key s' \<noteq> row_key s) (t_strategy db)"
  shows "\<exists>resp. hbs_GetStrategies visit st' = Some resp \<and>
    (\<exists>e\<in>set resp. hs_Hostname e = ph_Hostname h \<and>
      (\<exists>r\<in>set (hs_Strategies e). st_Id r = sg_ID s \<and> st_Metric r = sg_Metric s \<and> st_Func r = sg_Func s \<and>
        st_Operator r = sg_Op s \<and> st_MaxStep r = sg_MaxStep s \<and> parse_float (sg_RightValue s) = Inr (st_RightValue r)))"
proof -
  have "t_tpl db \<noteq> []" using tpl(1) by auto
  note caches = reload_caches [OF reload this]
  let ?T = "templates_of db" let ?M = "strategies_of lt hm db" let ?tids = "tids_of (ph_ID h) db"
  obtain r0 where r0: "strategy_served db s = Some r0" "r0 \<in> set (bucket (Tpl2Strategies ?M) (tp_ID t))"
    by (rule served_row [OF inv s(1,3,2) tpl(1) s(4,5)])
  have other: "strategy_uuid s' \<noteq> strategy_uuid r0" if "y \<noteq> tp_ID t" "s' \<in> set (bucket (Tpl2Strategies ?M) y)" for y s'
    using that alone strategy_served_fields(2) r0(1) by (auto simp: bucket_strategies_of [OF inv] list_all_iff)
  have tid: "tp_ID t \<in> set ?tids" using host(3) tids_of_bound by (fastforce simp: bound_to_def list_ex_iff)
  have "0 < tp_ID t" using inv tpl(1) by (auto simp: portal_inv_def table_ok_def list_all_iff)
  then have ids: "tp_ID t \<in> set ids" using tpl(2) templates_of_lookup [OF inv tpl(1)] by (auto elim: chain.cases)
  have "ids \<in> set (chains_of ?T ?tids)"
    using ParentIds_of_chain [OF tpl(2)] tpl(3) ids tid by (auto simp: chains_of_def)
  then obtain c where c: "c \<in> set (maximal_chains ?T ?tids)" "set ids \<subseteq> set c" using maximal_above by blast
  have alive: "r0 \<in> set (survivors (Tpl2Strategies ?M) c)"
    by (rule survivors_alone [OF r0(2) other]) (use ids c(2) in auto)
  from Calc_inherit [OF visit tpl2_ok_Tpl2Strategies host(4), of ?T ?M] served_calc [OF visit, of st' ?tids]
  have rs: "st_Id ` set (served visit st' ?tids) = (\<Union>c\<in>set (maximal_chains ?T ?tids). st_Id ` set (survivors (Tpl2Strategies ?M) c))"
    "\<forall>r\<in>set (served visit st' ?tids). \<exists>c\<in>set (maximal_chains ?T ?tids). \<exists>s\<in>set (survivors (Tpl2Strategies ?M) c). r = rebind ?T (last c) s"
    by (auto simp: caches)
  have "st_Id r0 \<in> st_Id ` set (served visit st' ?tids)" unfolding rs(1) using c(1) alive by blast
  then obtain r where r: "r \<in> set (served visit st' ?tids)" "st_Id r = st_Id r0" by auto
  then obtain c' s2 where s2: "s2 \<in> set (survivors (Tpl2Strategies ?M) c')" "r = rebind ?T (last c') s2" using rs(2) by blast
  obtain s' where s': "s' \<in> set (t_strategy db)" "strategy_served db s' = Some s2"
    using survivors_sub [OF s2(1)] by (auto simp: bucket_strategies_of [OF inv])
  have "sg_ID s' = sg_ID s" using r(2) s2(2) strategy_served_fields(1) [OF s'(2)] strategy_served_fields(1) [OF r0(1)] by simp
  then have "s' = s" using unique_by [of sg_ID "t_strategy db" s' s] inv s'(1) s(1) by (simp add: portal_inv_def table_ok_def)
  then have eq: "r = rebind ?T (last c') r0" using s'(2) r0(1) s2(2) by simp
  have "(ph_ID h, ?tids) \<in> set (hb_HostTemplateIds st')"
    unfolding caches(3) by (rule map_of_SomeD) (rule tids_lookup [OF tid])
  moreover have "host_response visit st' (ph_ID h, ?tids) = Some \<lparr>hs_Hostname = ph_Hostname h, hs_Strategies = served visit st' ?tids\<rparr>"
    using r(1) monitored_lookup [OF inv host(1,2)] by (auto simp: host_response_def caches)
  ultimately have e: "\<lparr>hs_Hostname = ph_Hostname h, hs_Strategies = served visit st' ?tids\<rparr>
      \<in> set (List.map_filter (host_response visit st') (hb_HostTemplateIds st'))"
    by (force simp: List.map_filter_def)
  have f: "st_Id r = sg_ID s \<and> st_Metric r = sg_Metric s \<and> st_Func r = sg_Func s \<and> st_Operator r = sg_Op s \<and>
      st_MaxStep r = sg_MaxStep s \<and> parse_float (sg_RightValue s) = Inr (st_RightValue r)"
    using strategy_served_fields [OF r0(1)] by (auto simp: eq rebind_def)
  show ?thesis
    by (rule exI, rule conjI, rule GetStrategies_map [OF visit], rule bexI [OF _ e]) (use r(1) f in auto)
qed

section \<open>Configurations that are accepted and cannot be used\<close>

lemma parseExpression_unclosed: "CHR '')'' \<notin> set e \<Longrightarrow> parseExpression e = None"
  using go_index_none [of e "CHR '')''"] go_index_range [of e "CHR ''(''"]
  by (simp add: parseExpression_def Let_def go_slice_def)

lemma reload_panics: "QueryExpressions (db_expressions db) = None \<Longrightarrow> cache_Init db st = None"
  by (simp add: cache_Init_def Let_def ExpressionCache_Init_def)

text \<open>
  C36: The text of an expression is not checked: one without a closing parenthesis is stored, and, when
  it is not paused, from then on every reload of the heartbeat server's caches panics, whatever its
  caches held. The other fields pass the API's checks, the right value has at most 300 characters, and
  the statements of the request succeed.
\<close>

theorem accepted_expression_stops_hbs:
  assumes inv: "portal_inv cfg db" and ok: "ok ev 0" "ok ev 1" "ok ev 2" "ok ev 3"
    and i: "bind_expression i" "CheckFormat_expression i = None" "length (ei_RightValue i) \<le> 300" "ei_Pause i = 0"
    and unclosed: "CHR '')'' \<notin> set (ei_Expression i)"
  shows "\<exists>db'. CreateExrpession cfg ev tok i uic db = (db', RespOK ''expression created'') \<and>
    cache_Init (hbs_queries lt hm now db') st = None"
proof -
  let ?tx = "fst (insert_action (action_of i) db)" let ?aid = "snd (insert_action (action_of i) db)"
  let ?e = "expression_of (i_expression (next_ids ?tx)) (us_Name (whoami cfg True tok uic)) ?aid i"
  let ?db' = "?tx\<lparr>t_expression := t_expression ?tx @ [?e], next_ids := (next_ids ?tx)\<lparr>i_expression := i_expression (next_ids ?tx) + 1\<rparr>\<rparr>"
  have c: "CreateExrpession cfg ev tok i uic db = (?db', RespOK ''expression created'')"
    using ok i(1,2) by (simp add: CreateExrpession_def Let_def split_def commit_def)
  have "ei_RightValue i \<in> lang validDigits" using i(2) by (simp add: CheckFormat_expression_def rx_match_lang split: if_splits)
  then obtain v where v: "parse_float (ei_RightValue i) = Inr v" using accepted_digits_read [OF _ i(3)] by blast
  have aid: "0 < ?aid" using inv by (simp add: insert_action_def portal_inv_def table_ok_def)
  obtain x where x: "expression_scan ?e = Some (x, ei_Expression i)" using v by (simp add: expression_scan_def expression_of_def)
  have "(x, ei_Expression i) \<in> set (List.map_filter expression_scan (filter (\<lambda>e. 0 < xp_ActionId e \<and> xp_Pause e = 0) (t_expression ?db')))"
    using x aid i(4) by (simp add: expression_of_def List.map_filter_def image_iff)
  then have "foldM expression_row [] (List.map_filter expression_scan (filter (\<lambda>e. 0 < xp_ActionId e \<and> xp_Pause e = 0) (t_expression ?db'))) = None"
    by (rule foldM_None) (simp add: expression_row_def parseExpression_unclosed [OF unclosed])
  moreover have "db_expressions (hbs_queries lt hm now ?db')
      = Inr (map expression_scan (filter (\<lambda>e. 0 < xp_ActionId e \<and> xp_Pause e = 0) (t_expression ?db')))"
    unfolding hbs_queries_def by simp
  ultimately have "QueryExpressions (db_expressions (hbs_queries lt hm now ?db')) = None"
    by (simp only: QueryExpressions_def sum.case scanned_map option.map)
  from conjI [OF c reload_panics [OF this]] show ?thesis by (rule exI)
qed

lemma no_chain_own_parent:
  "chain T tid ids \<Longrightarrow> 0 < tid \<Longrightarrow> gget T tid = Some t \<Longrightarrow> tpl_ParentId t = tid \<Longrightarrow> False"
  by (induction rule: chain.induct) auto

text \<open>
  A template may be made its own parent. Its chain of ancestors then has no end, so the heartbeat
  server serves none of its strategies to any host, nor those of templates that inherit from it.
\<close>

theorem own_parent_silences:
  assumes inv: "portal_inv cfg db" and r: "UpdateTemplate cfg ev tok tid name tid uic db = (db', RespOK msg)"
  shows "ParentIds (templates_of db') tid = [] \<and> (\<forall>c\<in>set (chains_of (templates_of db') tids). tid \<notin> set c)"
proof -
  from r obtain t where f: "find_key tp_ID tid (t_tpl db) = Some t" "tid \<noteq> 0"
    and db': "db' = db\<lparr>t_tpl := update_where (\<lambda>t. tp_ID t = tid) (\<lambda>t. t\<lparr>tp_Name := name, tp_ParentID := tid\<rparr>) (t_tpl db)\<rparr>"
    by (auto simp: UpdateTemplate_def found_def bad_def split: if_splits sum.splits option.splits)
  have t: "t \<in> set (t_tpl db)" "tp_ID t = tid" using f(1) by (auto simp: find_key_def dest: find_last_Some)
  then have pos: "0 < tid" using inv by (auto simp: portal_inv_def table_ok_def list_all_iff)
  have inv': "portal_inv cfg db'" using inv_UpdateTemplate [OF inv, of ev tok tid name tid uic] r by simp
  let ?t = "t\<lparr>tp_Name := name, tp_ParentID := tid\<rparr>"
  have "?t \<in> set (t_tpl db')" using t by (auto simp: db' in_update_where)
  from templates_of_lookup [OF inv' this] t(2) have g: "gget (templates_of db') tid = Some (template_of ?t)" by simp
  have no: "\<not> chain (templates_of db') tid ids" for ids
    using no_chain_own_parent [OF _ pos g] by (auto simp: template_of_def)
  then have "ParentIds (templates_of db') tid = []" using chain_of_ParentIds by blast
  moreover have "tid \<notin> set c" if m: "c \<in> set (chains_of (templates_of db') tids)" for c
  proof
    assume "tid \<in> set c"
    moreover obtain a where "c = ParentIds (templates_of db') a" "c \<noteq> []" using m by (auto simp: chains_of_def)
    then have "chain (templates_of db') a c" using chain_of_ParentIds by simp
    ultimately show False using chain_prefix no by metis
  qed
  ultimately show ?thesis by blast
qed

end
