(* ===== verification/Api_Team.thy ===== *)
theory Api_Team
  imports Api_Uic
begin

text \<open>
  Teams of the API (\<open>app/controller/uic/team_controller.go\<close>, \<open>app/model/uic/team.go\<close>) and the table of
  routes (\<open>user_routes.go\<close>): which handlers need a session.
\<close>

section \<open>Statements\<close>

definition Members :: "(nat \<Rightarrow> bool) \<Rightarrow> team \<Rightarrow> uic_db \<Rightarrow> string + api_user list" where
  "Members okq t db =
    (if \<not> okq 0 then Inl db_error
     else let uids = map rl_Uid (filter (\<lambda>r. rl_Tid r = tm_ID t) (t_rel db)) in
     if uids = [] then Inr []
     else if \<not> okq 1 then Inl db_error
     else Inr (filter (\<lambda>u. us_ID u \<in> set uids) (t_user db)))"

definition GetCreatorName :: "bool \<Rightarrow> team \<Rightarrow> uic_db \<Rightarrow> string" where
  "GetCreatorName okq t db =
    (case (if okq then find_last (\<lambda>u. tm_Creator t = 0 \<or> us_ID u = tm_Creator t) (t_user db) else None) of
       None \<Rightarrow> ''unknown'' | Some u \<Rightarrow> us_Name u)"

definition is_member :: "int \<Rightarrow> int \<Rightarrow> uic_db \<Rightarrow> bool" where
  "is_member tid uid db \<longleftrightarrow> list_ex (\<lambda>r. rl_Tid r = tid \<and> rl_Uid r = uid) (t_rel db)"

definition insert_team :: "api_config \<Rightarrow> bool \<Rightarrow> string \<Rightarrow> string \<Rightarrow> int \<Rightarrow> uic_db \<Rightarrow> (uic_db \<times> team) option" where
  "insert_team cfg okq name resume creator db =
    (if \<not> okq \<or> list_ex (\<lambda>t. coll cfg (tm_Name t) = coll cfg name) (t_team db) then None
     else (let t = \<lparr>tm_ID = next_team db, tm_Name = name, tm_Resume = resume, tm_Creator = creator\<rparr>
       in Some (db\<lparr>t_team := t_team db @ [t], next_team := next_team db + 1\<rparr>, t)))"

definition insert_rel :: "int \<Rightarrow> int \<Rightarrow> uic_db \<Rightarrow> uic_db" where
  "insert_rel tid uid db =
    db\<lparr>t_rel := t_rel db @ [\<lparr>rl_ID = next_rel db, rl_Tid = tid, rl_Uid = uid\<rparr>], next_rel := next_rel db + 1\<rparr>"

section \<open>Listing teams\<close>

record cteam =
  ct_Team :: team
  ct_Creator :: string
  ct_Users :: "api_user list"

text \<open>The union of the teams of a member and of a creator has no team twice.\<close>

definition teams_of :: "(string \<Rightarrow> string \<Rightarrow> bool) \<Rightarrow> api_config \<Rightarrow> string \<Rightarrow> api_user \<Rightarrow> uic_db \<Rightarrow> team list" where
  "teams_of matches cfg q user db =
    filter (\<lambda>t. matches q (tm_Name t) \<and> (is_member (tm_ID t) (us_ID user) db \<or> tm_Creator t = us_ID user)) (t_team db)"

text \<open>The members of the \<open>i\<close>-th team are read by the statements from \<open>4 * i + 2\<close>.\<close>

fun cteams :: "(nat \<Rightarrow> bool) \<Rightarrow> uic_db \<Rightarrow> nat \<Rightarrow> team list \<Rightarrow> string + cteam list" where
  "cteams okq db i [] = Inr []"
| "cteams okq db i (t # ts) =
    (case Members (\<lambda>k. okq (4 * i + 2 + k)) t db of
       Inl err \<Rightarrow> Inl err
     | Inr users \<Rightarrow>
        (case cteams okq db (Suc i) ts of
           Inl err \<Rightarrow> Inl err
         | Inr cs \<Rightarrow> Inr (\<lparr>ct_Team = t, ct_Creator = GetCreatorName (okq (4 * i + 4)) t db, ct_Users = users\<rparr> # cs)))"

definition Teams ::
    "(string \<Rightarrow> string \<Rightarrow> bool) \<Rightarrow> api_config \<Rightarrow> api_env \<Rightarrow> apitoken \<Rightarrow> string \<Rightarrow> string \<Rightarrow> string \<Rightarrow> uic_db \<Rightarrow> cteam list resp" where
  "Teams matches cfg ev tok pageTmp limitTmp q db =
    (case PageParser pageTmp limitTmp of
       Inl err \<Rightarrow> RespErr StatusBadRequest err
     | Inr (page, limit) \<Rightarrow>
       (case GetUser cfg (ok ev 0) db tok of
          Inl err \<Rightarrow> RespErr StatusBadRequest err
        | Inr user \<Rightarrow>
            if \<not> ok ev 1 then RespErr StatusBadRequest db_error
            else (let found = (if IsAdmin cfg user then
                    (let ts = filter (\<lambda>t. matches q (tm_Name t)) (t_team db)
                     in if limit \<noteq> - 1 \<and> page \<noteq> - 1 then take (nat limit) (drop (nat page) ts) else ts)
                  else teams_of matches cfg q user db)
              in case cteams (ok ev) db 0 found of Inl err \<Rightarrow> RespErr StatusBadRequest err | Inr cs \<Rightarrow> RespOK cs)))"

section \<open>Creating, updating and deleting teams\<close>

text \<open>The members up to the first failing statement stay.\<close>

fun add_members :: "(nat \<Rightarrow> bool) \<Rightarrow> nat \<Rightarrow> int \<Rightarrow> int list \<Rightarrow> uic_db \<Rightarrow> uic_db \<times> bool" where
  "add_members okq k tid [] db = (db, True)"
| "add_members okq k tid (u # us) db =
    (if okq k then add_members okq (Suc k) tid us (insert_rel tid u db) else (db, False))"

definition CreateTeam ::
    "api_config \<Rightarrow> api_env \<Rightarrow> apitoken \<Rightarrow> string \<Rightarrow> string \<Rightarrow> int list \<Rightarrow> uic_db \<Rightarrow> uic_db \<times> string resp" where
  "CreateTeam cfg ev tok name resume uids db =
    (if name = '''' then (db, RespErr StatusBadRequest ''bind'')
     else case GetUser cfg (ok ev 0) db tok of
       Inl err \<Rightarrow> (db, RespErr StatusBadRequest err)
     | Inr user \<Rightarrow>
        (case insert_team cfg (ok ev 1) name resume (us_ID user) db of
           None \<Rightarrow> (db, RespErr StatusBadRequest db_error)
         | Some (db1, t) \<Rightarrow>
            (let (db2, done) = add_members (ok ev) 2 (tm_ID t) uids db1
             in (db2, if done then RespOK ''team created!'' else RespErr StatusBadRequest db_error))))"

text \<open>
  \<open>bindUsers\<close>: members that are not in the list go, those of the list that are missing come. The
  failing of a search for a member finds none.
\<close>

fun delete_rels :: "(nat \<Rightarrow> bool) \<Rightarrow> nat \<Rightarrow> rel_team_user list \<Rightarrow> uic_db \<Rightarrow> uic_db \<times> bool" where
  "delete_rels okq k [] db = (db, True)"
| "delete_rels okq k (man # men) db =
    (if okq k then delete_rels okq (Suc k) men (db\<lparr>t_rel := delete_where (\<lambda>r. rl_ID r = rl_ID man) (t_rel db)\<rparr>)
     else (db, False))"

fun bind_new :: "(nat \<Rightarrow> bool) \<Rightarrow> nat \<Rightarrow> int \<Rightarrow> int list \<Rightarrow> uic_db \<Rightarrow> uic_db \<times> bool" where
  "bind_new okq k tid [] db = (db, True)"
| "bind_new okq k tid (u # us) db =
    (if okq k \<and> list_ex (\<lambda>r. rl_Tid r = tid \<and> (u = 0 \<or> rl_Uid r = u)) (t_rel db) then bind_new okq (k + 2) tid us db
     else if okq (Suc k) then bind_new okq (k + 2) tid us (insert_rel tid u db)
     else (db, False))"

definition bindUsers :: "(nat \<Rightarrow> bool) \<Rightarrow> nat \<Rightarrow> int \<Rightarrow> int list \<Rightarrow> uic_db \<Rightarrow> uic_db \<times> string option" where
  "bindUsers okq k tid users db =
    (case ArrIntToString users of
       Inl err \<Rightarrow> (db, Some err)
     | Inr uids \<Rightarrow>
        if \<not> okq k then (db, Some db_error)
        else (let needDeleteMan = filter (\<lambda>r. rl_Tid r = tid \<and> rl_Uid r \<notin> set users) (t_rel db);
                  (db1, done1) = delete_rels okq (Suc k) needDeleteMan db
              in if \<not> done1 then (db1, Some db_error)
                 else (let (db2, done2) = bind_new okq (Suc k + length needDeleteMan) tid users db1
                       in (db2, if done2 then None else Some db_error))))"

text \<open>Only the fields of the input that are not empty are written.\<close>

definition update_team :: "string \<Rightarrow> string \<Rightarrow> team \<Rightarrow> team" where
  "update_team name resume t =
    t\<lparr>tm_Name := (if name = '''' then tm_Name t else name), tm_Resume := (if resume = '''' then tm_Resume t else resume)\<rparr>"

definition may_manage :: "api_config \<Rightarrow> api_user \<Rightarrow> int \<Rightarrow> uic_db \<Rightarrow> bool" where
  "may_manage cfg user tid db \<longleftrightarrow>
    list_ex (\<lambda>t. tm_ID t = tid \<and> (IsAdmin cfg user \<or> is_member tid (us_ID user) db \<or> tm_Creator t = us_ID user)) (t_team db)"

definition UpdateTeam ::
    "api_config \<Rightarrow> api_env \<Rightarrow> apitoken \<Rightarrow> int \<Rightarrow> string \<Rightarrow> string \<Rightarrow> int list \<Rightarrow> uic_db \<Rightarrow> uic_db \<times> string resp" where
  "UpdateTeam cfg ev tok tid name resume uids db =
    (if tid = 0 then (db, RespErr StatusBadRequest ''bind'')
     else case GetUser cfg (ok ev 0) db tok of
       Inl err \<Rightarrow> (db, RespErr StatusBadRequest err)
     | Inr user \<Rightarrow>
        if \<not> ok ev 1 then (db, RespErr StatusBadRequest db_error)
        else if \<not> may_manage cfg user tid db then (db, RespErr StatusBadRequest not_found)
        else if (name \<noteq> '''' \<or> resume \<noteq> '''') \<and> \<not> ok ev 2 \<or> name \<noteq> '''' \<and> list_ex (\<lambda>t. tm_ID t \<noteq> tid \<and> coll cfg (tm_Name t) = coll cfg name) (t_team db)
          then (db, RespErr StatusBadRequest db_error)
        else (let db1 = db\<lparr>t_team := update_where (\<lambda>t. tm_ID t = tid) (update_team name resume) (t_team db)\<rparr>;
                  (db2, err) = bindUsers (ok ev) 3 tid uids db1
              in (db2, case err of None \<Rightarrow> RespOK ''team updated!'' | Some e \<Rightarrow> RespErr StatusBadRequest e)))"

text \<open>
  The team is looked for among those of the user; the row itself is deleted by a statement whose
  error is not looked at.
\<close>

definition DeleteTeam :: "api_config \<Rightarrow> api_env \<Rightarrow> apitoken \<Rightarrow> string \<Rightarrow> uic_db \<Rightarrow> uic_db \<times> string resp" where
  "DeleteTeam cfg ev tok team_id db =
    (case atoi team_id of
       Inl err \<Rightarrow> (db, RespErr StatusBadRequest ''atoi'')
     | Inr tid \<Rightarrow>
       if tid = 0 then (db, RespErr StatusBadRequest ''team_id is empty'')
       else case GetUser cfg (ok ev 0) db tok of
         Inl err \<Rightarrow> (db, RespErr StatusBadRequest err)
       | Inr user \<Rightarrow>
          (let without = (\<lambda>okq db. if okq then db\<lparr>t_team := delete_where (\<lambda>t. tm_ID t = tid) (t_team db)\<rparr> else db);
               unbind = (\<lambda>okq db. if okq then db\<lparr>t_rel := delete_where (\<lambda>r. rl_Tid r = tid) (t_rel db)\<rparr> else db)
           in if IsAdmin cfg user then
                (if \<not> ok ev 1 then (db, RespErr StatusExpectationFailed db_error)
                 else (unbind (ok ev 2) (without True db), RespOK ''team is deleted''))
              else
                (if \<not> ok ev 1 then (db, RespErr StatusExpectationFailed db_error)
                 else if \<not> list_ex (\<lambda>t. tm_ID t = tid \<and> (us_ID user = 0 \<or> tm_Creator t = us_ID user)) (t_team db)
                   then (db, RespErr StatusExpectationFailed not_found)
                 else (unbind (ok ev 3) (without (ok ev 2) db), RespOK ''team is deleted''))))"

section \<open>Looking at a team\<close>

record team_output =
  to_Team :: team
  to_Users :: "api_user list"

definition team_users :: "(nat \<Rightarrow> bool) \<Rightarrow> int \<Rightarrow> uic_db \<Rightarrow> api_user list" where
  "team_users okq tid db =
    (let uids = (if okq 0 then map rl_Uid (filter (\<lambda>r. tid = 0 \<or> rl_Tid r = tid) (t_rel db)) else [])
     in if uids = [] \<or> \<not> okq 1 then [] else filter (\<lambda>u. us_ID u \<in> set uids) (t_user db))"

definition GetTeam :: "api_env \<Rightarrow> string \<Rightarrow> uic_db \<Rightarrow> team_output resp" where
  "GetTeam ev team_id db =
    (case atoi team_id of
       Inl err \<Rightarrow> RespErr StatusBadRequest (if err = ErrRange then ''atoi'' else ''team_id is empty'')
     | Inr tid \<Rightarrow>
        if tid = 0 then RespErr StatusBadRequest ''team_id is empty''
        else (case (if ok ev 0 then find_last (\<lambda>t. tm_ID t = tid) (t_team db) else None) of
            None \<Rightarrow> RespErr StatusBadRequest (if ok ev 0 then not_found else db_error)
          | Some t \<Rightarrow> RespOK \<lparr>to_Team = t, to_Users = team_users (\<lambda>k. ok ev (Suc k)) tid db\<rparr>))"

definition GetTeamByName :: "api_config \<Rightarrow> api_env \<Rightarrow> string \<Rightarrow> uic_db \<Rightarrow> team_output resp" where
  "GetTeamByName cfg ev name db =
    (if name = '''' then RespErr StatusBadRequest ''team name is missing''
     else case (if ok ev 0 then find_last (\<lambda>t. coll cfg (tm_Name t) = coll cfg name) (t_team db) else None) of
       None \<Rightarrow> RespErr StatusBadRequest (if ok ev 0 then not_found else db_error)
     | Some t \<Rightarrow> RespOK \<lparr>to_Team = t, to_Users = team_users (\<lambda>k. ok ev (Suc k)) (tm_ID t) db\<rparr>)"

section \<open>The routes\<close>

datatype uic_request =
    RAuthSession | RLogin string string | RLogout | RCreateUser "user_input option"
  | RUserInfo | RGetUser string | RGetUserByName string | RUpdateCurrentUser "profile_input option"
  | RChangePassword string string | RUserList string string string | RIsUserInTeams string string | RGetUserTeams string
  | RChangeRole int string | RAdminChangePassword int string | RAdminChangeProfile int "profile_input option" | RAdminDelete int
  | RTeams string string string | RGetTeam string | RGetTeamByName string | RCreateTeam string string "int list"
  | RUpdateTeam int string string "int list" | RDeleteTeam string

text \<open>Handlers that only read leave the tables alone; what they show is abstracted to whether they answer.\<close>

definition reads :: "'a resp \<Rightarrow> uic_db \<Rightarrow> uic_db \<times> string resp" where
  "reads r db = (db, map_resp (\<lambda>_. '''') r)"

text \<open>Everything but the session itself and signing up is behind \<open>AuthSessionMidd\<close>.\<close>

fun uic_open :: "uic_request \<Rightarrow> bool" where
  "uic_open RAuthSession = True"
| "uic_open (RLogin _ _) = True"
| "uic_open RLogout = True"
| "uic_open (RCreateUser _) = True"
| "uic_open _ = False"

fun uic_handler ::
    "(string \<Rightarrow> string \<Rightarrow> bool) \<Rightarrow> api_config \<Rightarrow> api_env \<Rightarrow> apitoken \<Rightarrow> uic_request \<Rightarrow> uic_db \<Rightarrow> uic_db \<times> string resp" where
  "uic_handler m cfg ev tok RAuthSession db = AuthSession cfg ev tok db"
| "uic_handler m cfg ev tok (RLogin n p) db = Login cfg ev n p db"
| "uic_handler m cfg ev tok RLogout db = Logout cfg ev tok db"
| "uic_handler m cfg ev tok (RCreateUser b) db = CreateUser cfg ev tok b db"
| "uic_handler m cfg ev tok RUserInfo db = reads (UserInfo cfg ev tok db) db"
| "uic_handler m cfg ev tok (RGetUser i) db = reads (GetUser_by_uid ev i db) db"
| "uic_handler m cfg ev tok (RGetUserByName n) db = reads (GetUserByName cfg ev n db) db"
| "uic_handler m cfg ev tok (RUpdateCurrentUser b) db = UpdateCurrentUser cfg ev tok b db"
| "uic_handler m cfg ev tok (RChangePassword p p') db = ChangePassword cfg ev tok p p' db"
| "uic_handler m cfg ev tok (RUserList p l q) db = reads (UserList m ev p l q db) db"
| "uic_handler m cfg ev tok (RIsUserInTeams i ts) db = reads (IsUserInTeams cfg ev i ts db) db"
| "uic_handler m cfg ev tok (RGetUserTeams i) db = reads (GetUserTeams ev i db) db"
| "uic_handler m cfg ev tok (RChangeRole i a) db = ChangeRoleOfUser cfg ev tok i a db"
| "uic_handler m cfg ev tok (RAdminChangePassword i p) db = AdminChangePassword cfg ev tok i p db"
| "uic_handler m cfg ev tok (RAdminChangeProfile i b) db = AdminChangeUserProfile cfg ev tok i b db"
| "uic_handler m cfg ev tok (RAdminDelete i) db = AdminUserDelete cfg ev tok i db"
| "uic_handler m cfg ev tok (RTeams p l q) db = reads (Teams m cfg ev tok p l q db) db"
| "uic_handler m cfg ev tok (RGetTeam i) db = reads (GetTeam ev i db) db"
| "uic_handler m cfg ev tok (RGetTeamByName n) db = reads (GetTeamByName cfg ev n db) db"
| "uic_handler m cfg ev tok (RCreateTeam n r us) db = CreateTeam cfg ev tok n r us db"
| "uic_handler m cfg ev tok (RUpdateTeam i n r us) db = UpdateTeam cfg ev tok i n r us db"
| "uic_handler m cfg ev tok (RDeleteTeam i) db = DeleteTeam cfg ev tok i db"

text \<open>\<open>okq\<close> are the statements of the session check before the handler.\<close>

definition uic_serve ::
    "(string \<Rightarrow> string \<Rightarrow> bool) \<Rightarrow> api_config \<Rightarrow> (nat \<Rightarrow> bool) \<Rightarrow> api_env \<Rightarrow> apitoken \<Rightarrow> uic_request \<Rightarrow> uic_db
      \<Rightarrow> uic_db \<times> string resp" where
  "uic_serve m cfg okq ev tok req db =
    (if uic_open req then uic_handler m cfg ev tok req db
     else AuthSessionMidd cfg okq tok (uic_handler m cfg ev tok req) db)"

end
