(* ===== verification/Api_Safety.thy ===== *)
theory Api_Safety
  imports Api_Team
begin

text \<open>
  What the API guarantees of users, sessions and teams: who can change a password, a role or a team;
  what stays true of the tables; that logging in opens a session and logging out closes it. And
  where the code does less than it means to: sessions do not expire, everyone is in every team, a
  refused change of a password may take place.
\<close>

section \<open>What each handler does to the users\<close>

lemma insert_session_tables [simp]:
  "t_user (insert_session uid sig e q db) = t_user db" "t_team (insert_session uid sig e q db) = t_team db"
  "t_rel (insert_session uid sig e q db) = t_rel db"
  by (simp_all add: insert_session_def)

lemma ensure_session_tables [simp]:
  "t_user (fst (ensure_session ev k uid db)) = t_user db" "t_team (fst (ensure_session ev k uid db)) = t_team db"
  "t_rel (fst (ensure_session ev k uid db)) = t_rel db"
  by (simp_all add: ensure_session_def split: option.split)

lemma Login_tables [simp]:
  "t_user (fst (Login cfg ev n p db)) = t_user db" "t_team (fst (Login cfg ev n p db)) = t_team db"
  "t_rel (fst (Login cfg ev n p db)) = t_rel db"
  by (simp_all add: Login_def split: option.split)

lemma Logout_tables [simp]:
  "t_user (fst (Logout cfg ev tok db)) = t_user db" "t_team (fst (Logout cfg ev tok db)) = t_team db"
  "t_rel (fst (Logout cfg ev tok db)) = t_rel db"
  by (simp_all add: Logout_def Let_def split: option.split sum.split)

lemma AuthSession_tables [simp]: "fst (AuthSession cfg ev tok db) = db"
  by (simp add: AuthSession_def split: prod.split)

lemma reads_tables [simp]: "fst (reads r db) = db"
  by (simp add: reads_def)

lemma insert_rel_tables [simp]: "t_user (insert_rel t u db) = t_user db" "t_team (insert_rel t u db) = t_team db"
  "t_session (insert_rel t u db) = t_session db"
  by (simp_all add: insert_rel_def)

lemma add_members_tables [simp]:
  "t_user (fst (add_members okq k t us db)) = t_user db" "t_team (fst (add_members okq k t us db)) = t_team db"
  "t_session (fst (add_members okq k t us db)) = t_session db"
  by (induction us arbitrary: k db) simp_all

lemma delete_rels_tables [simp]:
  "t_user (fst (delete_rels okq k ms db)) = t_user db" "t_team (fst (delete_rels okq k ms db)) = t_team db"
  "t_session (fst (delete_rels okq k ms db)) = t_session db"
  by (induction ms arbitrary: k db) simp_all

lemma bind_new_tables [simp]:
  "t_user (fst (bind_new okq k t us db)) = t_user db" "t_team (fst (bind_new okq k t us db)) = t_team db"
  "t_session (fst (bind_new okq k t us db)) = t_session db"
  by (induction us arbitrary: k db) simp_all

lemma bindUsers_tables [simp]:
  "t_user (fst (bindUsers okq k t us db)) = t_user db" "t_team (fst (bindUsers okq k t us db)) = t_team db"
  "t_session (fst (bindUsers okq k t us db)) = t_session db"
  by (simp_all add: bindUsers_def Let_def split_def split: sum.split)

lemma CreateTeam_users [simp]: "t_user (fst (CreateTeam cfg ev tok n r us db)) = t_user db"
  by (simp add: CreateTeam_def insert_team_def Let_def split_def split: sum.split)

lemma UpdateTeam_users [simp]: "t_user (fst (UpdateTeam cfg ev tok i n r us db)) = t_user db"
  by (simp add: UpdateTeam_def Let_def split_def split: sum.split)

lemma DeleteTeam_users [simp]: "t_user (fst (DeleteTeam cfg ev tok i db)) = t_user db"
  by (simp add: DeleteTeam_def Let_def split: sum.split)

section \<open>Passwords and roles\<close>

text \<open>Who a request says it comes from.\<close>

definition requester :: "api_config \<Rightarrow> apitoken \<Rightarrow> uic_db \<Rightarrow> api_user option" where
  "requester cfg tok db = (case GetSession tok of Inl _ \<Rightarrow> None | Inr (name, _) \<Rightarrow> user_named cfg name db)"

definition by_admin :: "api_config \<Rightarrow> apitoken \<Rightarrow> uic_db \<Rightarrow> bool" where
  "by_admin cfg tok db \<longleftrightarrow> (case requester cfg tok db of None \<Rightarrow> False | Some c \<Rightarrow> IsAdmin cfg c)"

text \<open>Rows that differ in the profile only.\<close>

definition same_rights :: "api_user \<Rightarrow> api_user \<Rightarrow> bool" where
  "same_rights u v \<longleftrightarrow> us_ID u = us_ID v \<and> us_Name u = us_Name v \<and> us_Passwd u = us_Passwd v \<and> us_Role u = us_Role v"

lemma same_rights_refl [simp]: "same_rights u u" by (simp add: same_rights_def)

lemma same_rights_profile [simp]: "same_rights u (update_profile i u)"
  by (simp add: same_rights_def update_profile_def)

lemma GetUser_requester: "GetUser cfg okq db tok = Inr u \<Longrightarrow> requester cfg tok db = Some u"
  by (auto simp: GetUser_def requester_def split: sum.splits if_splits option.splits)

lemma require_admin_by_admin: "require_admin cfg okq bad tok db = Inr c \<Longrightarrow> by_admin cfg tok db \<and> requester cfg tok db = Some c"
  by (auto simp: require_admin_def by_admin_def GetUser_requester split: sum.splits if_splits)

text \<open>A new row for a user not there before.\<close>

definition newcomer :: "api_config \<Rightarrow> uic_db \<Rightarrow> api_user \<Rightarrow> bool" where
  "newcomer cfg db u \<longleftrightarrow> us_ID u = next_user db \<and> (\<forall>v\<in>set (t_user db). coll cfg (us_Name v) \<noteq> coll cfg (us_Name u))"

lemma insert_user_users:
  "insert_user cfg q u db = Some (db', u') \<Longrightarrow>
    u' = u\<lparr>us_ID := next_user db\<rparr> \<and> t_user db' = t_user db @ [u'] \<and> newcomer cfg db u'"
  by (auto simp: insert_user_def newcomer_def Let_def list_ex_iff split: if_splits)

lemma CreateUser_users:
  "t_user (fst (CreateUser cfg ev tok b db)) = t_user db \<or>
    (\<exists>u. t_user (fst (CreateUser cfg ev tok b db)) = t_user db @ [u] \<and> newcomer cfg db u \<and>
      us_Role u = (if us_Name u = ''root'' then 2 else 0))"
  by (auto simp: CreateUser_def split: option.splits dest!: insert_user_users) 

lemma rights_kept: "v \<in> set rows \<Longrightarrow> \<exists>u\<in>set rows. same_rights u v"
  using same_rights_refl by blast

lemma rights_profile: "v \<in> set (update_where P (update_profile i) rows) \<Longrightarrow> \<exists>u\<in>set rows. same_rights u v"
  unfolding in_update_where using same_rights_profile same_rights_refl by metis

lemma UpdateCurrentUser_users:
  assumes "v \<in> set (t_user (fst (UpdateCurrentUser cfg ev tok b db)))"
  shows "\<exists>u\<in>set (t_user db). same_rights u v"
proof -
  have "t_user (fst (UpdateCurrentUser cfg ev tok b db)) = t_user db \<or>
      (\<exists>P i. t_user (fst (UpdateCurrentUser cfg ev tok b db)) = update_where P (update_profile i) (t_user db))"
    by (auto simp: UpdateCurrentUser_def split: option.splits sum.splits if_splits)
  then show ?thesis using assms rights_kept rights_profile by metis
qed

lemma AdminChangeUserProfile_users:
  assumes "v \<in> set (t_user (fst (AdminChangeUserProfile cfg ev tok i b db)))"
  shows "\<exists>u\<in>set (t_user db). same_rights u v"
proof -
  have "t_user (fst (AdminChangeUserProfile cfg ev tok i b db)) = t_user db \<or>
      (\<exists>P i'. t_user (fst (AdminChangeUserProfile cfg ev tok i b db)) = update_where P (update_profile i') (t_user db))"
    by (auto simp: AdminChangeUserProfile_def split: option.splits sum.splits if_splits)
  then show ?thesis using assms rights_kept rights_profile by metis
qed

lemma AdminUserDelete_users:
  "v \<in> set (t_user (fst (AdminUserDelete cfg ev tok i db))) \<Longrightarrow> v \<in> set (t_user db)"
  by (auto simp: AdminUserDelete_def split: sum.splits if_splits)

lemma save_user_users:
  assumes "save_user cfg q u db = Some db'" "us_ID u \<noteq> 0" "v \<in> set (t_user db')"
  shows "v \<in> set (t_user db) \<and> us_ID v \<noteq> us_ID u \<or> v = u"
  using assms by (auto simp: save_user_def in_update_where split: if_splits)

lemma ChangePassword_effect:
  "fst (ChangePassword cfg ev tok p p' db) =
    (case requester cfg tok db of
       None \<Rightarrow> db
     | Some c \<Rightarrow>
        if ok ev 0 \<and> us_Passwd c = HashIt cfg p
        then (case save_user cfg (ok ev 1) (c\<lparr>us_Passwd := HashIt cfg p'\<rparr>) db of None \<Rightarrow> db | Some db' \<Rightarrow> db')
        else db)"
proof (cases "GetSession tok")
  case (Inr x)
  obtain name sig where x: "x = (name, sig)" by fastforce
  have r: "requester cfg tok db = user_named cfg name db" by (simp add: requester_def Inr x)
  show ?thesis
  proof (cases "user_named cfg name db")
    case (Some c)
    show ?thesis
    proof (cases "save_user cfg (ok ev 1) (c\<lparr>us_Passwd := HashIt cfg p'\<rparr>) db")
      case None
      then show ?thesis by (simp add: ChangePassword_def Let_def Inr x r Some)
    next
      case (Some db')
      then show ?thesis by (simp add: ChangePassword_def Let_def Inr x r \<open>user_named cfg name db = Some c\<close>)
    qed
  qed (simp add: ChangePassword_def Let_def Inr x r)
qed (simp add: ChangePassword_def Let_def requester_def)

lemma requester_in: "requester cfg tok db = Some c \<Longrightarrow> c \<in> set (t_user db)"
  by (auto simp: requester_def user_named_def dest: find_last_Some split: sum.splits)

lemma ChangePassword_users:
  assumes "v \<in> set (t_user (fst (ChangePassword cfg ev tok p p' db)))" "\<forall>u\<in>set (t_user db). us_ID u \<noteq> 0"
  shows "v \<in> set (t_user db) \<or> (\<exists>c. requester cfg tok db = Some c \<and> us_Passwd c = HashIt cfg p \<and> v = c\<lparr>us_Passwd := HashIt cfg p'\<rparr>)"
  using assms requester_in [of cfg tok db]
  by (auto simp: ChangePassword_effect split: option.splits if_splits dest: save_user_users)

lemma AdminChangePassword_users:
  assumes "v \<in> set (t_user (fst (AdminChangePassword cfg ev tok i p db)))" "\<not> by_admin cfg tok db"
  shows "v \<in> set (t_user db)"
  using assms by (auto simp: AdminChangePassword_def split: sum.splits option.splits if_splits dest: require_admin_by_admin)

lemma ChangeRoleOfUser_users:
  assumes "v \<in> set (t_user (fst (ChangeRoleOfUser cfg ev tok i a db)))" "\<not> by_admin cfg tok db"
  shows "v \<in> set (t_user db)"
  using assms by (auto simp: ChangeRoleOfUser_def Let_def split: sum.splits option.splits if_splits dest: require_admin_by_admin)

text \<open>
  C10: Without an administrator behind it, no request gives anyone rights: every user after it has the
  name, password and role of a user before it, or is the requester with a new password, who knew
  the old one, or has just signed up under a name nobody has, with the role of root only under
  that name.
\<close>

theorem no_rights_without_admin:
  assumes na: "\<not> by_admin cfg tok db" and ids: "list_all (\<lambda>u. us_ID u \<noteq> 0) (t_user db)"
    and v: "v \<in> set (t_user (fst (uic_serve m cfg okq ev tok req db)))"
  shows "(\<exists>u\<in>set (t_user db). same_rights u v) \<or>
    (\<exists>c old new. req = RChangePassword old new \<and> requester cfg tok db = Some c \<and> us_Passwd c = HashIt cfg old \<and>
      v = c\<lparr>us_Passwd := HashIt cfg new\<rparr>) \<or>
    (\<exists>b. req = RCreateUser b \<and> newcomer cfg db v \<and> us_Role v = (if us_Name v = ''root'' then 2 else 0))"
proof -
  have ids': "\<forall>u\<in>set (t_user db). us_ID u \<noteq> 0" using ids by (simp add: list_all_iff)
  have same: ?thesis if "v \<in> set (t_user db)" using rights_kept [OF that] by blast
  show ?thesis
  proof (cases "uic_open req \<or> t_user (fst (uic_serve m cfg okq ev tok req db)) \<noteq> t_user db")
    case False
    then show ?thesis using v same by simp
  next
    case True
    then have e: "fst (uic_serve m cfg okq ev tok req db) = fst (uic_handler m cfg ev tok req db)"
      by (auto simp: uic_serve_def AuthSessionMidd_def Let_def split: prod.splits if_splits)
    have v': "v \<in> set (t_user (fst (uic_handler m cfg ev tok req db)))" using v by (simp only: e)
    show ?thesis
    proof (cases req)
      case (RCreateUser b)
      then show ?thesis using v' same CreateUser_users [of cfg ev tok b db] by auto
    next
      case (RChangePassword p p')
      then show ?thesis using v' same ChangePassword_users [OF _ ids', of v cfg ev tok p p'] by auto
    next
      case (RUpdateCurrentUser b)
      then show ?thesis using v' UpdateCurrentUser_users by simp
    next
      case (RAdminChangeProfile i b)
      then show ?thesis using v' AdminChangeUserProfile_users by simp
    qed (use v' same na in \<open>auto dest: AdminUserDelete_users AdminChangePassword_users ChangeRoleOfUser_users\<close>)
  qed
qed

section \<open>What stays true of the tables\<close>

text \<open>
  Identifiers are positive, below the next one and not repeated; no two users have the same name to
  the database, and no two sessions belong to the same user. With \<open>uic_inv\<close> no two teams have the
  same name either.
\<close>

definition uic_rows_ok :: "api_config \<Rightarrow> uic_db \<Rightarrow> bool" where
  "uic_rows_ok cfg db \<longleftrightarrow>
    table_ok us_ID (next_user db) (t_user db) \<and> distinct (map (\<lambda>u. coll cfg (us_Name u)) (t_user db)) \<and>
    table_ok se_ID (next_session db) (t_session db) \<and> distinct (map se_Uid (t_session db)) \<and>
    table_ok tm_ID (next_team db) (t_team db) \<and> table_ok rl_ID (next_rel db) (t_rel db)"

definition uic_inv :: "api_config \<Rightarrow> uic_db \<Rightarrow> bool" where
  "uic_inv cfg db \<longleftrightarrow> uic_rows_ok cfg db \<and> distinct (map (\<lambda>t. coll cfg (tm_Name t)) (t_team db))"

lemma uic_rows_user_id: "uic_rows_ok cfg db \<Longrightarrow> u \<in> set (t_user db) \<Longrightarrow> 0 < us_ID u \<and> us_ID u < next_user db"
  by (auto simp: uic_rows_ok_def table_ok_def list_all_iff)

lemma inv_insert_user:
  assumes "uic_rows_ok cfg db" "insert_user cfg q u db = Some (db', u')"
  shows "uic_rows_ok cfg db'"
  using assms table_ok_append [of us_ID "next_user db" "t_user db" "u\<lparr>us_ID := next_user db\<rparr>"]
  by (auto simp: uic_rows_ok_def insert_user_def Let_def list_ex_iff split: if_splits) blast

lemma inv_ensure_session:
  assumes "uic_rows_ok cfg db"
  shows "uic_rows_ok cfg (fst (ensure_session ev k uid db))"
proof -
  have ins: "uic_rows_ok cfg (insert_session uid sig e q db)" if "find_last (\<lambda>s. se_Uid s = uid) (t_session db) = None" for sig e q
    using that assms table_ok_append [of se_ID "next_session db" "t_session db" "\<lparr>se_ID = next_session db, se_Uid = uid, se_Sig = sig, se_Expired = e\<rparr>"]
    by (auto simp: uic_rows_ok_def insert_session_def find_last_None)
  have "se_ID s \<noteq> 0" if "find_last (\<lambda>s. se_Uid s = uid) (t_session db) = Some s" for s
    using find_last_Some [OF that] assms by (auto simp: uic_rows_ok_def table_ok_def list_all_iff)
  then show ?thesis using assms ins by (auto simp: ensure_session_def split: option.split)
qed

lemma inv_CreateUser: "uic_rows_ok cfg db \<Longrightarrow> uic_rows_ok cfg (fst (CreateUser cfg ev tok b db))"
  by (auto simp: CreateUser_def split: option.split intro: inv_ensure_session dest: inv_insert_user)

lemma inv_Login: "uic_rows_ok cfg db \<Longrightarrow> uic_rows_ok cfg (fst (Login cfg ev n p db))"
  by (simp add: Login_def inv_ensure_session split: option.split)

lemma inv_Logout: "uic_rows_ok cfg db \<Longrightarrow> uic_rows_ok cfg (fst (Logout cfg ev tok db))"
  by (simp add: Logout_def Let_def split: option.split sum.split)
     (auto simp: uic_rows_ok_def table_ok_delete distinct_delete)

lemma inv_update_users:
  assumes "uic_rows_ok cfg db" "\<And>u. u \<in> set (t_user db) \<Longrightarrow> P u \<Longrightarrow> us_ID (f u) = us_ID u \<and> us_Name (f u) = us_Name u"
  shows "uic_rows_ok cfg (db\<lparr>t_user := update_where P f (t_user db)\<rparr>)"
  using assms table_ok_update [of "t_user db" P us_ID f] map_update_where [of "t_user db" P "\<lambda>u. coll cfg (us_Name u)" f]
  by (simp add: uic_rows_ok_def)

lemma inv_save_user:
  assumes "uic_rows_ok cfg db" "save_user cfg q (c\<lparr>us_Passwd := p, us_Role := r\<rparr>) db = Some db'" "c = zero_user \<or> c \<in> set (t_user db)"
  shows "uic_rows_ok cfg db'"
proof (cases "c = zero_user")
  case True
  then have "us_ID (c\<lparr>us_Passwd := p, us_Role := r\<rparr>) = 0" by (simp add: zero_user_def)
  then show ?thesis using assms(1,2) by (auto simp: save_user_def dest: inv_insert_user)
next
  case False
  then have c: "c \<in> set (t_user db)" using assms(3) by blast
  have "v = c" if "v \<in> set (t_user db)" "us_ID v = us_ID c" for v
    using unique_by [OF _ that(1) c that(2)] assms(1) by (simp add: uic_rows_ok_def table_ok_def)
  then have "uic_rows_ok cfg (db\<lparr>t_user := update_where (\<lambda>v. us_ID v = us_ID c) (\<lambda>v. c\<lparr>us_Passwd := p, us_Role := r\<rparr>) (t_user db)\<rparr>)"
    by (intro inv_update_users [OF assms(1)]) auto
  then show ?thesis using assms(2) uic_rows_user_id [OF assms(1) c] by (auto simp: save_user_def split: if_splits)
qed

lemma user_found: "user_named cfg name db = Some c \<Longrightarrow> c \<in> set (t_user db)" "user_by_id i db = Some c \<Longrightarrow> c \<in> set (t_user db)"
  by (auto simp: user_named_def user_by_id_def dest: find_last_Some)

lemma inv_save_password:
  assumes "uic_rows_ok cfg db" "save_user cfg q (c\<lparr>us_Passwd := p\<rparr>) db = Some db'" "c \<in> set (t_user db)"
  shows "uic_rows_ok cfg db'"
proof -
  have "c\<lparr>us_Passwd := p\<rparr> = c\<lparr>us_Passwd := p, us_Role := us_Role c\<rparr>" by (cases c) simp
  then show ?thesis using inv_save_user [where c = c and p = p and r = "us_Role c", OF assms(1)] assms by simp
qed

lemma inv_ChangePassword: "uic_rows_ok cfg db \<Longrightarrow> uic_rows_ok cfg (fst (ChangePassword cfg ev tok p p' db))"
  by (auto simp: ChangePassword_effect split: option.split dest: inv_save_password requester_in)

lemma inv_AdminChangePassword: "uic_rows_ok cfg db \<Longrightarrow> uic_rows_ok cfg (fst (AdminChangePassword cfg ev tok i p db))"
  by (simp add: AdminChangePassword_def split: sum.split option.split)
     (blast intro: inv_save_password user_found)

lemma inv_profile: "uic_rows_ok cfg db \<Longrightarrow> uic_rows_ok cfg (db\<lparr>t_user := update_where P (update_profile i) (t_user db)\<rparr>)"
  by (rule inv_update_users) (simp_all add: update_profile_def)

lemma inv_UpdateCurrentUser: "uic_rows_ok cfg db \<Longrightarrow> uic_rows_ok cfg (fst (UpdateCurrentUser cfg ev tok b db))"
  by (simp add: UpdateCurrentUser_def inv_profile split: sum.split option.split)

lemma inv_AdminChangeUserProfile: "uic_rows_ok cfg db \<Longrightarrow> uic_rows_ok cfg (fst (AdminChangeUserProfile cfg ev tok i b db))"
  by (simp add: AdminChangeUserProfile_def inv_profile split: sum.split option.split)

lemma inv_AdminUserDelete: "uic_rows_ok cfg db \<Longrightarrow> uic_rows_ok cfg (fst (AdminUserDelete cfg ev tok i db))"
  by (simp add: AdminUserDelete_def split: sum.split) (auto simp: uic_rows_ok_def table_ok_delete distinct_delete)

lemma inv_ChangeRoleOfUser:
  assumes "uic_rows_ok cfg db"
  shows "uic_rows_ok cfg (fst (ChangeRoleOfUser cfg ev tok i a db))"
proof (cases "i = 0 \<or> a = [] \<or> (\<exists>x. require_admin cfg (ok ev 0) StatusBadRequest tok db = Inl x)")
  case True
  then show ?thesis using assms by (auto simp: ChangeRoleOfUser_def)
next
  case False
  then obtain cu where r: "require_admin cfg (ok ev 0) StatusBadRequest tok db = Inr cu" by (meson sum.exhaust)
  define u0 where "u0 = (case (if ok ev 1 then user_by_id i db else None) of None \<Rightarrow> zero_user | Some u \<Rightarrow> u)"
  define u where "u = (if a = ''yes'' then u0\<lparr>us_Role := 1\<rparr> else if a = ''no'' then u0\<lparr>us_Role := 0\<rparr> else u0)"
  have u0: "u0 = zero_user \<or> u0 \<in> set (t_user db)" by (auto simp: u0_def split: option.split dest: user_found)
  have "u = u0\<lparr>us_Passwd := us_Passwd u0, us_Role := us_Role u\<rparr>" by (cases u0) (auto simp: u_def)
  then have "uic_rows_ok cfg db'" if "save_user cfg (ok ev 2) u db = Some db'" for db'
    using inv_save_user [OF assms _ u0] that by metis
  moreover have "ChangeRoleOfUser cfg ev tok i a db = (case save_user cfg (ok ev 2) u db of
      None \<Rightarrow> (db, RespErr StatusExpectationFailed db_error) | Some db' \<Rightarrow> (db', RespOK ''user role update sccuessful''))"
    using False by (simp add: ChangeRoleOfUser_def r Let_def u0_def u_def cong: if_cong option.case_cong)
  ultimately show ?thesis using assms by (simp split: option.split)
qed

lemma inv_rels: "uic_rows_ok cfg db \<Longrightarrow> uic_rows_ok cfg (db\<lparr>t_rel := delete_where P (t_rel db)\<rparr>)"
  by (simp add: uic_rows_ok_def table_ok_delete)

lemma inv_teams_delete: "uic_rows_ok cfg db \<Longrightarrow> uic_rows_ok cfg (db\<lparr>t_team := delete_where P (t_team db)\<rparr>)"
  by (simp add: uic_rows_ok_def table_ok_delete)

lemma inv_insert_rel: "uic_rows_ok cfg db \<Longrightarrow> uic_rows_ok cfg (insert_rel t u db)"
  by (simp add: uic_rows_ok_def insert_rel_def table_ok_append)

lemma inv_add_members: "uic_rows_ok cfg db \<Longrightarrow> uic_rows_ok cfg (fst (add_members okq k t us db))"
  by (induction us arbitrary: k db) (simp_all add: inv_insert_rel)

lemma inv_delete_rels: "uic_rows_ok cfg db \<Longrightarrow> uic_rows_ok cfg (fst (delete_rels okq k ms db))"
  by (induction ms arbitrary: k db) (simp_all add: inv_rels)

lemma inv_bind_new: "uic_rows_ok cfg db \<Longrightarrow> uic_rows_ok cfg (fst (bind_new okq k t us db))"
  by (induction us arbitrary: k db) (simp_all add: inv_insert_rel)

lemma inv_bindUsers: "uic_rows_ok cfg db \<Longrightarrow> uic_rows_ok cfg (fst (bindUsers okq k t us db))"
  by (simp add: bindUsers_def Let_def split_def inv_delete_rels inv_bind_new split: sum.split)

lemma inv_CreateTeam: "uic_rows_ok cfg db \<Longrightarrow> uic_rows_ok cfg (fst (CreateTeam cfg ev tok n r us db))"
proof -
  assume i: "uic_rows_ok cfg db"
  then have "uic_rows_ok cfg (db\<lparr>t_team := t_team db @ [\<lparr>tm_ID = next_team db, tm_Name = n, tm_Resume = r, tm_Creator = c\<rparr>],
      next_team := next_team db + 1\<rparr>)" for c
    by (simp add: uic_rows_ok_def table_ok_append)
  with i show ?thesis by (simp add: CreateTeam_def insert_team_def Let_def split_def inv_add_members split: sum.split)
qed

lemma inv_UpdateTeam: "uic_rows_ok cfg db \<Longrightarrow> uic_rows_ok cfg (fst (UpdateTeam cfg ev tok i n r us db))"
proof -
  assume v: "uic_rows_ok cfg db"
  then have "uic_rows_ok cfg (db\<lparr>t_team := update_where P (update_team n r) (t_team db)\<rparr>)" for P
    using table_ok_update [of "t_team db" P tm_ID "update_team n r"] by (simp add: uic_rows_ok_def update_team_def)
  with v show ?thesis by (simp add: UpdateTeam_def Let_def split_def inv_bindUsers split: sum.split)
qed

lemma inv_DeleteTeam: "uic_rows_ok cfg db \<Longrightarrow> uic_rows_ok cfg (fst (DeleteTeam cfg ev tok i db))"
  by (simp add: DeleteTeam_def Let_def inv_rels inv_teams_delete split: sum.split)
     (auto simp: uic_rows_ok_def table_ok_delete)

lemmas inv_handlers = inv_Login inv_Logout inv_CreateUser inv_UpdateCurrentUser inv_ChangePassword inv_ChangeRoleOfUser
  inv_AdminChangePassword inv_AdminChangeUserProfile inv_AdminUserDelete inv_CreateTeam inv_UpdateTeam inv_DeleteTeam

lemma rows_serve: "uic_rows_ok cfg db \<Longrightarrow> uic_rows_ok cfg (fst (uic_handler m cfg ev tok req db))"
  by (cases req) (simp_all add: inv_handlers)

text \<open>The names of teams: the handlers of users leave the table as it is.\<close>

lemma insert_user_team: "insert_user cfg q u db = Some (db', u') \<Longrightarrow> t_team db' = t_team db"
  by (auto simp: insert_user_def Let_def split: if_splits)

lemma save_user_team: "save_user cfg q u db = Some db' \<Longrightarrow> t_team db' = t_team db"
  by (auto simp: save_user_def split: if_splits dest: insert_user_team)

lemma ensure_session_team [simp]: "t_team (fst (ensure_session ev k uid db)) = t_team db"
  by (auto simp: ensure_session_def insert_session_def split: option.split)

lemma keeps_team:
  "t_team (fst (CreateUser cfg ev tok b db)) = t_team db"
  "t_team (fst (Login cfg ev n p db)) = t_team db"
  "t_team (fst (Logout cfg ev tok db)) = t_team db"
  "t_team (fst (UpdateCurrentUser cfg ev tok pr db)) = t_team db"
  "t_team (fst (ChangePassword cfg ev tok p p' db)) = t_team db"
  "t_team (fst (AdminChangePassword cfg ev tok i p db)) = t_team db"
  "t_team (fst (AdminChangeUserProfile cfg ev tok i pr db)) = t_team db"
  "t_team (fst (AdminUserDelete cfg ev tok i db)) = t_team db"
  by (auto simp: CreateUser_def Login_def Logout_def Let_def UpdateCurrentUser_def ChangePassword_effect
      AdminChangePassword_def AdminChangeUserProfile_def AdminUserDelete_def
      split: option.split sum.split dest: insert_user_team save_user_team)

lemma keeps_team_role: "t_team (fst (ChangeRoleOfUser cfg ev tok i a db)) = t_team db"
proof -
  have "t_team (fst (case save_user cfg q u db of None \<Rightarrow> (db, r1) | Some db' \<Rightarrow> (db', r2))) = t_team db"
    for q u and r1 r2 :: "string resp"
    by (auto split: option.split dest: save_user_team)
  then show ?thesis by (simp add: ChangeRoleOfUser_def Let_def split: sum.split)
qed

lemma names_CreateTeam:
  "distinct (map (\<lambda>t. coll cfg (tm_Name t)) (t_team db)) \<Longrightarrow>
    distinct (map (\<lambda>t. coll cfg (tm_Name t)) (t_team (fst (CreateTeam cfg ev tok n r us db))))"
  by (auto simp: CreateTeam_def insert_team_def Let_def split_def list_ex_iff split: sum.split)

lemma names_update_where:
  assumes "distinct (map (\<lambda>t. coll cfg (tm_Name t)) ts)" "distinct (map tm_ID ts)"
    "n = '''' \<or> \<not> list_ex (\<lambda>t. tm_ID t \<noteq> i \<and> coll cfg (tm_Name t) = coll cfg n) ts"
  shows "distinct (map (\<lambda>t. coll cfg (tm_Name t)) (update_where (\<lambda>t. tm_ID t = i) (update_team n r) ts))"
proof -
  let ?g = "\<lambda>t. if tm_ID t = i then update_team n r t else t"
  have m: "update_where (\<lambda>t. tm_ID t = i) (update_team n r) ts = map ?g ts" by (simp add: update_where_def)
  have "x = y" if "x \<in> set ts" "y \<in> set ts" "coll cfg (tm_Name (?g x)) = coll cfg (tm_Name (?g y))" for x y
  proof (cases "tm_ID x = tm_ID y")
    case True
    then show ?thesis by (rule unique_by [OF assms(2) that(1,2)])
  next
    case False
    have "coll cfg (tm_Name x) = coll cfg (tm_Name y)"
      using that assms(3) False by (auto simp: update_team_def list_ex_iff split: if_splits)
    then show ?thesis by (rule unique_by [OF assms(1) that(1,2)])
  qed
  moreover have "distinct ts" using assms(2) by (simp add: distinct_map)
  ultimately have "inj_on (\<lambda>t. coll cfg (tm_Name (?g t))) (set ts) \<and> distinct ts" by (blast intro: inj_onI)
  then show ?thesis unfolding m by (simp add: distinct_map o_def comp_def)
qed

lemma names_UpdateTeam:
  assumes "uic_inv cfg db"
  shows "distinct (map (\<lambda>t. coll cfg (tm_Name t)) (t_team (fst (UpdateTeam cfg ev tok i n r us db))))"
  using assms names_update_where [of cfg "t_team db" n i r]
  by (auto simp: UpdateTeam_def Let_def split_def uic_inv_def uic_rows_ok_def table_ok_def split: sum.split)

lemma names_DeleteTeam:
  "distinct (map (\<lambda>t. coll cfg (tm_Name t)) (t_team db)) \<Longrightarrow>
    distinct (map (\<lambda>t. coll cfg (tm_Name t)) (t_team (fst (DeleteTeam cfg ev tok i db))))"
  by (simp add: DeleteTeam_def Let_def distinct_delete split: sum.split)

text \<open>
  C9: Every request of the users and teams keeps four properties of the tables (\<open>uic_inv\<close>), whichever of
  its statements fail: identifiers are positive, not repeated and below the next one to be given; no two
  users have a name that is the same to the database, and no two teams; no user has two sessions. That
  identifiers and names do not repeat the database refuses by its keys; creating and renaming teams,
  creating users, and giving a role to a user who is not there run into them. That a
  user has one session no key ensures: logging in and creating a user look for a session before they
  insert one, and would break it if they did not.
\<close>

theorem uic_serve_invariant:
  assumes "uic_inv cfg db"
  shows "uic_inv cfg (fst (uic_serve m cfg okq ev tok req db))"
proof -
  have "distinct (map (\<lambda>t. coll cfg (tm_Name t)) (t_team (fst (uic_handler m cfg ev tok req db))))"
    using assms by (cases req) (simp_all add: keeps_team keeps_team_role names_CreateTeam names_UpdateTeam names_DeleteTeam, simp_all add: uic_inv_def names_CreateTeam names_DeleteTeam)
  then have "uic_inv cfg (fst (uic_handler m cfg ev tok req db))"
    using assms rows_serve by (simp add: uic_inv_def)
  with assms show ?thesis by (simp add: uic_serve_def AuthSessionMidd_def Let_def split_def)
qed

section \<open>Sessions\<close>

text \<open>A working database.\<close>

definition all_ok :: "api_env \<Rightarrow> bool" where
  "all_ok ev \<longleftrightarrow> (\<forall>k. ok ev k)"

text \<open>
  Whoever logs in with the right password gets a signature with which the session check lets the
  name pass; and after logging out with it, the check refuses it (unless it is the default token).
\<close>

theorem login_then_logout:
  assumes inv: "uic_rows_ok cfg db" and ok: "all_ok ev" "all_ok ev'"
    and u: "user_named cfg name db = Some u" "us_Name u \<noteq> ''''" "us_Passwd u = HashIt cfg password" "name \<noteq> ''''" "password \<noteq> ''''"
    and sigs: "uuid ev \<noteq> ''''" "list_all (\<lambda>s. se_Sig s \<noteq> '''') (t_session db)"
  shows "\<exists>db1 sig. Login cfg ev name password db = (db1, RespOK sig) \<and> sig \<noteq> '''' \<and>
    SessionChecking cfg (ok ev') db1 (Token name sig) = (True, None) \<and>
    (sig \<noteq> default_token cfg \<longrightarrow>
      (\<exists>db2. Logout cfg ev' (Token name sig) db1 = (db2, RespOK ''logout successful'') \<and>
        fst (SessionChecking cfg (ok ev') db2 (Token name sig)) = False))"
proof -
  have o: "ok ev k" "ok ev' k" for k using ok by (simp_all add: all_ok_def)
  have uid: "us_ID u \<noteq> 0" using uic_rows_user_id [OF inv] user_found(1) [OF u(1)] by fastforce
  obtain db1 r where lg: "Login cfg ev name password db = (db1, r)" by fastforce
  have e: "ensure_session ev 1 (us_ID u) db = (db1, r)" using lg o u by (simp add: Login_def)
  have inv1: "uic_rows_ok cfg db1" using inv_Login [OF inv, of ev name password] by (simp add: lg)
  have tu: "t_user db1 = t_user db" using Login_tables(1) [of cfg ev name password db] by (simp add: lg)
  have un: "user_named cfg name db1 = Some u" using u(1) by (simp add: user_named_def tu)
  obtain s where s: "s \<in> set (t_session db1)" "se_Uid s = us_ID u" "r = RespOK (se_Sig s)" "se_Sig s \<noteq> ''''"
  proof (cases "find_last (\<lambda>s. se_Uid s = us_ID u) (t_session db)")
    case None
    then have "db1 = insert_session (us_ID u) (uuid ev) (expires (now_ts ev)) True db" "r = RespOK (uuid ev)"
      using e o by (simp_all add: ensure_session_def)
    then show ?thesis using sigs(1)
      that [of "\<lparr>se_ID = next_session db, se_Uid = us_ID u, se_Sig = uuid ev, se_Expired = expires (now_ts ev)\<rparr>"]
      by (simp add: insert_session_def)
  next
    case (Some s)
    have "se_ID s \<noteq> 0" using find_last_Some [OF Some] inv by (auto simp: uic_rows_ok_def table_ok_def list_all_iff)
    then show ?thesis using that [of s] e o Some find_last_Some [OF Some] sigs(2)
      by (auto simp: ensure_session_def list_all_iff)
  qed
  have only: "s' = s" if "s' \<in> set (t_session db1)" "se_Uid s' = us_ID u" for s'
    using unique_by [of se_Uid, OF _ that(1) s(1)] that(2) s(2) inv1 by (simp add: uic_rows_ok_def)
  have sid: "se_ID s \<noteq> 0" using s(1) inv1 by (auto simp: uic_rows_ok_def table_ok_def list_all_iff)
  have find: "find_last (\<lambda>s'. coll cfg (se_Sig s') = coll cfg (se_Sig s) \<and> se_Uid s' = us_ID u) (t_session db1) = Some s"
  proof (cases "find_last (\<lambda>s'. coll cfg (se_Sig s') = coll cfg (se_Sig s) \<and> se_Uid s' = us_ID u) (t_session db1)")
    case None
    then show ?thesis using s(1,2) by (auto simp: find_last_None)
  next
    case (Some s')
    then show ?thesis using find_last_Some [OF Some] only by simp
  qed
  let ?db2 = "db1\<lparr>t_session := delete_where (\<lambda>r. se_ID r = se_ID s) (t_session db1)\<rparr>"
  have none: "find_last (\<lambda>s'. coll cfg (se_Sig s') = coll cfg (se_Sig s) \<and> se_Uid s' = us_ID u) (t_session ?db2) = None"
    using only by (auto simp: find_last_None)
  have un2: "user_named cfg name ?db2 = Some u" using un by (simp add: user_named_def)
  have chk: "SessionChecking cfg (ok ev') db1 (Token name (se_Sig s)) = (True, None)"
    using s(4) u(4) uid sid find o by (simp add: SessionChecking_def GetSession_def un)
  have out: "Logout cfg ev' (Token name (se_Sig s)) db1 = (?db2, RespOK ''logout successful'')"
    using s(4) u(4) sid find o by (simp add: Logout_def GetSession_def un)
  have "fst (SessionChecking cfg (ok ev') ?db2 (Token name (se_Sig s))) = False" if "se_Sig s \<noteq> default_token cfg"
    using that s(4) u(4) uid none un2 o by (simp add: SessionChecking_def GetSession_def)
  then show ?thesis using lg s(3,4) chk out by auto
qed

text \<open>
  Sessions do not expire: whatever times of expiry the table holds, the check of a session answers
  the same.
\<close>

theorem sessions_never_expire:
  "SessionChecking cfg okq (db\<lparr>t_session := map (\<lambda>s. s\<lparr>se_Expired := f s\<rparr>) (t_session db)\<rparr>) tok = SessionChecking cfg okq db tok"
proof -
  let ?g = "\<lambda>s. s\<lparr>se_Expired := f s\<rparr>"
  have u: "user_named cfg n (db\<lparr>t_session := xs\<rparr>) = user_named cfg n db" for n xs by (simp add: user_named_def)
  have f: "find_last P (map ?g (t_session db)) = map_option ?g (find_last P (t_session db))"
    if "\<And>s. P (?g s) = P s" for P
    using that by (simp add: find_last_def Let_def filter_map o_def last_map)
  show ?thesis
    by (simp add: SessionChecking_def u f option.map_comp split: sum.split option.split)
qed

section \<open>What the handlers do not check\<close>

text \<open>Everyone is in every team: the answer does not depend on the memberships.\<close>

theorem everyone_in_every_team:
  assumes "all_ok ev" "u \<in> set (t_user db)" "uid \<noteq> ''''" "atoi uid = Inr (us_ID u)" "teams \<noteq> ''''"
  shows "IsUserInTeams cfg ev uid teams db = RespOK ''true''"
proof -
  have "find_first us_ID (\<lambda>v. us_ID v = us_ID u) (t_user db) \<noteq> None"
  proof -
    have "u \<in> set (sort_key us_ID (filter (\<lambda>v. us_ID v = us_ID u) (t_user db)))" using assms(2) by simp
    then have "sort_key us_ID (filter (\<lambda>v. us_ID v = us_ID u) (t_user db)) \<noteq> []" by (metis list.set(1) empty_iff)
    then show ?thesis by (auto simp: find_first_def split: list.splits)
  qed
  then show ?thesis using assms by (auto simp: IsUserInTeams_def path_id_def all_ok_def Let_def)
qed

text \<open>
  A change of password without a new one is answered as refused and takes place: the password is the
  empty one afterwards, with which logging in is not possible.
\<close>

theorem refused_change_takes_place:
  assumes inv: "uic_rows_ok cfg db" and ok: "all_ok ev" and req: "requester cfg tok db = Some c" "us_Passwd c = HashIt cfg old"
  shows "snd (ChangePassword cfg ev tok old '''' db) = RespErr StatusBadRequest ''bind'' \<and>
    (\<exists>v\<in>set (t_user (fst (ChangePassword cfg ev tok old '''' db))). us_ID v = us_ID c \<and> us_Passwd v = HashIt cfg '''') \<and>
    Login cfg ev' (us_Name c) '''' db' = (db', RespErr StatusBadRequest ''name or password is blank'')"
proof -
  have c: "c \<in> set (t_user db)" by (rule requester_in [OF req(1)])
  have "us_ID c \<noteq> 0" using uic_rows_user_id [OF inv c] by simp
  then have "save_user cfg (ok ev 1) (c\<lparr>us_Passwd := HashIt cfg ''''\<rparr>) db =
      Some (db\<lparr>t_user := update_where (\<lambda>v. us_ID v = us_ID c) (\<lambda>v. c\<lparr>us_Passwd := HashIt cfg ''''\<rparr>) (t_user db)\<rparr>)"
    using ok by (simp add: save_user_def all_ok_def)
  then have "fst (ChangePassword cfg ev tok old '''' db) =
      db\<lparr>t_user := update_where (\<lambda>v. us_ID v = us_ID c) (\<lambda>v. c\<lparr>us_Passwd := HashIt cfg ''''\<rparr>) (t_user db)\<rparr>"
    using ok req by (simp add: ChangePassword_effect all_ok_def)
  then have "\<exists>v\<in>set (t_user (fst (ChangePassword cfg ev tok old '''' db))). us_ID v = us_ID c \<and> us_Passwd v = HashIt cfg ''''"
    using c
    by (intro bexI [of _ "c\<lparr>us_Passwd := HashIt cfg ''''\<rparr>"]) (auto simp: in_update_where)
  moreover have "snd (ChangePassword cfg ev tok old '''' db) = RespErr StatusBadRequest ''bind''"
    by (simp add: ChangePassword_def Let_def split: sum.split option.split prod.split)
  ultimately show ?thesis by (simp add: Login_def)
qed

text \<open>Giving the role of an administrator to a user who is not there makes a user without a name.\<close>

lemma role_of_nobody:
  assumes "all_ok ev" "by_admin cfg tok db" "i \<noteq> 0" "user_by_id i db = None" "list_all (\<lambda>v. coll cfg (us_Name v) \<noteq> coll cfg '''') (t_user db)"
  shows "t_user (fst (ChangeRoleOfUser cfg ev tok i ''yes'' db)) = t_user db @ [zero_user\<lparr>us_ID := next_user db, us_Role := 1\<rparr>]"
proof -
  obtain c where c: "requester cfg tok db = Some c" "IsAdmin cfg c" using assms(2) by (auto simp: by_admin_def split: option.splits)
  then have "require_admin cfg (ok ev 0) StatusBadRequest tok db = Inr c"
    using assms(1) by (auto simp: require_admin_def GetUser_def requester_def all_ok_def split: sum.splits)
  moreover have "\<not> list_ex (\<lambda>v. coll cfg (us_Name v) = coll cfg '''') (t_user db)"
    using assms(5) by (auto simp: list_ex_iff list_all_iff)
  ultimately show ?thesis using assms(1,3,4)
    by (simp add: ChangeRoleOfUser_def all_ok_def save_user_def zero_user_def insert_user_def Let_def)
qed

text \<open>
  An administrator can take over the account of root, which the deletion of users protects: the new
  password is accepted at the next login.
\<close>

theorem admin_takes_over_root:
  assumes inv: "uic_rows_ok cfg db" and ok: "all_ok ev" and adm: "by_admin cfg tok db"
    and root: "user_by_id i db = Some r" "password \<noteq> ''''"
  shows "\<exists>db'. AdminChangePassword cfg ev tok i password db = (db', RespOK ''password updated!'') \<and>
    r\<lparr>us_Passwd := HashIt cfg password\<rparr> \<in> set (t_user db')"
proof -
  obtain c where c: "requester cfg tok db = Some c" "IsAdmin cfg c" using adm by (auto simp: by_admin_def split: option.splits)
  then have a: "require_admin cfg (ok ev 0) StatusExpectationFailed tok db = Inr c"
    using ok by (auto simp: require_admin_def GetUser_def requester_def all_ok_def split: sum.splits)
  have r: "r \<in> set (t_user db)" "us_ID r = i" using find_last_Some [of _ "t_user db" r] root(1) by (auto simp: user_by_id_def)
  then have i: "i \<noteq> 0" using uic_rows_user_id [OF inv r(1)] by simp
  have s: "save_user cfg (ok ev 2) (r\<lparr>us_Passwd := HashIt cfg password\<rparr>) db =
      Some (db\<lparr>t_user := update_where (\<lambda>v. us_ID v = i) (\<lambda>v. r\<lparr>us_Passwd := HashIt cfg password\<rparr>) (t_user db)\<rparr>)"
    using ok i r(2) by (simp add: save_user_def all_ok_def)
  have "AdminChangePassword cfg ev tok i password db =
      (db\<lparr>t_user := update_where (\<lambda>v. us_ID v = i) (\<lambda>v. r\<lparr>us_Passwd := HashIt cfg password\<rparr>) (t_user db)\<rparr>, RespOK ''password updated!'')"
    using ok i root a s by (simp add: AdminChangePassword_def all_ok_def)
  then show ?thesis using r by (auto simp: in_update_where intro!: bexI [of _ r])
qed

end
