(* ===== verification/Api_Flow.thy ===== *)
theory Api_Flow
  imports Api_Safety
begin

text \<open>
  Teams: who can change one, and what an update makes of its members; and runs of the properties of
  the users' side of the API on a small database.
\<close>

section \<open>Members after an update\<close>

text \<open>The rows of a team and those of its members.\<close>

definition team_rows :: "int \<Rightarrow> uic_db \<Rightarrow> team list" where
  "team_rows tid db = filter (\<lambda>t. tm_ID t = tid) (t_team db)"

definition member_rows :: "int \<Rightarrow> uic_db \<Rightarrow> rel_team_user list" where
  "member_rows tid db = filter (\<lambda>r. rl_Tid r = tid) (t_rel db)"

definition member_ids :: "int \<Rightarrow> uic_db \<Rightarrow> int set" where
  "member_ids tid db = rl_Uid ` set (member_rows tid db)"

lemma members_insert_rel [simp]:
  "member_rows tid (insert_rel t u db) =
    (if t = tid then member_rows tid db @ [\<lparr>rl_ID = next_rel db, rl_Tid = t, rl_Uid = u\<rparr>] else member_rows tid db)"
  by (simp add: member_rows_def insert_rel_def)

lemma members_bind_new_other [simp]:
  "t \<noteq> tid \<Longrightarrow> member_rows tid (fst (bind_new okq k t us db)) = member_rows tid db"
  by (induction us arbitrary: k db) simp_all

lemma members_add_other [simp]:
  "t \<noteq> tid \<Longrightarrow> member_rows tid (fst (add_members okq k t us db)) = member_rows tid db"
  by (induction us arbitrary: k db) simp_all

text \<open>Deleting by identifiers of another team's rows does not touch a team.\<close>

lemma members_delete_rels_other:
  "\<forall>m\<in>set ms. \<forall>r\<in>set (member_rows tid db). rl_ID m \<noteq> rl_ID r \<Longrightarrow> member_rows tid (fst (delete_rels okq k ms db)) = member_rows tid db"
proof (induction ms arbitrary: k db)
  case (Cons m ms)
  let ?db = "db\<lparr>t_rel := delete_where (\<lambda>r. rl_ID r = rl_ID m) (t_rel db)\<rparr>"
  have e: "member_rows tid ?db = member_rows tid db"
    using Cons.prems by (auto simp: member_rows_def delete_where_def intro!: filter_cong)
  then show ?case using Cons.IH [of ?db] Cons.prems by simp
qed simp

lemma rels_of_another:
  assumes "uic_rows_ok cfg db" "t \<noteq> tid" "m \<in> set (t_rel db)" "rl_Tid m = t" "r \<in> set (member_rows tid db)"
  shows "rl_ID m \<noteq> rl_ID r"
  using unique_by [of rl_ID "t_rel db" m r] assms by (auto simp: uic_rows_ok_def table_ok_def member_rows_def)

lemma members_bindUsers_other:
  assumes "uic_rows_ok cfg db" "t \<noteq> tid"
  shows "member_rows tid (fst (bindUsers okq k t us db)) = member_rows tid db"
proof -
  have "member_rows tid (fst (delete_rels okq j (filter (\<lambda>r. rl_Tid r = t \<and> rl_Uid r \<notin> set us) (t_rel db)) db)) = member_rows tid db" for j
    using rels_of_another [OF assms] by (intro members_delete_rels_other) auto
  then show ?thesis using assms(2) by (simp add: bindUsers_def Let_def split_def split: sum.split)
qed

lemma delete_rels_done:
  "snd (delete_rels okq k ms db) \<Longrightarrow> t_rel (fst (delete_rels okq k ms db)) = filter (\<lambda>r. rl_ID r \<notin> rl_ID ` set ms) (t_rel db)"
  by (induction ms arbitrary: k db) (auto simp: delete_where_def split: if_splits intro: filter_cong)

lemma bind_new_done:
  "snd (bind_new okq k tid us db) \<Longrightarrow> 0 \<notin> set us \<Longrightarrow> member_ids tid (fst (bind_new okq k tid us db)) = member_ids tid db \<union> set us"
proof (induction us arbitrary: k db)
  case (Cons u us)
  show ?case
  proof (cases "okq k \<and> list_ex (\<lambda>r. rl_Tid r = tid \<and> (u = 0 \<or> rl_Uid r = u)) (t_rel db)")
    case True
    then have "u \<in> member_ids tid db" using Cons.prems(2) by (auto simp: member_ids_def member_rows_def list_ex_iff image_iff)
    then show ?thesis using True Cons.IH [of "k + 2" db] Cons.prems by auto
  next
    case False
    then show ?thesis using Cons.IH [of "k + 2" "insert_rel tid u db"] Cons.prems
      by (auto simp: member_ids_def split: if_splits)
  qed
qed simp

lemma bindUsers_done:
  assumes "snd (bindUsers okq k tid us db) = None" "0 \<notin> set us"
    and ids: "distinct (map rl_ID (t_rel db))"
  shows "member_ids tid (fst (bindUsers okq k tid us db)) = set us"
proof -
  define ms where "ms = filter (\<lambda>r. rl_Tid r = tid \<and> rl_Uid r \<notin> set us) (t_rel db)"
  define db1 where "db1 = fst (delete_rels okq (Suc k) ms db)"
  have d: "snd (delete_rels okq (Suc k) ms db)" "snd (bind_new okq (Suc k + length ms) tid us db1)"
    and e: "fst (bindUsers okq k tid us db) = fst (bind_new okq (Suc k + length ms) tid us db1)"
    using assms(1) by (auto simp: bindUsers_def Let_def split_def ms_def db1_def split: sum.splits if_splits)
  have "rl_ID r \<in> rl_ID ` set ms \<longleftrightarrow> r \<in> set ms" if "r \<in> set (t_rel db)" for r
    using unique_by [OF ids that] by (auto simp: ms_def)
  then have "member_ids tid db1 \<subseteq> set us"
    using delete_rels_done [OF d(1)] by (auto simp: db1_def member_ids_def member_rows_def ms_def)
  then show ?thesis using bind_new_done [OF d(2) assms(2)] e by auto
qed

text \<open>
  An update of a team that is answered as done leaves exactly the members it was given, whoever was
  in the team before, and leaves all other teams as they were.
\<close>

theorem UpdateTeam_members:
  assumes inv: "uic_rows_ok cfg db" and ans: "is_ok (snd (UpdateTeam cfg ev tok tid name resume uids db))" and z: "0 \<notin> set uids"
  shows "member_ids tid (fst (UpdateTeam cfg ev tok tid name resume uids db)) = set uids \<and>
    (other \<noteq> tid \<longrightarrow>
      member_rows other (fst (UpdateTeam cfg ev tok tid name resume uids db)) = member_rows other db \<and>
      team_rows other (fst (UpdateTeam cfg ev tok tid name resume uids db)) = team_rows other db)"
proof -
  let ?db = "db\<lparr>t_team := update_where (\<lambda>t. tm_ID t = tid) (update_team name resume) (t_team db)\<rparr>"
  have i: "uic_rows_ok cfg ?db"
    using inv table_ok_update [of "t_team db" "\<lambda>t. tm_ID t = tid" tm_ID "update_team name resume"] by (simp add: uic_rows_ok_def update_team_def)
  have e: "fst (UpdateTeam cfg ev tok tid name resume uids db) = fst (bindUsers (ok ev) 3 tid uids ?db)"
    and d: "snd (bindUsers (ok ev) 3 tid uids ?db) = None"
    using ans by (auto simp: UpdateTeam_def Let_def split_def is_ok_def split: sum.splits if_splits option.splits)
  have "team_rows other ?db = team_rows other db" if "other \<noteq> tid"
    using that by (auto simp: team_rows_def update_team_def intro!: filter_update_where)
  moreover have "member_rows other ?db = member_rows other db" by (simp add: member_rows_def)
  ultimately show ?thesis
    using e bindUsers_done [OF d z] members_bindUsers_other [OF i, of tid other] i
    by (auto simp: uic_rows_ok_def table_ok_def team_rows_def)
qed

section \<open>Who can change a team\<close>

definition manages :: "api_config \<Rightarrow> apitoken \<Rightarrow> int \<Rightarrow> uic_db \<Rightarrow> bool" where
  "manages cfg tok tid db \<longleftrightarrow> (case requester cfg tok db of None \<Rightarrow> False | Some c \<Rightarrow> may_manage cfg c tid db)"

definition same_team :: "int \<Rightarrow> uic_db \<Rightarrow> uic_db \<Rightarrow> bool" where
  "same_team tid db db' \<longleftrightarrow> team_rows tid db' = team_rows tid db \<and> member_rows tid db' = member_rows tid db"

lemma same_team_tables: "t_team db' = t_team db \<Longrightarrow> t_rel db' = t_rel db \<Longrightarrow> same_team tid db db'"
  by (simp add: same_team_def team_rows_def member_rows_def)

lemma insert_user_teams: "insert_user cfg q u db = Some (db', u') \<Longrightarrow> t_team db' = t_team db \<and> t_rel db' = t_rel db"
  by (auto simp: insert_user_def Let_def split: if_splits)

lemma save_user_teams: "save_user cfg q u db = Some db' \<Longrightarrow> t_team db' = t_team db \<and> t_rel db' = t_rel db"
  by (auto simp: save_user_def split: if_splits dest: insert_user_teams)

text \<open>The handlers of users and sessions touch no team.\<close>

lemma CreateUser_teams: "same_team tid db (fst (CreateUser cfg ev tok b db))"
  by (auto simp: CreateUser_def split: option.split intro!: same_team_tables dest: insert_user_teams)

lemma UpdateCurrentUser_teams: "same_team tid db (fst (UpdateCurrentUser cfg ev tok p db))"
  by (simp add: UpdateCurrentUser_def same_team_tables split: option.split sum.split)

lemma ChangePassword_teams: "same_team tid db (fst (ChangePassword cfg ev tok o1 n1 db))"
  by (auto simp: ChangePassword_effect split: option.split intro!: same_team_tables dest: save_user_teams)

lemma AdminChangeUserProfile_teams: "same_team tid db (fst (AdminChangeUserProfile cfg ev tok i p db))"
  by (simp add: AdminChangeUserProfile_def same_team_tables split: option.split sum.split)

lemma AdminUserDelete_teams: "same_team tid db (fst (AdminUserDelete cfg ev tok i db))"
  by (simp add: AdminUserDelete_def same_team_tables split: sum.split)

lemma AdminChangePassword_teams: "same_team tid db (fst (AdminChangePassword cfg ev tok i p db))"
  by (auto simp: AdminChangePassword_def split: option.split sum.split intro!: same_team_tables dest: save_user_teams)

lemma ChangeRoleOfUser_teams: "same_team tid db (fst (ChangeRoleOfUser cfg ev tok i p db))"
proof -
  have "same_team tid db (fst (case save_user cfg q u db of None \<Rightarrow> (db, r1) | Some db' \<Rightarrow> (db', r2)))"
    for q u and r1 r2 :: "string resp"
    by (auto split: option.split intro!: same_team_tables dest: save_user_teams)
  then show ?thesis by (simp add: ChangeRoleOfUser_def Let_def same_team_tables split: sum.split)
qed

lemmas users_leave_teams = CreateUser_teams UpdateCurrentUser_teams ChangePassword_teams AdminChangeUserProfile_teams
  AdminUserDelete_teams AdminChangePassword_teams ChangeRoleOfUser_teams

lemma CreateTeam_same:
  assumes "tid < next_team db"
  shows "same_team tid db (fst (CreateTeam cfg ev tok n r us db))"
proof -
  let ?db = "\<lambda>c. db\<lparr>t_team := t_team db @ [\<lparr>tm_ID = next_team db, tm_Name = n, tm_Resume = r, tm_Creator = c\<rparr>],
      next_team := next_team db + 1\<rparr>"
  have "same_team tid db (fst (add_members okq k (next_team db) us (?db c)))" for okq k c
    using assms members_add_other [of "next_team db" tid okq k us "?db c"]
    by (simp add: same_team_def team_rows_def) (simp add: member_rows_def)
  then show ?thesis
    by (simp add: CreateTeam_def insert_team_def Let_def split_def same_team_tables split: sum.split)
qed

lemma UpdateTeam_same:
  assumes inv: "uic_rows_ok cfg db" and no: "\<not> manages cfg tok tid db"
  shows "same_team tid db (fst (UpdateTeam cfg ev tok i n r us db))"
proof (cases "i = tid")
  case True
  then have "fst (UpdateTeam cfg ev tok i n r us db) = db"
    using no by (auto simp: UpdateTeam_def manages_def dest!: GetUser_requester split: sum.split)
  then show ?thesis by (simp add: same_team_def)
next
  case False
  let ?db = "db\<lparr>t_team := update_where (\<lambda>t. tm_ID t = i) (update_team n r) (t_team db)\<rparr>"
  have "uic_rows_ok cfg ?db"
    using inv table_ok_update [of "t_team db" "\<lambda>t. tm_ID t = i" tm_ID "update_team n r"] by (simp add: uic_rows_ok_def update_team_def)
  then have "member_rows tid (fst (bindUsers okq 3 i us ?db)) = member_rows tid ?db" for okq
    using False by (simp add: members_bindUsers_other)
  moreover have "team_rows tid ?db = team_rows tid db"
    using False by (auto simp: team_rows_def update_team_def intro!: filter_update_where)
  ultimately have "same_team tid db (fst (bindUsers okq 3 i us ?db))" for okq
    by (simp add: same_team_def) (simp add: team_rows_def member_rows_def)
  then show ?thesis by (simp add: UpdateTeam_def Let_def split_def same_team_tables split: sum.split)
qed

lemma DeleteTeam_same:
  assumes inv: "uic_rows_ok cfg db" and no: "\<not> manages cfg tok tid db" and t: "t \<in> set (t_team db)" "tm_ID t = tid"
  shows "same_team tid db (fst (DeleteTeam cfg ev tok s db))"
proof (cases "\<exists>u. atoi s = Inr tid \<and> GetUser cfg (ok ev 0) db tok = Inr u")
  case True
  then obtain u where u: "atoi s = Inr tid" "GetUser cfg (ok ev 0) db tok = Inr u" by blast
  have r: "requester cfg tok db = Some u" by (rule GetUser_requester [OF u(2)])
  have "us_ID u \<noteq> 0" using uic_rows_user_id [OF inv requester_in [OF r]] by simp
  then have "fst (DeleteTeam cfg ev tok s db) = db"
    using no u r t by (auto simp: DeleteTeam_def manages_def may_manage_def list_ex_iff)
  then show ?thesis by (simp add: same_team_def)
next
  case False
  let ?db = "fst (DeleteTeam cfg ev tok s db)"
  have "t_team ?db = t_team db \<or> (\<exists>i. i \<noteq> tid \<and> t_team ?db = delete_where (\<lambda>t. tm_ID t = i) (t_team db))"
    using False by (auto simp: DeleteTeam_def Let_def split: sum.split)
  moreover have "t_rel ?db = t_rel db \<or> (\<exists>i. i \<noteq> tid \<and> t_rel ?db = delete_where (\<lambda>r. rl_Tid r = i) (t_rel db))"
    using False by (auto simp: DeleteTeam_def Let_def split: sum.split)
  ultimately show ?thesis
    by (auto simp: same_team_def team_rows_def member_rows_def intro!: filter_delete_where)
qed

text \<open>
  C11: A team that is there, its row and its members, is changed only by a request of someone who may
  manage it: an administrator, a member or its creator.
\<close>

theorem teams_protected:
  assumes inv: "uic_rows_ok cfg db" and t: "t \<in> set (t_team db)" and no: "\<not> manages cfg tok (tm_ID t) db"
  shows "team_rows (tm_ID t) (fst (uic_serve m cfg okq ev tok req db)) = team_rows (tm_ID t) db \<and>
    member_rows (tm_ID t) (fst (uic_serve m cfg okq ev tok req db)) = member_rows (tm_ID t) db"
proof -
  have "tm_ID t < next_team db" using inv t by (auto simp: uic_rows_ok_def table_ok_def list_all_iff)
  then have "same_team (tm_ID t) db (fst (uic_handler m cfg ev tok req db))"
    by (cases req) (simp_all add: users_leave_teams same_team_tables CreateTeam_same UpdateTeam_same [OF inv no]
      DeleteTeam_same [OF inv no t refl])
  then show ?thesis by (simp add: uic_serve_def AuthSessionMidd_def Let_def split_def same_team_def)
qed

section \<open>Runs on a small database\<close>

definition example_cfg :: api_config where
  "example_cfg = \<lparr>coll = id, access_control = True, skip_auth = False, default_token = '''', signup_disable = False, salt = ''s''\<rparr>"

definition example_ev :: api_env where
  "example_ev = \<lparr>ok = \<lambda>k. True, uuid = ''c0ffee'', now_ts = 1500000000\<rparr>"

definition example_user :: "int \<Rightarrow> string \<Rightarrow> int \<Rightarrow> api_user" where
  "example_user i name role =
    zero_user\<lparr>us_ID := i, us_Name := name, us_Passwd := HashIt example_cfg ''old'', us_Role := role\<rparr>"

text \<open>Root made the team \<open>ops\<close>, which has bob; alice is in no team.\<close>

definition example_db :: uic_db where
  "example_db =
    \<lparr>t_user = [example_user 1 ''root'' 2, example_user 2 ''alice'' 0, example_user 3 ''bob'' 0], t_session = [],
     t_team = [\<lparr>tm_ID = 1, tm_Name = ''ops'', tm_Resume = '''', tm_Creator = 1\<rparr>],
     t_rel = [\<lparr>rl_ID = 1, rl_Tid = 1, rl_Uid = 3\<rparr>],
     next_user = 4, next_session = 1, next_team = 2, next_rel = 2\<rparr>"

lemmas example_defs = example_cfg_def example_ev_def example_user_def example_db_def zero_user_def

lemma example_inv: "uic_inv example_cfg example_db"
  by (simp add: uic_inv_def uic_rows_ok_def table_ok_def example_defs)

lemma example_rows: "uic_rows_ok example_cfg example_db"
  using example_inv by (simp add: uic_inv_def)

lemma example_alice: "requester example_cfg (Token ''alice'' ''x'') example_db = Some (example_user 2 ''alice'' 0)"
  by (simp add: requester_def GetSession_def user_named_def find_last_def example_defs)

lemma example_root: "requester example_cfg (Token ''root'' ''x'') example_db = Some (example_user 1 ''root'' 2)"
  by (simp add: requester_def GetSession_def user_named_def find_last_def example_defs)

lemma example_ok: "all_ok example_ev" by (simp add: all_ok_def example_ev_def)

lemma no_rights_without_admin_witness:
  "list_all (\<lambda>v. us_Role v \<noteq> 1)
    (t_user (fst (uic_serve (\<lambda>_ _. True) example_cfg (\<lambda>_. True) example_ev (Token ''alice'' ''x'') (RChangeRole 2 ''yes'') example_db)))"
proof -
  have na: "\<not> by_admin example_cfg (Token ''alice'' ''x'') example_db"
    by (simp add: by_admin_def example_alice IsAdmin_def) (simp add: example_defs)
  have ids: "list_all (\<lambda>u. us_ID u \<noteq> 0) (t_user example_db)" by (simp add: example_defs)
  have "us_Role u \<noteq> 1" if "u \<in> set (t_user example_db)" for u using that by (auto simp: example_defs)
  then show ?thesis
    using no_rights_without_admin [OF na ids, of _ "\<lambda>_ _. True" "\<lambda>_. True" example_ev "RChangeRole 2 ''yes''"]
    by (fastforce simp: same_rights_def list_all_iff)
qed

lemma uic_serve_invariant_witness:
  "uic_inv example_cfg (fst (uic_serve (\<lambda>_ _. True) example_cfg (\<lambda>_. True) example_ev NoToken (RLogin ''alice'' ''old'') example_db))"
  by (rule uic_serve_invariant [OF example_inv])

lemma login_then_logout_witness:
  "\<exists>db1 sig. Login example_cfg example_ev ''alice'' ''old'' example_db = (db1, RespOK sig) \<and>
    SessionChecking example_cfg (ok example_ev) db1 (Token ''alice'' sig) = (True, None)"
proof -
  have "user_named example_cfg ''alice'' example_db = Some (example_user 2 ''alice'' 0)"
    by (simp add: user_named_def find_last_def example_defs)
  then show ?thesis
    using login_then_logout [OF example_rows example_ok example_ok, of "''alice''" "example_user 2 ''alice'' 0" "''old''"]
    by (auto simp: example_user_def example_ev_def) (auto simp: example_db_def)
qed

lemma everyone_in_every_team_witness:
  "IsUserInTeams example_cfg example_ev ''2'' ''ops'' example_db = RespOK ''true''"
  by (rule everyone_in_every_team [OF example_ok, of "example_user 2 ''alice'' 0"])
    (simp_all add: example_defs parse_int_def split_sign_def digit_val_def Let_def)

lemma refused_change_takes_place_witness:
  "snd (ChangePassword example_cfg example_ev (Token ''alice'' ''x'') ''old'' '''' example_db) = RespErr StatusBadRequest ''bind'' \<and>
    (\<exists>v\<in>set (t_user (fst (ChangePassword example_cfg example_ev (Token ''alice'' ''x'') ''old'' '''' example_db))).
      us_ID v = 2 \<and> us_Passwd v = HashIt example_cfg '''')"
  using refused_change_takes_place [OF example_rows example_ok example_alice, of "''old''"]
  by (simp add: example_user_def)

lemma teams_protected_witness:
  "member_rows 1 (fst (uic_serve (\<lambda>_ _. True) example_cfg (\<lambda>_. True) example_ev (Token ''alice'' ''x'') (RUpdateTeam 1 ''mine'' '''' [2]) example_db)) =
    [\<lparr>rl_ID = 1, rl_Tid = 1, rl_Uid = 3\<rparr>]"
proof -
  let ?t = "\<lparr>tm_ID = 1, tm_Name = ''ops'', tm_Resume = '''', tm_Creator = 1\<rparr>"
  have t: "?t \<in> set (t_team example_db)" by (simp add: example_db_def)
  have "\<not> manages example_cfg (Token ''alice'' ''x'') (tm_ID ?t) example_db"
    by (simp add: manages_def example_alice may_manage_def is_member_def IsAdmin_def) (simp add: example_defs)
  from teams_protected [OF example_rows t this, of "\<lambda>_ _. True" "\<lambda>_. True" example_ev "RUpdateTeam 1 ''mine'' '''' [2]"]
  show ?thesis by (simp add: member_rows_def example_db_def)
qed

lemma UpdateTeam_members_witness:
  "member_ids 1 (fst (UpdateTeam example_cfg example_ev (Token ''root'' ''x'') 1 '''' ''new'' [2] example_db)) = {2}"
proof -
  have g: "GetUser example_cfg (ok example_ev 0) example_db (Token ''root'' ''x'') = Inr (example_user 1 ''root'' 2)"
    using example_root by (simp add: requester_def GetUser_def example_ev_def split: sum.splits prod.splits option.splits)
  have "is_ok (snd (UpdateTeam example_cfg example_ev (Token ''root'' ''x'') 1 '''' ''new'' [2] example_db))"
    by (simp add: UpdateTeam_def g is_ok_def may_manage_def IsAdmin_def bindUsers_def ArrIntToString_def)
      (simp add: example_defs delete_where_def)
  from UpdateTeam_members [OF example_rows this, of 0] show ?thesis by simp
qed

end
