(* ===== verification/Api_Runs.thy ===== *)
theory Api_Runs
  imports Api_Monitor Api_Flow
begin

text \<open>
  A small configuration, and the statements about the configuration at it: \<open>root\<close> made a group with
  one host, a template bound to it and one strategy; \<open>alice\<close> made an expression.
\<close>

definition example_action :: action_rec where
  "example_action = \<lparr>an_ID = 1, an_UIC = ''ops'', an_URL = '''', an_Callback = 0, an_BeforeCallbackSMS = 0,
    an_BeforeCallbackMail = 0, an_AfterCallbackSMS = 0, an_AfterCallbackMail = 0\<rparr>"

definition example_strategy :: strategy_rec where
  "example_strategy = \<lparr>sg_ID = 1, sg_Metric = ''cpu.idle'', sg_Tags = '''', sg_MaxStep = 3, sg_Priority = 0, sg_Func = ''all(#3)'',
    sg_Op = ''<'', sg_RightValue = ''5'', sg_Note = '''', sg_RunBegin = '''', sg_RunEnd = '''', sg_TplId = 1\<rparr>"

definition example_tpl :: tpl_row where
  "example_tpl = \<lparr>tp_ID = 1, tp_Name = ''base'', tp_ParentID = 0, tp_ActionID = 1, tp_CreateUser = ''root''\<rparr>"

definition example_host :: portal_host where
  "example_host = \<lparr>ph_ID = 1, ph_Hostname = ''web1'', ph_Ip = '''', ph_AgentVersion = '''', ph_PluginVersion = '''',
    ph_MaintainBegin = 0, ph_MaintainEnd = 0\<rparr>"

definition example_group :: host_group where
  "example_group = \<lparr>hg_ID = 1, hg_Name = ''web'', hg_CreateUser = ''root'', hg_ComeFrom = 1\<rparr>"

definition example_expression :: expression_rec where
  "example_expression = \<lparr>xp_ID = 1, xp_Expression = ''each(metric=qps)'', xp_Func = ''all(#3)'', xp_Op = ''>'', xp_RightValue = ''9'',
    xp_MaxStep = 3, xp_Priority = 1, xp_Note = '''', xp_ActionId = 2, xp_CreateUser = ''alice'', xp_Pause = 0\<rparr>"

definition example_portal :: portal_db where
  "example_portal =
    \<lparr>t_host = [example_host], t_grp = [example_group], t_grp_host = [\<lparr>gh_GrpID = 1, gh_HostID = 1\<rparr>],
     t_grp_tpl = [\<lparr>gt_GrpID = 1, gt_TplID = 1, gt_BindUser = ''root''\<rparr>], t_tpl = [example_tpl],
     t_strategy = [example_strategy], t_expression = [example_expression],
     t_action = [example_action, example_action\<lparr>an_ID := 2\<rparr>], t_plugin = [], t_mockcfg = [], t_cluster = [],
     next_ids = \<lparr>i_host = 2, i_grp = 2, i_tpl = 2, i_strategy = 2, i_expression = 2, i_action = 3, i_plugin = 1,
       i_mockcfg = 1, i_cluster = 1\<rparr>\<rparr>"

definition example_unclosed :: expression_input where
  "example_unclosed = \<lparr>ei_Expression = ''each(metric=qps'', ei_Func = ''all(#3)'', ei_Op = ''>'', ei_RightValue = ''9'', ei_MaxStep = 3,
    ei_Priority = 1, ei_Note = '''', ei_Pause = 0, ei_UIC = Some [''ops''], ei_Action = example_action\<rparr>"

lemmas portal_defs = example_action_def example_strategy_def example_tpl_def example_host_def example_group_def
  example_expression_def example_portal_def

lemma portal_inv_example: "portal_inv example_cfg example_portal"
  by (simp add: portal_inv_def table_ok_def portal_defs example_cfg_def)

lemma ok_example [simp]: "ok example_ev k" by (simp add: example_ev_def)

lemma coll_example [simp]: "coll example_cfg s = s" by (simp add: example_cfg_def)

lemma whoami_alice: "whoami example_cfg q (Token ''alice'' ''x'') example_db =
    (if q then example_user 2 ''alice'' 0 else zero_user\<lparr>us_Name := ''alice''\<rparr>)"
  by (simp add: whoami_def GetSession_def user_named_def find_last_def example_defs)

lemma whoami_root: "whoami example_cfg True (Token ''root'' ''x'') example_db = example_user 1 ''root'' 2"
  by (simp add: whoami_def GetSession_def user_named_def find_last_def example_defs)

lemma not_admin_alice: "\<not> IsAdmin example_cfg (whoami example_cfg q (Token ''alice'' ''x'') example_db)"
  by (simp add: whoami_alice example_user_def zero_user_def IsAdmin_def) (simp add: example_cfg_def)

lemma admin_root: "IsAdmin example_cfg (example_user 1 ''root'' 2)"
  by (simp add: IsAdmin_def example_user_def)

lemma portal_serve_invariant_witness:
  "portal_inv example_cfg (portal_serve example_cfg (\<lambda>k. True) example_ev (Token ''alice'' ''x'')
    (PBindHosts (Some [''web1'', ''web2'']) 1) example_db example_portal)"
  by (rule portal_serve_invariant [OF portal_inv_example])

lemma portal_serve_formats_witness:
  "formats_ok (portal_serve example_cfg (\<lambda>k. True) example_ev (Token ''alice'' ''x'') (PDeleteTemplate ''1'') example_db example_portal)"
  by (rule portal_serve_formats)
    (simp add: formats_ok_def portal_defs rx_match_def validOp_def validRightValue_def validDigits_def ROpt_def RLit_def RPlus_def is_digit_def
      digit_val_def)

lemma BindHost_all_or_nothing_witness:
  "\<exists>r. BindHostToHostGroup example_cfg (example_ev\<lparr>ok := \<lambda>k. k \<noteq> 6\<rparr>) (Token ''root'' ''x'') (Some [''web2'']) 1 example_db example_portal =
    (example_portal\<lparr>next_ids := (next_ids example_portal)\<lparr>i_host := 3\<rparr>\<rparr>, r) \<and> \<not> is_ok r"
proof -
  let ?ev = "example_ev\<lparr>ok := \<lambda>k. k \<noteq> 6\<rparr>"
  let ?db' = "example_portal\<lparr>next_ids := (next_ids example_portal)\<lparr>i_host := 3\<rparr>\<rparr>"
  have b: "BindHostToHostGroup example_cfg ?ev (Token ''root'' ''x'') (Some [''web2'']) 1 example_db example_portal =
      (?db', unexpected db_error)"
    by (simp add: BindHostToHostGroup_def whoami_root admin_root found_def find_id_def find_last_def Let_def example_portal_def example_group_def)
      (simp add: example_host_def delete_where_def Existing_def find_last_def insert_host_def rollback_def coll_example)
  from BindHost_all_or_nothing [OF this] have "\<not> is_ok (unexpected db_error :: string resp)"
    by (auto simp: unexpected_def is_ok_def)
  with b show ?thesis by blast
qed

lemma group_members_protected_witness:
  "group_rows 1 (portal_serve example_cfg (\<lambda>k. True) example_ev (Token ''alice'' ''x'') (PBindHosts (Some [''web2'']) 1) example_db example_portal) =
    [\<lparr>gh_GrpID = 1, gh_HostID = 1\<rparr>]"
proof -
  have g: "example_group \<in> set (t_grp example_portal)" by (simp add: example_portal_def)
  have no: "\<not> IsAdmin example_cfg (whoami example_cfg (ok example_ev 0) (Token ''alice'' ''x'') example_db)"
    "hg_CreateUser example_group \<noteq> us_Name (whoami example_cfg (ok example_ev 0) (Token ''alice'' ''x'') example_db)"
    by (simp_all add: not_admin_alice) (simp add: whoami_alice example_user_def zero_user_def portal_defs)
  from group_members_protected [OF portal_inv_example g no, of "\<lambda>k. True" "PBindHosts (Some [''web2'']) 1"]
  show ?thesis by (simp add: group_rows_def portal_defs)
qed

lemma DeleteTemplate_clean_witness:
  "t_strategy (fst (DeleteTemplate (example_ev\<lparr>ok := \<lambda>k. k \<noteq> 5\<rparr>) ''1'' example_portal)) = [example_strategy]"
proof -
  have t: "tp_ID example_tpl = 1" "example_tpl \<in> set (t_tpl example_portal)" by (simp_all add: portal_defs)
  have s: "atoi ''1'' = Inr 1" by (simp add: parse_int_def split_sign_def digit_val_def Let_def)
  from DeleteTemplate_clean [OF portal_inv_example t s, of "example_ev\<lparr>ok := \<lambda>k. k \<noteq> 5\<rparr>"]
  show ?thesis by (simp add: example_portal_def)
qed

lemma zero_deletes_all_witness:
  "t_strategy (fst (DeleteStrategy example_ev ''0'' example_portal)) = []"
proof -
  have z: "atoi ''0'' = Inr 0" by (simp add: parse_int_def split_sign_def digit_val_def Let_def)
  have adm: "IsAdmin example_cfg (whoami example_cfg True (Token ''root'' ''x'') example_db)"
    by (simp add: whoami_root admin_root)
  from zero_deletes_all [OF z _ _ _ _ _ adm, of example_ev example_portal] show ?thesis by simp
qed

lemma deleted_expression_action_witness:
  "t_action (fst (DeleteExpression example_cfg example_ev (Token ''alice'' ''x'') ''1'' example_db example_portal)) = [example_action]"
proof -
  have e: "example_expression \<in> set (t_expression example_portal)" by (simp add: example_portal_def)
  have s: "atoi ''1'' = Inr (xp_ID example_expression)"
    by (simp add: parse_int_def split_sign_def digit_val_def Let_def portal_defs)
  have w: "us_Name (whoami example_cfg True (Token ''alice'' ''x'') example_db) = xp_CreateUser example_expression"
    "\<not> IsAdmin example_cfg (whoami example_cfg True (Token ''alice'' ''x'') example_db)"
    by (simp_all add: not_admin_alice) (simp add: whoami_alice example_user_def portal_defs)
  from deleted_expression_action [OF portal_inv_example e s _ _ _ _ _ _ w(1), of example_ev] w(2)
  show ?thesis by (simp add: portal_defs)
qed

section \<open>What the heartbeat server makes of it\<close>

lemmas rx_run = rx_match_def validOp_def validRightValue_def validDigits_def ROpt_def RLit_def RPlus_def is_digit_def digit_val_def

lemma accepted_expression_stops_hbs_witness:
  "cache_Init (hbs_queries (\<lambda>a b. False) ''12:00'' 1500000000
    (fst (CreateExrpession example_cfg example_ev (Token ''alice'' ''x'') example_unclosed example_db example_portal))) init_hbs = None"
proof -
  have i: "bind_expression example_unclosed" "length (ei_RightValue example_unclosed) \<le> 300" "ei_Pause example_unclosed = 0"
    "CHR '')'' \<notin> set (ei_Expression example_unclosed)"
    by (simp_all add: bind_expression_def example_unclosed_def)
  have c: "CheckFormat_expression example_unclosed = None" by (simp add: CheckFormat_expression_def example_unclosed_def rx_run)
  from accepted_expression_stops_hbs [OF portal_inv_example ok_example ok_example ok_example ok_example i(1) c i(2-4)]
  show ?thesis by (metis fst_conv)
qed

lemma get_root: "GetUser example_cfg True example_db (Token ''root'' ''x'') = Inr (example_user 1 ''root'' 2)"
  using example_root by (simp add: requester_def GetUser_def split: sum.splits prod.splits option.splits)

lemma own_parent_silences_witness:
  "ParentIds (templates_of (fst (UpdateTemplate example_cfg example_ev (Token ''root'' ''x'') 1 ''base'' 1 example_db example_portal))) 1 = []"
proof -
  obtain db' msg where r: "UpdateTemplate example_cfg example_ev (Token ''root'' ''x'') 1 ''base'' 1 example_db example_portal = (db', RespOK msg)"
    using example_root
    by (simp add: UpdateTemplate_def get_root admin_root found_def find_key_def find_last_def name_taken_def example_portal_def example_tpl_def)
  from own_parent_silences [OF portal_inv_example r] r show ?thesis by simp
qed

lemma configured_strategy_served_witness:
  "\<exists>st' resp. cache_Init (hbs_queries (\<lambda>a b. False) ''12:00'' 1500000000 example_portal) init_hbs = Some st' \<and>
    hbs_GetStrategies rev st' = Some resp \<and>
    (\<exists>e\<in>set resp. hs_Hostname e = ''web1'' \<and> (\<exists>r\<in>set (hs_Strategies e). st_Id r = 1 \<and> st_Metric r = ''cpu.idle''))"
proof -
  let ?q = "hbs_queries (\<lambda>a b. False) ''12:00'' 1500000000 example_portal"
  have "\<not> Option.is_none (cache_Init ?q init_hbs)" by code_simp
  then have "cache_Init ?q init_hbs \<noteq> None" by (auto simp: Option.is_none_def)
  then obtain st' where reload: "cache_Init ?q init_hbs = Some st'" by blast
  have h: "example_host \<in> set (t_host example_portal)" "host_monitored 1500000000 example_host" "bound_to example_portal example_host example_tpl"
    "distinct (tids_of (ph_ID example_host) example_portal)"
    by (simp_all add: host_monitored_def bound_to_def tids_of_def host_templates_def portal_defs)
  have g: "gget (templates_of example_portal) 1 = Some (template_of example_tpl)"
    using templates_of_lookup [OF portal_inv_example, of example_tpl] by (simp add: portal_defs)
  have "chain (templates_of example_portal) 0 []" by (rule chain_stop) simp
  then have t: "example_tpl \<in> set (t_tpl example_portal)" "chain (templates_of example_portal) (tp_ID example_tpl) [1]"
    using chain_step [OF _ g, of "[]"] by (simp_all add: template_of_def portal_defs)
  have s: "example_strategy \<in> set (t_strategy example_portal)" "sg_TplId example_strategy = tp_ID example_tpl"
    "strategy_active (\<lambda>a b. False) ''12:00'' example_strategy" "length (sg_RightValue example_strategy) \<le> 300"
    "list_all (\<lambda>s'. sg_TplId s' = tp_ID example_tpl \<or> row_key s' \<noteq> row_key example_strategy) (t_strategy example_portal)"
    by (simp_all add: strategy_active_def portal_defs)
  have "rx_match validRightValue (sg_RightValue example_strategy)" by (simp add: rx_run example_strategy_def)
  then have v: "sg_RightValue example_strategy \<in> lang validRightValue" by (simp only: rx_match_lang)
  from configured_strategy_served [OF permutes_rev portal_inv_example reload h t _ s(1-3) v s(4,5)]
  obtain resp e r where "hbs_GetStrategies rev st' = Some resp" "e \<in> set resp" "hs_Hostname e = ph_Hostname example_host"
    "r \<in> set (hs_Strategies e)" "st_Id r = sg_ID example_strategy" "st_Metric r = sg_Metric example_strategy" by auto
  with reload show ?thesis by (auto simp: example_host_def example_strategy_def)
qed

end
