(* ===== verification/Agent_Funcs.thy ===== *)
theory Agent_Funcs
  imports Utils Model
begin

text \<open>
  What the agent measures (\<open>modules/agent/funcs\<close>): from readings of the operating system to points.
  A reading is an argument, the error of a failed one is \<open>None\<close>; the readings of the last two
  seconds that rates are computed from are the state. Counters of the kernel are 64-bit words, whose
  differences wrap; a floating-point value of Go is one of \<open>Go_Float\<close>.
\<close>

section \<open>Points\<close>

definition NewMetricValue :: "string \<Rightarrow> iface \<Rightarrow> string \<Rightarrow> string list \<Rightarrow> metric_value" where
  "NewMetricValue metric val dataType tags =
    \<lparr>mv_Endpoint = '''', mv_Metric = metric, mv_Value = val, mv_Step = 0, mv_Type = dataType,
     mv_Tags = go_join '','' tags, mv_Timestamp = 0\<rparr>"

definition GaugeValue :: "string \<Rightarrow> iface \<Rightarrow> string list \<Rightarrow> metric_value" where
  "GaugeValue metric val tags = NewMetricValue metric val ''GAUGE'' tags"

definition CounterValue :: "string \<Rightarrow> iface \<Rightarrow> string list \<Rightarrow> metric_value" where
  "CounterValue metric val tags = NewMetricValue metric val ''COUNTER'' tags"

definition f_uint :: "64 word \<Rightarrow> float64" where "f_uint w = f_of_int (uint w)"

definition VUint :: "64 word \<Rightarrow> iface" where "VUint w = VInt (uint w)"

definition AgentMetrics :: "metric_value list" where
  "AgentMetrics = [GaugeValue ''agent.alive'' (VInt 1) []]"

section \<open>Processor\<close>

record cpu_usage =
  cu_User :: "64 word"
  cu_Nice :: "64 word"
  cu_System :: "64 word"
  cu_Idle :: "64 word"
  cu_Iowait :: "64 word"
  cu_Irq :: "64 word"
  cu_SoftIrq :: "64 word"
  cu_Steal :: "64 word"
  cu_Guest :: "64 word"
  cu_Total :: "64 word"

text \<open>The line of all processors may be missing from the kernel's answer.\<close>

record proc_stat =
  ps_Cpu :: "cpu_usage option"
  ps_Ctxt :: "64 word"

text \<open>The newest reading and the one before it.\<close>

type_synonym cpu_history = "proc_stat option \<times> proc_stat option"

definition UpdateCpuStat :: "proc_stat option \<Rightarrow> cpu_history \<Rightarrow> cpu_history" where
  "UpdateCpuStat reading h = (case reading of None \<Rightarrow> h | Some ps \<Rightarrow> (Some ps, fst h))"

definition cpu_delta :: "(cpu_usage \<Rightarrow> 64 word) \<Rightarrow> cpu_history \<Rightarrow> 64 word option" where
  "cpu_delta f h = do {
    p0 \<leftarrow> fst h;
    p1 \<leftarrow> snd h;
    c0 \<leftarrow> ps_Cpu p0;
    c1 \<leftarrow> ps_Cpu p1;
    Some (f c0 - f c1)
  }"

definition deltaTotal :: "cpu_history \<Rightarrow> 64 word option" where
  "deltaTotal h = (if snd h = None then Some 0 else cpu_delta cu_Total h)"

text \<open>The share of one mode in the ticks between the readings, in percent.\<close>

definition cpu_percent :: "(cpu_usage \<Rightarrow> 64 word) \<Rightarrow> cpu_history \<Rightarrow> float64 option" where
  "cpu_percent f h = do {
    dt \<leftarrow> deltaTotal h;
    (if dt = 0 then Some f_zero
     else do {
       d \<leftarrow> cpu_delta f h;
       Some (f_mul (f_uint d) (f_div (f_of_int 100) (f_uint dt)))
     })
  }"

definition CpuIdle :: "cpu_history \<Rightarrow> float64 option" where "CpuIdle = cpu_percent cu_Idle"
definition CpuUser :: "cpu_history \<Rightarrow> float64 option" where "CpuUser = cpu_percent cu_User"
definition CpuNice :: "cpu_history \<Rightarrow> float64 option" where "CpuNice = cpu_percent cu_Nice"
definition CpuSystem :: "cpu_history \<Rightarrow> float64 option" where "CpuSystem = cpu_percent cu_System"
definition CpuIowait :: "cpu_history \<Rightarrow> float64 option" where "CpuIowait = cpu_percent cu_Iowait"
definition CpuIrq :: "cpu_history \<Rightarrow> float64 option" where "CpuIrq = cpu_percent cu_Irq"
definition CpuSoftIrq :: "cpu_history \<Rightarrow> float64 option" where "CpuSoftIrq = cpu_percent cu_SoftIrq"
definition CpuSteal :: "cpu_history \<Rightarrow> float64 option" where "CpuSteal = cpu_percent cu_Steal"
definition CpuGuest :: "cpu_history \<Rightarrow> float64 option" where "CpuGuest = cpu_percent cu_Guest"

definition CurrentCpuSwitches :: "cpu_history \<Rightarrow> 64 word option" where
  "CurrentCpuSwitches h = map_option ps_Ctxt (fst h)"

definition CpuPrepared :: "cpu_history \<Rightarrow> bool" where "CpuPrepared h \<longleftrightarrow> snd h \<noteq> None"

definition CpuMetrics :: "cpu_history \<Rightarrow> metric_value list option" where
  "CpuMetrics h =
    (if \<not> CpuPrepared h then Some []
     else do {
       cpuIdleVal \<leftarrow> CpuIdle h;
       user \<leftarrow> CpuUser h;
       nice \<leftarrow> CpuNice h;
       sys \<leftarrow> CpuSystem h;
       iowait \<leftarrow> CpuIowait h;
       irq \<leftarrow> CpuIrq h;
       softirq \<leftarrow> CpuSoftIrq h;
       steal \<leftarrow> CpuSteal h;
       guest \<leftarrow> CpuGuest h;
       switches \<leftarrow> CurrentCpuSwitches h;
       Some [GaugeValue ''cpu.idle'' (VFloat cpuIdleVal) [],
         GaugeValue ''cpu.busy'' (VFloat (f_sub (f_of_int 100) cpuIdleVal)) [],
         GaugeValue ''cpu.user'' (VFloat user) [], GaugeValue ''cpu.nice'' (VFloat nice) [],
         GaugeValue ''cpu.system'' (VFloat sys) [], GaugeValue ''cpu.iowait'' (VFloat iowait) [],
         GaugeValue ''cpu.irq'' (VFloat irq) [], GaugeValue ''cpu.softirq'' (VFloat softirq) [],
         GaugeValue ''cpu.steal'' (VFloat steal) [], GaugeValue ''cpu.guest'' (VFloat guest) [],
         CounterValue ''cpu.switches'' (VUint switches) []]
     })"

section \<open>Disks\<close>

record disk_stats =
  ds_Device :: string
  ds_ReadRequests :: "64 word"
  ds_ReadMerged :: "64 word"
  ds_ReadSectors :: "64 word"
  ds_MsecRead :: "64 word"
  ds_WriteRequests :: "64 word"
  ds_WriteMerged :: "64 word"
  ds_WriteSectors :: "64 word"
  ds_MsecWrite :: "64 word"
  ds_IosInProgress :: "64 word"
  ds_MsecTotal :: "64 word"
  ds_MsecWeightedTotal :: "64 word"
  ds_TS :: int64

type_synonym disk_map = "(string, disk_stats \<times> disk_stats option) gomap"

definition disk_step :: "disk_map \<Rightarrow> disk_stats \<Rightarrow> disk_map" where
  "disk_step m ds = gput (ds_Device ds) (ds, map_option fst (gget m (ds_Device ds))) m"

definition UpdateDiskStats :: "disk_stats list option \<Rightarrow> disk_map \<Rightarrow> disk_map" where
  "UpdateDiskStats dsList m = (case dsList of None \<Rightarrow> m | Some ds \<Rightarrow> foldl disk_step m ds)"

definition IODelta :: "disk_map \<Rightarrow> string \<Rightarrow> (disk_stats \<times> disk_stats \<Rightarrow> 64 word) \<Rightarrow> 64 word" where
  "IODelta m device f = (case gget m device of Some (s0, Some s1) \<Rightarrow> f (s0, s1) | _ \<Rightarrow> 0)"

definition IOReadRequests :: "disk_stats \<times> disk_stats \<Rightarrow> 64 word" where
  "IOReadRequests arr = ds_ReadRequests (fst arr) - ds_ReadRequests (snd arr)"
definition IOReadMerged :: "disk_stats \<times> disk_stats \<Rightarrow> 64 word" where
  "IOReadMerged arr = ds_ReadMerged (fst arr) - ds_ReadMerged (snd arr)"
definition IOReadSectors :: "disk_stats \<times> disk_stats \<Rightarrow> 64 word" where
  "IOReadSectors arr = ds_ReadSectors (fst arr) - ds_ReadSectors (snd arr)"
definition IOMsecRead :: "disk_stats \<times> disk_stats \<Rightarrow> 64 word" where
  "IOMsecRead arr = ds_MsecRead (fst arr) - ds_MsecRead (snd arr)"
definition IOWriteRequests :: "disk_stats \<times> disk_stats \<Rightarrow> 64 word" where
  "IOWriteRequests arr = ds_WriteRequests (fst arr) - ds_WriteRequests (snd arr)"
definition IOWriteMerged :: "disk_stats \<times> disk_stats \<Rightarrow> 64 word" where
  "IOWriteMerged arr = ds_WriteMerged (fst arr) - ds_WriteMerged (snd arr)"
definition IOWriteSectors :: "disk_stats \<times> disk_stats \<Rightarrow> 64 word" where
  "IOWriteSectors arr = ds_WriteSectors (fst arr) - ds_WriteSectors (snd arr)"
definition IOMsecWrite :: "disk_stats \<times> disk_stats \<Rightarrow> 64 word" where
  "IOMsecWrite arr = ds_MsecWrite (fst arr) - ds_MsecWrite (snd arr)"
definition IOMsecTotal :: "disk_stats \<times> disk_stats \<Rightarrow> 64 word" where
  "IOMsecTotal arr = ds_MsecTotal (fst arr) - ds_MsecTotal (snd arr)"
definition IOMsecWeightedTotal :: "disk_stats \<times> disk_stats \<Rightarrow> 64 word" where
  "IOMsecWeightedTotal arr = ds_MsecWeightedTotal (fst arr) - ds_MsecWeightedTotal (snd arr)"

text \<open>Milliseconds between the readings; the times are nanoseconds.\<close>

definition TS :: "disk_stats \<times> disk_stats \<Rightarrow> 64 word" where
  "TS arr = word_of_int ((ds_TS (fst arr) - ds_TS (snd arr)) sdiv 1000000)"

definition ShouldHandleDevice :: "string \<Rightarrow> bool" where
  "ShouldHandleDevice device \<longleftrightarrow>
    length device = 3 \<and> (go_has_prefix device ''sd'' \<or> go_has_prefix device ''vd'') \<or>
    4 \<le> length device \<and> go_has_prefix device ''xvd''"

definition DiskIOMetrics :: "disk_stats list option \<Rightarrow> metric_value list" where
  "DiskIOMetrics dsList =
    (case dsList of None \<Rightarrow> []
     | Some dss \<Rightarrow> concat (map (\<lambda>ds. let tags = [''device='' @ ds_Device ds] in
         [CounterValue ''disk.io.read_requests'' (VUint (ds_ReadRequests ds)) tags,
          CounterValue ''disk.io.read_merged'' (VUint (ds_ReadMerged ds)) tags,
          CounterValue ''disk.io.read_sectors'' (VUint (ds_ReadSectors ds)) tags,
          CounterValue ''disk.io.msec_read'' (VUint (ds_MsecRead ds)) tags,
          CounterValue ''disk.io.write_requests'' (VUint (ds_WriteRequests ds)) tags,
          CounterValue ''disk.io.write_merged'' (VUint (ds_WriteMerged ds)) tags,
          CounterValue ''disk.io.write_sectors'' (VUint (ds_WriteSectors ds)) tags,
          CounterValue ''disk.io.msec_write'' (VUint (ds_MsecWrite ds)) tags,
          CounterValue ''disk.io.ios_in_progress'' (VUint (ds_IosInProgress ds)) tags,
          CounterValue ''disk.io.msec_total'' (VUint (ds_MsecTotal ds)) tags,
          CounterValue ''disk.io.msec_weighted_total'' (VUint (ds_MsecWeightedTotal ds)) tags])
        (filter (\<lambda>ds. ShouldHandleDevice (ds_Device ds)) dss)))"

text \<open>Quotients by the number of requests, zero when there were none.\<close>

definition per_request :: "64 word \<Rightarrow> 64 word \<Rightarrow> float64" where
  "per_request x n_io = (if n_io = 0 then f_zero else f_div (f_uint x) (f_uint n_io))"

definition disk_util :: "64 word \<Rightarrow> 64 word \<Rightarrow> float64" where
  "disk_util use duration =
    (let tmp = f_div (f_mul (f_uint use) (f_of_int 100)) (f_uint duration)
     in if f_lt (f_of_int 100) tmp then f_of_int 100 else tmp)"

definition device_stats :: "disk_map \<Rightarrow> string \<Rightarrow> metric_value list" where
  "device_stats m device =
    (let tags = [''device='' @ device];
         rio = IODelta m device IOReadRequests;
         wio = IODelta m device IOWriteRequests;
         delta_rsec = IODelta m device IOReadSectors;
         delta_wsec = IODelta m device IOWriteSectors;
         ruse = IODelta m device IOMsecRead;
         wuse = IODelta m device IOMsecWrite;
         use = IODelta m device IOMsecTotal;
         n_io = rio + wio;
         duration = IODelta m device TS
     in [GaugeValue ''disk.io.read_bytes'' (VFloat (f_mul (f_uint delta_rsec) (f_of_int 512))) tags,
         GaugeValue ''disk.io.write_bytes'' (VFloat (f_mul (f_uint delta_wsec) (f_of_int 512))) tags,
         GaugeValue ''disk.io.avgrq_sz'' (VFloat (per_request (delta_rsec + delta_wsec) n_io)) tags,
         GaugeValue ''disk.io.avgqu-sz'' (VFloat (f_div (f_uint (IODelta m device IOMsecWeightedTotal)) (f_of_int 1000))) tags,
         GaugeValue ''disk.io.await'' (VFloat (per_request (ruse + wuse) n_io)) tags,
         GaugeValue ''disk.io.svctm'' (VFloat (per_request use n_io)) tags,
         GaugeValue ''disk.io.util'' (VFloat (disk_util use duration)) tags])"

definition IOStatsMetrics :: "disk_map \<Rightarrow> metric_value list" where
  "IOStatsMetrics m = concat (map (device_stats m) (filter ShouldHandleDevice (map fst m)))"

definition IOStatsForPage :: "disk_map \<Rightarrow> string list list" where
  "IOStatsForPage m =
    map (\<lambda>device.
      let rio = IODelta m device IOReadRequests;
          wio = IODelta m device IOWriteRequests;
          delta_rsec = IODelta m device IOReadSectors;
          delta_wsec = IODelta m device IOWriteSectors;
          ruse = IODelta m device IOMsecRead;
          wuse = IODelta m device IOMsecWrite;
          use = IODelta m device IOMsecTotal;
          n_io = rio + wio
      in [device, itoa (uint (IODelta m device IOReadMerged)), itoa (uint (IODelta m device IOWriteMerged)),
          itoa (uint rio), itoa (uint wio), format_f 2 (f_div (f_uint delta_rsec) (f_of_int 2)),
          format_f 2 (f_div (f_uint delta_wsec) (f_of_int 2)), format_f 2 (per_request (delta_rsec + delta_wsec) n_io),
          format_f 2 (f_div (f_uint (IODelta m device IOMsecWeightedTotal)) (f_of_int 1000)),
          format_f 2 (per_request (ruse + wuse) n_io), format_f 2 (per_request use n_io),
          format_f 2 (f_div (f_uint use) (f_of_int 10)) @ ''%''])
      (filter ShouldHandleDevice (map fst m))"

section \<open>Network interfaces\<close>

record net_if =
  nf_Iface :: string
  nf_InBytes :: int64
  nf_InPackages :: int64
  nf_InErrors :: int64
  nf_InDropped :: int64
  nf_InFifoErrs :: int64
  nf_InFrameErrs :: int64
  nf_InCompressed :: int64
  nf_InMulticast :: int64
  nf_OutBytes :: int64
  nf_OutPackages :: int64
  nf_OutErrors :: int64
  nf_OutDropped :: int64
  nf_OutFifoErrs :: int64
  nf_OutCollisions :: int64
  nf_OutCarrierErrs :: int64
  nf_OutCompressed :: int64
  nf_TotalBytes :: int64
  nf_TotalPackages :: int64
  nf_TotalErrors :: int64
  nf_TotalDropped :: int64
  nf_SpeedBits :: int64
  nf_InPercent :: float64
  nf_OutPercent :: float64

definition CoreNetMetrics :: "net_if list option \<Rightarrow> metric_value list" where
  "CoreNetMetrics netIfs =
    (case netIfs of None \<Rightarrow> []
     | Some nis \<Rightarrow> concat (map (\<lambda>netIf. let iface = [''iface='' @ nf_Iface netIf] in
         [CounterValue ''net.if.in.bytes'' (VInt (nf_InBytes netIf)) iface,
          CounterValue ''net.if.in.packets'' (VInt (nf_InPackages netIf)) iface,
          CounterValue ''net.if.in.errors'' (VInt (nf_InErrors netIf)) iface,
          CounterValue ''net.if.in.dropped'' (VInt (nf_InDropped netIf)) iface,
          CounterValue ''net.if.in.fifo.errs'' (VInt (nf_InFifoErrs netIf)) iface,
          CounterValue ''net.if.in.frame.errs'' (VInt (nf_InFrameErrs netIf)) iface,
          CounterValue ''net.if.in.compressed'' (VInt (nf_InCompressed netIf)) iface,
          CounterValue ''net.if.in.multicast'' (VInt (nf_InMulticast netIf)) iface,
          CounterValue ''net.if.out.bytes'' (VInt (nf_OutBytes netIf)) iface,
          CounterValue ''net.if.out.packets'' (VInt (nf_OutPackages netIf)) iface,
          CounterValue ''net.if.out.errors'' (VInt (nf_OutErrors netIf)) iface,
          CounterValue ''net.if.out.dropped'' (VInt (nf_OutDropped netIf)) iface,
          CounterValue ''net.if.out.fifo.errs'' (VInt (nf_OutFifoErrs netIf)) iface,
          CounterValue ''net.if.out.collisions'' (VInt (nf_OutCollisions netIf)) iface,
          CounterValue ''net.if.out.carrier.errs'' (VInt (nf_OutCarrierErrs netIf)) iface,
          CounterValue ''net.if.out.compressed'' (VInt (nf_OutCompressed netIf)) iface,
          CounterValue ''net.if.total.bytes'' (VInt (nf_TotalBytes netIf)) iface,
          CounterValue ''net.if.total.packets'' (VInt (nf_TotalPackages netIf)) iface,
          CounterValue ''net.if.total.errors'' (VInt (nf_TotalErrors netIf)) iface,
          CounterValue ''net.if.total.dropped'' (VInt (nf_TotalDropped netIf)) iface,
          GaugeValue ''net.if.speed.bits'' (VInt (nf_SpeedBits netIf)) iface,
          CounterValue ''net.if.in.percent'' (VFloat (nf_InPercent netIf)) iface,
          CounterValue ''net.if.out.percent'' (VFloat (nf_OutPercent netIf)) iface]) nis))"

section \<open>Kernel, load, memory, protocol counters\<close>

text \<open>Three readings, each of which may fail and end the list.\<close>

definition KernelMetrics :: "64 word option \<Rightarrow> 64 word option \<Rightarrow> 64 word option \<Rightarrow> metric_value list" where
  "KernelMetrics maxFiles maxProc allocateFiles =
    (case maxFiles of None \<Rightarrow> []
     | Some mf \<Rightarrow> GaugeValue ''kernel.maxfiles'' (VUint mf) [] #
        (case maxProc of None \<Rightarrow> []
         | Some mp \<Rightarrow> GaugeValue ''kernel.maxproc'' (VUint mp) [] #
            (case allocateFiles of None \<Rightarrow> []
             | Some af \<Rightarrow> [GaugeValue ''kernel.files.allocated'' (VUint af) [],
                 GaugeValue ''kernel.files.left'' (VUint (mf - af)) []])))"

definition LoadAvgMetrics :: "(float64 \<times> float64 \<times> float64) option \<Rightarrow> metric_value list" where
  "LoadAvgMetrics load =
    (case load of None \<Rightarrow> []
     | Some (a1, a5, a15) \<Rightarrow> [GaugeValue ''load.1min'' (VFloat a1) [], GaugeValue ''load.5min'' (VFloat a5) [],
         GaugeValue ''load.15min'' (VFloat a15) []])"

record mem_info =
  me_Buffers :: "64 word"
  me_Cached :: "64 word"
  me_MemTotal :: "64 word"
  me_MemFree :: "64 word"
  me_SwapTotal :: "64 word"
  me_SwapUsed :: "64 word"
  me_SwapFree :: "64 word"

definition percent_of :: "64 word \<Rightarrow> 64 word \<Rightarrow> float64" where
  "percent_of x tot = (if tot = 0 then f_zero else f_div (f_mul (f_uint x) (f_of_int 100)) (f_uint tot))"

definition MemMetrics :: "mem_info option \<Rightarrow> metric_value list" where
  "MemMetrics reading =
    (case reading of None \<Rightarrow> []
     | Some m \<Rightarrow>
        (let memFree = me_MemFree m + me_Buffers m + me_Cached m;
             memUsed = me_MemTotal m - memFree
         in [GaugeValue ''mem.memtotal'' (VUint (me_MemTotal m)) [], GaugeValue ''mem.memused'' (VUint memUsed) [],
             GaugeValue ''mem.memfree'' (VUint memFree) [], GaugeValue ''mem.swaptotal'' (VUint (me_SwapTotal m)) [],
             GaugeValue ''mem.swapused'' (VUint (me_SwapUsed m)) [], GaugeValue ''mem.swapfree'' (VUint (me_SwapFree m)) [],
             GaugeValue ''mem.memfree.percent'' (VFloat (percent_of memFree (me_MemTotal m))) [],
             GaugeValue ''mem.memused.percent'' (VFloat (percent_of memUsed (me_MemTotal m))) [],
             GaugeValue ''mem.swapfree.percent'' (VFloat (percent_of (me_SwapFree m) (me_SwapTotal m))) [],
             GaugeValue ''mem.swapused.percent'' (VFloat (percent_of (me_SwapUsed m) (me_SwapTotal m))) []]))"

definition USES :: "string list" where
  "USES = [''PruneCalled'', ''LockDroppedIcmps'', ''ArpFilter'', ''TW'', ''DelayedACKLocked'', ''ListenOverflows'',
    ''ListenDrops'', ''TCPPrequeueDropped'', ''TCPTSReorder'', ''TCPDSACKUndo'', ''TCPLoss'', ''TCPLostRetransmit'',
    ''TCPLossFailures'', ''TCPFastRetrans'', ''TCPTimeouts'', ''TCPSchedulerFailed'', ''TCPAbortOnMemory'',
    ''TCPAbortOnTimeout'', ''TCPAbortFailed'', ''TCPMemoryPressures'', ''TCPSpuriousRTOs'', ''TCPBacklogDrop'',
    ''TCPMinTTLDrop'']"

definition NetstatMetrics :: "(string, 64 word) gomap option \<Rightarrow> metric_value list" where
  "NetstatMetrics tcpExts =
    (case tcpExts of None \<Rightarrow> []
     | Some m \<Rightarrow> map (\<lambda>(key, val). CounterValue (''TcpExt.'' @ key) (VUint val) []) (filter (\<lambda>(key, val). key \<in> set USES) m))"

definition UdpMetrics :: "(string, int64) gomap option \<Rightarrow> metric_value list" where
  "UdpMetrics udp =
    (case udp of None \<Rightarrow> [] | Some m \<Rightarrow> map (\<lambda>(key, val). CounterValue (''snmp.Udp.'' @ key) (VInt val) []) m)"

definition SocketStatSummaryMetrics :: "(string, 64 word) gomap option \<Rightarrow> metric_value list" where
  "SocketStatSummaryMetrics ss =
    (case ss of None \<Rightarrow> [] | Some m \<Rightarrow> map (\<lambda>(k, v). GaugeValue (''ss.'' @ k) (VUint v) []) m)"

section \<open>File systems\<close>

record device_usage =
  du_FsFile :: string
  du_FsVfstype :: string
  du_BlocksAll :: "64 word"
  du_BlocksUsed :: "64 word"
  du_BlocksFree :: "64 word"
  du_BlocksUsedPercent :: float64
  du_BlocksFreePercent :: float64
  du_InodesAll :: "64 word"
  du_InodesUsed :: "64 word"
  du_InodesFree :: "64 word"
  du_InodesUsedPercent :: float64
  du_InodesFreePercent :: float64

definition usage_points :: "device_usage \<Rightarrow> metric_value list" where
  "usage_points du =
    (let tags = [''mount='' @ du_FsFile du @ '',fstype='' @ du_FsVfstype du]
     in [GaugeValue ''df.bytes.total'' (VUint (du_BlocksAll du)) tags, GaugeValue ''df.bytes.used'' (VUint (du_BlocksUsed du)) tags,
         GaugeValue ''df.bytes.free'' (VUint (du_BlocksFree du)) tags,
         GaugeValue ''df.bytes.used.percent'' (VFloat (du_BlocksUsedPercent du)) tags,
         GaugeValue ''df.bytes.free.percent'' (VFloat (du_BlocksFreePercent du)) tags,
         GaugeValue ''df.inodes.total'' (VUint (du_InodesAll du)) tags, GaugeValue ''df.inodes.used'' (VUint (du_InodesUsed du)) tags,
         GaugeValue ''df.inodes.free'' (VUint (du_InodesFree du)) tags,
         GaugeValue ''df.inodes.used.percent'' (VFloat (du_InodesUsedPercent du)) tags,
         GaugeValue ''df.inodes.free.percent'' (VFloat (du_InodesFreePercent du)) tags])"

text \<open>
  The mount points with their devices and types; \<open>usage\<close> is \<open>BuildDeviceUsage\<close>. Without configured
  mount points all are taken.
\<close>

definition DeviceMetrics ::
    "string list \<Rightarrow> (string \<times> string \<times> string) list option \<Rightarrow> (string \<times> string \<times> string \<Rightarrow> device_usage option) \<Rightarrow> metric_value list" where
  "DeviceMetrics configured mountPoints usage =
    (case mountPoints of None \<Rightarrow> []
     | Some mps \<Rightarrow>
        (let wanted = filter (\<lambda>(fsSpec, fsFile, fsVfstype). configured = [] \<or> fsFile \<in> set configured) mps;
             dus = filter (\<lambda>du. du_BlocksAll du \<noteq> 0) (List.map_filter usage wanted);
             diskTotal = sum_list (map du_BlocksAll dus);
             diskUsed = sum_list (map du_BlocksUsed dus);
             L = concat (map usage_points dus)
         in if L \<noteq> [] \<and> 0 < diskTotal
            then L @ [GaugeValue ''df.statistics.total'' (VFloat (f_uint diskTotal)) [],
              GaugeValue ''df.statistics.used'' (VFloat (f_uint diskUsed)) [],
              GaugeValue ''df.statistics.used.percent'' (VFloat (f_div (f_mul (f_uint diskUsed) (f_of_int 100)) (f_uint diskTotal))) []]
            else L))"

definition DeviceMetricsCheck :: "(string \<times> string \<times> string) list option \<Rightarrow> bool" where
  "DeviceMetricsCheck mountPoints \<longleftrightarrow> (case mountPoints of None \<Rightarrow> False | Some mps \<Rightarrow> mps \<noteq> [])"

section \<open>What users asked to be checked\<close>

definition URL_CHECK_HEALTH :: string where "URL_CHECK_HEALTH = ''url.check.health''"
definition NET_PORT_LISTEN :: string where "NET_PORT_LISTEN = ''net.port.listen''"
definition DU_BS :: string where "DU_BS = ''du.bs''"
definition PROC_NUM :: string where "PROC_NUM = ''proc.num''"

definition PortMetrics :: "int64 list \<Rightarrow> int64 list option \<Rightarrow> int64 list option \<Rightarrow> metric_value list" where
  "PortMetrics reportPorts tcp udp =
    (if reportPorts = [] then []
     else case (tcp, udp) of
       (Some allTcpPorts, Some allUdpPorts) \<Rightarrow>
         map (\<lambda>p. GaugeValue NET_PORT_LISTEN (VInt (if p \<in> set allTcpPorts \<or> p \<in> set allUdpPorts then 1 else 0))
           [''port='' @ itoa p]) reportPorts
     | _ \<Rightarrow> [])"

text \<open>A process by name and command line; \<open>name\<close> and \<open>cmdline\<close> of a check may both be missing.\<close>

type_synonym proc_check = "string option \<times> string option"

definition is_a :: "string \<times> string \<Rightarrow> proc_check \<Rightarrow> bool" where
  "is_a p m \<longleftrightarrow>
    (case fst m of None \<Rightarrow> True | Some val \<Rightarrow> val = fst p) \<and>
    (case snd m of None \<Rightarrow> True | Some val \<Rightarrow> go_contains (snd p) val)"

definition ProcMetrics :: "(string, proc_check) gomap \<Rightarrow> (string \<times> string) list option \<Rightarrow> metric_value list" where
  "ProcMetrics reportProcs reading =
    (if reportProcs = [] then []
     else case reading of None \<Rightarrow> []
     | Some ps \<Rightarrow> map (\<lambda>(tags, m). GaugeValue PROC_NUM (VInt (int (length (filter (\<lambda>p. is_a p m) ps)))) [tags]) reportProcs)"

text \<open>The answer of \<open>curl\<close>: its first line, when it ran and the line could be read.\<close>

definition probeUrl :: "string option \<Rightarrow> bool" where
  "probeUrl retcode \<longleftrightarrow> (case retcode of None \<Rightarrow> False | Some s \<Rightarrow> go_trim_space s = ''200'')"

definition UrlMetrics :: "(string, string) gomap \<Rightarrow> string option \<Rightarrow> (string \<Rightarrow> string \<Rightarrow> string option) \<Rightarrow> metric_value list" where
  "UrlMetrics reportUrls hostname curl =
    map (\<lambda>(furl, timeout). GaugeValue URL_CHECK_HEALTH (VInt (if probeUrl (curl furl timeout) then 1 else 0))
      [''url='' @ furl @ '',timeout='' @ timeout @ '',src='' @ (case hostname of None \<Rightarrow> ''None'' | Some h \<Rightarrow> h)]) reportUrls"

definition parse_uint64 :: "string \<Rightarrow> int option" where
  "parse_uint64 s =
    (if s = [] then None
     else case digits_val 0 s of None \<Rightarrow> None | Some v \<Rightarrow> if v < 2 ^ 64 then Some v else None)"

text \<open>
  \<open>out\<close> is the output of \<open>du\<close> for a path. Of an output with no field at all the first field does not
  exist: the panic is \<open>None\<close>.
\<close>

definition du_point :: "string \<Rightarrow> string option \<Rightarrow> metric_value list option" where
  "du_point path out =
    (case out of None \<Rightarrow> Some []
     | Some s \<Rightarrow>
        (case go_fields s of
           [] \<Rightarrow> None
         | [x] \<Rightarrow> Some []
         | x # y # zs \<Rightarrow> (case parse_uint64 x of None \<Rightarrow> Some [] | Some sz \<Rightarrow> Some [GaugeValue DU_BS (VInt sz) [''path='' @ path]])))"

definition DuMetrics :: "(string \<Rightarrow> string option) \<Rightarrow> string list \<Rightarrow> metric_value list option" where
  "DuMetrics out paths = foldM (\<lambda>L path. map_option (\<lambda>P. L @ P) (du_point path (out path))) [] paths"

end
