(* ===== verification/Agent_Core.thy ===== *)
theory Agent_Core
  imports Agent_Funcs Hbs_Core
begin

text \<open>
  The agent's connections (\<open>modules/agent/g\<close>) and its periodic tasks (\<open>modules/agent/cron\<close>,
  \<open>modules/agent/plugins\<close>): collecting and sending points, and following what the heartbeat server
  says of built-in checks, plugins and trusted addresses. A task is one round of its loop; the
  answers of other processes, the files and the clock are arguments.
\<close>

section \<open>A connection\<close>

record rpc_client =
  rc_Server :: string
  rc_Connected :: bool

datatype 'a rpc_outcome = RpcReply 'a | RpcError string | RpcTimeout

text \<open>Dialling, whether it succeeded and the seconds slept between the attempts.\<close>

function dial_loop :: "(nat \<Rightarrow> bool) \<Rightarrow> nat \<Rightarrow> bool \<times> nat list" where
  "dial_loop up retry =
    (if up retry then (True, [])
     else if 3 < retry then (False, [])
     else (case dial_loop up (retry + 1) of (r, naps) \<Rightarrow> (r, 2 ^ retry # naps)))"
  by auto
termination by (relation "measure (\<lambda>(up, retry). 4 - retry)") auto

declare dial_loop.simps [simp del]

definition serverConn :: "(nat \<Rightarrow> bool) \<Rightarrow> rpc_client \<Rightarrow> rpc_client \<times> bool" where
  "serverConn up c =
    (if rc_Connected c then (c, True)
     else let (r, naps) = dial_loop up 1 in (c\<lparr>rc_Connected := r\<rparr>, r))"

text \<open>
  A call that takes longer than ten seconds closes the connection and returns no error; the reply
  is then as the caller left it.
\<close>

definition rpc_call :: "(nat \<Rightarrow> bool) \<Rightarrow> 'a rpc_outcome \<Rightarrow> 'a \<Rightarrow> rpc_client \<Rightarrow> rpc_client \<times> string option \<times> 'a" where
  "rpc_call up outcome reply c =
    (let (c1, conn) = serverConn up c in
     if \<not> conn then (c1, Some ''dial'', reply)
     else case outcome of
       RpcReply r \<Rightarrow> (c1, None, r)
     | RpcError err \<Rightarrow> (c1\<lparr>rc_Connected := False\<rparr>, Some err, reply)
     | RpcTimeout \<Rightarrow> (c1\<lparr>rc_Connected := False\<rparr>, None, reply))"

section \<open>Configuration and identity\<close>

record agent_config =
  ac_Hostname :: string
  ac_IP :: string
  ac_Addrs :: "string list"
  ac_Interval :: int64
  ac_DefaultTags :: "(string, string) gomap"
  ac_Ignore :: "(string, bool) gomap"
  ac_MountPoint :: "string list"

definition Hostname :: "agent_config \<Rightarrow> string option \<Rightarrow> string option" where
  "Hostname cfg os = (if ac_Hostname cfg \<noteq> '''' then Some (ac_Hostname cfg) else os)"

definition IP :: "agent_config \<Rightarrow> string \<Rightarrow> string" where
  "IP cfg LocalIp = (if ac_IP cfg \<noteq> '''' then ac_IP cfg else LocalIp)"

definition VERSION :: string where "VERSION = ''5.1.2''"

definition report_request :: "agent_config \<Rightarrow> string option \<Rightarrow> string \<Rightarrow> string \<Rightarrow> agent_report_request" where
  "report_request cfg os LocalIp pluginVersion =
    \<lparr>ar_Hostname = (case Hostname cfg os of None \<Rightarrow> ''error:hostname'' | Some h \<Rightarrow> h), ar_IP = IP cfg LocalIp,
     ar_AgentVersion = VERSION, ar_PluginVersion = pluginVersion\<rparr>"

section \<open>Sending points\<close>

record transfer_env =
  te_up :: "string \<Rightarrow> nat \<Rightarrow> bool"
  te_outcome :: "string \<Rightarrow> transfer_response rpc_outcome"

text \<open>JSON has no text for infinities and NaN.\<close>

definition encodable :: "metric_value \<Rightarrow> bool" where
  "encodable mv \<longleftrightarrow> (case mv_Value mv of VFloat NaN \<Rightarrow> False | VFloat (Inf s) \<Rightarrow> False | _ \<Rightarrow> True)"

definition updateMetrics ::
    "transfer_env \<Rightarrow> metric_value list \<Rightarrow> transfer_response \<Rightarrow> rpc_client \<Rightarrow> rpc_client \<times> bool \<times> transfer_response" where
  "updateMetrics env metrics resp c =
    (let outcome = (if list_all encodable metrics then te_outcome env (rc_Server c) else RpcError ''json'');
         (c1, err, resp1) = rpc_call (te_up env (rc_Server c)) outcome resp c
     in (c1, err = None, resp1))"

type_synonym transfer_clients = "(string, rpc_client) gomap"

definition client_of :: "transfer_clients \<Rightarrow> string \<Rightarrow> rpc_client" where
  "client_of C addr = (case gget C addr of Some c \<Rightarrow> c | None \<Rightarrow> \<lparr>rc_Server = addr, rc_Connected = False\<rparr>)"

text \<open>The transfers in the order they are tried; the result holds those that were asked.\<close>

fun send_loop ::
    "transfer_env \<Rightarrow> metric_value list \<Rightarrow> string list \<Rightarrow> transfer_clients \<Rightarrow> transfer_response
      \<Rightarrow> transfer_clients \<times> transfer_response \<times> string list \<times> bool" where
  "send_loop env metrics [] C resp = (C, resp, [], False)"
| "send_loop env metrics (addr # addrs) C resp =
    (let (c, sent, resp1) = updateMetrics env metrics resp (client_of C addr);
         C1 = gput addr c C
     in if sent then (C1, resp1, [addr], True)
        else (case send_loop env metrics addrs C1 resp1 of (C2, resp2, asked, r) \<Rightarrow> (C2, resp2, addr # asked, r)))"

definition SendMetrics ::
    "agent_config \<Rightarrow> transfer_env \<Rightarrow> nat list \<Rightarrow> metric_value list \<Rightarrow> transfer_clients \<Rightarrow> transfer_response
      \<Rightarrow> transfer_clients \<times> transfer_response \<times> string list \<times> bool" where
  "SendMetrics cfg env perm metrics C resp = send_loop env metrics (map (\<lambda>i. ac_Addrs cfg ! i) perm) C resp"

definition default_tags :: "agent_config \<Rightarrow> string" where
  "default_tags cfg = go_join '','' (map (\<lambda>(k, v). k @ ''='' @ v) (ac_DefaultTags cfg))"

definition add_default_tags :: "agent_config \<Rightarrow> metric_value \<Rightarrow> metric_value" where
  "add_default_tags cfg mv =
    (if ac_DefaultTags cfg = [] then mv
     else mv\<lparr>mv_Tags := (if mv_Tags mv = '''' then default_tags cfg else mv_Tags mv @ '','' @ default_tags cfg)\<rparr>)"

definition zero_transfer_response :: transfer_response where
  "zero_transfer_response = \<lparr>tr_Message = '''', tr_Total = 0, tr_Invalid = 0, tr_Latency = 0\<rparr>"

definition SendToTransfer ::
    "agent_config \<Rightarrow> transfer_env \<Rightarrow> nat list \<Rightarrow> metric_value list \<Rightarrow> transfer_clients
      \<Rightarrow> transfer_clients \<times> metric_value list \<times> string list \<times> bool" where
  "SendToTransfer cfg env perm metrics C =
    (if metrics = [] then (C, [], [], False)
     else let ms = map (add_default_tags cfg) metrics;
              (C1, resp, asked, r) = SendMetrics cfg env perm ms C zero_transfer_response
       in (C1, ms, asked, r))"

section \<open>Collecting\<close>

text \<open>What the points of one round are made of.\<close>

record agent_readings =
  re_cpu :: cpu_history
  re_disks :: disk_map
  re_diskstats :: "disk_stats list option"
  re_netifs :: "net_if list option"
  re_kernel :: "64 word option \<times> 64 word option \<times> 64 word option"
  re_load :: "(float64 \<times> float64 \<times> float64) option"
  re_mem :: "mem_info option"
  re_tcpext :: "(string, 64 word) gomap option"
  re_udp :: "(string, int64) gomap option"
  re_sockets :: "(string, 64 word) gomap option"
  re_procs :: "(string \<times> string) list option"
  re_mounts :: "(string \<times> string \<times> string) list option"
  re_usage :: "string \<times> string \<times> string \<Rightarrow> device_usage option"
  re_tcp :: "int64 list option"
  re_udp_ports :: "int64 list option"
  re_du :: "string \<Rightarrow> string option"
  re_curl :: "string \<Rightarrow> string \<Rightarrow> string option"

text \<open>The checks users asked for.\<close>

record checks =
  ck_Urls :: "(string, string) gomap"
  ck_Ports :: "int64 list"
  ck_Procs :: "(string, proc_check) gomap"
  ck_Paths :: "string list"

definition BuildMappers ::
    "agent_config \<Rightarrow> checks \<Rightarrow> string option \<Rightarrow> agent_readings \<Rightarrow> (metric_value list option list \<times> int64) list" where
  "BuildMappers cfg k hostname r =
    [([Some AgentMetrics, CpuMetrics (re_cpu r), Some (CoreNetMetrics (re_netifs r)),
       Some (case re_kernel r of (mf, mp, af) \<Rightarrow> KernelMetrics mf mp af), Some (LoadAvgMetrics (re_load r)),
       Some (MemMetrics (re_mem r)), Some (DiskIOMetrics (re_diskstats r)), Some (IOStatsMetrics (re_disks r)),
       Some (NetstatMetrics (re_tcpext r)), Some (ProcMetrics (ck_Procs k) (re_procs r)), Some (UdpMetrics (re_udp r))],
      ac_Interval cfg),
     ([Some (DeviceMetrics (ac_MountPoint cfg) (re_mounts r) (re_usage r))], ac_Interval cfg),
     ([Some (PortMetrics (ck_Ports k) (re_tcp r) (re_udp_ports r)), Some (SocketStatSummaryMetrics (re_sockets r))],
      ac_Interval cfg),
     ([DuMetrics (re_du r) (ck_Paths k)], ac_Interval cfg),
     ([Some (UrlMetrics (ck_Urls k) hostname (re_curl r))], ac_Interval cfg)]"

definition stamped :: "int64 \<Rightarrow> string \<Rightarrow> int64 \<Rightarrow> metric_value \<Rightarrow> metric_value" where
  "stamped sec hostname now mv = mv\<lparr>mv_Step := sec, mv_Endpoint := hostname, mv_Timestamp := now\<rparr>"

definition collected :: "agent_config \<Rightarrow> int64 \<Rightarrow> string \<Rightarrow> int64 \<Rightarrow> metric_value list list \<Rightarrow> metric_value list" where
  "collected cfg sec hostname now items =
    map (stamped sec hostname now) (filter (\<lambda>mv. gget (ac_Ignore cfg) (mv_Metric mv) \<noteq> Some True) (concat items))"

text \<open>A round of \<open>collect\<close>; a collector that panics stops the agent.\<close>

definition collect_round ::
    "agent_config \<Rightarrow> transfer_env \<Rightarrow> nat list \<Rightarrow> int64 \<Rightarrow> string option \<Rightarrow> int64 \<Rightarrow> metric_value list option list \<Rightarrow> transfer_clients
      \<Rightarrow> (transfer_clients \<times> metric_value list \<times> string list \<times> bool) option" where
  "collect_round cfg env perm sec os now fns C =
    (case Hostname cfg os of
       None \<Rightarrow> Some (C, [], [], False)
     | Some hostname \<Rightarrow> do {
         items \<leftarrow> those fns;
         Some (SendToTransfer cfg env perm (collected cfg sec hostname now items) C)
       })"

section \<open>Following the built-in checks\<close>

record builtin_state =
  bs_Timestamp :: int64
  bs_Checksum :: string
  bs_Checks :: checks

definition no_checks :: checks where
  "no_checks = \<lparr>ck_Urls = [], ck_Ports = [], ck_Procs = [], ck_Paths = []\<rparr>"

definition init_builtin :: builtin_state where
  "init_builtin = \<lparr>bs_Timestamp = - 1, bs_Checksum = ''nil'', bs_Checks = no_checks\<rparr>"

text \<open>\<open>url=xxx,timeout=yyy\<close>, exactly two pieces with one equals sign each.\<close>

definition url_check :: "string \<Rightarrow> (string \<times> string) option" where
  "url_check tags =
    (case go_split (CHR '','') tags of
       [a, b] \<Rightarrow>
         (case (go_split (CHR ''='') a, go_split (CHR ''='') b) of
            ([_, url], [_, stime]) \<Rightarrow> (case parse_int 64 stime of Inr i \<Rightarrow> Some (url, stime) | Inl err \<Rightarrow> None)
          | _ \<Rightarrow> None)
     | _ \<Rightarrow> None)"

definition port_check :: "string \<Rightarrow> int64 option" where
  "port_check tags =
    (case go_split (CHR ''='') tags of
       [_, p] \<Rightarrow> (case parse_int 64 p of Inr port \<Rightarrow> Some port | Inl err \<Rightarrow> None)
     | _ \<Rightarrow> None)"

definition path_check :: "string \<Rightarrow> string option" where
  "path_check tags = (case go_split (CHR ''='') tags of [_, p] \<Rightarrow> Some (go_trim_space p) | _ \<Rightarrow> None)"

definition proc_piece :: "proc_check \<Rightarrow> string \<Rightarrow> proc_check" where
  "proc_piece m a =
    (if go_has_prefix a ''name='' then (Some (go_trim_space (drop 5 a)), snd m)
     else if go_has_prefix a ''cmdline='' then (fst m, Some (go_trim_space (drop 8 a)))
     else m)"

definition proc_check_of :: "string \<Rightarrow> proc_check" where
  "proc_check_of tags = foldl proc_piece (None, None) (go_split (CHR '','') tags)"

definition check_step :: "checks \<Rightarrow> builtin_metric \<Rightarrow> checks" where
  "check_step k metric =
    (if bm_Metric metric = URL_CHECK_HEALTH then
       (case url_check (bm_Tags metric) of None \<Rightarrow> k | Some (u, t) \<Rightarrow> k\<lparr>ck_Urls := gput u t (ck_Urls k)\<rparr>)
     else if bm_Metric metric = NET_PORT_LISTEN then
       (case port_check (bm_Tags metric) of None \<Rightarrow> k | Some p \<Rightarrow> k\<lparr>ck_Ports := ck_Ports k @ [p]\<rparr>)
     else if bm_Metric metric = DU_BS then
       (case path_check (bm_Tags metric) of None \<Rightarrow> k | Some p \<Rightarrow> k\<lparr>ck_Paths := ck_Paths k @ [p]\<rparr>)
     else if bm_Metric metric = PROC_NUM then
       k\<lparr>ck_Procs := gput (bm_Tags metric) (proc_check_of (bm_Tags metric)) (ck_Procs k)\<rparr>
     else k)"

definition checks_of :: "builtin_metric list \<Rightarrow> checks" where
  "checks_of ms = foldl check_step no_checks ms"

definition zero_builtin_response :: builtin_metric_response where
  "zero_builtin_response = \<lparr>br_Metrics = [], br_Checksum = '''', br_Timestamp = 0\<rparr>"

definition builtin_answer :: "builtin_metric_response \<Rightarrow> builtin_state \<Rightarrow> builtin_state" where
  "builtin_answer resp st =
    (if br_Timestamp resp \<le> bs_Timestamp st \<or> br_Checksum resp = bs_Checksum st then st
     else \<lparr>bs_Timestamp = br_Timestamp resp, bs_Checksum = br_Checksum resp, bs_Checks = checks_of (br_Metrics resp)\<rparr>)"

definition syncBuiltinMetrics ::
    "agent_config \<Rightarrow> string option \<Rightarrow> (nat \<Rightarrow> bool) \<Rightarrow> (agent_heartbeat_request \<Rightarrow> builtin_metric_response rpc_outcome)
      \<Rightarrow> rpc_client \<times> builtin_state \<Rightarrow> rpc_client \<times> builtin_state" where
  "syncBuiltinMetrics cfg os up call s =
    (case (s, Hostname cfg os) of
       ((c, st), None) \<Rightarrow> (c, st)
     | ((c, st), Some hostname) \<Rightarrow>
         (case rpc_call up (call \<lparr>ah_Hostname = hostname, ah_Checksum = bs_Checksum st\<rparr>) zero_builtin_response c of
            (c1, Some err, resp) \<Rightarrow> (c1, st)
          | (c1, None, resp) \<Rightarrow> (c1, builtin_answer resp st)))"

section \<open>Trusted addresses\<close>

definition SetTrustableIps :: "string \<Rightarrow> string list" where
  "SetTrustableIps ipStr = go_split (CHR '','') ipStr"

definition go_last_index :: "string \<Rightarrow> char \<Rightarrow> int" where
  "go_last_index s c = (if c \<in> set s then int (length s) - 1 - int (length (takeWhile (\<lambda>x. x \<noteq> c) (rev s))) else - 1)"

definition IsTrustable :: "string list \<Rightarrow> string \<Rightarrow> bool" where
  "IsTrustable ips remoteAddr \<longleftrightarrow>
    (let idx = go_last_index remoteAddr (CHR '':'');
         ip = (if 0 < idx then take (nat idx) remoteAddr else remoteAddr)
     in ip = ''127.0.0.1'' \<or> ip \<in> set ips)"

definition syncTrustableIps ::
    "(nat \<Rightarrow> bool) \<Rightarrow> string rpc_outcome \<Rightarrow> rpc_client \<times> string list \<Rightarrow> rpc_client \<times> string list" where
  "syncTrustableIps up outcome s =
    (case rpc_call up outcome '''' (fst s) of
       (c1, Some err, ips) \<Rightarrow> (c1, snd s)
     | (c1, None, ips) \<Rightarrow> (c1, SetTrustableIps ips))"

section \<open>Plugins\<close>

record plugin =
  pg_FilePath :: string
  pg_MTime :: int64
  pg_Cycle :: int

text \<open>A scheduler is a task of its own; \<open>live\<close> holds those whose task runs.\<close>

record plugin_state =
  pl_Plugins :: "(string, plugin) gomap"
  pl_Schedulers :: "(string, nat) gomap"
  pl_live :: "(nat \<times> plugin) list"
  pl_next :: nat

definition init_plugins :: plugin_state where
  "init_plugins = \<lparr>pl_Plugins = [], pl_Schedulers = [], pl_live = [], pl_next = 0\<rparr>"

definition deletePlugin :: "string \<Rightarrow> plugin_state \<Rightarrow> plugin_state" where
  "deletePlugin key st =
    (let st1 = (case gget (pl_Schedulers st) key of
         None \<Rightarrow> st
       | Some i \<Rightarrow> st\<lparr>pl_live := filter (\<lambda>(j, p). j \<noteq> i) (pl_live st), pl_Schedulers := gdel key (pl_Schedulers st)\<rparr>)
     in st1\<lparr>pl_Plugins := gdel key (pl_Plugins st1)\<rparr>)"

definition stale_plugin :: "(string, plugin) gomap \<Rightarrow> string \<times> plugin \<Rightarrow> bool" where
  "stale_plugin newPlugins kp \<longleftrightarrow>
    (case gget newPlugins (fst kp) of None \<Rightarrow> True | Some p \<Rightarrow> pg_MTime (snd kp) \<noteq> pg_MTime p)"

definition DelNoUsePlugins :: "(string, plugin) gomap \<Rightarrow> plugin_state \<Rightarrow> plugin_state" where
  "DelNoUsePlugins newPlugins st =
    foldl (\<lambda>st kp. deletePlugin (fst kp) st) st (filter (stale_plugin newPlugins) (pl_Plugins st))"

definition ClearAllPlugins :: "plugin_state \<Rightarrow> plugin_state" where
  "ClearAllPlugins st = foldl (\<lambda>st kp. deletePlugin (fst kp) st) st (pl_Plugins st)"

text \<open>A ticker of no positive duration panics; a duration is in nanoseconds, with 64 bits.\<close>

definition NewPluginScheduler :: "plugin \<Rightarrow> unit option" where
  "NewPluginScheduler p = (if i64 (pg_Cycle p * 1000000000) \<le> 0 then None else Some ())"

definition add_plugin :: "plugin_state \<Rightarrow> string \<times> plugin \<Rightarrow> plugin_state option" where
  "add_plugin st kp =
    (case kp of (fpath, newPlugin) \<Rightarrow>
      if (case gget (pl_Plugins st) fpath of None \<Rightarrow> False | Some p \<Rightarrow> pg_MTime newPlugin = pg_MTime p) then Some st
      else do {
        sch \<leftarrow> NewPluginScheduler newPlugin;
        Some (st\<lparr>pl_Plugins := gput fpath newPlugin (pl_Plugins st), pl_Schedulers := gput fpath (pl_next st) (pl_Schedulers st),
          pl_live := pl_live st @ [(pl_next st, newPlugin)], pl_next := pl_next st + 1\<rparr>)
      })"

definition AddNewPlugins :: "(string, plugin) gomap \<Rightarrow> plugin_state \<Rightarrow> plugin_state option" where
  "AddNewPlugins newPlugins st = foldM add_plugin st newPlugins"

text \<open>\<open>filepath.Join\<close> of a relative path and the name of a file.\<close>

fun clean_parts :: "string list \<Rightarrow> string list \<Rightarrow> string list" where
  "clean_parts acc [] = rev acc"
| "clean_parts acc (p # ps) =
    (if p = '''' \<or> p = ''.'' then clean_parts acc ps
     else if p = ''..'' then
       (case acc of [] \<Rightarrow> clean_parts [p] ps
        | a # as \<Rightarrow> if a = ''..'' then clean_parts (p # acc) ps else clean_parts as ps)
     else clean_parts (p # acc) ps)"

definition path_join :: "string \<Rightarrow> string \<Rightarrow> string" where
  "path_join rel name =
    (let parts = clean_parts [] (go_split (CHR ''/'') rel @ go_split (CHR ''/'') name)
     in if parts = [] then ''.'' else go_join ''/'' parts)"

text \<open>
  \<open>ls\<close> lists a directory under the one of all plugins: names, whether it is a directory, the time of
  modification; \<open>None\<close> when there is no such directory or it cannot be read.
\<close>

type_synonym plugin_files = "string \<Rightarrow> (string \<times> bool \<times> int64) list option"

definition listed_plugin :: "string \<Rightarrow> string \<times> bool \<times> int64 \<Rightarrow> (string \<times> plugin) option" where
  "listed_plugin rel f =
    (case f of (filename, isDir, mtime) \<Rightarrow>
      if isDir then None
      else (case go_split (CHR ''_'') filename of
         a # b # rest \<Rightarrow>
           (case atoi a of Inl err \<Rightarrow> None
            | Inr cycle \<Rightarrow> Some (path_join rel filename, \<lparr>pg_FilePath = path_join rel filename, pg_MTime = mtime, pg_Cycle = cycle\<rparr>))
       | _ \<Rightarrow> None))"

definition ListPlugins :: "plugin_files \<Rightarrow> string \<Rightarrow> (string, plugin) gomap" where
  "ListPlugins ls rel =
    (if rel = '''' then []
     else case ls rel of None \<Rightarrow> []
     | Some fs \<Rightarrow> foldl (\<lambda>m (k, p). gput k p m) [] (List.map_filter (listed_plugin rel) fs))"

definition desired_plugins :: "plugin_files \<Rightarrow> string list \<Rightarrow> (string, plugin) gomap" where
  "desired_plugins ls dirs =
    foldl (\<lambda>m d. foldl (\<lambda>m (k, p). gput k p m) m (ListPlugins ls (go_trim (CHR ''/'') d))) [] dirs"

text \<open>The map of wanted plugins is visited in an order of its own.\<close>

definition plugins_answer ::
    "((string, plugin) gomap \<Rightarrow> (string, plugin) gomap) \<Rightarrow> plugin_files \<Rightarrow> agent_plugins_response \<Rightarrow> int64 \<times> plugin_state
      \<Rightarrow> (int64 \<times> plugin_state) option" where
  "plugins_answer visit ls resp s =
    (if ap_Timestamp resp \<le> fst s then Some s
     else do {
       let st = (if ap_Plugins resp = [] then ClearAllPlugins (snd s) else snd s);
       let desiredAll = visit (desired_plugins ls (ap_Plugins resp));
       st1 \<leftarrow> AddNewPlugins desiredAll (DelNoUsePlugins desiredAll st);
       Some (ap_Timestamp resp, st1)
     })"

definition syncMinePlugins ::
    "((string, plugin) gomap \<Rightarrow> (string, plugin) gomap) \<Rightarrow> plugin_files \<Rightarrow> agent_config \<Rightarrow> string option \<Rightarrow> (nat \<Rightarrow> bool)
      \<Rightarrow> (agent_heartbeat_request \<Rightarrow> agent_plugins_response rpc_outcome) \<Rightarrow> rpc_client \<times> int64 \<times> plugin_state
      \<Rightarrow> (rpc_client \<times> int64 \<times> plugin_state) option" where
  "syncMinePlugins visit ls cfg os up call s =
    (case (s, Hostname cfg os) of
       ((c, ps), None) \<Rightarrow> Some (c, ps)
     | ((c, ps), Some hostname) \<Rightarrow>
         (case rpc_call up (call \<lparr>ah_Hostname = hostname, ah_Checksum = ''''\<rparr>) \<lparr>ap_Plugins = [], ap_Timestamp = 0\<rparr> c of
            (c1, Some err, resp) \<Rightarrow> Some (c1, ps)
          | (c1, None, resp) \<Rightarrow> map_option (Pair c1) (plugins_answer visit ls resp ps)))"

text \<open>
  A run of a plugin: the output when it is there, ended in time and without an error, and the points
  read from it (\<open>decode\<close>), which are sent as they are.
\<close>

record plugin_run =
  pr_exists :: bool
  pr_timeout :: bool
  pr_failed :: bool
  pr_stderr :: string
  pr_log_failed :: bool
  pr_stdout :: string

text \<open>The error of writing the log of the plugin takes the place of the plugin's own.\<close>

definition PluginRun :: "(string \<Rightarrow> metric_value list option) \<Rightarrow> plugin_run \<Rightarrow> metric_value list" where
  "PluginRun decode run =
    (if \<not> pr_exists run then []
     else let failed = (if pr_stderr run \<noteq> '''' then pr_log_failed run else pr_failed run) in
     if pr_timeout run \<or> failed \<or> pr_stdout run = '''' then []
     else case decode (pr_stdout run) of None \<Rightarrow> [] | Some ms \<Rightarrow> ms)"

definition plugin_timeout :: "plugin \<Rightarrow> int" where
  "plugin_timeout p = i64 (pg_Cycle p * 1000 - 500)"

end
