(* ===== verification/Agent_Flow.thy ===== *)
theory Agent_Flow
  imports Agent_Core Hbs_Agents Transfer_Core
begin

text \<open>
  Statements about the agent: the plugins that run are those it was told to run, its checks follow
  the heartbeat server, its points are taken by the transfer, and what a call that is late does.
\<close>

section \<open>Plugins\<close>

text \<open>The plugin and the scheduler of a file.\<close>

definition runs :: "plugin_state \<Rightarrow> string \<Rightarrow> (nat \<times> plugin) option" where
  "runs st k = (case (gget (pl_Schedulers st) k, gget (pl_Plugins st) k) of (Some i, Some p) \<Rightarrow> Some (i, p) | _ \<Rightarrow> None)"

text \<open>Both maps have the same files, and the tasks that run are those of the schedulers in the map.\<close>

definition plugins_ok :: "plugin_state \<Rightarrow> bool" where
  "plugins_ok st \<longleftrightarrow> gomap_ok (pl_Plugins st) \<and> gomap_ok (pl_Schedulers st) \<and>
    (\<forall>k. gget (pl_Plugins st) k = None \<longleftrightarrow> gget (pl_Schedulers st) k = None) \<and>
    (\<forall>k i. gget (pl_Schedulers st) k = Some i \<longrightarrow> i < pl_next st) \<and>
    (\<forall>k k' i. gget (pl_Schedulers st) k = Some i \<longrightarrow> gget (pl_Schedulers st) k' = Some i \<longrightarrow> k = k') \<and>
    distinct (pl_live st) \<and> set (pl_live st) = ran (runs st)"

lemma runs_iff: "runs st k = Some (i, p) \<longleftrightarrow> gget (pl_Schedulers st) k = Some i \<and> gget (pl_Plugins st) k = Some p"
  by (auto simp: runs_def split: option.split)

lemma plugins_ok_init: "plugins_ok init_plugins"
  by (auto simp: plugins_ok_def init_plugins_def gomap_ok_def runs_iff ran_def)

lemma runs_Plugins: "plugins_ok st \<Longrightarrow> gget (pl_Plugins st) k = map_option snd (runs st k)"
  by (auto simp: plugins_ok_def runs_def split: option.split)

lemma deletePlugin_runs:
  assumes "plugins_ok st"
  shows "plugins_ok (deletePlugin k st) \<and> runs (deletePlugin k st) = (runs st)(k := None)"
proof (cases "gget (pl_Schedulers st) k")
  case None
  then have e: "deletePlugin k st = st\<lparr>pl_Plugins := gdel k (pl_Plugins st)\<rparr>" by (simp add: deletePlugin_def)
  have p: "gget (pl_Plugins st) k = None" using None assms by (simp add: plugins_ok_def)
  have r: "runs (st\<lparr>pl_Plugins := gdel k (pl_Plugins st)\<rparr>) = runs st"
    using p by (auto simp: runs_def fun_eq_iff split: option.split)
  have "runs st k = None" using p by (simp add: runs_def split: option.split)
  then have "(runs st)(k := None) = runs st" by (simp add: fun_upd_idem)
  then show ?thesis unfolding e using assms p r None by (simp add: plugins_ok_def)
next
  case (Some i)
  let ?st = "deletePlugin k st"
  have st: "pl_Plugins ?st = gdel k (pl_Plugins st)" "pl_Schedulers ?st = gdel k (pl_Schedulers st)"
    "pl_live ?st = filter (\<lambda>(j, p). j \<noteq> i) (pl_live st)" "pl_next ?st = pl_next st"
    using Some by (simp_all add: deletePlugin_def Let_def)
  have r: "runs ?st = (runs st)(k := None)" by (auto simp: runs_def st fun_eq_iff split: option.splits)
  have key: "fst ip = i \<longleftrightarrow> k' = k" if "runs st k' = Some ip" for k' ip
    using that assms Some by (auto simp: plugins_ok_def runs_def split: option.splits)
  have "set (pl_live ?st) = ran (runs ?st)"
  proof (rule set_eqI)
    fix ip
    have "ip \<in> set (pl_live ?st) \<longleftrightarrow> (\<exists>k'. runs st k' = Some ip \<and> fst ip \<noteq> i)"
      using assms by (auto simp: plugins_ok_def st ran_def)
    also have "\<dots> \<longleftrightarrow> (\<exists>k'. k' \<noteq> k \<and> runs st k' = Some ip)" using key [of _ ip] by blast
    also have "\<dots> \<longleftrightarrow> ip \<in> ran (runs ?st)" by (auto simp: r ran_def)
    finally show "ip \<in> set (pl_live ?st) \<longleftrightarrow> ip \<in> ran (runs ?st)" .
  qed
  moreover have "distinct (pl_live ?st)" using assms by (simp add: plugins_ok_def st)
  ultimately show ?thesis using assms r by (simp add: plugins_ok_def st)
qed

lemma delete_fold:
  "plugins_ok st \<Longrightarrow> plugins_ok (foldl (\<lambda>st kp. deletePlugin (fst kp) st) st kps) \<and>
    runs (foldl (\<lambda>st kp. deletePlugin (fst kp) st) st kps) = (\<lambda>k. if k \<in> fst ` set kps then None else runs st k)"
proof (induction kps arbitrary: st)
  case (Cons kp kps)
  show ?case using Cons.IH [of "deletePlugin (fst kp) st"] deletePlugin_runs [OF Cons.prems, of "fst kp"]
    by (auto simp: fun_eq_iff)
qed simp

lemma DelNoUse_runs:
  assumes "plugins_ok st"
  shows "plugins_ok (DelNoUsePlugins D st) \<and> runs (DelNoUsePlugins D st) =
    (\<lambda>k. case (runs st k, gget D k) of (Some ip, Some p) \<Rightarrow> if pg_MTime (snd ip) = pg_MTime p then Some ip else None | _ \<Rightarrow> None)"
proof -
  have ok: "gomap_ok (pl_Plugins st)" using assms by (simp add: plugins_ok_def)
  have "k \<in> fst ` set (filter (stale_plugin D) (pl_Plugins st)) \<longleftrightarrow>
      (\<exists>p. gget (pl_Plugins st) k = Some p \<and> stale_plugin D (k, p))" for k
    using ok by (force simp: gomap_ok_def)
  with delete_fold [OF assms, of "filter (stale_plugin D) (pl_Plugins st)"] show ?thesis
    unfolding DelNoUsePlugins_def
    by (auto simp: fun_eq_iff runs_Plugins [OF assms] stale_plugin_def split: option.splits)
qed

lemma add_plugin_runs:
  assumes "plugins_ok st" "0 < i64 (pg_Cycle p * 1000000000)"
    and "map_option (pg_MTime o snd) (runs st k) \<in> {None, Some (pg_MTime p)}"
  shows "\<exists>st'. add_plugin st (k, p) = Some st' \<and> plugins_ok st' \<and>
    runs st' = (if runs st k = None then (runs st)(k \<mapsto> (pl_next st, p)) else runs st) \<and> pl_next st \<le> pl_next st'"
proof (cases "runs st k")
  case (Some ip)
  then have "add_plugin st (k, p) = Some st" using assms(3) by (auto simp: add_plugin_def runs_Plugins [OF assms(1)])
  with Some assms(1) show ?thesis by simp
next
  case None
  then have none: "gget (pl_Plugins st) k = None" by (simp add: runs_Plugins [OF assms(1)])
  let ?st = "st\<lparr>pl_Plugins := gput k p (pl_Plugins st), pl_Schedulers := gput k (pl_next st) (pl_Schedulers st),
    pl_live := pl_live st @ [(pl_next st, p)], pl_next := pl_next st + 1\<rparr>"
  have a: "add_plugin st (k, p) = Some ?st" using none assms(2) by (simp add: add_plugin_def NewPluginScheduler_def)
  have r: "runs ?st = (runs st)(k \<mapsto> (pl_next st, p))" by (auto simp: runs_def fun_eq_iff)
  have lt: "i < pl_next st" if "gget (pl_Schedulers st) k' = Some i" for k' i using that assms(1) by (simp add: plugins_ok_def)
  have new: "(pl_next st, q) \<notin> set (pl_live st)" for q
    using assms(1) by (auto simp: plugins_ok_def runs_iff ran_def dest: lt)
  have l: "set (pl_live ?st) = ran (runs ?st)"
    unfolding r using assms(1) None by (simp add: plugins_ok_def)
  have i2: "gget (pl_Schedulers ?st) k1 = Some i \<longrightarrow> gget (pl_Schedulers ?st) k2 = Some i \<longrightarrow> k1 = k2" for k1 k2 i
    using assms(1) lt by (auto simp: plugins_ok_def)
  have i3: "gget (pl_Schedulers ?st) k' = Some i \<longrightarrow> i < pl_next ?st" for k' i using lt by (auto simp: less_Suc_eq)
  have old: "gomap_ok (pl_Plugins st)" "gomap_ok (pl_Schedulers st)" "distinct (pl_live st)"
    "\<And>k. gget (pl_Plugins st) k = None \<longleftrightarrow> gget (pl_Schedulers st) k = None" using assms(1) by (auto simp: plugins_ok_def)
  have "plugins_ok ?st" unfolding plugins_ok_def by (intro conjI allI i2 i3 l) (simp_all add: old new)
  with a r None show ?thesis by simp
qed

lemma add_fold:
  assumes "plugins_ok st" "distinct (map fst kps)" "list_all (\<lambda>(k, p). 0 < i64 (pg_Cycle p * 1000000000)) kps"
    and "list_all (\<lambda>(k, p). map_option (pg_MTime o snd) (runs st k) \<in> {None, Some (pg_MTime p)}) kps"
  shows "\<exists>st'. foldM add_plugin st kps = Some st' \<and> plugins_ok st' \<and>
    list_all (\<lambda>(k, p). case runs st k of Some ip \<Rightarrow> runs st' k = Some ip | None \<Rightarrow> map_option snd (runs st' k) = Some p) kps \<and>
    (\<forall>k. k \<notin> fst ` set kps \<longrightarrow> runs st' k = runs st k)"
  using assms
proof (induction kps arbitrary: st)
  case (Cons kp kps)
  obtain k p where kp: "kp = (k, p)" by (cases kp)
  from add_plugin_runs [of st p k] Cons.prems kp obtain st1 where st1: "add_plugin st (k, p) = Some st1" "plugins_ok st1"
    "runs st1 = (if runs st k = None then (runs st)(k \<mapsto> (pl_next st, p)) else runs st)" by auto
  have k: "k \<notin> fst ` set kps" using Cons.prems(2) by (simp add: kp)
  then have same: "runs st1 k' = runs st k'" if "(k', p') \<in> set kps" for k' p' using that st1(3) by force
  have pre: "list_all (\<lambda>(k, p). map_option (pg_MTime o snd) (runs st1 k) \<in> {None, Some (pg_MTime p)}) kps"
    using Cons.prems(4) same by (fastforce simp: list_all_iff)
  from Cons.IH [OF st1(2) _ _ pre] Cons.prems(2,3) obtain st' where st': "foldM add_plugin st1 kps = Some st'" "plugins_ok st'"
    "list_all (\<lambda>(k, p). case runs st1 k of Some ip \<Rightarrow> runs st' k = Some ip | None \<Rightarrow> map_option snd (runs st' k) = Some p) kps"
    "\<forall>k. k \<notin> fst ` set kps \<longrightarrow> runs st' k = runs st1 k" by auto
  have "list_all (\<lambda>(k, p). case runs st k of Some ip \<Rightarrow> runs st' k = Some ip | None \<Rightarrow> map_option snd (runs st' k) = Some p) kps"
    using st'(3) same by (fastforce simp: list_all_iff)
  moreover have "case runs st k of Some ip \<Rightarrow> runs st' k = Some ip | None \<Rightarrow> map_option snd (runs st' k) = Some p"
    using st'(4) k st1(3) by (simp split: option.split)
  moreover have "\<forall>k'. k' \<notin> fst ` set (kp # kps) \<longrightarrow> runs st' k' = runs st k'"
    using st'(4) st1(3) kp by auto
  ultimately show ?case using st1(1) st'(1,2) by (simp add: kp)
qed simp

lemma ClearAll_runs: "plugins_ok st \<Longrightarrow> plugins_ok (ClearAllPlugins st) \<and> runs (ClearAllPlugins st) = (\<lambda>k. None)"
proof -
  assume ok: "plugins_ok st"
  have "k \<in> fst ` set (pl_Plugins st) \<longleftrightarrow> runs st k \<noteq> None" for k
    using runs_Plugins [OF ok, of k] by (metis (no_types, lifting) map_of_eq_None_iff option.map_disc_iff)
  with delete_fold [OF ok, of "pl_Plugins st"] show ?thesis
    by (auto simp: ClearAllPlugins_def fun_eq_iff simp del: not_None_eq split: if_splits)
qed

lemma gomap_ok_puts: "gomap_ok m \<Longrightarrow> gomap_ok (foldl (\<lambda>m (k, p). gput k p m) m kps)"
  by (induction kps arbitrary: m) (auto split: prod.split)

lemma gomap_ok_desired: "gomap_ok (desired_plugins ls dirs)"
  unfolding desired_plugins_def
  by (rule foldl_invariant [where P = gomap_ok]) (simp add: gomap_ok_def, rule gomap_ok_puts, assumption)

text \<open>
  C26: After an answer of the heartbeat server the agent runs exactly the plugins found under the
  directories it was told: one whose file did not change keeps the task it had, a new or changed one
  has a new task, all others are stopped; no task runs that the table of schedulers does not hold.
  Cycles must be positive, otherwise the ticker panics.
\<close>

theorem plugins_follow:
  assumes ok: "plugins_ok st" and t: "t < ap_Timestamp resp" and v: "\<And>m. mset (visit m) = mset m"
    and D: "D = desired_plugins ls (ap_Plugins resp)" and cycles: "list_all (\<lambda>(k, p). 0 < i64 (pg_Cycle p * 1000000000)) D"
  shows "\<exists>st'. plugins_answer visit ls resp (t, st) = Some (ap_Timestamp resp, st') \<and> plugins_ok st' \<and>
    (\<forall>k. case gget D k of
       None \<Rightarrow> runs st' k = None
     | Some p \<Rightarrow> if map_option (pg_MTime o snd) (runs st k) = Some (pg_MTime p) then runs st' k = runs st k
         else map_option snd (runs st' k) = Some p)"
proof -
  define st0 where "st0 = (if ap_Plugins resp = [] then ClearAllPlugins st else st)"
  let ?V = "visit D" let ?s1 = "DelNoUsePlugins ?V st0"
  have okD: "gomap_ok D" unfolding D by (rule gomap_ok_desired)
  have gV: "gget ?V = gget D" using gget_perm [OF okD v [of D, symmetric]] by simp
  have distV: "distinct (map fst ?V)" using okD v [of D] unfolding gomap_ok_def by (metis mset_eq_imp_distinct_iff mset_map)
  have okst0: "plugins_ok st0" using ok ClearAll_runs [OF ok] by (simp add: st0_def)
  have r0: "runs st0 k = (if D = [] then runs st0 k else runs st k)" for k
    by (simp add: st0_def D desired_plugins_def)
  note s1 = DelNoUse_runs [OF okst0, of ?V, unfolded gV]
  have setV: "set ?V = set D" using v [of D] by (metis set_mset_mset)
  have rs1: "runs ?s1 k = (case (runs st0 k, gget D k) of (Some ip, Some p) \<Rightarrow> if pg_MTime (snd ip) = pg_MTime p then Some ip else None | _ \<Rightarrow> None)" for k
    using conjunct2 [OF s1] by (rule fun_cong)
  have look: "gget D k = Some p" if "(k, p) \<in> set D" for k p using that okD by (simp add: gomap_ok_def)
  have pre: "list_all (\<lambda>(k, p). map_option (pg_MTime o snd) (runs ?s1 k) \<in> {None, Some (pg_MTime p)}) ?V"
    unfolding list_all_iff setV
  proof
    fix kp assume "kp \<in> set D"
    moreover obtain k p where kp: "kp = (k, p)" by (cases kp)
    ultimately have "gget D k = Some p" by (simp add: look)
    with rs1 [of k] show "case kp of (k, p) \<Rightarrow> map_option (pg_MTime o snd) (runs ?s1 k) \<in> {None, Some (pg_MTime p)}"
      unfolding kp by (cases "runs st0 k") (auto simp: split_paired_all)
  qed
  have "list_all (\<lambda>(k, p). 0 < i64 (pg_Cycle p * 1000000000)) ?V" using cycles unfolding list_all_iff setV .
  from add_fold [OF conjunct1 [OF s1] distV this pre] obtain st' where st': "AddNewPlugins ?V ?s1 = Some st'" "plugins_ok st'"
    "list_all (\<lambda>(k, p). case runs ?s1 k of Some ip \<Rightarrow> runs st' k = Some ip | None \<Rightarrow> map_option snd (runs st' k) = Some p) ?V"
    "\<forall>k. k \<notin> fst ` set ?V \<longrightarrow> runs st' k = runs ?s1 k"
    unfolding AddNewPlugins_def by blast
  have "plugins_answer visit ls resp (t, st) = Some (ap_Timestamp resp, st')"
    using t st'(1) unfolding D st0_def by (cases "ap_Plugins resp = []") (simp_all add: plugins_answer_def Let_def)
  moreover have "case gget D k of
       None \<Rightarrow> runs st' k = None
     | Some p \<Rightarrow> if map_option (pg_MTime o snd) (runs st k) = Some (pg_MTime p) then runs st' k = runs st k
         else map_option snd (runs st' k) = Some p" for k
  proof (cases "gget D k")
    case None
    then have "k \<notin> fst ` set ?V" unfolding setV by (simp add: map_of_eq_None_iff)
    with st'(4) rs1 [of k] None show ?thesis by (simp split: option.split)
  next
    case (Some p)
    then have "(k, p) \<in> set ?V" unfolding setV by (rule map_of_SomeD)
    with st'(3) have c: "case runs ?s1 k of Some ip \<Rightarrow> runs st' k = Some ip | None \<Rightarrow> map_option snd (runs st' k) = Some p"
      by (auto simp: list_all_iff)
    have "D \<noteq> []" using Some by auto
    then have "runs ?s1 k = (case runs st k of Some ip \<Rightarrow> if pg_MTime (snd ip) = pg_MTime p then Some ip else None | None \<Rightarrow> None)"
      using rs1 [of k] r0 [of k] Some by (simp split: option.split)
    with c Some show ?thesis by (auto split: option.splits if_splits)
  qed
  ultimately show ?thesis using st'(2) by blast
qed


text \<open>A directory with one plugin, before a changed one and after.\<close>

definition two_plugins :: plugin_files where
  "two_plugins = (\<lambda>d. if d = ''sys'' then Some [(''60_mem.py'', False, 7), (''30_cpu.sh'', False, 5)] else None)"

definition told :: plugin where
  "told = \<lparr>pg_FilePath = ''sys/60_mem.py'', pg_MTime = 6, pg_Cycle = 60\<rparr>"

definition one_running :: plugin_state where
  "one_running = \<lparr>pl_Plugins = [(''sys/60_mem.py'', told)], pl_Schedulers = [(''sys/60_mem.py'', 0)], pl_live = [(0, told)], pl_next = 1\<rparr>"

lemma one_running_ok: "plugins_ok one_running"
  by (auto simp: plugins_ok_def one_running_def gomap_ok_def ran_def runs_def split: if_splits)

theorem plugins_follow_witness:
  "\<exists>st'. plugins_answer rev two_plugins \<lparr>ap_Plugins = [''/sys/''], ap_Timestamp = 5\<rparr> (0, one_running) = Some (5, st') \<and> plugins_ok st' \<and>
    map_option (pg_MTime o snd) (runs st' ''sys/60_mem.py'') = Some 7 \<and> map_option (pg_Cycle o snd) (runs st' ''sys/30_cpu.sh'') = Some 30 \<and>
    runs st' ''old'' = None"
proof -
  let ?D = "desired_plugins two_plugins [''/sys/'']"
  have D: "?D = [(''sys/60_mem.py'', \<lparr>pg_FilePath = ''sys/60_mem.py'', pg_MTime = 7, pg_Cycle = 60\<rparr>),
      (''sys/30_cpu.sh'', \<lparr>pg_FilePath = ''sys/30_cpu.sh'', pg_MTime = 5, pg_Cycle = 30\<rparr>)]" by code_simp
  have cycles: "list_all (\<lambda>(k, p). 0 < i64 (pg_Cycle p * 1000000000)) ?D" by (simp add: D i64_id in_i64_def)
  let ?resp = "\<lparr>ap_Plugins = [''/sys/''], ap_Timestamp = 5\<rparr>"
  have "\<exists>st'. plugins_answer rev two_plugins ?resp (0, one_running) = Some (ap_Timestamp ?resp, st') \<and> plugins_ok st' \<and>
    (\<forall>k. case gget ?D k of None \<Rightarrow> runs st' k = None
     | Some p \<Rightarrow> if map_option (pg_MTime o snd) (runs one_running k) = Some (pg_MTime p) then runs st' k = runs one_running k
         else map_option snd (runs st' k) = Some p)"
    by (rule plugins_follow [OF one_running_ok _ _ _ cycles]) simp_all
  then obtain st' where st': "plugins_answer rev two_plugins ?resp (0, one_running) = Some (5, st')" "plugins_ok st'"
    and k: "\<And>k. case gget ?D k of None \<Rightarrow> runs st' k = None
     | Some p \<Rightarrow> if map_option (pg_MTime o snd) (runs one_running k) = Some (pg_MTime p) then runs st' k = runs one_running k
         else map_option snd (runs st' k) = Some p" by fastforce
  have a: "map_option snd (runs st' ''sys/60_mem.py'') = Some \<lparr>pg_FilePath = ''sys/60_mem.py'', pg_MTime = 7, pg_Cycle = 60\<rparr>"
    using k [of "''sys/60_mem.py''"] by (simp add: D runs_def one_running_def told_def)
  have b: "map_option snd (runs st' ''sys/30_cpu.sh'') = Some \<lparr>pg_FilePath = ''sys/30_cpu.sh'', pg_MTime = 5, pg_Cycle = 30\<rparr>"
    using k [of "''sys/30_cpu.sh''"] by (simp add: D runs_def one_running_def)
  have c: "runs st' ''old'' = None" using k [of "''old''"] by (simp add: D)
  have "map_option (pg_MTime o snd) (runs st' ''sys/60_mem.py'') = Some 7" using a by auto
  moreover have "map_option (pg_Cycle o snd) (runs st' ''sys/30_cpu.sh'') = Some 30" using b by auto
  ultimately show ?thesis using st' c by blast
qed

section \<open>Checks\<close>

text \<open>What a round of the task finds: an answer of the heartbeat server, an error, a late answer, no server.\<close>

datatype hbs_round =
    Answered "string \<Rightarrow> builtin_metric rows" "int list \<Rightarrow> int list" int64 hbs_state
  | Refused string
  | Late
  | Unreachable

definition round_call :: "hbs_round \<Rightarrow> agent_heartbeat_request \<Rightarrow> builtin_metric_response rpc_outcome" where
  "round_call r req =
    (case r of Answered db ids now hst \<Rightarrow> RpcReply (BuiltinMetrics db ids now hst req zero_builtin_response)
     | Refused err \<Rightarrow> RpcError err
     | _ \<Rightarrow> RpcTimeout)"

definition check_round :: "agent_config \<Rightarrow> string option \<Rightarrow> rpc_client \<times> builtin_state \<Rightarrow> hbs_round \<Rightarrow> rpc_client \<times> builtin_state" where
  "check_round cfg os s r = syncBuiltinMetrics cfg os (\<lambda>i. r \<noteq> Unreachable) (round_call r) s"

definition served :: "builtin_metric list \<Rightarrow> builtin_metric list" where
  "served ms = (if ms = [] then [] else fst (DigestBuiltinMetrics ms))"

definition served_sum :: "builtin_metric list \<Rightarrow> string" where
  "served_sum ms = (if ms = [] then '''' else snd (DigestBuiltinMetrics ms))"

fun found_metrics :: "string \<Rightarrow> hbs_round \<Rightarrow> builtin_metric list" where
  "found_metrics h (Answered db ids now hst) = (case GetBuiltinMetrics db ids hst h of Inl err \<Rightarrow> [] | Inr ms \<Rightarrow> ms)"
| "found_metrics h _ = []"

lemma served_sum_not_nil: "served_sum ms \<noteq> ''nil''"
proof (cases "ms = []")
  case False
  then have "length (served_sum ms) = 32" by (simp add: served_sum_def DigestBuiltinMetrics_def Let_def)
  then show ?thesis by auto
qed (simp add: served_sum_def)

text \<open>The checks are those of a list the server had, whose digest the agent keeps.\<close>

definition checks_from :: "builtin_metric list list \<Rightarrow> builtin_state \<Rightarrow> bool" where
  "checks_from found st \<longleftrightarrow> st = init_builtin \<or>
    (\<exists>ms\<in>set ([] # found). bs_Checksum st = served_sum ms \<and> bs_Checks st = checks_of (served ms))"

lemma builtin_reply:
  assumes "h \<noteq> ''''" "GetBuiltinMetrics db ids hst h = Inr ms"
  shows "builtin_answer (BuiltinMetrics db ids now hst \<lparr>ah_Hostname = h, ah_Checksum = bs_Checksum st\<rparr> zero_builtin_response) st =
    (if now \<le> bs_Timestamp st \<or> served_sum ms = bs_Checksum st then st
     else \<lparr>bs_Timestamp = now, bs_Checksum = served_sum ms, bs_Checks = checks_of (served ms)\<rparr>)"
  using assms by (auto simp: BuiltinMetrics_def builtin_answer_def served_def served_sum_def zero_builtin_response_def split: prod.split)

lemma late_reply: "builtin_answer zero_builtin_response st =
    (if 0 \<le> bs_Timestamp st \<or> bs_Checksum st = '''' then st
     else \<lparr>bs_Timestamp = 0, bs_Checksum = served_sum [], bs_Checks = checks_of (served [])\<rparr>)"
  by (auto simp: builtin_answer_def zero_builtin_response_def served_def served_sum_def)

lemma check_round_answered:
  assumes "Hostname cfg os = Some h" "h \<noteq> ''''" "GetBuiltinMetrics db ids hst h = Inr ms"
  shows "snd (check_round cfg os s (Answered db ids now hst)) =
    (if now \<le> bs_Timestamp (snd s) \<or> served_sum ms = bs_Checksum (snd s) then snd s
     else \<lparr>bs_Timestamp = now, bs_Checksum = served_sum ms, bs_Checks = checks_of (served ms)\<rparr>)"
proof -
  have up: "dial_loop (\<lambda>i. True) (Suc 0) = (True, [])" by (simp add: dial_loop.simps)
  show ?thesis using assms(1) builtin_reply [OF assms(2,3), of now "snd s"]
    by (cases s) (auto simp: check_round_def syncBuiltinMetrics_def rpc_call_def serverConn_def up round_call_def)
qed

lemma check_round_from:
  assumes "Hostname cfg os = Some h" "h \<noteq> ''''" "checks_from found (snd s)"
  shows "checks_from (found_metrics h r # found) (snd (check_round cfg os s r))"
proof -
  have keep: "checks_from (l # found) (snd s)" for l using assms(3) by (auto simp: checks_from_def)
  have zero: "checks_from (l # found) (builtin_answer zero_builtin_response (snd s))" for l
    using keep by (auto simp: late_reply checks_from_def)
  show ?thesis
  proof (cases r)
    case (Answered db ids now hst)
    show ?thesis
    proof (cases "GetBuiltinMetrics db ids hst h")
      case (Inr ms)
      then show ?thesis using keep check_round_answered [OF assms(1,2) Inr, of s now]
        by (auto simp: Answered checks_from_def)
    next
      case (Inl err)
      then have "BuiltinMetrics db ids now hst \<lparr>ah_Hostname = h, ah_Checksum = c\<rparr> zero_builtin_response = zero_builtin_response" for c
        by (simp add: BuiltinMetrics_def)
      then show ?thesis using zero keep assms(1)
        by (cases s) (auto simp: check_round_def syncBuiltinMetrics_def rpc_call_def serverConn_def round_call_def Answered
            Let_def split: prod.split)
    qed
  qed (use zero keep assms(1) in \<open>cases s; auto simp: check_round_def syncBuiltinMetrics_def rpc_call_def serverConn_def round_call_def
      Let_def split: prod.split\<close>)+
qed

lemma check_rounds_from:
  assumes "Hostname cfg os = Some h" "h \<noteq> ''''" "checks_from found (snd s)"
  shows "checks_from (rev (map (found_metrics h) rounds) @ found) (snd (foldl (check_round cfg os) s rounds))"
  using assms
proof (induction rounds arbitrary: s found)
  case (Cons r rounds)
  from Cons.IH [OF Cons.prems(1,2) check_round_from [OF Cons.prems(1,2,3)]] show ?case by simp
qed simp

text \<open>
  C25: Whatever happened in the rounds before, lost and late answers included, an answer newer than the
  last one accepted leaves the agent with exactly the checks that the server's list asks for; two found
  are told apart by their digests.
\<close>

theorem checks_follow:
  assumes "Hostname cfg os = Some h" "h \<noteq> ''''" "GetBuiltinMetrics db ids hst h = Inr ms"
    and s: "s = foldl (check_round cfg os) (c, init_builtin) rounds" and "bs_Timestamp (snd s) < now"
    and digest: "\<forall>ms'\<in>set (map (found_metrics h) rounds). served_sum ms' = served_sum ms \<longrightarrow> served ms' = served ms"
  shows "bs_Checksum (snd (check_round cfg os s (Answered db ids now hst))) = served_sum ms \<and>
    bs_Checks (snd (check_round cfg os s (Answered db ids now hst))) = checks_of (served ms)"
proof (cases "served_sum ms = bs_Checksum (snd s)")
  case False
  with check_round_answered [OF assms(1-3), of s now] assms(5) show ?thesis by simp
next
  case True
  have "checks_from [] (snd (c, init_builtin))" by (simp add: checks_from_def)
  from check_rounds_from [OF assms(1,2) this, of rounds] have "checks_from (rev (map (found_metrics h) rounds)) (snd s)"
    by (simp add: s)
  moreover have "snd s \<noteq> init_builtin" using True served_sum_not_nil [of ms] by (auto simp: init_builtin_def)
  ultimately obtain ms' where ms': "ms' = [] \<or> ms' \<in> set (map (found_metrics h) rounds)"
    "bs_Checksum (snd s) = served_sum ms'" "bs_Checks (snd s) = checks_of (served ms')" by (auto simp: checks_from_def)
  have "served [] = served ms" if "served_sum [] = served_sum ms"
    using that by (auto simp: served_sum_def served_def DigestBuiltinMetrics_def Let_def dest: arg_cong [of _ _ length] split: if_splits)
  then have "served ms' = served ms" using ms'(1,2) True digest by auto
  with check_round_answered [OF assms(1-3), of s now] True ms' show ?thesis by simp
qed

definition check_cfg :: agent_config where
  "check_cfg = \<lparr>ac_Hostname = ''h'', ac_IP = '''', ac_Addrs = [''t1'', ''t2''], ac_Interval = 60, ac_DefaultTags = [],
    ac_Ignore = [], ac_MountPoint = []\<rparr>"

definition check_hbs :: hbs_state where
  "check_hbs = init_hbs\<lparr>hb_HostMap := [(''h'', 1)], hb_HostGroupsMap := [(1, [2])], hb_GroupTemplates := [(2, [3])]\<rparr>"

definition port_rows :: "string \<Rightarrow> builtin_metric rows" where
  "port_rows q = Inr [Some \<lparr>bm_Metric = ''net.port.listen'', bm_Tags = ''port=80''\<rparr>]"

lemma served_sum_empty: "served_sum ms = '''' \<longleftrightarrow> ms = []"
  by (auto simp: served_sum_def DigestBuiltinMetrics_def Let_def dest: arg_cong [of _ _ length])

lemma port_found: "GetBuiltinMetrics port_rows id check_hbs ''h'' = Inr [\<lparr>bm_Metric = ''net.port.listen'', bm_Tags = ''port=80''\<rparr>]"
  by code_simp

theorem checks_follow_witness:
  "bs_Checks (snd (check_round check_cfg None (foldl (check_round check_cfg None)
      (\<lparr>rc_Server = ''hbs'', rc_Connected = False\<rparr>, init_builtin) [Late, Refused ''x'']) (Answered port_rows id 5 check_hbs)))
    = no_checks\<lparr>ck_Ports := [80]\<rparr>"
proof -
  let ?c = "\<lparr>rc_Server = ''hbs'', rc_Connected = False\<rparr>" and ?ms = "[\<lparr>bm_Metric = ''net.port.listen'', bm_Tags = ''port=80''\<rparr>]"
  have up: "dial_loop (\<lambda>i. True) (Suc 0) = (True, [])" by (simp add: dial_loop.simps)
  have now: "bs_Timestamp (snd (foldl (check_round check_cfg None) (?c, init_builtin) [Late, Refused ''x''])) < 5"
    by (simp add: check_round_def syncBuiltinMetrics_def rpc_call_def serverConn_def up round_call_def Hostname_def check_cfg_def
        init_builtin_def builtin_answer_def zero_builtin_response_def)
  have digest: "\<forall>ms'\<in>set (map (found_metrics ''h'') [Late, Refused ''x'']). served_sum ms' = served_sum ?ms \<longrightarrow> served ms' = served ?ms"
    using served_sum_empty [of ?ms] by (auto simp: served_sum_def)
  have "checks_of (served ?ms) = no_checks\<lparr>ck_Ports := [80]\<rparr>"
    unfolding served_def DigestBuiltinMetrics_def Let_def by (simp add: checks_of_def) code_simp
  moreover have "Hostname check_cfg None = Some ''h''" by (simp add: Hostname_def check_cfg_def)
  ultimately show ?thesis using checks_follow [OF _ _ port_found refl now digest] by simp
qed

section \<open>Sending\<close>

text \<open>Whether a transfer takes a batch: a connection exists or can be made, and it does not answer with an error.\<close>

definition takes :: "transfer_env \<Rightarrow> metric_value list \<Rightarrow> transfer_clients \<Rightarrow> string \<Rightarrow> bool" where
  "takes env ms C addr \<longleftrightarrow> list_all encodable ms \<and>
    (rc_Connected (client_of C addr) \<or> fst (dial_loop (te_up env addr) 1)) \<and>
    (case te_outcome env addr of RpcError err \<Rightarrow> False | _ \<Rightarrow> True)"

definition clients_ok :: "transfer_clients \<Rightarrow> bool" where
  "clients_ok C \<longleftrightarrow> list_all (\<lambda>(addr, c). rc_Server c = addr) C"

lemma client_of_server: "clients_ok C \<Longrightarrow> rc_Server (client_of C addr) = addr"
  by (auto simp: clients_ok_def client_of_def list_all_iff split: option.split dest!: map_of_SomeD)

lemma updateMetrics_sent:
  assumes "clients_ok C"
  shows "fst (snd (updateMetrics env ms resp (client_of C addr))) = takes env ms C addr \<and>
    rc_Server (fst (updateMetrics env ms resp (client_of C addr))) = addr"
  using client_of_server [OF assms, of addr]
  by (auto simp: updateMetrics_def rpc_call_def serverConn_def takes_def Let_def split: prod.split rpc_outcome.split)

lemma clients_ok_put: "clients_ok C \<Longrightarrow> rc_Server c = addr \<Longrightarrow> clients_ok (gput addr c C)"
  by (induction C) (auto simp: clients_ok_def)

lemma takes_put: "b \<noteq> addr \<Longrightarrow> takes env ms (gput addr c C) b = takes env ms C b"
  by (simp add: takes_def client_of_def)

lemma send_loop_first:
  assumes "clients_ok C" "distinct addrs"
  shows "case send_loop env ms addrs C resp of (C', resp', asked, r) \<Rightarrow> clients_ok C' \<and>
    asked = takeWhile (\<lambda>a. \<not> takes env ms C a) addrs @ take 1 (dropWhile (\<lambda>a. \<not> takes env ms C a) addrs) \<and>
    r = list_ex (takes env ms C) addrs"
  using assms
proof (induction addrs arbitrary: C resp)
  case (Cons addr addrs)
  obtain c sent resp1 where u: "updateMetrics env ms resp (client_of C addr) = (c, sent, resp1)" by (metis prod_cases3)
  with updateMetrics_sent [OF Cons.prems(1), of env ms resp addr] have s: "sent = takes env ms C addr" "rc_Server c = addr" by simp_all
  note ok = clients_ok_put [OF Cons.prems(1) s(2)]
  have same: "takes env ms (gput addr c C) b = takes env ms C b" if "b \<in> set addrs" for b
    using that Cons.prems(2) by (intro takes_put) auto
  have tw: "takeWhile (\<lambda>a. \<not> takes env ms (gput addr c C) a) addrs = takeWhile (\<lambda>a. \<not> takes env ms C a) addrs"
    "dropWhile (\<lambda>a. \<not> takes env ms (gput addr c C) a) addrs = dropWhile (\<lambda>a. \<not> takes env ms C a) addrs"
    by (auto intro!: takeWhile_cong dropWhile_cong simp: same)
  have ex: "list_ex (takes env ms (gput addr c C)) addrs = list_ex (takes env ms C) addrs"
    using same by (auto simp: list_ex_iff)
  show ?case using Cons.IH [OF ok, of resp1] Cons.prems(2) s
    by (auto simp: u ok tw ex Let_def split: prod.splits)
qed simp

text \<open>
  A batch goes to the first transfer, in the random order, that can be reached and does not answer
  with an error; those before it were asked in vain, none after it is asked. A transfer that is late
  counts as one that took the batch.
\<close>

theorem SendMetrics_first:
  assumes "clients_ok C" "distinct (ac_Addrs cfg)" "distinct perm" "list_all (\<lambda>i. i < length (ac_Addrs cfg)) perm"
    and order: "order = map (\<lambda>i. ac_Addrs cfg ! i) perm"
  shows "case SendMetrics cfg env perm ms C resp of (C', resp', asked, sent) \<Rightarrow> clients_ok C' \<and>
    asked = takeWhile (\<lambda>a. \<not> takes env ms C a) order @ take 1 (dropWhile (\<lambda>a. \<not> takes env ms C a) order) \<and>
    sent = list_ex (takes env ms C) order"
proof -
  have "inj_on (\<lambda>i. ac_Addrs cfg ! i) (set perm)"
    using assms(2,4) by (auto simp: inj_on_def nth_eq_iff_index_eq list_all_iff)
  then have "distinct order" using assms(3) by (simp add: order distinct_map)
  from send_loop_first [OF assms(1) this, of env ms resp] show ?thesis unfolding SendMetrics_def order .
qed

definition late_then_up :: transfer_env where
  "late_then_up = \<lparr>te_up = (\<lambda>addr i. addr \<noteq> ''t1''), te_outcome = (\<lambda>addr. if addr = ''t2'' then RpcTimeout else RpcReply zero_transfer_response)\<rparr>"

theorem SendMetrics_first_witness:
  "case SendMetrics (check_cfg\<lparr>ac_Addrs := [''t1'', ''t2'', ''t3'']\<rparr>) late_then_up [0, 1, 2] AgentMetrics [] zero_transfer_response of
    (C', resp', asked, sent) \<Rightarrow> asked = [''t1'', ''t2''] \<and> sent"
proof -
  have dial: "\<not> fst (dial_loop (\<lambda>i. False) (Suc 0))" "dial_loop (\<lambda>i. True) (Suc 0) = (True, [])"
    by (simp_all add: dial_loop.simps split: prod.split)
  have t: "\<not> takes late_then_up AgentMetrics [] ''t1''" "takes late_then_up AgentMetrics [] ''t2''"
    by (simp_all add: takes_def late_then_up_def AgentMetrics_def GaugeValue_def NewMetricValue_def encodable_def client_of_def dial)
  show ?thesis
    using SendMetrics_first [of "[]" "check_cfg\<lparr>ac_Addrs := [''t1'', ''t2'', ''t3'']\<rparr>" "[0, 1, 2]" _ late_then_up AgentMetrics zero_transfer_response, OF _ _ _ _ refl] t
    by (auto simp: clients_ok_def)
qed

lemma util_unknown: "disk_util 0 0 = NaN"
  by code_simp

lemma not_encodable_batch:
  assumes "mv \<in> set ms" "\<not> encodable mv"
  shows "case send_loop env ms addrs C resp of (C', resp', asked, sent) \<Rightarrow> asked = addrs \<and> \<not> sent"
proof -
  have "\<not> list_all encodable ms" using assms by (auto simp: list_all_iff)
  then show ?thesis
  proof (induction addrs arbitrary: C resp)
    case (Cons addr addrs)
    then have "\<not> fst (snd (updateMetrics env ms resp (client_of C addr)))"
      by (auto simp: updateMetrics_def rpc_call_def Let_def split: prod.split)
    moreover obtain c sent resp1 where "updateMetrics env ms resp (client_of C addr) = (c, sent, resp1)" by (metis prod_cases3)
    ultimately show ?case using Cons.IH [OF Cons.prems, of "gput addr c C" resp1] by (auto split: prod.splits)
  qed simp
qed

text \<open>
  C28: A disk of which there is only one reading has no use per time: its \<open>disk.io.util\<close> is a NaN, which
  JSON cannot carry, so no transfer gets any of the points collected in that round, those of the
  processor, of memory and of the network included, though every one is asked.
\<close>

theorem new_disk_poisons_batch:
  assumes "gget (re_disks r) dev = Some (ds, None)" "ShouldHandleDevice dev" "gget (ac_Ignore cfg) ''disk.io.util'' \<noteq> Some True"
    and "Hostname cfg os = Some h"
    and "collect_round cfg env perm sec os now (fst (BuildMappers cfg k os r ! 0)) C = Some (C', ms, asked, sent)"
  shows "asked = map (\<lambda>i. ac_Addrs cfg ! i) perm \<and> \<not> sent"
proof -
  let ?util = "GaugeValue ''disk.io.util'' (VFloat NaN) [''device='' @ dev]"
  from assms(5) obtain items where items: "those (fst (BuildMappers cfg k os r ! 0)) = Some items"
    and sent: "(C', ms, asked, sent) = SendToTransfer cfg env perm (collected cfg sec h now items) C"
    using assms(4) by (auto simp: collect_round_def split: bind_splits)
  have zero: "IODelta (re_disks r) dev f = 0" for f by (simp add: IODelta_def assms(1))
  have "?util \<in> set (device_stats (re_disks r) dev)" by (simp add: device_stats_def zero util_unknown Let_def)
  moreover have "dev \<in> set (filter ShouldHandleDevice (map fst (re_disks r)))"
    using assms(1,2) by (force dest: map_of_SomeD)
  ultimately have "?util \<in> set (IOStatsMetrics (re_disks r))" unfolding IOStatsMetrics_def by auto
  moreover have "IOStatsMetrics (re_disks r) \<in> set items"
    using items by (auto simp: BuildMappers_def split: option.splits)
  ultimately have "?util \<in> set (concat items)" by auto
  then have c: "stamped sec h now ?util \<in> set (collected cfg sec h now items)"
    using assms(3) by (auto simp: collected_def GaugeValue_def NewMetricValue_def)
  then have ne: "collected cfg sec h now items \<noteq> []" by auto
  have "add_default_tags cfg (stamped sec h now ?util) \<in> set (map (add_default_tags cfg) (collected cfg sec h now items))"
    using c by simp
  moreover have "\<not> encodable (add_default_tags cfg (stamped sec h now ?util))"
    by (simp add: encodable_def add_default_tags_def stamped_def GaugeValue_def NewMetricValue_def)
  ultimately show ?thesis
    using not_encodable_batch [where env = env and C = C and addrs = "map (\<lambda>i. ac_Addrs cfg ! i) perm" and resp = zero_transfer_response] sent ne
    by (fastforce simp: SendToTransfer_def SendMetrics_def split: prod.splits)
qed

definition one_reading :: disk_stats where
  "one_reading = \<lparr>ds_Device = ''vdb'', ds_ReadRequests = 1, ds_ReadMerged = 0, ds_ReadSectors = 8, ds_MsecRead = 1,
    ds_WriteRequests = 0, ds_WriteMerged = 0, ds_WriteSectors = 0, ds_MsecWrite = 0, ds_IosInProgress = 0,
    ds_MsecTotal = 1, ds_MsecWeightedTotal = 1, ds_TS = 7\<rparr>"

definition new_disk_readings :: agent_readings where
  "new_disk_readings = \<lparr>re_cpu = (None, None), re_disks = UpdateDiskStats (Some [one_reading]) [], re_diskstats = None, re_netifs = None,
    re_kernel = (None, None, None), re_load = None, re_mem = None, re_tcpext = None, re_udp = None, re_sockets = None, re_procs = None,
    re_mounts = None, re_usage = (\<lambda>m. None), re_tcp = None, re_udp_ports = None, re_du = (\<lambda>p. None), re_curl = (\<lambda>u t. None)\<rparr>"

theorem new_disk_poisons_batch_witness:
  "\<exists>C' ms. collect_round check_cfg late_then_up [1, 0] 60 None 0 (fst (BuildMappers check_cfg no_checks None new_disk_readings ! 0)) []
    = Some (C', ms, [''t2'', ''t1''], False)"
proof -
  have h: "Hostname check_cfg None = Some ''h''" by (simp add: Hostname_def check_cfg_def)
  have disk: "gget (re_disks new_disk_readings) ''vdb'' = Some (one_reading, None)"
    by (simp add: new_disk_readings_def UpdateDiskStats_def disk_step_def one_reading_def)
  have dev: "ShouldHandleDevice ''vdb''" by code_simp
  have "collect_round check_cfg late_then_up [1, 0] 60 None 0 (fst (BuildMappers check_cfg no_checks None new_disk_readings ! 0)) [] \<noteq> None"
    by (simp add: collect_round_def h BuildMappers_def new_disk_readings_def CpuMetrics_def CpuPrepared_def split: prod.split)
  then obtain C' ms asked sent where c: "collect_round check_cfg late_then_up [1, 0] 60 None 0
      (fst (BuildMappers check_cfg no_checks None new_disk_readings ! 0)) [] = Some (C', ms, asked, sent)" by auto
  from new_disk_poisons_batch [OF disk dev _ h c] show ?thesis using c by (simp add: check_cfg_def)
qed

section \<open>Points the transfer takes\<close>

definition good_point :: "metric_value \<Rightarrow> bool" where
  "good_point mv \<longleftrightarrow> mv_Metric mv \<noteq> '''' \<and> mv_Metric mv \<noteq> ''kernel.hostname'' \<and> mv_Type mv \<in> {COUNTER, GAUGE} \<and>
    (case mv_Value mv of VInt i \<Rightarrow> True | VFloat f \<Rightarrow> True | _ \<Rightarrow> False)"

named_theorems good_points

lemma good_Gauge [good_points]:
  "m \<noteq> '''' \<Longrightarrow> m \<noteq> ''kernel.hostname'' \<Longrightarrow> good_point (GaugeValue m (VInt i) t) \<and> good_point (GaugeValue m (VFloat f) t) \<and>
    good_point (GaugeValue m (VUint w) t)"
  by (simp add: good_point_def GaugeValue_def NewMetricValue_def VUint_def GAUGE_def)

lemma good_Counter [good_points]:
  "m \<noteq> '''' \<Longrightarrow> m \<noteq> ''kernel.hostname'' \<Longrightarrow> good_point (CounterValue m (VInt i) t) \<and> good_point (CounterValue m (VFloat f) t) \<and>
    good_point (CounterValue m (VUint w) t)"
  by (simp add: good_point_def CounterValue_def NewMetricValue_def VUint_def COUNTER_def)

lemma good_agent: "list_all good_point AgentMetrics"
  by (simp add: AgentMetrics_def good_points)

lemma good_cpu: "CpuMetrics h = Some L \<Longrightarrow> list_all good_point L"
  unfolding CpuMetrics_def by (clarsimp simp: good_points split: if_splits bind_splits)

lemma good_net: "list_all good_point (CoreNetMetrics n)"
  unfolding CoreNetMetrics_def Let_def
  by (cases n) (simp_all add: list_all_iff good_points)

lemma good_kernel: "list_all good_point (KernelMetrics a b c)" "list_all good_point (LoadAvgMetrics l)"
  by (simp_all add: KernelMetrics_def LoadAvgMetrics_def good_points split: option.split)

lemma good_mem: "list_all good_point (MemMetrics mem)"
  unfolding MemMetrics_def Let_def by (cases mem) (simp_all add: good_points)

lemma good_disk: "list_all good_point (DiskIOMetrics d)"
  unfolding DiskIOMetrics_def Let_def by (cases d) (simp_all add: list_all_iff good_points)

lemma good_iostats: "list_all good_point (IOStatsMetrics dm)"
  unfolding IOStatsMetrics_def device_stats_def Let_def by (simp add: list_all_iff good_points)

lemma good_protocols: "list_all good_point (NetstatMetrics tcp)" "list_all good_point (UdpMetrics u)"
  "list_all good_point (SocketStatSummaryMetrics ss)"
  by (auto simp: NetstatMetrics_def UdpMetrics_def SocketStatSummaryMetrics_def list_all_iff good_points split: option.split)

lemma good_checks: "list_all good_point (ProcMetrics pr ps)" "list_all good_point (PortMetrics rp t6 u6)"
  "list_all good_point (UrlMetrics urls hn curl)"
  by (auto simp: ProcMetrics_def PortMetrics_def UrlMetrics_def PROC_NUM_def NET_PORT_LISTEN_def URL_CHECK_HEALTH_def
      list_all_iff good_points split: option.split)

lemma good_usage: "mv \<in> set (usage_points du) \<Longrightarrow> good_point mv"
  unfolding usage_points_def Let_def by (auto simp: good_points)

lemma good_devices: "list_all good_point (DeviceMetrics cf mp us)"
  unfolding DeviceMetrics_def Let_def
  by (cases mp) (auto simp: list_all_iff good_points dest: good_usage)

lemma good_du: "DuMetrics out paths = Some L \<Longrightarrow> list_all good_point L"
proof -
  have pt: "du_point p o1 = Some P \<Longrightarrow> list_all good_point P" for p o1 P
    by (auto simp: du_point_def DU_BS_def good_points split: option.splits list.splits)
  have "foldM (\<lambda>L path. map_option (\<lambda>P. L @ P) (du_point path (out path))) L0 paths = Some L \<Longrightarrow> list_all good_point L0 \<Longrightarrow> list_all good_point L"
    for L0
    by (induction paths arbitrary: L0) (auto dest: pt split: bind_splits option.splits)
  then show "DuMetrics out paths = Some L \<Longrightarrow> list_all good_point L" by (simp add: DuMetrics_def)
qed

lemma good_built:
  assumes "(fns, sec) \<in> set (BuildMappers cfg k hn r)" "those fns = Some items" "mv \<in> set (concat items)"
  shows "good_point mv \<and> sec = ac_Interval cfg"
proof -
  have item: "Some L \<in> set fns" if "L \<in> set items" for L
  proof -
    have "those gs = Some is \<Longrightarrow> map Some is = gs" for gs :: "metric_value list option list" and "is"
      by (induction gs arbitrary: "is") (auto split: option.splits)
    then show ?thesis using assms(2) that by (metis image_eqI set_map)
  qed
  from assms(3) obtain L where L: "L \<in> set items" "mv \<in> set L" by auto
  from item [OF L(1)] assms(1) have "list_all good_point L"
    unfolding BuildMappers_def
    by (auto simp: good_agent good_net good_kernel good_mem good_disk good_iostats good_protocols good_checks good_devices
        good_cpu good_du split: prod.splits)
  moreover have "sec = ac_Interval cfg" using assms(1) by (auto simp: BuildMappers_def)
  ultimately show ?thesis using L(2) by (simp add: list_all_iff)
qed

text \<open>
  What the other side decodes: a number that went through JSON is a floating-point number. NaN and the
  infinities have no encoding, and the encoder fails.
\<close>

definition over_json :: "metric_value \<Rightarrow> metric_value option" where
  "over_json mv =
    (if \<not> encodable mv then None
     else Some (case mv_Value mv of VInt i \<Rightarrow> mv\<lparr>mv_Value := VFloat (f_of_int i)\<rparr> | _ \<Rightarrow> mv))"

lemma over_json_None: "over_json mv = None \<longleftrightarrow> (\<exists>x. mv_Value mv = VFloat x \<and> (x = NaN \<or> (\<exists>s. x = Inf s)))"
  by (auto simp: over_json_def encodable_def split: iface.split float64.split)

text \<open>
  C27: A point the agent's collectors made in a round, and which JSON can carry, is one the transfer takes,
  with the agent's name, its metric and the interval as step, and its metric is not one the
  configuration ignores; whatever the readings of the system, the checks asked for and the clock of the
  transfer. The interval must be positive and the agent must know its name. Two
  kinds of points are left out: those whose metric and tags together have more than 510 bytes, which the
  transfer refuses, and those whose value is NaN or infinite, which have no encoding (\<open>over_json\<close> is
  \<open>None\<close>): such a point also keeps every other point of its batch from being sent (C28).
\<close>

theorem collected_points_taken:
  assumes "(fns, sec) \<in> set (BuildMappers cfg k os r)" "0 < ac_Interval cfg" "Hostname cfg os = Some h" "h \<noteq> ''''"
    and "collect_round cfg env perm sec os now fns C = Some (C', ms, asked, sent)" "mv \<in> set ms"
    and "length (mv_Metric mv) + length (mv_Tags mv) \<le> 510" and json: "over_json mv = Some arrived"
  shows "\<exists>d. recv_point now' (Some arrived) = Some d \<and> md_Endpoint d = h \<and> md_Metric d = mv_Metric mv \<and>
    md_Step d = ac_Interval cfg \<and> gget (ac_Ignore cfg) (md_Metric d) \<noteq> Some True"
proof -
  from assms(5) obtain items where items: "those fns = Some items"
    and sent: "(C', ms, asked, sent) = SendToTransfer cfg env perm (collected cfg sec h now items) C"
    using assms(3) by (auto simp: collect_round_def split: bind_splits)
  have "mv \<in> set (map (add_default_tags cfg) (collected cfg sec h now items))"
    using sent assms(6) by (auto simp: SendToTransfer_def Let_def split: if_splits prod.splits)
  then have "\<exists>mv0\<in>set (concat items). gget (ac_Ignore cfg) (mv_Metric mv0) \<noteq> Some True \<and> mv = add_default_tags cfg (stamped sec h now mv0)"
    by (fastforce simp: collected_def)
  then obtain mv0 where mv0: "mv0 \<in> set (concat items)" "gget (ac_Ignore cfg) (mv_Metric mv0) \<noteq> Some True"
    "mv = add_default_tags cfg (stamped sec h now mv0)" by blast
  from good_built [OF assms(1) items mv0(1)] have g: "good_point mv0" "sec = ac_Interval cfg" by auto
  have f: "mv_Metric mv = mv_Metric mv0" "mv_Endpoint mv = h" "mv_Step mv = sec" "mv_Type mv = mv_Type mv0" "mv_Value mv = mv_Value mv0"
    by (simp_all add: mv0 add_default_tags_def stamped_def)
  obtain x where x: "arrived = mv\<lparr>mv_Value := VFloat x\<rparr>"
  proof (cases "mv_Value mv0")
    case (VFloat x)
    then have "mv = mv\<lparr>mv_Value := VFloat x\<rparr>" using f(5) by (cases mv) simp
    moreover have "arrived = mv" using json f(5) VFloat by (simp add: over_json_def split: if_splits)
    ultimately have "arrived = mv\<lparr>mv_Value := VFloat x\<rparr>" by (rule back_subst [where P = "\<lambda>v. arrived = v", rotated])
    then show ?thesis by (rule that)
  next
    case (VInt i)
    then have "arrived = mv\<lparr>mv_Value := VFloat (f_of_int i)\<rparr>" using json f(5) by (simp add: over_json_def split: if_splits)
    then show ?thesis by (rule that)
  qed (use g(1) in \<open>simp_all add: good_point_def\<close>)
  show ?thesis using g f(1-4) assms(2,4,7) mv0(2)
    by (auto simp: x recv_point_def good_point_def value_of_iface_def Let_def)
qed


definition idle_readings :: agent_readings where
  "idle_readings = new_disk_readings\<lparr>re_disks := []\<rparr>"

theorem collected_points_taken_witness:
  "\<exists>d. recv_point 1000 (over_json (stamped 60 ''h'' 1000 (GaugeValue ''agent.alive'' (VInt 1) []))) = Some d \<and>
    md_Endpoint d = ''h'' \<and> md_Metric d = ''agent.alive'' \<and> md_Step d = 60"
proof -
  let ?fns = "fst (BuildMappers check_cfg no_checks None idle_readings ! 0)"
  let ?mv = "stamped 60 ''h'' 1000 (GaugeValue ''agent.alive'' (VInt 1) [])"
  have h: "Hostname check_cfg None = Some ''h''" by (simp add: Hostname_def check_cfg_def)
  have m: "(?fns, 60) \<in> set (BuildMappers check_cfg no_checks None idle_readings)" by (simp add: BuildMappers_def check_cfg_def)
  have cfg: "ac_Ignore check_cfg = []" "ac_DefaultTags check_cfg = []" by (simp_all add: check_cfg_def)
  have "\<exists>C' asked sent. collect_round check_cfg late_then_up [1, 0] 60 None 1000 ?fns [] = Some (C', [?mv], asked, sent)"
    by (simp add: collect_round_def h cfg BuildMappers_def idle_readings_def new_disk_readings_def CpuMetrics_def CpuPrepared_def AgentMetrics_def
        CoreNetMetrics_def KernelMetrics_def LoadAvgMetrics_def MemMetrics_def DiskIOMetrics_def IOStatsMetrics_def NetstatMetrics_def
        ProcMetrics_def UdpMetrics_def no_checks_def collected_def SendToTransfer_def add_default_tags_def Let_def
        GaugeValue_def NewMetricValue_def stamped_def split: prod.split)
  then obtain C' asked sent where c: "collect_round check_cfg late_then_up [1, 0] 60 None 1000 ?fns [] = Some (C', [?mv], asked, sent)" by blast
  have j: "over_json ?mv = Some (?mv\<lparr>mv_Value := VFloat (f_of_int 1)\<rparr>)"
    by (simp add: over_json_def encodable_def stamped_def GaugeValue_def NewMetricValue_def)
  from collected_points_taken [OF m _ h _ c _ _ j, of 1000] show ?thesis unfolding j
    by (simp add: check_cfg_def stamped_def GaugeValue_def NewMetricValue_def)
qed

section \<open>Connections and trusted addresses\<close>

lemma dial_four: "dial_loop up (Suc 0) =
  (if up 1 then (True, []) else if up 2 then (True, [2]) else if up 3 then (True, [2, 4]) else (up 4, [2, 4, 8]))"
proof -
  have "dial_loop up 4 = (up 4, [])" by (subst dial_loop.simps) simp
  then have "dial_loop up 3 = (if up 3 then (True, []) else (up 4, [8]))" by (subst dial_loop.simps) simp
  then have "dial_loop up 2 = (if up 2 then (True, []) else if up 3 then (True, [4]) else (up 4, [4, 8]))" by (subst dial_loop.simps) simp
  then show ?thesis by (subst dial_loop.simps) (simp add: numeral_2_eq_2)
qed

text \<open>
  Dialling ends: at most four attempts with pauses of at most fourteen seconds in all, and it fails only
  if every one of the four failed.
\<close>

theorem dial_bounds:
  "case dial_loop up 1 of (ok, naps) \<Rightarrow> length naps \<le> 3 \<and> sum_list naps \<le> 14 \<and> ok = list_ex up [1, 2, 3, 4]"
  by (simp add: dial_four)

lemma last_colon:
  assumes "CHR '':'' \<notin> set port"
  shows "go_last_index (ip @ CHR '':'' # port) (CHR '':'') = int (length ip)"
proof -
  have "takeWhile (\<lambda>x. x \<noteq> CHR '':'') (rev port @ CHR '':'' # rev ip) = rev port"
    using assms by (subst takeWhile_append2) auto
  then show ?thesis by (simp add: go_last_index_def)
qed

lemma IsTrustable_addr:
  assumes "CHR '':'' \<notin> set port" "ip \<noteq> ''''"
  shows "IsTrustable ips (ip @ CHR '':'' # port) \<longleftrightarrow> ip = ''127.0.0.1'' \<or> ip \<in> set ips"
  using assms by (simp add: IsTrustable_def last_colon Let_def)

text \<open>
  Who may command the agent after a round: the addresses the heartbeat server lists, and the machine
  itself. If the answer is late the agent forgets the list and trusts itself only; if the server cannot be
  reached or answers with an error, the list stays.
\<close>

theorem trust_follows:
  assumes "CHR '':'' \<notin> set port" "ip \<noteq> ''''"
  shows "IsTrustable (snd (syncTrustableIps up outcome (c, ips))) (ip @ CHR '':'' # port) \<longleftrightarrow> ip = ''127.0.0.1'' \<or>
    (if \<not> rc_Connected c \<and> \<not> list_ex up [1, 2, 3, 4] then ip \<in> set ips
     else case outcome of RpcReply r \<Rightarrow> ip \<in> set (go_split (CHR '','') r) | RpcError err \<Rightarrow> ip \<in> set ips | RpcTimeout \<Rightarrow> False)"
proof -
  have "fst (dial_loop up 1) = list_ex up [1, 2, 3, 4]"
    by (simp add: dial_four)
  moreover have "go_split (CHR '','') '''' = ['''']" by code_simp
  ultimately show ?thesis
    by (auto simp: IsTrustable_addr [OF assms] assms(2) syncTrustableIps_def rpc_call_def serverConn_def SetTrustableIps_def Let_def
        split: prod.splits rpc_outcome.splits)
qed

theorem trust_follows_witness:
  "\<not> IsTrustable (snd (syncTrustableIps (\<lambda>i. True) RpcTimeout (\<lparr>rc_Server = ''hbs'', rc_Connected = True\<rparr>, [''10.0.0.1'']))) ''10.0.0.1:999''"
  using trust_follows [of "''999''" "''10.0.0.1''" "\<lambda>i. True" RpcTimeout "\<lparr>rc_Server = ''hbs'', rc_Connected = True\<rparr>" "[''10.0.0.1'']"]
  by simp

end
