(* ===== verification/Api_Graph.thy ===== *)
theory Api_Graph
  imports Api_Base Graph_Query Nodata_Core Transfer_Core
begin

text \<open>
  The API's client of the graphs (\<open>modules/api/graph\<close>) and its handlers for series
  (\<open>controller/graph\<close>, \<open>model/graph\<close>): which node is asked, what is made of its answer, searches in the
  index, its deletion, and the routes for Grafana. The answer of a node is an argument, as are the
  answers of the database to conditions the code puts together as text.
\<close>

section \<open>The nodes\<close>

record graph_client =
  gn_clusterMap :: "(string, string) gomap"
  gn_Ring :: ring
  gn_Pools :: "string list"

definition api_initNodeRings :: "int \<Rightarrow> (string, string) gomap \<Rightarrow> ring option" where
  "api_initNodeRings replicas clusterMap = NewConsistentHashNodesRing (i32 replicas) (KeysOfMap clusterMap)"

definition api_initConnPools :: "(string, string) gomap \<Rightarrow> string list" where
  "api_initConnPools clusterMap = remdups (map snd clusterMap)"

text \<open>A panic starts the whole again, with the same cluster: \<open>None\<close> is a start that never returns.\<close>

definition api_graph_Start :: "int \<Rightarrow> (string, string) gomap \<Rightarrow> graph_client option" where
  "api_graph_Start replicas addrs = do {
    r \<leftarrow> api_initNodeRings replicas addrs;
    Some \<lparr>gn_clusterMap = addrs, gn_Ring = r, gn_Pools = api_initConnPools addrs\<rparr>
  }"

definition selectPoolByPK :: "graph_client \<Rightarrow> string \<Rightarrow> (string + string) option" where
  "selectPoolByPK cl pk = do {
    r \<leftarrow> GetNode (gn_Ring cl) pk;
    Some (case r of
       Inl err \<Rightarrow> Inl ''empty circle''
     | Inr node \<Rightarrow>
        (case gget (gn_clusterMap cl) node of
           None \<Rightarrow> Inl ''node not found''
         | Some addr \<Rightarrow> if addr \<in> set (gn_Pools cl) then Inr addr else Inl ''addr not found''))
  }"

definition selectPool :: "graph_client \<Rightarrow> string \<Rightarrow> string \<Rightarrow> (string + string) option" where
  "selectPool cl endpoint counter = selectPoolByPK cl (PK2 endpoint counter)"

text \<open>What becomes of a call: no connection, a closed one, no answer in time, an error, an answer.\<close>

datatype 'a graph_outcome = FetchFailed string | ConnClosed | CallTimeout | CallFailed string | CallReply 'a

definition GenQParam :: "string \<Rightarrow> string \<Rightarrow> string \<Rightarrow> int64 \<Rightarrow> int64 \<Rightarrow> query_param" where
  "GenQParam endpoint counter consolFun stime etime =
    \<lparr>qp_Start = stime, qp_End = etime, qp_ConsolFun = consolFun, qp_Endpoint = endpoint, qp_Counter = counter\<rparr>"

definition zero_query_response :: query_response where
  "zero_query_response = \<lparr>qr_Endpoint = '''', qr_Counter = '''', qr_DsType = '''', qr_Step = 0, qr_Values = []\<rparr>"

definition fix_value :: "string \<Rightarrow> rrd_data \<Rightarrow> rrd_data" where
  "fix_value dsType v =
    (if (dsType = ''DERIVE'' \<or> dsType = ''COUNTER'') \<and> f_lt (rd_Value v) f_zero then rd (rd_Timestamp v) NaN else v)"

definition fixed_values :: "int64 \<Rightarrow> int64 \<Rightarrow> query_response \<Rightarrow> query_response" where
  "fixed_values start en resp =
    resp\<lparr>qr_Values := map (fix_value (qr_DsType resp))
      (filter (\<lambda>v. start \<le> rd_Timestamp v \<and> rd_Timestamp v \<le> en) (qr_Values resp))\<rparr>"

text \<open>The answer, \<open>None\<close> for a nil pointer, and the error. The calls of \<open>ask\<close> are to an address.\<close>

definition QueryOne ::
    "graph_client \<Rightarrow> (string \<Rightarrow> query_param \<Rightarrow> query_response graph_outcome) \<Rightarrow> query_param
      \<Rightarrow> (query_response option \<times> string option) option" where
  "QueryOne cl ask para = do {
    sel \<leftarrow> selectPool cl (qp_Endpoint para) (qp_Counter para);
    Some (case sel of
       Inl err \<Rightarrow> (Some zero_query_response, Some err)
     | Inr addr \<Rightarrow>
        (case ask addr para of
           FetchFailed err \<Rightarrow> (Some zero_query_response, Some err)
         | ConnClosed \<Rightarrow> (Some zero_query_response, Some ''conn closed'')
         | CallTimeout \<Rightarrow> (None, Some (addr @ '', call timeout''))
         | CallFailed err \<Rightarrow> (Some zero_query_response, Some (addr @ '', call failed, err '' @ err))
         | CallReply r \<Rightarrow> (Some (fixed_values (qp_Start para) (qp_End para) r), None)))
  }"

definition delete_pk :: "graph_delete_param \<Rightarrow> string option" where
  "delete_pk para =
    (case SplitTagsString (dp_Tags para) of
       (Some err, tags) \<Rightarrow> None
     | (None, tags) \<Rightarrow> Some (PK2 (dp_Endpoint para) (Counter (dp_Metric para) tags)))"

definition delete_nodes :: "graph_delete_param list \<Rightarrow> (string, graph_delete_param list) gomap" where
  "delete_nodes params =
    foldl (\<lambda>m para. case delete_pk para of None \<Rightarrow> m | Some pk \<Rightarrow> add_to_bucket pk para m) [] params"

text \<open>The calls that are made, address and parameters; errors are only logged.\<close>

definition delete_node ::
    "graph_client \<Rightarrow> (string \<Rightarrow> bool) \<Rightarrow> (string \<times> graph_delete_param list) list \<Rightarrow> string \<times> graph_delete_param list
      \<Rightarrow> (string \<times> graph_delete_param list) list option" where
  "delete_node cl reach calls np = do {
    sel \<leftarrow> selectPoolByPK cl (fst np);
    Some (case sel of Inl err \<Rightarrow> calls | Inr addr \<Rightarrow> if reach addr then calls @ [(addr, snd np)] else calls)
  }"

definition api_Delete ::
    "graph_client \<Rightarrow> (string \<Rightarrow> bool) \<Rightarrow> ((string, graph_delete_param list) gomap \<Rightarrow> (string, graph_delete_param list) gomap)
      \<Rightarrow> graph_delete_param list \<Rightarrow> (string \<times> graph_delete_param list) list option" where
  "api_Delete cl reach visit params = foldM (delete_node cl reach) [] (visit (delete_nodes params))"

record graph_info_resp =
  gr_ConsolFun :: string
  gr_Step :: int
  gr_Filename :: string

record graph_fully_info =
  fi_Endpoint :: string
  fi_Counter :: string
  fi_ConsolFun :: string
  fi_Step :: int
  fi_Filename :: string
  fi_Addr :: string

definition api_Info ::
    "graph_client \<Rightarrow> (string \<Rightarrow> string \<Rightarrow> string \<Rightarrow> graph_info_resp graph_outcome) \<Rightarrow> string \<Rightarrow> string
      \<Rightarrow> (graph_fully_info option \<times> string option) option" where
  "api_Info cl ask endpoint counter = do {
    sel \<leftarrow> selectPool cl endpoint counter;
    Some (case sel of
       Inl err \<Rightarrow> (None, Some err)
     | Inr addr \<Rightarrow>
        (case ask addr endpoint counter of
           FetchFailed err \<Rightarrow> (None, Some err)
         | ConnClosed \<Rightarrow> (None, Some ''conn closed'')
         | CallTimeout \<Rightarrow> (None, Some (addr @ '', call timeout''))
         | CallFailed err \<Rightarrow> (None, Some (addr @ '', call failed, err '' @ err))
         | CallReply r \<Rightarrow> (Some \<lparr>fi_Endpoint = endpoint, fi_Counter = counter, fi_ConsolFun = gr_ConsolFun r,
             fi_Step = gr_Step r, fi_Filename = gr_Filename r, fi_Addr = addr\<rparr>, None)))
  }"

definition zero_last_resp :: graph_last_resp where
  "zero_last_resp = \<lparr>gl_Endpoint = '''', gl_Counter = '''', gl_Value = None\<rparr>"

text \<open>\<open>Last\<close> and \<open>LastRaw\<close> differ in the method that is called.\<close>

definition api_Last ::
    "graph_client \<Rightarrow> (string \<Rightarrow> string \<Rightarrow> string \<Rightarrow> graph_last_resp graph_outcome) \<Rightarrow> string \<Rightarrow> string
      \<Rightarrow> (graph_last_resp option \<times> string option) option" where
  "api_Last cl ask endpoint counter = do {
    sel \<leftarrow> selectPool cl endpoint counter;
    Some (case sel of
       Inl err \<Rightarrow> (None, Some err)
     | Inr addr \<Rightarrow>
        (case ask addr endpoint counter of
           FetchFailed err \<Rightarrow> (None, Some err)
         | ConnClosed \<Rightarrow> (None, Some ''conn closed'')
         | CallTimeout \<Rightarrow> (None, Some (addr @ '', call timeout''))
         | CallFailed err \<Rightarrow> (Some zero_last_resp, Some (addr @ '', call failed, err '' @ err))
         | CallReply r \<Rightarrow> (Some r, None)))
  }"

definition api_LastRaw ::
    "graph_client \<Rightarrow> (string \<Rightarrow> string \<Rightarrow> string \<Rightarrow> graph_last_resp graph_outcome) \<Rightarrow> string \<Rightarrow> string
      \<Rightarrow> (graph_last_resp option \<times> string option) option" where
  "api_LastRaw cl askRaw endpoint counter = api_Last cl askRaw endpoint counter"

definition Hosts :: "string \<Rightarrow> string list" where
  "Hosts f = List.map_filter (\<lambda>d. if CHR '','' \<in> set d then Some (go_split (CHR '','') d ! 1) else None) (go_split (CHR 0x0A) f)"

section \<open>The index\<close>

record graph_endpoint =
  en_ID :: int
  en_Endpoint :: string
  en_Ts :: int64

record graph_counter =
  co_ID :: int
  co_EndpointID :: int
  co_Counter :: string
  co_Step :: int
  co_Type :: string
  co_Ts :: int64

record graph_tag =
  te_ID :: int
  te_Tag :: string
  te_EndpointID :: int
  te_Ts :: int64

record graph_db =
  gt_endpoint :: "graph_endpoint list"
  gt_counter :: "graph_counter list"
  gt_tag :: "graph_tag list"

text \<open>Collation, \<open>LIKE\<close> with a pattern, \<open>REGEXP\<close> with one, and which statements succeed.\<close>

record graph_env =
  gv_coll :: "string \<Rightarrow> string"
  gv_like :: "string \<Rightarrow> string \<Rightarrow> bool"
  gv_regexp :: "string \<Rightarrow> string \<Rightarrow> bool"
  gv_ok :: "nat \<Rightarrow> bool"

text \<open>\<open>LIMIT\<close> and \<open>OFFSET\<close>; without a limit no offset is written.\<close>

definition page_rows :: "int \<Rightarrow> int \<Rightarrow> 'r list \<Rightarrow> 'r list" where
  "page_rows lmt offset rows = (if lmt < 0 then rows else take (nat lmt) (drop (nat offset) rows))"

definition page_offset :: "int \<Rightarrow> int \<Rightarrow> int" where
  "page_offset page lmt = (if 1 < page then i64 (i64 (page - 1) * lmt) else 0)"

definition named :: "graph_env \<Rightarrow> string list \<Rightarrow> string \<Rightarrow> bool" where
  "named ev names x \<longleftrightarrow> gv_coll ev x \<in> gv_coll ev ` set names"

definition EndpointObjGet ::
    "graph_env \<Rightarrow> string list \<Rightarrow> int64 \<Rightarrow> graph_db \<Rightarrow> (int \<times> string \<times> int64) list resp" where
  "EndpointObjGet ev endpoints deadline db =
    (if endpoints = [] then RespErr StatusBadRequest ''endpoints missing''
     else if \<not> gv_ok ev 1 then RespErr StatusBadRequest db_error
     else RespOK (map (\<lambda>r. (en_ID r, en_Endpoint r, en_Ts r))
       (filter (\<lambda>r. named ev endpoints (en_Endpoint r) \<and> deadline \<le> en_Ts r) (gt_endpoint db))))"

definition label_ids :: "graph_env \<Rightarrow> string list \<Rightarrow> graph_db \<Rightarrow> int list" where
  "label_ids ev labels db =
    remdups (map co_EndpointID (filter (\<lambda>r. list_all (\<lambda>trem. gv_like ev (''%'' @ go_trim_space trem @ ''%'') (co_Counter r)) labels)
      (gt_counter db)))"

text \<open>The error of the second query stays in a copy that is thrown away.\<close>

definition EndpointRegexpQuery ::
    "graph_env \<Rightarrow> string \<Rightarrow> string \<Rightarrow> int \<Rightarrow> int \<Rightarrow> graph_db \<Rightarrow> (int \<times> string) list resp" where
  "EndpointRegexpQuery ev q label lmt page db =
    (if q = '''' \<and> label = '''' then RespErr StatusBadRequest ''q and labels are all missing''
     else
      let labels = (if label \<noteq> '''' then go_split (CHR '','') label else []);
          qs = (if q \<noteq> '''' then go_split (CHR '' '') q else []);
          offset = page_offset page lmt
      in if labels \<noteq> [] \<and> \<not> gv_ok ev 1 then RespErr StatusBadRequest db_error
         else
          let endpoint_id = (if labels \<noteq> [] then page_rows lmt offset (label_ids ev labels db) else []);
              among = (\<lambda>e. endpoint_id = [] \<or> en_ID e \<in> set endpoint_id);
              answer = (\<lambda>rows. RespOK (map (\<lambda>e. (en_ID e, en_Endpoint e)) rows))
          in if qs \<noteq> [] then
               answer (if gv_ok ev 2 then page_rows lmt offset
                 (filter (\<lambda>e. among e \<and> list_all (\<lambda>trem. gv_regexp ev (go_trim_space trem) (en_Endpoint e)) qs) (gt_endpoint db)) else [])
             else if endpoint_id \<noteq> [] then
               (if gv_ok ev 2 then answer (filter among (gt_endpoint db)) else RespErr StatusBadRequest db_error)
             else answer [])"

text \<open>The numbers of a list in SQL; a list that starts with a comma is a syntax error.\<close>

definition sql_ints :: "string \<Rightarrow> int list option" where
  "sql_ints s = those (map (\<lambda>x. case atoi (go_trim_space x) of Inl err \<Rightarrow> None | Inr i \<Rightarrow> Some i) (go_split (CHR '','') s))"

definition EndpointCounterRegexpQuery ::
    "graph_env \<Rightarrow> string \<Rightarrow> string \<Rightarrow> string \<Rightarrow> string \<Rightarrow> graph_db \<Rightarrow> (int \<times> string \<times> int \<times> string) list resp" where
  "EndpointCounterRegexpQuery ev eid metricQuery limitTmp pageTmp db =
    (case atoi limitTmp of Inl err \<Rightarrow> RespErr StatusBadRequest ''limit''
     | Inr lmt \<Rightarrow>
        (case atoi pageTmp of Inl err \<Rightarrow> RespErr StatusBadRequest ''page''
         | Inr page \<Rightarrow>
            if eid = '''' then RespErr StatusBadRequest ''eid is missing''
            else if ConverIntStringToList eid = '''' then RespErr StatusBadRequest ''input error, please check your input info.''
            else (case sql_ints (ConverIntStringToList eid) of
               None \<Rightarrow> RespErr StatusBadRequest db_error
             | Some eids \<Rightarrow>
                let qs = (if metricQuery \<noteq> '''' then go_split (CHR '' '') metricQuery else []) in
                if \<not> gv_ok ev 1 then RespErr StatusBadRequest db_error
                else RespOK (map (\<lambda>c. (co_EndpointID c, co_Counter c, co_Step c, co_Type c))
                  (page_rows lmt (page_offset page lmt)
                    (filter (\<lambda>c. co_EndpointID c \<in> set eids \<and> list_all (\<lambda>t. gv_regexp ev (go_trim_space t) (co_Counter c)) qs)
                      (gt_counter db)))))))"

section \<open>Points\<close>

definition fetchData ::
    "graph_client \<Rightarrow> (string \<Rightarrow> query_param \<Rightarrow> query_response graph_outcome) \<Rightarrow> string \<Rightarrow> string \<Rightarrow> string \<Rightarrow> int64 \<Rightarrow> int64
      \<Rightarrow> (query_response option \<times> string option) option" where
  "fetchData cl ask hostname counter consolFun startTime endTime =
    QueryOne cl ask (GenQParam hostname counter consolFun startTime endTime)"

text \<open>
  The step of a series, from a cache or the tables; \<open>scan\<close> is what the mapper makes of rows it reads
  into a slice of integers. The step is sent with the query, but no graph reads it.
\<close>

definition getCounterStep ::
    "graph_env \<Rightarrow> (int list \<Rightarrow> int list) \<Rightarrow> graph_db \<Rightarrow> string \<Rightarrow> string \<Rightarrow> (string, int) gomap \<Rightarrow> (string + int) \<times> (string, int) gomap" where
  "getCounterStep ev scan db endpoint counter cache =
    (let cache_key = ''step:'' @ endpoint @ ''/'' @ counter in
     case gget cache cache_key of
       Some step \<Rightarrow> (Inr step, cache)
     | None \<Rightarrow>
        if \<not> gv_ok ev 1 then (Inl db_error, cache)
        else
          (let ids = map en_ID (filter (\<lambda>b. named ev [endpoint] (en_Endpoint b)) (gt_endpoint db));
               rows = scan (take 1 (map co_Step (filter (\<lambda>a. co_EndpointID a \<in> set ids \<and> named ev [counter] (co_Counter a))
                 (gt_counter db))))
           in case rows of [] \<Rightarrow> (Inl ''empty result'', cache) | step # _ \<Rightarrow> (Inr step, gput cache_key step cache)))"

definition draw_one ::
    "graph_client \<Rightarrow> (string \<Rightarrow> query_param \<Rightarrow> query_response graph_outcome) \<Rightarrow> (string \<Rightarrow> string \<Rightarrow> (string, int) gomap \<Rightarrow> (string + int) \<times> (string, int) gomap)
      \<Rightarrow> string \<Rightarrow> int64 \<Rightarrow> int64 \<Rightarrow> int \<Rightarrow> (string, int) gomap \<times> query_response option list \<Rightarrow> string \<times> string
      \<Rightarrow> ((string, int) gomap \<times> query_response option list) option" where
  "draw_one cl ask stepOf consolFun startTime endTime inputStep acc hc =
    (let (cache, respData) = acc;
         (step, cache1) = (if 0 < inputStep then (Inr inputStep, cache) else stepOf (fst hc) (snd hc) cache)
     in case step of
          Inl err \<Rightarrow> Some (cache1, respData)
        | Inr step \<Rightarrow> do {
            r \<leftarrow> fetchData cl ask (fst hc) (snd hc) consolFun startTime endTime;
            Some (cache1, respData @ [fst r])
          })"

definition QueryGraphDrawData ::
    "graph_client \<Rightarrow> (string \<Rightarrow> query_param \<Rightarrow> query_response graph_outcome) \<Rightarrow> (string \<Rightarrow> string \<Rightarrow> (string, int) gomap \<Rightarrow> (string + int) \<times> (string, int) gomap)
      \<Rightarrow> string list \<Rightarrow> string list \<Rightarrow> string \<Rightarrow> int64 \<Rightarrow> int64 \<Rightarrow> int \<Rightarrow> (string, int) gomap
      \<Rightarrow> ((string, int) gomap \<times> query_response option list) option" where
  "QueryGraphDrawData cl ask stepOf hostNames counters consolFun startTime endTime step cache =
    foldM (draw_one cl ask stepOf consolFun startTime endTime step) (cache, []) (List.product hostNames counters)"

definition QueryGraphLastPoint ::
    "graph_client \<Rightarrow> (string \<Rightarrow> string \<Rightarrow> string \<Rightarrow> graph_last_resp graph_outcome) \<Rightarrow> (string \<times> string) list \<Rightarrow> graph_last_resp option list option" where
  "QueryGraphLastPoint cl ask inputs =
    foldM (\<lambda>respData (endpoint, counter). map_option (\<lambda>(r, err). if err \<noteq> None then respData else respData @ [r])
      (api_Last cl ask endpoint counter)) [] inputs"
section \<open>Deleting\<close>

text \<open>The rows of the join of both tables.\<close>

definition series_rows :: "graph_env \<Rightarrow> string list \<Rightarrow> (graph_counter \<Rightarrow> bool) \<Rightarrow> graph_db \<Rightarrow> (string \<times> graph_counter) list" where
  "series_rows ev endpoints P db =
    concat (map (\<lambda>a. map (Pair (en_Endpoint a)) (filter (\<lambda>b. co_EndpointID b = en_ID a \<and> P b) (gt_counter db)))
      (filter (\<lambda>a. named ev endpoints (en_Endpoint a)) (gt_endpoint db)))"

definition row_param :: "string \<times> graph_counter \<Rightarrow> graph_delete_param" where
  "row_param row =
    (case go_split2 (CHR ''/'') (co_Counter (snd row)) of
       m # ts # _ \<Rightarrow> \<lparr>dp_Endpoint = fst row, dp_Metric = m, dp_Tags = ts, dp_Step = co_Step (snd row), dp_DsType = co_Type (snd row)\<rparr>
     | [m] \<Rightarrow> \<lparr>dp_Endpoint = fst row, dp_Metric = m, dp_Tags = '''', dp_Step = co_Step (snd row), dp_DsType = co_Type (snd row)\<rparr>
     | [] \<Rightarrow> \<lparr>dp_Endpoint = fst row, dp_Metric = '''', dp_Tags = '''', dp_Step = co_Step (snd row), dp_DsType = co_Type (snd row)\<rparr>)"

type_synonym delete_calls = "(string \<times> graph_delete_param list) list"

definition delete_counters :: "(string \<times> graph_counter) list \<Rightarrow> graph_db \<Rightarrow> graph_db" where
  "delete_counters rows db = db\<lparr>gt_counter := delete_where (\<lambda>b. co_ID b \<in> co_ID ` snd ` set rows) (gt_counter db)\<rparr>"

definition delete_tags_of :: "graph_env \<Rightarrow> string list \<Rightarrow> graph_db \<Rightarrow> graph_db" where
  "delete_tags_of ev inputs db =
    db\<lparr>gt_tag := delete_where (\<lambda>t. te_EndpointID t \<in> en_ID ` {a \<in> set (gt_endpoint db). named ev inputs (en_Endpoint a)}) (gt_tag db)\<rparr>"

definition delete_endpoints :: "graph_env \<Rightarrow> string list \<Rightarrow> graph_db \<Rightarrow> graph_db" where
  "delete_endpoints ev inputs db = db\<lparr>gt_endpoint := delete_where (\<lambda>a. named ev inputs (en_Endpoint a)) (gt_endpoint db)\<rparr>"

text \<open>
  The graphs are told first, then the tables change in a transaction. The answer holds the numbers of
  endpoints and of counters.
\<close>

definition DeleteGraphEndpoint ::
    "graph_env \<Rightarrow> (graph_delete_param list \<Rightarrow> delete_calls option) \<Rightarrow> string list \<Rightarrow> graph_db
      \<Rightarrow> (graph_db \<times> delete_calls \<times> (int \<times> int) resp) option" where
  "DeleteGraphEndpoint ev del inputs db =
    (if \<not> gv_ok ev 1 then Some (db, [], RespErr StatusBadRequest db_error)
     else let rows = series_rows ev inputs (\<lambda>b. True) db in do {
       calls \<leftarrow> (if rows \<noteq> [] then del (map row_param rows) else Some []);
       let bad = (db, calls, RespErr StatusBadRequest db_error);
       let n = length (filter (\<lambda>a. named ev inputs (en_Endpoint a)) (gt_endpoint db));
       Some (if rows \<noteq> [] then
               (if \<not> gv_ok ev 2 then bad
                else let tx1 = delete_counters rows db in
                  if \<not> gv_ok ev 3 then bad
                  else let tx2 = delete_tags_of ev inputs tx1 in
                    if \<not> gv_ok ev 4 then bad
                    else (delete_endpoints ev inputs tx2, calls, RespOK (int n, int (length (gt_counter db) - length (gt_counter tx1)))))
             else if \<not> gv_ok ev 4 then bad
             else (delete_endpoints ev inputs db, calls, RespOK (int n, 0)))
     })"

definition DeleteGraphCounter ::
    "graph_env \<Rightarrow> (graph_delete_param list \<Rightarrow> delete_calls option) \<Rightarrow> string list \<Rightarrow> string list \<Rightarrow> graph_db
      \<Rightarrow> (graph_db \<times> delete_calls \<times> int resp) option" where
  "DeleteGraphCounter ev del endpoints counters db =
    (if \<not> gv_ok ev 1 then Some (db, [], RespErr StatusBadRequest db_error)
     else let rows = series_rows ev endpoints (\<lambda>b. named ev counters (co_Counter b)) db in
       if rows = [] then Some (db, [], RespOK 0)
       else do {
         calls \<leftarrow> del (map row_param rows);
         Some (if \<not> gv_ok ev 2 then (db, calls, RespErr StatusBadRequest db_error)
               else (delete_counters rows db, calls,
                 RespOK (int (length (gt_counter db) - length (gt_counter (delete_counters rows db))))))
       })"

section \<open>Grafana\<close>

record grafana_item =
  gq_Expandable :: bool
  gq_Text :: string

text \<open>
  The answers of the database to the first rows, to a pattern with a limit, and to conditions that are
  put together as text; \<open>[]\<close> if the statement fails.
\<close>

record grafana_env =
  gw_first :: "int \<Rightarrow> graph_endpoint list"
  gw_regexp :: "string \<Rightarrow> int \<Rightarrow> graph_endpoint list"
  gw_endpoints :: "string \<Rightarrow> graph_endpoint list"
  gw_counters :: "string \<Rightarrow> graph_counter list"

definition host_items :: "graph_endpoint list \<Rightarrow> grafana_item list" where
  "host_items enps = map (\<lambda>h. \<lparr>gq_Expandable = True, gq_Text = en_Endpoint h\<rparr>) enps"

definition repsonseDefault :: "grafana_env \<Rightarrow> int \<Rightarrow> grafana_item list" where
  "repsonseDefault ev lmt = host_items (gw_first ev lmt)"

definition responseHostsRegexp :: "grafana_env \<Rightarrow> int \<Rightarrow> string \<Rightarrow> grafana_item list" where
  "responseHostsRegexp ev lmt regexpKey = host_items (gw_regexp ev regexpKey lmt)"

text \<open>\<open>strings.Replace\<close> of a text that is not empty; the texts in between are found from the left.\<close>

function replace_all :: "string \<Rightarrow> string \<Rightarrow> string \<Rightarrow> string" where
  "replace_all old new s =
    (if s = [] then []
     else if old \<noteq> [] \<and> go_has_prefix s old then new @ replace_all old new (drop (length old) s)
     else hd s # replace_all old new (tl s))"
  by auto
termination by (relation "measure (\<lambda>(old, new, s). length s)") (auto simp: go_has_prefix_def)

declare replace_all.simps [simp del]

text \<open>
  The pattern \<open>^{?([^#}]+)}?#(.+)\<close>: hosts, then what follows the first hash sign, to the end of the line.
\<close>

definition hosts_and_counter :: "string \<Rightarrow> (string \<times> string) option" where
  "hosts_and_counter s =
    (let h = takeWhile (\<lambda>c. c \<noteq> CHR ''#'' \<and> c \<noteq> CHR ''}'') s;
         r = drop (length h) s;
         r1 = (if go_has_prefix r ''}'' then tl r else r);
         c = takeWhile (\<lambda>c. c \<noteq> CHR 0x0A) (tl r1)
     in if h \<noteq> [] \<and> go_has_prefix r1 ''#'' \<and> c \<noteq> [] then Some (h, c) else None)"

definition match_target :: "string \<Rightarrow> (string \<times> string) option" where
  "match_target s =
    (if go_has_prefix s ''{'' then (case hosts_and_counter (tl s) of Some hc \<Rightarrow> Some hc | None \<Rightarrow> hosts_and_counter s)
     else hosts_and_counter s)"

definition cutEndpointCounterHelp :: "string \<Rightarrow> string list \<times> string" where
  "cutEndpointCounterHelp regexpKey =
    (case match_target regexpKey of
       None \<Rightarrow> ([], '''')
     | Some (hostsTmp, counterTmp) \<Rightarrow> (go_split (CHR '','') hostsTmp, replace_all ''#'' [CHR 0x5C, CHR ''.''] counterTmp))"

text \<open>Spaces of a pattern.\<close>

definition rx_space :: "char \<Rightarrow> bool" where
  "rx_space c \<longleftrightarrow> c \<in> set [CHR 0x09, CHR 0x0A, CHR 0x0C, CHR 0x0D, CHR '' '']"

definition strip_spaces :: "string \<Rightarrow> string" where
  "strip_spaces s = rev (dropWhile rx_space (rev s))"

definition has_suffix :: "string \<Rightarrow> string \<Rightarrow> bool" where
  "has_suffix s p \<longleftrightarrow> go_has_prefix (rev s) (rev p)"

text \<open>\<open>(\.\+|\.\*)\s*$\<close>\<close>

definition cut_any :: "string \<Rightarrow> string" where
  "cut_any s =
    (let t = strip_spaces s
     in if has_suffix t ''.+'' \<or> has_suffix t ''.*'' then take (length t - 2) t else s)"

definition expandableChecking :: "string \<Rightarrow> string \<Rightarrow> string \<times> bool" where
  "expandableChecking counter counterSearchKeyWord =
    (let kw = replace_all [CHR 0x5C, CHR ''.''] ''.'' (cut_any counterSearchKeyWord);
         expCheck = replace_all kw '''' counter
     in if expCheck = '''' then (expCheck, False)
        else
          (let expsubArr = go_split (CHR ''.'') (if go_has_prefix expCheck ''.'' then tl expCheck else expCheck)
           in case expsubArr of [] \<Rightarrow> ('''', True) | [x] \<Rightarrow> (x, False) | x # y # zs \<Rightarrow> (x, True)))"

definition item_step :: "(string, bool) gomap \<Rightarrow> grafana_item \<Rightarrow> (string, bool) gomap" where
  "item_step m i =
    (case gget m (gq_Text i) of
       Some val \<Rightarrow> if val \<noteq> gq_Expandable i \<and> gq_Expandable i then gput (gq_Text i) (gq_Expandable i) m else m
     | None \<Rightarrow> gput (gq_Text i) (gq_Expandable i) m)"

definition addAddItionalItems ::
    "((string, bool) gomap \<Rightarrow> (string, bool) gomap) \<Rightarrow> grafana_item list \<Rightarrow> string \<Rightarrow> grafana_item list" where
  "addAddItionalItems visit items regexpKey =
    map (\<lambda>(c, val). \<lparr>gq_Expandable = val, gq_Text = c\<rparr>) (visit (foldl item_step [] items)) @
    (if list_ex (\<lambda>i. \<not> gq_Expandable i) items then [\<lparr>gq_Expandable = False, gq_Text = ''$''\<rparr>] else []) @
    [\<lparr>gq_Expandable = False, gq_Text = ''%''\<rparr>]"

text \<open>A list of nothing is an empty text; its error is not looked at.\<close>

definition or_empty :: "string + string \<Rightarrow> string" where
  "or_empty r = (case r of Inl err \<Rightarrow> '''' | Inr s \<Rightarrow> s)"

definition findEndpointIdByEndpointList :: "grafana_env \<Rightarrow> string list \<Rightarrow> int list" where
  "findEndpointIdByEndpointList ev hosts =
    map en_ID (gw_endpoints ev (''endpoint in ('' @ or_empty (ArrStringsToString hosts) @ '')''))"

definition counter_condition :: "int list \<Rightarrow> string \<Rightarrow> string \<Rightarrow> string" where
  "counter_condition ids op counter =
    ''endpoint_id IN ('' @ or_empty (ArrIntToString ids) @ '') AND counter '' @ op @ '' '' @ [CHR 0x27] @ counter @ [CHR 0x27]"

definition responseCounterRegexp ::
    "grafana_env \<Rightarrow> ((string, bool) gomap \<Rightarrow> (string, bool) gomap) \<Rightarrow> string \<Rightarrow> grafana_item list" where
  "responseCounterRegexp ev visit regexpKey =
    (let (hosts, counter) = cutEndpointCounterHelp regexpKey in
     if hosts = [] \<or> counter = '''' then []
     else let hostIds = findEndpointIdByEndpointList ev hosts in
       if hostIds = [] then []
       else let counters = gw_counters ev (counter_condition hostIds ''regexp'' counter) in
         if counters = [] then []
         else addAddItionalItems visit
           (map (\<lambda>c. let (expsub, needexp) = expandableChecking (co_Counter c) counter
             in \<lparr>gq_Expandable = needexp, gq_Text = expsub\<rparr>) counters) regexpKey)"

definition GrafanaMainQuery ::
    "grafana_env \<Rightarrow> ((string, bool) gomap \<Rightarrow> (string, bool) gomap) \<Rightarrow> int \<Rightarrow> string \<Rightarrow> grafana_item list" where
  "GrafanaMainQuery ev visit lmt query =
    (if query = ''!N!'' then repsonseDefault ev lmt
     else if CHR ''#'' \<notin> set query then responseHostsRegexp ev lmt query
     else if \<not> go_contains query ''#select metric'' then responseCounterRegexp ev visit query
     else [])"

text \<open>\<open>\\.\$\s*$\<close>: a backslash, any byte of the line and a dollar sign at the end.\<close>

definition ends_counter :: "string \<Rightarrow> bool" where
  "ends_counter s \<longleftrightarrow>
    (let t = strip_spaces s; n = length t
     in 3 \<le> n \<and> t ! (n - 1) = CHR ''$'' \<and> t ! (n - 2) \<noteq> CHR 0x0A \<and> t ! (n - 3) = CHR 0x5C)"

definition render_counter :: "string \<Rightarrow> string" where
  "render_counter s =
    replace_all [CHR 0x5C, CHR ''.'', CHR ''%''] ''.+'' (if ends_counter s then take (length (strip_spaces s) - 3) s else s)"

definition render_target ::
    "grafana_env \<Rightarrow> graph_client \<Rightarrow> (string \<Rightarrow> query_param \<Rightarrow> query_response graph_outcome) \<Rightarrow> string \<Rightarrow> int64 \<Rightarrow> int64
      \<Rightarrow> query_response option list \<Rightarrow> string \<Rightarrow> query_response option list option" where
  "render_target ev cl ask consolFun from_ts until_ts respList target =
    (let (hosts, counter0) = cutEndpointCounterHelp target;
         counter = render_counter counter0;
         hostIds = findEndpointIdByEndpointList ev hosts;
         counters = gw_counters ev (counter_condition hostIds (if ends_counter counter0 then ''='' else ''regexp'') counter)
     in foldM (\<lambda>respList (host, c). map_option (\<lambda>(r, err). if err \<noteq> None then respList else respList @ [r])
          (fetchData cl ask host (co_Counter c) consolFun from_ts until_ts)) respList (List.product hosts counters))"

definition GrafanaRender ::
    "grafana_env \<Rightarrow> graph_client \<Rightarrow> (string \<Rightarrow> query_param \<Rightarrow> query_response graph_outcome) \<Rightarrow> string list \<Rightarrow> string \<Rightarrow> int64 \<Rightarrow> int64
      \<Rightarrow> query_response option list option" where
  "GrafanaRender ev cl ask targets consolFun from_ts until_ts =
    foldM (render_target ev cl ask consolFun from_ts until_ts) [] targets"

end
