(* ===== verification/Api_GraphFlow.thy ===== *)
theory Api_GraphFlow
  imports Api_Graph Transfer_Deliver
begin

text \<open>
  Statements about the API's side of the graphs: it asks the node to which the transfer sends, what a
  query answers, and what the deletion of a series removes from the tables and from the graphs.
\<close>

section \<open>The node that is asked\<close>

lemma KeysOfMap_same:
  assumes "gomap_ok m" "gomap_ok m'" "fst ` set m = fst ` set m'"
  shows "KeysOfMap m = KeysOfMap m'"
  using assms unfolding KeysOfMap_def gomap_ok_def
  by (intro sorted_distinct_set_unique) simp_all

lemma PK_counter: "PK endpoint metric tags = PK2 endpoint (Counter metric tags)"
  by (simp add: PK_def PK2_def Counter_def)

lemma GetNode_member:
  assumes "0 < r" "r < 2 ^ 31" "m \<noteq> []" "NewConsistentHashNodesRing r (KeysOfMap m) = Some c"
  shows "\<exists>node \<in> fst ` set m. GetNode c pk = Some (Inr node)"
proof -
  have ne: "KeysOfMap m \<noteq> []"
  proof
    assume "KeysOfMap m = []"
    then have "length (KeysOfMap m) = 0" by simp
    with assms(3) show False by (simp add: KeysOfMap_def)
  qed
  from NewRing_facts [OF assms(1,2), of "KeysOfMap m"] ne assms(4) have c: "ring_ok c" "rg_circle c \<noteq> []"
    "\<forall>n. gget (rg_members c) n \<noteq> None \<longrightarrow> n \<in> fst ` set m" by (auto simp: KeysOfMap_def)
  then have "ring_valid c" "ring_nodes c \<noteq> {}"
    using ring_Get_successor [OF c(1,2), of "''''"] by (auto simp: ring_valid_def ring_nodes_def)
  from chr.get_member [OF this, of pk] c(3) show ?thesis by (auto simp: ring_nodes_def)
qed

text \<open>
  C18: The API asks for a series at the node to which the transfer sends its points: with the same names
  of nodes and the same number of replicas both compute the same ring, and both know the series by the
  same key. The address is the one configured for the node, and a connection pool exists for it.
\<close>

theorem api_asks_the_transfers_node:
  assumes "gomap_ok (tc_GraphCluster cfg)" "gomap_ok addrs" "fst ` set addrs = fst ` set (tc_GraphCluster cfg)" "addrs \<noteq> []"
    and "0 < tc_GraphReplicas cfg" "tc_GraphReplicas cfg < 2 ^ 31"
    and "transfer_Start cfg = Some st"
  shows "\<exists>cl addr. api_graph_Start (tc_GraphReplicas cfg) addrs = Some cl \<and>
    selectPool cl (md_Endpoint item) (Counter (md_Metric item) (md_Tags item)) = Some (Inr addr) \<and>
    gget addrs (graph_node st item) = Some addr \<and> GetNode (tx_GraphRing st) (meta_PK item) = Some (Inr (graph_node st item))"
proof -
  have i: "i32 (tc_GraphReplicas cfg) = tc_GraphReplicas cfg"
    using assms(5,6) by (simp add: i32_def signed_take_bit_int_eq_self)
  have keys: "KeysOfMap addrs = KeysOfMap (tc_GraphCluster cfg)" using KeysOfMap_same [OF assms(2,1,3)] .
  from assms(7) i have ring: "NewConsistentHashNodesRing (tc_GraphReplicas cfg) (KeysOfMap addrs) = Some (tx_GraphRing st)"
    by (auto simp: transfer_Start_def initNodeRings_def keys split: bind_splits)
  from GetNode_member [OF assms(5,6,4) ring, of "meta_PK item"] obtain node where
    node: "node \<in> fst ` set addrs" "GetNode (tx_GraphRing st) (meta_PK item) = Some (Inr node)" by blast
  then obtain addr where addr: "gget addrs node = Some addr" by (metis imageE prod.collapse weak_map_of_SomeI)
  have g: "graph_node st item = node" using node(2) by (simp add: graph_node_def)
  let ?cl = "\<lparr>gn_clusterMap = addrs, gn_Ring = tx_GraphRing st, gn_Pools = api_initConnPools addrs\<rparr>"
  have "api_graph_Start (tc_GraphReplicas cfg) addrs = Some ?cl"
    by (simp add: api_graph_Start_def api_initNodeRings_def i ring)
  moreover have "addr \<in> set (api_initConnPools addrs)" using addr by (force simp: api_initConnPools_def dest: map_of_SomeD)
  then have "selectPool ?cl (md_Endpoint item) (Counter (md_Metric item) (md_Tags item)) = Some (Inr addr)"
    using node(2) addr by (simp add: selectPool_def selectPoolByPK_def PK_counter [symmetric] meta_PK_def)
  ultimately show ?thesis using node(2) addr g by blast
qed

theorem api_asks_the_transfers_node_witness:
  "\<exists>st cl addr. transfer_Start demo_cluster = Some st \<and> api_graph_Start (tc_GraphReplicas demo_cluster) (tc_GraphCluster demo_cluster) = Some cl \<and>
    selectPool cl ''h'' ''cpu/core=1'' = Some (Inr addr) \<and>
    gget (tc_GraphCluster demo_cluster) (graph_node st \<lparr>md_Metric = ''cpu'', md_Endpoint = ''h'', md_Timestamp = 60, md_Step = 60,
      md_Value = f_of_int 1, md_CounterType = ''GAUGE'', md_Tags = [(''core'', ''1'')]\<rparr>) = Some addr"
proof -
  let ?item = "\<lparr>md_Metric = ''cpu'', md_Endpoint = ''h'', md_Timestamp = 60, md_Step = 60,
      md_Value = f_of_int 1, md_CounterType = ''GAUGE'', md_Tags = [(''core'', ''1'')]\<rparr>"
  obtain st where st: "transfer_Start demo_cluster = Some st"
    using transfer_Start_ok [of demo_cluster] by (auto simp: demo_cluster_def gomap_ok_def)
  have c: "Counter ''cpu'' [(''core'', ''1'')] = ''cpu/core=1''" by code_simp
  have "gomap_ok (tc_GraphCluster demo_cluster)" "tc_GraphCluster demo_cluster \<noteq> []"
    "0 < tc_GraphReplicas demo_cluster" "tc_GraphReplicas demo_cluster < 2 ^ 31" by (simp_all add: demo_cluster_def gomap_ok_def)
  from api_asks_the_transfers_node [OF this(1,1) refl this(2-4) st, of ?item] c st show ?thesis by auto
qed

section \<open>What a query answers\<close>

text \<open>
  An answer of a graph is passed on with the points of the asked span only, in their order, and
  for counters no negative value is left: it becomes a NaN, at its time.
\<close>

theorem QueryOne_answer:
  assumes "QueryOne cl ask para = Some (Some r, None)"
  shows "\<exists>addr r0. selectPool cl (qp_Endpoint para) (qp_Counter para) = Some (Inr addr) \<and> ask addr para = CallReply r0 \<and>
    map rd_Timestamp (qr_Values r) = filter (\<lambda>t. qp_Start para \<le> t \<and> t \<le> qp_End para) (map rd_Timestamp (qr_Values r0)) \<and>
    (qr_DsType r \<in> {''DERIVE'', ''COUNTER''} \<longrightarrow> list_all (\<lambda>v. \<not> f_lt (rd_Value v) f_zero) (qr_Values r)) \<and>
    (qr_DsType r \<notin> {''DERIVE'', ''COUNTER''} \<longrightarrow> set (qr_Values r) \<subseteq> set (qr_Values r0))"
proof -
  from assms obtain addr r0 where a: "selectPool cl (qp_Endpoint para) (qp_Counter para) = Some (Inr addr)" "ask addr para = CallReply r0"
    and r: "r = fixed_values (qp_Start para) (qp_End para) r0"
    by (auto simp: QueryOne_def split: bind_splits sum.splits graph_outcome.splits)
  have ts: "rd_Timestamp (fix_value d v) = rd_Timestamp v" for d v by (simp add: fix_value_def rd_def)
  have "map rd_Timestamp (qr_Values r) = filter (\<lambda>t. qp_Start para \<le> t \<and> t \<le> qp_End para) (map rd_Timestamp (qr_Values r0))"
    by (simp add: r fixed_values_def ts comp_def filter_map)
  moreover have "qr_DsType r \<in> {''DERIVE'', ''COUNTER''} \<longrightarrow> list_all (\<lambda>v. \<not> f_lt (rd_Value v) f_zero) (qr_Values r)"
    by (auto simp: r fixed_values_def list_all_iff fix_value_def rd_def)
  moreover have "qr_DsType r \<notin> {''DERIVE'', ''COUNTER''} \<longrightarrow> set (qr_Values r) \<subseteq> set (qr_Values r0)"
    by (auto simp: r fixed_values_def fix_value_def)
  ultimately show ?thesis using a by blast
qed

lemma one_node_api: "\<exists>cl. api_graph_Start 1 [(''g'', ''a:1'')] = Some cl \<and> (\<forall>pk. selectPoolByPK cl pk = Some (Inr ''a:1''))"
proof -
  from one_node_ring [of "''g''"] obtain c where c: "NewConsistentHashNodesRing 1 [''g''] = Some c" by blast
  have k: "KeysOfMap [(''g'', ''a:1'')] = [''g'']" by (simp add: KeysOfMap_def)
  have "GetNode c pk = Some (Inr ''g'')" for pk
    using GetNode_member [of 1 "[(''g'', ''a:1'')]" c pk] c k by auto
  then show ?thesis using c
    by (simp add: api_graph_Start_def api_initNodeRings_def k i32_def signed_take_bit_int_eq_self selectPoolByPK_def api_initConnPools_def)
qed

theorem QueryOne_answer_witness:
  "\<exists>cl r. api_graph_Start 1 [(''g'', ''a:1'')] = Some cl \<and>
    QueryOne cl (\<lambda>addr p. CallReply (zero_query_response\<lparr>qr_DsType := ''COUNTER'',
        qr_Values := [rd 0 (f_of_int 1), rd 60 (f_of_int (- 1)), rd 120 (f_of_int 2)]\<rparr>))
      (GenQParam ''h'' ''cpu'' ''AVERAGE'' 60 120) = Some (Some r, None) \<and>
    map rd_Timestamp (qr_Values r) = [60, 120] \<and> list_all (\<lambda>v. \<not> f_lt (rd_Value v) f_zero) (qr_Values r)"
proof -
  from one_node_api obtain cl where cl: "api_graph_Start 1 [(''g'', ''a:1'')] = Some cl" "\<And>pk. selectPoolByPK cl pk = Some (Inr ''a:1'')" by blast
  let ?r0 = "zero_query_response\<lparr>qr_DsType := ''COUNTER'', qr_Values := [rd 0 (f_of_int 1), rd 60 (f_of_int (- 1)), rd 120 (f_of_int 2)]\<rparr>"
  let ?p = "GenQParam ''h'' ''cpu'' ''AVERAGE'' 60 120"
  have q: "QueryOne cl (\<lambda>addr p. CallReply ?r0) ?p = Some (Some (fixed_values 60 120 ?r0), None)"
    by (simp add: QueryOne_def selectPool_def cl(2)) (simp add: GenQParam_def)
  have d: "qr_DsType (fixed_values 60 120 ?r0) = ''COUNTER''" by (simp add: fixed_values_def)
  from QueryOne_answer [OF q] d
  have "map rd_Timestamp (qr_Values (fixed_values 60 120 ?r0)) = [60, 120] \<and>
    list_all (\<lambda>v. \<not> f_lt (rd_Value v) f_zero) (qr_Values (fixed_values 60 120 ?r0))"
    by (auto simp: GenQParam_def zero_query_response_def rd_def)
  from conjI [OF cl(1) conjI [OF q this]] show ?thesis by (intro exI)
qed

section \<open>Deleting series\<close>

lemma delete_calls:
  "foldM (delete_node cl reach) c0 nps = Some calls \<Longrightarrow>
    set calls = set c0 \<union> {(addr, ps). \<exists>pk. (pk, ps) \<in> set nps \<and> selectPoolByPK cl pk = Some (Inr addr) \<and> reach addr}"
proof (induction nps arbitrary: c0)
  case (Cons np nps)
  obtain pk ps where np: "np = (pk, ps)" by (cases np)
  from Cons.prems obtain c1 where c1: "delete_node cl reach c0 (pk, ps) = Some c1" "foldM (delete_node cl reach) c1 nps = Some calls"
    by (auto simp: np split: option.splits)
  have "set c1 = set c0 \<union> {(addr, qs). qs = ps \<and> selectPoolByPK cl pk = Some (Inr addr) \<and> reach addr}"
    using c1(1) by (auto simp: delete_node_def split: bind_splits sum.splits if_splits)
  with Cons.IH [OF c1(2)] show ?case by (auto simp: np)
qed simp

lemma delete_nodes_bucket:
  "delete_nodes params = foldl (\<lambda>m p. add_to_bucket (the (delete_pk p)) p m) [] (filter (\<lambda>p. delete_pk p \<noteq> None) params)"
proof -
  have "foldl (\<lambda>m para. case delete_pk para of None \<Rightarrow> m | Some pk \<Rightarrow> add_to_bucket pk para m) m params =
    foldl (\<lambda>m p. add_to_bucket (the (delete_pk p)) p m) m (filter (\<lambda>p. delete_pk p \<noteq> None) params)" for m
    by (induction params arbitrary: m) auto
  then show ?thesis by (simp add: delete_nodes_def)
qed

lemma api_Delete_reaches:
  assumes "api_Delete cl reach visit params = Some calls" "\<And>m. mset (visit m) = mset m"
    and "p \<in> set params" "delete_pk p = Some pk" "selectPoolByPK cl pk = Some (Inr addr)" "reach addr"
  shows "\<exists>ps. (addr, ps) \<in> set calls \<and> p \<in> set ps"
proof -
  let ?ps = "filter (\<lambda>q. delete_pk q = Some pk) params"
  have "filter (\<lambda>x. the (delete_pk x) = pk) (filter (\<lambda>p. delete_pk p \<noteq> None) params) = ?ps"
    by (auto intro!: filter_cong)
  then have "gget (delete_nodes params) pk = Some ?ps"
    using assms(3,4) unfolding delete_nodes_bucket gget_foldl_add by (auto simp: filter_empty_conv)
  then have "(pk, ?ps) \<in> set (visit (delete_nodes params))"
    using assms(2) [of "delete_nodes params"] by (metis map_of_SomeD set_mset_mset)
  with delete_calls [OF assms(1) [unfolded api_Delete_def]] assms(3-6) show ?thesis by fastforce
qed

lemma Split_SortedTags:
  assumes "clean_tags tags"
  shows "\<exists>tags'. SplitTagsString (SortedTags tags) = (None, tags') \<and> SortedTags tags' = SortedTags tags \<and> (tags' = [] \<longleftrightarrow> tags = [])"
proof (cases "tags = []")
  case True
  then show ?thesis by (simp add: SortedTags_def SplitTagsString_def go_remove_def)
next
  case False
  have "\<forall>t\<in>set (go_split (CHR '','') (SortedTags tags)). CHR ''='' \<in> set t"
    unfolding split_SortedTags [OF assms False] by (auto simp: tag_parts_def tag_pair_def)
  moreover have "go_remove (CHR '' '') (SortedTags tags) = SortedTags tags"
    using SortedTags_no_space [OF assms] by (simp add: go_remove_id)
  ultimately have "fst (SplitTagsString (SortedTags tags)) = None" by (simp add: SplitTagsString_strict)
  moreover from this have d: "snd (SplitTagsString (SortedTags tags)) = DictedTagstring (SortedTags tags)"
    by (rule SplitTagsString_same)
  moreover have g: "gget (DictedTagstring (SortedTags tags)) = gget tags" by (rule Dicted_SortedTags [OF assms])
  have ok: "gomap_ok tags" using assms by (simp add: clean_tags_def)
  then have "set (DictedTagstring (SortedTags tags)) = set tags"
    using g gomap_ok_DictedTagstring [of "SortedTags tags"] by (metis gomap_ok_def map_of_inject_set)
  then have "mset (DictedTagstring (SortedTags tags)) = mset tags"
    using ok gomap_ok_DictedTagstring [of "SortedTags tags"] unfolding gomap_ok_def
    by (metis distinct_map set_eq_iff_mset_eq_distinct)
  then have "SortedTags (DictedTagstring (SortedTags tags)) = SortedTags tags"
    by (intro SortedTags_perm) simp_all
  ultimately show ?thesis using Nil_iff_gget [OF g] by (metis prod.collapse)
qed

lemma row_param_series:
  assumes "slash_free metric" "clean_tags tags" "co_Counter b = Counter metric tags"
  shows "dp_Metric (row_param (ep, b)) = metric \<and> dp_Tags (row_param (ep, b)) = (if tags = [] then '''' else SortedTags tags) \<and>
    dp_Endpoint (row_param (ep, b)) = ep"
proof (cases "tags = []")
  case True
  have "go_split2 (CHR ''/'') metric = [metric]"
    using assms(1) by (simp add: go_split2_def slash_free_def)
  then show ?thesis using assms(3) True by (simp add: row_param_def Counter_def)
next
  case False
  have "go_split2 (CHR ''/'') (metric @ CHR ''/'' # SortedTags tags) = [metric, SortedTags tags]"
    using assms(1) by (intro go_split2_sep) (simp add: slash_free_def)
  then show ?thesis using assms(3) False by (simp add: row_param_def Counter_def)
qed

lemma row_param_pk:
  assumes "slash_free metric" "clean_tags tags" "co_Counter b = Counter metric tags"
  shows "delete_pk (row_param (ep, b)) = Some (PK ep metric tags)"
proof -
  obtain tags' where t: "SplitTagsString (SortedTags tags) = (None, tags')" "SortedTags tags' = SortedTags tags" "tags' = [] \<longleftrightarrow> tags = []"
    using Split_SortedTags [OF assms(2)] by blast
  have e: "SortedTags [] = ''''" by (simp add: SortedTags_def)
  show ?thesis using row_param_series [OF assms, of ep] t e
    by (cases "tags = []") (auto simp: delete_pk_def PK_counter Counter_def)
qed

text \<open>
  C19: Deleting endpoints reaches the points: every series of the index whose metric holds no slash and
  whose tags are clean is named, with its type and step, in a call to the node that its key selects,
  whatever the order in which the nodes are visited, if that node can be reached.
\<close>

theorem deleted_series_reached:
  assumes "DeleteGraphEndpoint ev (api_Delete cl reach visit) inputs db = Some (db', calls, RespOK n)"
    and "\<And>m. mset (visit m) = mset m"
    and "a \<in> set (gt_endpoint db)" "named ev inputs (en_Endpoint a)" "b \<in> set (gt_counter db)" "co_EndpointID b = en_ID a"
    and "co_Counter b = Counter metric tags" "slash_free metric" "clean_tags tags"
    and "selectPool cl (en_Endpoint a) (co_Counter b) = Some (Inr addr)" "reach addr"
  shows "\<exists>ps p. (addr, ps) \<in> set calls \<and> p \<in> set ps \<and> dp_Endpoint p = en_Endpoint a \<and> dp_DsType p = co_Type b \<and> dp_Step p = co_Step b \<and>
    delete_pk p = Some (PK (en_Endpoint a) metric tags)"
proof -
  let ?rows = "series_rows ev inputs (\<lambda>b. True) db" and ?p = "row_param (en_Endpoint a, b)"
  have row: "(en_Endpoint a, b) \<in> set ?rows" using assms(3-6) by (auto simp: series_rows_def)
  then have "?rows \<noteq> []" by auto
  with assms(1) have calls: "api_Delete cl reach visit (map row_param ?rows) = Some calls"
    by (auto simp: DeleteGraphEndpoint_def Let_def split: if_splits bind_splits)
  have p: "?p \<in> set (map row_param ?rows)" using row by simp
  have pk: "delete_pk ?p = Some (PK (en_Endpoint a) metric tags)" by (rule row_param_pk [OF assms(8,9,7)])
  have sel: "selectPoolByPK cl (PK (en_Endpoint a) metric tags) = Some (Inr addr)"
    using assms(10) by (simp add: selectPool_def assms(7) PK_counter)
  have f: "dp_DsType ?p = co_Type b" "dp_Step ?p = co_Step b"
    by (simp_all add: row_param_def split: list.split)
  from api_Delete_reaches [OF calls assms(2) p pk sel assms(11)] obtain ps where "(addr, ps) \<in> set calls" "?p \<in> set ps" by blast
  with f pk row_param_series [OF assms(8,9,7), of "en_Endpoint a"] show ?thesis by blast
qed

definition plain_env :: graph_env where
  "plain_env = \<lparr>gv_coll = map ascii_lower, gv_like = (\<lambda>p s. go_contains s (filter (\<lambda>c. c \<noteq> CHR ''%'') p)),
    gv_regexp = (\<lambda>p s. go_contains s p), gv_ok = (\<lambda>k. True)\<rparr>"

definition small_index :: graph_db where
  "small_index = \<lparr>gt_endpoint = [\<lparr>en_ID = 1, en_Endpoint = ''h1'', en_Ts = 9\<rparr>, \<lparr>en_ID = 2, en_Endpoint = ''h2'', en_Ts = 9\<rparr>],
    gt_counter = [\<lparr>co_ID = 1, co_EndpointID = 1, co_Counter = ''cpu/core=1'', co_Step = 60, co_Type = ''GAUGE'', co_Ts = 9\<rparr>,
      \<lparr>co_ID = 2, co_EndpointID = 2, co_Counter = ''load'', co_Step = 60, co_Type = ''GAUGE'', co_Ts = 9\<rparr>],
    gt_tag = [\<lparr>te_ID = 1, te_Tag = ''core=1'', te_EndpointID = 1, te_Ts = 9\<rparr>]\<rparr>"

lemma one_node_delete:
  assumes "api_graph_Start 1 [(''g'', ''a:1'')] = Some cl" "\<And>pk. selectPoolByPK cl pk = Some (Inr ''a:1'')"
  shows "api_Delete cl (\<lambda>a. True) rev params \<noteq> None"
proof -
  have "foldM (delete_node cl (\<lambda>a. True)) c nps \<noteq> None" for c nps
    by (induction nps arbitrary: c) (auto simp: delete_node_def assms(2))
  then show ?thesis by (simp add: api_Delete_def)
qed

theorem deleted_series_reached_witness:
  "\<exists>cl db' calls n ps p. api_graph_Start 1 [(''g'', ''a:1'')] = Some cl \<and>
    DeleteGraphEndpoint plain_env (api_Delete cl (\<lambda>a. True) rev) [''H1''] small_index = Some (db', calls, RespOK n) \<and>
    (''a:1'', ps) \<in> set calls \<and> p \<in> set ps \<and> dp_Endpoint p = ''h1'' \<and> delete_pk p = Some ''h1/cpu/core=1''"
proof -
  from one_node_api obtain cl where cl: "api_graph_Start 1 [(''g'', ''a:1'')] = Some cl" "\<And>pk. selectPoolByPK cl pk = Some (Inr ''a:1'')" by blast
  have named: "named plain_env [''H1''] ''h1''" by code_simp
  obtain cs where cs: "api_Delete cl (\<lambda>a. True) rev (map row_param (series_rows plain_env [''H1''] (\<lambda>b. True) small_index)) = Some cs"
    using one_node_delete [OF cl] by blast
  have ok: "gv_ok plain_env k" for k by (simp add: plain_env_def)
  have "\<exists>db' calls n m. DeleteGraphEndpoint plain_env (api_Delete cl (\<lambda>a. True) rev) [''H1''] small_index = Some (db', calls, RespOK (n, m))"
    by (simp add: DeleteGraphEndpoint_def Let_def cs ok)
  then obtain db' calls n where d: "DeleteGraphEndpoint plain_env (api_Delete cl (\<lambda>a. True) rev) [''H1''] small_index = Some (db', calls, RespOK n)"
    by blast
  have c: "''cpu/core=1'' = Counter ''cpu'' [(''core'', ''1'')]" by code_simp
  have pk: "PK ''h1'' ''cpu'' [(''core'', ''1'')] = ''h1/cpu/core=1''" by code_simp
  have "\<exists>ps p. (''a:1'', ps) \<in> set calls \<and> p \<in> set ps \<and> dp_Endpoint p = en_Endpoint (hd (gt_endpoint small_index)) \<and>
    dp_DsType p = co_Type (hd (gt_counter small_index)) \<and> dp_Step p = co_Step (hd (gt_counter small_index)) \<and>
    delete_pk p = Some (PK (en_Endpoint (hd (gt_endpoint small_index))) ''cpu'' [(''core'', ''1'')])"
    by (rule deleted_series_reached [OF d])
      (simp_all add: named small_index_def c slash_free_def clean_tags_def gomap_ok_def clean_tag_def selectPool_def cl(2))
  then obtain ps p where "(''a:1'', ps) \<in> set calls" "p \<in> set ps" "dp_Endpoint p = ''h1''" "delete_pk p = Some ''h1/cpu/core=1''"
    by (auto simp: small_index_def pk)
  with cl(1) d show ?thesis by blast
qed

text \<open>The index refers to itself: numbers are not repeated, and a counter or a tag is of an endpoint.\<close>

definition graph_db_ok :: "graph_db \<Rightarrow> bool" where
  "graph_db_ok db \<longleftrightarrow> distinct (map en_ID (gt_endpoint db)) \<and> distinct (map co_ID (gt_counter db)) \<and>
    co_EndpointID ` set (gt_counter db) \<subseteq> en_ID ` set (gt_endpoint db) \<and> te_EndpointID ` set (gt_tag db) \<subseteq> en_ID ` set (gt_endpoint db)"

lemma series_rows_all: "b \<in> snd ` set (series_rows ev inputs P db) \<longleftrightarrow>
    b \<in> set (gt_counter db) \<and> P b \<and> (\<exists>a\<in>set (gt_endpoint db). named ev inputs (en_Endpoint a) \<and> co_EndpointID b = en_ID a)"
  by (force simp: series_rows_def)

lemma delete_counters_exact:
  assumes "distinct (map co_ID (gt_counter db))"
  shows "gt_counter (delete_counters (series_rows ev inputs P db) db) = filter (\<lambda>b. b \<notin> snd ` set (series_rows ev inputs P db)) (gt_counter db)"
proof -
  have "co_ID b \<in> co_ID ` snd ` set (series_rows ev inputs P db) \<longleftrightarrow> b \<in> snd ` set (series_rows ev inputs P db)"
    if "b \<in> set (gt_counter db)" for b
    using that unique_by [OF assms, of b] series_rows_all [of _ ev inputs P db] by (metis (no_types, lifting) imageE imageI)
  then show ?thesis by (simp add: delete_counters_def delete_where_def cong: filter_cong)
qed

text \<open>
  The tables after the deletion of endpoints: the endpoints named are gone, and of the counters
  exactly those of endpoints that stay are left, so none loses its endpoint; when anything failed the
  tables are as before. Tags go with their endpoints if a counter went.
\<close>

theorem DeleteGraphEndpoint_tables:
  assumes "graph_db_ok db" "DeleteGraphEndpoint ev del inputs db = Some (db', calls, resp)"
  shows "case resp of
      RespErr s e \<Rightarrow> db' = db
    | RespOK (n, m) \<Rightarrow>
        gt_endpoint db' = filter (\<lambda>a. \<not> named ev inputs (en_Endpoint a)) (gt_endpoint db) \<and>
        gt_counter db' = filter (\<lambda>b. co_EndpointID b \<in> en_ID ` set (gt_endpoint db')) (gt_counter db) \<and>
        n = int (length (gt_endpoint db)) - int (length (gt_endpoint db')) \<and>
        m = int (length (gt_counter db)) - int (length (gt_counter db')) \<and>
        gt_tag db' = (if m = 0 then gt_tag db else filter (\<lambda>t. te_EndpointID t \<in> en_ID ` set (gt_endpoint db')) (gt_tag db))"
proof -
  let ?rows = "series_rows ev inputs (\<lambda>b. True) db" and ?E = "filter (\<lambda>a. \<not> named ev inputs (en_Endpoint a)) (gt_endpoint db)"
  have ids: "distinct (map en_ID (gt_endpoint db))" using assms(1) by (simp add: graph_db_ok_def)
  have stay: "i \<in> en_ID ` set ?E \<longleftrightarrow> \<not> (\<exists>a\<in>set (gt_endpoint db). named ev inputs (en_Endpoint a) \<and> i = en_ID a)"
    if "i \<in> en_ID ` set (gt_endpoint db)" for i
    using that unique_by [OF ids] by (auto simp: image_iff; blast)
  have co: "gt_counter (delete_counters ?rows db) = filter (\<lambda>b. co_EndpointID b \<in> en_ID ` set ?E) (gt_counter db)"
  proof -
    have "b \<notin> snd ` set ?rows \<longleftrightarrow> co_EndpointID b \<in> en_ID ` set ?E" if "b \<in> set (gt_counter db)" for b
      using that assms(1) stay [of "co_EndpointID b"] series_rows_all [of b ev inputs "\<lambda>b. True" db] by (auto simp: graph_db_ok_def)
    moreover have "distinct (map co_ID (gt_counter db))" using assms(1) by (simp add: graph_db_ok_def)
    ultimately show ?thesis by (simp add: delete_counters_exact cong: filter_cong)
  qed
  have tags: "gt_tag (delete_tags_of ev inputs (delete_counters ?rows db)) = filter (\<lambda>t. te_EndpointID t \<in> en_ID ` set ?E) (gt_tag db)"
  proof -
    have "te_EndpointID t \<notin> en_ID ` {a \<in> set (gt_endpoint db). named ev inputs (en_Endpoint a)} \<longleftrightarrow> te_EndpointID t \<in> en_ID ` set ?E"
      if "t \<in> set (gt_tag db)" for t
    proof -
      have "te_EndpointID t \<in> en_ID ` set (gt_endpoint db)" using that assms(1) by (auto simp: graph_db_ok_def)
      from stay [OF this] show ?thesis by (auto simp: image_iff)
    qed
    then show ?thesis by (simp add: delete_tags_of_def delete_counters_def delete_where_def cong: filter_cong)
  qed
  have len: "int (length (filter (\<lambda>a. named ev inputs (en_Endpoint a)) (gt_endpoint db))) = int (length (gt_endpoint db)) - int (length ?E)"
    using sum_length_filter_compl [of "\<lambda>a. named ev inputs (en_Endpoint a)" "gt_endpoint db"] by linarith
  have less: "length (gt_counter (delete_counters ?rows db)) < length (gt_counter db)" if "?rows \<noteq> []"
  proof -
    from that obtain b where "b \<in> snd ` set ?rows" by (cases ?rows) auto
    then have "b \<in> set (gt_counter db)" "co_ID b \<in> co_ID ` snd ` set ?rows"
      using series_rows_all [of b ev inputs "\<lambda>b. True" db] by auto
    then show ?thesis by (simp add: delete_counters_def delete_where_def length_filter_less)
  qed
  have fields: "gt_endpoint (delete_endpoints ev inputs x) = filter (\<lambda>a. \<not> named ev inputs (en_Endpoint a)) (gt_endpoint x)"
    "gt_counter (delete_endpoints ev inputs x) = gt_counter x" "gt_tag (delete_endpoints ev inputs x) = gt_tag x"
    "gt_counter (delete_tags_of ev inputs x) = gt_counter x" "gt_endpoint (delete_tags_of ev inputs x) = gt_endpoint x"
    "gt_endpoint (delete_counters rs x) = gt_endpoint x" for x rs
    by (simp_all add: delete_endpoints_def delete_tags_of_def delete_counters_def delete_where_def)
  have none: "delete_counters [] db = db" by (simp add: delete_counters_def delete_where_def)
  let ?n = "int (length (filter (\<lambda>a. named ev inputs (en_Endpoint a)) (gt_endpoint db)))"
  show ?thesis
  proof (cases "?rows = []")
    case True
    have "(\<exists>s e. resp = RespErr s e) \<and> db' = db \<or> db' = delete_endpoints ev inputs db \<and> resp = RespOK (?n, 0)"
      using assms(2) True by (auto simp: DeleteGraphEndpoint_def Let_def split: if_splits)
    moreover have "filter (\<lambda>b. co_EndpointID b \<in> en_ID ` set ?E) (gt_counter db) = gt_counter db"
      using co none True by simp
    ultimately show ?thesis using len by (auto simp: fields)
  next
    case False
    let ?m = "int (length (gt_counter db) - length (gt_counter (delete_counters ?rows db)))"
    have "(\<exists>s e. resp = RespErr s e) \<and> db' = db \<or>
        db' = delete_endpoints ev inputs (delete_tags_of ev inputs (delete_counters ?rows db)) \<and> resp = RespOK (?n, ?m)"
      using assms(2) False by (auto simp: DeleteGraphEndpoint_def Let_def split: if_splits bind_splits)
    then show ?thesis using len less [OF False] tags unfolding co [symmetric] by (auto simp: fields of_nat_diff co)
  qed
qed

theorem DeleteGraphEndpoint_tables_witness:
  "\<exists>db' calls n m. DeleteGraphEndpoint plain_env (\<lambda>ps. Some []) [''H1''] small_index = Some (db', calls, RespOK (n, m)) \<and>
    map en_Endpoint (gt_endpoint db') = [''h2''] \<and> map co_Counter (gt_counter db') = [''load''] \<and> gt_tag db' = [] \<and> n = 1 \<and> m = 1"
proof -
  have ok: "gv_ok plain_env k" for k by (simp add: plain_env_def)
  have inv: "graph_db_ok small_index" by (simp add: graph_db_ok_def small_index_def)
  have named: "named plain_env [''H1''] ''h1''" "\<not> named plain_env [''H1''] ''h2''" by code_simp+
  have "\<exists>db' calls n m. DeleteGraphEndpoint plain_env (\<lambda>ps. Some []) [''H1''] small_index = Some (db', calls, RespOK (n, m))"
    by (simp add: DeleteGraphEndpoint_def Let_def ok)
  then obtain db' calls n m where d: "DeleteGraphEndpoint plain_env (\<lambda>ps. Some []) [''H1''] small_index = Some (db', calls, RespOK (n, m))" by blast
  have e: "filter (\<lambda>a. \<not> named plain_env [''H1''] (en_Endpoint a)) (gt_endpoint small_index) = [\<lparr>en_ID = 2, en_Endpoint = ''h2'', en_Ts = 9\<rparr>]"
    by (simp add: small_index_def named)
  from DeleteGraphEndpoint_tables [OF inv d] e d show ?thesis by (simp add: small_index_def)
qed

text \<open>An endpoint without counters loses its row but not its tags: they refer to nothing.\<close>

theorem tags_without_endpoint:
  assumes "graph_db_ok db" "a \<in> set (gt_endpoint db)" "named ev inputs (en_Endpoint a)"
    and "\<forall>b\<in>set (gt_counter db). \<forall>e\<in>set (gt_endpoint db). named ev inputs (en_Endpoint e) \<longrightarrow> co_EndpointID b \<noteq> en_ID e"
    and "t \<in> set (gt_tag db)" "te_EndpointID t = en_ID a" "gv_ok ev 1" "gv_ok ev 4"
  shows "\<exists>db' n. DeleteGraphEndpoint ev del inputs db = Some (db', [], RespOK (n, 0)) \<and> \<not> graph_db_ok db'"
proof -
  have rows: "series_rows ev inputs (\<lambda>b. True) db = []"
    using assms(4) by (auto simp: series_rows_def filter_empty_conv)
  let ?db = "delete_endpoints ev inputs db"
  have "en_ID a \<notin> en_ID ` set (gt_endpoint ?db)"
  proof
    assume "en_ID a \<in> en_ID ` set (gt_endpoint ?db)"
    then obtain e where e: "e \<in> set (gt_endpoint db)" "\<not> named ev inputs (en_Endpoint e)" "en_ID e = en_ID a"
      by (auto simp: delete_endpoints_def)
    have "distinct (map en_ID (gt_endpoint db))" using assms(1) by (simp add: graph_db_ok_def)
    from unique_by [OF this e(1) assms(2) e(3)] e(2) assms(3) show False by simp
  qed
  moreover have "te_EndpointID t \<in> te_EndpointID ` set (gt_tag ?db)" using assms(5) by (simp add: delete_endpoints_def)
  ultimately have "\<not> graph_db_ok ?db" using assms(6) unfolding graph_db_ok_def by (metis subsetD)
  then show ?thesis using assms(7,8) rows by (auto simp: DeleteGraphEndpoint_def)
qed

theorem tags_without_endpoint_witness:
  "\<exists>db' n. DeleteGraphEndpoint plain_env (\<lambda>ps. None) [''h1''] (small_index\<lparr>gt_counter := []\<rparr>) = Some (db', [], RespOK (n, 0)) \<and> \<not> graph_db_ok db'"
proof -
  have named: "named plain_env [''h1''] ''h1''" by code_simp
  have ok: "gv_ok plain_env k" for k by (simp add: plain_env_def)
  show ?thesis
    by (rule tags_without_endpoint [of _ "\<lparr>en_ID = 1, en_Endpoint = ''h1'', en_Ts = 9\<rparr>" _ _ "\<lparr>te_ID = 1, te_Tag = ''core=1'', te_EndpointID = 1, te_Ts = 9\<rparr>"])
      (simp_all add: graph_db_ok_def small_index_def named ok)
qed

text \<open>
  A metric that holds a slash and has no tags is read as a metric with tags that cannot be parsed: its
  points stay in the graph although the row of the index goes.
\<close>

theorem slash_metric_not_deleted:
  assumes "slash_free m1" "m2 \<noteq> ''''" "CHR ''='' \<notin> set m2" "CHR '' '' \<notin> set m2" "CHR '','' \<notin> set m2" "co_Counter b = m1 @ ''/'' @ m2"
  shows "delete_pk (row_param (ep, b)) = None \<and> api_Delete cl reach visit [row_param (ep, b)] = foldM (delete_node cl reach) [] (visit [])"
proof -
  have "go_split2 (CHR ''/'') (m1 @ CHR ''/'' # m2) = [m1, m2]"
    using assms(1) by (intro go_split2_sep) (simp add: slash_free_def)
  then have r: "dp_Tags (row_param (ep, b)) = m2" using assms(6) by (simp add: row_param_def)
  have "go_remove (CHR '' '') m2 = m2" using assms(4) by (rule go_remove_id)
  moreover have "go_split (CHR '','') m2 = [m2]" using assms(5) by (rule go_split_no_sep)
  ultimately have "fst (SplitTagsString m2) \<noteq> None" using assms(2,3) SplitTagsString_strict [of m2] by simp
  then have "delete_pk (row_param (ep, b)) = None" by (auto simp: delete_pk_def r split: option.split prod.split)
  then show ?thesis by (simp add: api_Delete_def delete_nodes_def)
qed

theorem slash_metric_not_deleted_witness:
  "delete_pk (row_param (''h1'', \<lparr>co_ID = 1, co_EndpointID = 1, co_Counter = ''disk/io'', co_Step = 60, co_Type = ''GAUGE'', co_Ts = 9\<rparr>)) = None"
  using slash_metric_not_deleted [of "''disk''" "''io''" "\<lparr>co_ID = 1, co_EndpointID = 1, co_Counter = ''disk/io'', co_Step = 60, co_Type = ''GAUGE'', co_Ts = 9\<rparr>" "''h1''"]
  by (simp add: slash_free_def)

section \<open>Searching\<close>

text \<open>
  A label that no counter has does not narrow a search by name: the answer is the one without the label.
\<close>

theorem unmatched_label_ignored:
  assumes "q \<noteq> ''''" "label \<noteq> ''''" "label_ids ev (go_split (CHR '','') label) db = []" "gv_ok ev 1"
  shows "EndpointRegexpQuery ev q label lmt page db = EndpointRegexpQuery ev q '''' lmt page db"
proof -
  have p: "page_rows lmt off [] = []" for off by (simp add: page_rows_def)
  have "go_split (CHR '','') label \<noteq> []" by (rule go_split_nonempty)
  with assms show ?thesis by (simp add: EndpointRegexpQuery_def Let_def p)
qed

theorem unmatched_label_ignored_witness:
  "EndpointRegexpQuery plain_env ''h'' ''mem'' 500 1 small_index = RespOK [(1, ''h1''), (2, ''h2'')]"
proof -
  have l: "label_ids plain_env (go_split (CHR '','') ''mem'') small_index = []" by code_simp
  have "EndpointRegexpQuery plain_env ''h'' '''' 500 1 small_index = RespOK [(1, ''h1''), (2, ''h2'')]" by code_simp
  then show ?thesis using unmatched_label_ignored [of "''h''" "''mem''" plain_env small_index 500 1, OF _ _ l]
    by (simp add: plain_env_def)
qed

section \<open>Targets of Grafana\<close>

lemma replace_all_skip:
  assumes "CHR ''#'' \<notin> set p"
  shows "replace_all ''#'' new (p @ s) = p @ replace_all ''#'' new s"
  using assms
proof (induction p)
  case (Cons c p)
  then show ?case by (subst replace_all.simps) (auto simp: go_has_prefix_def)
qed simp

lemma replace_all_Nil: "replace_all old new [] = []"
  by (subst replace_all.simps) simp

lemma replace_all_hash: "replace_all ''#'' new (CHR ''#'' # s) = new @ replace_all ''#'' new s"
  by (subst replace_all.simps) (simp add: go_has_prefix_def)

lemma replace_all_join:
  "list_all (\<lambda>p. CHR ''#'' \<notin> set p) parts \<Longrightarrow> replace_all ''#'' new (go_join ''#'' parts) = go_join new parts"
proof (induction parts)
  case (Cons x zs)
  have x: "replace_all ''#'' new x = x" using Cons.prems replace_all_skip [of x new "[]"] by (simp add: replace_all_Nil)
  show ?case
  proof (cases zs)
    case Nil
    then show ?thesis using x by simp
  next
    case (Cons y ys)
    then show ?thesis using Cons.IH Cons.prems by (simp add: replace_all_skip replace_all_hash)
  qed
qed (simp add: replace_all_Nil)

text \<open>
  A target of Grafana names its hosts and its counter: what is written in braces, separated by commas,
  comes back as the list of hosts, and the parts of the counter after the hash sign come back separated by
  an escaped dot.
\<close>

theorem grafana_target_roundtrip:
  assumes "hosts \<noteq> []" "list_all (\<lambda>h. h \<noteq> '''' \<and> CHR '','' \<notin> set h \<and> CHR ''#'' \<notin> set h \<and> CHR ''}'' \<notin> set h) hosts"
    and "list_all (\<lambda>p. CHR ''#'' \<notin> set p \<and> CHR 0x0A \<notin> set p) parts" "go_join ''#'' parts \<noteq> ''''"
  shows "cutEndpointCounterHelp (''{'' @ go_join '','' hosts @ ''}#'' @ go_join ''#'' parts) = (hosts, go_join [CHR 0x5C, CHR ''.''] parts)"
proof -
  let ?h = "go_join '','' hosts" and ?c = "go_join ''#'' parts"
  have hs: "x \<noteq> CHR ''#'' \<and> x \<noteq> CHR ''}''" if "x \<in> set ?h" for x
    using that assms(2) set_go_join [of "'',''" hosts] by (auto simp: list_all_iff)
  have tw: "takeWhile (\<lambda>c. c \<noteq> CHR ''#'' \<and> c \<noteq> CHR ''}'') (?h @ ''}#'' @ ?c) = ?h"
    using hs by (subst takeWhile_append2) auto
  have cs: "takeWhile (\<lambda>c. c \<noteq> CHR 0x0A) ?c = ?c"
    using assms(3) set_go_join [of "''#''" parts] by (auto simp: takeWhile_eq_all_conv list_all_iff)
  have "hd hosts \<noteq> ''''" using assms(1,2) by (cases hosts) auto
  then have ne: "?h \<noteq> ''''" using assms(1) by (cases hosts rule: list.exhaust; cases "tl hosts") auto
  have "hosts_and_counter (?h @ ''}#'' @ ?c) = Some (?h, ?c)"
    unfolding hosts_and_counter_def tw Let_def using ne assms(4) by (simp add: go_has_prefix_def cs)
  then have "match_target (''{'' @ ?h @ ''}#'' @ ?c) = Some (?h, ?c)" by (simp add: match_target_def go_has_prefix_def)
  moreover have "go_split (CHR '','') ?h = hosts"
    using assms(1,2) by (intro go_split_join) (auto simp: list_all_iff)
  moreover have "replace_all ''#'' [CHR 0x5C, CHR ''.''] ?c = go_join [CHR 0x5C, CHR ''.''] parts"
    using assms(3) by (intro replace_all_join) (auto simp: list_all_iff)
  ultimately show ?thesis by (simp add: cutEndpointCounterHelp_def)
qed

theorem grafana_target_roundtrip_witness:
  "cutEndpointCounterHelp ''{h1,h2}#cpu#idle'' = ([''h1'', ''h2''], ''cpu'' @ [CHR 0x5C, CHR ''.''] @ ''idle'')"
  using grafana_target_roundtrip [of "[''h1'', ''h2'']" "[''cpu'', ''idle'']"] by simp

text \<open>
  The route asks for no session, and the text after the hash sign becomes part of the SQL condition as it
  is: a quote in it ends the pattern.
\<close>

theorem grafana_condition_injected:
  "snd (cutEndpointCounterHelp (''h#'' @ [CHR 0x27] @ '') OR (1=1'')) = [CHR 0x27] @ '') OR (1=1'' \<and>
    counter_condition [1] ''regexp'' ([CHR 0x27] @ '') OR (1=1'') =
      ''endpoint_id IN (1) AND counter regexp '' @ [CHR 0x27, CHR 0x27] @ '') OR (1=1'' @ [CHR 0x27]"
  by code_simp

end
