(* ===== verification/Api_Dashboard.thy ===== *)
theory Api_Dashboard
  imports Api_Base
begin

text \<open>
  Dashboards (\<open>controller/dashboard_graph\<close>, \<open>controller/dashboard_screen\<close>, \<open>model/dashboard\<close>): graphs of one
  moment, graphs of a screen, and screens, as handlers over their tables. Texts are taken to fit their
  columns.
\<close>

section \<open>Tables\<close>

record dashboard_graph =
  dg_ID :: int
  dg_Title :: string
  dg_Hosts :: string
  dg_Counters :: string
  dg_ScreenId :: int
  dg_TimeSpan :: int
  dg_GraphType :: string
  dg_Method :: string
  dg_Position :: int
  dg_FalconTags :: string

record dashboard_screen =
  sn_ID :: int
  sn_PID :: int
  sn_Name :: string

record dashboard_tmp_graph =
  tg_ID :: int
  tg_Endpoints :: string
  tg_Counters :: string
  tg_CK :: string
  tg_Time :: int64

record dash_db =
  t_dgraph :: "dashboard_graph list"
  t_screen :: "dashboard_screen list"
  t_tmp :: "dashboard_tmp_graph list"
  next_dgraph :: int
  next_screen :: int
  next_tmp :: int

text \<open>
  Collation, the number the database reads in a text that is compared with a number, the number Go
  reads in a text given as limit, and which statements succeed.
\<close>

record dash_env =
  dv_coll :: "string \<Rightarrow> string"
  dv_num :: "string \<Rightarrow> int option"
  dv_limit :: "string \<Rightarrow> int option"
  dv_ok :: "nat \<Rightarrow> bool"

definition TMP_GRAPH_FILED_DELIMITER :: char where
  "TMP_GRAPH_FILED_DELIMITER = CHR ''|''"

definition joined :: "string list \<Rightarrow> string" where
  "joined xs = go_join [TMP_GRAPH_FILED_DELIMITER] (sort xs)"

definition parted :: "string \<Rightarrow> string list" where
  "parted s = go_split TMP_GRAPH_FILED_DELIMITER s"

section \<open>Graphs of one moment\<close>

definition insert_tmp :: "string \<Rightarrow> string \<Rightarrow> string \<Rightarrow> int64 \<Rightarrow> dash_db \<Rightarrow> dash_db" where
  "insert_tmp es cs ck now db =
    (if list_ex (\<lambda>r. tg_CK r = ck) (t_tmp db)
     then db\<lparr>t_tmp := update_where (\<lambda>r. tg_CK r = ck) (\<lambda>r. r\<lparr>tg_Time := now\<rparr>) (t_tmp db)\<rparr>
     else db\<lparr>t_tmp := t_tmp db @ [\<lparr>tg_ID = next_tmp db, tg_Endpoints = es, tg_Counters = cs, tg_CK = ck, tg_Time = now\<rparr>],
       next_tmp := next_tmp db + 1\<rparr>)"

definition DashboardTmpGraphCreate ::
    "dash_env \<Rightarrow> int64 \<Rightarrow> string list \<Rightarrow> string list \<Rightarrow> dash_db \<Rightarrow> dash_db \<times> int resp" where
  "DashboardTmpGraphCreate ev now endpoints counters db =
    (let es_string = joined endpoints;
         cs_string = joined counters;
         ck = Md5 (es_string @ '':'' @ cs_string)
     in if \<not> dv_ok ev 1 then (db, RespErr StatusBadRequest db_error)
        else let db1 = insert_tmp es_string cs_string ck now db in
          if \<not> dv_ok ev 2 then (db1, RespErr StatusBadRequest db_error)
          else (case find_first tg_ID (\<lambda>r. tg_CK r = ck) (t_tmp db1) of
             None \<Rightarrow> (db1, RespErr StatusBadRequest not_found)
           | Some r \<Rightarrow> (db1, RespOK (tg_ID r))))"

definition DashboardTmpGraphQuery :: "dash_env \<Rightarrow> string \<Rightarrow> dash_db \<Rightarrow> (string list \<times> string list) resp" where
  "DashboardTmpGraphQuery ev id_text db =
    (if \<not> dv_ok ev 1 then RespErr StatusBadRequest db_error
     else case find_first tg_ID (\<lambda>r. Some (tg_ID r) = dv_num ev id_text) (t_tmp db) of
       None \<Rightarrow> RespErr StatusBadRequest not_found
     | Some r \<Rightarrow> RespOK (parted (tg_Endpoints r), parted (tg_Counters r)))"

section \<open>Graphs of a screen\<close>

record dgraph_input =
  di_ScreenId :: int
  di_Title :: string
  di_Endpoints :: "string list"
  di_Counters :: "string list"
  di_TimeSpan :: int
  di_GraphType :: string
  di_Method :: string
  di_Position :: int
  di_FalconTags :: string

definition DashboardGraphCreate :: "dash_env \<Rightarrow> dgraph_input \<Rightarrow> dash_db \<Rightarrow> dash_db \<times> int resp" where
  "DashboardGraphCreate ev inputs db =
    (let d = \<lparr>dg_ID = next_dgraph db, dg_Title = di_Title inputs, dg_Hosts = joined (di_Endpoints inputs),
           dg_Counters = joined (di_Counters inputs), dg_ScreenId = di_ScreenId inputs,
           dg_TimeSpan = (if di_TimeSpan inputs = 0 then 3600 else di_TimeSpan inputs),
           dg_GraphType = (if di_GraphType inputs = '''' then ''h'' else di_GraphType inputs),
           dg_Method = di_Method inputs, dg_Position = di_Position inputs, dg_FalconTags = ''''\<rparr>
     in if \<not> dv_ok ev 1 then (db, RespErr StatusBadRequest db_error)
        else if \<not> dv_ok ev 2 then (db, RespErr StatusBadRequest db_error)
        else (db\<lparr>t_dgraph := t_dgraph db @ [d], next_dgraph := next_dgraph db + 1\<rparr>, RespOK (dg_ID d)))"

text \<open>Fields that are zero in the struct are not written.\<close>

definition graph_update :: "dgraph_input \<Rightarrow> dashboard_graph \<Rightarrow> dashboard_graph" where
  "graph_update inputs g =
    (let hosts = (if di_Endpoints inputs \<noteq> [] then joined (di_Endpoints inputs) else '''');
         cs = (if di_Counters inputs \<noteq> [] then joined (di_Counters inputs) else '''')
     in \<lparr>dg_ID = dg_ID g,
         dg_Title = (if di_Title inputs \<noteq> '''' then di_Title inputs else dg_Title g),
         dg_Hosts = (if hosts \<noteq> '''' then hosts else dg_Hosts g),
         dg_Counters = (if cs \<noteq> '''' then cs else dg_Counters g),
         dg_ScreenId = (if di_ScreenId inputs \<noteq> 0 then di_ScreenId inputs else dg_ScreenId g),
         dg_TimeSpan = (if di_TimeSpan inputs \<noteq> 0 then di_TimeSpan inputs else dg_TimeSpan g),
         dg_GraphType = (if di_GraphType inputs \<noteq> '''' then di_GraphType inputs else dg_GraphType g),
         dg_Method = (if di_Method inputs \<noteq> '''' then di_Method inputs else dg_Method g),
         dg_Position = (if di_Position inputs \<noteq> 0 then di_Position inputs else dg_Position g),
         dg_FalconTags = (if di_FalconTags inputs \<noteq> '''' then di_FalconTags inputs else dg_FalconTags g)\<rparr>)"

definition DashboardGraphUpdate :: "dash_env \<Rightarrow> string \<Rightarrow> dgraph_input \<Rightarrow> dash_db \<Rightarrow> dash_db \<times> int resp" where
  "DashboardGraphUpdate ev id_text inputs db =
    (case atoi id_text of
       Inl err \<Rightarrow> (db, RespErr StatusBadRequest ''invalid graph id'')
     | Inr gid \<Rightarrow>
        if \<not> dv_ok ev 1 then (db, RespErr StatusBadRequest db_error)
        else (db\<lparr>t_dgraph := update_where (\<lambda>g. dg_ID g = gid) (graph_update inputs) (t_dgraph db)\<rparr>, RespOK gid))"

record graph_page =
  gp_graph :: dashboard_graph
  gp_endpoints :: "string list"
  gp_counters :: "string list"

definition graph_page_of :: "dashboard_graph \<Rightarrow> graph_page" where
  "graph_page_of g = \<lparr>gp_graph = g, gp_endpoints = parted (dg_Hosts g), gp_counters = parted (dg_Counters g)\<rparr>"

definition DashboardGraphGet :: "dash_env \<Rightarrow> string \<Rightarrow> dash_db \<Rightarrow> graph_page resp" where
  "DashboardGraphGet ev id_text db =
    (case atoi id_text of
       Inl err \<Rightarrow> RespErr StatusBadRequest ''invalid graph id''
     | Inr gid \<Rightarrow>
        if \<not> dv_ok ev 1 then RespErr StatusBadRequest db_error
        else (case find_first dg_ID (\<lambda>g. dg_ID g = gid) (t_dgraph db) of
           None \<Rightarrow> RespErr StatusBadRequest not_found
         | Some g \<Rightarrow> RespOK (graph_page_of g)))"

definition DashboardGraphDelete :: "dash_env \<Rightarrow> string \<Rightarrow> dash_db \<Rightarrow> dash_db \<times> int resp" where
  "DashboardGraphDelete ev id_text db =
    (case atoi id_text of
       Inl err \<Rightarrow> (db, RespErr StatusBadRequest ''invalid graph id'')
     | Inr gid \<Rightarrow>
        if \<not> dv_ok ev 1 then (db, RespErr StatusBadRequest db_error)
        else (db\<lparr>t_dgraph := delete_where (\<lambda>g. dg_ID g = gid) (t_dgraph db)\<rparr>, RespOK gid))"

text \<open>A limit that is no number, or a negative one, is none.\<close>

definition limited :: "dash_env \<Rightarrow> string \<Rightarrow> 'r list \<Rightarrow> 'r list" where
  "limited ev limit_text rows =
    (case dv_limit ev limit_text of None \<Rightarrow> rows | Some n \<Rightarrow> if n < 0 then rows else take (nat n) rows)"

definition DashboardGraphGetsByScreenID :: "dash_env \<Rightarrow> string \<Rightarrow> string \<Rightarrow> dash_db \<Rightarrow> graph_page list resp" where
  "DashboardGraphGetsByScreenID ev id_text limit_text db =
    (case atoi id_text of
       Inl err \<Rightarrow> RespErr StatusBadRequest ''invalid screen id''
     | Inr sid \<Rightarrow>
        if \<not> dv_ok ev 1 then RespErr StatusBadRequest db_error
        else RespOK (map graph_page_of (limited ev limit_text (filter (\<lambda>g. dg_ScreenId g = sid) (t_dgraph db)))))"

section \<open>Screens\<close>

text \<open>A screen with the parent and name of another is not inserted.\<close>

definition insert_screen :: "dash_env \<Rightarrow> int \<Rightarrow> string \<Rightarrow> dash_db \<Rightarrow> dash_db" where
  "insert_screen ev pid nm db =
    (if list_ex (\<lambda>s. sn_PID s = pid \<and> dv_coll ev (sn_Name s) = dv_coll ev nm) (t_screen db) then db
     else db\<lparr>t_screen := t_screen db @ [\<lparr>sn_ID = next_screen db, sn_PID = pid, sn_Name = nm\<rparr>], next_screen := next_screen db + 1\<rparr>)"

definition ScreenCreate :: "dash_env \<Rightarrow> string \<Rightarrow> string \<Rightarrow> dash_db \<Rightarrow> dash_db \<times> (int \<times> int \<times> string) resp" where
  "ScreenCreate ev pid nm db =
    (if nm = '''' then (db, RespErr StatusBadRequest ''empty name'')
     else case atoi pid of
       Inl err \<Rightarrow> (db, RespErr StatusBadRequest ''invalid screen pid'')
     | Inr ipid \<Rightarrow>
        if \<not> dv_ok ev 1 then (db, RespErr StatusBadRequest db_error)
        else let db1 = insert_screen ev ipid nm db in
          if \<not> dv_ok ev 2 then (db1, RespErr StatusBadRequest db_error)
          else (case filter (\<lambda>s. sn_PID s = ipid \<and> dv_coll ev (sn_Name s) = dv_coll ev nm) (t_screen db1) of
             [] \<Rightarrow> (db1, RespErr StatusBadRequest '''')
           | s # _ \<Rightarrow> (db1, RespOK (ipid, sn_ID s, nm))))"

definition ScreenGet :: "dash_env \<Rightarrow> string \<Rightarrow> dash_db \<Rightarrow> dashboard_screen resp" where
  "ScreenGet ev id_text db =
    (case atoi id_text of
       Inl err \<Rightarrow> RespErr StatusBadRequest ''invalid screen id''
     | Inr sid \<Rightarrow>
        if \<not> dv_ok ev 1 then RespErr StatusBadRequest db_error
        else (case find_first sn_ID (\<lambda>s. sn_ID s = sid) (t_screen db) of
           None \<Rightarrow> RespErr StatusBadRequest not_found
         | Some s \<Rightarrow> RespOK s))"

definition ScreenGetsByPid :: "dash_env \<Rightarrow> string \<Rightarrow> dash_db \<Rightarrow> dashboard_screen list resp" where
  "ScreenGetsByPid ev id_text db =
    (case atoi id_text of
       Inl err \<Rightarrow> RespErr StatusBadRequest ''invalid screen pid''
     | Inr pid \<Rightarrow>
        if \<not> dv_ok ev 1 then RespErr StatusBadRequest db_error
        else RespOK (filter (\<lambda>s. sn_PID s = pid) (t_screen db)))"

definition ScreenGetsAll :: "dash_env \<Rightarrow> string \<Rightarrow> dash_db \<Rightarrow> dashboard_screen list resp" where
  "ScreenGetsAll ev limit_text db =
    (if \<not> dv_ok ev 1 then RespErr StatusBadRequest db_error else RespOK (limited ev limit_text (t_screen db)))"

definition ScreenDelete :: "dash_env \<Rightarrow> string \<Rightarrow> dash_db \<Rightarrow> dash_db \<times> string resp" where
  "ScreenDelete ev id_text db =
    (case atoi id_text of
       Inl err \<Rightarrow> (db, RespErr StatusBadRequest ''invalid screen id'')
     | Inr sid \<Rightarrow>
        if \<not> dv_ok ev 1 then (db, RespErr StatusBadRequest db_error)
        else (db\<lparr>t_screen := delete_where (\<lambda>s. sn_ID s = sid) (t_screen db)\<rparr>, RespOK ''ok''))"

definition ScreenUpdate :: "dash_env \<Rightarrow> string \<Rightarrow> string \<Rightarrow> string \<Rightarrow> dash_db \<Rightarrow> dash_db \<times> string resp" where
  "ScreenUpdate ev id_text pid nm db =
    (case atoi id_text of
       Inl err \<Rightarrow> (db, RespErr StatusBadRequest ''invalid screen id'')
     | Inr sid \<Rightarrow>
        (case (if pid \<noteq> '''' then map_sum id Some (atoi pid) else Inr None) of
           Inl err \<Rightarrow> (db, RespErr StatusBadRequest ''invalid screen pid'')
         | Inr new_pid \<Rightarrow>
            if \<not> dv_ok ev 1 then (db, RespErr StatusBadRequest db_error)
            else (db\<lparr>t_screen := update_where (\<lambda>s. sn_ID s = sid)
                (\<lambda>s. s\<lparr>sn_Name := (if nm \<noteq> '''' then nm else sn_Name s),
                    sn_PID := (case new_pid of None \<Rightarrow> sn_PID s | Some p \<Rightarrow> p)\<rparr>) (t_screen db)\<rparr>, RespOK ''ok'')))"

section \<open>What is stored comes back\<close>

lemma parted_joined:
  assumes "xs \<noteq> []" "list_all (\<lambda>x. CHR ''|'' \<notin> set x) xs"
  shows "parted (joined xs) = sort xs"
proof -
  have "sort xs \<noteq> []" using assms(1) by (metis length_0_conv length_sort)
  then show ?thesis
    using assms(2) unfolding parted_def joined_def TMP_GRAPH_FILED_DELIMITER_def by (intro go_split_join) (auto simp: list_all_iff)
qed

lemma joined_perm: "mset xs = mset ys \<Longrightarrow> joined xs = joined ys"
  unfolding joined_def by (metis sorted_list_of_multiset_mset)

lemma find_first_unique:
  assumes "r \<in> set rows" "P r" "\<And>r'. r' \<in> set rows \<Longrightarrow> P r' \<Longrightarrow> r' = r"
  shows "find_first key P rows = Some r"
proof -
  have "set (sort_key key (filter P rows)) = {r}" using assms(1,2) by (auto dest: assms(3))
  then have "\<exists>xs. sort_key key (filter P rows) = r # xs"
    by (metis insertI1 list.set_intros(1) neq_Nil_conv singletonD empty_iff list.set(1))
  then show ?thesis by (auto simp: find_first_def)
qed

text \<open>Numbers and digests are not repeated, and a digest is that of the texts beside it.\<close>

definition tmp_ok :: "dash_db \<Rightarrow> bool" where
  "tmp_ok db \<longleftrightarrow> table_ok tg_ID (next_tmp db) (t_tmp db) \<and> distinct (map tg_CK (t_tmp db)) \<and>
    list_all (\<lambda>r. tg_CK r = Md5 (tg_Endpoints r @ '':'' @ tg_Counters r)) (t_tmp db)"

lemma insert_tmp_ok:
  assumes "tmp_ok db" "ck = Md5 (es @ '':'' @ cs)"
  shows "tmp_ok (insert_tmp es cs ck now db)"
proof (cases "list_ex (\<lambda>r. tg_CK r = ck) (t_tmp db)")
  case True
  have "table_ok tg_ID (next_tmp db) (update_where (\<lambda>r. tg_CK r = ck) (\<lambda>r. r\<lparr>tg_Time := now\<rparr>) (t_tmp db))"
    using assms(1) by (intro table_ok_update) (auto simp: tmp_ok_def)
  moreover have "map tg_CK (update_where (\<lambda>r. tg_CK r = ck) (\<lambda>r. r\<lparr>tg_Time := now\<rparr>) (t_tmp db)) = map tg_CK (t_tmp db)"
    by (rule map_update_where) simp
  ultimately show ?thesis using assms True by (auto simp: tmp_ok_def insert_tmp_def list_all_iff in_update_where)
next
  case False
  then have "ck \<notin> tg_CK ` set (t_tmp db)" by (auto simp: list_ex_iff)
  moreover have "table_ok tg_ID (next_tmp db + 1) (t_tmp db @ [\<lparr>tg_ID = next_tmp db, tg_Endpoints = es, tg_Counters = cs, tg_CK = ck, tg_Time = now\<rparr>])"
    using assms(1) by (intro table_ok_append) (auto simp: tmp_ok_def)
  ultimately show ?thesis using assms False by (auto simp: tmp_ok_def insert_tmp_def)
qed

lemma insert_tmp_row: "\<exists>r\<in>set (t_tmp (insert_tmp es cs ck now db)). tg_CK r = ck"
proof (cases "list_ex (\<lambda>r. tg_CK r = ck) (t_tmp db)")
  case True
  then obtain r where r: "r \<in> set (t_tmp db)" "tg_CK r = ck" by (auto simp: list_ex_iff)
  then have "r\<lparr>tg_Time := now\<rparr> \<in> set (update_where (\<lambda>r. tg_CK r = ck) (\<lambda>r. r\<lparr>tg_Time := now\<rparr>) (t_tmp db))"
    unfolding in_update_where by (intro bexI [of _ r]) simp_all
  then show ?thesis using True r(2) by (auto simp: insert_tmp_def intro!: bexI [of _ "r\<lparr>tg_Time := now\<rparr>"])
qed (simp add: insert_tmp_def)

lemma insert_tmp_texts:
  "map (\<lambda>r. (tg_ID r, tg_Endpoints r, tg_Counters r, tg_CK r)) (t_tmp (insert_tmp es cs ck now db)) =
    map (\<lambda>r. (tg_ID r, tg_Endpoints r, tg_Counters r, tg_CK r)) (t_tmp db) @
    (if list_ex (\<lambda>r. tg_CK r = ck) (t_tmp db) then [] else [(next_tmp db, es, cs, ck)])"
  by (auto simp: insert_tmp_def map_update_where)

lemma tmp_created:
  assumes "tmp_ok db" "dv_ok ev 1" "dv_ok ev 2"
  shows "\<exists>r. r \<in> set (t_tmp (insert_tmp (joined es) (joined cs) (Md5 (joined es @ '':'' @ joined cs)) now db)) \<and>
    tg_CK r = Md5 (joined es @ '':'' @ joined cs) \<and>
    DashboardTmpGraphCreate ev now es cs db = (insert_tmp (joined es) (joined cs) (Md5 (joined es @ '':'' @ joined cs)) now db, RespOK (tg_ID r))"
proof -
  let ?ck = "Md5 (joined es @ '':'' @ joined cs)"
  let ?db = "insert_tmp (joined es) (joined cs) ?ck now db"
  from insert_tmp_row obtain r where r: "r \<in> set (t_tmp ?db)" "tg_CK r = ?ck" by blast
  have "distinct (map tg_CK (t_tmp ?db))" using insert_tmp_ok [OF assms(1) refl] by (simp add: tmp_ok_def)
  from unique_by [OF this] r have "find_first tg_ID (\<lambda>r. tg_CK r = ?ck) (t_tmp ?db) = Some r"
    by (intro find_first_unique) auto
  with assms(2,3) r show ?thesis by (auto simp: DashboardTmpGraphCreate_def Let_def)
qed

text \<open>
  A graph of one moment comes back: its number gives the sorted endpoints and counters it was made of,
  and making it again, in any order, gives the same number and no second row. This needs that no other
  row has the same digest.
\<close>

theorem tmp_graph_shared:
  assumes "tmp_ok db" "dv_ok ev 1" "dv_ok ev 2"
    and "DashboardTmpGraphCreate ev now es cs db = (db1, RespOK i)" "dv_num ev id_text = Some i"
    and "\<forall>r\<in>set (t_tmp db). tg_CK r = Md5 (joined es @ '':'' @ joined cs) \<longrightarrow> tg_Endpoints r = joined es \<and> tg_Counters r = joined cs"
    and "es \<noteq> []" "cs \<noteq> []" "list_all (\<lambda>x. CHR ''|'' \<notin> set x) (es @ cs)" "mset es' = mset es" "mset cs' = mset cs"
  shows "DashboardTmpGraphQuery ev id_text db1 = RespOK (sort es, sort cs) \<and>
    (\<exists>db2. DashboardTmpGraphCreate ev now' es' cs' db1 = (db2, RespOK i) \<and> length (t_tmp db2) = length (t_tmp db1))"
proof -
  let ?ck = "Md5 (joined es @ '':'' @ joined cs)"
  from tmp_created [OF assms(1-3), of es cs now] assms(4) obtain r where r: "r \<in> set (t_tmp db1)" "tg_CK r = ?ck" "i = tg_ID r"
    and db1: "db1 = insert_tmp (joined es) (joined cs) ?ck now db" by auto
  have ok1: "tmp_ok db1" unfolding db1 by (rule insert_tmp_ok [OF assms(1) refl])
  have "(tg_ID r, tg_Endpoints r, tg_Counters r, tg_CK r) \<in> set (map (\<lambda>r. (tg_ID r, tg_Endpoints r, tg_Counters r, tg_CK r)) (t_tmp db1))"
    using r(1) by simp
  then have texts: "tg_Endpoints r = joined es" "tg_Counters r = joined cs"
    using r(2) assms(6) unfolding db1 insert_tmp_texts by (auto split: if_splits)
  have "distinct (map tg_ID (t_tmp db1))" using ok1 by (simp add: tmp_ok_def table_ok_def)
  from unique_by [OF this] r have "find_first tg_ID (\<lambda>x. Some (tg_ID x) = dv_num ev id_text) (t_tmp db1) = Some r"
    using assms(5) by (intro find_first_unique) auto
  then have q: "DashboardTmpGraphQuery ev id_text db1 = RespOK (sort es, sort cs)"
    using assms(2,7-9) by (simp add: DashboardTmpGraphQuery_def texts parted_joined)
  have j: "joined es' = joined es" "joined cs' = joined cs" using assms(10,11) by (auto intro: joined_perm)
  from tmp_created [OF ok1 assms(2,3), of es' cs' now', unfolded j] obtain r' where
    r': "r' \<in> set (t_tmp (insert_tmp (joined es) (joined cs) ?ck now' db1))" "tg_CK r' = ?ck"
      "DashboardTmpGraphCreate ev now' es' cs' db1 = (insert_tmp (joined es) (joined cs) ?ck now' db1, RespOK (tg_ID r'))" by blast
  have ex: "list_ex (\<lambda>r. tg_CK r = ?ck) (t_tmp db1)" using r(1,2) by (auto simp: list_ex_iff)
  then have "length (t_tmp (insert_tmp (joined es) (joined cs) ?ck now' db1)) = length (t_tmp db1)"
    by (simp add: insert_tmp_def update_where_def)
  moreover have "tg_ID r' = i"
  proof -
    have "t_tmp (insert_tmp (joined es) (joined cs) ?ck now' db1) = update_where (\<lambda>r. tg_CK r = ?ck) (\<lambda>r. r\<lparr>tg_Time := now'\<rparr>) (t_tmp db1)"
      using ex by (simp add: insert_tmp_def)
    with r' obtain r0 where r0: "r0 \<in> set (t_tmp db1)" "tg_ID r' = tg_ID r0" "tg_CK r0 = ?ck"
      by (auto simp: in_update_where split: if_splits)
    have "distinct (map tg_CK (t_tmp db1))" using ok1 by (simp add: tmp_ok_def)
    from unique_by [OF this r0(1) r(1)] r0 r show ?thesis by simp
  qed
  ultimately show ?thesis using q r'(3) by simp
qed

definition dash_env0 :: dash_env where
  "dash_env0 = \<lparr>dv_coll = id, dv_num = (\<lambda>s. case atoi s of Inl err \<Rightarrow> None | Inr i \<Rightarrow> Some i),
    dv_limit = (\<lambda>s. case atoi s of Inl err \<Rightarrow> None | Inr i \<Rightarrow> Some i), dv_ok = (\<lambda>k. True)\<rparr>"

definition empty_dash :: dash_db where
  "empty_dash = \<lparr>t_dgraph = [], t_screen = [], t_tmp = [], next_dgraph = 1, next_screen = 1, next_tmp = 1\<rparr>"

lemma empty_dash_ok: "tmp_ok empty_dash"
  by (simp add: tmp_ok_def empty_dash_def table_ok_def)

theorem tmp_graph_shared_witness:
  "\<exists>db1 i. DashboardTmpGraphCreate dash_env0 0 [''h2'', ''h1''] [''cpu'', ''load''] empty_dash = (db1, RespOK i) \<and>
    DashboardTmpGraphQuery dash_env0 ''1'' db1 = RespOK ([''h1'', ''h2''], [''cpu'', ''load'']) \<and>
    (\<exists>db2. DashboardTmpGraphCreate dash_env0 9 [''h1'', ''h2''] [''load'', ''cpu''] db1 = (db2, RespOK i) \<and> length (t_tmp db2) = length (t_tmp db1))"
proof -
  have ok: "dv_ok dash_env0 k" for k by (simp add: dash_env0_def)
  have num: "dv_num dash_env0 ''1'' = Some 1" by code_simp
  from tmp_created [OF empty_dash_ok ok ok, of "[''h2'', ''h1'']" "[''cpu'', ''load'']" 0] obtain db1 where
    c: "DashboardTmpGraphCreate dash_env0 0 [''h2'', ''h1''] [''cpu'', ''load''] empty_dash = (db1, RespOK 1)"
    by (auto simp: insert_tmp_def empty_dash_def)
  have p: "mset [''h1'', ''h2''] = mset [''h2'', ''h1'']" "mset [''load'', ''cpu''] = mset [''cpu'', ''load'']"
    by (simp_all add: add_mset_commute)
  have none: "\<forall>r\<in>set (t_tmp empty_dash). tg_CK r = Md5 (joined [''h2'', ''h1''] @ '':'' @ joined [''cpu'', ''load'']) \<longrightarrow>
    tg_Endpoints r = joined [''h2'', ''h1''] \<and> tg_Counters r = joined [''cpu'', ''load'']" by (simp add: empty_dash_def)
  have s: "sort [''h2'', ''h1''] = [''h1'', ''h2'']" "sort [''cpu'', ''load''] = [''cpu'', ''load'']" by code_simp+
  from tmp_graph_shared [OF empty_dash_ok ok ok c num none _ _ _ p, of 9] c show ?thesis by (simp add: s)
qed

text \<open>
  The digest is of both texts with a colon between them, so a colon in a name moves the border: another
  choice of endpoints and counters gets the number, and with it the graph, of the first.
\<close>

theorem tmp_graph_confused:
  assumes "tmp_ok db" "dv_ok ev 1" "dv_ok ev 2" "DashboardTmpGraphCreate ev now es cs db = (db1, RespOK i)"
    and "joined es' @ '':'' @ joined cs' = joined es @ '':'' @ joined cs"
  shows "\<exists>db2. DashboardTmpGraphCreate ev now' es' cs' db1 = (db2, RespOK i) \<and>
    map (\<lambda>r. (tg_ID r, tg_Endpoints r, tg_Counters r)) (t_tmp db2) = map (\<lambda>r. (tg_ID r, tg_Endpoints r, tg_Counters r)) (t_tmp db1)"
proof -
  let ?ck = "Md5 (joined es @ '':'' @ joined cs)"
  from tmp_created [OF assms(1-3), of es cs now] assms(4) obtain r where r: "r \<in> set (t_tmp db1)" "tg_CK r = ?ck" "i = tg_ID r"
    and db1: "db1 = insert_tmp (joined es) (joined cs) ?ck now db" by auto
  have ok1: "tmp_ok db1" unfolding db1 by (rule insert_tmp_ok [OF assms(1) refl])
  have ex: "list_ex (\<lambda>r. tg_CK r = ?ck) (t_tmp db1)" using r(1,2) by (auto simp: list_ex_iff)
  from tmp_created [OF ok1 assms(2,3), of es' cs' now', unfolded assms(5)] obtain r' where
    r': "r' \<in> set (t_tmp (insert_tmp (joined es') (joined cs') ?ck now' db1))" "tg_CK r' = ?ck"
      "DashboardTmpGraphCreate ev now' es' cs' db1 = (insert_tmp (joined es') (joined cs') ?ck now' db1, RespOK (tg_ID r'))" by blast
  have t: "t_tmp (insert_tmp (joined es') (joined cs') ?ck now' db1) = update_where (\<lambda>r. tg_CK r = ?ck) (\<lambda>r. r\<lparr>tg_Time := now'\<rparr>) (t_tmp db1)"
    using ex by (simp add: insert_tmp_def)
  with r' obtain r0 where r0: "r0 \<in> set (t_tmp db1)" "tg_ID r' = tg_ID r0" "tg_CK r0 = ?ck"
    by (auto simp: in_update_where split: if_splits)
  have "distinct (map tg_CK (t_tmp db1))" using ok1 by (simp add: tmp_ok_def)
  from unique_by [OF this r0(1) r(1)] r0 r have "tg_ID r' = i" by simp
  moreover have "map (\<lambda>r. (tg_ID r, tg_Endpoints r, tg_Counters r)) (update_where (\<lambda>r. tg_CK r = ?ck) (\<lambda>r. r\<lparr>tg_Time := now'\<rparr>) (t_tmp db1)) =
      map (\<lambda>r. (tg_ID r, tg_Endpoints r, tg_Counters r)) (t_tmp db1)" by (rule map_update_where) simp
  ultimately show ?thesis using r'(3) t by simp
qed

theorem tmp_graph_confused_witness:
  "\<exists>db1 db2 i. DashboardTmpGraphCreate dash_env0 0 [''h:80''] [''cpu''] empty_dash = (db1, RespOK i) \<and>
    DashboardTmpGraphCreate dash_env0 9 [''h''] [''80:cpu''] db1 = (db2, RespOK i)"
proof -
  have ok: "dv_ok dash_env0 k" for k by (simp add: dash_env0_def)
  from tmp_created [OF empty_dash_ok ok ok, of "[''h:80'']" "[''cpu'']" 0] obtain db1 i where
    c: "DashboardTmpGraphCreate dash_env0 0 [''h:80''] [''cpu''] empty_dash = (db1, RespOK i)" by blast
  have "joined [''h''] @ '':'' @ joined [''80:cpu''] = joined [''h:80''] @ '':'' @ joined [''cpu'']" by (simp add: joined_def)
  from tmp_graph_confused [OF empty_dash_ok ok ok c this, of 9] c show ?thesis by blast
qed

text \<open>
  A graph of a screen comes back as it was created, with the defaults filled in, but without its tags:
  they are not stored.
\<close>

theorem created_graph_shown:
  assumes "table_ok dg_ID (next_dgraph db) (t_dgraph db)" "DashboardGraphCreate ev inp db = (db1, RespOK i)" "atoi id_text = Inr i"
    and "di_Endpoints inp \<noteq> []" "di_Counters inp \<noteq> []" "list_all (\<lambda>x. CHR ''|'' \<notin> set x) (di_Endpoints inp @ di_Counters inp)"
  shows "\<exists>p. DashboardGraphGet ev id_text db1 = RespOK p \<and> gp_endpoints p = sort (di_Endpoints inp) \<and> gp_counters p = sort (di_Counters inp) \<and>
    dg_Title (gp_graph p) = di_Title inp \<and> dg_ScreenId (gp_graph p) = di_ScreenId inp \<and>
    dg_TimeSpan (gp_graph p) = (if di_TimeSpan inp = 0 then 3600 else di_TimeSpan inp) \<and>
    dg_Position (gp_graph p) = di_Position inp \<and> dg_FalconTags (gp_graph p) = '''' \<and>
    table_ok dg_ID (next_dgraph db1) (t_dgraph db1)"
proof -
  define g where "g = \<lparr>dg_ID = next_dgraph db, dg_Title = di_Title inp, dg_Hosts = joined (di_Endpoints inp), dg_Counters = joined (di_Counters inp),
    dg_ScreenId = di_ScreenId inp, dg_TimeSpan = (if di_TimeSpan inp = 0 then 3600 else di_TimeSpan inp),
    dg_GraphType = (if di_GraphType inp = '''' then ''h'' else di_GraphType inp), dg_Method = di_Method inp,
    dg_Position = di_Position inp, dg_FalconTags = ''''\<rparr>"
  have d: "dv_ok ev 1" "dv_ok ev 2" using assms(2) by (simp_all add: DashboardGraphCreate_def Let_def split: if_splits)
  then have "DashboardGraphCreate ev inp db = (db\<lparr>t_dgraph := t_dgraph db @ [g], next_dgraph := next_dgraph db + 1\<rparr>, RespOK (dg_ID g))"
    unfolding DashboardGraphCreate_def Let_def g_def by simp
  from trans [OF sym [OF assms(2)] this]
  have e: "db1 = db\<lparr>t_dgraph := t_dgraph db @ [g], next_dgraph := next_dgraph db + 1\<rparr>" "i = dg_ID g" by blast+
  then have g: "t_dgraph db1 = t_dgraph db @ [g]" "dg_ID g = i" "next_dgraph db1 = next_dgraph db + 1" "i = next_dgraph db"
    by (simp_all, simp add: g_def)
  have ok: "table_ok dg_ID (next_dgraph db1) (t_dgraph db1)" unfolding g(1,3)
    by (rule table_ok_append [OF assms(1)]) (simp add: g(2,4))
  then have "distinct (map dg_ID (t_dgraph db1))" by (simp add: table_ok_def)
  from unique_by [OF this] g(1,2) have "find_first dg_ID (\<lambda>x. dg_ID x = i) (t_dgraph db1) = Some g"
    by (intro find_first_unique) auto
  then have "DashboardGraphGet ev id_text db1 = RespOK (graph_page_of g)" using assms(3) d(1) by (simp add: DashboardGraphGet_def)
  moreover have "gp_endpoints (graph_page_of g) = sort (di_Endpoints inp)" "gp_counters (graph_page_of g) = sort (di_Counters inp)"
    "gp_graph (graph_page_of g) = g"
    using assms(4-6) by (simp_all add: graph_page_of_def g_def parted_joined)
  ultimately show ?thesis using ok by (intro exI [of _ "graph_page_of g"]) (simp add: g_def)
qed

theorem created_graph_shown_witness:
  "\<exists>db1 p. DashboardGraphCreate dash_env0 \<lparr>di_ScreenId = 1, di_Title = ''t'', di_Endpoints = [''h2'', ''h1''], di_Counters = [''cpu''],
      di_TimeSpan = 0, di_GraphType = '''', di_Method = '''', di_Position = 2, di_FalconTags = ''k=v''\<rparr> empty_dash = (db1, RespOK 1) \<and>
    DashboardGraphGet dash_env0 ''1'' db1 = RespOK p \<and> gp_endpoints p = [''h1'', ''h2''] \<and> dg_TimeSpan (gp_graph p) = 3600 \<and>
    dg_FalconTags (gp_graph p) = ''''"
proof -
  let ?inp = "\<lparr>di_ScreenId = 1, di_Title = ''t'', di_Endpoints = [''h2'', ''h1''], di_Counters = [''cpu''],
      di_TimeSpan = 0, di_GraphType = '''', di_Method = '''', di_Position = 2, di_FalconTags = ''k=v''\<rparr>"
  have "\<exists>db1. DashboardGraphCreate dash_env0 ?inp empty_dash = (db1, RespOK 1)"
    by (simp add: DashboardGraphCreate_def dash_env0_def empty_dash_def)
  then obtain db1 where c: "DashboardGraphCreate dash_env0 ?inp empty_dash = (db1, RespOK 1)" by blast
  have t: "table_ok dg_ID (next_dgraph empty_dash) (t_dgraph empty_dash)" by (simp add: table_ok_def empty_dash_def)
  have one: "atoi ''1'' = Inr 1" by code_simp
  have s: "sort [''h2'', ''h1''] = [''h1'', ''h2'']" by code_simp
  from created_graph_shown [OF t c one] c s show ?thesis by fastforce
qed

end
