(* ===== verification/Api_Case.thy ===== *)
theory Api_Case
  imports Alarm_Flow Api_Uic
begin

text \<open>
  Alarm cases in the API (\<open>controller/alarm\<close>, \<open>model/alarm\<close>): the lists of cases, events and notes, which
  are SQL built from the request, and the note an operator adds to a case, which also sets how the
  case is processed. The tables of cases and events are those that the alarm consumer fills
  (\<open>Alarm_Core\<close>). What the database answers to a text of SQL is an argument, \<open>run\<close>; the
  errors of these queries are not looked at, so one that fails is one without rows. Texts are taken
  to fit their columns.
\<close>

section \<open>Tables\<close>

record event_note =
  en_ID :: int
  en_EventCaseId :: string
  en_Note :: string
  en_CaseId :: string
  en_Status :: string
  en_Timestamp :: int64
  en_UserId :: int

record case_db =
  cd_alarm :: alarm_state
  t_note :: "event_note list"
  next_note :: int

text \<open>
  The environment of one request: which statements succeed, the time of the database, and the stamp it
  puts on updated rows (see \<open>insert_io\<close>).
\<close>

record case_env =
  ce_ok :: "nat \<Rightarrow> bool"
  ce_now :: int64
  ce_stamp :: "int64 option"

section \<open>Filters\<close>

definition need_one :: string where
  "need_one = ''startTime, endTime OR event_id, You have to at least pick one on the request.''"

record case_query =
  cq_StartTime :: int64
  cq_EndTime :: int64
  cq_Priority :: int
  cq_Status :: string
  cq_ProcessStatus :: string
  cq_Metrics :: string
  cq_EventId :: string
  cq_Limit :: int
  cq_Page :: int

definition cq_checkInputsContain :: "case_query \<Rightarrow> string option" where
  "cq_checkInputsContain inputs =
    (if cq_StartTime inputs = 0 \<and> cq_EndTime inputs = 0 \<and> cq_EventId inputs = '''' then Some need_one else None)"

definition quoted :: "string \<Rightarrow> string" where
  "quoted s = [CHR 0x27] @ s @ [CHR 0x27]"

definition since_filter :: "int64 \<Rightarrow> string list" where
  "since_filter t = (if t \<noteq> 0 then [''timestamp >= FROM_UNIXTIME('' @ itoa t @ '')''] else [])"

definition until_filter :: "int64 \<Rightarrow> string list" where
  "until_filter t = (if t \<noteq> 0 then [''timestamp <= FROM_UNIXTIME('' @ itoa t @ '')''] else [])"

text \<open>The values of a list with commas, each compared with one column.\<close>

definition any_of :: "string \<Rightarrow> string \<Rightarrow> string" where
  "any_of column s =
    ''( '' @ foldl (\<lambda>r (i, n). if i = (0::nat) then '' '' @ column @ '' = '' @ quoted n @ '' ''
        else '' '' @ r @ '' OR '' @ column @ '' = '' @ quoted n @ '' '') '''' (List.enumerate 0 (go_split (CHR '','') s)) @ '' )''"

definition where_of :: "string list \<Rightarrow> string" where
  "where_of tmp = (let s = go_join '' AND '' tmp in if s \<noteq> '''' then ''WHERE '' @ s else s)"

definition cq_collectFilters :: "case_query \<Rightarrow> string" where
  "cq_collectFilters s = where_of (
    since_filter (cq_StartTime s) @ until_filter (cq_EndTime s) @
    (if cq_Priority s \<noteq> - 1 then [''priority = '' @ itoa (cq_Priority s)] else []) @
    (if cq_Status s \<noteq> '''' then [any_of ''status'' (cq_Status s)] else []) @
    (if cq_ProcessStatus s \<noteq> '''' then [any_of ''process_status'' (cq_ProcessStatus s)] else []) @
    (if cq_Metrics s \<noteq> '''' then [''metrics regexp '' @ quoted (cq_Metrics s)] else []) @
    (if cq_EventId s \<noteq> '''' then [''id = '' @ quoted (cq_EventId s)] else []))"

record event_query =
  eq_StartTime :: int64
  eq_EndTime :: int64
  eq_Status :: int
  eq_EventId :: string
  eq_Limit :: int
  eq_Page :: int

definition eq_collectFilters :: "event_query \<Rightarrow> string" where
  "eq_collectFilters s =
    (let tmp = since_filter (eq_StartTime s) @ until_filter (eq_EndTime s) @
         (if eq_EventId s \<noteq> '''' then [''event_caseId = '' @ quoted (eq_EventId s)] else []) @
         (if eq_Status s = 0 \<or> eq_Status s = 1 then [''status = '' @ itoa (eq_Status s)] else [])
     in if tmp \<noteq> [] then ''WHERE '' @ go_join '' AND '' tmp else '''')"

record note_query =
  nq_StartTime :: int64
  nq_EndTime :: int64
  nq_EventId :: string
  nq_Status :: string
  nq_Limit :: int
  nq_Page :: int

definition nq_checkInputsContain :: "note_query \<Rightarrow> string option" where
  "nq_checkInputsContain inputs =
    (if nq_StartTime inputs = 0 \<and> nq_EndTime inputs = 0 \<and> nq_EventId inputs = '''' then Some need_one else None)"

definition nq_collectFilters :: "note_query \<Rightarrow> string" where
  "nq_collectFilters s = where_of (
    since_filter (nq_StartTime s) @ until_filter (nq_EndTime s) @
    (if nq_Status s \<noteq> '''' then [''status = '' @ quoted (nq_Status s)] else []) @
    (if nq_EventId s \<noteq> '''' then [''event_caseId = '' @ quoted (nq_EventId s)] else []))"

section \<open>Lists\<close>

text \<open>The rows of a page and their order, at the end of each query.\<close>

definition newest :: "int \<Rightarrow> string" where
  "newest l = '' order by timestamp DESC limit '' @ itoa l"

definition newest_from :: "int \<Rightarrow> int \<Rightarrow> string" where
  "newest_from page l = '' order by timestamp DESC limit '' @ itoa page @ '','' @ itoa l"

definition at_most_50 :: "int \<Rightarrow> int" where
  "at_most_50 l = (if l = 0 \<or> 50 \<le> l then 50 else l)"

definition cases_sql :: "case_query \<Rightarrow> string" where
  "cases_sql inputs =
    (let f = cq_collectFilters inputs; l = cq_Limit inputs
     in if cq_Page inputs = - 1
        then ''select * from event_cases '' @ f @ newest (if 2000 \<le> l \<or> l = 0 then 2000 else l)
        else ''select * from event_cases '' @ f @ '' '' @ newest_from (cq_Page inputs) (if 50 \<le> l then 50 else l))"

definition AlarmLists :: "(string \<Rightarrow> event_case list) \<Rightarrow> case_query option \<Rightarrow> event_case list resp" where
  "AlarmLists run req =
    (case req of
       None \<Rightarrow> RespErr StatusBadRequest ''bind''
     | Some inputs \<Rightarrow>
       (case cq_checkInputsContain inputs of
          Some err \<Rightarrow> RespErr StatusBadRequest err
        | None \<Rightarrow> RespOK (run (cases_sql inputs))))"

definition events_sql :: "event_query \<Rightarrow> string" where
  "events_sql inputs = ''select id, event_caseId, cond, status, timestamp from events '' @ eq_collectFilters inputs @
    newest_from (eq_Page inputs) (at_most_50 (eq_Limit inputs))"

definition EventsGet :: "(string \<Rightarrow> event_row list) \<Rightarrow> event_query option \<Rightarrow> event_row list resp" where
  "EventsGet run req =
    (case req of
       None \<Rightarrow> RespErr StatusBadRequest ''bind''
     | Some inputs \<Rightarrow>
       if eq_Status inputs < - 1 \<or> 1 < eq_Status inputs \<or> eq_EventId inputs = '''' then RespErr StatusBadRequest ''bind''
       else RespOK (run (events_sql inputs)))"

text \<open>A note without a user is printed with the last user of the table.\<close>

definition GetUserName :: "bool \<Rightarrow> uic_db \<Rightarrow> event_note \<Rightarrow> string" where
  "GetUserName okq users n =
    (case (if okq then find_last (\<lambda>u. en_UserId n = 0 \<or> us_ID u = en_UserId n) (t_user users) else None) of
       None \<Rightarrow> '''' | Some u \<Rightarrow> Api_Uic.us_Name u)"

record note_out =
  no_EventCaseId :: string
  no_Note :: string
  no_CaseId :: string
  no_Status :: string
  no_Timestamp :: int64
  no_UserName :: string

definition notes_sql :: "note_query \<Rightarrow> string" where
  "notes_sql inputs = ''select id, event_caseId, note, case_id, status, timestamp, user_id from event_note '' @
    nq_collectFilters inputs @ newest_from (nq_Page inputs) (at_most_50 (nq_Limit inputs))"

definition GetNotesOfAlarm ::
    "(string \<Rightarrow> event_note list) \<Rightarrow> (nat \<Rightarrow> bool) \<Rightarrow> uic_db \<Rightarrow> note_query option \<Rightarrow> note_out list resp" where
  "GetNotesOfAlarm run okq users req =
    (case req of
       None \<Rightarrow> RespErr StatusBadRequest ''binding input got error: ''
     | Some inputs \<Rightarrow>
       (case nq_checkInputsContain inputs of
          Some err \<Rightarrow> RespErr StatusBadRequest err
        | None \<Rightarrow> RespOK (map (\<lambda>(k, n). \<lparr>no_EventCaseId = en_EventCaseId n, no_Note = en_Note n, no_CaseId = en_CaseId n,
            no_Status = en_Status n, no_Timestamp = en_Timestamp n, no_UserName = GetUserName (okq k) users n\<rparr>)
            (List.enumerate 0 (run (notes_sql inputs))))))"

text \<open>
  \<open>model/alarm\<close>: the events of a case, by its identifier when it has one, and its notes, which are looked
  for in the table of cases. That has no column \<open>event_caseId\<close> (\<open>case_columns\<close>, the table in the
  comment of \<open>event_cases.go\<close>), and the query fails.
\<close>

definition GetEvents :: "(string \<Rightarrow> string) \<Rightarrow> bool \<Rightarrow> case_db \<Rightarrow> string \<Rightarrow> event_row list" where
  "GetEvents cmp okq db i =
    (if okq then filter (\<lambda>r. i = '''' \<or> cmp (er_EventCaseId r) = cmp i) (al_Rows (cd_alarm db)) else [])"

definition case_columns :: "string list" where
  "case_columns = [''id'', ''endpoint'', ''metric'', ''func'', ''cond'', ''note'', ''max_step'', ''current_step'', ''priority'',
    ''status'', ''timestamp'', ''update_at'', ''closed_at'', ''closed_note'', ''user_modified'', ''tpl_creator'',
    ''expression_id'', ''strategy_id'', ''template_id'', ''process_note'', ''process_status'']"

text \<open>The notes a condition on the two columns finds in a table with these columns.\<close>

definition notes_in :: "string list \<Rightarrow> (string \<Rightarrow> string) \<Rightarrow> string \<Rightarrow> int64 \<Rightarrow> event_note list \<Rightarrow> event_note list" where
  "notes_in columns cmp i since rows =
    (if ''event_caseId'' \<in> set columns \<and> ''timestamp'' \<in> set columns
     then filter (\<lambda>n. cmp (en_EventCaseId n) = cmp i \<and> since \<le> en_Timestamp n) rows else [])"

definition GetNotes :: "(string \<Rightarrow> string) \<Rightarrow> bool \<Rightarrow> case_db \<Rightarrow> string \<Rightarrow> int64 \<Rightarrow> event_note list" where
  "GetNotes cmp okq db i since = (if okq then notes_in case_columns cmp i since (t_note db) else [])"

definition NotesCount :: "(string \<Rightarrow> string) \<Rightarrow> bool \<Rightarrow> case_db \<Rightarrow> string \<Rightarrow> int64 \<Rightarrow> nat" where
  "NotesCount cmp okq db i since = length (GetNotes cmp okq db i since)"

section \<open>Adding a note\<close>

record note_input =
  ni_EventId :: string
  ni_Note :: string
  ni_Status :: string
  ni_CaseId :: string

definition CheckingFormating :: "note_input \<Rightarrow> string option" where
  "CheckingFormating s =
    (if ni_Status s \<in> {''in progress'', ''unresolved'', ''resolved'', ''ignored'', ''comment''} then None
     else Some ''params status: only accepect'')"

text \<open>The foreign keys of the table of notes.\<close>

definition note_refers :: "(string \<Rightarrow> string) \<Rightarrow> uic_db \<Rightarrow> case_db \<Rightarrow> event_note \<Rightarrow> bool" where
  "note_refers cmp users db n \<longleftrightarrow>
    list_ex (\<lambda>(k, c). cmp k = cmp (en_EventCaseId n)) (al_Cases (cd_alarm db)) \<and>
    list_ex (\<lambda>u. us_ID u = en_UserId n) (t_user users)"

definition process_case :: "(string \<Rightarrow> string) \<Rightarrow> int64 option \<Rightarrow> event_note \<Rightarrow> case_db \<Rightarrow> case_db" where
  "process_case cmp stamp n db =
    (let st = cd_alarm db
     in db\<lparr>cd_alarm := st\<lparr>al_Cases := map (\<lambda>(k, c). (k, if cmp k = cmp (en_EventCaseId n)
            then stamped stamp (c\<lparr>ec_ProcessNote := en_ID n, ec_ProcessStatus := en_Status n\<rparr>) else c)) (al_Cases st)\<rparr>\<rparr>)"

text \<open>
  The statements: the lookup of the user (1), the start of the transaction (2), the note (3), the case (4)
  and the commit (5), whose error is not looked at. A transaction that is not committed leaves the
  tables as they were; the identifier it took is not used again.
\<close>

definition AddNotesToAlarm ::
    "api_config \<Rightarrow> case_env \<Rightarrow> uic_db \<Rightarrow> apitoken \<Rightarrow> note_input option \<Rightarrow> case_db \<Rightarrow> case_db \<times> string resp" where
  "AddNotesToAlarm cfg ev users tok req db =
    (case req of
       None \<Rightarrow> (db, RespErr StatusBadRequest ''bind'')
     | Some inputs \<Rightarrow>
       if ni_EventId inputs = '''' \<or> ni_Note inputs = '''' \<or> ni_Status inputs = '''' then (db, RespErr StatusBadRequest ''bind'')
       else case CheckingFormating inputs of
         Some err \<Rightarrow> (db, RespErr StatusBadRequest err)
       | None \<Rightarrow>
         let uid = (case GetUser cfg (ce_ok ev 1) users tok of Inl err \<Rightarrow> 0 | Inr u \<Rightarrow> us_ID u);
             n = \<lparr>en_ID = next_note db, en_EventCaseId = ni_EventId inputs, en_Note = ni_Note inputs, en_CaseId = ni_CaseId inputs,
                en_Status = ni_Status inputs, en_Timestamp = ce_now ev, en_UserId = uid\<rparr>
         in if \<not> ce_ok ev 2 \<or> \<not> ce_ok ev 3 then (db, RespErr StatusBadRequest db_error)
            else
              let db1 = db\<lparr>t_note := t_note db @ [n], next_note := next_note db + 1\<rparr>;
                  undone = db\<lparr>next_note := next_note db + 1\<rparr>
              in if \<not> note_refers (coll cfg) users db n then (undone, RespErr StatusBadRequest db_error)
                 else if ni_Status inputs \<noteq> ''comment'' \<and> \<not> ce_ok ev 4
                 then (undone, RespErr StatusBadRequest (''update got error during update event_cases:'' @ db_error))
                 else
                   let db2 = (if ni_Status inputs \<noteq> ''comment'' then process_case (coll cfg) (ce_stamp ev) n db1 else db1)
                   in (if ce_ok ev 5 then db2 else undone,
                       RespOK (''add note to '' @ ni_EventId inputs @ '' successfuled'')))"

section \<open>What a note changes\<close>

lemma gget_map_keyed: "gget (map (\<lambda>(k, c). (k, f k c)) m) k = map_option (f k) (gget m k)"
  by (induction m) auto

lemma process_case_cases:
  "gget (al_Cases (cd_alarm (process_case cmp stamp n db))) k =
    map_option (\<lambda>c. if cmp k = cmp (en_EventCaseId n) then stamped stamp (c\<lparr>ec_ProcessNote := en_ID n, ec_ProcessStatus := en_Status n\<rparr>) else c)
      (gget (al_Cases (cd_alarm db)) k)"
  by (simp add: process_case_def Let_def gget_map_keyed)

lemma process_case_keys: "map fst (al_Cases (cd_alarm (process_case cmp stamp n db))) = map fst (al_Cases (cd_alarm db))"
  by (simp add: process_case_def Let_def comp_def case_prod_beta)

lemma process_case_other [simp]:
  "t_note (process_case cmp stamp n db) = t_note db" "next_note (process_case cmp stamp n db) = next_note db"
  "al_Rows (cd_alarm (process_case cmp stamp n db)) = al_Rows (cd_alarm db)"
  by (simp_all add: process_case_def Let_def)

definition note_of :: "api_config \<Rightarrow> case_env \<Rightarrow> uic_db \<Rightarrow> apitoken \<Rightarrow> note_input \<Rightarrow> case_db \<Rightarrow> event_note" where
  "note_of cfg ev users tok inputs db =
    \<lparr>en_ID = next_note db, en_EventCaseId = ni_EventId inputs, en_Note = ni_Note inputs, en_CaseId = ni_CaseId inputs,
     en_Status = ni_Status inputs, en_Timestamp = ce_now ev,
     en_UserId = (case GetUser cfg (ce_ok ev 1) users tok of Inl err \<Rightarrow> 0 | Inr u \<Rightarrow> us_ID u)\<rparr>"

lemma note_of_fields [simp]:
  "en_ID (note_of cfg ev users tok inputs db) = next_note db" "en_EventCaseId (note_of cfg ev users tok inputs db) = ni_EventId inputs"
  "en_Note (note_of cfg ev users tok inputs db) = ni_Note inputs" "en_Status (note_of cfg ev users tok inputs db) = ni_Status inputs"
  by (simp_all add: note_of_def)

text \<open>The outcomes of the handler: nothing changes, or the transaction is committed.\<close>

lemma AddNotes_outcomes:
  assumes "AddNotesToAlarm cfg ev users tok req db = (db', r)"
  obtains "t_note db' = t_note db" "cd_alarm db' = cd_alarm db" "next_note db \<le> next_note db'" "ce_ok ev 5 \<Longrightarrow> \<not> is_ok r"
  | inputs where "req = Some inputs" "ce_ok ev 5" "is_ok r" "note_refers (coll cfg) users db (note_of cfg ev users tok inputs db)"
      "CheckingFormating inputs = None" "ni_Status inputs \<noteq> ''comment''"
      "db' = process_case (coll cfg) (ce_stamp ev) (note_of cfg ev users tok inputs db)
        (db\<lparr>t_note := t_note db @ [note_of cfg ev users tok inputs db], next_note := next_note db + 1\<rparr>)"
  | inputs where "req = Some inputs" "ce_ok ev 5" "is_ok r" "note_refers (coll cfg) users db (note_of cfg ev users tok inputs db)"
      "ni_Status inputs = ''comment''"
      "db' = db\<lparr>t_note := t_note db @ [note_of cfg ev users tok inputs db], next_note := next_note db + 1\<rparr>"
proof (cases req)
  case None
  with assms that(1) show ?thesis by (auto simp: AddNotesToAlarm_def is_ok_def)
next
  case (Some inputs)
  note u = assms [unfolded AddNotesToAlarm_def Some option.case note_of_def [symmetric] Let_def]
  show ?thesis
  proof (cases "ni_EventId inputs = '''' \<or> ni_Note inputs = '''' \<or> ni_Status inputs = '''' \<or> CheckingFormating inputs \<noteq> None \<or>
      \<not> ce_ok ev 2 \<or> \<not> ce_ok ev 3 \<or> \<not> note_refers (coll cfg) users db (note_of cfg ev users tok inputs db) \<or>
      (ni_Status inputs \<noteq> ''comment'' \<and> \<not> ce_ok ev 4) \<or> \<not> ce_ok ev 5")
    case True
    with u that(1) show ?thesis by (auto simp: is_ok_def split: if_splits option.splits)
  next
    case False
    with u have "is_ok r" by (auto simp: is_ok_def split: if_splits)
    with u False Some that(2,3) show ?thesis by (cases "ni_Status inputs = ''comment''") auto
  qed
qed

text \<open>
  Adding a note is all or nothing. A refused request leaves the cases, the events and the notes as they
  were. An accepted one whose transaction is committed adds one note, of the user of the
  request, on a case that exists; unless it is a comment, the case now points to the note and shows its
  status, other cases stay, and no event is touched. When the commit fails the client is told of success
  and nothing is stored.
\<close>

theorem AddNotes_all_or_nothing:
  assumes "AddNotesToAlarm cfg ev users tok (Some inputs) db = (db', r)"
  shows "if is_ok r \<and> ce_ok ev 5
    then (\<exists>n. t_note db' = t_note db @ [n] \<and> en_ID n = next_note db \<and> en_Note n = ni_Note inputs \<and> en_Status n = ni_Status inputs \<and>
        note_refers (coll cfg) users db n \<and>
        (\<forall>k. gget (al_Cases (cd_alarm db')) k = map_option (\<lambda>c. if ni_Status inputs \<noteq> ''comment'' \<and> coll cfg k = coll cfg (ni_EventId inputs)
            then stamped (ce_stamp ev) (c\<lparr>ec_ProcessNote := en_ID n, ec_ProcessStatus := ni_Status inputs\<rparr>) else c)
          (gget (al_Cases (cd_alarm db)) k))) \<and> al_Rows (cd_alarm db') = al_Rows (cd_alarm db)
    else t_note db' = t_note db \<and> cd_alarm db' = cd_alarm db"
  using assms
proof (cases rule: AddNotes_outcomes)
  case 1
  then show ?thesis by auto
next
  case (2 inp)
  let ?n = "note_of cfg ev users tok inp db"
  have g: "gget (al_Cases (cd_alarm db')) k = map_option (\<lambda>c. if ni_Status inputs \<noteq> ''comment'' \<and> coll cfg k = coll cfg (ni_EventId inputs)
      then stamped (ce_stamp ev) (c\<lparr>ec_ProcessNote := en_ID ?n, ec_ProcessStatus := ni_Status inputs\<rparr>) else c)
      (gget (al_Cases (cd_alarm db)) k)" for k
    using 2 by (cases "gget (al_Cases (cd_alarm db)) k") (simp_all add: process_case_cases)
  have "t_note db' = t_note db @ [?n]" "al_Rows (cd_alarm db') = al_Rows (cd_alarm db)" using 2 by simp_all
  with 2(1-6) show ?thesis by (simp add: g)
next
  case (3 inp)
  then show ?thesis by (simp add: option.map_ident)
qed

section \<open>The book of cases\<close>

text \<open>What a case says of its processing is what its last note says, unless it is open and has none.\<close>

definition case_explained :: "(string \<Rightarrow> string) \<Rightarrow> event_note list \<Rightarrow> string \<Rightarrow> event_case \<Rightarrow> bool" where
  "case_explained cmp notes k c \<longleftrightarrow>
    (ec_ProcessNote c = 0 \<and> ec_ProcessStatus c = ''unresolved'') \<or>
    list_ex (\<lambda>n. en_ID n = ec_ProcessNote c \<and> en_Status n = ec_ProcessStatus c \<and> en_Status n \<noteq> ''comment'' \<and>
      cmp (en_EventCaseId n) = cmp k) notes"

definition has_case :: "(string \<Rightarrow> string) \<Rightarrow> case_db \<Rightarrow> string \<Rightarrow> bool" where
  "has_case cmp db i \<longleftrightarrow> (\<exists>k\<in>set (map fst (al_Cases (cd_alarm db))). cmp k = cmp i)"

definition case_book_ok :: "(string \<Rightarrow> string) \<Rightarrow> case_db \<Rightarrow> bool" where
  "case_book_ok cmp db \<longleftrightarrow> table_ok en_ID (next_note db) (t_note db) \<and>
    (\<forall>n\<in>set (t_note db). has_case cmp db (en_EventCaseId n)) \<and>
    (\<forall>k c. gget (al_Cases (cd_alarm db)) k = Some c \<longrightarrow> case_explained cmp (t_note db) k c)"

text \<open>The steps: the consumer files an event, or a user sends a note. Users and the answers of the database vary.\<close>

inductive case_step :: "api_config \<Rightarrow> case_db \<Rightarrow> case_db \<Rightarrow> bool" for cfg where
  event_filed: "InsertEvent io e (cd_alarm db) = Some st' \<Longrightarrow> case_step cfg db (db\<lparr>cd_alarm := st'\<rparr>)"
| note_sent: "AddNotesToAlarm cfg ev users tok req db = (db', r) \<Longrightarrow> case_step cfg db db'"

inductive case_reachable :: "api_config \<Rightarrow> case_db \<Rightarrow> bool" for cfg where
  no_cases: "al_Cases (cd_alarm db) = [] \<Longrightarrow> t_note db = [] \<Longrightarrow> 0 < next_note db \<Longrightarrow> case_reachable cfg db"
| case_next: "case_reachable cfg db \<Longrightarrow> case_step cfg db db' \<Longrightarrow> case_reachable cfg db'"

text \<open>Filing an event leaves other cases alone; its own keeps its note and status, or is open without a note.\<close>

lemma updated_case_process:
  assumes "updated_case stamp e old = Some c"
  shows "ec_ProcessNote c = 0 \<and> ec_ProcessStatus c = ''unresolved'' \<or>
    ec_ProcessNote c = ec_ProcessNote old \<and> ec_ProcessStatus c = ec_ProcessStatus old"
  using assms by (auto simp: updated_case_def stamped_def Let_def split: bind_splits if_splits option.splits)

lemma InsertEvent_cases:
  assumes "InsertEvent io e st = Some st'"
  shows "\<forall>k c. gget (al_Cases st') k = Some c \<longrightarrow> gget (al_Cases st) k = Some c \<or>
      ec_ProcessNote c = 0 \<and> ec_ProcessStatus c = ''unresolved'' \<or>
      (\<exists>old. gget (al_Cases st) k = Some old \<and> ec_ProcessNote c = ec_ProcessNote old \<and> ec_ProcessStatus c = ec_ProcessStatus old)"
    and "set (map fst (al_Cases st)) \<subseteq> set (map fst (al_Cases st'))"
proof -
  from assms obtain st1 where i: "insertEvent (ii_row io) e st1 = Some st'"
    and c: "al_Cases st1 = al_Cases st \<or> (\<exists>n. new_case e = Some n \<and> al_Cases st1 = gput (ev_Id e) n (al_Cases st)) \<or>
      (\<exists>old n. gget (al_Cases st) (ev_Id e) = Some old \<and> updated_case (ii_stamp io) e old = Some n \<and>
        al_Cases st1 = gput (ev_Id e) n (al_Cases st))"
    by (auto simp: InsertEvent_def split: bind_splits option.splits if_splits)
  from i have s: "al_Cases st' = al_Cases st1" by (auto simp: insertEvent_def Let_def split: bind_splits if_splits)
  have new: "ec_ProcessNote n = 0 \<and> ec_ProcessStatus n = ''unresolved''" if "new_case e = Some n" for n
    using that by (auto simp: new_case_def split: bind_splits)
  from c show "\<forall>k c. gget (al_Cases st') k = Some c \<longrightarrow> gget (al_Cases st) k = Some c \<or>
      ec_ProcessNote c = 0 \<and> ec_ProcessStatus c = ''unresolved'' \<or>
      (\<exists>old. gget (al_Cases st) k = Some old \<and> ec_ProcessNote c = ec_ProcessNote old \<and> ec_ProcessStatus c = ec_ProcessStatus old)"
    unfolding s by (auto dest: new updated_case_process split: if_splits)
  from c show "set (map fst (al_Cases st)) \<subseteq> set (map fst (al_Cases st'))"
    unfolding s by (auto simp: keys_gput simp del: set_map)
qed

lemma explained_more: "case_explained cmp notes k c \<Longrightarrow> case_explained cmp (notes @ later) k c"
  by (auto simp: case_explained_def)

lemma note_refers_case: "note_refers cmp users db n \<Longrightarrow> has_case cmp db (en_EventCaseId n)"
  by (force simp: note_refers_def has_case_def list_ex_iff)

lemma has_case_keys:
  "set (map fst (al_Cases (cd_alarm db))) \<subseteq> set (map fst (al_Cases (cd_alarm db'))) \<Longrightarrow> has_case cmp db i \<Longrightarrow> has_case cmp db' i"
  unfolding has_case_def by blast

lemma event_filed_ok:
  assumes "case_book_ok cmp db" "InsertEvent io e (cd_alarm db) = Some st'"
  shows "case_book_ok cmp (db\<lparr>cd_alarm := st'\<rparr>)"
proof -
  have "case_explained cmp (t_note db) k c" if "gget (al_Cases st') k = Some c" for k c
    using InsertEvent_cases(1) [OF assms(2), rule_format, OF that] assms(1)
    by (auto simp: case_book_ok_def) (auto simp: case_explained_def)
  moreover have "has_case cmp (db\<lparr>cd_alarm := st'\<rparr>) (en_EventCaseId n)" if "n \<in> set (t_note db)" for n
    using has_case_keys [of db "db\<lparr>cd_alarm := st'\<rparr>"] InsertEvent_cases(2) [OF assms(2)] that assms(1) by (simp add: case_book_ok_def)
  ultimately show ?thesis using assms(1) by (simp add: case_book_ok_def)
qed

lemma table_ok_next: "table_ok key n rows \<Longrightarrow> n \<le> m \<Longrightarrow> table_ok key m rows"
  by (auto simp: table_ok_def list_all_iff)

lemma note_sent_ok:
  assumes "case_book_ok (coll cfg) db" "AddNotesToAlarm cfg ev users tok req db = (db', r)"
  shows "case_book_ok (coll cfg) db'"
  using assms(2)
proof (cases rule: AddNotes_outcomes)
  case 1
  then show ?thesis using assms(1) by (auto simp: case_book_ok_def has_case_def intro: table_ok_next)
next
  case (2 inputs)
  let ?n = "note_of cfg ev users tok inputs db"
  have k: "map fst (al_Cases (cd_alarm db')) = map fst (al_Cases (cd_alarm db))" "t_note db' = t_note db @ [?n]" "next_note db' = next_note db + 1"
    using 2(7) by (simp_all add: process_case_keys)
  have "has_case (coll cfg) db' (en_EventCaseId n)" if "n \<in> set (t_note db')" for n
    using that assms(1) k note_refers_case [OF 2(4)] by (auto simp: case_book_ok_def has_case_def simp del: set_map note_of_fields)
  moreover have "case_explained (coll cfg) (t_note db') i c" if "gget (al_Cases (cd_alarm db')) i = Some c" for i c
  proof (cases "coll cfg i = coll cfg (en_EventCaseId ?n)")
    case True
    with that obtain old where "c = stamped (ce_stamp ev) (old\<lparr>ec_ProcessNote := en_ID ?n, ec_ProcessStatus := en_Status ?n\<rparr>)"
      unfolding 2(7) process_case_cases by auto
    then have "ec_ProcessNote c = en_ID ?n" "ec_ProcessStatus c = en_Status ?n" by (simp_all add: stamped_def split: option.split)
    with True 2(6) show ?thesis unfolding k by (simp add: case_explained_def)
  next
    case False
    with that have "gget (al_Cases (cd_alarm db)) i = Some c" unfolding 2(7) process_case_cases by (cases "gget (al_Cases (cd_alarm db)) i") auto
    then show ?thesis using assms(1) unfolding k by (simp add: case_book_ok_def explained_more)
  qed
  ultimately show ?thesis using assms(1) unfolding case_book_ok_def by (simp add: k table_ok_append)
next
  case (3 inputs)
  let ?n = "note_of cfg ev users tok inputs db"
  have "has_case (coll cfg) db' (en_EventCaseId n)" if "n \<in> set (t_note db')" for n
    using that assms(1) 3(6) note_refers_case [OF 3(4)] by (auto simp: case_book_ok_def has_case_def simp del: set_map)
  then show ?thesis using assms(1) 3(6) by (simp add: case_book_ok_def table_ok_append explained_more)
qed

text \<open>
  C20: Whatever events are filed and whatever notes users send, in any order and with any statement failing: the
  notes have positive identifiers, none twice; each belongs to a case; and each case is open
  without a note, or shows the status of one of its own notes, the one it points to, which is no comment.
  (Users are not deleted in between: that deletes their notes.)
\<close>

theorem cases_explained_by_notes:
  assumes "case_reachable cfg db"
  shows "table_ok en_ID (next_note db) (t_note db) \<and> (\<forall>n\<in>set (t_note db). has_case (coll cfg) db (en_EventCaseId n)) \<and>
    (\<forall>k c. gget (al_Cases (cd_alarm db)) k = Some c \<longrightarrow> case_explained (coll cfg) (t_note db) k c)"
  using assms unfolding case_book_ok_def [symmetric]
proof induction
  case (no_cases db)
  then show ?case by (simp add: case_book_ok_def table_ok_def)
next
  case (case_next db db')
  from case_next(2,3) show ?case by (cases rule: case_step.cases) (auto intro: event_filed_ok note_sent_ok)
qed

text \<open>
  C21: An operator closes a case, the alarm goes on: a note that marks the case as resolved or ignored stays its
  mark only until the next event of the case is filed. The case is then open and has no note; the note
  itself is kept, and still belongs to the case.
\<close>

theorem closed_case_reopened:
  assumes "AddNotesToAlarm cfg ev users tok (Some inputs) db = (db1, RespOK m)" "ce_ok ev 5"
    and "ni_Status inputs \<in> {''resolved'', ''ignored''}" "gget (al_Cases (cd_alarm db)) (ni_EventId inputs) = Some c0"
    and "event_complete e" "ev_Id e = ni_EventId inputs" "ii_select io" "ii_case io"
  shows "\<exists>c1 st' c2 n. gget (al_Cases (cd_alarm db1)) (ev_Id e) = Some c1 \<and> ec_ProcessStatus c1 = ni_Status inputs \<and>
    t_note db1 = t_note db @ [n] \<and> ec_ProcessNote c1 = en_ID n \<and> en_EventCaseId n = ev_Id e \<and>
    InsertEvent io e (cd_alarm db1) = Some st' \<and> gget (al_Cases st') (ev_Id e) = Some c2 \<and>
    ec_ProcessStatus c2 = ''unresolved'' \<and> ec_ProcessNote c2 = 0"
  using assms(1)
proof (cases rule: AddNotes_outcomes)
  case 1
  with assms(2) show ?thesis by (simp add: is_ok_def)
next
  case (3 inp)
  with assms(3) show ?thesis by auto
next
  case (2 inp)
  let ?n = "note_of cfg ev users tok inputs db"
  let ?c1 = "stamped (ce_stamp ev) (c0\<lparr>ec_ProcessNote := en_ID ?n, ec_ProcessStatus := en_Status ?n\<rparr>)"
  have i: "inp = inputs" using 2(1) by simp
  have c1: "gget (al_Cases (cd_alarm db1)) (ev_Id e) = Some ?c1" using assms(4,6) unfolding 2(7) i process_case_cases by simp
  have f: "ec_ProcessStatus ?c1 = ni_Status inputs" "ec_ProcessNote ?c1 = en_ID ?n" by (simp_all add: stamped_def split: option.split)
  have n: "t_note db1 = t_note db @ [?n]" using 2(7) i by simp
  from new_case_total [OF assms(5)] obtain nc where nc: "new_case e = Some nc" by blast
  have "\<exists>c2. updated_case (ii_stamp io) e ?c1 = Some c2 \<and> ec_ProcessStatus c2 = ''unresolved'' \<and> ec_ProcessNote c2 = 0"
    using assms(3) f(1) by (auto simp: updated_case_def nc Let_def stamped_def split: option.split)
  then obtain c2 where c2: "updated_case (ii_stamp io) e ?c1 = Some c2" "ec_ProcessStatus c2 = ''unresolved''" "ec_ProcessNote c2 = 0" by blast
  from InsertEvent_total [OF assms(5)] obtain st' where st: "InsertEvent io e (cd_alarm db1) = Some st'" by blast
  then have "gget (al_Cases st') (ev_Id e) = Some c2" using c1 c2(1) assms(7,8)
    by (auto simp: InsertEvent_def insertEvent_def Let_def split: bind_splits if_splits)
  with c1 f n st c2(2,3) assms(6) show ?thesis
    by (intro exI [of _ ?c1] exI [of _ st'] exI [of _ c2] exI [of _ ?n]) simp
qed

section \<open>Divergences\<close>

text \<open>The notes of a case are never found: the query is on the table of cases.\<close>

theorem notes_not_counted: "NotesCount cmp okq db i since = 0"
proof -
  have "''event_caseId'' \<notin> set case_columns" by (simp add: case_columns_def)
  then show ?thesis by (simp add: NotesCount_def GetNotes_def notes_in_def)
qed

text \<open>
  The page is used as the number of rows to leave out: when the database answers the query as the rows
  without the first \<open>page\<close> ones, page 2 begins with the second row of page 1.
\<close>

theorem case_pages_overlap:
  assumes "cq_Limit inputs = 50" "cq_StartTime inputs \<noteq> 0" "length rows = 60"
    and "\<And>p. p \<in> {1, 2} \<Longrightarrow> run (cases_sql (inputs\<lparr>cq_Page := p\<rparr>)) = take 50 (drop (nat p) rows)"
  shows "\<exists>p1 p2. AlarmLists run (Some (inputs\<lparr>cq_Page := 1\<rparr>)) = RespOK p1 \<and> AlarmLists run (Some (inputs\<lparr>cq_Page := 2\<rparr>)) = RespOK p2 \<and>
    take 49 p2 = drop 1 p1 \<and> length p1 = 50"
proof -
  have r: "AlarmLists run (Some (inputs\<lparr>cq_Page := p\<rparr>)) = RespOK (take 50 (drop (nat p) rows))" if "p \<in> {1, 2}" for p
    using assms(4) [OF that] assms(2) by (simp add: AlarmLists_def cq_checkInputsContain_def)
  have "take 49 (take 50 (drop 2 rows)) = drop 1 (take 50 (drop 1 rows))" by (simp add: drop_take numeral_2_eq_2)
  moreover have "length (take 50 (drop 1 rows)) = 50" using assms(3) by simp
  ultimately show ?thesis using r [of 1] r [of 2] by simp
qed

text \<open>A quote in a field of the request ends the text of the condition; the rest is SQL.\<close>

theorem case_filter_injected:
  "cq_collectFilters \<lparr>cq_StartTime = 0, cq_EndTime = 0, cq_Priority = - 1, cq_Status = '''', cq_ProcessStatus = '''',
      cq_Metrics = '''', cq_EventId = a @ [CHR 0x27] @ sql, cq_Limit = 0, cq_Page = - 1\<rparr> =
    ''WHERE id = '' @ quoted a @ sql @ [CHR 0x27]"
  by (simp add: cq_collectFilters_def where_of_def since_filter_def until_filter_def quoted_def Let_def)

section \<open>Witnesses\<close>

definition case_cfg :: api_config where
  "case_cfg = \<lparr>coll = id, access_control = True, skip_auth = False, default_token = '''', signup_disable = False, salt = ''s''\<rparr>"

definition operators :: uic_db where
  "operators = \<lparr>t_user = [zero_user\<lparr>us_ID := 7, Api_Uic.us_Name := ''op''\<rparr>], t_session = [], t_team = [], t_rel = [],
    next_user = 8, next_session = 1, next_team = 1, next_rel = 1\<rparr>"

definition case_env0 :: case_env where
  "case_env0 = \<lparr>ce_ok = \<lambda>k. True, ce_now = 1500000000, ce_stamp = None\<rparr>"

definition all_filed :: insert_io where
  "all_filed = \<lparr>ii_select = True, ii_case = True, ii_row = True, ii_stamp = None\<rparr>"

definition filed_db :: case_db where
  "filed_db = \<lparr>cd_alarm = the (InsertEvent all_filed demo_alarm empty_alarm), t_note = [], next_note = 1\<rparr>"

definition closing :: note_input where
  "closing = \<lparr>ni_EventId = ''s_1_x'', ni_Note = ''disk replaced'', ni_Status = ''resolved'', ni_CaseId = ''''\<rparr>"

definition closed_db :: case_db where
  "closed_db = fst (AddNotesToAlarm case_cfg case_env0 operators (Token ''op'' ''sig'') (Some closing) filed_db)"

lemma closing_accepted: "AddNotesToAlarm case_cfg case_env0 operators (Token ''op'' ''sig'') (Some closing) filed_db =
    (closed_db, RespOK ''add note to s_1_x successfuled'')"
proof (rule prod_eqI)
  show "snd (AddNotesToAlarm case_cfg case_env0 operators (Token ''op'' ''sig'') (Some closing) filed_db) =
      snd (closed_db, RespOK ''add note to s_1_x successfuled'')" by code_simp
qed (simp add: closed_db_def)

lemma closed_reachable: "case_reachable case_cfg closed_db"
proof -
  obtain st where st: "InsertEvent all_filed demo_alarm empty_alarm = Some st"
    using InsertEvent_total [of demo_alarm all_filed empty_alarm] by (auto simp: event_complete_def demo_alarm_def)
  let ?e = "\<lparr>cd_alarm = empty_alarm, t_note = [], next_note = 1\<rparr>"
  have "case_reachable case_cfg ?e" by (rule no_cases) (simp_all add: empty_alarm_def)
  moreover have "case_step case_cfg ?e filed_db" using event_filed [of all_filed demo_alarm ?e st case_cfg] st by (simp add: filed_db_def)
  ultimately have "case_reachable case_cfg filed_db" by (rule case_next)
  then show ?thesis using note_sent [OF closing_accepted] by (rule case_next)
qed

theorem cases_explained_by_notes_witness: "list_all (\<lambda>n. has_case (coll case_cfg) closed_db (en_EventCaseId n)) (t_note closed_db) \<and>
    t_note closed_db \<noteq> []"
proof -
  have "list_ex (\<lambda>n. True) (t_note closed_db)" by code_simp
  then show ?thesis using cases_explained_by_notes [OF closed_reachable] by (auto simp: list_all_iff)
qed

theorem AddNotes_all_or_nothing_witness: "\<exists>n. t_note closed_db = [n] \<and> en_Note n = ''disk replaced''"
  using AddNotes_all_or_nothing [OF closing_accepted] by (auto simp: is_ok_def case_env0_def filed_db_def closing_def)

theorem closed_case_reopened_witness:
  "\<exists>c1 st' c2. gget (al_Cases (cd_alarm closed_db)) ''s_1_x'' = Some c1 \<and> ec_ProcessStatus c1 = ''resolved'' \<and>
    InsertEvent all_filed demo_alarm (cd_alarm closed_db) = Some st' \<and> gget (al_Cases st') ''s_1_x'' = Some c2 \<and> ec_ProcessStatus c2 = ''unresolved''"
proof -
  have "gget (al_Cases (cd_alarm filed_db)) ''s_1_x'' \<noteq> None" by code_simp
  then obtain c0 where c: "gget (al_Cases (cd_alarm filed_db)) (ni_EventId closing) = Some c0" by (auto simp: closing_def)
  have e: "event_complete demo_alarm" "ev_Id demo_alarm = ni_EventId closing" "ii_select all_filed" "ii_case all_filed" "ce_ok case_env0 5"
    "ni_Status closing \<in> {''resolved'', ''ignored''}"
    by (simp_all add: event_complete_def demo_alarm_def closing_def all_filed_def case_env0_def)
  from closed_case_reopened [OF closing_accepted e(5,6) c e(1-4)] show ?thesis by (auto simp: e(2)) (auto simp: closing_def)
qed

theorem case_pages_overlap_witness:
  "\<exists>run p1 p2. AlarmLists run (Some \<lparr>cq_StartTime = 1, cq_EndTime = 0, cq_Priority = - 1, cq_Status = '''', cq_ProcessStatus = '''',
      cq_Metrics = '''', cq_EventId = '''', cq_Limit = 50, cq_Page = 1\<rparr>) = RespOK p1 \<and>
    AlarmLists run (Some \<lparr>cq_StartTime = 1, cq_EndTime = 0, cq_Priority = - 1, cq_Status = '''', cq_ProcessStatus = '''',
      cq_Metrics = '''', cq_EventId = '''', cq_Limit = 50, cq_Page = 2\<rparr>) = RespOK p2 \<and> take 49 p2 = drop 1 p1 \<and> length p1 = 50"
proof -
  let ?q = "\<lparr>cq_StartTime = 1, cq_EndTime = 0, cq_Priority = - 1, cq_Status = '''', cq_ProcessStatus = '''',
      cq_Metrics = '''', cq_EventId = '''', cq_Limit = 50, cq_Page = 1\<rparr>"
  obtain c where "gget (al_Cases (cd_alarm filed_db)) ''s_1_x'' = Some c"
  proof -
    have "gget (al_Cases (cd_alarm filed_db)) ''s_1_x'' \<noteq> None" by code_simp
    then show ?thesis using that by blast
  qed
  define rows where "rows = map (\<lambda>i. c\<lparr>ec_Id := itoa (int i)\<rparr>) [0..<60]"
  define run where "run = (\<lambda>s. if s = cases_sql (?q\<lparr>cq_Page := 1\<rparr>) then take 50 (drop 1 rows) else take 50 (drop 2 rows))"
  have "cases_sql (?q\<lparr>cq_Page := 2\<rparr>) \<noteq> cases_sql (?q\<lparr>cq_Page := 1\<rparr>)" by code_simp
  then have "run (cases_sql (?q\<lparr>cq_Page := p\<rparr>)) = take 50 (drop (nat p) rows)" if "p \<in> {1, 2}" for p
    using that by (auto simp: run_def)
  from case_pages_overlap [OF _ _ _ this] have "\<exists>p1 p2. AlarmLists run (Some (?q\<lparr>cq_Page := 1\<rparr>)) = RespOK p1 \<and>
      AlarmLists run (Some (?q\<lparr>cq_Page := 2\<rparr>)) = RespOK p2 \<and> take 49 p2 = drop 1 p1 \<and> length p1 = 50"
    by (simp add: rows_def)
  then show ?thesis by (intro exI [of _ run]) simp
qed

end
