(* ===== verification/Conn_Pool.thy ===== *)
theory Conn_Pool
  imports Transfer_Core
begin

text \<open>
  The connections of the clients (\<open>common/backend_pool\<close>) over the bounded pool of
  \<open>vendor/github.com/toolkits/conn_pool\<close>: every call of the transfer, the judge's and graph's nodes and
  the API's graphs takes a connection from the pool of its address and gives it back or closes
  it. A connection is known by its name; \<open>cp_open\<close> are those that are not closed. Whether a
  dial succeeds and what becomes of a call are arguments.
\<close>

section \<open>The pool\<close>

record conn_pool =
  cp_Name :: string
  cp_Address :: string
  cp_MaxConns :: int
  cp_MaxIdle :: int
  cp_Cnt :: int64
  cp_active :: int
  cp_free :: "string list"
  cp_all :: "string list"
  cp_open :: "string list"

definition NewConnPool :: "string \<Rightarrow> string \<Rightarrow> int \<Rightarrow> int \<Rightarrow> conn_pool" where
  "NewConnPool name address maxConns maxIdle =
    \<lparr>cp_Name = name, cp_Address = address, cp_MaxConns = maxConns, cp_MaxIdle = maxIdle, cp_Cnt = 0, cp_active = 0,
     cp_free = [], cp_all = [], cp_open = []\<rparr>"

definition conn_name :: "string \<Rightarrow> int64 \<Rightarrow> int64 \<Rightarrow> string" where
  "conn_name name cnt now = name @ ''_'' @ itoa cnt @ ''_'' @ itoa now"

definition overMax :: "conn_pool \<Rightarrow> bool" where
  "overMax p \<longleftrightarrow> cp_MaxConns p \<le> cp_active p"

definition overMaxIdle :: "conn_pool \<Rightarrow> bool" where
  "overMaxIdle p \<longleftrightarrow> cp_MaxIdle p \<le> i32 (int (length (cp_free p)))"

definition deleteConn :: "string \<Rightarrow> conn_pool \<Rightarrow> conn_pool" where
  "deleteConn c p = p\<lparr>cp_open := removeAll c (cp_open p), cp_all := removeAll c (cp_all p)\<rparr>"

definition decreActive :: "conn_pool \<Rightarrow> conn_pool" where
  "decreActive p = p\<lparr>cp_active := i32 (cp_active p - 1)\<rparr>"

text \<open>A dial that fails gives the error; one that succeeds a connection with the next name.\<close>

definition cp_Fetch :: "string option \<Rightarrow> int64 \<Rightarrow> conn_pool \<Rightarrow> (string + string) \<times> conn_pool" where
  "cp_Fetch dial now p =
    (case cp_free p of
       c # cs \<Rightarrow> (Inr c, p\<lparr>cp_free := cs\<rparr>)
     | [] \<Rightarrow>
       if overMax p then (Inl ''maximum connections reached'', p)
       else case dial of
         Some err \<Rightarrow> (Inl err, p)
       | None \<Rightarrow>
         let c = conn_name (cp_Name p) (cp_Cnt p) now
         in (Inr c, p\<lparr>cp_Cnt := i64 (cp_Cnt p + 1), cp_all := List.insert c (cp_all p), cp_open := List.insert c (cp_open p),
               cp_active := i32 (cp_active p + 1)\<rparr>))"

definition cp_Release :: "string \<Rightarrow> conn_pool \<Rightarrow> conn_pool" where
  "cp_Release c p = (if overMaxIdle p then decreActive (deleteConn c p) else p\<lparr>cp_free := cp_free p @ [c]\<rparr>)"

definition cp_ForceClose :: "string \<Rightarrow> conn_pool \<Rightarrow> conn_pool" where
  "cp_ForceClose c p = decreActive (deleteConn c p)"

definition cp_Destroy :: "conn_pool \<Rightarrow> conn_pool" where
  "cp_Destroy p = p\<lparr>cp_open := filter (\<lambda>c. c \<notin> set (cp_free p) \<and> c \<notin> set (cp_all p)) (cp_open p), cp_active := 0,
    cp_free := [], cp_all := []\<rparr>"

section \<open>One pool for each address\<close>

record conn_pools =
  ps_M :: "(string, conn_pool) gomap"
  ps_MaxConns :: int
  ps_MaxIdle :: int

definition createOneRpcPool :: "string \<Rightarrow> string \<Rightarrow> int \<Rightarrow> int \<Rightarrow> conn_pool" where
  "createOneRpcPool name address maxConns maxIdle = NewConnPool name address (i32 maxConns) (i32 maxIdle)"

definition CreateSafeRpcConnPools :: "int \<Rightarrow> int \<Rightarrow> string list \<Rightarrow> conn_pools" where
  "CreateSafeRpcConnPools maxConns maxIdle cluster =
    \<lparr>ps_M = foldl (\<lambda>M address. if gget M address \<noteq> None then M
        else gput address (createOneRpcPool address address maxConns maxIdle) M) [] cluster,
     ps_MaxConns = maxConns, ps_MaxIdle = maxIdle\<rparr>"

datatype call_end = CallTimeout | CallFailed string | CallDone

text \<open>After a call: a connection that timed out or failed is closed, one that served is given back.\<close>

definition end_call :: "string \<Rightarrow> string \<Rightarrow> call_end \<Rightarrow> conn_pool \<Rightarrow> string option \<times> conn_pool" where
  "end_call addr c e p =
    (case e of
       CallTimeout \<Rightarrow> (Some (addr @ '', call timeout''), cp_ForceClose c p)
     | CallFailed err \<Rightarrow> (Some (addr @ '', call failed, err '' @ err), cp_ForceClose c p)
     | CallDone \<Rightarrow> (None, cp_Release c p))"

definition pools_Call :: "string \<Rightarrow> string option \<Rightarrow> int64 \<Rightarrow> call_end \<Rightarrow> conn_pools \<Rightarrow> string option \<times> conn_pools" where
  "pools_Call addr dial now e ps =
    (case gget (ps_M ps) addr of
       None \<Rightarrow> (Some (addr @ '' has no connection pool''), ps)
     | Some p \<Rightarrow>
       (case cp_Fetch dial now p of
          (Inl err, p1) \<Rightarrow> (Some (addr @ '' get connection fail: err '' @ err), ps\<lparr>ps_M := gput addr p1 (ps_M ps)\<rparr>)
        | (Inr c, p1) \<Rightarrow> let (r, p2) = end_call addr c e p1 in (r, ps\<lparr>ps_M := gput addr p2 (ps_M ps)\<rparr>)))"

text \<open>\<open>Destroy\<close> ends every pool and empties the map; what stays open is what no pool knew.\<close>

definition pools_Destroy :: "conn_pools \<Rightarrow> conn_pools" where
  "pools_Destroy ps = ps\<lparr>ps_M := []\<rparr>"

text \<open>The client of TSDB has one pool, named \<open>tsdb\<close>, and the same calls.\<close>

definition newTsdbConnPool :: "string \<Rightarrow> int \<Rightarrow> int \<Rightarrow> conn_pool" where
  "newTsdbConnPool address maxConns maxIdle = NewConnPool ''tsdb'' address (i32 maxConns) (i32 maxIdle)"

definition tsdb_Send :: "string option \<Rightarrow> int64 \<Rightarrow> call_end \<Rightarrow> conn_pool \<Rightarrow> string option \<times> conn_pool" where
  "tsdb_Send dial now e p =
    (case cp_Fetch dial now p of
       (Inl err, p1) \<Rightarrow> (Some (''get connection fail: err '' @ err), p1)
     | (Inr c, p1) \<Rightarrow> end_call (cp_Address p) c e p1)"

section \<open>The transfer's pools\<close>

text \<open>
  The order in which a set of addresses is listed is an argument, as are the two limits of each cluster, and the
  address of TSDB with its limits.
\<close>

definition judge_addrs :: "transfer_config \<Rightarrow> string list" where
  "judge_addrs cfg = remdups (map snd (tc_JudgeCluster cfg))"

definition graph_addrs :: "transfer_config \<Rightarrow> string list" where
  "graph_addrs cfg = remdups (concat (map snd (GraphClusterList cfg)))"

definition initConnPools ::
    "(string list \<Rightarrow> string list) \<Rightarrow> transfer_config \<Rightarrow> int \<times> int \<Rightarrow> string \<times> int \<times> int \<Rightarrow> int \<times> int
      \<Rightarrow> conn_pools \<times> conn_pool option \<times> conn_pools" where
  "initConnPools visit cfg judge tsdb graph =
    (CreateSafeRpcConnPools (fst judge) (snd judge) (visit (judge_addrs cfg)),
     if tc_TsdbEnabled cfg then Some (newTsdbConnPool (fst tsdb) (fst (snd tsdb)) (snd (snd tsdb))) else None,
     CreateSafeRpcConnPools (fst graph) (snd graph) (visit (graph_addrs cfg)))"

section \<open>What the pool promises\<close>

text \<open>
  The contract of a bounded pool towards its callers: what it hands out nobody else has, and what is given back
  or dropped leaves it in order. \<open>holds p lent\<close> is the order of the pool while \<open>lent\<close> are out.
\<close>

locale bounded_pool =
  fixes fetch :: "string option \<Rightarrow> int64 \<Rightarrow> 'p \<Rightarrow> (string + 'c) \<times> 'p"
    and give_back :: "'c \<Rightarrow> 'p \<Rightarrow> 'p"
    and drop_conn :: "'c \<Rightarrow> 'p \<Rightarrow> 'p"
    and holds :: "'p \<Rightarrow> 'c list \<Rightarrow> bool"
    and room :: "'p \<Rightarrow> bool"
  assumes fetch_new: "holds p lent \<Longrightarrow> room p \<Longrightarrow> fetch d t p = (Inr c, p') \<Longrightarrow> c \<notin> set lent \<and> holds p' (c # lent)"
    and fetch_none: "holds p lent \<Longrightarrow> fetch d t p = (Inl err, p') \<Longrightarrow> holds p' lent"
    and give_back_holds: "holds p lent \<Longrightarrow> c \<in> set lent \<Longrightarrow> holds (give_back c p) (remove1 c lent)"
    and drop_holds: "holds p lent \<Longrightarrow> c \<in> set lent \<Longrightarrow> holds (drop_conn c p) (remove1 c lent)"
begin

text \<open>A call that takes a connection and ends either way leaves no connection out.\<close>

lemma call_balanced:
  assumes "holds p lent" "room p" "fetch d t p = (Inr c, p1)"
  shows "holds (give_back c p1) lent" "holds (drop_conn c p1) lent"
proof -
  from fetch_new [OF assms] have h: "holds p1 (c # lent)" by simp
  from give_back_holds [OF h, of c] drop_holds [OF h, of c]
  show "holds (give_back c p1) lent" "holds (drop_conn c p1) lent" by simp_all
qed

end

definition pool_ok :: "conn_pool \<Rightarrow> string list \<Rightarrow> bool" where
  "pool_ok p lent \<longleftrightarrow> distinct (cp_free p @ lent) \<and> set (cp_all p) = set (cp_free p) \<union> set lent \<and> set (cp_open p) = set (cp_all p) \<and>
    cp_active p = int (length (cp_free p) + length lent) \<and> cp_active p \<le> max 0 (cp_MaxConns p) \<and>
    int (length (cp_free p)) \<le> max 0 (cp_MaxIdle p) \<and> cp_MaxConns p < 2 ^ 31 \<and> 0 \<le> cp_Cnt p \<and> cp_Cnt p < 2 ^ 63 \<and>
    list_all (\<lambda>c. \<exists>k t. 0 \<le> k \<and> k < cp_Cnt p \<and> c = conn_name (cp_Name p) k t) (cp_all p)"

text \<open>The serial number of connections does not wrap.\<close>

definition serial_left :: "conn_pool \<Rightarrow> bool" where
  "serial_left p \<longleftrightarrow> cp_Cnt p < 2 ^ 63 - 1"

lemma i32_small: "0 \<le> x \<Longrightarrow> x < 2 ^ 31 \<Longrightarrow> i32 x = x"
  by (simp add: i32_def signed_take_bit_int_eq_self)

lemma conn_name_serial:
  assumes "conn_name nm k t = conn_name nm l u" "in_i64 k" "in_i64 l"
  shows "k = l"
proof -
  have "\<not> is_digit (CHR ''_'')" by code_simp
  then have no: "CHR ''_'' \<notin> set (itoa i)" for i using itoa_chars [of "CHR ''_''" i] by auto
  have e: "itoa k @ CHR ''_'' # itoa t = itoa l @ CHR ''_'' # itoa u" using assms(1) by (simp add: conn_name_def)
  have "[itoa k, itoa t] = [itoa l, itoa u]"
    using arg_cong [OF e, of "go_split2 (CHR ''_'')"] by (simp only: go_split2_sep [OF no])
  then show ?thesis using itoa_inj [OF assms(2,3)] by simp
qed

lemma one_less:
  assumes "pool_ok p lent" "c \<in> set lent"
  shows "int (length (remove1 c lent)) = int (length lent) - 1" "set (remove1 c lent) = set lent - {c}" "distinct (remove1 c lent)"
proof -
  have "length (remove1 c lent) = length lent - 1" using assms(2) by (simp add: length_remove1)
  then show "int (length (remove1 c lent)) = int (length lent) - 1" using assms(2) by (cases lent) simp_all
qed (use assms in \<open>auto simp: pool_ok_def\<close>)

lemma drop_ok:
  assumes "pool_ok p lent" "c \<in> set lent"
  shows "pool_ok (cp_ForceClose c p) (remove1 c lent)"
proof -
  note l = one_less [OF assms]
  have "cp_active p - 1 = int (length (cp_free p) + length (remove1 c lent))" using assms(1) l(1) by (simp add: pool_ok_def)
  moreover from this have "i32 (cp_active p - 1) = cp_active p - 1" using assms(1) by (intro i32_small) (auto simp: pool_ok_def)
  moreover have "set (removeAll c (cp_all p)) = set (cp_free p) \<union> set (remove1 c lent)" using assms l(2) by (auto simp: pool_ok_def)
  ultimately show ?thesis using assms l
    by (auto simp: pool_ok_def cp_ForceClose_def decreActive_def deleteConn_def list_all_iff)
qed

lemma give_back_ok:
  assumes "pool_ok p lent" "c \<in> set lent"
  shows "pool_ok (cp_Release c p) (remove1 c lent)"
proof (cases "overMaxIdle p")
  case True
  then show ?thesis using drop_ok [OF assms] by (simp add: cp_Release_def cp_ForceClose_def)
next
  case False
  note l = one_less [OF assms]
  have "int (length (cp_free p)) < 2 ^ 31" using assms(1) by (auto simp: pool_ok_def)
  with False have "int (length (cp_free p)) < cp_MaxIdle p" by (simp add: overMaxIdle_def i32_small)
  then show ?thesis using False assms l by (auto simp: pool_ok_def cp_Release_def)
qed

lemma names_grow:
  assumes "list_all (\<lambda>c. \<exists>k t. 0 \<le> k \<and> k < n \<and> c = conn_name nm k t) cs" "0 \<le> n"
  shows "list_all (\<lambda>c. \<exists>k t. 0 \<le> k \<and> k < n + 1 \<and> c = conn_name nm k t) (List.insert (conn_name nm n now) cs)"
proof -
  have "\<exists>k t. 0 \<le> k \<and> k < n + 1 \<and> c = conn_name nm k t" if "c \<in> set cs" for c
  proof -
    from assms(1) that obtain k t where "0 \<le> k" "k < n" "c = conn_name nm k t" by (auto simp: list_all_iff)
    then show ?thesis by (intro exI [of _ k] exI [of _ t]) simp
  qed
  moreover have "\<exists>k t. 0 \<le> k \<and> k < n + 1 \<and> conn_name nm n now = conn_name nm k t"
    using assms(2) by (intro exI [of _ n] exI [of _ now]) simp
  ultimately show ?thesis by (auto simp: list_all_iff)
qed

lemma fetch_ok:
  assumes "pool_ok p lent" "serial_left p" "cp_Fetch d t p = (Inr c, p')"
  shows "c \<notin> set lent \<and> pool_ok p' (c # lent)"
proof (cases "cp_free p")
  case (Cons x xs)
  with assms(3) have "c = x" "p' = p\<lparr>cp_free := xs\<rparr>" by (simp_all add: cp_Fetch_def)
  with assms(1) Cons show ?thesis by (auto simp: pool_ok_def)
next
  case Nil
  with assms(3) have om: "\<not> overMax p" and c: "c = conn_name (cp_Name p) (cp_Cnt p) t"
    and p': "p' = p\<lparr>cp_Cnt := i64 (cp_Cnt p + 1), cp_all := List.insert c (cp_all p), cp_open := List.insert c (cp_open p),
      cp_active := i32 (cp_active p + 1)\<rparr>"
    by (auto simp: cp_Fetch_def Let_def split: if_splits option.splits)
  have cnt: "0 \<le> cp_Cnt p" "cp_Cnt p < 2 ^ 63 - 1" using assms(1,2) by (simp_all add: pool_ok_def serial_left_def)
  have i: "in_i64 (cp_Cnt p)" "i64 (cp_Cnt p + 1) = cp_Cnt p + 1" using cnt by (simp_all add: in_i64_def i64_id)
  have a: "i32 (cp_active p + 1) = cp_active p + 1" "cp_active p + 1 \<le> max 0 (cp_MaxConns p)" using om assms(1)
    by (auto simp: overMax_def pool_ok_def intro: i32_small)
  have new: "c \<notin> set (cp_all p)"
  proof
    assume "c \<in> set (cp_all p)"
    then obtain k u where k: "0 \<le> k" "k < cp_Cnt p" "c = conn_name (cp_Name p) k u"
      using assms(1) unfolding pool_ok_def list_all_iff by blast
    from conn_name_serial [OF k(3) [symmetric, unfolded c]] k(1,2) cnt i(1) show False by (simp add: in_i64_def)
  qed
  have "list_all (\<lambda>c. \<exists>k t. 0 \<le> k \<and> k < cp_Cnt p + 1 \<and> c = conn_name (cp_Name p) k t) (List.insert c (cp_all p))"
    unfolding c by (rule names_grow) (use assms(1) in \<open>simp_all add: pool_ok_def\<close>)
  with new assms(1) a i(2) cnt Nil show ?thesis unfolding p' by (simp add: pool_ok_def)
qed

lemma fetch_refused_ok: "pool_ok p lent \<Longrightarrow> cp_Fetch d t p = (Inl err, p') \<Longrightarrow> pool_ok p' lent"
  by (auto simp: cp_Fetch_def Let_def split: list.splits if_splits option.splits)

interpretation cpool: bounded_pool cp_Fetch cp_Release cp_ForceClose pool_ok serial_left
  by unfold_locales (erule (2) fetch_ok | erule (1) fetch_refused_ok | erule (1) give_back_ok | erule (1) drop_ok)+

section \<open>Callers at the same time\<close>

text \<open>
  Callers fetch, release and close in any order; a caller gives up only what it holds. A pool starts empty.
\<close>

inductive pool_step :: "conn_pool \<times> string list \<Rightarrow> conn_pool \<times> string list \<Rightarrow> bool" where
  pool_fetch: "serial_left p \<Longrightarrow> cp_Fetch d t p = (Inr c, p') \<Longrightarrow> pool_step (p, lent) (p', c # lent)"
| pool_refuse: "cp_Fetch d t p = (Inl err, p') \<Longrightarrow> pool_step (p, lent) (p', lent)"
| pool_release: "c \<in> set lent \<Longrightarrow> pool_step (p, lent) (cp_Release c p, remove1 c lent)"
| pool_close: "c \<in> set lent \<Longrightarrow> pool_step (p, lent) (cp_ForceClose c p, remove1 c lent)"

inductive pool_reachable :: "string \<Rightarrow> string \<Rightarrow> int \<Rightarrow> int \<Rightarrow> conn_pool \<times> string list \<Rightarrow> bool" for nm addr mc mi where
  pool_new: "pool_reachable nm addr mc mi (createOneRpcPool nm addr mc mi, [])"
| pool_next: "pool_reachable nm addr mc mi s \<Longrightarrow> pool_step s s' \<Longrightarrow> pool_reachable nm addr mc mi s'"

inductive_cases pool_stepE: "pool_step s s'"

lemma new_pool_ok: "pool_ok (createOneRpcPool nm addr mc mi) []"
proof -
  have "i32 mc < 2 ^ 31" using signed_take_bit_int_less_exp [of 31 mc] by (simp add: i32_def)
  then show ?thesis by (simp add: pool_ok_def createOneRpcPool_def NewConnPool_def)
qed

lemma fetch_limits: "cp_Fetch d t p = (r, p') \<Longrightarrow> cp_MaxConns p' = cp_MaxConns p \<and> cp_MaxIdle p' = cp_MaxIdle p"
  by (auto simp: cp_Fetch_def Let_def split: list.splits option.splits if_splits)

lemma release_limits [simp]: "cp_MaxConns (cp_Release c p) = cp_MaxConns p" "cp_MaxIdle (cp_Release c p) = cp_MaxIdle p"
  "cp_MaxConns (cp_ForceClose c p) = cp_MaxConns p" "cp_MaxIdle (cp_ForceClose c p) = cp_MaxIdle p"
  by (simp_all add: cp_Release_def cp_ForceClose_def decreActive_def deleteConn_def)

lemma pool_reachable_ok:
  assumes "pool_reachable nm addr mc mi s"
  shows "pool_ok (fst s) (snd s) \<and> cp_MaxConns (fst s) = i32 mc \<and> cp_MaxIdle (fst s) = i32 mi"
  using assms
proof induction
  case pool_new
  then show ?case using new_pool_ok by (simp add: createOneRpcPool_def NewConnPool_def)
next
  case (pool_next s s')
  from pool_next(2,3) show ?case
    by (cases rule: pool_step.cases)
      (auto intro: cpool.give_back_holds cpool.drop_holds dest: cpool.fetch_new cpool.fetch_none fetch_limits)
qed

text \<open>
  C40: However callers interleave: the pool counts exactly the connections that are free or out, never has more of
  them than its maximum, keeps no more free ones than its maximum of idle ones, gives no connection to
  two callers, and has no open connection that is neither free nor out.
\<close>

theorem pool_never_overcommits:
  assumes "pool_reachable nm addr mc mi (p, lent)"
  shows "cp_active p = int (length (cp_free p) + length lent) \<and> cp_active p \<le> max 0 (i32 mc) \<and>
    int (length (cp_free p)) \<le> max 0 (i32 mi) \<and> distinct (cp_free p @ lent) \<and> set (cp_open p) = set (cp_free p) \<union> set lent"
proof -
  from pool_reachable_ok [OF assms] have "pool_ok p lent" "cp_MaxConns p = i32 mc" "cp_MaxIdle p = i32 mi" by simp_all
  then show ?thesis unfolding pool_ok_def by simp
qed

text \<open>
  A caller is refused exactly when all connections are out, or none is free and the dial fails: nothing a caller did
  before, no failed call and no timeout, takes away from the number of connections.
\<close>

theorem pool_refuses_when_all_out:
  assumes "pool_reachable nm addr mc mi (p, lent)" "0 < i32 mc"
  shows "(\<exists>err p'. cp_Fetch d t p = (Inl err, p')) \<longleftrightarrow> cp_free p = [] \<and> (int (length lent) = i32 mc \<or> d \<noteq> None)"
proof -
  from pool_reachable_ok [OF assms(1)] have p: "pool_ok p lent" "cp_MaxConns p = i32 mc" by simp_all
  have "overMax p \<longleftrightarrow> int (length lent) = i32 mc" if "cp_free p = []"
    using p assms(2) that by (auto simp: pool_ok_def overMax_def)
  then show ?thesis by (cases "cp_free p"; cases d) (auto simp: cp_Fetch_def Let_def)
qed

section \<open>Calls over the pools\<close>

lemma Create_pool:
  "gget (ps_M (CreateSafeRpcConnPools mc mi cluster)) a = (if a \<in> set cluster then Some (createOneRpcPool a a mc mi) else None)"
proof -
  have "gget (foldl (\<lambda>M address. if gget M address \<noteq> None then M else gput address (createOneRpcPool address address mc mi) M) M cluster) a =
      (case gget M a of Some p \<Rightarrow> Some p | None \<Rightarrow> if a \<in> set cluster then Some (createOneRpcPool a a mc mi) else None)" for M
    by (induction cluster arbitrary: M) (auto split: option.splits)
  from this [of "[]"] show ?thesis by (simp add: CreateSafeRpcConnPools_def)
qed

definition pools_ok :: "conn_pools \<Rightarrow> (string \<Rightarrow> string list) \<Rightarrow> bool" where
  "pools_ok ps out \<longleftrightarrow> (\<forall>a p. gget (ps_M ps) a = Some p \<longrightarrow> pool_ok p (out a))"

lemma end_call_ok:
  assumes "pool_ok p lent" "serial_left p" "cp_Fetch d t p = (Inr c, p1)"
  shows "pool_ok (snd (end_call addr c e p1)) lent"
  using cpool.call_balanced [OF assms] by (simp add: end_call_def split: call_end.split)

lemma closed_after_failure: "fst (end_call addr c e p) \<noteq> None \<Longrightarrow> c \<notin> set (cp_open (snd (end_call addr c e p)))"
  by (auto simp: end_call_def cp_ForceClose_def decreActive_def deleteConn_def split: call_end.splits)

text \<open>
  A call gives back or closes the connection it took, whatever becomes of it: the pools are in order with the same
  connections out as before, at every address.
\<close>

theorem Call_leaves_nothing_out:
  assumes "pools_ok ps out" "\<forall>p. gget (ps_M ps) addr = Some p \<longrightarrow> serial_left p"
  shows "pools_ok (snd (pools_Call addr dial now e ps)) out"
proof (cases "gget (ps_M ps) addr")
  case None
  then show ?thesis using assms(1) by (simp add: pools_Call_def)
next
  case (Some p)
  with assms have p: "pool_ok p (out addr)" "serial_left p" by (simp_all add: pools_ok_def)
  obtain r p1 where f: "cp_Fetch dial now p = (r, p1)" by fastforce
  have "\<exists>p2. pool_ok p2 (out addr) \<and> ps_M (snd (pools_Call addr dial now e ps)) = gput addr p2 (ps_M ps)"
  proof (cases r)
    case (Inl err)
    then have "pool_ok p1 (out addr)" using f cpool.fetch_none [OF p(1)] by blast
    then show ?thesis using f Some Inl by (intro exI [of _ p1]) (simp add: pools_Call_def)
  next
    case (Inr c)
    then show ?thesis using f Some end_call_ok [OF p, of dial now c p1 addr e] by (auto simp: pools_Call_def case_prod_beta Let_def)
  qed
  with assms(1) show ?thesis by (auto simp: pools_ok_def split: if_splits)
qed

text \<open>
  A fresh transfer has a pool for the address of every judge and of every replica of a graph, so that no call of
  its senders fails for lack of one, and all its pools are in order with nothing out.
\<close>

theorem every_backend_has_pool:
  assumes "\<And>xs. set (visit xs) = set xs" "initConnPools visit cfg jm tm gm = (judges, tsdb, graphs)"
  shows "(node, addr) \<in> set (tc_JudgeCluster cfg) \<Longrightarrow> gget (ps_M judges) addr \<noteq> None"
    and "(node, addrs) \<in> set (GraphClusterList cfg) \<Longrightarrow> addr \<in> set addrs \<Longrightarrow> gget (ps_M graphs) addr \<noteq> None"
    and "pools_ok judges (\<lambda>a. []) \<and> pools_ok graphs (\<lambda>a. [])"
proof -
  from assms(2) have e: "judges = CreateSafeRpcConnPools (fst jm) (snd jm) (visit (judge_addrs cfg))"
    "graphs = CreateSafeRpcConnPools (fst gm) (snd gm) (visit (graph_addrs cfg))" by (simp_all add: initConnPools_def)
  show "(node, addr) \<in> set (tc_JudgeCluster cfg) \<Longrightarrow> gget (ps_M judges) addr \<noteq> None"
    unfolding e Create_pool by (force simp: assms(1) judge_addrs_def)
  show "(node, addrs) \<in> set (GraphClusterList cfg) \<Longrightarrow> addr \<in> set addrs \<Longrightarrow> gget (ps_M graphs) addr \<noteq> None"
    unfolding e Create_pool by (force simp: assms(1) graph_addrs_def)
  show "pools_ok judges (\<lambda>a. []) \<and> pools_ok graphs (\<lambda>a. [])"
    unfolding e pools_ok_def Create_pool by (auto simp: new_pool_ok split: if_splits)
qed

text \<open>
  A pool that is destroyed while a connection is out counts one too few when that one is closed: its count falls
  below zero and it then lets more callers in than its maximum.
\<close>

theorem destroyed_pool_miscounts:
  assumes "pool_reachable nm addr mc mi (p, lent)" "c \<in> set lent"
  shows "cp_active (cp_ForceClose c (cp_Destroy p)) = - 1"
  by (simp add: cp_ForceClose_def cp_Destroy_def decreActive_def deleteConn_def i32_def)

section \<open>Witnesses\<close>

lemma one_out: "pool_reachable ''a:1'' ''a:1'' 2 1 (snd (cp_Fetch None 9 (createOneRpcPool ''a:1'' ''a:1'' 2 1)), [''a:1_0_9''])"
proof -
  have "cp_Fetch None 9 (createOneRpcPool ''a:1'' ''a:1'' 2 1) =
      (Inr ''a:1_0_9'', snd (cp_Fetch None 9 (createOneRpcPool ''a:1'' ''a:1'' 2 1)))" by code_simp
  from pool_fetch [OF _ this] have "pool_step (createOneRpcPool ''a:1'' ''a:1'' 2 1, [])
      (snd (cp_Fetch None 9 (createOneRpcPool ''a:1'' ''a:1'' 2 1)), [''a:1_0_9''])"
    by (simp add: serial_left_def createOneRpcPool_def NewConnPool_def)
  then show ?thesis by (rule pool_next [OF pool_new])
qed

theorem pool_never_overcommits_witness: "cp_active (snd (cp_Fetch None 9 (createOneRpcPool ''a:1'' ''a:1'' 2 1))) \<le> 2"
proof -
  have "i32 2 = 2" by code_simp
  then show ?thesis using pool_never_overcommits [OF one_out] by simp
qed

theorem pool_refuses_when_all_out_witness:
  "\<nexists>err p'. cp_Fetch None 10 (snd (cp_Fetch None 9 (createOneRpcPool ''a:1'' ''a:1'' 2 1))) = (Inl err, p')"
proof -
  have "i32 2 = 2" by code_simp
  then show ?thesis using pool_refuses_when_all_out [OF one_out, of None 10] by simp
qed

theorem Call_leaves_nothing_out_witness:
  "pools_ok (snd (pools_Call ''a:1'' None 9 CallTimeout (CreateSafeRpcConnPools 2 1 [''a:1'']))) (\<lambda>a. [])"
proof (rule Call_leaves_nothing_out)
  show "pools_ok (CreateSafeRpcConnPools 2 1 [''a:1'']) (\<lambda>a. [])" by (simp add: pools_ok_def Create_pool new_pool_ok)
  show "\<forall>p. gget (ps_M (CreateSafeRpcConnPools 2 1 [''a:1''])) ''a:1'' = Some p \<longrightarrow> serial_left p"
    by (simp add: Create_pool serial_left_def createOneRpcPool_def NewConnPool_def)
qed

theorem destroyed_pool_miscounts_witness:
  "cp_active (cp_ForceClose ''a:1_0_9'' (cp_Destroy (snd (cp_Fetch None 9 (createOneRpcPool ''a:1'' ''a:1'' 2 1))))) = - 1"
  by (rule destroyed_pool_miscounts [OF one_out]) simp

end
