(* ===== verification/Counters.thy ===== *)
theory Counters
  imports Utils
begin

text \<open>
  The status counters (\<open>common/proc\<close>): a count, its time, its rate, and up to a hundred values of the
  caller's own. The clock and the printing of times are arguments; a method takes the lock for its whole
  run and is one step.
\<close>

section \<open>Counters\<close>

definition DefaultOtherMaxSize :: nat where "DefaultOtherMaxSize = 100"
definition DefaultSCounterQpsPeriod :: int64 where "DefaultSCounterQpsPeriod = 1"

record 'v scounter_base =
  sb_Name :: string
  sb_Cnt :: int64
  sb_Time :: string
  sb_ts :: int64
  sb_Other :: "(string, 'v) gomap"

record 'v scounter_qps =
  sq_Name :: string
  sq_Cnt :: int64
  sq_Qps :: int64
  sq_Time :: string
  sq_ts :: int64
  sq_lastTs :: int64
  sq_lastCnt :: int64
  sq_Other :: "(string, 'v) gomap"

definition NewSCounterBase :: "(int64 \<Rightarrow> string) \<Rightarrow> int64 \<Rightarrow> string \<Rightarrow> 'v scounter_base" where
  "NewSCounterBase formatTs now name = \<lparr>sb_Name = name, sb_Cnt = 0, sb_Time = formatTs now, sb_ts = now, sb_Other = []\<rparr>"

definition SetCnt :: "(int64 \<Rightarrow> string) \<Rightarrow> int64 \<Rightarrow> int64 \<Rightarrow> 'v scounter_base \<Rightarrow> 'v scounter_base" where
  "SetCnt formatTs now cnt c = c\<lparr>sb_Cnt := cnt, sb_ts := now, sb_Time := formatTs now\<rparr>"

definition put_other :: "string \<Rightarrow> 'v \<Rightarrow> (string, 'v) gomap \<Rightarrow> (string, 'v) gomap \<times> bool" where
  "put_other key v other =
    (if gget other key \<noteq> None then (gput key v other, True)
     else if length other < DefaultOtherMaxSize then (gput key v other, True)
     else (other, False))"

definition base_PutOther :: "string \<Rightarrow> 'v \<Rightarrow> 'v scounter_base \<Rightarrow> 'v scounter_base \<times> bool" where
  "base_PutOther key v c = (let (other, ret) = put_other key v (sb_Other c) in (c\<lparr>sb_Other := other\<rparr>, ret))"

definition NewSCounterQps :: "(int64 \<Rightarrow> string) \<Rightarrow> int64 \<Rightarrow> string \<Rightarrow> 'v scounter_qps" where
  "NewSCounterQps formatTs now name =
    \<lparr>sq_Name = name, sq_Cnt = 0, sq_Qps = 0, sq_Time = formatTs now, sq_ts = now, sq_lastTs = now, sq_lastCnt = 0, sq_Other = []\<rparr>"

definition incrByDirty :: "(int64 \<Rightarrow> string) \<Rightarrow> int64 \<Rightarrow> int64 \<Rightarrow> 'v scounter_qps \<Rightarrow> 'v scounter_qps option" where
  "incrByDirty formatTs now incr c =
    (let c1 = c\<lparr>sq_Cnt := i64 (sq_Cnt c + incr), sq_ts := now, sq_Time := formatTs now\<rparr>
     in if DefaultSCounterQpsPeriod < i64 (sq_ts c1 - sq_lastTs c1)
        then do {
          qps \<leftarrow> go_div (i64 (sq_Cnt c1 - sq_lastCnt c1)) (i64 (sq_ts c1 - sq_lastTs c1));
          Some (c1\<lparr>sq_Qps := qps, sq_lastTs := sq_ts c1, sq_lastCnt := sq_Cnt c1\<rparr>)
        }
        else Some c1)"

definition qps_Get :: "(int64 \<Rightarrow> string) \<Rightarrow> int64 \<Rightarrow> 'v scounter_qps \<Rightarrow> 'v scounter_qps option" where
  "qps_Get formatTs now c = incrByDirty formatTs now 0 c"

definition IncrBy :: "(int64 \<Rightarrow> string) \<Rightarrow> int64 \<Rightarrow> int64 \<Rightarrow> 'v scounter_qps \<Rightarrow> 'v scounter_qps option" where
  "IncrBy formatTs now incr c = incrByDirty formatTs now incr c"

definition Incr :: "(int64 \<Rightarrow> string) \<Rightarrow> int64 \<Rightarrow> 'v scounter_qps \<Rightarrow> 'v scounter_qps option" where
  "Incr formatTs now c = IncrBy formatTs now 1 c"

definition qps_PutOther :: "string \<Rightarrow> 'v \<Rightarrow> 'v scounter_qps \<Rightarrow> 'v scounter_qps \<times> bool" where
  "qps_PutOther key v c = (let (other, ret) = put_other key v (sq_Other c) in (c\<lparr>sq_Other := other\<rparr>, ret))"

section \<open>The values of the caller\<close>

text \<open>A value is stored unless a hundred other keys are there; it never drives out another.\<close>

lemma put_other_spec:
  assumes "gomap_ok other" "length other \<le> DefaultOtherMaxSize" "put_other key v other = (other', stored)"
  shows "gomap_ok other' \<and> length other' \<le> DefaultOtherMaxSize \<and>
    (stored \<longleftrightarrow> gget other key \<noteq> None \<or> length other < DefaultOtherMaxSize) \<and>
    (\<forall>k. gget other' k = (if stored \<and> k = key then Some v else gget other k))"
proof -
  have len: "length (gput key v other) = (if gget other key = None then length other + 1 else length other)"
    by (induction other) auto
  show ?thesis using assms len by (auto simp: put_other_def split: if_splits)
qed

section \<open>The rate\<close>

lemma go_div_pos:
  assumes "0 \<le> a" "a < 2 ^ 63" "0 < b"
  shows "go_div a b = Some (a div b)"
proof -
  have "a div b \<le> a" using zdiv_mono2 [of a 1 b] assms by simp
  moreover have "0 \<le> a div b" using assms by (simp add: pos_imp_zdiv_nonneg_iff)
  ultimately have "in_i64 (a div b)" using assms(2) by (simp add: in_i64_def)
  then show ?thesis using assms by (cases "a = 0") (simp_all add: go_div_def signed_divide_int_def i64_id)
qed

text \<open>The division never fails: it is by a period of more than a second.\<close>

lemma incr_never_panics: "incrByDirty fm now incr c \<noteq> None"
  by (simp add: incrByDirty_def Let_def go_div_def DefaultSCounterQpsPeriod_def)

definition qps_ok :: "'v scounter_qps \<Rightarrow> bool" where
  "qps_ok c \<longleftrightarrow> 0 \<le> sq_lastTs c \<and> sq_lastTs c \<le> sq_ts c \<and> sq_ts c \<le> sq_lastTs c + 1 \<and> sq_ts c < 2 ^ 62 \<and>
    0 \<le> sq_lastCnt c \<and> sq_lastCnt c \<le> sq_Cnt c \<and> 0 \<le> sq_Qps c"

lemma incr_step:
  assumes "qps_ok c" "sq_ts c \<le> now" "now < 2 ^ 62" "0 \<le> incr" "sq_Cnt c + incr < 2 ^ 63"
  shows "\<exists>c'. incrByDirty fm now incr c = Some c' \<and> qps_ok c' \<and> sq_Cnt c' = sq_Cnt c + incr \<and> sq_ts c' = now \<and>
    sq_Qps c' = (if sq_lastTs c + 1 < now then (sq_Cnt c + incr - sq_lastCnt c) div (now - sq_lastTs c) else sq_Qps c)"
proof -
  have i: "i64 (sq_Cnt c + incr) = sq_Cnt c + incr" "i64 (now - sq_lastTs c) = now - sq_lastTs c"
    "i64 (sq_Cnt c + incr - sq_lastCnt c) = sq_Cnt c + incr - sq_lastCnt c"
    using assms by (auto simp: qps_ok_def in_i64_def intro!: i64_id)
  show ?thesis
  proof (cases "sq_lastTs c + 1 < now")
    case True
    then have "go_div (sq_Cnt c + incr - sq_lastCnt c) (now - sq_lastTs c) = Some ((sq_Cnt c + incr - sq_lastCnt c) div (now - sq_lastTs c))"
      using assms by (intro go_div_pos) (auto simp: qps_ok_def)
    with True assms i show ?thesis
      by (simp add: incrByDirty_def Let_def DefaultSCounterQpsPeriod_def qps_ok_def pos_imp_zdiv_nonneg_iff)
  next
    case False
    with assms i show ?thesis by (simp add: incrByDirty_def Let_def DefaultSCounterQpsPeriod_def qps_ok_def)
  qed
qed

text \<open>
  A counter incremented at increasing times: its count is the sum of the increments, and its rate is never negative.
\<close>

definition qps_run :: "(int64 \<Rightarrow> string) \<Rightarrow> (int64 \<times> int64) list \<Rightarrow> 'v scounter_qps \<Rightarrow> 'v scounter_qps option" where
  "qps_run fm evs c = foldM (\<lambda>c (now, incr). incrByDirty fm now incr c) c evs"

theorem counted_exactly:
  assumes "0 \<le> t0" "sorted (t0 # map fst evs)" "list_all (\<lambda>(t, n). t < 2 ^ 62 \<and> 0 \<le> n) ((t0, 0) # evs)" "sum_list (map snd evs) < 2 ^ 63"
  shows "\<exists>c. qps_run fm evs (NewSCounterQps fm t0 name) = Some c \<and> sq_Cnt c = sum_list (map snd evs) \<and> 0 \<le> sq_Qps c \<and>
    sq_ts c - sq_lastTs c \<le> 1"
proof -
  have "\<exists>c'. qps_run fm evs c = Some c' \<and> qps_ok c' \<and> sq_Cnt c' = sq_Cnt c + sum_list (map snd evs)"
    if "qps_ok c" "sorted (sq_ts c # map fst evs)" "list_all (\<lambda>(t, n). t < 2 ^ 62 \<and> 0 \<le> n) evs"
      "sq_Cnt c + sum_list (map snd evs) < 2 ^ 63" for c :: "'v scounter_qps"
    using that
  proof (induction evs arbitrary: c)
    case Nil
    then show ?case by (simp add: qps_run_def)
  next
    case (Cons e evs)
    obtain t n where e: "e = (t, n)" by fastforce
    have nn: "0 \<le> sum_list (map snd evs)" using Cons.prems(3) by (intro sum_list_nonneg) (auto simp: list_all_iff)
    from incr_step [OF Cons.prems(1), of t n fm] obtain c1 where
      1: "incrByDirty fm t n c = Some c1" "qps_ok c1" "sq_Cnt c1 = sq_Cnt c + n" "sq_ts c1 = t"
      using Cons.prems e nn by auto
    from Cons.IH [OF 1(2)] Cons.prems 1(3,4) e obtain c' where
      "qps_run fm evs c1 = Some c'" "qps_ok c'" "sq_Cnt c' = sq_Cnt c1 + sum_list (map snd evs)" by auto
    with 1 e show ?case by (simp add: qps_run_def)
  qed
  from this [of "NewSCounterQps fm t0 name"] assms show ?thesis
    by (auto simp: NewSCounterQps_def qps_ok_def)
qed

theorem counted_exactly_witness: "\<exists>c. qps_run itoa [(5, 3), (9, 4)] (NewSCounterQps itoa 5 ''x'') = Some c \<and> sq_Cnt c = 7"
  using counted_exactly [of 5 "[(5, 3), (9, 4)]" itoa "''x''"] by auto

text \<open>
  The rate is that of the time since it was last computed, which is at least two seconds: within one second of the
  last time the period of one second that the source names passes without a new rate.
\<close>

theorem rate_waits_two_seconds:
  assumes "qps_ok c" "sq_ts c \<le> now" "now = sq_lastTs c + 1" "0 \<le> incr" "sq_Cnt c + incr < 2 ^ 63" "now < 2 ^ 62"
  shows "map_option sq_Qps (incrByDirty fm now incr c) = Some (sq_Qps c)"
  using incr_step [OF assms(1,2,6,4,5), of fm] assms(3) by auto

end
