(* ===== verification/Shell.thy ===== *)
theory Shell
  imports Utils
begin

text \<open>
  The command line (\<open>main.go\<close>, \<open>cmd\<close>, \<open>g\<close>): starts, stops, restarts and checks the processes of one host. What
  \<open>pgrep\<close> finds is the state; files, the outcome of running a program or of a signal, and what \<open>pgrep\<close>
  finds while a start is awaited are arguments.
\<close>

section \<open>Modules (\<open>g\<close>)\<close>

definition module_names :: "string list" where
  "module_names = [''agent'', ''aggregator'', ''graph'', ''hbs'', ''judge'', ''nodata'', ''transfer'', ''gateway'', ''api'', ''alarm'']"

definition Modules :: "(string, bool) gomap" where
  "Modules = map (\<lambda>m. (m, True)) module_names"

definition ModuleApps :: "(string, string) gomap" where
  "ModuleApps = map (\<lambda>m. (m, ''falcon-'' @ m)) module_names"

definition BinOf :: "(string, string) gomap" where
  "BinOf = map (\<lambda>m. (m, ''./'' @ m @ ''/bin/falcon-'' @ m)) module_names"

definition cfgOf :: "(string, string) gomap" where
  "cfgOf = map (\<lambda>m. (m, ''./'' @ m @ ''/config/cfg.json'')) module_names"

definition logpathOf :: "(string, string) gomap" where
  "logpathOf = map (\<lambda>m. (m, ''./'' @ m @ ''/logs/'' @ m @ ''.log'')) module_names"

definition AllModulesInOrder :: "string list" where
  "AllModulesInOrder =
    [''graph'', ''hbs'', ''judge'', ''transfer'', ''nodata'', ''aggregator'', ''agent'', ''gateway'', ''api'', ''alarm'']"

definition text_of :: "(string, string) gomap \<Rightarrow> string \<Rightarrow> string" where
  "text_of m k = (case gget m k of None \<Rightarrow> '''' | Some s \<Rightarrow> s)"

record shell_env =
  sv_abs :: "string \<Rightarrow> string"
  sv_rel :: "string \<Rightarrow> string"
  sv_exists :: "string \<Rightarrow> bool"
  sv_run :: "string \<Rightarrow> string list \<Rightarrow> string option"
  sv_polls :: "string \<Rightarrow> nat \<Rightarrow> string option"
  sv_kill :: "string \<Rightarrow> string option"
  sv_gone :: "string \<Rightarrow> bool"

definition Bin :: "shell_env \<Rightarrow> string \<Rightarrow> string" where
  "Bin env name = sv_abs env (text_of BinOf name)"

definition Cfg :: "shell_env \<Rightarrow> string \<Rightarrow> string" where
  "Cfg env name = sv_abs env (text_of cfgOf name)"

definition LogPath :: "shell_env \<Rightarrow> string \<Rightarrow> string" where
  "LogPath env name = sv_abs env (text_of logpathOf name)"

definition HasModule :: "string \<Rightarrow> bool" where
  "HasModule name \<longleftrightarrow> gget Modules name = Some True"

definition HasCfg :: "shell_env \<Rightarrow> string \<Rightarrow> bool" where
  "HasCfg env name = sv_exists env (Cfg env name)"

definition HasLogfile :: "shell_env \<Rightarrow> string \<Rightarrow> bool" where
  "HasLogfile env name = sv_exists env (LogPath env name)"

text \<open>The state: the trimmed output of \<open>pgrep -f\<close> for the program of each module, empty when none runs.\<close>

type_synonym procs = "(string, string) gomap"

definition Pid :: "string \<Rightarrow> procs \<Rightarrow> string" where
  "Pid name st = text_of st name"

definition IsRunning :: "string \<Rightarrow> procs \<Rightarrow> bool" where
  "IsRunning name st \<longleftrightarrow> Pid name st \<noteq> ''''"

definition RmDup :: "string list \<Rightarrow> string list" where
  "RmDup args =
    (if length args \<le> 1 then args
     else fst (foldl (\<lambda>(ret, isDup) arg. if gget isDup arg = Some True then (ret, isDup) else (ret @ [arg], gput arg True isDup)) ([], []) args))"

definition PreqOrder :: "string list \<Rightarrow> string list" where
  "PreqOrder moduleArgs =
    (if moduleArgs = [] then []
     else let known = concat (map (\<lambda>nameOrder. filter (\<lambda>nameArg. nameOrder = nameArg) moduleArgs) AllModulesInOrder)
          in foldl (\<lambda>ms nameArg. if nameArg \<in> set ms then ms else ms @ [nameArg]) known moduleArgs)"

section \<open>Commands (\<open>cmd\<close>)\<close>

text \<open>A command works through its arguments and stops at the first error; \<open>None\<close> is a command that does not return.\<close>

fun each_module :: "(string \<Rightarrow> 's \<Rightarrow> (string option \<times> 's) option) \<Rightarrow> string list \<Rightarrow> 's \<Rightarrow> (string option \<times> 's) option" where
  "each_module f [] st = Some (None, st)"
| "each_module f (m # ms) st =
    (case f m st of
       None \<Rightarrow> None
     | Some (Some err, st1) \<Rightarrow> Some (Some err, st1)
     | Some (None, st1) \<Rightarrow> each_module f ms st1)"

definition requested :: "string list \<Rightarrow> string list" where
  "requested args = (let args1 = RmDup args in if args1 = [] then AllModulesInOrder else args1)"

definition checkStartReq :: "shell_env \<Rightarrow> string \<Rightarrow> string option" where
  "checkStartReq env name =
    (if \<not> HasModule name then Some (name @ '' doesn't exist'')
     else if \<not> HasCfg env name then Some (''expect config file: '' @ sv_rel env (Cfg env name)) else None)"

definition cmdArgs :: "shell_env \<Rightarrow> string \<Rightarrow> string list" where
  "cmdArgs env name = [''-c'', Cfg env name]"

definition execModule :: "shell_env \<Rightarrow> string \<Rightarrow> string option" where
  "execModule env name = sv_run env (Bin env name) (cmdArgs env name)"

text \<open>
  Each turn of the loop waits for the ticker (\<open>Some pid\<close>, what \<open>pgrep\<close> then finds) or for a timer of one second
  that the turn itself has started (\<open>None\<close>).
\<close>

partial_function (option) isStarted_from :: "(nat \<Rightarrow> string option) \<Rightarrow> nat \<Rightarrow> string option option" where
  "isStarted_from polls k =
    (case polls k of
       None \<Rightarrow> Some None
     | Some pid \<Rightarrow> if pid \<noteq> '''' then Some (Some pid) else isStarted_from polls (k + 1))"

definition isStarted :: "shell_env \<Rightarrow> string \<Rightarrow> string option option" where
  "isStarted env name = isStarted_from (sv_polls env name) 0"

definition start_one :: "shell_env \<Rightarrow> string \<Rightarrow> procs \<Rightarrow> (string option \<times> procs) option" where
  "start_one env name st =
    (case checkStartReq env name of
       Some err \<Rightarrow> Some (Some err, st)
     | None \<Rightarrow>
       if IsRunning name st then Some (None, st)
       else case execModule env name of
         Some err \<Rightarrow> Some (Some err, st)
       | None \<Rightarrow>
         (case isStarted env name of
            None \<Rightarrow> None
          | Some (Some pid) \<Rightarrow> Some (None, gput name pid st)
          | Some None \<Rightarrow> Some (Some (''['' @ text_of ModuleApps name @ ''] failed to start''), st)))"

definition start :: "shell_env \<Rightarrow> bool \<Rightarrow> string list \<Rightarrow> procs \<Rightarrow> (string option \<times> procs) option" where
  "start env preq args st =
    (let args1 = RmDup args;
         args2 = (if preq then PreqOrder args1 else args1);
         args3 = (if args2 = [] then AllModulesInOrder else args2)
     in each_module (start_one env) args3 st)"

text \<open>A signal that is delivered ends the process, or it is still there at the next look.\<close>

definition stop_one :: "shell_env \<Rightarrow> string \<Rightarrow> procs \<Rightarrow> (string option \<times> procs) option" where
  "stop_one env name st =
    (if \<not> HasModule name then Some (Some (name @ '' doesn't exist''), st)
     else if \<not> IsRunning name st then Some (None, st)
     else case sv_kill env (Pid name st) of
       Some err \<Rightarrow> Some (Some err, st)
     | None \<Rightarrow> Some (None, if sv_gone env name then gdel name st else st))"

definition stop :: "shell_env \<Rightarrow> string list \<Rightarrow> procs \<Rightarrow> (string option \<times> procs) option" where
  "stop env args st = each_module (stop_one env) (requested args) st"

definition restart_one :: "shell_env \<Rightarrow> bool \<Rightarrow> string \<Rightarrow> procs \<Rightarrow> (string option \<times> procs) option" where
  "restart_one env preq name st =
    (case stop env [name] st of
       None \<Rightarrow> None
     | Some (Some err, st1) \<Rightarrow> Some (Some err, st1)
     | Some (None, st1) \<Rightarrow> start env preq [name] st1)"

definition restart :: "shell_env \<Rightarrow> bool \<Rightarrow> string list \<Rightarrow> procs \<Rightarrow> (string option \<times> procs) option" where
  "restart env preq args st = each_module (restart_one env preq) (requested args) st"

text \<open>The lines \<open>check\<close> prints, before the error if there is one.\<close>

fun check_lines :: "procs \<Rightarrow> string list \<Rightarrow> (string \<times> string \<times> string) list \<times> string option" where
  "check_lines st [] = ([], None)"
| "check_lines st (m # ms) =
    (if \<not> HasModule m then ([], Some (m @ '' doesn't exist''))
     else let line = (text_of ModuleApps m, if IsRunning m st then ''UP'' else ''DOWN'', if IsRunning m st then Pid m st else ''-'');
              (ls, err) = check_lines st ms
          in (line # ls, err))"

definition check :: "string list \<Rightarrow> procs \<Rightarrow> (string \<times> string \<times> string) list \<times> string option" where
  "check args st = check_lines st (requested args)"

definition checkMonReq :: "shell_env \<Rightarrow> string \<Rightarrow> string option" where
  "checkMonReq env name =
    (if \<not> HasModule name then Some (name @ '' doesn't exist'')
     else if \<not> HasLogfile env name then Some (''expect logfile: '' @ sv_rel env (Cfg env name)) else None)"

text \<open>The arguments of \<open>tail\<close>, or an error; without arguments the usage is printed.\<close>

definition monitor :: "shell_env \<Rightarrow> string list \<Rightarrow> string + string list option" where
  "monitor env args =
    (if args = [] then Inr None
     else case List.map_filter (checkMonReq env) args of
       err # errs \<Rightarrow> Inl err
     | [] \<Rightarrow> Inr (Some (''-f'' # map (LogPath env) args)))"

definition reload :: "string list \<Rightarrow> procs \<Rightarrow> procs" where
  "reload args st = st"

section \<open>Arguments\<close>

lemma RmDup_fold:
  "(\<And>x. gget isDup x = Some True \<longleftrightarrow> x \<in> set ret) \<Longrightarrow>
    fst (foldl (\<lambda>(ret, isDup) arg. if gget isDup arg = Some True then (ret, isDup) else (ret @ [arg], gput arg True isDup)) (ret, isDup) args) =
    rev (fold List.insert args (rev ret))"
proof (induction args arbitrary: ret isDup)
  case (Cons a args)
  show ?case
  proof (cases "a \<in> set ret")
    case True
    then show ?thesis using Cons.IH [OF Cons.prems] Cons.prems [of a] by simp
  next
    case False
    then have "gget isDup a \<noteq> Some True" using Cons.prems [of a] by simp
    moreover have "fst (foldl (\<lambda>(ret, isDup) arg. if gget isDup arg = Some True then (ret, isDup) else (ret @ [arg], gput arg True isDup))
        (ret @ [a], gput a True isDup) args) = rev (fold List.insert args (rev (ret @ [a])))"
      by (rule Cons.IH) (simp add: Cons.prems)
    ultimately show ?thesis using False by simp
  qed
qed simp

lemma fold_insert_set: "set (fold List.insert xs ys) = set xs \<union> set ys" "distinct ys \<Longrightarrow> distinct (fold List.insert xs ys)"
  by (induction xs arbitrary: ys) auto

lemma RmDup_eq: "RmDup args = rev (fold List.insert args [])"
proof (cases "length args \<le> 1")
  case True
  then show ?thesis by (cases args) (auto simp: RmDup_def)
next
  case False
  then show ?thesis using RmDup_fold [of "[]" "[]" args] by (simp add: RmDup_def)
qed

lemma RmDup_set [simp]: "set (RmDup args) = set args" "distinct (RmDup args)"
  by (simp_all add: RmDup_eq fold_insert_set)

lemma RmDup_short [simp]: "RmDup [] = []" "RmDup [x] = [x]" "PreqOrder [] = []" by (simp_all add: RmDup_def PreqOrder_def)

lemma pick_one: "distinct xs \<Longrightarrow> filter (\<lambda>a. x = a) xs = (if x \<in> set xs then [x] else [])"
  by (induction xs) auto

lemma concat_guard: "concat (map (\<lambda>n. if P n then [n] else []) ms) = filter P ms"
  by (induction ms) auto

lemma add_missing:
  "foldl (\<lambda>ms a. if a \<in> set ms then ms else ms @ [a]) known args = known @ rev (fold List.insert (filter (\<lambda>a. a \<notin> set known) args) [])"
proof -
  have "foldl (\<lambda>ms a. if a \<in> set ms then ms else ms @ [a]) (known @ rev extra) args =
      known @ rev (fold List.insert (filter (\<lambda>a. a \<notin> set known) args) extra)" if "set extra \<inter> set known = {}" for extra
    using that
  proof (induction args arbitrary: extra)
    case (Cons a args)
    then show ?case using Cons.IH [of "a # extra"] by (auto simp: List.insert_def)
  qed simp
  from this [of "[]"] show ?thesis by simp
qed

lemma fold_insert_distinct: "distinct (xs @ ys) \<Longrightarrow> fold List.insert xs ys = rev xs @ ys"
  by (induction xs arbitrary: ys) (auto simp: List.insert_def)

text \<open>
  With the flag for prerequisites the modules are started in the order of deployment: of names without
  repetition the known ones come first, in that order, then the others as they were given, and
  none is lost or added.
\<close>

theorem PreqOrder_deploys_in_order:
  assumes "distinct args"
  shows "PreqOrder args = filter (\<lambda>m. m \<in> set args) AllModulesInOrder @ filter (\<lambda>m. m \<notin> set AllModulesInOrder) args"
proof -
  let ?known = "concat (map (\<lambda>n. filter (\<lambda>a. n = a) args) AllModulesInOrder)"
  have "?known = filter (\<lambda>m. m \<in> set args) AllModulesInOrder"
    unfolding pick_one [OF assms] by (rule concat_guard)
  moreover from this have "filter (\<lambda>a. a \<notin> set ?known) args = filter (\<lambda>m. m \<notin> set AllModulesInOrder) args"
    by (auto intro: filter_cong)
  ultimately show ?thesis using assms
    by (cases "args = []") (simp_all add: PreqOrder_def Let_def add_missing fold_insert_distinct del: filter_concat)
qed

section \<open>Starting and stopping\<close>

lemma isStarted_from_Some:
  "isStarted_from polls k = Some r \<Longrightarrow> \<exists>i\<ge>k. polls i \<noteq> Some '''' \<and> polls i = r"
  by (erule isStarted_from.raw_induct [rotated], auto split: option.splits if_splits, meson Suc_leD)

lemma isStarted_from_reach:
  assumes "polls (k + n) = Some pid" "pid \<noteq> ''''" "\<And>i. i < n \<Longrightarrow> polls (k + i) = Some ''''"
  shows "isStarted_from polls k = Some (Some pid)"
  using assms
proof (induction n arbitrary: k)
  case 0
  then show ?case by (subst isStarted_from.simps) simp
next
  case (Suc n)
  have "isStarted_from polls (Suc k) = Some (Some pid)" 
  proof (rule Suc.IH)
    show "polls (Suc k + i) = Some ''''" if "i < n" for i using Suc.prems(3) [of "Suc i"] that by simp
  qed (use Suc.prems in simp_all)
  with Suc.prems(3) [of 0] show ?case by (subst isStarted_from.simps) simp
qed

text \<open>
  The timer of the wait is started anew in each turn, so the ticker, which is ten times as fast, always comes
  first: a program that starts and ends at once is waited for without end, and the message that it
  failed to start is never printed.
\<close>

theorem failed_start_hangs:
  assumes "checkStartReq env name = None" "\<not> IsRunning name st" "execModule env name = None"
    and "\<And>i. sv_polls env name i = Some ''''"
  shows "start env preq [name] st = None"
proof -
  have "isStarted env name = None"
  proof (cases "isStarted env name")
    case (Some r)
    from isStarted_from_Some [OF this [unfolded isStarted_def]] assms(4) show ?thesis by auto
  qed simp
  moreover have "(if preq then PreqOrder [name] else [name]) = [name]"
    using PreqOrder_deploys_in_order [of "[name]"] assms(1)
    by (auto simp: checkStartReq_def HasModule_def Modules_def module_names_def AllModulesInOrder_def split: if_splits)
  ultimately show ?thesis using assms(1-3) by (simp add: start_def start_one_def)
qed

lemma each_module_ok:
  assumes "\<And>m st. m \<in> set ms \<Longrightarrow> \<exists>st'. f m st = Some (None, st')"
  shows "\<exists>st'. each_module f ms st = Some (None, st')"
  using assms
proof (induction ms arbitrary: st)
  case (Cons m ms)
  obtain st1 where "f m st = Some (None, st1)" using Cons.prems by fastforce
  then show ?case using Cons.IH [of st1] Cons.prems by fastforce
qed simp

text \<open>A relation on states that each step keeps holds of the whole command, whether it ends well or not.\<close>

lemma each_module_keeps:
  assumes "each_module f ms st = Some (e, st')" "R st st" "\<And>m a b e. m \<in> set ms \<Longrightarrow> R st a \<Longrightarrow> f m a = Some (e, b) \<Longrightarrow> R st b"
  shows "R st st'"
proof -
  have "R st st'" if "each_module f ns a = Some (e, st')" "R st a" "set ns \<subseteq> set ms" for ns a
    using that
  proof (induction ns arbitrary: a)
    case (Cons n ns)
    then show ?case using assms(3) [of n a] by (auto split: option.splits)
  qed simp
  from this [OF assms(1,2)] show ?thesis by simp
qed

definition startable :: "shell_env \<Rightarrow> string \<Rightarrow> bool" where
  "startable env m \<longleftrightarrow> HasModule m \<and> HasCfg env m \<and> execModule env m = None \<and>
    (\<exists>n pid. sv_polls env m n = Some pid \<and> pid \<noteq> '''' \<and> (\<forall>i<n. sv_polls env m i = Some ''''))"

lemma start_one_startable:
  assumes "startable env m"
  shows "\<exists>st'. start_one env m st = Some (None, st') \<and> IsRunning m st' \<and> (\<forall>k. k \<noteq> m \<or> IsRunning m st \<longrightarrow> Pid k st' = Pid k st)"
proof (cases "IsRunning m st")
  case True
  then show ?thesis using assms by (simp add: start_one_def startable_def checkStartReq_def)
next
  case False
  from assms obtain n pid where p: "sv_polls env m n = Some pid" "pid \<noteq> ''''" "\<forall>i<n. sv_polls env m i = Some ''''"
    by (auto simp: startable_def)
  from isStarted_from_reach [of "sv_polls env m" 0 n pid] p have "isStarted env m = Some (Some pid)" by (simp add: isStarted_def)
  then show ?thesis using False assms p(2)
    by (simp add: start_one_def startable_def checkStartReq_def IsRunning_def Pid_def text_of_def)
qed

lemma start_each:
  assumes "\<And>m. m \<in> set ms \<Longrightarrow> startable env m"
  shows "\<exists>st'. each_module (start_one env) ms st = Some (None, st') \<and> (\<forall>m\<in>set ms. IsRunning m st') \<and>
    (\<forall>k. k \<notin> set ms \<or> IsRunning k st \<longrightarrow> Pid k st' = Pid k st)"
  using assms
proof (induction ms arbitrary: st)
  case (Cons m ms)
  obtain st1 where 1: "start_one env m st = Some (None, st1)" "IsRunning m st1" "\<forall>k. k \<noteq> m \<or> IsRunning m st \<longrightarrow> Pid k st1 = Pid k st"
    using start_one_startable [of env m st] Cons.prems by auto
  obtain st2 where 2: "each_module (start_one env) ms st1 = Some (None, st2)" "\<forall>k\<in>set ms. IsRunning k st2"
    "\<forall>k. k \<notin> set ms \<or> IsRunning k st1 \<longrightarrow> Pid k st2 = Pid k st1"
    using Cons.IH [of st1] Cons.prems by auto
  have keep: "Pid k st2 = Pid k st1" if "IsRunning k st1" for k using 2(3) that by blast
  have "IsRunning m st2" using keep [OF 1(2)] 1(2) by (simp add: IsRunning_def)
  moreover have "Pid k st2 = Pid k st" if "k \<notin> set (m # ms) \<or> IsRunning k st" for k
    using that
  proof
    assume "IsRunning k st"
    then have p: "Pid k st1 = Pid k st" using 1(3) by (cases "k = m") auto
    then show ?thesis using keep [of k] \<open>IsRunning k st\<close> by (simp add: IsRunning_def)
  qed (use 1(3) 2(3) in auto)
  ultimately show ?case using 1(1) 2(1,2) by auto
qed simp

text \<open>
  When every requested module has its configuration, can be run, and is found by \<open>pgrep\<close> in the end, \<open>start\<close> ends
  without an error and all of them run. A module that ran before keeps its process, and no other is
  touched.
\<close>

theorem start_brings_up:
  assumes "\<And>m. m \<in> set (if args = [] then AllModulesInOrder else args) \<Longrightarrow> startable env m"
  shows "\<exists>st'. start env preq args st = Some (None, st') \<and> (\<forall>m\<in>set (if args = [] then AllModulesInOrder else args). IsRunning m st') \<and>
    (\<forall>k. k \<notin> set (if args = [] then AllModulesInOrder else args) \<or> IsRunning k st \<longrightarrow> Pid k st' = Pid k st)"
proof -
  define ms where "ms = (let args2 = (if preq then PreqOrder (RmDup args) else RmDup args) in if args2 = [] then AllModulesInOrder else args2)"
  have p: "set (PreqOrder (RmDup args)) = set args" unfolding PreqOrder_deploys_in_order [OF RmDup_set(2)] by auto
  have e: "RmDup args = [] \<longleftrightarrow> args = []" using RmDup_set(1) [of args] by (metis set_empty)
  have q: "PreqOrder (RmDup args) = [] \<longleftrightarrow> args = []" using p by (metis set_empty)
  have "set ms = set (if args = [] then AllModulesInOrder else args)"
    by (cases preq; cases "args = []") (simp_all add: ms_def Let_def p e q del: set_empty)
  moreover have "start env preq args st = each_module (start_one env) ms st" by (simp add: start_def ms_def Let_def)
  ultimately show ?thesis using start_each [of ms env st] assms by simp
qed

text \<open>The usage of the commands names \<open>all\<close>; the word is refused as a module that does not exist.\<close>

theorem word_all_refused:
  "start env preq [''all''] st = Some (Some ''all doesn't exist'', st)" "stop env [''all''] st = Some (Some ''all doesn't exist'', st)"
proof -
  have "\<not> HasModule ''all''" by code_simp
  moreover have "PreqOrder [''all''] = [''all'']" by code_simp
  ultimately show "start env preq [''all''] st = Some (Some ''all doesn't exist'', st)" "stop env [''all''] st = Some (Some ''all doesn't exist'', st)"
    by (simp_all add: start_def start_one_def checkStartReq_def stop_def stop_one_def requested_def Let_def)
qed

text \<open>
  A restart waits one or two seconds for the old process and does not look whether it has ended: one that takes
  longer is found by \<open>start\<close>, which then starts nothing. The command reports success.
\<close>

theorem restart_misses_slow_exit:
  assumes "HasModule m" "HasCfg env m" "IsRunning m st" "sv_kill env (Pid m st) = None" "\<not> sv_gone env m"
  shows "restart env False [m] st = Some (None, st)"
  using assms by (simp add: restart_def restart_one_def stop_def stop_one_def start_def start_one_def requested_def Let_def checkStartReq_def)

section \<open>Witnesses\<close>

definition calm_env :: shell_env where
  "calm_env = \<lparr>sv_abs = (\<lambda>p. ''/opt/'' @ p), sv_rel = id, sv_exists = (\<lambda>p. True), sv_run = (\<lambda>b as. None),
    sv_polls = (\<lambda>m i. Some (if i = 0 then '''' else ''77'')), sv_kill = (\<lambda>p. None), sv_gone = (\<lambda>m. False)\<rparr>"

theorem PreqOrder_deploys_in_order_witness: "PreqOrder [''alarm'', ''judge'', ''x'', ''graph''] = [''graph'', ''judge'', ''alarm'', ''x'']"
  using PreqOrder_deploys_in_order [of "[''alarm'', ''judge'', ''x'', ''graph'']"] by (simp add: AllModulesInOrder_def)

theorem failed_start_hangs_witness: "start (calm_env\<lparr>sv_polls := \<lambda>m i. Some ''''\<rparr>) True [''judge''] [] = None"
proof (rule failed_start_hangs)
  have "HasModule ''judge''" by code_simp
  then show "checkStartReq (calm_env\<lparr>sv_polls := \<lambda>m i. Some ''''\<rparr>) ''judge'' = None"
    by (simp add: checkStartReq_def HasCfg_def calm_env_def)
qed (simp_all add: IsRunning_def Pid_def text_of_def execModule_def calm_env_def)

theorem start_brings_up_witness: "\<exists>st'. start calm_env True [''transfer'', ''judge''] [(''judge'', ''5'')] = Some (None, st') \<and>
    IsRunning ''transfer'' st' \<and> Pid ''judge'' st' = ''5''"
proof -
  have h: "HasModule ''transfer''" "HasModule ''judge''" by code_simp+
  have "startable calm_env m" if "HasModule m" for m
    using that by (auto simp: startable_def calm_env_def HasCfg_def execModule_def intro!: exI [of _ "1::nat"])
  with h have "startable calm_env m" if "m \<in> set (if [''transfer'', ''judge''] = [] then AllModulesInOrder else [''transfer'', ''judge''])" for m
    using that by auto
  from start_brings_up [of "[''transfer'', ''judge'']", OF this, of True "[(''judge'', ''5'')]"] obtain st' where
    s: "start calm_env True [''transfer'', ''judge''] [(''judge'', ''5'')] = Some (None, st')" "IsRunning ''transfer'' st'"
      "IsRunning ''judge'' [(''judge'', ''5'')] \<longrightarrow> Pid ''judge'' st' = Pid ''judge'' [(''judge'', ''5'')]" by fastforce
  have "IsRunning ''judge'' [(''judge'', ''5'')]" "Pid ''judge'' [(''judge'', ''5'')] = ''5''" by code_simp+
  with s show ?thesis by metis
qed

theorem restart_misses_slow_exit_witness: "restart calm_env False [''graph''] [(''graph'', ''9'')] = Some (None, [(''graph'', ''9'')])"
proof (rule restart_misses_slow_exit)
  show "HasModule ''graph''" by code_simp
qed (simp_all add: HasCfg_def IsRunning_def Pid_def text_of_def calm_env_def)

end
