(* ===== verification/Graph_File.thy ===== *)
theory Graph_File
  imports Graph_Migrate Graph_Query
begin

text \<open>
  The files of a graph at the edge of the round-robin library (\<open>rrdtool/rrdtool.go\<close>, \<open>sync_disk.go\<close>): how a file
  is laid out, how its answer becomes points, the worker that carries out file operations one at a
  time, and the ticking loop that flushes one shard of the cache after the other. The library's own
  answers and the outcome of operations on files are arguments.
\<close>

section \<open>The layout of a file\<close>

definition RRA5PointCnt :: int where "RRA5PointCnt = 576"
definition RRA20PointCnt :: int where "RRA20PointCnt = 504"
definition RRA180PointCnt :: int where "RRA180PointCnt = 766"
definition RRA720PointCnt :: int where "RRA720PointCnt = 730"

text \<open>Each archive: its function, the steps that make one point, and how many points it keeps.\<close>

definition rrd_archives :: "(string \<times> int \<times> int) list" where
  "rrd_archives = (''AVERAGE'', 1, RRA1PointCnt) #
    concat (map (\<lambda>(steps, cnt). [(''AVERAGE'', steps, cnt), (''MAX'', steps, cnt), (''MIN'', steps, cnt)])
      [(5, RRA5PointCnt), (20, RRA20PointCnt), (180, RRA180PointCnt), (720, RRA720PointCnt)])"

record rrd_layout =
  rl_start :: int64
  rl_step :: int
  rl_DsType :: string
  rl_Heartbeat :: int
  rl_Min :: string
  rl_Max :: string
  rl_archives :: "(string \<times> int \<times> int) list"

definition rrd_create :: "int64 \<Rightarrow> graph_item \<Rightarrow> rrd_layout" where
  "rrd_create now item =
    \<lparr>rl_start = now - 24 * 3600, rl_step = gi_Step item, rl_DsType = gi_DsType item, rl_Heartbeat = gi_Heartbeat item,
     rl_Min = gi_Min item, rl_Max = gi_Max item, rl_archives = rrd_archives\<rparr>"

text \<open>The time an archive reaches back.\<close>

definition reach :: "int \<Rightarrow> string \<times> int \<times> int \<Rightarrow> int" where
  "reach step a = step * fst (snd a) * snd (snd a)"

section \<open>Fetching\<close>

text \<open>The library gives the time before the first value, the step, and the values.\<close>

record rrd_fetched =
  rf_start :: int64
  rf_step :: int64
  rf_values :: "float64 list"

definition rrd_fetch :: "(string \<Rightarrow> string \<Rightarrow> int64 \<Rightarrow> int64 \<Rightarrow> int \<Rightarrow> rrd_fetched option) \<Rightarrow>
    string \<Rightarrow> string \<Rightarrow> int64 \<Rightarrow> int64 \<Rightarrow> int \<Rightarrow> rrd_data list \<times> bool" where
  "rrd_fetch lib filename cf start_ts end_ts step =
    (case lib filename cf start_ts end_ts step of
       None \<Rightarrow> ([], False)
     | Some r \<Rightarrow> (map (\<lambda>(i, v). rd (i64 (rf_start r + i64 ((int i + 1) * rf_step r))) v) (List.enumerate 0 (rf_values r)), True))"

section \<open>The worker of file operations\<close>

datatype io_task =
    IoRead string
  | IoWrite "graph_error option" write_outcome string "(int64 \<times> rrd_value) list"
  | IoFlush rrd_io string "graph_item list"
  | IoFetch string string int64 int64 int

text \<open>What is sent on the channel of the task, in order, and the data it carries back.\<close>

record io_answer =
  ia_sent :: "bool list"
  ia_body :: "(int64 \<times> rrd_value) list"
  ia_points :: "rrd_data list"

definition ioWorker_task :: "(string \<Rightarrow> string \<Rightarrow> int64 \<Rightarrow> int64 \<Rightarrow> int \<Rightarrow> rrd_fetched option) \<Rightarrow> io_task \<Rightarrow> rrd_disk \<Rightarrow> io_answer \<times> rrd_disk" where
  "ioWorker_task lib task disk =
    (case task of
       IoRead filename \<Rightarrow>
         (case gget disk filename of
            None \<Rightarrow> (\<lparr>ia_sent = [False], ia_body = [], ia_points = []\<rparr>, disk)
          | Some body \<Rightarrow> (\<lparr>ia_sent = [True], ia_body = body, ia_points = []\<rparr>, disk))
     | IoWrite dir w filename body \<Rightarrow>
         let (disk', err) = writeFile w filename body disk
         in (\<lparr>ia_sent = (if dir = None then [] else [False]) @ [err = None], ia_body = [], ia_points = []\<rparr>, disk')
     | IoFlush io filename items \<Rightarrow>
         let (disk', good) = flushrrd io filename items disk in (\<lparr>ia_sent = [good], ia_body = [], ia_points = []\<rparr>, disk')
     | IoFetch filename cf start_ts end_ts step \<Rightarrow>
         let (ps, good) = rrd_fetch lib filename cf start_ts end_ts step
         in (\<lparr>ia_sent = [good], ia_body = [], ia_points = ps\<rparr>, disk))"

section \<open>Flushing shard by shard\<close>

definition shards :: nat where
  "shards = nat graph_Size"

text \<open>One tick: the index is wrapped, the shard flushed, and the index moved on.\<close>

definition syncDisk_tick ::
    "graph_config \<Rightarrow> (string \<Rightarrow> bool) \<Rightarrow> int64 \<Rightarrow> (string \<Rightarrow> rrd_io) \<Rightarrow> nat \<times> graph_state \<Rightarrow> (nat \<times> graph_state) option" where
  "syncDisk_tick cfg route now io s =
    (let idx = fst s mod shards
     in map_option (\<lambda>st. (idx + 1, st)) (FlushRRD cfg route now False io idx (snd s)))"

definition sync_ticks ::
    "graph_config \<Rightarrow> (string \<Rightarrow> bool) \<Rightarrow> (string \<Rightarrow> rrd_io) \<Rightarrow> int64 list \<Rightarrow> nat \<times> graph_state \<Rightarrow> (nat \<times> graph_state) option" where
  "sync_ticks cfg route io times_of s = foldM (\<lambda>s now. syncDisk_tick cfg route now io s) s times_of"

section \<open>What a file keeps\<close>

text \<open>
  With a step of a minute the archives reach back twelve hours, two days, a week, three months and a year; for any
  step, of two archives the coarser one reaches further, so that a query for an older time finds a
  coarser one.
\<close>

theorem archives_reach:
  "map (\<lambda>a. (fst a, reach 60 a div 3600)) (filter (\<lambda>a. fst a = ''AVERAGE'') rrd_archives) =
    [(''AVERAGE'', 12), (''AVERAGE'', 48), (''AVERAGE'', 168), (''AVERAGE'', 2298), (''AVERAGE'', 8760)]"
  by (simp add: rrd_archives_def reach_def RRA1PointCnt_def RRA5PointCnt_def RRA20PointCnt_def RRA180PointCnt_def RRA720PointCnt_def)

theorem coarser_reaches_further:
  assumes "0 < step" "a \<in> set rrd_archives" "b \<in> set rrd_archives" "fst (snd a) < fst (snd b)"
  shows "reach step a < reach step b"
proof -
  have "list_all (\<lambda>a. list_all (\<lambda>b. fst (snd a) < fst (snd b) \<longrightarrow> fst (snd a) * snd (snd a) < fst (snd b) * snd (snd b)) rrd_archives) rrd_archives"
    by code_simp
  with assms show ?thesis by (auto simp: list_all_iff reach_def mult.assoc)
qed

theorem coarser_reaches_further_witness: "reach 60 (''MAX'', 5, 576) < reach 60 (''MIN'', 20, 504)"
proof (rule coarser_reaches_further)
  show "(''MAX'', 5, 576) \<in> set rrd_archives" "(''MIN'', 20, 504) \<in> set rrd_archives"
    by (simp_all add: rrd_archives_def RRA5PointCnt_def RRA20PointCnt_def)
qed simp_all

text \<open>The points of a fetch: one for each value, a step apart, the first a step after the time the library gives.\<close>

theorem fetched_times:
  assumes "lib filename cf start_ts end_ts step = Some r" "0 \<le> rf_start r" "0 \<le> rf_step r" "i < length (rf_values r)"
    and "rf_start r + int (length (rf_values r)) * rf_step r < 2 ^ 63"
  shows "fst (rrd_fetch lib filename cf start_ts end_ts step) ! i = rd (rf_start r + (int i + 1) * rf_step r) (rf_values r ! i)"
proof -
  have le: "(int i + 1) * rf_step r \<le> int (length (rf_values r)) * rf_step r"
    using assms(3,4) by (intro mult_right_mono) simp_all
  have "0 \<le> (int i + 1) * rf_step r" using assms(3) by simp
  with le assms(2,5) have "i64 ((int i + 1) * rf_step r) = (int i + 1) * rf_step r"
    "i64 (rf_start r + (int i + 1) * rf_step r) = rf_start r + (int i + 1) * rf_step r"
    by (intro i64_id; simp add: in_i64_def)+
  then show ?thesis using assms(1,4) by (simp add: rrd_fetch_def nth_enumerate_eq)
qed

theorem fetched_times_witness:
  "fst (rrd_fetch (\<lambda>f c s e st. Some \<lparr>rf_start = 100, rf_step = 60, rf_values = [NaN, NaN]\<rparr>) ''f'' ''AVERAGE'' 100 220 60) ! 1 = rd 220 NaN"
  using fetched_times [of "\<lambda>f c s e st. Some \<lparr>rf_start = 100, rf_step = 60, rf_values = [NaN, NaN]\<rparr>" "''f''" "''AVERAGE''" 100 220 60 _ 1]
  by simp

section \<open>A cycle of the flushing loop\<close>

definition flush_at :: "graph_config \<Rightarrow> (string \<Rightarrow> bool) \<Rightarrow> (string \<Rightarrow> rrd_io) \<Rightarrow> graph_state \<Rightarrow> nat \<times> int64 \<Rightarrow> graph_state option" where
  "flush_at cfg route io st p = FlushRRD cfg route (snd p) False io (fst p) st"

lemma ticks_run:
  "i + length ts \<le> shards \<Longrightarrow> sync_ticks cfg route io ts (i, st) =
    map_option (\<lambda>st'. (i + length ts, st')) (foldM (flush_at cfg route io) st (zip [i..<shards] ts))"
proof (induction ts arbitrary: i st)
  case (Cons t ts)
  then have i: "i < shards" "i mod shards = i" by auto
  then have z: "zip [i..<shards] (t # ts) = (i, t) # zip [Suc i..<shards] ts" by (simp add: upt_conv_Cons)
  show ?case using Cons.IH [of "Suc i"] Cons.prems i(2)
    by (cases "FlushRRD cfg route t False io i st") (simp_all add: z sync_ticks_def syncDisk_tick_def flush_at_def Let_def)
qed (simp add: sync_ticks_def)

lemma ticks_wrap: "map_option snd (sync_ticks cfg route io ts (shards, st)) = map_option snd (sync_ticks cfg route io ts (0, st))"
  by (cases ts) (simp_all add: sync_ticks_def syncDisk_tick_def)

text \<open>
  In as many ticks as there are shards, whatever shard the loop is at, every shard is flushed exactly once, in
  their order from there on: the loop starves none, and its counter stays within the shards.
\<close>

theorem cycle_flushes_every_shard:
  assumes "i \<le> shards" "length ts = shards"
  shows "map_option snd (sync_ticks cfg route io ts (i, st)) = foldM (flush_at cfg route io) st (zip ([i..<shards] @ [0..<i]) ts)"
proof -
  let ?S = "shards" and ?a = "take (shards - i) ts" and ?b = "drop (shards - i) ts"
  have len: "length ?a = ?S - i" "length ?b = i" using assms by simp_all
  have "[0..<shards] = [0..<i] @ [i..<shards]" using assms(1) upt_add_eq_append [of 0 i "shards - i"] by simp
  then have "zip [0..<?S] ?b = zip ([0..<i] @ [i..<?S]) (?b @ [])" by simp
  also have "\<dots> = zip [0..<i] ?b" using len(2) by (subst zip_append) simp_all
  finally have b: "zip [0..<?S] ?b = zip [0..<i] ?b" .
  have z: "zip ([i..<?S] @ [0..<i]) ts = zip [i..<?S] ?a @ zip [0..<i] ?b"
    using len by (subst append_take_drop_id [of "?S - i" ts, symmetric], subst zip_append) simp_all
  have 1: "sync_ticks cfg route io ?a (i, st) = map_option (\<lambda>st'. (?S, st')) (foldM (flush_at cfg route io) st (zip [i..<?S] ?a))"
    using ticks_run [of i ?a cfg route io st] len assms(1) by simp
  have 2: "map_option snd (sync_ticks cfg route io ?b (?S, st')) = foldM (flush_at cfg route io) st' (zip [0..<i] ?b)" for st'
    using ticks_run [of 0 ?b cfg route io st'] len(2) assms(1) by (simp add: ticks_wrap b option.map_comp comp_def option.map_ident)
  have "sync_ticks cfg route io (?a @ ?b) (i, st) = (case sync_ticks cfg route io ?a (i, st) of None \<Rightarrow> None | Some s \<Rightarrow> sync_ticks cfg route io ?b s)"
    by (simp only: sync_ticks_def foldM_append)
  then have "map_option snd (sync_ticks cfg route io ts (i, st)) =
      (case foldM (flush_at cfg route io) st (zip [i..<?S] ?a) of None \<Rightarrow> None | Some s \<Rightarrow> map_option snd (sync_ticks cfg route io ?b (?S, s)))"
    unfolding append_take_drop_id 1 by (simp split: option.split)
  then show ?thesis unfolding z foldM_append 2 .
qed

text \<open>At one time and from the first shard this is \<open>FlushAll\<close> without force.\<close>

lemma cycle_is_FlushAll:
  "map_option snd (sync_ticks cfg route io (replicate (shards) now) (0, st)) = FlushAll cfg route now False io st"
proof -
  have "zip [0..<n] (replicate n now) = map (\<lambda>i. (i, now)) [0..<n]" for n
    by (simp add: zip_replicate2)
  moreover have "foldM (flush_at cfg route io) st (map (\<lambda>i. (i, now)) xs) = foldM (\<lambda>st idx. FlushRRD cfg route now False io idx st) st xs" for xs
    by (induction xs arbitrary: st) (simp_all add: flush_at_def split: option.split)
  ultimately show ?thesis using cycle_flushes_every_shard [of 0 "replicate (shards) now" cfg route io st]
    unfolding FlushAll_def shards_def [symmetric] by simp
qed

section \<open>Answers of the worker\<close>

text \<open>
  Each task is answered, so that nobody waits for ever; a write whose directory cannot be made is answered twice, and
  the one who waits takes the first answer, an error, whether the file was written or not.
\<close>

theorem worker_answers:
  "ia_sent (fst (ioWorker_task lib task disk)) \<noteq> [] \<and>
    (length (ia_sent (fst (ioWorker_task lib task disk))) = 2 \<longleftrightarrow> (\<exists>e w f b. task = IoWrite (Some e) w f b))"
  by (cases task) (auto simp: ioWorker_task_def Let_def case_prod_beta split: option.split)

end
