(* ===== verification/Spec2Isabelle.thy ===== *)
theory Spec2Isabelle
  imports Composition Gateway_Flow Graph_Flow Graph_Moving Graph_Index Graph_Query Hbs_Agents Nodata_Flow Aggregator_Flow Api_Runs Agent_Flow
    Api_GraphFlow Api_Dashboard Api_Case Conn_Pool Counters Shell Graph_File
begin

text \<open>
  Falcon+ is a monitoring system of cooperating Go processes. Agents report metric values of
  hosts. A \<^emph>\<open>transfer\<close> (\<open>modules/transfer\<close>), or a \<^emph>\<open>gateway\<close> before it (\<open>modules/gateway\<close>), validates
  the points and distributes them by consistent hashing to \<^emph>\<open>judges\<close> (\<open>modules/judge\<close>), which
  compare the recent points of a series with the strategies and expressions users configured, and
  to \<^emph>\<open>graphs\<close> (\<open>modules/graph\<close>), which cache points and write them to round-robin files. The
  \<^emph>\<open>heartbeat server\<close> (\<open>modules/hbs\<close>) reads strategies, expressions, plugins and hosts from MySQL
  and serves them to judges and agents. A judge pushes alarm events to Redis; the \<^emph>\<open>alarm\<close>
  consumer (\<open>modules/alarm\<close>) takes them, files them, and composes messages. \<^emph>\<open>nodata\<close>
  (\<open>modules/nodata\<close>) reports a mock value for a series that has gone silent, and the \<^emph>\<open>aggregator\<close>
  (\<open>modules/aggregator\<close>) computes series of clusters from the series of their hosts. Users configure all
  of this through the \<^emph>\<open>API\<close> (\<open>modules/api\<close>), which writes the tables the others read.

  \<^bold>\<open>The theories, and the code they model.\<close>

  Foundations. \<open>Prelude\<close>: 64-bit integers that wrap (\<open>i64\<close>, Go's \<open>/\<close> and \<open>%\<close>), Go maps as association
  lists behind the contract \<open>keyed_store\<close>, folds that may panic (\<open>foldM\<close>). \<open>Go_Float\<close>: \<open>float64\<close>
  as NaN, infinities and rationals rounded half to even. \<open>Go_Strings\<close>: \<open>strings\<close> and \<open>strconv\<close> over
  byte strings. \<open>Go_Hash\<close>: MD5 and CRC-32 on 32-bit words. \<open>Go_Regexp\<close>: matching by derivatives,
  with their correctness, and splitting. \<open>Utils\<close> and \<open>Model\<close>: \<open>common/utils\<close> and \<open>common/model\<close>.
  \<open>Toolkit\<close>: the bounded queue and the hash ring of \<open>vendor/github.com/toolkits\<close>, which every
  statement about routing rests on, behind the contracts \<open>send_queue\<close> and \<open>node_ring\<close>. \<open>Conn_Pool\<close>: the
  bounded pools of connections of every client (\<open>common/backend_pool\<close>), behind the contract
  \<open>bounded_pool\<close>, under any interleaving of callers. \<open>Counters\<close>: \<open>common/proc\<close>. \<open>Shell\<close>: the command line
  (\<open>cmd\<close>, \<open>g\<close>).

  Judge. \<open>Judge_Store\<close>: the newest-first list of one series and the map over them
  (\<open>store/linkedlist.go\<close>, \<open>store/history.go\<close>, \<open>cron/cleaner.go\<close>). \<open>Judge_Func\<close>: the alarm functions and
  their parser (\<open>store/func.go\<close>). \<open>Judge_Engine\<close>: judging, events, the refresh of strategies and
  expressions and the receiving handler (\<open>store/judge.go\<close>, \<open>cron/strategy.go\<close>, \<open>rpc/receiver.go\<close>,
  \<open>g/var.go\<close>). \<open>Judge_Alarm\<close> shows that \<open>sendEventIfNeed\<close> refines a three-state automaton for each
  event; \<open>Judge_Process\<close> is the process as a step relation with its invariant, and shows by which
  expressions and strategies a point is judged.

  Agent. \<open>Agent_Funcs\<close>: from readings of the system to points (\<open>modules/agent/funcs\<close>). \<open>Agent_Core\<close>: the
  connection, sending, and a round of each periodic task (\<open>g\<close>, \<open>cron\<close>, \<open>plugins\<close>). \<open>Agent_Flow\<close>: the agent
  runs the plugins and makes the checks the heartbeat server asks for, the transfer takes its points,
  and what becomes of a batch or a call that fails.

  Transfer and gateway. \<open>Transfer_Core\<close>: receiving over RPC and telnet, conversion, alignment,
  routing to queues, a round of each forwarding task (\<open>receiver\<close>, \<open>sender\<close>). \<open>Transfer_Flow\<close> and
  \<open>Transfer_Deliver\<close>: accepted points are well formed, accounted for, and routed in order and to
  every replica; a round retries at most as often as the code says and never reorders. \<open>Gateway_Core\<close>
  and \<open>Gateway_Flow\<close>: the same for the gateway, and that what it relays the transfer takes.

  Graph. \<open>Graph_Store\<close>: the sharded cache and its keys (\<open>store\<close>, \<open>g/utils.go\<close>). \<open>Graph_Core\<close>:
  receiving, flushing, index and cleaning (\<open>rrdtool\<close>, \<open>index\<close>, \<open>cron\<close>, \<open>api\<close>). \<open>Graph_Flow\<close>: the invariant
  of the caches, what a flush moves or loses. \<open>Graph_Query\<close>: \<open>Graph.Query\<close>, the merge of the file
  with the cache. \<open>Graph_Migrate\<close> and \<open>Graph_Moving\<close>: the workers that move series to the nodes of a new
  ring (\<open>rrdtool/migrate.go\<close>), and that a series moves whole. \<open>Graph_Index\<close>: the rows of the index in
  the database, the full update, and that the caches in front of the tables change no answer. \<open>Graph_File\<close>: the
  layout of a file, fetching, the worker of file operations, and that the flushing loop visits every shard.

  Heartbeat server. \<open>Hbs_Core\<close>: the queries, caches and handlers (\<open>db\<close>, \<open>cache\<close>, \<open>rpc\<close>). \<open>Hbs_Inherit\<close>
  and \<open>Hbs_Flow\<close>: the chain of ancestors of a template, and template inheritance against a
  description without buckets or visiting orders. \<open>Hbs_Serve\<close>: the process as a step relation, and
  its answers. \<open>Hbs_Agents\<close>: expressions, plugins and the table of agents.

  Alarm, nodata, aggregator. \<open>Alarm_Core\<close> and \<open>Alarm_Flow\<close>: events from Redis to rows, texts,
  callbacks and messages, and what the combiner delivers. \<open>Nodata_Core\<close> and \<open>Nodata_Flow\<close>: the
  configuration, the status automaton each series refines, the times of mock values. \<open>Aggregator_Core\<close>
  and \<open>Aggregator_Flow\<close>: expressions, their evaluation, a worker's round and the table of workers,
  with the shared sender (\<open>common/sdk/sender\<close>).

  API. \<open>Api_Base\<close>: answers, tables and their well-formedness, parsing of arguments. \<open>Api_Uic\<close> and
  \<open>Api_Team\<close>: sessions, users and teams (\<open>controller/uic\<close>, \<open>model/uic\<close>, \<open>helper/session.go\<close>); \<open>Api_Safety\<close>
  and \<open>Api_Flow\<close>: the invariant of their tables under every request, who may change what, and what logging
  in and updates of teams achieve. \<open>Api_Portal\<close>, \<open>Api_Template\<close>, \<open>Api_Expression\<close>: the tables of the
  monitoring configuration and the handlers over them, with their transactions (\<open>controller/host\<close>,
  \<open>template\<close>, \<open>strategy\<close>, \<open>expression\<close>, \<open>mockcfg\<close>, \<open>model/falcon_portal\<close>); \<open>Api_Rules\<close> and \<open>Api_Formats\<close>:
  their invariant, who fills a group, what a deletion removes, and what the format checks let
  through. \<open>Api_Monitor\<close> writes the queries of the heartbeat server over these tables and shows which
  configured strategies are served; \<open>Api_Runs\<close> has a small configuration. \<open>Api_Graph\<close> is the client of
  the graphs (\<open>modules/api/graph\<close>) with the handlers that search, draw and delete series and the data
  source for Grafana (\<open>controller/graph\<close>); \<open>Api_GraphFlow\<close> shows that the API asks the node the transfer
  sends to, and that a deletion reaches the points. \<open>Api_Dashboard\<close>: graphs and screens
  (\<open>controller/dashboard_graph\<close>, \<open>dashboard_screen\<close>). \<open>Api_Case\<close>: the lists of alarm cases and the notes of
  operators (\<open>controller/alarm\<close>), over the tables \<open>Alarm_Core\<close> fills, and the invariant of both together.

  \<open>Composition\<close> joins heartbeat server, judge and alarm consumer into one step relation
  (\<open>falcon_step\<close>) and shows that no handler panics after a run (\<open>falcon_run\<close>) in which every strategy and
  expression in the heartbeat server's caches had a function that parses; what the heartbeat
  server promises of its answer is what the judge assumes, and likewise for the events. The
  condition is one on what users store: the API checks no function, a function that does not parse panics
  the judge (\<open>unparsed_function_panics\<close>), and an expression without a closing parenthesis the
  heartbeat server's reload (\<open>accepted_expression_stops_hbs\<close>).
\<close>

text \<open>
  \<^bold>\<open>How the code is modelled.\<close> A struct is a record with the source's field names under a prefix, the
  variables of a package are a state record, a handler is a function on it. A panic (an index out of
  range, a nil dereference, a division by zero) is \<open>None\<close>; an error value is \<open>Inl\<close> of a sum. Integers
  of 64 bits are \<open>int\<close>s and the results of operations that may overflow are wrapped by \<open>i64\<close>; hashes
  are words. A nil pointer that the code checks or could dereference is \<open>None\<close> of an option.

  A Go map is visited in an order of its own. Maps that are part of a state are lists of pairs, so
  that a statement for every state holds for every order; for a map that a handler builds and visits
  itself, the order is the argument \<open>visit\<close>, any function that permutes (\<open>permutes_maps\<close>).

  Each handler is one atomic step, as its critical sections allow: where a handler takes several locks
  one after the other, only its own run is described and no interleaving inside it. In particular,
  the length check and the push of \<open>SafeListLimited\<close> are two critical sections of the source, so with
  concurrent pushes a queue may exceed its bound by the number of pushers; here they are one.

  The environment's answers are arguments: rows of a query or an error, the outcome of a remote
  call, the clock, the random number of a host choice. Where a statement assumes something of them,
  the assumption is in it.

  \<^bold>\<open>Loops.\<close> Loops over slices and maps are folds; index loops recur on the remaining list. Loops that
  step through time (\<open>derive_cache\<close>, \<open>gauge_cache\<close>, \<open>fill_missing\<close> in \<open>Graph_Query\<close>) or through batches
  (\<open>batches\<close> in \<open>Nodata_Core\<close>) need not end, because the step comes from outside: they are
  \<open>partial_function\<close>s, \<open>None\<close> stands for not returning (or a panic), and \<open>sendMock_returns\<close> says
  exactly when the second returns. \<open>ParentIds\<close> carries the source's own limit of ten steps. The
  wait for a started program (\<open>isStarted_from\<close> in \<open>Shell\<close>) need not end either, and \<open>failed_start_hangs\<close> says when. The
  retry loops of the senders carry the source's bounds (three for judges and graphs, the configured
  numbers for TSDB and the gateway). There is no other fuel.

  \<^bold>\<open>What the theorems show.\<close> Safety over all histories (\<open>falcon_never_panics\<close>, \<open>Send_never_panics\<close>,
  \<open>received_points_safe\<close>, these three for functions that parse, and \<open>WorkerRun_total\<close>) and all requests (\<open>no_rights_without_admin\<close>, \<open>teams_protected\<close>,
  \<open>group_members_protected\<close>); refinement of an abstract machine (\<open>sendEventIfNeed_refines\<close>,
  \<open>nodata_judge_refines\<close>); exactness against a reference (\<open>CalcInherit_exact\<close>, \<open>served_strategies_filed\<close>,
  \<open>configured_strategy_served\<close>, \<open>ParentIds_exact\<close>, \<open>CheckExpression_exactly_once\<close>,
  \<open>lookup_counter_transparent\<close>, \<open>api_asks_the_transfers_node\<close>); delivery and order (\<open>RecvMetricValues_accounts\<close>,
  \<open>Push2Judge_routes_in_order\<close>, \<open>Push2Graph_replicates\<close>, \<open>forward_round_delivers\<close>, \<open>moved_series_whole\<close>,
  \<open>send_data_keeps\<close>, \<open>combineSms_delivers\<close>, \<open>collected_points_taken\<close>); following what another process says
  (\<open>checks_follow\<close>, \<open>plugins_follow\<close>, \<open>deleted_series_reached\<close>, \<open>closed_case_reopened\<close>); invariants of caches and tables (\<open>handleItems_invariant\<close>,
  \<open>uic_serve_invariant\<close>, \<open>portal_serve_formats\<close>, and \<open>portal_serve_invariant\<close>, which only says that the keys of the tables hold,
  \<open>cases_explained_by_notes\<close>, \<open>pool_never_overcommits\<close>); whole effects of requests
  (\<open>BindHost_all_or_nothing\<close>, \<open>DeleteTemplate_clean\<close>, \<open>UpdateTeam_members\<close>, \<open>AddNotes_all_or_nothing\<close>); round trips
  (\<open>grafana_target_roundtrip\<close>, \<open>tmp_graph_shared\<close>, \<open>parseExpression_roundtrip\<close>, \<open>agg_evaluates\<close>, \<open>relayed_point_taken\<close>);
  and error behaviour the code should not have (\<open>CommitByKey_moves_or_loses\<close>, \<open>GetRrd_loses\<close>, \<open>new_disk_poisons_batch\<close>,
  \<open>accepted_expression_stops_hbs\<close>).

  \<^bold>\<open>Not modelled.\<close> How the agent reads \<open>/proc\<close> and runs commands and plugins: their results are arguments.
  What MySQL answers to a regular expression or to a text of SQL that a handler builds is an argument. Listeners, start-up, status pages,
  performance counters beyond those that accompany an operation, log output, JSON
  and the decoding of requests are left out everywhere. The object-relational mapper and MySQL are
  tables as lists of rows; the order of texts in the database, its collation and the success of each
  statement are arguments. The round-robin library is C code behind a binding: a file is the list of
  accepted updates. The interleavings of handlers of one process at the grain of single locks, and
  of the transactions of two requests, are not modelled.
\<close>

end
